(* ===== verification/Base64.thy ===== *)
theory Base64
  imports Prelude
begin

text \<open>
  The base64url codec of \<open>packages/crypto-core/src/encoding/base64url.ts\<close>, written over
  \<open>btoa\<close> and \<open>atob\<close> as the source writes it, with the two Node \<open>Buffer\<close> conversions the
  runtime uses beside it. \<open>b64url\<close> is the reference: unpadded base64url by direct recursion.
\<close>

subsection \<open>The two alphabets\<close>

text \<open>The alphabets are given by character code.\<close>

definition b64_code :: "nat \<Rightarrow> nat" where
  "b64_code n =
     (if n < 26 then 65 + n else if n < 52 then 71 + n else if n < 62 then n - 4
      else if n = 62 then 43 else 47)"

definition b64_uncode :: "nat \<Rightarrow> nat option" where
  "b64_uncode k =
     (if 65 \<le> k \<and> k \<le> 90 then Some (k - 65)
      else if 97 \<le> k \<and> k \<le> 122 then Some (k - 71)
      else if 48 \<le> k \<and> k \<le> 57 then Some (k + 4)
      else if k = 43 then Some 62
      else if k = 47 then Some 63 else None)"

definition to_url_code :: "nat \<Rightarrow> nat" where
  "to_url_code k = (if k = 43 then 45 else if k = 47 then 95 else k)"

definition from_url_code :: "nat \<Rightarrow> nat" where
  "from_url_code k = (if k = 45 then 43 else if k = 95 then 47 else k)"

definition b64_char :: "nat \<Rightarrow> char" where
  "b64_char n = char_of (b64_code n)"

definition b64_index :: "char \<Rightarrow> nat option" where
  "b64_index c = b64_uncode (of_char c)"

definition to_url :: "char \<Rightarrow> char" where
  "to_url c = char_of (to_url_code (of_char c))"

definition from_url :: "char \<Rightarrow> char" where
  "from_url c = char_of (from_url_code (of_char c))"

definition url_char :: "nat \<Rightarrow> char" where
  "url_char n = to_url (b64_char n)"

subsection \<open>btoa and atob\<close>

fun btoa :: "bytes \<Rightarrow> string" where
  "btoa [] = []"
| "btoa [a] =
     (let x = of_char a in
      [b64_char (x div 4), b64_char (x mod 4 * 16), CHR ''='', CHR ''=''])"
| "btoa [a, b] =
     (let x = of_char a; y = of_char b in
      [b64_char (x div 4), b64_char (x mod 4 * 16 + y div 16), b64_char (y mod 16 * 4), CHR ''=''])"
| "btoa (a # b # c # rest) =
     (let x = of_char a; y = of_char b; z = of_char c in
      [b64_char (x div 4), b64_char (x mod 4 * 16 + y div 16),
       b64_char (y mod 16 * 4 + z div 64), b64_char (z mod 64)] @ btoa rest)"

text \<open>Six-bit groups back to bytes; the bits that do not fill a byte are dropped.\<close>

fun sextets :: "nat list \<Rightarrow> bytes" where
  "sextets [] = []"
| "sextets [w] = []"
| "sextets [w, x] = [char_of (w * 4 + x div 16)]"
| "sextets [w, x, y] = [char_of (w * 4 + x div 16), char_of (x mod 16 * 16 + y div 4)]"
| "sextets (w # x # y # z # rest) =
     [char_of (w * 4 + x div 16), char_of (x mod 16 * 16 + y div 4), char_of (y mod 4 * 64 + z)]
     @ sextets rest"

fun indices :: "string \<Rightarrow> nat list option" where
  "indices [] = Some []"
| "indices (c # cs) =
     (case b64_index c of None \<Rightarrow> None
      | Some i \<Rightarrow> (case indices cs of None \<Rightarrow> None | Some is \<Rightarrow> Some (i # is)))"

definition is_space :: "char \<Rightarrow> bool" where
  "is_space c = (of_char c \<in> {9 :: nat, 10, 12, 13, 32})"

text \<open>\<open>s.replace(/=+$/, "")\<close>.\<close>

definition strip_pad :: "string \<Rightarrow> string" where
  "strip_pad s = rev (dropWhile (\<lambda>c. c = CHR ''='') (rev s))"

text \<open>
  The forgiving decoder of the WHATWG standard: white space is removed, one or two trailing
  \<open>=\<close> are removed when the length is a multiple of four, a remainder of one character or a
  character outside the alphabet throws (\<open>None\<close>).
\<close>

definition atob_strip :: "string \<Rightarrow> string" where
  "atob_strip s =
     (if length s mod 4 = 0
      then (case rev s of
              (a # b # r) \<Rightarrow>
                if a = CHR ''='' then (if b = CHR ''='' then rev r else rev (b # r)) else s
            | _ \<Rightarrow> s)
      else s)"

definition atob :: "string \<Rightarrow> bytes option" where
  "atob s =
     (let t = atob_strip (filter (\<lambda>c. \<not> is_space c) s) in
      if length t mod 4 = 1 then None else map_option sextets (indices t))"

subsection \<open>The codec\<close>

definition encodeBase64Url :: "bytes \<Rightarrow> string" where
  "encodeBase64Url bs = strip_pad (map to_url (btoa bs))"

definition decodeBase64Url :: "string \<Rightarrow> bytes result" where
  "decodeBase64Url s = of_option (PlainError ''InvalidCharacterError'') (atob (map from_url s))"

text \<open>\<open>Buffer.from(s, "base64url")\<close>: stops at a padding character, skips what is not in
  either alphabet, drops a dangling group.\<close>

definition buffer_from_base64url :: "string \<Rightarrow> bytes" where
  "buffer_from_base64url s =
     sextets (List.map_filter (\<lambda>c. b64_index (from_url c)) (takeWhile (\<lambda>c. c \<noteq> CHR ''='') s))"

fun b64url :: "bytes \<Rightarrow> string" where
  "b64url [] = []"
| "b64url [a] =
     (let x = of_char a in [url_char (x div 4), url_char (x mod 4 * 16)])"
| "b64url [a, b] =
     (let x = of_char a; y = of_char b in
      [url_char (x div 4), url_char (x mod 4 * 16 + y div 16), url_char (y mod 16 * 4)])"
| "b64url (a # b # c # rest) =
     (let x = of_char a; y = of_char b; z = of_char c in
      [url_char (x div 4), url_char (x mod 4 * 16 + y div 16),
       url_char (y mod 16 * 4 + z div 64), url_char (z mod 64)] @ b64url rest)"

subsection \<open>Alphabet lemmas\<close>

lemma code_bounds [simp]:
  "b64_code n < 256" "k < 256 \<Longrightarrow> to_url_code k < 256" "k < 256 \<Longrightarrow> from_url_code k < 256"
  by (auto simp: b64_code_def to_url_code_def from_url_code_def)

lemma of_char_alphabet [simp]:
  "(of_char (b64_char n) :: nat) = b64_code n"
  "(of_char (to_url c) :: nat) = to_url_code (of_char c)"
  "(of_char (from_url c) :: nat) = from_url_code (of_char c)"
  by (simp_all only: b64_char_def to_url_def from_url_def of_char_of_small code_bounds
        nat_of_char_less_256)

lemma of_char_url_char [simp]: "(of_char (url_char n) :: nat) = to_url_code (b64_code n)"
  by (simp add: url_char_def)

lemma b64_index_char [simp]: "n < 64 \<Longrightarrow> b64_index (b64_char n) = Some n"
  unfolding b64_index_def of_char_alphabet b64_uncode_def b64_code_def by auto

lemma b64_uncode_Some: "b64_uncode k = Some n \<Longrightarrow> n < 64 \<and> b64_code n = k"
  unfolding b64_uncode_def b64_code_def by (auto split: if_splits)

lemma b64_index_Some:
  assumes "b64_index c = Some n"
  shows "n < 64" "b64_char n = c"
  using b64_uncode_Some [of "of_char c" n] assms
  by (simp_all only: b64_index_def char_eq_code of_char_alphabet)

lemma from_to_url_code: "n < 64 \<Longrightarrow> from_url_code (to_url_code (b64_code n)) = b64_code n"
  unfolding from_url_code_def to_url_code_def b64_code_def by auto

lemma url_char_plain [simp]:
  assumes "n < 64"
  shows "from_url (url_char n) = b64_char n" "url_char n \<noteq> CHR ''=''"
    "\<not> is_space (b64_char n)" "b64_char n \<noteq> CHR ''=''"
proof -
  show "from_url (url_char n) = b64_char n"
    using assms by (simp only: char_eq_code of_char_alphabet of_char_url_char from_to_url_code)
  have "to_url_code (b64_code n) \<noteq> 61"
    using assms unfolding to_url_code_def b64_code_def by auto
  then show "url_char n \<noteq> CHR ''=''"
    by (simp add: char_eq_code del: of_char_eq_iff)
  have b: "b64_code n \<noteq> 61" "33 \<le> b64_code n"
    using assms unfolding b64_code_def by auto
  from b(1) show "b64_char n \<noteq> CHR ''=''"
    by (simp add: char_eq_code del: of_char_eq_iff)
  from b(2) show "\<not> is_space (b64_char n)" by (auto simp: is_space_def)
qed

text \<open>The character class \<open>[A-Za-z0-9_-]\<close>.\<close>

definition is_url_code :: "nat \<Rightarrow> bool" where
  "is_url_code k =
     (65 \<le> k \<and> k \<le> 90 \<or> 97 \<le> k \<and> k \<le> 122 \<or> 48 \<le> k \<and> k \<le> 57 \<or> k = 95 \<or> k = 45)"

definition is_url_char :: "char \<Rightarrow> bool" where
  "is_url_char c = is_url_code (of_char c)"

lemma url_char_is_url [simp]: "n < 64 \<Longrightarrow> is_url_char (url_char n)"
  unfolding is_url_char_def of_char_url_char is_url_code_def to_url_code_def b64_code_def by auto

lemma is_url_charE:
  assumes "is_url_char c"
  obtains n where "n < 64" "c = url_char n" "b64_index (from_url c) = Some n"
proof -
  have u: "is_url_code (of_char c)" using assms by (simp add: is_url_char_def)
  then have "\<exists>n. b64_uncode (from_url_code (of_char c)) = Some n"
    unfolding is_url_code_def b64_uncode_def from_url_code_def by auto
  then obtain n where n: "b64_uncode (from_url_code (of_char c)) = Some n" ..
  from b64_uncode_Some [OF n] have "n < 64" "b64_code n = from_url_code (of_char c)" by simp_all
  moreover have "to_url_code (from_url_code (of_char c)) = of_char c"
    using u unfolding is_url_code_def to_url_code_def from_url_code_def by auto
  ultimately have "n < 64" "c = url_char n"
    by (simp_all only: char_eq_code of_char_url_char)
  then show thesis using n that [of n] by (simp only: b64_index_def of_char_alphabet)
qed

subsection \<open>The codec agrees with the reference and inverts\<close>

lemma mixed_radix [simp]:
  fixes a b n :: nat
  assumes "b < n"
  shows "(a * n + b) div n = a" "(a * n + b) mod n = b"
  using assms by simp_all

lemma small_quotients:
  fixes x :: nat
  assumes "x < 256"
  shows "x div 4 < 64" "x div 16 < 16" "x div 64 < 4"
  using assms by (simp_all add: less_mult_imp_div_less)

lemma sext_bound [simp]:
  "(of_char a :: nat) div 4 < 64" "(of_char a :: nat) mod 4 * 16 < 64"
  "(of_char a :: nat) mod 4 * 16 + (of_char b :: nat) div 16 < 64"
  "(of_char a :: nat) mod 16 * 4 < 64"
  "(of_char a :: nat) mod 16 * 4 + (of_char b :: nat) div 64 < 64"
  "(of_char a :: nat) mod 64 < 64"
proof -
  note q = small_quotients [OF nat_of_char_less_256 [of a]] small_quotients [OF nat_of_char_less_256 [of b]]
  have m: "(of_char a :: nat) mod 4 < 4" "(of_char a :: nat) mod 16 < 16" "(of_char a :: nat) mod 64 < 64"
    by simp_all
  show "(of_char a :: nat) div 4 < 64" "(of_char a :: nat) mod 4 * 16 < 64"
    "(of_char a :: nat) mod 4 * 16 + (of_char b :: nat) div 16 < 64"
    "(of_char a :: nat) mod 16 * 4 < 64"
    "(of_char a :: nat) mod 16 * 4 + (of_char b :: nat) div 64 < 64"
    "(of_char a :: nat) mod 64 < 64"
    using q m by linarith+
qed

lemma set_b64url: "set (b64url bs) \<subseteq> url_char ` {n. n < 64}"
  by (induction bs rule: b64url.induct) (simp_all add: Let_def imageI)

lemma b64url_chars: "c \<in> set (b64url bs) \<Longrightarrow> \<exists>n < 64. c = url_char n"
  using set_b64url by blast

lemma b64url_is_url: "c \<in> set (b64url bs) \<Longrightarrow> is_url_char c"
  using b64url_chars by fastforce

lemma b64url_no_pad [simp]: "CHR ''='' \<notin> set (b64url bs)"
proof
  assume "CHR ''='' \<in> set (b64url bs)"
  from b64url_is_url [OF this] show False by (simp add: is_url_char_def is_url_code_def)
qed

lemma to_url_pad [simp]: "to_url (CHR ''='') = CHR ''=''"
  by (simp only: char_eq_code of_char_alphabet) (simp add: to_url_code_def)

lemma replicate_two: "replicate 2 c = [c, c]"
  by (simp add: numeral_2_eq_2)

lemma btoa_b64url:
  "map to_url (btoa bs) = b64url bs @ replicate ((3 - length bs mod 3) mod 3) (CHR ''='')"
  by (induction bs rule: b64url.induct) (simp_all add: Let_def replicate_two flip: url_char_def)

lemma strip_pad_replicate:
  assumes "CHR ''='' \<notin> set xs"
  shows "strip_pad (xs @ replicate k (CHR ''='')) = xs"
proof -
  have "dropWhile (\<lambda>c. c = CHR ''='') (rev xs) = rev xs"
  proof (cases "rev xs")
    case (Cons y ys)
    then have "y \<in> set xs" by (metis list.set_intros(1) set_rev)
    with assms Cons show ?thesis by auto
  qed simp
  then show ?thesis
    using dropWhile_append2 [of "replicate k (CHR ''='')" "\<lambda>c. c = CHR ''=''" "rev xs"]
    by (simp add: strip_pad_def)
qed

lemma encode_eq_b64url: "encodeBase64Url bs = b64url bs"
  by (simp add: encodeBase64Url_def btoa_b64url strip_pad_replicate)

lemma length_b64url: "length (b64url bs) = (length bs * 8 + 5) div 6"
  by (induction bs rule: b64url.induct) (simp_all add: Let_def)

lemma length_b64url_mod [simp]: "length (b64url bs) mod 4 \<noteq> Suc 0"
  by (induction bs rule: b64url.induct) (simp_all add: Let_def)

lemma byte_quotients:
  "(of_char a :: nat) div 16 < 16" "(of_char a :: nat) div 64 < 4"
  "(of_char a :: nat) div 16 div 16 = 0" "(of_char a :: nat) div 64 div 4 = 0"
  using small_quotients [OF nat_of_char_less_256 [of a]] by simp_all

lemma indices_b64url:
  "map_option sextets (indices (map from_url (b64url bs))) = Some bs"
proof (induction bs rule: b64url.induct)
  case (4 a b c rest)
  from 4 [OF refl refl refl]
  obtain ns where "indices (map from_url (b64url rest)) = Some ns" "sextets ns = rest"
    by auto
  then show ?case by (simp add: Let_def byte_quotients)
qed (simp_all add: Let_def byte_quotients)

lemma atob_strip_no_pad:
  assumes "CHR ''='' \<notin> set s"
  shows "atob_strip s = s"
proof (cases "rev s")
  case (Cons a r)
  with assms have "a \<noteq> CHR ''=''" by (metis list.set_intros(1) set_rev)
  with Cons show ?thesis by (simp add: atob_strip_def split: list.splits)
qed (simp add: atob_strip_def)

lemma from_b64url_clean:
  "filter (\<lambda>c. \<not> is_space c) (map from_url (b64url bs)) = map from_url (b64url bs)"
  "CHR ''='' \<notin> set (map from_url (b64url bs))"
proof -
  have "\<not> is_space (from_url c) \<and> from_url c \<noteq> CHR ''=''" if "c \<in> set (b64url bs)" for c
    using b64url_chars [OF that] by auto
  then have "\<forall>c \<in> set (map from_url (b64url bs)). \<not> is_space c \<and> c \<noteq> CHR ''=''" by simp
  then show "filter (\<lambda>c. \<not> is_space c) (map from_url (b64url bs)) = map from_url (b64url bs)"
    "CHR ''='' \<notin> set (map from_url (b64url bs))"
    by (auto simp: filter_id_conv)
qed

theorem decode_encode [simp]: "decodeBase64Url (encodeBase64Url bs) = Inr bs"
proof -
  have "atob (map from_url (b64url bs)) = Some bs"
    using atob_strip_no_pad [OF from_b64url_clean(2)]
    by (simp add: atob_def from_b64url_clean indices_b64url Let_def del: set_map)
  then show ?thesis by (simp add: decodeBase64Url_def encode_eq_b64url)
qed

lemma encode_inj [simp]: "encodeBase64Url a = encodeBase64Url b \<longleftrightarrow> a = b"
  by (metis decode_encode sum.inject(2))

lemma encode_no_colon [simp]: "CHR '':'' \<notin> set (encodeBase64Url bs)"
  using b64url_is_url [of "CHR '':''" bs] by (auto simp: encode_eq_b64url is_url_char_def is_url_code_def)

subsection \<open>Node's Buffer conversions\<close>

lemma b64_char_not_pad [simp]: "n < 64 \<Longrightarrow> b64_char n \<noteq> CHR ''=''"
  by (simp only: char_eq_code of_char_alphabet) (auto simp: b64_code_def)

lemma from_url_b64_char [simp]: "n < 64 \<Longrightarrow> from_url (b64_char n) = b64_char n"
  by (simp only: char_eq_code of_char_alphabet) (auto simp: b64_code_def from_url_code_def)

text \<open>\<open>Buffer.from(s, "base64")\<close> accepts both alphabets, so it is the same function.\<close>

lemma buffer_of_base64 [simp]: "buffer_from_base64url (btoa bs) = bs"
proof (induction bs rule: btoa.induct)
  case (4 a b c rest)
  from 4 [OF refl refl refl] show ?case
    by (simp add: buffer_from_base64url_def map_filter_simps Let_def byte_quotients)
qed (simp_all add: buffer_from_base64url_def map_filter_simps Let_def byte_quotients)

lemma from_url_char [simp]: "n < 64 \<Longrightarrow> from_url (url_char n) = b64_char n"
  by (simp only: char_eq_code of_char_alphabet of_char_url_char from_to_url_code)

lemma url_char_not_pad [simp]: "n < 64 \<Longrightarrow> url_char n \<noteq> CHR ''=''"
  by (simp only: char_eq_code of_char_url_char) (auto simp: b64_code_def to_url_code_def)

lemma buffer_of_base64url [simp]: "buffer_from_base64url (encodeBase64Url bs) = bs"
  unfolding encode_eq_b64url
proof (induction bs rule: b64url.induct)
  case (4 a b c rest)
  from 4 [OF refl refl refl] show ?case
    by (simp add: buffer_from_base64url_def map_filter_simps Let_def byte_quotients)
qed (simp_all add: buffer_from_base64url_def map_filter_simps Let_def byte_quotients)

text \<open>Canonical texts are images of the encoder: the unused low bits of the last group are zero.\<close>

fun canonical :: "nat list \<Rightarrow> bool" where
  "canonical [] = True"
| "canonical [w] = False"
| "canonical [w, x] = (x mod 16 = 0)"
| "canonical [w, x, y] = (y mod 4 = 0)"
| "canonical (w # x # y # z # rest) = canonical rest"

lemma byte_bounds:
  fixes w x y z :: nat
  shows "w < 64 \<Longrightarrow> x < 64 \<Longrightarrow> w * 4 + x div 16 < 256"
    "y < 64 \<Longrightarrow> x mod 16 * 16 + y div 4 < 256"
    "z < 64 \<Longrightarrow> y mod 4 * 64 + z < 256"
proof -
  show "w * 4 + x div 16 < 256" if "w < 64" "x < 64"
  proof -
    from that have "x div 16 < 4" by (simp add: less_mult_imp_div_less)
    with that show ?thesis by linarith
  qed
  show "x mod 16 * 16 + y div 4 < 256" if "y < 64"
  proof -
    from that have "y div 4 < 16" by (simp add: less_mult_imp_div_less)
    moreover have "x mod 16 < 16" by simp
    ultimately show ?thesis by linarith
  qed
  show "y mod 4 * 64 + z < 256" if "z < 64"
  proof -
    have "y mod 4 < 4" by simp
    with that show ?thesis by linarith
  qed
qed

lemma sextet_quotients:
  fixes x :: nat
  assumes "x < 64"
  shows "x div 16 < 4" "x div 4 < 16"
  using assms by (simp_all add: less_mult_imp_div_less)

lemma canonical_groups:
  fixes w x y z :: nat
  shows "x < 64 \<Longrightarrow> (w * 4 + x div 16) div 4 = w"
    "x < 64 \<Longrightarrow> y < 64 \<Longrightarrow> (w * 4 + x div 16) mod 4 * 16 + (x mod 16 * 16 + y div 4) div 16 = x"
    "y < 64 \<Longrightarrow> z < 64 \<Longrightarrow> (x mod 16 * 16 + y div 4) mod 16 * 4 + (y mod 4 * 64 + z) div 64 = y"
    "z < 64 \<Longrightarrow> (y mod 4 * 64 + z) mod 64 = z"
    "x < 64 \<Longrightarrow> x mod 16 = 0 \<Longrightarrow> (w * 4 + x div 16) mod 4 * 16 = x"
    "y < 64 \<Longrightarrow> y mod 4 = 0 \<Longrightarrow> (x mod 16 * 16 + y div 4) mod 16 * 4 = y"
  using div_mult_mod_eq [of x 16] div_mult_mod_eq [of y 4] by (simp_all add: sextet_quotients)

lemma b64url_sextets:
  assumes "canonical ns" "\<forall>n \<in> set ns. n < 64"
  shows "b64url (sextets ns) = map url_char ns"
  using assms
  by (induction ns rule: sextets.induct)
    (simp_all only: sextets.simps b64url.simps canonical.simps append.simps list.map list.set ball_simps
      insert_iff Let_def of_char_of_small byte_bounds canonical_groups, simp)

lemma length_sextets: "canonical ns \<Longrightarrow> length (sextets ns) = length ns * 6 div 8"
  by (induction ns rule: sextets.induct) simp_all

lemma indices_url:
  assumes "\<forall>c \<in> set s. is_url_char c"
  obtains ns where "s = map url_char ns" "\<forall>n \<in> set ns. n < 64"
    "List.map_filter (\<lambda>c. b64_index (from_url c)) s = ns"
proof -
  have "\<exists>ns. s = map url_char ns \<and> (\<forall>n \<in> set ns. n < 64) \<and>
          List.map_filter (\<lambda>c. b64_index (from_url c)) s = ns"
    using assms
  proof (induction s)
    case (Cons c s)
    then obtain ns where "s = map url_char ns" "\<forall>n \<in> set ns. n < 64"
      "List.map_filter (\<lambda>c. b64_index (from_url c)) s = ns" by auto
    moreover from Cons.prems have "is_url_char c" by simp
    then obtain n where "n < 64" "c = url_char n" "b64_index (from_url c) = Some n"
      by (rule is_url_charE)
    ultimately show ?case by (intro exI [of _ "n # ns"]) (simp add: List.map_filter_simps)
  qed (simp add: List.map_filter_simps)
  with that show thesis by blast
qed

interpretation b64: codec encodeBase64Url decodeBase64Url "\<lambda>_. True"
  by unfold_locales simp

text \<open>
  The base64url codec is lossless and canonical: decoding an encoding gives the bytes back,
  the text is the unpadded base64url of the reference recursion, has ceil(8n/6) characters, and
  uses only the letters, digits, \<open>-\<close> and \<open>_\<close>, so it never contains a transcript separator.
\<close>

theorem base64url_codec:
  "decodeBase64Url (encodeBase64Url bs) = Inr bs \<and> encodeBase64Url bs = b64url bs
   \<and> length (encodeBase64Url bs) = (length bs * 8 + 5) div 6
   \<and> list_all is_url_char (encodeBase64Url bs)"
  using b64url_is_url [of _ bs] length_b64url [of bs] decode_encode [of bs]
  by (simp add: list_all_iff encode_eq_b64url)

end
