(* ===== verification/Json.thy ===== *)
theory Json
  imports Prelude
begin

text \<open>
  JSON values, \<open>JSON.stringify\<close> and \<open>JSON.parse\<close>, which every stored record, signed
  text, request body and ciphertext wrapper of the program goes through. An object is the list
  of its properties in insertion order. Numbers are integers: every number the program writes
  is one, and a literal with a fraction or an exponent is not parsed.
\<close>

datatype json =
    JNull
  | JBool bool
  | JNum int
  | JStr string
  | JArr "json list"
  | JObj "(string \<times> json) list"

subsection \<open>Printing\<close>

definition hex_digit :: "nat \<Rightarrow> char" where
  "hex_digit d = (if d < 10 then char_of (48 + d) else char_of (87 + d))"

definition escape_char :: "char \<Rightarrow> string" where
  "escape_char c =
     (if c = CHR 0x22 then [CHR 0x5C, CHR 0x22]
      else if c = CHR 0x5C then [CHR 0x5C, CHR 0x5C]
      else if c = CHR 0x08 then [CHR 0x5C, CHR ''b'']
      else if c = CHR 0x0C then [CHR 0x5C, CHR ''f'']
      else if c = CHR 0x0A then [CHR 0x5C, CHR ''n'']
      else if c = CHR 0x0D then [CHR 0x5C, CHR ''r'']
      else if c = CHR 0x09 then [CHR 0x5C, CHR ''t'']
      else if (of_char c :: nat) < 32
        then [CHR 0x5C, CHR ''u'', CHR ''0'', CHR ''0'',
              hex_digit (of_char c div 16), hex_digit (of_char c mod 16)]
      else [c])"

definition quote :: "string \<Rightarrow> string" where
  "quote s = CHR 0x22 # concat (map escape_char s) @ [CHR 0x22]"

fun stringify :: "json \<Rightarrow> string"
  and stringify_elems :: "json list \<Rightarrow> string"
  and stringify_members :: "(string \<times> json) list \<Rightarrow> string" where
  "stringify JNull = ''null''"
| "stringify (JBool True) = ''true''"
| "stringify (JBool False) = ''false''"
| "stringify (JNum i) = show_int i"
| "stringify (JStr s) = quote s"
| "stringify (JArr vs) = CHR ''['' # stringify_elems vs @ '']''"
| "stringify (JObj kvs) = CHR ''{'' # stringify_members kvs @ ''}''"
| "stringify_elems [] = []"
| "stringify_elems [v] = stringify v"
| "stringify_elems (v # w # vs) = stringify v @ CHR '','' # stringify_elems (w # vs)"
| "stringify_members [] = []"
| "stringify_members [(k, v)] = quote k @ CHR '':'' # stringify v"
| "stringify_members ((k, v) # kv # kvs) =
     quote k @ CHR '':'' # stringify v @ CHR '','' # stringify_members (kv # kvs)"

subsection \<open>Parsing\<close>

definition is_ws :: "char \<Rightarrow> bool" where
  "is_ws c = (c = CHR 0x20 \<or> c = CHR 0x0A \<or> c = CHR 0x0D \<or> c = CHR 0x09)"

fun skip_ws :: "string \<Rightarrow> string" where
  "skip_ws [] = []"
| "skip_ws (c # cs) = (if is_ws c then skip_ws cs else c # cs)"

definition hex_val :: "char \<Rightarrow> nat option" where
  "hex_val c =
     (let k = (of_char c :: nat) in
      if 48 \<le> k \<and> k \<le> 57 then Some (k - 48)
      else if 97 \<le> k \<and> k \<le> 102 then Some (k - 87)
      else if 65 \<le> k \<and> k \<le> 70 then Some (k - 55) else None)"

definition hex4 :: "char \<Rightarrow> char \<Rightarrow> char \<Rightarrow> char \<Rightarrow> nat option" where
  "hex4 a b c d =
     (case (hex_val a, hex_val b, hex_val c, hex_val d) of
        (Some w, Some x, Some y, Some z) \<Rightarrow> Some (((w * 16 + x) * 16 + y) * 16 + z)
      | _ \<Rightarrow> None)"

text \<open>The UTF-8 bytes of one UTF-16 code unit; a lone surrogate encodes as U+FFFD.\<close>

definition utf8_unit :: "nat \<Rightarrow> string" where
  "utf8_unit k =
     (if k < 128 then [char_of k]
      else if k < 2048 then [char_of (192 + k div 64), char_of (128 + k mod 64)]
      else if 55296 \<le> k \<and> k < 57344 then [CHR 0xEF, CHR 0xBF, CHR 0xBD]
      else [char_of (224 + k div 4096), char_of (128 + k div 64 mod 64), char_of (128 + k mod 64)])"

definition utf8_pair :: "nat \<Rightarrow> nat \<Rightarrow> string" where
  "utf8_pair h l =
     (let k = 65536 + (h - 55296) * 1024 + (l - 56320) in
      [char_of (240 + k div 262144), char_of (128 + k div 4096 mod 64),
       char_of (128 + k div 64 mod 64), char_of (128 + k mod 64)])"

definition simple_escape :: "char \<Rightarrow> char option" where
  "simple_escape c =
     (if c = CHR 0x22 \<or> c = CHR 0x5C \<or> c = CHR ''/'' then Some c
      else if c = CHR ''b'' then Some (CHR 0x08)
      else if c = CHR ''f'' then Some (CHR 0x0C)
      else if c = CHR ''n'' then Some (CHR 0x0A)
      else if c = CHR ''r'' then Some (CHR 0x0D)
      else if c = CHR ''t'' then Some (CHR 0x09)
      else None)"

definition cons_text :: "string \<Rightarrow> (string \<times> string) option \<Rightarrow> (string \<times> string) option" where
  "cons_text t r = (case r of None \<Rightarrow> None | Some (u, rest) \<Rightarrow> Some (t @ u, rest))"

text \<open>The characters of a string literal up to its closing quote.\<close>

function parse_chars :: "string \<Rightarrow> (string \<times> string) option" where
  "parse_chars s =
     (case s of [] \<Rightarrow> None
      | c # cs \<Rightarrow>
          if c = CHR 0x22 then Some ([], cs)
          else if (of_char c :: nat) < 32 then None
          else if c \<noteq> CHR 0x5C then cons_text [c] (parse_chars cs)
          else (case cs of [] \<Rightarrow> None
            | e # es \<Rightarrow>
                if e \<noteq> CHR ''u'' then
                  (case simple_escape e of None \<Rightarrow> None
                   | Some x \<Rightarrow> cons_text [x] (parse_chars es))
                else if length es < 4 then None
                else (case hex4 (es ! 0) (es ! 1) (es ! 2) (es ! 3) of None \<Rightarrow> None
                  | Some h \<Rightarrow>
                      let r = drop 4 es in
                      if 55296 \<le> h \<and> h < 56320 \<and> 6 \<le> length r \<and> r ! 0 = CHR 0x5C \<and> r ! 1 = CHR ''u''
                      then (case hex4 (r ! 2) (r ! 3) (r ! 4) (r ! 5) of
                              Some l \<Rightarrow>
                                if 56320 \<le> l \<and> l < 57344
                                then cons_text (utf8_pair h l) (parse_chars (drop 6 r))
                                else cons_text (utf8_unit h) (parse_chars r)
                            | None \<Rightarrow> None)
                      else cons_text (utf8_unit h) (parse_chars r))))"
  by pat_completeness auto
termination by (relation "measure length") (auto simp: Let_def)

declare parse_chars.simps [simp del]

text \<open>An optional sign and the digits; no leading zero, no fraction, no exponent.\<close>

definition parse_digits :: "string \<Rightarrow> (nat \<times> string) option" where
  "parse_digits s =
     (let ds = takeWhile is_digit s; r = dropWhile is_digit s in
      if ds = [] \<or> (hd ds = CHR ''0'' \<and> length ds > 1) then None
      else if r \<noteq> [] \<and> (hd r = CHR ''.'' \<or> hd r = CHR ''e'' \<or> hd r = CHR ''E'') then None
      else Some (read_nat ds, r))"

definition parse_number :: "string \<Rightarrow> (json \<times> string) option" where
  "parse_number s =
     (case s of
        c # cs \<Rightarrow>
          if c = CHR ''-''
          then (case parse_digits cs of None \<Rightarrow> None | Some (n, r) \<Rightarrow> Some (JNum (- int n), r))
          else (case parse_digits s of None \<Rightarrow> None | Some (n, r) \<Rightarrow> Some (JNum (int n), r))
      | [] \<Rightarrow> None)"

definition parse_word :: "string \<Rightarrow> json \<Rightarrow> string \<Rightarrow> (json \<times> string) option" where
  "parse_word w v s = (if prefix w s then Some (v, drop (length w) s) else None)"

text \<open>A property assignment: a repeated name keeps its place and takes the new value.\<close>

fun obj_put :: "string \<Rightarrow> 'a \<Rightarrow> (string \<times> 'a) list \<Rightarrow> (string \<times> 'a) list" where
  "obj_put k v [] = [(k, v)]"
| "obj_put k v ((k', v') # kvs) = (if k' = k then (k', v) # kvs else (k', v') # obj_put k v kvs)"

definition obj_of :: "(string \<times> 'a) list \<Rightarrow> (string \<times> 'a) list" where
  "obj_of kvs = foldl (\<lambda>acc (k, v). obj_put k v acc) [] kvs"

text \<open>
  The first argument bounds the nesting. Two calls consume at least one character, so one more
  than twice the length of the text is enough (\<open>parse_json_fuel\<close> below).
\<close>

fun parse_value :: "nat \<Rightarrow> string \<Rightarrow> (json \<times> string) option"
  and parse_elems :: "nat \<Rightarrow> string \<Rightarrow> (json list \<times> string) option"
  and parse_members :: "nat \<Rightarrow> string \<Rightarrow> ((string \<times> json) list \<times> string) option" where
  "parse_value 0 s = None"
| "parse_value (Suc n) s =
     (case skip_ws s of [] \<Rightarrow> None
      | c # cs \<Rightarrow>
          if c = CHR ''{'' then
            (case skip_ws cs of [] \<Rightarrow> None
             | d # ds \<Rightarrow>
                 if d = CHR ''}'' then Some (JObj [], ds)
                 else (case parse_members n (d # ds) of None \<Rightarrow> None
                       | Some (kvs, r) \<Rightarrow> Some (JObj (obj_of kvs), r)))
          else if c = CHR ''['' then
            (case skip_ws cs of [] \<Rightarrow> None
             | d # ds \<Rightarrow>
                 if d = CHR '']'' then Some (JArr [], ds)
                 else (case parse_elems n (d # ds) of None \<Rightarrow> None
                       | Some (vs, r) \<Rightarrow> Some (JArr vs, r)))
          else if c = CHR 0x22 then
            (case parse_chars cs of None \<Rightarrow> None | Some (t, r) \<Rightarrow> Some (JStr t, r))
          else if c = CHR ''n'' then parse_word ''null'' JNull (c # cs)
          else if c = CHR ''t'' then parse_word ''true'' (JBool True) (c # cs)
          else if c = CHR ''f'' then parse_word ''false'' (JBool False) (c # cs)
          else parse_number (c # cs))"
| "parse_elems 0 s = None"
| "parse_elems (Suc n) s =
     (case parse_value n s of None \<Rightarrow> None
      | Some (v, r) \<Rightarrow>
          (case skip_ws r of [] \<Rightarrow> None
           | c # cs \<Rightarrow>
               if c = CHR '']'' then Some ([v], cs)
               else if c = CHR '','' then
                 (case parse_elems n cs of None \<Rightarrow> None | Some (vs, q) \<Rightarrow> Some (v # vs, q))
               else None))"
| "parse_members 0 s = None"
| "parse_members (Suc n) s =
     (case skip_ws s of [] \<Rightarrow> None
      | q # qs \<Rightarrow>
          if q \<noteq> CHR 0x22 then None
          else (case parse_chars qs of None \<Rightarrow> None
            | Some (k, r) \<Rightarrow>
                (case skip_ws r of [] \<Rightarrow> None
                 | c # cs \<Rightarrow>
                     if c \<noteq> CHR '':'' then None
                     else (case parse_value n cs of None \<Rightarrow> None
                       | Some (v, u) \<Rightarrow>
                           (case skip_ws u of [] \<Rightarrow> None
                            | d # ds \<Rightarrow>
                                if d = CHR ''}'' then Some ([(k, v)], ds)
                                else if d = CHR '','' then
                                  (case parse_members n ds of None \<Rightarrow> None
                                   | Some (kvs, w) \<Rightarrow> Some ((k, v) # kvs, w))
                                else None)))))"

definition parse_json :: "string \<Rightarrow> json option" where
  "parse_json s =
     (case parse_value (Suc (2 * length s)) s of None \<Rightarrow> None
      | Some (v, r) \<Rightarrow> if skip_ws r = [] then Some v else None)"

text \<open>The \<open>encode\<close> and \<open>decode\<close> helpers each runtime module declares.\<close>

abbreviation encode :: "json \<Rightarrow> bytes" where
  "encode \<equiv> stringify"

definition decode :: "bytes \<Rightarrow> json result" where
  "decode b = of_option (PlainError ''SyntaxError'') (parse_json b)"

subsection \<open>Printing and parsing are inverse\<close>

fun wf_json :: "json \<Rightarrow> bool"
  and wf_elems :: "json list \<Rightarrow> bool"
  and wf_members :: "(string \<times> json) list \<Rightarrow> bool" where
  "wf_json JNull = True"
| "wf_json (JBool b) = True"
| "wf_json (JNum i) = True"
| "wf_json (JStr s) = True"
| "wf_json (JArr vs) = wf_elems vs"
| "wf_json (JObj kvs) = (distinct (map fst kvs) \<and> wf_members kvs)"
| "wf_elems [] = True"
| "wf_elems (v # vs) = (wf_json v \<and> wf_elems vs)"
| "wf_members [] = True"
| "wf_members ((k, v) # kvs) = (wf_json v \<and> wf_members kvs)"

lemma wf_elems_iff: "wf_elems vs \<longleftrightarrow> (\<forall>v \<in> set vs. wf_json v)"
  by (induction vs) auto

lemma wf_members_iff: "wf_members kvs \<longleftrightarrow> (\<forall>kv \<in> set kvs. wf_json (snd kv))"
  by (induction kvs) auto

lemma obj_put_new: "k \<notin> fst ` set kvs \<Longrightarrow> obj_put k v kvs = kvs @ [(k, v)]"
  by (induction kvs) auto

lemma foldl_obj_put:
  "distinct (map fst (acc @ kvs)) \<Longrightarrow> foldl (\<lambda>acc (k, v). obj_put k v acc) acc kvs = acc @ kvs"
proof (induction kvs arbitrary: acc)
  case (Cons kv kvs)
  obtain k v where kv: "kv = (k, v)" by (cases kv)
  from Cons.prems kv have "k \<notin> fst ` set acc" by auto
  then have "obj_put k v acc = acc @ [(k, v)]" by (rule obj_put_new)
  with Cons.IH [of "acc @ [(k, v)]"] Cons.prems kv show ?case by simp
qed simp

lemma obj_of_distinct: "distinct (map fst kvs) \<Longrightarrow> obj_of kvs = kvs"
  using foldl_obj_put [of "[]" kvs] by (simp add: obj_of_def)

lemma hex_val_digit: "d < 16 \<Longrightarrow> hex_val (hex_digit d) = Some d"
  by (simp add: hex_val_def hex_digit_def Let_def)

lemma parse_escaped:
  "parse_chars (escape_char c @ t) = cons_text [c] (parse_chars t)"
proof (cases "(of_char c :: nat) < 32 \<and> c \<notin> {CHR 0x08, CHR 0x0C, CHR 0x0A, CHR 0x0D, CHR 0x09}")
  case True
  let ?k = "of_char c :: nat"
  from True have k: "?k < 32" by simp
  then have q: "?k \<noteq> of_char (CHR 0x22)" "?k \<noteq> of_char (CHR 0x5C)" by simp_all
  then have ne: "c \<noteq> CHR 0x22" "c \<noteq> CHR 0x5C" by (auto simp only: char_eq_code)
  have e: "escape_char c = [CHR 0x5C, CHR ''u'', CHR ''0'', CHR ''0'', hex_digit (?k div 16), hex_digit (?k mod 16)]"
    using True ne by (simp add: escape_char_def)
  have d: "?k div 16 < 16" "?k mod 16 < 16" using k by (simp_all add: less_mult_imp_div_less)
  have z: "hex_val (CHR ''0'') = Some 0" by (simp add: hex_val_def)
  have h: "hex4 (CHR ''0'') (CHR ''0'') (hex_digit (?k div 16)) (hex_digit (?k mod 16)) = Some ?k"
    using d by (simp add: hex4_def z hex_val_digit)
  have u: "utf8_unit ?k = [c]" using k by (simp add: utf8_unit_def)
  show ?thesis
    using k h u unfolding e by (subst parse_chars.simps) (simp add: Let_def nth_Cons_numeral)
next
  case False
  then consider "c = CHR 0x22" | "c = CHR 0x5C" | "c = CHR 0x08" | "c = CHR 0x0C" | "c = CHR 0x0A"
    | "c = CHR 0x0D" | "c = CHR 0x09"
    | "\<not> (of_char c :: nat) < 32" "c \<noteq> CHR 0x22" "c \<noteq> CHR 0x5C" by auto
  then show ?thesis
  proof cases
    case 8
    then have "c \<notin> {CHR 0x08, CHR 0x0C, CHR 0x0A, CHR 0x0D, CHR 0x09}" by auto
    with 8 have "escape_char c = [c]" by (simp add: escape_char_def)
    with 8 show ?thesis by (subst parse_chars.simps) simp
  qed (subst parse_chars.simps, simp add: escape_char_def simple_escape_def)+
qed

lemma parse_quoted: "parse_chars (concat (map escape_char s) @ CHR 0x22 # rest) = Some (s, rest)"
proof (induction s)
  case Nil
  show ?case by (subst parse_chars.simps) simp
next
  case (Cons c s)
  then show ?case by (simp add: parse_escaped cons_text_def)
qed

definition terminated :: "string \<Rightarrow> bool" where
  "terminated rest = (rest = [] \<or> hd rest \<in> {CHR '','', CHR '']'', CHR ''}'', CHR 0x0A})"

lemma terminated_simps [simp]:
  "terminated []" "terminated (CHR '','' # r)" "terminated (CHR '']'' # r)" "terminated (CHR ''}'' # r)"
  "terminated (CHR 0x0A # r)"
  by (simp_all add: terminated_def)

lemma parse_digits_show:
  assumes "terminated rest"
  shows "parse_digits (show_nat n @ rest) = Some (n, rest)"
proof -
  have r: "rest = [] \<or> \<not> is_digit (hd rest)" using assms by (auto simp: terminated_def is_digit_def)
  have t: "takeWhile is_digit (show_nat n @ rest) = show_nat n"
    using show_nat_digits [of n] r by (cases rest) (auto simp: takeWhile_append)
  have d: "dropWhile is_digit (show_nat n @ rest) = rest"
    using show_nat_digits [of n] r by (cases rest) (auto simp: dropWhile_append)
  have z: "hd (show_nat n) = CHR ''0'' \<Longrightarrow> length (show_nat n) = 1"
    using show_nat_no_leading_zero [of n "tl (show_nat n)"] show_nat_nonempty [of n]
    by (cases "show_nat n") auto
  from assms have "rest = [] \<or> hd rest \<notin> {CHR ''.'', CHR ''e'', CHR ''E''}"
    by (auto simp: terminated_def)
  with t d z show ?thesis by (auto simp: parse_digits_def Let_def)
qed

lemma show_nat_Cons: obtains c cs where "show_nat n = c # cs" "is_digit c"
  using show_nat_digits [of n] show_nat_nonempty [of n] by (cases "show_nat n") auto

lemma parse_number_show:
  assumes "terminated rest"
  shows "parse_number (show_int i @ rest) = Some (JNum i, rest)"
proof (cases "i < 0")
  case True
  then show ?thesis using parse_digits_show [OF assms] by (simp add: parse_number_def show_int_def)
next
  case False
  obtain c cs where c: "show_nat (nat i) = c # cs" "is_digit c" by (rule show_nat_Cons)
  then have "c \<noteq> CHR ''-''" by auto
  with False c(1) parse_digits_show [OF assms, of "nat i"] show ?thesis
    by (simp add: parse_number_def show_int_def)
qed

text \<open>What a printed value begins with.\<close>

lemma show_int_Cons: obtains c cs where "show_int i = c # cs" "is_digit c \<or> c = CHR ''-''"
proof (cases "i < 0")
  case False
  obtain c cs where "show_nat (nat i) = c # cs" "is_digit c" by (rule show_nat_Cons)
  with False that show thesis by (simp add: show_int_def)
qed (simp add: show_int_def that)

lemma digit_or_minus:
  assumes "is_digit c \<or> c = CHR ''-''"
  shows "\<not> is_ws c" "c \<noteq> CHR '']''" "c \<noteq> CHR ''{''" "c \<noteq> CHR ''[''" "c \<noteq> CHR 0x22"
    "c \<noteq> CHR ''n''" "c \<noteq> CHR ''t''" "c \<noteq> CHR ''f''"
  using assms by (auto simp: is_ws_def is_digit_def)

lemma stringify_Cons: obtains c cs where "stringify v = c # cs" "\<not> is_ws c" "c \<noteq> CHR '']''"
proof (cases v)
  case (JBool b)
  with that show thesis by (cases b) (auto simp: is_ws_def)
next
  case (JNum i)
  obtain c cs where c: "show_int i = c # cs" "is_digit c \<or> c = CHR ''-''" by (rule show_int_Cons)
  from digit_or_minus [OF c(2)] c(1) JNum that show thesis by simp
qed (auto simp: is_ws_def quote_def intro: that)

lemma skip_ws_stringify [simp]: "skip_ws (stringify v @ r) = stringify v @ r"
  by (rule stringify_Cons [of v]) auto

lemma stringify_elems_Cons:
  obtains c cs where "stringify_elems (v # vs) = c # cs" "\<not> is_ws c" "c \<noteq> CHR '']''"
proof (cases vs)
  case Nil
  with that show thesis by (rule_tac stringify_Cons [of v]) auto
next
  case (Cons w ws)
  with that show thesis by (rule_tac stringify_Cons [of v]) auto
qed

lemma quote_append: "quote k @ r = CHR 0x22 # concat (map escape_char k) @ CHR 0x22 # r"
  by (simp add: quote_def)

lemma is_ws_punct [simp]:
  "\<not> is_ws (CHR ''{'')" "\<not> is_ws (CHR ''['')" "\<not> is_ws (CHR ''}'')" "\<not> is_ws (CHR '']'')"
  "\<not> is_ws (CHR '','')" "\<not> is_ws (CHR '':'')" "\<not> is_ws (CHR 0x22)" "\<not> is_ws (CHR ''n'')"
  "\<not> is_ws (CHR ''t'')" "\<not> is_ws (CHR ''f'')"
  by (simp_all add: is_ws_def)

lemma parse_value_num:
  assumes "terminated rest"
  shows "parse_value (Suc n) (show_int i @ rest) = Some (JNum i, rest)"
proof -
  obtain c cs where c: "show_int i = c # cs" "is_digit c \<or> c = CHR ''-''" by (rule show_int_Cons)
  with digit_or_minus [OF c(2)] parse_number_show [OF assms, of i] show ?thesis by simp
qed

lemma stringify_members_Cons:
  "stringify_members (kv # kvs) = CHR 0x22 # tl (stringify_members (kv # kvs))"
  by (cases kv; cases kvs) (auto simp: quote_def)

lemma parse_printed:
  shows "wf_json v \<Longrightarrow> terminated rest \<Longrightarrow> length (stringify v) < n
      \<Longrightarrow> parse_value n (stringify v @ rest) = Some (v, rest)"
    and "vs \<noteq> [] \<Longrightarrow> wf_elems vs \<Longrightarrow> Suc (length (stringify_elems vs)) < n
      \<Longrightarrow> parse_elems n (stringify_elems vs @ CHR '']'' # rest) = Some (vs, rest)"
    and "kvs \<noteq> [] \<Longrightarrow> wf_members kvs \<Longrightarrow> Suc (length (stringify_members kvs)) < n
      \<Longrightarrow> parse_members n (stringify_members kvs @ CHR ''}'' # rest) = Some (kvs, rest)"
proof (induction v and vs and kvs arbitrary: n rest and n rest and n rest
    rule: stringify_stringify_elems_stringify_members.induct)
  case 1
  then show ?case by (cases n) (simp_all add: parse_word_def)
next
  case 2
  then show ?case by (cases n) (simp_all add: parse_word_def)
next
  case 3
  then show ?case by (cases n) (simp_all add: parse_word_def)
next
  case (4 i)
  then obtain m where "n = Suc m" by (cases n) auto
  with 4 parse_value_num [of rest m i] show ?case by (simp del: parse_value.simps)
next
  case (5 s)
  then show ?case by (cases n) (simp_all add: quote_append parse_quoted)
next
  case (6 vs)
  then obtain m where n: "n = Suc m" by (cases n) auto
  show ?case
  proof (cases vs)
    case (Cons w ws)
    obtain c cs where c: "stringify_elems (w # ws) = c # cs" "\<not> is_ws c" "c \<noteq> CHR '']''"
      by (rule stringify_elems_Cons)
    from 6 n Cons have "parse_elems m (stringify_elems vs @ CHR '']'' # rest) = Some (vs, rest)"
      by auto
    with c n Cons show ?thesis by simp
  qed (simp add: n)
next
  case (7 kvs)
  then obtain m where n: "n = Suc m" by (cases n) auto
  show ?case
  proof (cases kvs)
    case (Cons kv ws)
    from 7 n Cons have "parse_members m (stringify_members kvs @ CHR ''}'' # rest) = Some (kvs, rest)"
      by auto
    moreover have "stringify_members kvs = CHR 0x22 # tl (stringify_members kvs)"
      using Cons stringify_members_Cons by simp
    then obtain t where "stringify_members kvs = CHR 0x22 # t" ..
    moreover have "obj_of kvs = kvs" using 7 by (simp add: obj_of_distinct)
    ultimately show ?thesis using n by simp
  qed (simp add: n)
next
  case 8
  then show ?case by simp
next
  case (9 v)
  then obtain m where "n = Suc m" by (cases n) auto
  with 9 show ?case by simp
next
  case (10 v w vs)
  then obtain m where n: "n = Suc m" by (cases n) auto
  obtain c cs where c: "stringify v = c # cs" by (rule stringify_Cons)
  from 10 n c have "parse_elems m (stringify_elems (w # vs) @ CHR '']'' # rest) = Some (w # vs, rest)"
    by simp
  moreover from 10 n have
    "parse_value m (stringify v @ CHR '','' # stringify_elems (w # vs) @ CHR '']'' # rest)
      = Some (v, CHR '','' # stringify_elems (w # vs) @ CHR '']'' # rest)" by simp
  ultimately show ?case using n by simp
next
  case 11
  then show ?case by simp
next
  case (12 k v)
  then obtain m where n: "n = Suc m" by (cases n) auto
  from 12 n have "parse_value m (stringify v @ CHR ''}'' # rest) = Some (v, CHR ''}'' # rest)"
    by (simp add: quote_def)
  then show ?case using n by (simp add: quote_append parse_quoted)
next
  case (13 k v kv kvs)
  then obtain m where n: "n = Suc m" by (cases n) auto
  have "parse_members m (stringify_members (kv # kvs) @ CHR ''}'' # rest) = Some (kv # kvs, rest)"
    using 13 n by (simp add: quote_def)
  moreover have
    "parse_value m (stringify v @ CHR '','' # stringify_members (kv # kvs) @ CHR ''}'' # rest)
      = Some (v, CHR '','' # stringify_members (kv # kvs) @ CHR ''}'' # rest)"
    using 13 n by (simp add: quote_def)
  ultimately show ?case using n by (simp add: quote_append parse_quoted)
qed

theorem parse_stringify [simp]: "wf_json v \<Longrightarrow> parse_json (stringify v) = Some v"
  using parse_printed(1) [of v "[]" "Suc (2 * length (stringify v))"]
  by (simp add: parse_json_def)

lemma parse_printed_line: "wf_json v \<Longrightarrow> parse_json (stringify v @ [CHR 0x0A]) = Some v"
  using parse_printed(1) [of v "[CHR 0x0A]" "Suc (2 * length (stringify v @ [CHR 0x0A]))"]
  by (simp add: parse_json_def is_ws_def)

lemma decode_encode_json [simp]: "wf_json v \<Longrightarrow> decode (encode v) = Inr v"
  by (simp add: decode_def)

lemma stringify_inj: "wf_json v \<Longrightarrow> wf_json w \<Longrightarrow> stringify v = stringify w \<longleftrightarrow> v = w"
  by (metis option.inject parse_stringify)

subsection \<open>The nesting bound is never what stops a parse\<close>

text \<open>Every call returns a strictly shorter rest.\<close>

lemma cons_text_Some: "cons_text t r = Some (u, rest) \<Longrightarrow> \<exists>w. r = Some (w, rest)"
  by (auto simp: cons_text_def split: option.splits)

lemma parse_chars_less: "parse_chars s = Some (t, r) \<Longrightarrow> length r < length s"
proof (induction s arbitrary: t r rule: length_induct)
  case (1 s)
  have IH: "\<exists>w. parse_chars u = Some (w, r) \<Longrightarrow> length u < length s \<Longrightarrow> length r < length s" for u r
    using "1.IH" by (meson order.strict_trans)
  show ?case
  proof (cases s)
    case Nil
    with "1.prems" show ?thesis by (simp add: parse_chars.simps)
  next
    case (Cons c cs)
    note p = "1.prems" [unfolded Cons, simplified parse_chars.simps [of "c # cs"]]
    show ?thesis
    proof (cases "c = CHR 0x5C")
      case False
      with p obtain w where "r = cs \<or> parse_chars cs = Some (w, r)"
        by (auto split: if_splits dest!: cons_text_Some)
      with Cons show ?thesis using IH [of cs r] by auto
    next
      case True
      then obtain e es where cs: "cs = e # es" using p by (cases cs) auto
      show ?thesis
      proof (cases "e = CHR ''u''")
        case False
        with p True cs obtain w where "parse_chars es = Some (w, r)"
          by (auto split: option.splits dest!: cons_text_Some)
        with Cons cs show ?thesis using IH [of es r] by auto
      next
        case u: True
        have d: "length (drop 4 es) < length s" "length (drop 6 (drop 4 es)) < length s"
          using Cons cs by auto
        from p True cs u obtain w x where "parse_chars (drop 4 es) = Some (w, r)
            \<or> parse_chars (drop 6 (drop 4 es)) = Some (x, r)"
          by (auto simp: Let_def split: if_splits option.splits dest!: cons_text_Some)
        with d show ?thesis using IH by blast
      qed
    qed
  qed
qed

lemma length_skip_ws: "length (skip_ws s) \<le> length s"
  by (induction s) auto

lemma parse_digits_less: "parse_digits s = Some (k, r) \<Longrightarrow> length r < length s"
proof -
  assume "parse_digits s = Some (k, r)"
  then have "takeWhile is_digit s \<noteq> []" "r = dropWhile is_digit s"
    by (auto simp: parse_digits_def Let_def split: if_splits)
  then show ?thesis by (cases s) (auto simp: le_imp_less_Suc length_dropWhile_le split: if_splits)
qed

lemma parse_number_less: "parse_number s = Some (v, r) \<Longrightarrow> length r < length s"
  by (auto simp: parse_number_def dest!: parse_digits_less split: list.splits if_splits option.splits)

lemma parse_word_less: "w \<noteq> [] \<Longrightarrow> parse_word w v s = Some (x, r) \<Longrightarrow> length r < length s"
  by (auto simp: parse_word_def prefix_def split: if_splits)

lemmas parse_less = parse_chars_less parse_number_less
  parse_word_less [of "''null''"] parse_word_less [of "''true''"] parse_word_less [of "''false''"]

lemma skip_ws_Cons: "skip_ws s = c # cs \<Longrightarrow> length cs < length s"
  using length_skip_ws [of s] by simp

lemma parse_rest_less_all:
  "(\<forall>s v r. parse_value n s = Some (v, r) \<longrightarrow> length r < length s) \<and>
   (\<forall>s vs r. parse_elems n s = Some (vs, r) \<longrightarrow> length r < length s) \<and>
   (\<forall>s kvs r. parse_members n s = Some (kvs, r) \<longrightarrow> length r < length s)"
proof (induction n)
  case (Suc n)
  then have V: "\<And>s v r. parse_value n s = Some (v, r) \<Longrightarrow> length r < length s"
    and E: "\<And>s vs r. parse_elems n s = Some (vs, r) \<Longrightarrow> length r < length s"
    and M: "\<And>s kvs r. parse_members n s = Some (kvs, r) \<Longrightarrow> length r < length s" by blast+
  have "length r < length s" if p: "parse_value (Suc n) s = Some (v, r)" for s v r
  proof -
    from p obtain c cs where s: "skip_ws s = c # cs" by (auto split: list.splits)
    note l = skip_ws_Cons [OF s]
    have "length r < length (c # cs)"
    proof (cases "c = CHR ''{'' \<or> c = CHR ''[''")
      case True
      with p s obtain d ds where d: "skip_ws cs = d # ds" by (auto split: list.splits if_splits)
      from p s True d have "r = ds \<or> (\<exists>vs. parse_elems n (d # ds) = Some (vs, r))
          \<or> (\<exists>kvs. parse_members n (d # ds) = Some (kvs, r))"
        by (auto split: if_splits option.splits)
      with skip_ws_Cons [OF d] show ?thesis using E [of "d # ds" _ r] M [of "d # ds" _ r] by auto
    next
      case False
      with p s show ?thesis
        by (auto dest: parse_chars_less parse_word_less [rotated] parse_number_less
            split: if_splits option.splits)
    qed
    with l show ?thesis by simp
  qed
  moreover have "length r < length s" if p: "parse_elems (Suc n) s = Some (vs, r)" for s vs r
  proof -
    from p obtain x u where v: "parse_value n s = Some (x, u)" by (auto split: option.splits)
    with p obtain c cs where u: "skip_ws u = c # cs" by (auto split: list.splits)
    from p v u have "r = cs \<or> (\<exists>ws. parse_elems n cs = Some (ws, r))"
      by (auto split: if_splits option.splits)
    with V [OF v] skip_ws_Cons [OF u] show ?thesis using E [of cs _ r] by auto
  qed
  moreover have "length r < length s" if p: "parse_members (Suc n) s = Some (kvs, r)" for s kvs r
  proof -
    from p obtain qs where q: "skip_ws s = CHR 0x22 # qs" by (auto split: list.splits if_splits)
    with p obtain k u where k: "parse_chars qs = Some (k, u)" by (auto split: option.splits)
    with p q obtain cs where c: "skip_ws u = CHR '':'' # cs" by (auto split: list.splits if_splits)
    with p q k obtain x w where v: "parse_value n cs = Some (x, w)" by (auto split: option.splits)
    with p q k c obtain d ds where d: "skip_ws w = d # ds" by (auto split: list.splits)
    from p q k c v d have "r = ds \<or> (\<exists>ks. parse_members n ds = Some (ks, r))"
      by (auto split: if_splits option.splits)
    with skip_ws_Cons [OF q] parse_chars_less [OF k] skip_ws_Cons [OF c] V [OF v] skip_ws_Cons [OF d]
    show ?thesis using M [of ds _ r] by auto
  qed
  ultimately show ?case by blast
qed simp

lemmas parse_rest_less =
  parse_rest_less_all [THEN conjunct1, rule_format]
  parse_rest_less_all [THEN conjunct2, THEN conjunct1, rule_format]
  parse_rest_less_all [THEN conjunct2, THEN conjunct2, rule_format]

text \<open>With more fuel than twice the number of characters, the amount of fuel does not matter.\<close>

lemma parse_fuel_all:
  "(\<forall>s m. 2 * length s < n \<and> 2 * length s < m \<longrightarrow> parse_value n s = parse_value m s) \<and>
   (\<forall>s m. Suc (2 * length s) < n \<and> Suc (2 * length s) < m \<longrightarrow> parse_elems n s = parse_elems m s) \<and>
   (\<forall>s m. 2 * length s < n \<and> 2 * length s < m \<longrightarrow> parse_members n s = parse_members m s)"
proof (induction n)
  case (Suc n)
  then have V: "\<And>s m. 2 * length s < n \<Longrightarrow> 2 * length s < m \<Longrightarrow> parse_value n s = parse_value m s"
    and E: "\<And>s m. Suc (2 * length s) < n \<Longrightarrow> Suc (2 * length s) < m
      \<Longrightarrow> parse_elems n s = parse_elems m s"
    and M: "\<And>s m. 2 * length s < n \<Longrightarrow> 2 * length s < m \<Longrightarrow> parse_members n s = parse_members m s"
    by blast+
  have "parse_value (Suc n) s = parse_value (Suc k) s"
    if b: "2 * length s < Suc n" "2 * length s < Suc k" for s k
  proof (cases "skip_ws s")
    case (Cons c cs)
    note l = skip_ws_Cons [OF Cons]
    have "parse_elems n (d # ds) = parse_elems k (d # ds) \<and> parse_members n (d # ds) = parse_members k (d # ds)"
      if d: "skip_ws cs = d # ds" for d ds
      using skip_ws_Cons [OF d] l b by (auto intro!: E M)
    with Cons show ?thesis by (auto split: list.splits)
  qed simp
  moreover have "parse_elems (Suc n) s = parse_elems (Suc k) s"
    if b: "Suc (2 * length s) < Suc n" "Suc (2 * length s) < Suc k" for s k
  proof -
    have v: "parse_value n s = parse_value k s" using b by (intro V) auto
    have "parse_elems n cs = parse_elems k cs"
      if "parse_value n s = Some (x, u)" "skip_ws u = c # cs" for x u c cs
      using parse_rest_less(1) [OF that(1)] skip_ws_Cons [OF that(2)] b by (auto intro!: E)
    with v show ?thesis by (auto split: option.splits list.splits)
  qed
  moreover have "parse_members (Suc n) s = parse_members (Suc k) s"
    if b: "2 * length s < Suc n" "2 * length s < Suc k" for s k
  proof -
    have v: "parse_value n cs = parse_value k cs"
      if "skip_ws s = q # qs" "parse_chars qs = Some (t, u)" "skip_ws u = c # cs" for q qs t u c cs
      using skip_ws_Cons [OF that(1)] parse_chars_less [OF that(2)] skip_ws_Cons [OF that(3)] b
      by (intro V) auto
    have w: "parse_members n ds = parse_members k ds"
      if "skip_ws s = q # qs" "parse_chars qs = Some (t, u)" "skip_ws u = c # cs"
        "parse_value n cs = Some (x, w)" "skip_ws w = d # ds" for q qs t u c cs x w d ds
      using skip_ws_Cons [OF that(1)] parse_chars_less [OF that(2)] skip_ws_Cons [OF that(3)]
        parse_rest_less(1) [OF that(4)] skip_ws_Cons [OF that(5)] b
      by (intro M) auto
    show ?thesis
    proof (cases "skip_ws s")
      case (Cons q qs)
      show ?thesis
      proof (cases "parse_chars qs")
        case (Some tu)
        obtain t u where tu: "tu = (t, u)" by (cases tu)
        show ?thesis
        proof (cases "skip_ws u")
          case (Cons c cs)
          note v = v [OF \<open>skip_ws s = q # qs\<close> \<open>parse_chars qs = Some tu\<close> [unfolded tu] Cons]
          show ?thesis
            using w [OF \<open>skip_ws s = q # qs\<close> \<open>parse_chars qs = Some tu\<close> [unfolded tu] Cons]
              v \<open>skip_ws s = q # qs\<close> \<open>parse_chars qs = Some tu\<close> Cons tu
            by (auto split: option.splits list.splits)
        qed (use Cons Some tu in simp)
      qed (use Cons in simp)
    qed simp
  qed
  ultimately have "\<forall>s k. 2 * length s < Suc n \<and> 2 * length s < Suc k \<longrightarrow> parse_value (Suc n) s = parse_value (Suc k) s"
    "\<forall>s k. Suc (2 * length s) < Suc n \<and> Suc (2 * length s) < Suc k \<longrightarrow> parse_elems (Suc n) s = parse_elems (Suc k) s"
    "\<forall>s k. 2 * length s < Suc n \<and> 2 * length s < Suc k \<longrightarrow> parse_members (Suc n) s = parse_members (Suc k) s"
    by blast+
  then show ?case by (metis gr0_implies_Suc less_nat_zero_code not_gr_zero)
qed simp

lemma parse_json_fuel:
  assumes "2 * length s < n"
  shows "parse_json s
     = (case parse_value n s of None \<Rightarrow> None | Some (v, r) \<Rightarrow> if skip_ws r = [] then Some v else None)"
proof -
  have "parse_value n s = parse_value (Suc (2 * length s)) s"
    using conjunct1 [OF parse_fuel_all [of n], rule_format, of s "Suc (2 * length s)"] assms by simp
  then show ?thesis by (simp only: parse_json_def)
qed

interpretation json: codec stringify decode wf_json
  by unfold_locales simp

end
