(* ===== verification/CryptoCore.thy ===== *)
theory CryptoCore
  imports Base64 Json "HOL-Library.Multiset"
begin

text \<open>
  \<open>packages/crypto-core\<close>: the key derivation of \<open>identity/generateKeyPair.ts\<close>, the signatures
  of \<open>signatures/sign.ts\<close> and \<open>signatures/canonicalJson.ts\<close>, the mailbox address of
  \<open>mailbox/deriveMailboxId.ts\<close> and the signed transcripts of \<open>mailbox/auth.ts\<close>.

  SHA-256, HMAC, Ed25519, X25519, the secretbox cipher and the mnemonic expansion are third-party
  code: the fields of \<open>primitives\<close>, an argument of every definition that calls one. What the
  program relies on is the locale \<open>signature_scheme\<close> (a signature made with a secret key is 64
  bytes and verifies under its public key); the theorems below instantiate or assume it by name.
\<close>

subsection \<open>Third-party primitives\<close>

record primitives =
  sha256 :: "bytes \<Rightarrow> bytes"
  hmac_sha256 :: "bytes \<Rightarrow> bytes \<Rightarrow> bytes"
  sign_detached :: "bytes \<Rightarrow> bytes \<Rightarrow> bytes result"
  verify_detached :: "bytes \<Rightarrow> bytes \<Rightarrow> bytes \<Rightarrow> bool result"
  sign_keypair_from_seed :: "bytes \<Rightarrow> bytes \<times> bytes"
  box_keypair_from_secret :: "bytes \<Rightarrow> bytes \<times> bytes"
  mnemonic_to_seed :: "string \<Rightarrow> bytes"
  scalar_mult :: "bytes \<Rightarrow> bytes \<Rightarrow> bytes"
  secretbox_seal :: "bytes \<Rightarrow> bytes \<Rightarrow> bytes \<Rightarrow> bytes"
  secretbox_open :: "bytes \<Rightarrow> bytes \<Rightarrow> bytes \<Rightarrow> bytes option"

subsection \<open>Key derivation\<close>

record key_pair =
  publicKey :: string
  secretKey :: string

definition encode_pair :: "bytes \<times> bytes \<Rightarrow> key_pair" where
  "encode_pair kp = \<lparr>publicKey = encodeBase64Url (fst kp), secretKey = encodeBase64Url (snd kp)\<rparr>"

definition seed_label :: "string \<Rightarrow> string" where
  "seed_label namespace = ''echolet:'' @ namespace @ '':v1''"

definition deriveSeedBytes :: "primitives \<Rightarrow> string \<Rightarrow> string \<Rightarrow> bytes" where
  "deriveSeedBytes P seed namespace =
     take 32 (hmac_sha256 P (mnemonic_to_seed P seed) (seed_label namespace))"

definition deriveKeyPairFromSeed :: "primitives \<Rightarrow> string \<Rightarrow> string \<Rightarrow> key_pair" where
  "deriveKeyPairFromSeed P seed namespace =
     encode_pair (sign_keypair_from_seed P (deriveSeedBytes P seed namespace))"

definition deriveSessionKeyPairFromSeed :: "primitives \<Rightarrow> string \<Rightarrow> string \<Rightarrow> key_pair" where
  "deriveSessionKeyPairFromSeed P seed namespace =
     encode_pair (box_keypair_from_secret P (deriveSeedBytes P seed (''session:'' @ namespace)))"

definition deriveMailboxId :: "primitives \<Rightarrow> string \<Rightarrow> string" where
  "deriveMailboxId P identityPubKey = encodeBase64Url (sha256 P (identityPubKey @ '':mailbox:v1''))"

subsection \<open>Canonical JSON\<close>

text \<open>
  \<open>JSON.stringify\<close> prints the array-index names of an object first, in numeric order, and the
  other names in the order they were assigned. An array has its indices for names.
\<close>

definition is_array_index :: "string \<Rightarrow> bool" where
  "is_array_index k =
     (k \<noteq> [] \<and> (\<forall>c \<in> set k. is_digit c) \<and> (hd k = CHR ''0'' \<longrightarrow> length k = 1) \<and> read_nat k < 4294967295)"

definition own_key_order :: "(string \<times> 'a) list \<Rightarrow> (string \<times> 'a) list" where
  "own_key_order kvs =
     sort_key (\<lambda>kv. read_nat (fst kv)) (filter (\<lambda>kv. is_array_index (fst kv)) kvs)
     @ filter (\<lambda>kv. \<not> is_array_index (fst kv)) kvs"

definition array_entries :: "'a list \<Rightarrow> (string \<times> 'a) list" where
  "array_entries vs = map (\<lambda>i. (show_nat i, vs ! i)) [0..<length vs]"

definition sorted_entries :: "(string \<times> 'a) list \<Rightarrow> (string \<times> 'a) list" where
  "sorted_entries kvs = filter (\<lambda>kv. fst kv \<noteq> ''signature'') (sort_key fst kvs)"

fun canonicalJson :: "json \<Rightarrow> string" where
  "canonicalJson (JObj kvs) = stringify (JObj (own_key_order (sorted_entries kvs)))"
| "canonicalJson (JArr vs) = stringify (JObj (own_key_order (sorted_entries (array_entries vs))))"
| "canonicalJson v = stringify v"

subsection \<open>Signatures\<close>

datatype key = KeyBytes bytes | KeyText string

fun normalizeKeyBytes :: "key \<Rightarrow> bytes result" where
  "normalizeKeyBytes (KeyText s) = decodeBase64Url s"
| "normalizeKeyBytes (KeyBytes b) = Inr b"

definition signUtf8Message :: "primitives \<Rightarrow> string \<Rightarrow> key \<Rightarrow> string result" where
  "signUtf8Message P message sk =
     bindR (normalizeKeyBytes sk) (\<lambda>k.
     bindR (sign_detached P message k) (\<lambda>sig.
       Inr (encodeBase64Url sig)))"

definition verifyUtf8Message :: "primitives \<Rightarrow> string \<Rightarrow> string \<Rightarrow> key \<Rightarrow> bool result" where
  "verifyUtf8Message P message signature pk =
     bindR (decodeBase64Url signature) (\<lambda>sig.
     bindR (normalizeKeyBytes pk) (\<lambda>k.
       verify_detached P message sig k))"

definition signCanonicalJson :: "primitives \<Rightarrow> json \<Rightarrow> bytes \<Rightarrow> string result" where
  "signCanonicalJson P obj sk = signUtf8Message P (canonicalJson obj) (KeyBytes sk)"

definition verifyCanonicalJson :: "primitives \<Rightarrow> json \<Rightarrow> string \<Rightarrow> bytes \<Rightarrow> bool result" where
  "verifyCanonicalJson P obj signature pk =
     verifyUtf8Message P (canonicalJson obj) signature (KeyBytes pk)"

subsection \<open>The signed transcripts of the mailbox\<close>

definition createMailboxChallengeMessage ::
  "string \<Rightarrow> string \<Rightarrow> string \<Rightarrow> string \<Rightarrow> string option \<Rightarrow> string" where
  "createMailboxChallengeMessage challengeId recipientMailboxId deviceId nonce readThrough =
     (case readThrough of
        None \<Rightarrow> ''echolet-mailbox-challenge:v1:'' @ challengeId @ '':'' @ recipientMailboxId @ '':''
                @ deviceId @ '':'' @ nonce
      | Some position \<Rightarrow>
          ''echolet-mailbox-challenge:v2:'' @ challengeId @ '':'' @ recipientMailboxId @ '':''
          @ deviceId @ '':'' @ nonce @ '':'' @ position)"

definition createMailboxCreateChallengeMessage :: "string \<Rightarrow> string \<Rightarrow> string" where
  "createMailboxCreateChallengeMessage recipientMailboxId deviceId =
     ''echolet-mailbox-create-challenge:v1:'' @ recipientMailboxId @ '':'' @ deviceId"

definition createMailboxAckMessage ::
  "string \<Rightarrow> string \<Rightarrow> string list \<Rightarrow> string option \<Rightarrow> string" where
  "createMailboxAckMessage recipientMailboxId deviceId envelopeIds readThrough =
     (let normalizedEnvelopeIds = join '','' (sort envelopeIds) in
      case readThrough of
        None \<Rightarrow> ''echolet-mailbox-ack:v1:'' @ recipientMailboxId @ '':'' @ deviceId @ '':''
                @ normalizedEnvelopeIds
      | Some position \<Rightarrow>
          ''echolet-mailbox-ack:v2:'' @ recipientMailboxId @ '':'' @ deviceId @ '':''
          @ normalizedEnvelopeIds @ '':'' @ position)"

definition hashMailboxEnvelopeCiphertext :: "primitives \<Rightarrow> string \<Rightarrow> string" where
  "hashMailboxEnvelopeCiphertext P ciphertext = encodeBase64Url (sha256 P ciphertext)"

definition createMailboxEnvelopeMessage ::
  "string \<Rightarrow> string \<Rightarrow> string \<Rightarrow> string \<Rightarrow> string \<Rightarrow> int \<Rightarrow> int \<Rightarrow> string" where
  "createMailboxEnvelopeMessage recipientMailboxId envelopeId senderIdentityId senderDeviceId
       ciphertextDigest createdAtMs expiresAtMs =
     ''echolet-mailbox-envelope:v1:'' @ recipientMailboxId @ '':'' @ envelopeId @ '':''
     @ senderIdentityId @ '':'' @ senderDeviceId @ '':'' @ ciphertextDigest @ '':''
     @ show_int createdAtMs @ '':'' @ show_int expiresAtMs"

lemmas transcript_defs =
  createMailboxChallengeMessage_def createMailboxCreateChallengeMessage_def
  createMailboxAckMessage_def createMailboxEnvelopeMessage_def

definition signMailboxChallengeMessage where
  "signMailboxChallengeMessage P challengeId recipientMailboxId deviceId nonce deviceSecretKey =
     signUtf8Message P
       (createMailboxChallengeMessage challengeId recipientMailboxId deviceId nonce None)
       (KeyText deviceSecretKey)"

definition verifyMailboxChallengeMessage where
  "verifyMailboxChallengeMessage P challengeId recipientMailboxId deviceId nonce signature
       devicePublicKey =
     verifyUtf8Message P
       (createMailboxChallengeMessage challengeId recipientMailboxId deviceId nonce None)
       signature (KeyText devicePublicKey)"

definition signMailboxCreateChallengeMessage where
  "signMailboxCreateChallengeMessage P recipientMailboxId deviceId deviceSecretKey =
     signUtf8Message P (createMailboxCreateChallengeMessage recipientMailboxId deviceId)
       (KeyText deviceSecretKey)"

definition verifyMailboxCreateChallengeMessage where
  "verifyMailboxCreateChallengeMessage P recipientMailboxId deviceId signature devicePublicKey =
     verifyUtf8Message P (createMailboxCreateChallengeMessage recipientMailboxId deviceId)
       signature (KeyText devicePublicKey)"

definition signMailboxAckMessage where
  "signMailboxAckMessage P recipientMailboxId deviceId envelopeIds deviceSecretKey =
     signUtf8Message P (createMailboxAckMessage recipientMailboxId deviceId envelopeIds None)
       (KeyText deviceSecretKey)"

definition verifyMailboxAckMessage where
  "verifyMailboxAckMessage P recipientMailboxId deviceId envelopeIds signature devicePublicKey =
     verifyUtf8Message P (createMailboxAckMessage recipientMailboxId deviceId envelopeIds None)
       signature (KeyText devicePublicKey)"

definition signMailboxEnvelopeMessage where
  "signMailboxEnvelopeMessage P recipientMailboxId envelopeId senderIdentityId senderDeviceId
       ciphertextDigest createdAtMs expiresAtMs deviceSecretKey =
     signUtf8Message P
       (createMailboxEnvelopeMessage recipientMailboxId envelopeId senderIdentityId senderDeviceId
          ciphertextDigest createdAtMs expiresAtMs)
       deviceSecretKey"

definition verifyMailboxEnvelopeMessage where
  "verifyMailboxEnvelopeMessage P recipientMailboxId envelopeId senderIdentityId senderDeviceId
       ciphertextDigest createdAtMs expiresAtMs signature devicePublicKey =
     verifyUtf8Message P
       (createMailboxEnvelopeMessage recipientMailboxId envelopeId senderIdentityId senderDeviceId
          ciphertextDigest createdAtMs expiresAtMs)
       signature devicePublicKey"

subsection \<open>What a transcript states\<close>

text \<open>
  The abstract content of a signed mailbox statement. \<open>fields\<close> lists the text fields of its
  transcript; a statement is well formed when its fields contain no separator, which the
  schemas guarantee (base64url keys and digests, UUIDs, decimal positions).
\<close>

datatype statement =
    Challenge string string string string "string option"
  | CreateChallenge string string
  | Ack string string "string list" "string option"
  | Envelope string string string string string int int

fun transcript :: "statement \<Rightarrow> string" where
  "transcript (Challenge c m d n p) = createMailboxChallengeMessage c m d n p"
| "transcript (CreateChallenge m d) = createMailboxCreateChallengeMessage m d"
| "transcript (Ack m d ids p) = createMailboxAckMessage m d ids p"
| "transcript (Envelope m e s d h a b) = createMailboxEnvelopeMessage m e s d h a b"

fun fields :: "statement \<Rightarrow> string list" where
  "fields (Challenge c m d n p) =
     [''echolet-mailbox-challenge'', (if p = None then ''v1'' else ''v2''), c, m, d, n]
     @ (case p of None \<Rightarrow> [] | Some q \<Rightarrow> [q])"
| "fields (CreateChallenge m d) = [''echolet-mailbox-create-challenge'', ''v1'', m, d]"
| "fields (Ack m d ids p) =
     [''echolet-mailbox-ack'', (if p = None then ''v1'' else ''v2''), m, d, join '','' (sort ids)]
     @ (case p of None \<Rightarrow> [] | Some q \<Rightarrow> [q])"
| "fields (Envelope m e s d h a b) =
     [''echolet-mailbox-envelope'', ''v1'', m, e, s, d, h, show_int a, show_int b]"

definition plain :: "string \<Rightarrow> bool" where
  "plain s = (CHR '':'' \<notin> set s)"

definition plain_id :: "string \<Rightarrow> bool" where
  "plain_id s = (s \<noteq> [] \<and> CHR '':'' \<notin> set s \<and> CHR '','' \<notin> set s)"

fun wf_statement :: "statement \<Rightarrow> bool" where
  "wf_statement (Challenge c m d n p) =
     (plain c \<and> plain m \<and> plain d \<and> plain n \<and> (case p of None \<Rightarrow> True | Some q \<Rightarrow> plain q))"
| "wf_statement (CreateChallenge m d) = (plain m \<and> plain d)"
| "wf_statement (Ack m d ids p) =
     (plain m \<and> plain d \<and> list_all plain_id ids \<and> (case p of None \<Rightarrow> True | Some q \<Rightarrow> plain q))"
| "wf_statement (Envelope m e s d h a b) = (plain m \<and> plain e \<and> plain s \<and> plain d \<and> plain h)"

fun same_statement :: "statement \<Rightarrow> statement \<Rightarrow> bool" where
  "same_statement (Ack m d ids p) (Ack m' d' ids' p') =
     (m = m' \<and> d = d' \<and> mset ids = mset ids' \<and> p = p')"
| "same_statement s t = (s = t)"

lemma transcript_fields: "transcript s = join '':'' (fields s)"
  by (cases s) (auto simp: transcript_defs Let_def split: option.splits)

lemma fields_nonempty [simp]: "fields s \<noteq> []"
  by (cases s) auto

lemma join_chars: "c \<in> set (join sep xs) \<Longrightarrow> c \<in> set sep \<or> (\<exists>x \<in> set xs. c \<in> set x)"
  by (induction sep xs rule: join.induct) auto

lemma fields_plain: "wf_statement s \<Longrightarrow> \<forall>x \<in> set (fields s). CHR '':'' \<notin> set x"
  by (cases s) (auto simp: plain_def plain_id_def list_all_iff dest!: join_chars split: option.splits)

lemma sorted_ids_inj:
  assumes "join '','' (sort xs) = join '','' (sort ys)" "list_all plain_id xs" "list_all plain_id ys"
  shows "mset xs = mset ys"
proof -
  have "sort xs = sort ys"
    using assms(2,3) by (intro join_inj [OF assms(1)]) (auto simp: list_all_iff plain_id_def)
  then show ?thesis by (metis mset_sort)
qed

lemma fields_inj:
  "fields s = fields t \<Longrightarrow> wf_statement s \<Longrightarrow> wf_statement t \<Longrightarrow> same_statement s t"
  by (cases s; cases t) (auto intro: sorted_ids_inj split: option.splits if_splits)

lemma transcript_inj:
  assumes "wf_statement s" "wf_statement t" "transcript s = transcript t"
  shows "same_statement s t"
proof (rule fields_inj [OF _ assms(1,2)])
  show "fields s = fields t"
    using assms fields_plain by (intro join_inj_fields [of "CHR '':''"]) (simp_all add: transcript_fields)
qed

lemma same_statement_transcript: "same_statement s t \<Longrightarrow> transcript s = transcript t"
proof (cases s; cases t)
  fix m d ids p m' d' ids' p'
  assume *: "s = Ack m d ids p" "t = Ack m' d' ids' p'" "same_statement s t"
  then have "sort ids = sort ids'"
    by (metis same_statement.simps(1) sorted_list_of_multiset_mset)
  with * show ?thesis by (simp add: createMailboxAckMessage_def)
qed auto

subsection \<open>Canonical JSON is a function of the signed properties\<close>

lemma set_sorted_entries: "set (sorted_entries kvs) = {kv \<in> set kvs. fst kv \<noteq> ''signature''}"
  by (auto simp: sorted_entries_def)

lemma distinct_sorted_entries: "distinct (map fst kvs) \<Longrightarrow> distinct (map fst (sorted_entries kvs))"
  unfolding sorted_entries_def
  by (intro distinct_map_filter) (simp add: distinct_map)

lemma sorted_sorted_entries: "sorted (map fst (sorted_entries kvs))"
  by (simp add: sorted_entries_def sorted_filter)

lemma sorted_entries_unique:
  assumes "distinct (map fst a)" "distinct (map fst b)"
    "set (sorted_entries a) = set (sorted_entries b)"
  shows "sorted_entries a = sorted_entries b"
proof (rule map_sorted_distinct_set_unique [of fst])
  show "inj_on fst (set (sorted_entries a) \<union> set (sorted_entries b))"
    using distinct_sorted_entries [OF assms(1)] assms(3) by (simp add: distinct_map)
qed (use assms distinct_sorted_entries sorted_sorted_entries in simp_all)

lemma set_own_key_order: "set (own_key_order kvs) = set kvs"
  by (auto simp: own_key_order_def)

lemma distinct_own_key_order:
  assumes "distinct (map fst kvs)"
  shows "distinct (map fst (own_key_order kvs))"
proof -
  have "mset (map fst (own_key_order kvs)) = mset (map fst kvs)"
    by (simp add: own_key_order_def flip: image_mset_union)
  then show ?thesis using assms by (metis mset_eq_imp_distinct_iff)
qed

lemma wf_own_sorted:
  "wf_json (JObj kvs) \<Longrightarrow> wf_json (JObj (own_key_order (sorted_entries kvs)))"
  using distinct_own_key_order [OF distinct_sorted_entries]
  by (auto simp: wf_members_iff set_own_key_order set_sorted_entries)

lemma option_eq_iff: "x = y \<longleftrightarrow> (\<forall>v. x = Some v \<longleftrightarrow> y = Some v)"
  by (cases x; cases y) auto

lemma signed_properties_iff:
  assumes "distinct (map fst a)" "distinct (map fst b)"
  shows "set (sorted_entries a) = set (sorted_entries b)
    \<longleftrightarrow> (\<forall>k. k \<noteq> ''signature'' \<longrightarrow> map_of a k = map_of b k)" (is "?L \<longleftrightarrow> ?R")
proof -
  have *: "(k, v) \<in> set (sorted_entries kvs) \<longleftrightarrow> k \<noteq> ''signature'' \<and> map_of kvs k = Some v"
    if "distinct (map fst kvs)" for k v kvs
    using that by (auto simp: set_sorted_entries)
  have "?L \<longleftrightarrow> (\<forall>k v. (k, v) \<in> set (sorted_entries a) \<longleftrightarrow> (k, v) \<in> set (sorted_entries b))"
    by auto
  also have "\<dots> \<longleftrightarrow> (\<forall>k. k \<noteq> ''signature'' \<longrightarrow> (\<forall>v. map_of a k = Some v \<longleftrightarrow> map_of b k = Some v))"
    unfolding * [OF assms(1)] * [OF assms(2)] by blast
  also have "\<dots> \<longleftrightarrow> ?R" by (simp only: option_eq_iff [symmetric])
  finally show ?thesis .
qed

lemma canonicalJson_iff:
  assumes "wf_json (JObj a)" "wf_json (JObj b)"
  shows "canonicalJson (JObj a) = canonicalJson (JObj b)
    \<longleftrightarrow> (\<forall>k. k \<noteq> ''signature'' \<longrightarrow> map_of a k = map_of b k)"
proof -
  have d: "distinct (map fst a)" "distinct (map fst b)" using assms by simp_all
  have "canonicalJson (JObj a) = canonicalJson (JObj b)
      \<longleftrightarrow> own_key_order (sorted_entries a) = own_key_order (sorted_entries b)"
    using json.enc_inj_iff [OF wf_own_sorted [OF assms(1)] wf_own_sorted [OF assms(2)]]
    by (simp del: stringify.simps)
  also have "\<dots> \<longleftrightarrow> set (sorted_entries a) = set (sorted_entries b)"
    using sorted_entries_unique [OF d] by (metis set_own_key_order)
  finally show ?thesis by (simp add: signed_properties_iff [OF d])
qed

subsection \<open>Signing and verifying\<close>

text \<open>
  What the program relies on of Ed25519: a signature made with the secret key verifies under
  the public key. \<open>binding_keys\<close> is the idealised unforgeability used where a theorem says
  that a signature does not verify for another text.
\<close>

definition sound_keys :: "primitives \<Rightarrow> bytes \<Rightarrow> bytes \<Rightarrow> bool" where
  "sound_keys P pk sk \<longleftrightarrow>
     (\<forall>m. \<exists>sig. sign_detached P m sk = Inr sig \<and> verify_detached P m sig pk = Inr True)"

definition binding_keys :: "primitives \<Rightarrow> bytes \<Rightarrow> bytes \<Rightarrow> bool" where
  "binding_keys P pk sk \<longleftrightarrow>
     (\<forall>m m' sig. sign_detached P m sk = Inr sig \<longrightarrow> verify_detached P m' sig pk = Inr True \<longrightarrow> m' = m)"

definition key_text :: "bytes \<Rightarrow> string" where
  "key_text k = encodeBase64Url k"

lemma normalize_key_text [simp]: "normalizeKeyBytes (KeyText (key_text k)) = Inr k"
  by (simp add: key_text_def)

lemma sign_verify:
  assumes "sound_keys P pk sk" "normalizeKeyBytes s = Inr sk" "normalizeKeyBytes p = Inr pk"
  obtains sig where "signUtf8Message P m s = Inr sig" "verifyUtf8Message P m sig p = Inr True"
proof -
  obtain sig where "sign_detached P m sk = Inr sig" "verify_detached P m sig pk = Inr True"
    using assms(1) by (auto simp: sound_keys_def)
  with assms(2,3) show ?thesis
    by (intro that [of "encodeBase64Url sig"]) (simp_all add: signUtf8Message_def verifyUtf8Message_def)
qed

lemma verify_binding:
  assumes "binding_keys P pk sk" "normalizeKeyBytes s = Inr sk" "normalizeKeyBytes p = Inr pk"
    "signUtf8Message P m s = Inr sig" "verifyUtf8Message P m' sig p = Inr True"
  shows "m' = m"
  using assms
  by (auto simp: binding_keys_def signUtf8Message_def verifyUtf8Message_def bindR_Inr_iff)

lemma sign_deterministic_verify:
  assumes "sound_keys P pk sk" "normalizeKeyBytes s = Inr sk" "normalizeKeyBytes p = Inr pk"
    "signUtf8Message P m s = Inr sig"
  shows "verifyUtf8Message P m sig p = Inr True"
  using sign_verify [OF assms(1-3), of m] assms(4) by (metis sum.inject(2))

subsection \<open>A concrete instance of the primitives\<close>

text \<open>
  A toy instance at which the hypotheses on the primitives hold: public and secret keys are
  equal, a signature is the key before the message, a sealed box the key and nonce before it.
\<close>

definition toy_primitives :: primitives where
  "toy_primitives = \<lparr>
     sha256 = (\<lambda>m. m),
     hmac_sha256 = (\<lambda>k m. k @ m),
     sign_detached = (\<lambda>m sk. Inr (sk @ m)),
     verify_detached = (\<lambda>m sig pk. Inr (sig = pk @ m)),
     sign_keypair_from_seed = (\<lambda>s. (s, s)),
     box_keypair_from_secret = (\<lambda>s. (s, s)),
     mnemonic_to_seed = (\<lambda>s. s),
     scalar_mult = (\<lambda>a b. if a \<le> b then a @ b else b @ a),
     secretbox_seal = (\<lambda>m n k. k @ n @ m),
     secretbox_open = (\<lambda>c n k. if prefix (k @ n) c then Some (drop (length (k @ n)) c) else None)\<rparr>"

lemma toy_simps [simp]:
  "sha256 toy_primitives m = m"
  "hmac_sha256 toy_primitives k m = k @ m"
  "sign_detached toy_primitives m k = Inr (k @ m)"
  "verify_detached toy_primitives m sig k = Inr (sig = k @ m)"
  "sign_keypair_from_seed toy_primitives s = (s, s)"
  "box_keypair_from_secret toy_primitives s = (s, s)"
  "mnemonic_to_seed toy_primitives s = s"
  "scalar_mult toy_primitives a b = (if a \<le> b then a @ b else b @ a)"
  "secretbox_seal toy_primitives m n k = k @ n @ m"
  "secretbox_open toy_primitives c n k = (if prefix (k @ n) c then Some (drop (length (k @ n)) c) else None)"
  by (simp_all add: toy_primitives_def)

lemma toy_keys [simp]: "sound_keys toy_primitives k k" "binding_keys toy_primitives k k"
  by (simp_all add: sound_keys_def binding_keys_def)

subsection \<open>Properties\<close>

text \<open>
  C10. A signed mailbox transcript states exactly one thing: two well-formed statements - poll
  challenge (with or without a read position), mailbox creation, acknowledgement (with or without
  one), envelope binding - have the same transcript exactly when they are the same statement, an
  acknowledgement being determined up to the order of its envelope ids. So no signature over one
  kind, version, position, mailbox or device is a signature over another.
\<close>

theorem transcript_states_one_thing:
  assumes "wf_statement s" "wf_statement t"
  shows "transcript s = transcript t \<longleftrightarrow> same_statement s t"
  using transcript_inj [OF assms] same_statement_transcript by blast

theorem transcript_states_one_thing_witness:
  "transcript (Ack ''m'' ''d'' [''b'', ''a''] (Some ''7'')) = transcript (Ack ''m'' ''d'' [''a'', ''b''] (Some ''7''))
   \<and> transcript (Ack ''m'' ''d'' [''a''] None) \<noteq> transcript (Ack ''m'' ''d'' [''a''] (Some ''7''))"
  using transcript_states_one_thing [of "Ack ''m'' ''d'' [''b'', ''a''] (Some ''7'')" "Ack ''m'' ''d'' [''a'', ''b''] (Some ''7'')"]
    transcript_states_one_thing [of "Ack ''m'' ''d'' [''a''] None" "Ack ''m'' ''d'' [''a''] (Some ''7'')"]
  by (simp add: plain_def plain_id_def)

text \<open>
  For a key pair whose signatures verify, what the device signs for the mailbox the relay's
  twin verifies: a poll challenge, a mailbox creation and an acknowledgement whose envelope ids
  arrive in any order, each under the matching verifier.
\<close>

theorem mailbox_signatures_verify:
  assumes "sound_keys P pk sk" "mset ids = mset ids'"
  shows "bindR (signMailboxChallengeMessage P c m d n (key_text sk))
           (\<lambda>sig. verifyMailboxChallengeMessage P c m d n sig (key_text pk)) = Inr True
    \<and> bindR (signMailboxCreateChallengeMessage P m d (key_text sk))
           (\<lambda>sig. verifyMailboxCreateChallengeMessage P m d sig (key_text pk)) = Inr True
    \<and> bindR (signMailboxAckMessage P m d ids (key_text sk))
           (\<lambda>sig. verifyMailboxAckMessage P m d ids' sig (key_text pk)) = Inr True"
proof -
  have v: "bindR (signUtf8Message P t (KeyText (key_text sk)))
      (\<lambda>sig. verifyUtf8Message P t sig (KeyText (key_text pk))) = Inr True" for t
    by (rule sign_verify [OF assms(1), of "KeyText (key_text sk)" "KeyText (key_text pk)" t])
      (simp_all del: normalizeKeyBytes.simps)
  have "createMailboxAckMessage m d ids None = createMailboxAckMessage m d ids' None"
    using same_statement_transcript [of "Ack m d ids None" "Ack m d ids' None"] assms(2) by simp
  with v show ?thesis
    by (simp add: signMailboxChallengeMessage_def verifyMailboxChallengeMessage_def
        signMailboxCreateChallengeMessage_def verifyMailboxCreateChallengeMessage_def
        signMailboxAckMessage_def verifyMailboxAckMessage_def)
qed

theorem mailbox_signatures_verify_witness:
  "bindR (signMailboxAckMessage toy_primitives ''m'' ''d'' [''b'', ''a''] (key_text ''k''))
     (\<lambda>sig. verifyMailboxAckMessage toy_primitives ''m'' ''d'' [''a'', ''b''] sig (key_text ''k'')) = Inr True"
  using mailbox_signatures_verify [of toy_primitives "''k''" "''k''" "[''b'', ''a'']" "[''a'', ''b'']"] by simp

text \<open>
  For a key pair whose signatures bind their message, an envelope binding is not
  transferable: the verifier accepts the signature made for one envelope only for the same
  mailbox, envelope id, sender identity, sender device, ciphertext digest, creation and expiry.
\<close>

theorem envelope_signature_binds:
  assumes "binding_keys P pk sk" "normalizeKeyBytes s = Inr sk" "normalizeKeyBytes p = Inr pk"
    "wf_statement (Envelope m e i d h a b)" "wf_statement (Envelope m' e' i' d' h' a' b')"
    "signMailboxEnvelopeMessage P m e i d h a b s = Inr sig"
    "verifyMailboxEnvelopeMessage P m' e' i' d' h' a' b' sig p = Inr True"
  shows "(m', e', i', d', h', a', b') = (m, e, i, d, h, a, b)"
proof -
  have "transcript (Envelope m' e' i' d' h' a' b') = transcript (Envelope m e i d h a b)"
    using verify_binding [OF assms(1-3)] assms(6,7)
    by (simp add: signMailboxEnvelopeMessage_def verifyMailboxEnvelopeMessage_def)
  from transcript_inj [OF assms(5,4) this] show ?thesis by simp
qed

theorem envelope_signature_binds_witness:
  "verifyMailboxEnvelopeMessage toy_primitives ''m'' ''e'' ''i'' ''d'' ''h'' 1 3 (encodeBase64Url (''k'' @ transcript (Envelope ''m'' ''e'' ''i'' ''d'' ''h'' 1 2))) (KeyBytes ''k'') \<noteq> Inr True"
  using envelope_signature_binds [of toy_primitives "''k''" "''k''" "KeyBytes ''k''" "KeyBytes ''k''" "''m''" "''e''" "''i''" "''d''" "''h''" 1 2 "''m''" "''e''" "''i''" "''d''" "''h''" 1 3]
  by (auto simp: plain_def signMailboxEnvelopeMessage_def signUtf8Message_def)

text \<open>
  The text a record signature covers is a function of exactly the record's properties other
  than \<open>signature\<close>: two records have the same canonical JSON when, and only when, they agree on
  every other property, whatever order either lists them in.
\<close>

theorem canonicalJson_signs_properties:
  assumes "wf_json (JObj a)" "wf_json (JObj b)"
  shows "canonicalJson (JObj a) = canonicalJson (JObj b)
    \<longleftrightarrow> (\<forall>k. k \<noteq> ''signature'' \<longrightarrow> map_of a k = map_of b k)"
  by (rule canonicalJson_iff [OF assms])

theorem canonicalJson_signs_properties_witness:
  "canonicalJson (JObj [(''b'', JNum 1), (''signature'', JStr ''x''), (''a'', JNull)])
     = canonicalJson (JObj [(''a'', JNull), (''b'', JNum 1)])"
  by (subst canonicalJson_signs_properties) (auto simp: fun_upd_def)

text \<open>
  A signed record verifies: the signature computed over a record without the property
  verifies over the record that carries it (as \<open>createSignedDeviceRecord\<close> and
  \<open>createSignedPreKeyBundle\<close> sign and the relay and the importing client verify).
\<close>

theorem signed_record_verifies:
  assumes "sound_keys P pk sk" "wf_json (JObj r)" "''signature'' \<notin> fst ` set r"
    "signCanonicalJson P (JObj r) sk = Inr sig"
  shows "verifyCanonicalJson P (JObj (r @ [(''signature'', JStr sig)])) sig pk = Inr True"
proof -
  have "canonicalJson (JObj (r @ [(''signature'', JStr sig)])) = canonicalJson (JObj r)"
    using assms(2,3) by (subst canonicalJson_iff) (auto simp: map_add_def wf_members_iff split: option.splits)
  then show ?thesis
    using sign_deterministic_verify [OF assms(1), of "KeyBytes sk" "KeyBytes pk"] assms(4)
    by (simp add: signCanonicalJson_def verifyCanonicalJson_def)
qed

theorem signed_record_verifies_witness:
  "\<exists>sig. signCanonicalJson toy_primitives (JObj [(''a'', JNum 1)]) ''k'' = Inr sig \<and>
     verifyCanonicalJson toy_primitives (JObj [(''a'', JNum 1), (''signature'', JStr sig)]) sig ''k'' = Inr True"
proof (intro exI conjI)
  let ?sig = "encodeBase64Url (''k'' @ canonicalJson (JObj [(''a'', JNum 1)]))"
  show *: "signCanonicalJson toy_primitives (JObj [(''a'', JNum 1)]) ''k'' = Inr ?sig"
    by (simp add: signCanonicalJson_def signUtf8Message_def)
  show "verifyCanonicalJson toy_primitives (JObj [(''a'', JNum 1), (''signature'', JStr ?sig)]) ?sig ''k'' = Inr True"
    using signed_record_verifies [of toy_primitives "''k''" "''k''" "[(''a'', JNum 1)]", OF _ _ _ *] by simp
qed

end
