(* ===== verification/Session.thy ===== *)
theory Session
  imports CryptoCore
begin

text \<open>
  The symmetric-chain session of \<open>packages/crypto-core/src/session/session.ts\<close> and
  \<open>sessionKeys.ts\<close>, and the client-core functions over it (\<open>messages/encryption.ts\<close>,
  \<open>sessions/sessions.ts\<close>). A session state carries one chain key per direction and a single
  counter for both; the text of \<open>TextDecoder\<close> is the UTF-8 bytes less a leading byte order mark.
\<close>

subsection \<open>Key schedule\<close>

text \<open>
  The loop of \<open>hkdf\<close>: each round appends one digest. The first argument bounds the rounds; the
  requested length is enough as every digest has at least one byte (\<open>hkdf_loop_fuel\<close>).
\<close>

fun hkdf_loop :: "nat \<Rightarrow> primitives \<Rightarrow> bytes \<Rightarrow> bytes \<Rightarrow> nat \<Rightarrow> bytes \<Rightarrow> bytes \<Rightarrow> nat \<Rightarrow> bytes" where
  "hkdf_loop 0 P prk info len okm t i = take len okm"
| "hkdf_loop (Suc n) P prk info len okm t i =
     (if length okm < len
      then (let t' = hmac_sha256 P prk (t @ info @ [char_of (i + 1)]) in
            hkdf_loop n P prk info len (okm @ t') t' (i + 1))
      else take len okm)"

definition zeros :: bytes where
  "zeros = replicate 32 (char_of (0 :: nat))"

definition hkdf :: "primitives \<Rightarrow> bytes \<Rightarrow> bytes \<Rightarrow> bytes \<Rightarrow> nat \<Rightarrow> bytes" where
  "hkdf P input salt info len = hkdf_loop len P (hmac_sha256 P salt input) info len [] [] 0"

definition assertKeyLength :: "bytes \<Rightarrow> string \<Rightarrow> unit result" where
  "assertKeyLength k label =
     guardR (length k = 32)
       (PlainError (label @ '' must be 32 bytes for X25519 session bootstrap''))"

definition deriveRootKey :: "primitives \<Rightarrow> bytes \<Rightarrow> bytes" where
  "deriveRootKey P sharedSecret = hkdf P sharedSecret zeros ''Echolet_Root'' 32"

datatype direction = InitiatorToRecipient | RecipientToInitiator

fun direction_text :: "direction \<Rightarrow> string" where
  "direction_text InitiatorToRecipient = ''initiator->recipient''"
| "direction_text RecipientToInitiator = ''recipient->initiator''"

definition deriveDirectionalChainKey :: "primitives \<Rightarrow> bytes \<Rightarrow> direction \<Rightarrow> bytes" where
  "deriveDirectionalChainKey P rootKey d =
     hkdf P rootKey zeros (''Echolet_Chain:'' @ direction_text d) 32"

definition deriveMessageKeyMaterial :: "primitives \<Rightarrow> bytes \<Rightarrow> int \<Rightarrow> bytes \<times> bytes" where
  "deriveMessageKeyMaterial P chainKey c =
     (let material = hkdf P chainKey zeros (''Echolet_Message:'' @ show_int c) 56 in
      (take 32 material, take 24 (drop 32 material)))"

definition rotateChainKey :: "primitives \<Rightarrow> bytes \<Rightarrow> bytes" where
  "rotateChainKey P chainKey = hkdf P chainKey zeros ''Echolet_Chain:next'' 32"

subsection \<open>Session state\<close>

record session_state =
  sessionId :: string
  localIdentityId :: string
  localDeviceId :: string
  remoteIdentityId :: string
  remoteDeviceId :: string
  sendingChainKey :: string
  receivingChainKey :: "string option"
  rootKey :: string
  counter :: int

definition createOutboundSession ::
  "primitives \<Rightarrow> int \<Rightarrow> string \<Rightarrow> string \<Rightarrow> string \<Rightarrow> string \<Rightarrow> bytes \<Rightarrow> bytes \<Rightarrow> (session_state \<times> string) result"
where
  "createOutboundSession P now lid ldev rid rdev remotePreKey localIdentityKey =
     bindR (assertKeyLength remotePreKey ''remotePreKey'') (\<lambda>_.
     bindR (assertKeyLength localIdentityKey ''localIdentityKey'') (\<lambda>_.
       let root = deriveRootKey P (scalar_mult P localIdentityKey remotePreKey) in
       Inr (\<lparr>sessionId = ldev @ '':'' @ rdev @ '':'' @ show_int now,
             localIdentityId = lid, localDeviceId = ldev,
             remoteIdentityId = rid, remoteDeviceId = rdev,
             sendingChainKey = encodeBase64Url (deriveDirectionalChainKey P root InitiatorToRecipient),
             receivingChainKey = Some (encodeBase64Url (deriveDirectionalChainKey P root RecipientToInitiator)),
             rootKey = encodeBase64Url root,
             counter = 0\<rparr>, [])))"

definition createInboundSession ::
  "primitives \<Rightarrow> int \<Rightarrow> string \<Rightarrow> string \<Rightarrow> string \<Rightarrow> string \<Rightarrow> bytes \<Rightarrow> bytes \<Rightarrow> session_state result"
where
  "createInboundSession P now lid ldev rid rdev localPreKey remoteIdentityKey =
     bindR (assertKeyLength localPreKey ''localPreKey'') (\<lambda>_.
     bindR (assertKeyLength remoteIdentityKey ''remoteIdentityKey'') (\<lambda>_.
       let root = deriveRootKey P (scalar_mult P localPreKey remoteIdentityKey) in
       Inr \<lparr>sessionId = rdev @ '':'' @ ldev @ '':'' @ show_int now,
            localIdentityId = lid, localDeviceId = ldev,
            remoteIdentityId = rid, remoteDeviceId = rdev,
            sendingChainKey = encodeBase64Url (deriveDirectionalChainKey P root RecipientToInitiator),
            receivingChainKey = Some (encodeBase64Url (deriveDirectionalChainKey P root InitiatorToRecipient)),
            rootKey = encodeBase64Url root,
            counter = 0\<rparr>))"

subsection \<open>Encryption and decryption\<close>

definition encryptMessage :: "primitives \<Rightarrow> session_state \<Rightarrow> string \<Rightarrow> (string \<times> session_state) result" where
  "encryptMessage P s plaintext =
     bindR (decodeBase64Url (sendingChainKey s)) (\<lambda>chain.
       let (messageKey, nonce) = deriveMessageKeyMaterial P chain (counter s);
           sealed = secretbox_seal P plaintext nonce messageKey;
           payload = JObj [(''v'', JNum 1), (''counter'', JNum (counter s)),
                           (''ciphertext'', JStr (encodeBase64Url sealed))]
       in Inr (stringify payload,
               s\<lparr>sendingChainKey := encodeBase64Url (rotateChainKey P chain),
                 counter := counter s + 1\<rparr>))"

text \<open>Reading a property of a parsed value: \<open>null.x\<close> throws, a value without it gives \<open>undefined\<close>.\<close>

fun get_prop :: "json \<Rightarrow> string \<Rightarrow> json option result" where
  "get_prop JNull k = Inl (PlainError ''TypeError'')"
| "get_prop (JObj kvs) k = Inr (map_of kvs k)"
| "get_prop _ k = Inr None"

text \<open>\<open>String(value)\<close> in a template literal.\<close>

fun js_text :: "json \<Rightarrow> string" where
  "js_text JNull = ''null''"
| "js_text (JBool b) = (if b then ''true'' else ''false'')"
| "js_text (JNum i) = show_int i"
| "js_text (JStr s) = s"
| "js_text (JArr vs) = join '','' (map (\<lambda>v. if v = JNull then [] else js_text v) vs)"
| "js_text (JObj kvs) = ''[object Object]''"

definition js_text_opt :: "json option \<Rightarrow> string" where
  "js_text_opt v = (case v of None \<Rightarrow> ''undefined'' | Some w \<Rightarrow> js_text w)"

definition text_decode :: "bytes \<Rightarrow> string" where
  "text_decode b = (if prefix [CHR 0xEF, CHR 0xBB, CHR 0xBF] b then drop 3 b else b)"

definition decryptMessage :: "primitives \<Rightarrow> session_state \<Rightarrow> string \<Rightarrow> (string \<times> session_state) result" where
  "decryptMessage P s ciphertext =
     bindR (decode ciphertext) (\<lambda>payload.
     bindR (get_prop payload ''v'') (\<lambda>v.
     bindR (guardR (v = Some (JNum 1)) (PlainError ''unsupported ciphertext version'')) (\<lambda>_.
     bindR (decodeBase64Url (case receivingChainKey s of Some k \<Rightarrow> k | None \<Rightarrow> sendingChainKey s)) (\<lambda>chain.
     bindR (get_prop payload ''counter'') (\<lambda>c.
     bindR (guardR (c = Some (JNum (counter s)))
        (PlainError (''unexpected message counter: expected '' @ show_int (counter s) @ '', got ''
           @ js_text_opt c))) (\<lambda>_.
     bindR (get_prop payload ''ciphertext'') (\<lambda>ct.
     bindR (case ct of Some (JStr t) \<Rightarrow> decodeBase64Url t | _ \<Rightarrow> Inl (PlainError ''TypeError'')) (\<lambda>box.
       let (messageKey, nonce) = deriveMessageKeyMaterial P chain (counter s) in
       bindR (of_option (PlainError ''failed to decrypt message'')
                (secretbox_open P box nonce messageKey)) (\<lambda>plain.
         Inr (text_decode plain,
              s\<lparr>receivingChainKey := Some (encodeBase64Url (rotateChainKey P chain)),
                counter := counter s + 1\<rparr>))))))))))"

subsection \<open>client-core: messages over a session and the session repository\<close>

text \<open>A \<open>ChatMessage\<close> is any JSON value here: the functions print and parse it.\<close>

definition encryptOutgoingMessage :: "primitives \<Rightarrow> session_state \<Rightarrow> json \<Rightarrow> (string \<times> session_state) result" where
  "encryptOutgoingMessage P s message = encryptMessage P s (stringify message)"

definition decryptIncomingEnvelope :: "primitives \<Rightarrow> session_state \<Rightarrow> string \<Rightarrow> (json \<times> session_state) result" where
  "decryptIncomingEnvelope P s ciphertext =
     bindR (decryptMessage P s ciphertext) (\<lambda>(plaintext, updated).
     bindR (decode plaintext) (\<lambda>v. Inr (v, updated)))"

subsection \<open>The loop of hkdf\<close>

definition digests :: "primitives \<Rightarrow> bool" where
  "digests P \<longleftrightarrow> (\<forall>k m. length (hmac_sha256 P k m) = 32)"

lemma hkdf_loop_fuel:
  "digests P \<Longrightarrow> len \<le> n + length okm \<Longrightarrow> len \<le> m + length okm
    \<Longrightarrow> hkdf_loop n P prk info len okm t i = hkdf_loop m P prk info len okm t i"
proof (induction n arbitrary: m okm t i)
  case 0
  then show ?case by (cases m) auto
next
  case (Suc n)
  show ?case
  proof (cases m)
    case 0
    with Suc.prems show ?thesis by simp
  next
    case (Suc k)
    have "length (hmac_sha256 P prk x) = 32" for x using Suc.prems(1) by (simp add: digests_def)
    with Suc.IH Suc.prems \<open>m = Suc k\<close> show ?thesis by (simp add: Let_def)
  qed
qed

lemma length_hkdf_loop:
  "digests P \<Longrightarrow> len \<le> n + length okm \<Longrightarrow> length (hkdf_loop n P prk info len okm t i) = len"
proof (induction n arbitrary: okm t i)
  case (Suc n)
  have "length (hmac_sha256 P prk x) = 32" for x using Suc.prems(1) by (simp add: digests_def)
  with Suc show ?case by (simp add: Let_def)
qed simp

lemma length_hkdf: "digests P \<Longrightarrow> length (hkdf P input salt info len) = len"
  by (simp add: hkdf_def length_hkdf_loop)

subsection \<open>Two ends of one session\<close>

definition opens_what_it_seals :: "primitives \<Rightarrow> bool" where
  "opens_what_it_seals P \<longleftrightarrow> (\<forall>m n k. secretbox_open P (secretbox_seal P m n k) n k = Some m)"

definition no_bom :: "string \<Rightarrow> bool" where
  "no_bom m = (\<not> prefix [CHR 0xEF, CHR 0xBB, CHR 0xBF] m)"

definition key_of :: "string \<Rightarrow> bytes \<Rightarrow> bool" where
  "key_of t k = (t = encodeBase64Url k)"

definition paired :: "session_state \<Rightarrow> session_state \<Rightarrow> bool" where
  "paired a b \<longleftrightarrow>
     receivingChainKey b = Some (sendingChainKey a) \<and> receivingChainKey a = Some (sendingChainKey b)
     \<and> counter a = counter b
     \<and> (\<exists>k. key_of (sendingChainKey a) k) \<and> (\<exists>k. key_of (sendingChainKey b) k)"

lemma paired_sym: "paired a b \<Longrightarrow> paired b a"
  by (auto simp: paired_def)

lemma paired_created:
  assumes "createOutboundSession P t lid ldev rid rdev B_pub a_sec = Inr (a, e)"
    "createInboundSession P t' rid' rdev' lid' ldev' b_sec A_pub = Inr b"
    "scalar_mult P a_sec B_pub = scalar_mult P b_sec A_pub"
  shows "paired a b"
  using assms
  by (auto simp: createOutboundSession_def createInboundSession_def bindR_Inr_iff Let_def paired_def key_of_def)

lemma encrypt_form:
  assumes "key_of (sendingChainKey s) k"
  shows "encryptMessage P s m =
    (let (mk, n) = deriveMessageKeyMaterial P k (counter s) in
     Inr (stringify (JObj [(''v'', JNum 1), (''counter'', JNum (counter s)),
            (''ciphertext'', JStr (encodeBase64Url (secretbox_seal P m n mk)))]),
          s\<lparr>sendingChainKey := encodeBase64Url (rotateChainKey P k), counter := counter s + 1\<rparr>))"
  using assms by (simp add: encryptMessage_def key_of_def Let_def split: prod.splits)

lemma decrypt_of_payload:
  assumes "decode c = Inr (JObj [(''v'', JNum 1), (''counter'', JNum i), (''ciphertext'', JStr t)])"
    "receivingChainKey s = Some (encodeBase64Url k)"
  shows "decryptMessage P s c =
    (if i \<noteq> counter s
     then Inl (PlainError (''unexpected message counter: expected '' @ show_int (counter s)
            @ '', got '' @ show_int i))
     else bindR (decodeBase64Url t) (\<lambda>box.
       let (mk, n) = deriveMessageKeyMaterial P k (counter s) in
       bindR (of_option (PlainError ''failed to decrypt message'') (secretbox_open P box n mk)) (\<lambda>plain.
         Inr (text_decode plain,
              s\<lparr>receivingChainKey := Some (encodeBase64Url (rotateChainKey P k)),
                counter := counter s + 1\<rparr>))))"
  using assms by (simp add: decryptMessage_def js_text_opt_def)

lemma decode_payload:
  "decode (stringify (JObj [(''v'', JNum 1), (''counter'', JNum i), (''ciphertext'', JStr t)]))
     = Inr (JObj [(''v'', JNum 1), (''counter'', JNum i), (''ciphertext'', JStr t)])"
  by (rule json.dec_enc) simp

lemma deliver:
  assumes "opens_what_it_seals P" "paired a b"
  obtains c a' b' where "encryptMessage P a m = Inr (c, a')" "decryptMessage P b c = Inr (text_decode m, b')"
    "paired a' b'" "counter a' = counter a + 1"
proof -
  from assms(2) obtain k l where k: "sendingChainKey a = encodeBase64Url k" "sendingChainKey b = encodeBase64Url l"
    and r: "receivingChainKey b = Some (encodeBase64Url k)" "receivingChainKey a = Some (encodeBase64Url l)"
    and n: "counter a = counter b"
    by (auto simp: paired_def key_of_def)
  obtain mk nonce where mk: "deriveMessageKeyMaterial P k (counter b) = (mk, nonce)" by fastforce
  let ?c = "stringify (JObj [(''v'', JNum 1), (''counter'', JNum (counter b)),
      (''ciphertext'', JStr (encodeBase64Url (secretbox_seal P m nonce mk)))])"
  let ?key = "encodeBase64Url (rotateChainKey P k)"
  have e: "encryptMessage P a m = Inr (?c, a\<lparr>sendingChainKey := ?key, counter := counter a + 1\<rparr>)"
    using k(1) mk n by (simp add: encrypt_form [of a k] key_of_def)
  have d: "decryptMessage P b ?c = Inr (text_decode m, b\<lparr>receivingChainKey := Some ?key, counter := counter b + 1\<rparr>)"
    unfolding decrypt_of_payload [OF decode_payload r(1)]
    using assms(1) mk by (simp add: opens_what_it_seals_def)
  show ?thesis
    by (rule that [OF e d]) (use k r n in \<open>auto simp: paired_def key_of_def\<close>)
qed

subsection \<open>A conversation\<close>

text \<open>
  Each step sends one message from the first end (\<open>True\<close>) or the second, and the other end
  decrypts it before the next is sent; the result lists what was read and the two ends after it.
\<close>

fun converse :: "primitives \<Rightarrow> (bool \<times> string) list \<Rightarrow> session_state \<Rightarrow> session_state
    \<Rightarrow> (string list \<times> session_state \<times> session_state) result" where
  "converse P [] a b = Inr ([], a, b)"
| "converse P ((True, m) # ms) a b =
     bindR (encryptMessage P a m) (\<lambda>(c, a').
     bindR (decryptMessage P b c) (\<lambda>(x, b').
     bindR (converse P ms a' b') (\<lambda>(xs, q). Inr (x # xs, q))))"
| "converse P ((False, m) # ms) a b =
     bindR (encryptMessage P b m) (\<lambda>(c, b').
     bindR (decryptMessage P a c) (\<lambda>(x, a').
     bindR (converse P ms a' b') (\<lambda>(xs, q). Inr (x # xs, q))))"

lemma converse_delivers:
  "opens_what_it_seals P \<Longrightarrow> paired a b \<Longrightarrow>
     \<exists>a' b'. converse P ms a b = Inr (map (text_decode \<circ> snd) ms, a', b') \<and> paired a' b'
       \<and> counter a' = counter a + int (length ms)"
proof (induction ms arbitrary: a b)
  case (Cons dm ms)
  obtain d m where dm: "dm = (d, m)" by (cases dm)
  show ?case
  proof (cases d)
    case True
    obtain c a' b' where "encryptMessage P a m = Inr (c, a')" "decryptMessage P b c = Inr (text_decode m, b')"
      "paired a' b'" "counter a' = counter a + 1"
      by (rule deliver [OF Cons.prems(1,2)])
    moreover with Cons.IH [OF Cons.prems(1) \<open>paired a' b'\<close>] show ?thesis
      using True dm by auto
  next
    case False
    obtain c b' a' where "encryptMessage P b m = Inr (c, b')" "decryptMessage P a c = Inr (text_decode m, a')"
      "paired b' a'" "counter b' = counter b + 1"
      by (rule deliver [OF Cons.prems(1) paired_sym [OF Cons.prems(2)]])
    moreover have "counter a' = counter b'" "counter a = counter b"
      using \<open>paired b' a'\<close> Cons.prems(2) by (simp_all add: paired_def)
    moreover note Cons.IH [OF Cons.prems(1) paired_sym [OF \<open>paired b' a'\<close>]]
    ultimately show ?thesis using False dm by auto
  qed
qed auto

subsection \<open>What a session accepts\<close>

lemma decrypt_accepts:
  assumes "decryptMessage P s c = Inr (m, s')"
  obtains kvs where "decode c = Inr (JObj kvs)" "map_of kvs ''v'' = Some (JNum 1)"
    "map_of kvs ''counter'' = Some (JNum (counter s))" "counter s' = counter s + 1"
proof -
  from assms obtain v where v: "decode c = Inr v"
    "get_prop v ''v'' = Inr (Some (JNum 1))" "get_prop v ''counter'' = Inr (Some (JNum (counter s)))"
    and s': "counter s' = counter s + 1"
    by (auto simp: decryptMessage_def bindR_Inr_iff Let_def case_prod_unfold)
  from v(2,3) obtain kvs where "v = JObj kvs" "map_of kvs ''v'' = Some (JNum 1)"
    "map_of kvs ''counter'' = Some (JNum (counter s))"
    by (cases v) auto
  with v(1) s' that show ?thesis by blast
qed

lemma encrypt_decodes:
  assumes "encryptMessage P a m = Inr (c, a')"
  obtains t where "decode c = Inr (JObj [(''v'', JNum 1), (''counter'', JNum (counter a)), (''ciphertext'', JStr t)])"
    "counter a' = counter a + 1"
proof -
  from assms obtain t where
    c: "c = stringify (JObj [(''v'', JNum 1), (''counter'', JNum (counter a)), (''ciphertext'', JStr t)])"
    and a': "counter a' = counter a + 1"
    by (auto simp: encryptMessage_def bindR_Inr_iff Let_def case_prod_unfold simp del: stringify.simps)
  with that [OF _ a'] decode_payload show ?thesis by simp
qed

subsection \<open>Properties\<close>

text \<open>
  C11. Two ends created from one prekey agreement deliver every half-duplex conversation: for
  matching X25519 secrets and a cipher that opens what it seals, whichever end sends each message,
  the other reads the text that was sent - exactly, unless the text begins with a byte order mark, of
  which the first is lost - and both ends stay on the same counter.
\<close>

theorem session_delivers_conversation:
  assumes "opens_what_it_seals P"
    "createOutboundSession P t lid ldev rid rdev B_pub a_sec = Inr (a, e)"
    "createInboundSession P t' rid' rdev' lid' ldev' b_sec A_pub = Inr b"
    "scalar_mult P a_sec B_pub = scalar_mult P b_sec A_pub"
  shows "\<exists>a' b'. converse P ms a b = Inr (map (\<lambda>(sender, m). if no_bom m then m else drop 3 m) ms, a', b')
    \<and> counter a' = int (length ms) \<and> counter b' = int (length ms)"
proof -
  have "counter a = 0"
    using assms(2) by (auto simp: createOutboundSession_def bindR_Inr_iff Let_def)
  moreover have "map (\<lambda>(sender, m). if no_bom m then m else drop 3 m) ms = map (text_decode \<circ> snd) ms"
    by (auto simp: text_decode_def no_bom_def)
  ultimately show ?thesis
    using converse_delivers [OF assms(1) paired_created [OF assms(2-4)], of ms]
    by (simp only:) (auto simp: paired_def)
qed

lemma toy_opens [simp]: "opens_what_it_seals toy_primitives"
  by (simp add: opens_what_it_seals_def)

lemma toy_created:
  "\<exists>a e. createOutboundSession toy_primitives 0 l d r f zeros zeros = Inr (a, e)"
  "\<exists>b. createInboundSession toy_primitives 0 l d r f zeros zeros = Inr b"
  by (simp_all add: createOutboundSession_def createInboundSession_def assertKeyLength_def
      Let_def zeros_def bindR_Inr_iff)

theorem session_delivers_conversation_witness:
  "\<exists>a e b a' b'. createOutboundSession toy_primitives 0 ''A'' ''a'' ''B'' ''b'' zeros zeros = Inr (a, e)
    \<and> createInboundSession toy_primitives 0 ''B'' ''b'' ''A'' ''a'' zeros zeros = Inr b
    \<and> converse toy_primitives [(True, ''hi''), (False, ''ho''), (True, ''bye'')] a b
        = Inr ([''hi'', ''ho'', ''bye''], a', b')"
proof -
  obtain a e b where *: "createOutboundSession toy_primitives 0 ''A'' ''a'' ''B'' ''b'' zeros zeros = Inr (a, e)"
    "createInboundSession toy_primitives 0 ''B'' ''b'' ''A'' ''a'' zeros zeros = Inr b"
    using toy_created by metis
  with session_delivers_conversation [OF _ *, of "[(True, ''hi''), (False, ''ho''), (True, ''bye'')]"]
  show ?thesis by (auto simp: no_bom_def)
qed

text \<open>
  A session accepts a ciphertext at one counter only: whatever it accepted names the counter
  the session then had, and every state whose counter differs - after that message, or before an
  earlier one arrived - refuses the same ciphertext. So a replay and a message out of order are
  refused whatever the keys are.
\<close>

theorem session_refuses_replay:
  assumes "decryptMessage P s c = Inr (m, s')" "counter u \<noteq> counter s"
  shows "counter s' \<noteq> counter s \<and> decryptMessage P' u c \<noteq> Inr r"
proof -
  obtain kvs where k: "decode c = Inr (JObj kvs)" "map_of kvs ''counter'' = Some (JNum (counter s))"
      "counter s' = counter s + 1"
    by (rule decrypt_accepts [OF assms(1)]) blast
  have "decryptMessage P' u c \<noteq> Inr r"
  proof
    assume "decryptMessage P' u c = Inr r"
    then obtain kvs' where "decode c = Inr (JObj kvs')" "map_of kvs' ''counter'' = Some (JNum (counter u))"
      using decrypt_accepts by (metis surj_pair)
    with k assms(2) show False by simp
  qed
  with k(3) show ?thesis by simp
qed

theorem session_refuses_replay_witness:
  "\<exists>a c b x b'. encryptMessage toy_primitives a ''hi'' = Inr (c, x)
    \<and> decryptMessage toy_primitives b c = Inr (''hi'', b')
    \<and> decryptMessage toy_primitives b' c \<noteq> Inr (''hi'', b')"
proof -
  obtain a e b where *: "createOutboundSession toy_primitives 0 ''A'' ''a'' ''B'' ''b'' zeros zeros = Inr (a, e)"
    "createInboundSession toy_primitives 0 ''B'' ''b'' ''A'' ''a'' zeros zeros = Inr b"
    using toy_created by metis
  have "text_decode ''hi'' = ''hi''" by (simp add: text_decode_def)
  then obtain c x b' where e: "encryptMessage toy_primitives a ''hi'' = Inr (c, x)"
      and d: "decryptMessage toy_primitives b c = Inr (''hi'', b')"
    using deliver [OF toy_opens paired_created [OF *], of "''hi''"] by (metis (no_types, lifting))
  have "counter b' \<noteq> counter b" using decrypt_accepts [OF d] by fastforce
  with e d session_refuses_replay [OF d] show ?thesis by blast
qed

text \<open>
  C15. Messages that cross are refused: both directions share one counter, so when each end
  encrypts before it has read the other's message, both ends refuse what they receive, each with
  the error that expects the counter after its own message.
\<close>

theorem crossing_messages_refused:
  assumes "paired a b" "encryptMessage P a m = Inr (c, a')" "encryptMessage P b n = Inr (d, b')"
  shows "decryptMessage P b' c = Inl (PlainError (''unexpected message counter: expected ''
           @ show_int (counter a + 1) @ '', got '' @ show_int (counter a)))
    \<and> decryptMessage P a' d = Inl (PlainError (''unexpected message counter: expected ''
           @ show_int (counter a + 1) @ '', got '' @ show_int (counter a)))"
proof -
  obtain t u where c: "decode c = Inr (JObj [(''v'', JNum 1), (''counter'', JNum (counter a)), (''ciphertext'', JStr t)])"
    "counter a' = counter a + 1"
    and d: "decode d = Inr (JObj [(''v'', JNum 1), (''counter'', JNum (counter b)), (''ciphertext'', JStr u)])"
    "counter b' = counter b + 1"
    using encrypt_decodes [OF assms(2)] encrypt_decodes [OF assms(3)] by metis
  have k: "counter a = counter b" using assms(1) by (simp add: paired_def)
  obtain ka kb where "receivingChainKey b' = Some (encodeBase64Url ka)"
      "receivingChainKey a' = Some (encodeBase64Url kb)"
    using assms by (auto simp: paired_def key_of_def encryptMessage_def bindR_Inr_iff Let_def case_prod_unfold
        simp del: stringify.simps)
  with c d k show ?thesis by (simp add: decrypt_of_payload)
qed

theorem crossing_messages_refused_witness:
  "\<exists>a b c a' d b'. encryptMessage toy_primitives a ''hi'' = Inr (c, a')
    \<and> encryptMessage toy_primitives b ''ho'' = Inr (d, b')
    \<and> decryptMessage toy_primitives b' c
        = Inl (PlainError ''unexpected message counter: expected 1, got 0'')"
proof -
  obtain a e b where *: "createOutboundSession toy_primitives 0 ''A'' ''a'' ''B'' ''b'' zeros zeros = Inr (a, e)"
    "createInboundSession toy_primitives 0 ''B'' ''b'' ''A'' ''a'' zeros zeros = Inr b"
    using toy_created by metis
  note p = paired_created [OF *]
  have "text_decode ''hi'' = ''hi''" "text_decode ''ho'' = ''ho''" by (simp_all add: text_decode_def)
  then obtain c a' d b' where e: "encryptMessage toy_primitives a ''hi'' = Inr (c, a')"
      "encryptMessage toy_primitives b ''ho'' = Inr (d, b')"
    using deliver [OF toy_opens p, of "''hi''"] deliver [OF toy_opens paired_sym [OF p], of "''ho''"] by (metis (no_types, lifting))
  have "counter a = 0" using *(1) by (auto simp: createOutboundSession_def bindR_Inr_iff Let_def)
  moreover have "show_int 1 = ''1''" "show_int 0 = ''0''"
    by code_simp+
  ultimately have "decryptMessage toy_primitives b' c
      = Inl (PlainError ''unexpected message counter: expected 1, got 0'')"
    using crossing_messages_refused [OF p e] by simp
  with e show ?thesis by blast
qed

end
