(* ===== verification/Store.thy ===== *)
theory Store
  imports Base64 Json
begin

text \<open>
  The transactional store of \<open>packages/session-node/src/EncryptedSqliteStore.ts\<close> and the
  interface of \<open>store.ts\<close>. Records are a JavaScript \<open>Map\<close>: an association list in insertion
  order. The whole map is one encrypted row; a transaction reads the row, runs the operation on
  the map and writes the map back only when the operation returned. AES-256-GCM and the random
  nonce are parameters (\<open>aead\<close>); SQLite is its documented effect on the one row.
\<close>

subsection \<open>The record map\<close>

type_synonym records = "(string \<times> bytes) list"

type_synonym 'a tx = "(records, 'a) op"

definition rec_get :: "string \<Rightarrow> records \<Rightarrow> bytes option" where
  "rec_get k s = map_of s k"

definition rec_set :: "string \<Rightarrow> bytes \<Rightarrow> records \<Rightarrow> records" where
  "rec_set k v s = obj_put k v s"

definition rec_delete :: "string \<Rightarrow> records \<Rightarrow> records" where
  "rec_delete k s = filter (\<lambda>kv. fst kv \<noteq> k) s"

definition rec_keys :: "string \<Rightarrow> records \<Rightarrow> string list" where
  "rec_keys p s = filter (prefix p) (map fst s)"

text \<open>The map never lists a key twice.\<close>

definition wf_records :: "records \<Rightarrow> bool" where
  "wf_records s = distinct (map fst s)"

text \<open>
  The operations handed to the callback check that the transaction is still running; \<open>active\<close>
  is \<open>scope.active\<close>.
\<close>

definition tx_get :: "bool \<Rightarrow> string \<Rightarrow> bytes option tx" where
  "tx_get active k s =
     (if active then (Inr (rec_get k s), s) else (Inl (PlainError ''Transaction is no longer active''), s))"

definition tx_set :: "bool \<Rightarrow> string \<Rightarrow> bytes \<Rightarrow> unit tx" where
  "tx_set active k v s =
     (if active then (Inr (), rec_set k v s) else (Inl (PlainError ''Transaction is no longer active''), s))"

definition tx_delete :: "bool \<Rightarrow> string \<Rightarrow> unit tx" where
  "tx_delete active k s =
     (if active then (Inr (), rec_delete k s) else (Inl (PlainError ''Transaction is no longer active''), s))"

definition tx_keys :: "bool \<Rightarrow> string \<Rightarrow> string list tx" where
  "tx_keys active p s =
     (if active then (Inr (rec_keys p s), s) else (Inl (PlainError ''Transaction is no longer active''), s))"

subsection \<open>The interface a client of a transaction relies on\<close>

locale kv_store =
  fixes get :: "'k \<Rightarrow> 's \<Rightarrow> 'v option"
    and put :: "'k \<Rightarrow> 'v \<Rightarrow> 's \<Rightarrow> 's"
    and del :: "'k \<Rightarrow> 's \<Rightarrow> 's"
    and keyset :: "'s \<Rightarrow> 'k set"
    and inv :: "'s \<Rightarrow> bool"
  assumes get_put: "get j (put k v s) = (if j = k then Some v else get j s)"
    and get_del: "get j (del k s) = (if j = k then None else get j s)"
    and keyset_get: "k \<in> keyset s \<longleftrightarrow> get k s \<noteq> None"
    and inv_put: "inv s \<Longrightarrow> inv (put k v s)"
    and inv_del: "inv s \<Longrightarrow> inv (del k s)"
begin

lemma get_put_same: "get k (put k v s) = Some v"
  by (simp add: get_put)

lemma keyset_put: "keyset (put k v s) = insert k (keyset s)"
  by (rule set_eqI) (simp add: keyset_get get_put)

lemma keyset_del: "keyset (del k s) = keyset s - {k}"
  by (rule set_eqI) (simp add: keyset_get get_del)

lemma put_del_get: "get j (put k v (del k s)) = get j (put k v s)"
  by (simp add: get_put get_del)

lemma get_frame: "j \<noteq> k \<Longrightarrow> get j (put k v s) = get j s \<and> get j (del k s) = get j s"
  by (simp add: get_put get_del)

text \<open>A sequence of writes is seen through its last write to each key.\<close>

lemma get_puts: "get j (foldr (\<lambda>(k, v). put k v) kvs s) = (case map_of kvs j of Some v \<Rightarrow> Some v | None \<Rightarrow> get j s)"
  by (induction kvs) (auto simp: get_put split: option.splits)

end

lemma map_of_obj_put: "map_of (obj_put k v s) j = (if j = k then Some v else map_of s j)"
  by (induction k v s rule: obj_put.induct) auto

lemma keys_obj_put: "fst ` set (obj_put k v s) = insert k (fst ` set s)"
  by (induction k v s rule: obj_put.induct) auto

lemma distinct_obj_put: "distinct (map fst s) \<Longrightarrow> distinct (map fst (obj_put k v s))"
  by (induction k v s rule: obj_put.induct) (auto simp: keys_obj_put image_iff)

lemma map_of_filter_key: "map_of (filter (\<lambda>kv. fst kv \<noteq> k) s) j = (if j = k then None else map_of s j)"
  by (induction s) auto

text \<open>Every parsed value names each property once.\<close>

lemma wf_members_put: "wf_members kvs \<Longrightarrow> wf_json v \<Longrightarrow> wf_members (obj_put k v kvs)"
  by (induction k v kvs rule: obj_put.induct) auto

lemma obj_of_wf:
  assumes "wf_members kvs"
  shows "distinct (map fst (obj_of kvs)) \<and> wf_members (obj_of kvs)"
proof -
  have "distinct (map fst (foldl (\<lambda>acc (k, v). obj_put k v acc) acc kvs))
      \<and> wf_members (foldl (\<lambda>acc (k, v). obj_put k v acc) acc kvs)"
    if "distinct (map fst acc)" "wf_members acc" for acc
    using assms that
  proof (induction kvs arbitrary: acc)
    case (Cons kv kvs)
    then show ?case by (cases kv) (auto simp: distinct_obj_put wf_members_put)
  qed simp
  from this [of "[]"] show ?thesis by (simp add: obj_of_def)
qed

lemma parse_number_wf: "parse_number s = Some (v, r) \<Longrightarrow> wf_json v"
  by (auto simp: parse_number_def split: list.splits if_splits option.splits)

lemma parse_word_wf: "parse_word w x s = Some (v, r) \<Longrightarrow> v = x"
  by (auto simp: parse_word_def split: if_splits)

lemma parse_wf_all:
  "(\<forall>s v r. parse_value n s = Some (v, r) \<longrightarrow> wf_json v) \<and>
   (\<forall>s vs r. parse_elems n s = Some (vs, r) \<longrightarrow> wf_elems vs) \<and>
   (\<forall>s kvs r. parse_members n s = Some (kvs, r) \<longrightarrow> wf_members kvs)"
proof (induction n)
  case (Suc n)
  then have V: "\<And>s v r. parse_value n s = Some (v, r) \<Longrightarrow> wf_json v"
    and E: "\<And>s vs r. parse_elems n s = Some (vs, r) \<Longrightarrow> wf_elems vs"
    and M: "\<And>s kvs r. parse_members n s = Some (kvs, r) \<Longrightarrow> wf_members kvs" by blast+
  have "wf_json v" if "parse_value (Suc n) s = Some (v, r)" for s v r
    using that E obj_of_wf [OF M]
    by (auto dest: parse_number_wf parse_word_wf split: list.splits if_splits option.splits)
  moreover have "wf_elems vs" if "parse_elems (Suc n) s = Some (vs, r)" for s vs r
    using that V E by (auto split: list.splits if_splits option.splits)
  moreover have "wf_members kvs" if "parse_members (Suc n) s = Some (kvs, r)" for s kvs r
    using that V M by (auto split: list.splits if_splits option.splits)
  ultimately show ?case by blast
qed simp

lemmas parse_value_wf = parse_wf_all [THEN conjunct1, rule_format]

lemma parse_json_wf: "parse_json s = Some v \<Longrightarrow> wf_json v"
  unfolding parse_json_def by (auto split: option.splits if_splits intro: parse_value_wf simp del: parse_value.simps)

lemma decode_wf: "decode b = Inr v \<Longrightarrow> wf_json v"
  by (auto simp: decode_def parse_json_wf)

interpretation kv: kv_store rec_get rec_set rec_delete "\<lambda>s. set (rec_keys [] s)" wf_records
proof unfold_locales
  fix k s
  show "k \<in> set (rec_keys [] s) \<longleftrightarrow> rec_get k s \<noteq> None"
    by (auto simp: rec_keys_def rec_get_def map_of_eq_None_iff)
qed (auto simp: rec_get_def rec_set_def rec_delete_def wf_records_def map_of_obj_put
    map_of_filter_key distinct_obj_put distinct_map_filter)

lemma tx_active [simp, op_simps]:
  "tx_get True k s = (Inr (rec_get k s), s)"
  "tx_set True k v s = (Inr (), rec_set k v s)"
  "tx_delete True k s = (Inr (), rec_delete k s)"
  "tx_keys True p s = (Inr (rec_keys p s), s)"
  by (simp_all add: tx_get_def tx_set_def tx_delete_def tx_keys_def)

lemma rec_keys_iff: "k \<in> set (rec_keys p s) \<longleftrightarrow> prefix p k \<and> rec_get k s \<noteq> None"
  by (auto simp: rec_keys_def rec_get_def map_of_eq_None_iff image_iff)

declare kv.get_put [simp] kv.get_del [simp]

subsection \<open>The encrypted row\<close>

text \<open>AES-256-GCM: \<open>seal key nonce aad plaintext\<close> gives the ciphertext and the tag.\<close>

record aead =
  seal :: "bytes \<Rightarrow> bytes \<Rightarrow> bytes \<Rightarrow> bytes \<Rightarrow> bytes \<times> bytes"
  unseal :: "bytes \<Rightarrow> bytes \<Rightarrow> bytes \<Rightarrow> bytes \<Rightarrow> bytes \<Rightarrow> bytes option"

datatype sql_value = SqlNull | SqlInt int | SqlText string | SqlBlob bytes

record enc_row =
  row_version :: sql_value
  row_nonce :: sql_value
  row_tag :: sql_value
  row_ciphertext :: sql_value

definition store_aad :: bytes where
  "store_aad = ''Echolet/session-node/state/v1''"

fun read_entries :: "json list \<Rightarrow> records \<Rightarrow> records result" where
  "read_entries [] acc = Inr acc"
| "read_entries (JArr [JStr k, JStr t] # es) acc =
     (if rec_get k acc \<noteq> None then Inl (PlainError ''Invalid session snapshot record'')
      else let b = buffer_from_base64url t in
        if btoa b \<noteq> t then Inl (PlainError ''Invalid session record encoding'')
        else read_entries es (rec_set k b acc))"
| "read_entries (_ # es) acc = Inl (PlainError ''Invalid session snapshot record'')"

definition read_snapshot :: "bytes \<Rightarrow> records result" where
  "read_snapshot plaintext =
     bindR (decode plaintext) (\<lambda>v.
       case v of JArr es \<Rightarrow> read_entries es []
       | _ \<Rightarrow> Inl (PlainError ''Invalid session snapshot''))"

definition read_row :: "aead \<Rightarrow> bytes \<Rightarrow> enc_row option \<Rightarrow> records result" where
  "read_row A key row =
     (case row of
        None \<Rightarrow> Inl (PlainError ''Missing encrypted session state'')
      | Some r \<Rightarrow>
          (case (row_version r, row_nonce r, row_tag r, row_ciphertext r) of
             (SqlInt v, SqlBlob nonce, SqlBlob tag, SqlBlob ciphertext) \<Rightarrow>
               if v \<noteq> 1 \<or> length nonce \<noteq> 12 \<or> length tag \<noteq> 16
               then Inl (PlainError ''Invalid encrypted session state'')
               else bindR (of_option (PlainError ''Unsupported state or unable to authenticate data'')
                            (unseal A key nonce store_aad ciphertext tag)) read_snapshot
           | _ \<Rightarrow> Inl (PlainError ''Invalid encrypted session state'')))"

definition snapshot_text :: "records \<Rightarrow> bytes" where
  "snapshot_text s = encode (JArr (map (\<lambda>(k, v). JArr [JStr k, JStr (btoa v)]) s))"

definition write_row :: "aead \<Rightarrow> bytes \<Rightarrow> bytes \<Rightarrow> records \<Rightarrow> enc_row" where
  "write_row A key nonce s =
     (let (ciphertext, tag) = seal A key nonce store_aad (snapshot_text s) in
      \<lparr>row_version = SqlInt 1, row_nonce = SqlBlob nonce, row_tag = SqlBlob tag,
       row_ciphertext = SqlBlob ciphertext\<rparr>)"

subsection \<open>The store file and one transaction\<close>

record store_file =
  file_row :: "enc_row option"
  file_key :: bytes

text \<open>
  \<open>fault\<close> is the error a database statement raised, if one did: the handler rolls back.
\<close>

definition open_store :: "aead \<Rightarrow> bytes \<Rightarrow> bytes \<Rightarrow> enc_row option option \<Rightarrow> store_file result" where
  "open_store A nonce key existing =
     (if length key \<noteq> 32 then Inl (PlainError ''Storage key must be 32 bytes'')
      else case existing of
        None \<Rightarrow> Inr \<lparr>file_row = Some (write_row A key nonce []), file_key = key\<rparr>
      | Some row \<Rightarrow> bindR (read_row A key row) (\<lambda>_. Inr \<lparr>file_row = row, file_key = key\<rparr>))"

definition perform :: "aead \<Rightarrow> bytes \<Rightarrow> exn option \<Rightarrow> 'a tx \<Rightarrow> (store_file, 'a) op" where
  "perform A nonce fault operation st =
     (case read_row A (file_key st) (file_row st) of
        Inl e \<Rightarrow> (Inl e, st)
      | Inr s \<Rightarrow>
          (case operation s of
             (Inl e, _) \<Rightarrow> (Inl e, st)
           | (Inr x, s') \<Rightarrow>
               (case fault of
                  Some e \<Rightarrow> (Inl e, st)
                | None \<Rightarrow> (Inr x, st\<lparr>file_row := Some (write_row A (file_key st) nonce s')\<rparr>))))"

subsection \<open>What the file holds\<close>

definition aead_ok :: "aead \<Rightarrow> bool" where
  "aead_ok A \<longleftrightarrow>
     (\<forall>k n a p. unseal A k n a (fst (seal A k n a p)) (snd (seal A k n a p)) = Some p
        \<and> length (snd (seal A k n a p)) = 16)"

lemma read_entries_print:
  "distinct (map fst (acc @ s)) \<Longrightarrow>
     read_entries (map (\<lambda>(k, v). JArr [JStr k, JStr (btoa v)]) s) acc = Inr (acc @ s)"
proof (induction s arbitrary: acc)
  case (Cons kv s)
  obtain k v where kv: "kv = (k, v)" by (cases kv)
  have "rec_get k acc = None" "rec_set k v acc = acc @ [(k, v)]"
    using Cons.prems kv by (auto simp: rec_get_def rec_set_def map_of_eq_None_iff obj_put_new)
  with Cons.IH [of "acc @ [(k, v)]"] Cons.prems kv show ?case by simp
qed simp

lemma read_snapshot_text:
  assumes "wf_records s"
  shows "read_snapshot (snapshot_text s) = Inr s"
proof -
  have "wf_json (JArr (map (\<lambda>(k, v). JArr [JStr k, JStr (btoa v)]) s))"
    by (auto simp: wf_elems_iff)
  with read_entries_print [of "[]" s] assms show ?thesis
    by (simp add: read_snapshot_def snapshot_text_def wf_records_def del: stringify.simps)
qed

interpretation snapshot: codec snapshot_text read_snapshot wf_records
  by unfold_locales (rule read_snapshot_text)

lemma read_write_row:
  assumes "aead_ok A" "length nonce = 12" "wf_records s"
  shows "read_row A key (Some (write_row A key nonce s)) = Inr s"
  using assms by (simp add: read_row_def write_row_def Let_def case_prod_unfold aead_ok_def snapshot.dec_enc)

definition holds :: "aead \<Rightarrow> store_file \<Rightarrow> records \<Rightarrow> bool" where
  "holds A st s \<longleftrightarrow> read_row A (file_key st) (file_row st) = Inr s"

lemma holds_unique: "holds A st s \<Longrightarrow> holds A st t \<Longrightarrow> s = t"
  by (simp add: holds_def)

lemma read_entries_wf: "read_entries es acc = Inr s \<Longrightarrow> wf_records acc \<Longrightarrow> wf_records s"
  by (induction es acc rule: read_entries.induct) (auto simp: Let_def kv.inv_put split: if_splits)

lemma read_snapshot_wf: "read_snapshot t = Inr s \<Longrightarrow> wf_records s"
proof -
  assume "read_snapshot t = Inr s"
  then obtain v where "decode t = Inr v" "(case v of JArr es \<Rightarrow> read_entries es []
       | _ \<Rightarrow> Inl (PlainError ''Invalid session snapshot'')) = Inr s"
    by (auto simp: read_snapshot_def bindR_Inr_iff)
  then show ?thesis by (cases v) (auto dest: read_entries_wf simp: wf_records_def)
qed

lemma holds_wf: "holds A st s \<Longrightarrow> wf_records s"
  by (auto simp: holds_def read_row_def bindR_Inr_iff intro: read_snapshot_wf
      split: option.splits sql_value.splits if_splits)

lemma perform_spec:
  assumes "aead_ok A" "length nonce = 12" "holds A st s"
    and keeps: "\<And>x s'. operation s = (Inr x, s') \<Longrightarrow> wf_records s'"
  shows "case operation s of
      (Inl e, _) \<Rightarrow> perform A nonce fault operation st = (Inl e, st)
    | (Inr x, s') \<Rightarrow>
        (case fault of
           Some e \<Rightarrow> perform A nonce fault operation st = (Inl e, st)
         | None \<Rightarrow> \<exists>st'. perform A nonce fault operation st = (Inr x, st') \<and> holds A st' s')"
  using assms keeps
  by (auto simp: perform_def holds_def read_write_row split: prod.splits sum.splits option.splits)

subsection \<open>Overlapping transactions\<close>

text \<open>
  What a callback does between two of its awaits is a section: it changes the records and goes on by
  what it has read. Anything may happen between two sections, so callbacks overlap as far as the
  promises let them.
\<close>

datatype 'v steps = Resolved 'v | Rejected exn | Section "records \<Rightarrow> records" "records \<Rightarrow> 'v steps"

primrec run_steps :: "'v steps \<Rightarrow> 'v tx" where
  "run_steps (Resolved x) = (\<lambda>s. (Inr x, s))"
| "run_steps (Rejected e) = (\<lambda>s. (Inl e, s))"
| "run_steps (Section f g) = (\<lambda>s. run_steps (g s) (f s))"

datatype 'v phase = JobWaiting | JobRunning "'v steps" records | JobSettled "'v result"

fun is_running :: "'v phase \<Rightarrow> bool" where
  "is_running (JobRunning p s) = True"
| "is_running _ = False"

fun is_settled :: "'v phase \<Rightarrow> bool" where
  "is_settled (JobSettled r) = True"
| "is_settled _ = False"

text \<open>
  A call of \<open>transaction\<close> that was not refused is a job; its promise is its position. \<open>job_after\<close> is the
  promise it was chained behind, the \<open>tail\<close> of that moment, and none is the promise that was resolved
  from the start. Every running job has its own map of records and its own scope.
\<close>

record 'v job =
  job_operation :: "'v steps"
  job_after :: "nat option"
  job_phase :: "'v phase"

record 'v store_queue =
  q_jobs :: "'v job list"
  q_tail :: "nat option"
  q_closing :: bool
  q_closePromise :: "nat option option"
  q_open :: bool
  q_begun :: bool
  q_file :: store_file

definition new_queue :: "store_file \<Rightarrow> 'v store_queue" where
  "new_queue f = \<lparr>q_jobs = [], q_tail = None, q_closing = False, q_closePromise = None, q_open = True, q_begun = False, q_file = f\<rparr>"

text \<open>
  \<open>caller\<close> is the job in whose asynchronous context the call is made, if it is in one: a job that has
  settled is no longer active.
\<close>

definition scope_active :: "nat option \<Rightarrow> 'v store_queue \<Rightarrow> bool" where
  "scope_active caller q =
     (case caller of None \<Rightarrow> False | Some j \<Rightarrow> j < length (q_jobs q) \<and> is_running (job_phase (q_jobs q ! j)))"

definition transaction :: "nat option \<Rightarrow> 'v steps \<Rightarrow> 'v store_queue \<Rightarrow> nat result \<times> 'v store_queue" where
  "transaction caller operation q =
     (if scope_active caller q then (Inl (PlainError ''Nested transaction is not supported''), q)
      else if q_closing q then (Inl (PlainError ''Store is closed''), q)
      else (Inr (length (q_jobs q)),
        q\<lparr>q_jobs := q_jobs q @ [\<lparr>job_operation = operation, job_after = q_tail q, job_phase = JobWaiting\<rparr>],
          q_tail := Some (length (q_jobs q))\<rparr>))"

definition close_store :: "nat option \<Rightarrow> 'v store_queue \<Rightarrow> unit result \<times> 'v store_queue" where
  "close_store caller q =
     (if scope_active caller q then (Inl (PlainError ''Cannot close from a transaction''), q)
      else (Inr (), q\<lparr>q_closing := True,
        q_closePromise := (case q_closePromise q of None \<Rightarrow> Some (q_tail q) | Some after \<Rightarrow> Some after)\<rparr>))"

text \<open>The promise chained behind swallows the outcome, so a job that failed lets the next one begin.\<close>

definition settled_after :: "nat option \<Rightarrow> 'v store_queue \<Rightarrow> bool" where
  "settled_after after q =
     (case after of None \<Rightarrow> True | Some j \<Rightarrow> j < length (q_jobs q) \<and> is_settled (job_phase (q_jobs q ! j)))"

definition enter_phase :: "nat \<Rightarrow> 'v phase \<Rightarrow> 'v store_queue \<Rightarrow> 'v store_queue" where
  "enter_phase i p q = q\<lparr>q_jobs := (q_jobs q)[i := (q_jobs q ! i)\<lparr>job_phase := p\<rparr>]\<rparr>"

text \<open>
  \<open>perform\<close> up to its \<open>await\<close>, one section of the callback, and the rest of \<open>perform\<close>. \<open>BEGIN\<close> fails when
  the database is busy, closed or in a transaction already, and nothing is rolled back then.
\<close>

definition begin_job :: "aead \<Rightarrow> exn option \<Rightarrow> nat \<Rightarrow> 'v store_queue \<Rightarrow> 'v store_queue" where
  "begin_job A busy i q =
     (case busy of
        Some e \<Rightarrow> enter_phase i (JobSettled (Inl e)) q
      | None \<Rightarrow>
          if \<not> q_open q then enter_phase i (JobSettled (Inl (PlainError ''database is not open''))) q
          else if q_begun q then enter_phase i (JobSettled (Inl (PlainError ''cannot start a transaction within a transaction''))) q
          else (case read_row A (file_key (q_file q)) (file_row (q_file q)) of
              Inl e \<Rightarrow> enter_phase i (JobSettled (Inl e)) q
            | Inr s \<Rightarrow> enter_phase i (JobRunning (job_operation (q_jobs q ! i)) s) (q\<lparr>q_begun := True\<rparr>)))"

definition run_section :: "nat \<Rightarrow> 'v store_queue \<Rightarrow> 'v store_queue" where
  "run_section i q =
     (case job_phase (q_jobs q ! i) of
        JobRunning (Section f g) s \<Rightarrow> enter_phase i (JobRunning (g s) (f s)) q
      | _ \<Rightarrow> q)"

definition end_job :: "aead \<Rightarrow> bytes \<Rightarrow> exn option \<Rightarrow> nat \<Rightarrow> 'v store_queue \<Rightarrow> 'v store_queue" where
  "end_job A nonce fault i q =
     (let rolled_back = (\<lambda>e. enter_phase i (JobSettled (Inl e)) (q\<lparr>q_begun := False\<rparr>)) in
      case job_phase (q_jobs q ! i) of
        JobRunning (Resolved x) s \<Rightarrow>
          (case fault of
             Some e \<Rightarrow> rolled_back e
           | None \<Rightarrow> enter_phase i (JobSettled (Inr x))
               (q\<lparr>q_begun := False, q_file := (q_file q)\<lparr>file_row := Some (write_row A (file_key (q_file q)) nonce s)\<rparr>\<rparr>))
      | JobRunning (Rejected e) s \<Rightarrow> rolled_back e
      | _ \<Rightarrow> q)"

inductive queue_step :: "aead \<Rightarrow> 'v store_queue \<Rightarrow> 'v store_queue \<Rightarrow> bool" for A where
  submits: "queue_step A q (snd (transaction caller operation q))"
| closes: "queue_step A q (snd (close_store caller q))"
| begins: "i < length (q_jobs q) \<Longrightarrow> job_phase (q_jobs q ! i) = JobWaiting \<Longrightarrow> settled_after (job_after (q_jobs q ! i)) q \<Longrightarrow>
    queue_step A q (begin_job A busy i q)"
| goes_on: "i < length (q_jobs q) \<Longrightarrow> queue_step A q (run_section i q)"
| ends: "i < length (q_jobs q) \<Longrightarrow> queue_step A q (end_job A nonce fault i q)"
| shuts: "q_closePromise q = Some after \<Longrightarrow> settled_after after q \<Longrightarrow> queue_step A q (q\<lparr>q_open := False\<rparr>)"

inductive queue_reachable :: "aead \<Rightarrow> store_file \<Rightarrow> 'v store_queue \<Rightarrow> bool" for A f where
  start: "queue_reachable A f (new_queue f)"
| step: "queue_reachable A f q \<Longrightarrow> queue_step A q q' \<Longrightarrow> queue_reachable A f q'"

text \<open>The specification: one transaction after another, each with its nonce and the faults it met.\<close>

definition performed :: "aead \<Rightarrow> 'v steps \<times> bytes \<times> exn option \<times> exn option \<Rightarrow> store_file \<Rightarrow> 'v result \<times> store_file" where
  "performed A = (\<lambda>(operation, nonce, busy, fault) f.
     case busy of Some e \<Rightarrow> (Inl e, f) | None \<Rightarrow> perform A nonce fault (run_steps operation) f)"

fun serially :: "aead \<Rightarrow> ('v steps \<times> bytes \<times> exn option \<times> exn option) list \<Rightarrow> store_file \<Rightarrow> 'v result list \<times> store_file" where
  "serially A [] f = ([], f)"
| "serially A (x # xs) f = (let (r, f1) = performed A x f; (rs, f2) = serially A xs f1 in (r # rs, f2))"

lemma serially_snoc:
  "serially A xs f = (rs, g) \<Longrightarrow> performed A x g = (r, h) \<Longrightarrow> serially A (xs @ [x]) f = (rs @ [r], h)"
  by (induction xs arbitrary: f rs) (auto simp: Let_def split: prod.splits)

text \<open>
  \<open>rs\<close> are the results of the jobs that have settled, with \<open>envs\<close> what they met: they are the first ones.
  Only the next job can be running, on records that still lead where its callback leads from the file.
\<close>

definition chained :: "'v store_queue \<Rightarrow> bool" where
  "chained q \<longleftrightarrow> (\<forall>i < length (q_jobs q). job_after (q_jobs q ! i) = (if i = 0 then None else Some (i - 1)))
     \<and> q_tail q = (if q_jobs q = [] then None else Some (length (q_jobs q) - 1))
     \<and> q_closePromise q = (if q_closing q then Some (q_tail q) else None)"

definition in_progress :: "aead \<Rightarrow> 'v store_queue \<Rightarrow> 'v job \<Rightarrow> bool" where
  "in_progress A q j \<longleftrightarrow>
     (case job_phase j of
        JobWaiting \<Rightarrow> \<not> q_begun q
      | JobRunning p s \<Rightarrow> q_begun q \<and> (\<exists>s0. holds A (q_file q) s0 \<and> run_steps (job_operation j) s0 = run_steps p s)
      | JobSettled r \<Rightarrow> False)"

definition queue_inv :: "aead \<Rightarrow> store_file \<Rightarrow> 'v store_queue \<Rightarrow> 'v result list \<Rightarrow> (bytes \<times> exn option \<times> exn option) list \<Rightarrow> bool" where
  "queue_inv A f q rs envs \<longleftrightarrow> length envs = length rs \<and> length rs \<le> length (q_jobs q)
     \<and> serially A (zip (map job_operation (q_jobs q)) envs) f = (rs, q_file q)
     \<and> map job_phase (take (length rs) (q_jobs q)) = map JobSettled rs
     \<and> list_all (\<lambda>j. job_phase j = JobWaiting) (drop (Suc (length rs)) (q_jobs q))
     \<and> (if length rs < length (q_jobs q) then in_progress A q (q_jobs q ! length rs) \<and> q_open q
        else \<not> q_begun q)
     \<and> (q_open q \<or> q_closing q) \<and> chained q"

lemma inv_phases:
  assumes "queue_inv A f q rs envs" "i < length (q_jobs q)"
  shows "i < length rs \<Longrightarrow> job_phase (q_jobs q ! i) = JobSettled (rs ! i)"
    "length rs < i \<Longrightarrow> job_phase (q_jobs q ! i) = JobWaiting"
    "i = length rs \<Longrightarrow> in_progress A q (q_jobs q ! i) \<and> \<not> is_settled (job_phase (q_jobs q ! i))"
proof -
  note v = assms(1) [unfolded queue_inv_def]
  show "job_phase (q_jobs q ! i) = JobSettled (rs ! i)" if "i < length rs"
  proof -
    have "map job_phase (take (length rs) (q_jobs q)) ! i = map JobSettled rs ! i" using v by simp
    then show ?thesis using that assms(2) by simp
  qed
  show "job_phase (q_jobs q ! i) = JobWaiting" if "length rs < i"
  proof -
    have "q_jobs q ! i = drop (Suc (length rs)) (q_jobs q) ! (i - Suc (length rs))" using that assms(2) by simp
    moreover have "drop (Suc (length rs)) (q_jobs q) ! (i - Suc (length rs)) \<in> set (drop (Suc (length rs)) (q_jobs q))"
      using that assms(2) by (intro nth_mem) simp
    ultimately show ?thesis using v by (simp add: list_all_iff)
  qed
  show "in_progress A q (q_jobs q ! i) \<and> \<not> is_settled (job_phase (q_jobs q ! i))" if "i = length rs"
    using v that assms(2) by (auto simp: in_progress_def split: phase.splits)
qed

lemma inv_running:
  assumes "queue_inv A f q rs envs" "i < length (q_jobs q)" "is_running (job_phase (q_jobs q ! i))"
  shows "i = length rs"
  using inv_phases(1,2) [OF assms(1,2)] assms(3) by (cases i "length rs" rule: linorder_cases) auto

lemma inv_begins:
  assumes "queue_inv A f q rs envs" "i < length (q_jobs q)" "job_phase (q_jobs q ! i) = JobWaiting" "settled_after (job_after (q_jobs q ! i)) q"
  shows "i = length rs"
proof (rule ccontr)
  assume "i \<noteq> length rs"
  with inv_phases(1) [OF assms(1,2)] assms(3) have i: "length rs < i" by (cases "i < length rs") auto
  with assms have "settled_after (Some (i - 1)) q" by (auto simp: queue_inv_def chained_def)
  moreover have "\<not> is_settled (job_phase (q_jobs q ! (i - 1)))"
    using inv_phases(2,3) [OF assms(1), of "i - 1"] assms(2) i by (cases "i - 1 = length rs") auto
  ultimately show False by (simp add: settled_after_def)
qed

lemma inv_next_may_begin:
  assumes "queue_inv A f q rs envs" "length rs < length (q_jobs q)"
  shows "settled_after (job_after (q_jobs q ! length rs)) q"
proof (cases "rs = []")
  case False
  then have "job_phase (q_jobs q ! (length rs - 1)) = JobSettled (rs ! (length rs - 1))"
    using inv_phases(1) [OF assms(1), of "length rs - 1"] assms(2) by (cases rs) simp_all
  with False assms show ?thesis by (auto simp: queue_inv_def chained_def settled_after_def)
qed (use assms in \<open>auto simp: queue_inv_def chained_def settled_after_def\<close>)

lemma chained_phase: "i < length (q_jobs q) \<Longrightarrow> chained q \<Longrightarrow> chained (enter_phase i p (q\<lparr>q_begun := b, q_file := g\<rparr>))"
  by (auto simp: chained_def enter_phase_def nth_list_update)

text \<open>The next job settles: what the specification says of it joins the results.\<close>

lemma inv_settles:
  assumes "queue_inv A f q rs envs" "length rs < length (q_jobs q)"
    "performed A (job_operation (q_jobs q ! length rs), env) (q_file q) = (r, g)"
  shows "queue_inv A f (enter_phase (length rs) (JobSettled r) (q\<lparr>q_begun := False, q_file := g\<rparr>)) (rs @ [r]) (envs @ [env])"
proof -
  let ?js = "q_jobs q" and ?n = "length rs"
  let ?q = "enter_phase ?n (JobSettled r) (q\<lparr>q_begun := False, q_file := g\<rparr>)"
  note v = assms(1) [unfolded queue_inv_def]
  have js: "q_jobs ?q = ?js[?n := (?js ! ?n)\<lparr>job_phase := JobSettled r\<rparr>]" by (simp add: enter_phase_def)
  have ops: "map job_operation (q_jobs ?q) = map job_operation ?js"
    unfolding js by (rule nth_equalityI) (simp_all add: nth_list_update assms(2))
  have "zip (map job_operation ?js) (envs @ [env]) = zip (map job_operation ?js) envs @ [(job_operation (?js ! ?n), env)]"
  proof -
    have "map job_operation ?js = map job_operation (take ?n ?js) @ job_operation (?js ! ?n) # map job_operation (drop (Suc ?n) ?js)"
      using id_take_nth_drop [OF assms(2)] by (metis list.simps(9) map_append)
    moreover have "length (map job_operation (take ?n ?js)) = length envs" using v by simp
    ultimately show ?thesis by (simp add: zip_append1)
  qed
  then have "serially A (zip (map job_operation (q_jobs ?q)) (envs @ [env])) f = (rs @ [r], q_file ?q)"
    using serially_snoc [OF _ assms(3)] v unfolding ops by (simp add: enter_phase_def)
  moreover have "map job_phase (take (length (rs @ [r])) (q_jobs ?q)) = map JobSettled (rs @ [r])"
    using v assms(2) unfolding js by (simp add: take_Suc_conv_app_nth [of _ "(q_jobs q)[length rs := _]"])
  moreover have "drop (Suc (length (rs @ [r]))) (q_jobs ?q) = drop (Suc (Suc ?n)) ?js" unfolding js by simp
  moreover have w: "list_all (\<lambda>j. job_phase j = JobWaiting) (drop (Suc ?n) ?js)" using v by blast
  moreover have "list_all (\<lambda>j. job_phase j = JobWaiting) (drop (Suc (Suc ?n)) ?js)"
    using w by (metis drop_Suc drop_all drop_eq_Nil2 drop_drop list_all_iff in_set_dropD plus_1_eq_Suc)
  moreover have "in_progress A ?q (q_jobs ?q ! Suc ?n)" if "Suc ?n < length ?js"
  proof -
    have "job_phase (?js ! Suc ?n) = JobWaiting" using inv_phases(2) [OF assms(1) that] by simp
    then show ?thesis unfolding js using that by (simp add: in_progress_def enter_phase_def)
  qed
  moreover have "chained ?q" using chained_phase [OF assms(2)] v by blast
  ultimately show ?thesis using v assms(2) unfolding queue_inv_def by (simp add: enter_phase_def)
qed

lemma inv_moves:
  assumes "queue_inv A f q rs envs" "length rs < length (q_jobs q)"
    "in_progress A (q\<lparr>q_begun := b\<rparr>) ((q_jobs q ! length rs)\<lparr>job_phase := p\<rparr>)"
  shows "queue_inv A f (enter_phase (length rs) p (q\<lparr>q_begun := b\<rparr>)) rs envs"
proof -
  let ?q = "enter_phase (length rs) p (q\<lparr>q_begun := b\<rparr>)"
  have js: "q_jobs ?q = (q_jobs q)[length rs := (q_jobs q ! length rs)\<lparr>job_phase := p\<rparr>]" by (simp add: enter_phase_def)
  have "map job_operation (q_jobs ?q) = map job_operation (q_jobs q)"
    unfolding js by (rule nth_equalityI) (simp_all add: nth_list_update assms(2))
  moreover have "in_progress A ?q (q_jobs ?q ! length rs)" using assms(2,3) by (cases p) (simp_all add: enter_phase_def in_progress_def)
  moreover have "take (length rs) (q_jobs ?q) = take (length rs) (q_jobs q)" "drop (Suc (length rs)) (q_jobs ?q) = drop (Suc (length rs)) (q_jobs q)"
    unfolding js by simp_all
  moreover have "chained ?q" using chained_phase [OF assms(2), of _ "q_file q" b] assms(1) by (simp add: queue_inv_def)
  ultimately show ?thesis using assms(1,2) unfolding queue_inv_def by (simp add: enter_phase_def)
qed

lemma inv_submits:
  assumes "queue_inv A f q rs envs"
  shows "queue_inv A f (snd (transaction caller operation q)) rs envs"
proof (cases "scope_active caller q \<or> q_closing q")
  case False
  let ?j = "\<lparr>job_operation = operation, job_after = q_tail q, job_phase = JobWaiting\<rparr>"
  let ?q = "q\<lparr>q_jobs := q_jobs q @ [?j], q_tail := Some (length (q_jobs q))\<rparr>"
  note v = assms [unfolded queue_inv_def]
  have o: "q_open q" using v False by blast
  have "zip (map job_operation (q_jobs q) @ [operation]) envs = zip (map job_operation (q_jobs q)) envs"
    using v by (simp add: zip_append1)
  moreover have "chained ?q" using v False by (auto simp: chained_def nth_append less_Suc_eq)
  moreover have "in_progress A ?q ((q_jobs q @ [?j]) ! length rs)"
    using v by (auto simp: in_progress_def nth_append split: phase.splits)
  moreover have "list_all (\<lambda>j. job_phase j = JobWaiting) (drop (Suc (length rs)) (q_jobs q @ [?j]))"
    using v by (auto simp: list_all_iff dest: in_set_dropD)
  ultimately have "queue_inv A f ?q rs envs" using v o by (simp add: queue_inv_def)
  with False show ?thesis by (simp add: transaction_def)
qed (use assms in \<open>auto simp: transaction_def\<close>)

lemma inv_closes: "queue_inv A f q rs envs \<Longrightarrow> queue_inv A f (snd (close_store caller q)) rs envs"
  by (auto simp: close_store_def queue_inv_def chained_def in_progress_def split: phase.splits)

lemma inv_shuts:
  assumes "queue_inv A f q rs envs" "q_closePromise q = Some after" "settled_after after q"
  shows "queue_inv A f (q\<lparr>q_open := False\<rparr>) rs envs"
proof -
  note v = assms(1) [unfolded queue_inv_def]
  have "q_closing q" "after = q_tail q" using v assms(2) by (auto simp: chained_def split: if_splits)
  have "length rs = length (q_jobs q)"
  proof (rule ccontr)
    assume "length rs \<noteq> length (q_jobs q)"
    with v have n: "length rs < length (q_jobs q)" by simp
    then have "q_tail q = Some (length (q_jobs q) - 1)" using v by (auto simp: chained_def)
    moreover have "\<not> is_settled (job_phase (q_jobs q ! (length (q_jobs q) - 1)))"
      using inv_phases(2,3) [OF assms(1), of "length (q_jobs q) - 1"] n by (cases "length rs = length (q_jobs q) - 1") auto
    ultimately show False using assms(3) \<open>after = q_tail q\<close> by (simp add: settled_after_def)
  qed
  with v \<open>q_closing q\<close> show ?thesis by (simp add: queue_inv_def chained_def)
qed

lemma same_queue: "\<not> q_begun q \<Longrightarrow> q\<lparr>q_begun := False, q_file := q_file q\<rparr> = q"
  by simp

lemma inv_begins_job:
  assumes "queue_inv A f q rs envs" "length rs < length (q_jobs q)" "job_phase (q_jobs q ! length rs) = JobWaiting"
  shows "\<exists>rs' envs'. queue_inv A f (begin_job A busy (length rs) q) rs' envs'"
proof -
  let ?j = "q_jobs q ! length rs"
  have q: "\<not> q_begun q" "q_open q" using assms by (auto simp: queue_inv_def in_progress_def)
  note settles = inv_settles [OF assms(1,2), of _ _ "q_file q", unfolded same_queue [OF q(1)]]
  show ?thesis
  proof (cases busy)
    case (Some e)
    from settles [of "([], Some e, None)" "Inl e"] Some show ?thesis by (auto simp: performed_def begin_job_def)
  next
    case None
    show ?thesis
    proof (cases "read_row A (file_key (q_file q)) (file_row (q_file q))")
      case (Inl e)
      from settles [of "([], None, None)" "Inl e"] Inl None q show ?thesis by (auto simp: performed_def perform_def begin_job_def)
    next
      case (Inr s)
      from inv_moves [OF assms(1,2), of True "JobRunning (job_operation ?j) s"] Inr None q
      show ?thesis by (auto simp: begin_job_def in_progress_def holds_def)
    qed
  qed
qed

lemma inv_goes_on:
  assumes "queue_inv A f q rs envs" "i < length (q_jobs q)"
  shows "queue_inv A f (run_section i q) rs envs"
proof (cases "\<exists>g h s. job_phase (q_jobs q ! i) = JobRunning (Section g h) s")
  case True
  then obtain g h s where p: "job_phase (q_jobs q ! i) = JobRunning (Section g h) s" by blast
  with inv_running [OF assms] have i: "i = length rs" by simp
  have "in_progress A q (q_jobs q ! i)" using inv_phases(3) [OF assms i] by blast
  with p have b: "q_begun q" "in_progress A (q\<lparr>q_begun := True\<rparr>) ((q_jobs q ! length rs)\<lparr>job_phase := JobRunning (h s) (g s)\<rparr>)"
    by (auto simp: in_progress_def i)
  moreover have "q\<lparr>q_begun := True\<rparr> = q" using b(1) by simp
  ultimately show ?thesis using inv_moves [OF assms(1) _ b(2)] assms(2) p i by (simp only: run_section_def phase.case steps.case)
qed (use assms(1) in \<open>auto simp: run_section_def split: phase.split steps.split\<close>)

lemma inv_ends:
  assumes "queue_inv A f q rs envs" "i < length (q_jobs q)"
  shows "\<exists>rs' envs'. queue_inv A f (end_job A nonce fault i q) rs' envs'"
proof (cases "job_phase (q_jobs q ! i)")
  case (JobRunning p s)
  with inv_running [OF assms] have i: "i = length rs" by simp
  have "in_progress A q (q_jobs q ! i)" using inv_phases(3) [OF assms i] by blast
  with JobRunning obtain s0 where s0: "read_row A (file_key (q_file q)) (file_row (q_file q)) = Inr s0"
      "run_steps (job_operation (q_jobs q ! length rs)) s0 = run_steps p s" by (auto simp: in_progress_def holds_def i)
  note settles = inv_settles [OF assms(1) assms(2) [unfolded i], of "(nonce, None, fault)"]
  show ?thesis
  proof (cases p)
    case (Resolved x)
    then show ?thesis
    proof (cases fault)
      case None
      from settles [of "Inr x" "(q_file q)\<lparr>file_row := Some (write_row A (file_key (q_file q)) nonce s)\<rparr>"] s0 Resolved None JobRunning i
      show ?thesis by (auto simp: performed_def perform_def end_job_def)
    next
      case (Some e)
      from settles [of "Inl e" "q_file q"] s0 Resolved Some JobRunning i
      show ?thesis by (auto simp: performed_def perform_def end_job_def)
    qed
  next
    case (Rejected e)
    from settles [of "Inl e" "q_file q"] s0 Rejected JobRunning i
    show ?thesis by (auto simp: performed_def perform_def end_job_def)
  next
    case (Section g h)
    with assms(1) JobRunning show ?thesis by (auto simp: end_job_def)
  qed
qed (use assms(1) in \<open>auto simp: end_job_def\<close>)

lemma queue_reachable_inv: "queue_reachable A f q \<Longrightarrow> \<exists>rs envs. queue_inv A f q rs envs"
proof (induction rule: queue_reachable.induct)
  case start
  have "queue_inv A f (new_queue f) [] []" by (simp add: queue_inv_def new_queue_def chained_def)
  then show ?case by blast
next
  case (step q q')
  then obtain rs envs where v: "queue_inv A f q rs envs" by blast
  from step.hyps(2) show ?case
  proof cases
    case (begins i busy)
    with inv_begins [OF v] have "i = length rs" by blast
    with inv_begins_job [OF v] begins show ?thesis by simp
  next
    case submits
    with inv_submits [OF v] show ?thesis by blast
  next
    case closes
    with inv_closes [OF v] show ?thesis by blast
  next
    case goes_on
    with inv_goes_on [OF v] show ?thesis by blast
  next
    case ends
    with inv_ends [OF v] show ?thesis by blast
  next
    case shuts
    with inv_shuts [OF v] show ?thesis by blast
  qed
qed

subsection \<open>Properties\<close>

text \<open>
  A stored snapshot is read back exactly: with an authenticated cipher that opens what it
  sealed, the row written for a record map decodes to the same records, bytes and key order.
\<close>

theorem store_row_round_trip:
  assumes "aead_ok A" "length nonce = 12" "wf_records s"
  shows "read_row A key (Some (write_row A key nonce s)) = Inr s"
  by (rule read_write_row [OF assms])

definition toy_aead :: aead where
  "toy_aead = \<lparr>seal = (\<lambda>k n a p. (k @ p, replicate 16 CHR ''t'')),
     unseal = (\<lambda>k n a c t. if prefix k c \<and> t = replicate 16 CHR ''t'' then Some (drop (length k) c) else None)\<rparr>"

lemma toy_aead_ok [simp]: "aead_ok toy_aead"
  by (simp add: aead_ok_def toy_aead_def)

theorem store_row_round_trip_witness:
  "read_row toy_aead ''k'' (Some (write_row toy_aead ''k'' (replicate 12 CHR ''n'') [(''b'', ''xy''), (''a'', [])]))
     = Inr [(''b'', ''xy''), (''a'', [])]"
  by (rule store_row_round_trip) (simp_all add: wf_records_def)

text \<open>
  C6. A transaction refines its operation on the record map and is atomic: when the operation
  throws, or a database statement does, the file is unchanged and the caller gets that error;
  otherwise the file holds exactly the records the operation left, and the caller its result.
\<close>

theorem transaction_atomic:
  assumes "aead_ok A" "length nonce = 12" "holds A st s"
    and "\<And>x s'. operation s = (Inr x, s') \<Longrightarrow> wf_records s'"
  shows "case operation s of
      (Inl e, _) \<Rightarrow> perform A nonce fault operation st = (Inl e, st)
    | (Inr x, s') \<Rightarrow>
        (case fault of
           Some e \<Rightarrow> perform A nonce fault operation st = (Inl e, st)
         | None \<Rightarrow> \<exists>st'. perform A nonce fault operation st = (Inr x, st') \<and> holds A st' s')"
  by (rule perform_spec [OF assms])

theorem transaction_atomic_witness:
  "\<exists>st'. perform toy_aead (replicate 12 CHR ''n'') None (tx_set True ''a'' ''x'')
       \<lparr>file_row = Some (write_row toy_aead ''k'' (replicate 12 CHR ''n'') []), file_key = ''k''\<rparr> = (Inr (), st')
     \<and> holds toy_aead st' [(''a'', ''x'')]"
proof -
  have "holds toy_aead \<lparr>file_row = Some (write_row toy_aead ''k'' (replicate 12 CHR ''n'') []), file_key = ''k''\<rparr> []"
    by (simp add: holds_def read_write_row wf_records_def)
  from transaction_atomic [OF toy_aead_ok _ this, of "replicate 12 CHR ''n''" "tx_set True ''a'' ''x''" None]
  show ?thesis by (simp add: rec_set_def wf_records_def)
qed

text \<open>
  C5. Transactions are serialised: however calls, the sections of the callbacks, faults of the database
  and \<open>close\<close> interleave, the promises let at most one callback run at a time, in the order of the calls;
  the file and the results of the calls that have settled are those of performing these transactions
  whole, one after another, and no call after them has begun but the next; that one is running or, the
  call before it having settled in whatever way, may begin; no transaction of the database is open
  when it begins; and the database is closed only after \<open>close\<close>, when every call has settled.
\<close>

theorem transactions_serialised:
  assumes "queue_reachable A f q"
  shows "\<exists>rs envs. length envs = length rs \<and> length rs \<le> length (q_jobs q)
    \<and> serially A (zip (map job_operation (q_jobs q)) envs) f = (rs, q_file q)
    \<and> map job_phase (take (length rs) (q_jobs q)) = map JobSettled rs
    \<and> list_all (\<lambda>j. job_phase j = JobWaiting) (drop (Suc (length rs)) (q_jobs q))
    \<and> (length rs < length (q_jobs q) \<longrightarrow> q_open q
        \<and> (if q_begun q then is_running (job_phase (q_jobs q ! length rs))
           else job_phase (q_jobs q ! length rs) = JobWaiting \<and> settled_after (job_after (q_jobs q ! length rs)) q))
    \<and> (length rs = length (q_jobs q) \<longrightarrow> \<not> q_begun q) \<and> (q_open q \<or> q_closing q)"
proof -
  from queue_reachable_inv [OF assms] obtain rs envs where v: "queue_inv A f q rs envs" by blast
  have "if q_begun q then is_running (job_phase (q_jobs q ! length rs))
      else job_phase (q_jobs q ! length rs) = JobWaiting \<and> settled_after (job_after (q_jobs q ! length rs)) q"
    if "length rs < length (q_jobs q)"
    using inv_phases(3) [OF v that refl] inv_next_may_begin [OF v that] by (auto simp: in_progress_def split: phase.splits)
  with v show ?thesis unfolding queue_inv_def by (intro exI [of _ rs] exI [of _ envs]) auto
qed

text \<open>Two calls: the second is made while the callback of the first is between two sections.\<close>

definition toy_file :: store_file where
  "toy_file = \<lparr>file_row = Some (write_row toy_aead ''k'' (replicate 12 CHR ''n'') []), file_key = ''k''\<rparr>"

definition sets :: "string \<Rightarrow> nat \<Rightarrow> nat steps" where
  "sets k n = Section (rec_set k ''x'') (\<lambda>_. Section (\<lambda>s. s) (\<lambda>s. if rec_get k s = None then Rejected (PlainError ''lost'') else Resolved n))"

definition overlapping :: "nat store_queue" where
  "overlapping = snd (transaction None (sets ''b'' 8) (run_section 0 (begin_job toy_aead None 0 (snd (transaction None (sets ''a'' 7) (new_queue toy_file))))))"

definition both_done :: "nat store_queue" where
  "both_done = end_job toy_aead (replicate 12 CHR ''n'') None 1 (run_section 1 (run_section 1 (begin_job toy_aead None 1
     (end_job toy_aead (replicate 12 CHR ''n'') None 0 (run_section 0 overlapping)))))"

lemma toy_row: "wf_records s \<Longrightarrow> read_row toy_aead ''k'' (Some (write_row toy_aead ''k'' (replicate 12 CHR ''n'') s)) = Inr s"
  by (rule read_write_row) simp_all

theorem transactions_serialised_witness:
  "queue_reachable toy_aead toy_file both_done
   \<and> map job_phase (q_jobs overlapping) = [JobRunning (Section (\<lambda>s. s) (\<lambda>s. if rec_get ''a'' s = None then Rejected (PlainError ''lost'') else Resolved 7))
        [(''a'', ''x'')], JobWaiting]
   \<and> (\<exists>envs. serially toy_aead (zip [sets ''a'' 7, sets ''b'' 8] envs) toy_file = ([Inr 7, Inr 8], q_file both_done))"
proof -
  define q1 where "q1 = snd (transaction None (sets ''a'' 7) (new_queue toy_file))"
  define q2 where "q2 = begin_job toy_aead None 0 q1"
  define q3 where "q3 = end_job toy_aead (replicate 12 CHR ''n'') None 0 (run_section 0 overlapping)"
  define q4 where "q4 = begin_job toy_aead None 1 q3"
  have w: "wf_records []" "wf_records [(''a'', ''x'')]" "wf_records [(''a'', ''x''), (''b'', ''x'')]" by (simp_all add: wf_records_def)
  note rows = toy_row [OF w(1)] toy_row [OF w(2)]
  note defs = transaction_def scope_active_def new_queue_def begin_job_def run_section_def end_job_def enter_phase_def settled_after_def sets_def
    toy_file_def rec_set_def rows Let_def
  have 1: "q_jobs q1 = [\<lparr>job_operation = sets ''a'' 7, job_after = None, job_phase = JobWaiting\<rparr>]" by (simp add: q1_def defs)
  have o: "overlapping = snd (transaction None (sets ''b'' 8) (run_section 0 q2))" by (simp only: overlapping_def q2_def q1_def)
  have 2: "length (q_jobs q2) = 1" "length (q_jobs overlapping) = 2" by (simp_all add: o q2_def q1_def defs)
  have p: "map job_phase (q_jobs overlapping) = [JobRunning (Section (\<lambda>s. s) (\<lambda>s. if rec_get ''a'' s = None then Rejected (PlainError ''lost'') else Resolved 7))
        [(''a'', ''x'')], JobWaiting]" by (simp add: o q2_def q1_def defs)
  have 3: "q_jobs q3 = [\<lparr>job_operation = sets ''a'' 7, job_after = None, job_phase = JobSettled (Inr 7)\<rparr>,
      \<lparr>job_operation = sets ''b'' 8, job_after = Some 0, job_phase = JobWaiting\<rparr>]"
    by (simp add: q3_def o q2_def q1_def defs rec_get_def)
  have b: "both_done = end_job toy_aead (replicate 12 CHR ''n'') None 1 (run_section 1 (run_section 1 q4))"
    by (simp only: both_done_def q4_def q3_def)
  have 4: "length (q_jobs q4) = 2" "length (q_jobs (run_section 1 q4)) = 2" "length (q_jobs (run_section 1 (run_section 1 q4))) = 2"
    "length (q_jobs (run_section 0 overlapping)) = 2"
    by (simp_all add: q4_def q3_def o q2_def q1_def defs rec_get_def)
  have d: "map job_operation (q_jobs both_done) = [sets ''a'' 7, sets ''b'' 8]" "map job_phase (q_jobs both_done) = [JobSettled (Inr 7), JobSettled (Inr 8)]"
    by (simp_all add: b q4_def q3_def o q2_def q1_def defs rec_get_def)
  have "queue_reachable toy_aead toy_file q1" unfolding q1_def by (rule queue_reachable.step [OF queue_reachable.start submits])
  then have "queue_reachable toy_aead toy_file q2" unfolding q2_def
    by (rule queue_reachable.step [OF _ begins]) (simp_all add: 1 settled_after_def)
  then have "queue_reachable toy_aead toy_file (run_section 0 q2)" by (rule queue_reachable.step [OF _ goes_on]) (simp add: 2)
  then have "queue_reachable toy_aead toy_file overlapping" unfolding o by (rule queue_reachable.step [OF _ submits])
  then have "queue_reachable toy_aead toy_file (run_section 0 overlapping)" by (rule queue_reachable.step [OF _ goes_on]) (simp add: 2)
  then have "queue_reachable toy_aead toy_file q3" unfolding q3_def by (rule queue_reachable.step [OF _ ends]) (simp add: 4)
  then have "queue_reachable toy_aead toy_file q4" unfolding q4_def
    by (rule queue_reachable.step [OF _ begins]) (simp_all add: 3 settled_after_def)
  then have "queue_reachable toy_aead toy_file (run_section 1 q4)" by (rule queue_reachable.step [OF _ goes_on]) (use 4 in simp)
  then have "queue_reachable toy_aead toy_file (run_section 1 (run_section 1 q4))" by (rule queue_reachable.step [OF _ goes_on]) (use 4 in simp)
  then have r: "queue_reachable toy_aead toy_file both_done" unfolding b by (rule queue_reachable.step [OF _ ends]) (use 4 in simp)
  from transactions_serialised [OF r] obtain rs envs where s: "length rs \<le> length (q_jobs both_done)"
      "serially toy_aead (zip (map job_operation (q_jobs both_done)) envs) toy_file = (rs, q_file both_done)"
      "map job_phase (take (length rs) (q_jobs both_done)) = map JobSettled rs"
      "length rs < length (q_jobs both_done) \<Longrightarrow> is_running (job_phase (q_jobs both_done ! length rs)) \<or> job_phase (q_jobs both_done ! length rs) = JobWaiting"
    by (metis (no_types, lifting))
  have n: "length (q_jobs both_done) = 2" using d(1) by (metis length_map length_Cons list.size(3) numeral_2_eq_2)
  have "length rs = 2"
  proof (rule ccontr)
    assume "length rs \<noteq> 2"
    with s(1) n have l: "length rs < 2" by simp
    then have "is_settled (map job_phase (q_jobs both_done) ! length rs)" unfolding d(2) by (auto simp: less_Suc_eq numeral_2_eq_2)
    then have "is_settled (job_phase (q_jobs both_done ! length rs))" using l n by simp
    with s(4) l n show False by (cases "job_phase (q_jobs both_done ! length rs)") auto
  qed
  then have "map JobSettled rs = [JobSettled (Inr 7), JobSettled (Inr 8)]" using s(3) d(2) n by simp
  then have "rs = [Inr 7, Inr 8]" by auto
  with s(2) d(1) r p show ?thesis by auto
qed

end
