(* ===== verification/Schema.thy ===== *)
theory Schema
  imports Json
begin

text \<open>
  The schema language the sources declare their records in (\<open>z.object\<close>, \<open>z.string\<close>,
  \<open>z.literal\<close>, ...), as a datatype, and what validating a value against it returns: the value
  with its properties rebuilt in schema order and, unless the object is strict, the unknown ones
  dropped. A refinement is a predicate on the value it is attached to.
\<close>

datatype schema =
    SString "string \<Rightarrow> bool"
  | SNumber "int \<Rightarrow> bool"
  | SBool
  | SLiteral json
  | SEnum "string list"
  | SArray schema
  | SNullable schema
  | SObject bool "(string \<times> bool \<times> schema) list"
  | SRefine schema "json \<Rightarrow> bool"
  | SCustom "json \<Rightarrow> bool"

fun zparse :: "schema \<Rightarrow> json \<Rightarrow> json option"
  and zelems :: "schema \<Rightarrow> json list \<Rightarrow> json list option"
  and zfields :: "(string \<times> bool \<times> schema) list \<Rightarrow> (string \<times> json) list \<Rightarrow> (string \<times> json) list option"
where
  "zparse (SString p) v = (case v of JStr s \<Rightarrow> if p s then Some v else None | _ \<Rightarrow> None)"
| "zparse (SNumber p) v = (case v of JNum i \<Rightarrow> if p i then Some v else None | _ \<Rightarrow> None)"
| "zparse SBool v = (case v of JBool b \<Rightarrow> Some v | _ \<Rightarrow> None)"
| "zparse (SLiteral w) v = (if v = w then Some v else None)"
| "zparse (SEnum ss) v = (case v of JStr s \<Rightarrow> if s \<in> set ss then Some v else None | _ \<Rightarrow> None)"
| "zparse (SArray s) v = (case v of JArr vs \<Rightarrow> map_option JArr (zelems s vs) | _ \<Rightarrow> None)"
| "zparse (SNullable s) v = (if v = JNull then Some JNull else zparse s v)"
| "zparse (SObject strict fs) v =
     (case v of
        JObj kvs \<Rightarrow>
          if strict \<and> \<not> list_all (\<lambda>kv. fst kv \<in> fst ` set fs) kvs then None
          else map_option JObj (zfields fs kvs)
      | _ \<Rightarrow> None)"
| "zparse (SRefine s p) v = (case zparse s v of None \<Rightarrow> None | Some w \<Rightarrow> if p w then Some w else None)"
| "zparse (SCustom p) v = (if p v then Some v else None)"
| "zelems s [] = Some []"
| "zelems s (v # vs) =
     (case (zparse s v, zelems s vs) of (Some w, Some ws) \<Rightarrow> Some (w # ws) | _ \<Rightarrow> None)"
| "zfields [] kvs = Some []"
| "zfields ((k, opt, s) # fs) kvs =
     (case map_of kvs k of
        None \<Rightarrow> if opt then zfields fs kvs else None
      | Some v \<Rightarrow>
          (case (zparse s v, zfields fs kvs) of (Some w, Some r) \<Rightarrow> Some ((k, w) # r) | _ \<Rightarrow> None))"

definition accepts :: "schema \<Rightarrow> json \<Rightarrow> bool" where
  "accepts s v = (zparse s v \<noteq> None)"

text \<open>Reading a property with \<open>?? null\<close>.\<close>

fun jprop :: "json \<Rightarrow> string \<Rightarrow> json" where
  "jprop (JObj kvs) k = (case map_of kvs k of None \<Rightarrow> JNull | Some v \<Rightarrow> v)"
| "jprop _ k = JNull"

fun str_of :: "json \<Rightarrow> string" where
  "str_of (JStr s) = s"
| "str_of _ = []"

fun num_of :: "json \<Rightarrow> int" where
  "num_of (JNum i) = i"
| "num_of _ = 0"

definition str_prop :: "json \<Rightarrow> string \<Rightarrow> string" where
  "str_prop v k = str_of (jprop v k)"

definition num_prop :: "json \<Rightarrow> string \<Rightarrow> int" where
  "num_prop v k = num_of (jprop v k)"

subsection \<open>What an accepted value is\<close>

lemma zparse_SString: "zparse (SString p) v = Some w \<longleftrightarrow> (\<exists>s. v = JStr s \<and> w = v \<and> p s)"
  by (cases v) auto

lemma zparse_SNumber: "zparse (SNumber p) v = Some w \<longleftrightarrow> (\<exists>i. v = JNum i \<and> w = v \<and> p i)"
  by (cases v) auto

lemma zparse_SBool: "zparse SBool v = Some w \<longleftrightarrow> (\<exists>b. v = JBool b \<and> w = v)"
  by (cases v) auto

lemma zparse_SLiteral: "zparse (SLiteral u) v = Some w \<longleftrightarrow> v = u \<and> w = u"
  by auto

lemma zparse_SObject:
  "zparse (SObject strict fs) v = Some w \<longleftrightarrow>
     (\<exists>kvs r. v = JObj kvs \<and> w = JObj r \<and> zfields fs kvs = Some r
        \<and> (strict \<longrightarrow> list_all (\<lambda>kv. fst kv \<in> fst ` set fs) kvs))"
  by (cases v) auto

lemma zparse_SArray:
  "zparse (SArray s) v = Some w \<longleftrightarrow> (\<exists>vs ws. v = JArr vs \<and> w = JArr ws \<and> zelems s vs = Some ws)"
  by (cases v) auto

lemma zelems_Some: "zelems s vs = Some ws \<longleftrightarrow> list_all2 (\<lambda>v w. zparse s v = Some w) vs ws"
proof (induction vs arbitrary: ws)
  case (Cons v vs)
  show ?case
  proof (cases ws)
    case (Cons w us)
    with Cons.IH [of us] show ?thesis by (auto split: option.splits)
  qed (auto split: option.splits)
qed auto

lemmas zparse_Some =
  zparse_SString zparse_SNumber zparse_SBool zparse_SLiteral zparse_SObject zparse_SArray

lemma zfields_required:
  "zfields ((k, False, s) # fs) kvs = Some r \<longleftrightarrow>
     (\<exists>v w t. map_of kvs k = Some v \<and> zparse s v = Some w \<and> zfields fs kvs = Some t \<and> r = (k, w) # t)"
  by (auto split: option.splits)

lemma zfields_Nil: "zfields [] kvs = Some r \<longleftrightarrow> r = []"
  by auto

lemma zfields_keys: "zfields fs kvs = Some r \<Longrightarrow> fst ` set r \<subseteq> fst ` set fs"
proof (induction fs arbitrary: r)
  case (Cons f fs)
  obtain k opt s where f: "f = (k, opt, s)" by (cases f)
  show ?case
  proof (cases "map_of kvs k")
    case None
    with Cons.prems f have "zfields fs kvs = Some r" by (simp split: if_splits)
    from Cons.IH [OF this] show ?thesis by auto
  next
    case (Some v)
    with Cons.prems f obtain w t where t: "zfields fs kvs = Some t" "r = (k, w) # t"
      by (auto split: option.splits)
    from Cons.IH [OF t(1)] t(2) f show ?thesis by auto
  qed
qed simp

lemma zfields_distinct:
  "zfields fs kvs = Some r \<Longrightarrow> distinct (map fst fs) \<Longrightarrow> distinct (map fst r)"
proof (induction fs arbitrary: r)
  case (Cons f fs)
  obtain k opt s where f: "f = (k, opt, s)" by (cases f)
  show ?case
  proof (cases "map_of kvs k")
    case None
    with Cons f show ?thesis by (auto split: if_splits)
  next
    case (Some v)
    with Cons.prems f obtain w t where t: "zfields fs kvs = Some t" "r = (k, w) # t"
      by (auto split: option.splits)
    have "k \<notin> fst ` set t" using zfields_keys [OF t(1)] Cons.prems(2) f by auto
    with Cons.IH [OF t(1)] Cons.prems(2) f t(2) show ?thesis by simp
  qed
qed simp

lemma zfields_lookup:
  assumes "zfields fs kvs = Some r" "distinct (map fst fs)" "(k, opt, s) \<in> set fs"
  shows "case map_of kvs k of None \<Rightarrow> opt \<and> map_of r k = None
    | Some v \<Rightarrow> \<exists>w. zparse s v = Some w \<and> map_of r k = Some w"
  using assms
proof (induction fs arbitrary: r)
  case (Cons f fs)
  obtain k' opt' s' where f: "f = (k', opt', s')" by (cases f)
  show ?case
  proof (cases "map_of kvs k'")
    case None
    with Cons.prems f have z: "zfields fs kvs = Some r" "opt'" by (auto split: if_splits)
    show ?thesis
    proof (cases "k = k'")
      case True
      have "map_of r k = None"
        using zfields_keys [OF z(1)] Cons.prems(2) f True by (auto simp: map_of_eq_None_iff)
      moreover have "opt" using Cons.prems(2,3) f True z(2) by (auto simp: image_iff)
      ultimately show ?thesis using None True by simp
    next
      case False
      with Cons.IH [OF z(1)] Cons.prems f show ?thesis by auto
    qed
  next
    case (Some v)
    with Cons.prems f obtain w t where t: "zfields fs kvs = Some t" "r = (k', w) # t" "zparse s' v = Some w"
      by (auto split: option.splits)
    show ?thesis
    proof (cases "k = k'")
      case True
      have "s = s'" using Cons.prems(2,3) f True by (auto simp: image_iff)
      with True Some t show ?thesis by simp
    next
      case False
      with Cons.IH [OF t(1)] Cons.prems f t(2) show ?thesis by (auto split: option.splits)
    qed
  qed
qed simp

subsection \<open>Fields of accepted objects\<close>

fun leaf :: "schema \<Rightarrow> bool" where
  "leaf (SString p) = True"
| "leaf (SNumber p) = True"
| "leaf SBool = True"
| "leaf (SLiteral (JStr s)) = True"
| "leaf (SLiteral (JNum i)) = True"
| "leaf _ = False"

fun scalar :: "json \<Rightarrow> bool" where
  "scalar (JArr vs) = False"
| "scalar (JObj kvs) = False"
| "scalar _ = True"

lemma scalar_wf [simp]: "scalar v \<Longrightarrow> wf_json v"
  by (cases v) auto

lemma leaf_accepts: "leaf s \<Longrightarrow> zparse s v = Some w \<Longrightarrow> w = v \<and> scalar v \<and> v \<noteq> JNull"
  by (cases s rule: leaf.cases) (auto simp: zparse_SLiteral simp del: zparse.simps simp: zparse_Some)

lemma leaf_result: "zparse s v = Some w \<Longrightarrow> leaf s \<Longrightarrow> scalar w \<and> w = v"
  using leaf_accepts by blast

text \<open>An accepted object of scalar properties is well formed.\<close>

lemma zfields_wf:
  assumes "zfields fs kvs = Some r" "\<forall>(k, opt, s) \<in> set fs. leaf s"
  shows "wf_members r"
  using assms
proof (induction fs arbitrary: r)
  case (Cons f fs)
  obtain k opt s where f: "f = (k, opt, s)" by (cases f)
  with Cons.prems(2) have s: "leaf s" by simp
  show ?case
  proof (cases "map_of kvs k")
    case None
    with Cons f show ?thesis by (auto split: if_splits)
  next
    case (Some v)
    with Cons.prems f obtain w t where t: "zfields fs kvs = Some t" "r = (k, w) # t" "zparse s v = Some w"
      by (auto split: option.splits)
    have "wf_json w" using leaf_result [OF t(3) s] by (blast intro: scalar_wf)
    with t Cons f show ?thesis by simp
  qed
qed simp

lemma flat_object_wf:
  assumes "zparse (SObject strict fs) v = Some w" "distinct (map fst fs)" "\<forall>(k, opt, s) \<in> set fs. leaf s"
  shows "wf_json w"
  using assms zfields_distinct zfields_wf by (fastforce simp only: zparse_SObject wf_json.simps)

text \<open>
  \<open>field_of fs k\<close> is the schema of a property; a property of an accepted object has been
  accepted by it, in the value given and in the value returned.
\<close>

lemma object_field:
  assumes "zparse (SObject strict fs) v = Some w" "distinct (map fst fs)" "(k, opt, s) \<in> set fs"
  shows "(opt \<and> jprop v k = JNull \<and> jprop w k = JNull) \<or> zparse s (jprop v k) = Some (jprop w k)"
proof -
  obtain kvs r where v: "v = JObj kvs" "w = JObj r" "zfields fs kvs = Some r"
    using assms(1) by (auto simp only: zparse_SObject)
  from zfields_lookup [OF v(3) assms(2,3)] v(1,2) show ?thesis by (auto split: option.splits)
qed

lemma object_required:
  assumes "zparse (SObject strict fs) v = Some w" "distinct (map fst fs)" "(k, False, s) \<in> set fs"
  shows "zparse s (jprop v k) = Some (jprop w k)"
  using object_field [OF assms] by simp

lemma object_leaf:
  assumes "zparse (SObject strict fs) v = Some w" "distinct (map fst fs)" "(k, opt, s) \<in> set fs" "leaf s"
  shows "jprop w k = jprop v k \<and> scalar (jprop v k)"
  using object_field [OF assms(1-3)] leaf_accepts [OF assms(4)] by auto

definition leaf_at :: "(string \<times> bool \<times> schema) list \<Rightarrow> string \<Rightarrow> bool" where
  "leaf_at fs k = (case map_of fs k of Some (opt, s) \<Rightarrow> leaf s | None \<Rightarrow> False)"

lemma object_leaf_at:
  assumes "zparse (SObject strict fs) v = Some w" "distinct (map fst fs)" "leaf_at fs k"
  shows "jprop w k = jprop v k \<and> scalar (jprop v k)"
proof -
  obtain opt s where "map_of fs k = Some (opt, s)" "leaf s"
    using assms(3) by (auto simp: leaf_at_def split: option.splits)
  with object_leaf [OF assms(1,2), of k opt s] show ?thesis by (simp add: map_of_SomeD)
qed

text \<open>Accepted objects that agree on what each property was accepted as are the same value.\<close>

lemma zfields_eqI:
  "zfields fs a = Some r \<Longrightarrow> zfields fs b = Some t \<Longrightarrow> distinct (map fst fs)
    \<Longrightarrow> \<forall>k \<in> fst ` set fs. map_of r k = map_of t k \<Longrightarrow> r = t"
proof (induction fs arbitrary: r t)
  case (Cons f fs)
  obtain k opt s where f: "f = (k, opt, s)" by (cases f)
  have k: "k \<notin> fst ` set fs" "distinct (map fst fs)" using Cons.prems(3) f by auto
  have tail: "map_of r' k = None" if "zfields fs c = Some r'" for c r'
    using zfields_keys [OF that] k(1) by (auto simp: map_of_eq_None_iff)
  consider "zfields fs a = Some r" | w r' where "r = (k, w) # r'" "zfields fs a = Some r'"
    using Cons.prems(1) f by (auto split: option.splits if_splits)
  then show ?case
  proof cases
    case 1
    with tail Cons.prems(4) f have "map_of t k = None" by fastforce
    with Cons.prems(2) f have "zfields fs b = Some t" by (auto split: option.splits if_splits)
    with Cons.IH [OF 1 _ k(2)] Cons.prems(4) f show ?thesis by simp
  next
    case 2
    with Cons.prems(4) f have w: "map_of t k = Some w" by fastforce
    with Cons.prems(2) f tail obtain t' where t: "t = (k, w) # t'" "zfields fs b = Some t'"
      by (fastforce split: option.splits if_splits)
    have "\<forall>j \<in> fst ` set fs. map_of r' j = map_of t' j"
    proof
      fix j assume j: "j \<in> fst ` set fs"
      with k(1) have "j \<noteq> k" by auto
      with j Cons.prems(4) f 2(1) t(1) show "map_of r' j = map_of t' j" by fastforce
    qed
    with Cons.IH [OF 2(2) t(2) k(2)] 2(1) t(1) show ?thesis by simp
  qed
qed simp

lemma object_cong:
  assumes v: "zparse (SObject strict fs) v = Some w" and v': "zparse (SObject strict fs) v' = Some w'"
    and d: "distinct (map fst fs)"
    and same: "\<And>k. k \<in> fst ` set fs \<Longrightarrow> jprop w k = jprop w' k"
    and nonnull: "\<And>k s u. (k, True, s) \<in> set fs \<Longrightarrow> zparse s u \<noteq> Some JNull"
  shows "w = w'"
proof -
  obtain a r b t where f: "w = JObj r" "zfields fs a = Some r" "w' = JObj t" "zfields fs b = Some t"
    using v v' by (auto simp only: zparse_SObject)
  have "map_of r k = map_of t k" if "k \<in> fst ` set fs" for k
  proof -
    from that obtain opt s where k: "(k, opt, s) \<in> set fs" by auto
    have e: "jprop (JObj r) k = jprop (JObj t) k" using same [OF that] f by simp
    have no: "x \<noteq> JNull" if "opt" "zparse s u = Some x" for u x
      using nonnull [of k s u] k that by auto
    from zfields_lookup [OF f(2) d k] zfields_lookup [OF f(4) d k] e show ?thesis
      by (auto split: option.splits dest: no)
  qed
  then have "\<forall>k \<in> fst ` set fs. map_of r k = map_of t k" by blast
  from zfields_eqI [OF f(2,4) d this] f show ?thesis by simp
qed

subsection \<open>Validation is idempotent\<close>

text \<open>A well-formed schema names no property twice.\<close>

fun wf_schema :: "schema \<Rightarrow> bool"
  and wf_fields :: "(string \<times> bool \<times> schema) list \<Rightarrow> bool" where
  "wf_schema (SArray s) = wf_schema s"
| "wf_schema (SNullable s) = wf_schema s"
| "wf_schema (SObject strict fs) = (distinct (map fst fs) \<and> wf_fields fs)"
| "wf_schema (SRefine s p) = wf_schema s"
| "wf_schema _ = True"
| "wf_fields [] = True"
| "wf_fields ((k, opt, s) # fs) = (wf_schema s \<and> wf_fields fs)"

lemma zparse_idem_all:
  "wf_schema s \<Longrightarrow> wf_json v \<Longrightarrow> zparse s v = Some w \<Longrightarrow> wf_json w \<and> zparse s w = Some w"
  "wf_schema s' \<Longrightarrow> wf_elems vs \<Longrightarrow> zelems s' vs = Some ws \<Longrightarrow> wf_elems ws \<and> zelems s' ws = Some ws"
  "distinct (map fst fs) \<Longrightarrow> wf_fields fs \<Longrightarrow> wf_members kvs \<Longrightarrow> zfields fs kvs = Some r
     \<Longrightarrow> wf_members r \<and> (\<forall>r'. (\<forall>k \<in> fst ` set fs. map_of r' k = map_of r k) \<longrightarrow> zfields fs r' = Some r)"
proof (induction s v and s' vs and fs kvs arbitrary: w and ws and r rule: zparse_zelems_zfields.induct)
  case (8 strict fs v)
  obtain kvs t where v: "v = JObj kvs" "w = JObj t" "zfields fs kvs = Some t"
    using "8.prems"(3) by (auto simp only: zparse_SObject)
  have s: "list_all (\<lambda>kv. fst kv \<in> fst ` set fs) t" using zfields_keys [OF v(3)] by (auto simp: list_all_iff)
  have d: "distinct (map fst t)" using zfields_distinct [OF v(3)] "8.prems"(1) by simp
  have g: "\<not> (strict \<and> \<not> list_all (\<lambda>kv. fst kv \<in> fst ` set fs) kvs)"
    using "8.prems"(3) v(1) by (auto split: if_splits)
  from "8.IH" [OF v(1) g] "8.prems"(1,2) v have "wf_members t \<and> zfields fs t = Some t" by simp
  with s d v(2) show ?case by simp
next
  case (13 fs)
  then show ?case by simp
next
  case (14 k opt s fs kvs)
  show ?case
  proof (cases "map_of kvs k")
    case None
    with "14.prems" have z: "zfields fs kvs = Some r" "opt" by (auto split: if_splits)
    have "map_of r k = None"
      using zfields_keys [OF z(1)] "14.prems"(1) by (auto simp: map_of_eq_None_iff)
    with "14.IH"(1) [OF None z(2)] "14.prems"(1-3) z show ?thesis by simp
  next
    case (Some v)
    with "14.prems"(4) obtain w t where t: "zparse s v = Some w" "zfields fs kvs = Some t" "r = (k, w) # t"
      by (auto split: option.splits)
    have "wf_json v" using "14.prems"(3) Some by (metis map_of_SomeD snd_conv wf_members_iff)
    with "14.IH"(2) [OF Some] "14.prems"(2) t(1) have w: "wf_json w" "zparse s w = Some w" by simp_all
    from "14.IH"(3) [OF Some] "14.prems"(1-3) t(2)
    have T: "wf_members t" "\<forall>r'. (\<forall>j \<in> fst ` set fs. map_of r' j = map_of t j) \<longrightarrow> zfields fs r' = Some t" by simp_all
    have "zfields ((k, opt, s) # fs) r' = Some r"
      if "\<forall>j \<in> fst ` set ((k, opt, s) # fs). map_of r' j = map_of r j" for r'
    proof -
      have "map_of r' k = Some w" using that t(3) by simp
      moreover have "\<forall>j \<in> fst ` set fs. map_of r' j = map_of t j"
        using that t(3) "14.prems"(1) by auto
      with T(2) have "zfields fs r' = Some t" by blast
      ultimately show ?thesis using w(2) t(3) by simp
    qed
    with w(1) T(1) t(3) show ?thesis by simp
  qed
qed (auto split: json.splits if_splits option.splits)

lemma zparse_idem:
  "wf_schema s \<Longrightarrow> wf_json v \<Longrightarrow> zparse s v = Some w \<Longrightarrow> wf_json w \<and> zparse s w = Some w"
  by (rule zparse_idem_all(1))

end
