(* ===== verification/Protocol.thy ===== *)
theory Protocol
  imports Schema Base64
begin

text \<open>
  \<open>packages/protocol\<close>: the limits, the record schemas and the second-generation Signal prekey
  bundle of \<open>types/signalPreKeyBundleV2.ts\<close> with its canonical base64url check, the device
  address and the signing text. A validator returns the rebuilt value or an error.
\<close>

subsection \<open>Constants\<close>

definition PROTOCOL_VERSION :: int where "PROTOCOL_VERSION = 1"

record limits =
  MAX_MESSAGE_BYTES :: nat
  MAILBOX_TTL_HOURS :: nat
  CHALLENGE_TTL_SECONDS :: nat
  PREKEY_MIN_COUNT :: nat
  PREKEY_REFILL_THRESHOLD :: nat
  MAX_MAILBOX_BATCH :: nat

definition LIMITS :: limits where
  "LIMITS = \<lparr>MAX_MESSAGE_BYTES = 262144, MAILBOX_TTL_HOURS = 168, CHALLENGE_TTL_SECONDS = 60,
     PREKEY_MIN_COUNT = 20, PREKEY_REFILL_THRESHOLD = 10, MAX_MAILBOX_BATCH = 100\<rparr>"

definition ERROR_CODES :: "string list" where
  "ERROR_CODES =
     [''INVALID_JSON'', ''INVALID_SCHEMA'', ''INVALID_SIGNATURE'', ''UNKNOWN_DEVICE'',
      ''PREKEY_BUNDLE_NOT_FOUND'', ''MAILBOX_NOT_FOUND'', ''CHALLENGE_EXPIRED'', ''RATE_LIMITED'',
      ''QUOTA_EXCEEDED'', ''PAYLOAD_TOO_LARGE'', ''INTERNAL_ERROR'']"

subsection \<open>String formats\<close>

definition is_hex :: "char \<Rightarrow> bool" where
  "is_hex c = (let k = (of_char c :: nat) in 48 \<le> k \<and> k \<le> 57 \<or> 65 \<le> k \<and> k \<le> 70 \<or> 97 \<le> k \<and> k \<le> 102)"

definition is_lower_hex :: "char \<Rightarrow> bool" where
  "is_lower_hex c = (let k = (of_char c :: nat) in 48 \<le> k \<and> k \<le> 57 \<or> 97 \<le> k \<and> k \<le> 102)"

definition nil_uuid :: string where
  "nil_uuid = ''00000000-0000-0000-0000-000000000000''"

text \<open>The schema library's UUID format: versions 1 to 8 with the RFC variant, or the nil UUID.\<close>

definition is_uuid :: "string \<Rightarrow> bool" where
  "is_uuid s =
     (s = nil_uuid \<or>
      length s = 36 \<and> s ! 8 = CHR ''-'' \<and> s ! 13 = CHR ''-'' \<and> s ! 18 = CHR ''-'' \<and> s ! 23 = CHR ''-''
      \<and> list_all is_hex (take 8 s) \<and> list_all is_hex (take 4 (drop 9 s))
      \<and> list_all is_hex (take 4 (drop 14 s)) \<and> list_all is_hex (take 4 (drop 19 s))
      \<and> list_all is_hex (drop 24 s)
      \<and> 49 \<le> (of_char (s ! 14) :: nat) \<and> (of_char (s ! 14) :: nat) \<le> 56
      \<and> s ! 19 \<in> set ''89abAB'')"

definition is_lower_uuid :: "string \<Rightarrow> bool" where
  "is_lower_uuid s = (is_uuid s \<and> s \<noteq> [] \<and> list_all (\<lambda>c. is_lower_hex c \<or> c = CHR ''-'') s)"

text \<open>
  \<open>value.length\<close> counts UTF-16 units: one per UTF-8 sequence, two for a four-byte one.
\<close>

definition utf16_units :: "string \<Rightarrow> nat" where
  "utf16_units s =
     sum_list (map (\<lambda>c. let k = (of_char c :: nat) in if 128 \<le> k \<and> k < 192 then 0 else if 240 \<le> k then 2 else 1) s)"

text \<open>The position of a character in the base64url alphabet.\<close>

definition alphabet_index :: "char \<Rightarrow> nat" where
  "alphabet_index c = (case b64_index (from_url c) of Some i \<Rightarrow> i | None \<Rightarrow> 0)"

definition encodedBytes :: "nat \<Rightarrow> nat option \<Rightarrow> string \<Rightarrow> bool" where
  "encodedBytes n start v =
     (length v = (n * 8 + 5) div 6 \<and> v \<noteq> [] \<and> list_all is_url_char v
      \<and> alphabet_index (last v) mod 2 ^ ((6 - n * 8 mod 6) mod 6) = 0
      \<and> (case start of None \<Rightarrow> True
         | Some p \<Rightarrow> alphabet_index (v ! 0) * 4 + alphabet_index (v ! 1) div 16 = p))"

subsection \<open>The canonical check accepts exactly the encodings\<close>

lemma alphabet_index_url [simp]: "n < 64 \<Longrightarrow> alphabet_index (url_char n) = n"
  by (simp add: alphabet_index_def)

fun groups :: "bytes \<Rightarrow> nat list" where
  "groups [] = []"
| "groups [a] = (let x = of_char a in [x div 4, x mod 4 * 16])"
| "groups [a, b] =
     (let x = of_char a; y = of_char b in [x div 4, x mod 4 * 16 + y div 16, y mod 16 * 4])"
| "groups (a # b # c # rest) =
     (let x = of_char a; y = of_char b; z = of_char c in
      [x div 4, x mod 4 * 16 + y div 16, y mod 16 * 4 + z div 64, z mod 64] @ groups rest)"

lemma b64url_groups: "b64url bs = map url_char (groups bs)"
  by (induction bs rule: b64url.induct) (simp_all add: Let_def)

lemma groups_bound: "n \<in> set (groups bs) \<Longrightarrow> n < 64"
  by (induction bs rule: groups.induct) (auto simp: Let_def)

lemma groups_canonical: "canonical (groups bs)"
  by (induction bs rule: groups.induct) (simp_all add: Let_def)

lemma canonical_iff:
  "canonical ns \<longleftrightarrow>
     length ns mod 4 \<noteq> 1 \<and> (length ns mod 4 = 2 \<longrightarrow> last ns mod 16 = 0) \<and> (length ns mod 4 = 3 \<longrightarrow> last ns mod 4 = 0)"
proof (induction ns rule: canonical.induct)
  case (5 w x y z rest)
  then show ?case by (cases "rest = []") auto
qed auto

lemma length_mod_cases:
  assumes "len = (n * 8 + 5) div (6 :: nat)"
  shows "n mod 3 = 0 \<and> len mod 4 = 0 \<and> (6 - n * 8 mod 6) mod 6 = 0
    \<or> n mod 3 = 1 \<and> len mod 4 = 2 \<and> (6 - n * 8 mod 6) mod 6 = 4
    \<or> n mod 3 = 2 \<and> len mod 4 = 3 \<and> (6 - n * 8 mod 6) mod 6 = 2"
proof -
  define q where "q = n div 3"
  have "n = 3 * q + n mod 3" by (simp add: q_def)
  moreover have "n mod 3 = 0 \<or> n mod 3 = 1 \<or> n mod 3 = 2" by auto
  ultimately consider "n = 3 * q" | "n = 3 * q + 1" | "n = 3 * q + 2" by fastforce
  then show ?thesis
  proof cases
    case 1
    have "n * 8 mod 6 = 0" "(n * 8 + 5) div 6 = 4 * q" unfolding 1
      by (rule mod_nat_eqI, simp_all)
    with assms 1 show ?thesis by simp
  next
    case 2
    have "n * 8 = 2 + 6 * (4 * q + 1)" using 2 by simp
    then have m: "n * 8 mod 6 = 2" by (simp only: mod_mult_self2) simp
    have "(n * 8 + 5) div 6 = 4 * q + 2" unfolding 2 by (rule div_nat_eqI) simp_all
    moreover have "(4 * q + 2) mod 4 = 2" by (rule mod_nat_eqI) simp_all
    moreover have "(3 * q + 1) mod 3 = 1" by (rule mod_nat_eqI) simp_all
    ultimately show ?thesis using assms m 2 by simp
  next
    case 3
    have "n * 8 = 4 + 6 * (4 * q + 2)" using 3 by simp
    then have m: "n * 8 mod 6 = 4" by (simp only: mod_mult_self2) simp
    have "(n * 8 + 5) div 6 = 4 * q + 3" unfolding 3 by (rule div_nat_eqI) simp_all
    moreover have "(4 * q + 3) mod 4 = 3" by (rule mod_nat_eqI) simp_all
    moreover have "(3 * q + 2) mod 3 = 2" by (rule mod_nat_eqI) simp_all
    ultimately show ?thesis using assms m 3 by simp
  qed
qed

lemma canonical_length_iff:
  assumes "length ns = (n * 8 + 5) div 6"
  shows "canonical ns \<longleftrightarrow> last ns mod 2 ^ ((6 - n * 8 mod 6) mod 6) = 0"
  using length_mod_cases [OF assms] by (auto simp: canonical_iff)

lemma encodedBytes_encode:
  assumes "0 < n"
  shows "encodedBytes n None v \<longleftrightarrow> (\<exists>bs. length bs = n \<and> v = encodeBase64Url bs)"
proof
  assume e: "encodedBytes n None v"
  then have len: "length v = (n * 8 + 5) div 6" and ne: "v \<noteq> []"
    and l: "alphabet_index (last v) mod 2 ^ ((6 - n * 8 mod 6) mod 6) = 0"
    and u: "\<forall>c \<in> set v. is_url_char c"
    by (simp_all add: encodedBytes_def list_all_iff)
  obtain ns where ns: "v = map url_char ns" "\<forall>i \<in> set ns. i < 64" by (rule indices_url [OF u])
  with ne have "alphabet_index (last v) = last ns" by (simp add: last_map)
  with l len ns have c: "canonical ns" by (simp add: canonical_length_iff)
  have "v = encodeBase64Url (sextets ns)"
    using b64url_sextets [OF c ns(2)] ns(1) by (simp add: encode_eq_b64url)
  moreover have "length (sextets ns) = n"
    using length_sextets [OF c] len ns(1) length_mod_cases [of "length ns" n] by simp
  ultimately show "\<exists>bs. length bs = n \<and> v = encodeBase64Url bs" by blast
next
  assume "\<exists>bs. length bs = n \<and> v = encodeBase64Url bs"
  then obtain bs where bs: "length bs = n" "v = map url_char (groups bs)"
    by (auto simp: encode_eq_b64url b64url_groups)
  have len: "length (groups bs) = (n * 8 + 5) div 6"
    using length_b64url [of bs] bs(1) by (simp add: b64url_groups)
  with assms have ne: "groups bs \<noteq> []" by auto
  then have "last (groups bs) < 64" by (intro groups_bound [of _ bs] last_in_set)
  then have "alphabet_index (last v) = last (groups bs)"
    using bs(2) ne by (simp add: last_map)
  with canonical_length_iff [OF len] groups_canonical bs(2) ne len
  show "encodedBytes n None v"
    using groups_bound [of _ bs] by (auto simp: encodedBytes_def list_all_iff)
qed

lemma groups_first:
  assumes "length bs \<ge> 1"
  shows "groups bs ! 0 * 4 + groups bs ! 1 div 16 = of_char (hd bs)"
  using assms by (induction bs rule: groups.induct) (simp_all add: Let_def byte_quotients)

lemma encodedBytes_start:
  assumes "0 < n"
  shows "encodedBytes n (Some p) v
    \<longleftrightarrow> (\<exists>bs. length bs = n \<and> v = encodeBase64Url bs \<and> of_char (hd bs) = p)"
proof -
  have "encodedBytes n (Some p) v \<longleftrightarrow> encodedBytes n None v
      \<and> alphabet_index (v ! 0) * 4 + alphabet_index (v ! 1) div 16 = p"
    by (auto simp: encodedBytes_def)
  also have "\<dots> \<longleftrightarrow> (\<exists>bs. length bs = n \<and> v = encodeBase64Url bs \<and> of_char (hd bs) = p)"
  proof -
    have "alphabet_index (encodeBase64Url bs ! 0) * 4 + alphabet_index (encodeBase64Url bs ! 1) div 16
        = of_char (hd bs)" if "length bs = n" for bs
    proof -
      have "length (groups bs) = (n * 8 + 5) div 6"
        using length_b64url [of bs] that by (simp add: b64url_groups)
      with assms have g: "1 < length (groups bs)" by auto
      then have l: "0 < length (groups bs)" by linarith
      have i: "alphabet_index (encodeBase64Url bs ! i) = groups bs ! i" if "i < length (groups bs)" for i
        using groups_bound [OF nth_mem [OF that]] that
        by (simp only: encode_eq_b64url b64url_groups nth_map alphabet_index_url)
      have "1 \<le> length bs" using that assms by simp
      from groups_first [OF this] show ?thesis by (simp only: i [OF l] i [OF g])
    qed
    then show ?thesis unfolding encodedBytes_encode [OF assms, of v] by fastforce
  qed
  finally show ?thesis .
qed

subsection \<open>The record schemas\<close>

definition any_string :: schema where "any_string = SString (\<lambda>_. True)"
definition any_number :: schema where "any_number = SNumber (\<lambda>_. True)"
definition uuid_string :: schema where "uuid_string = SString is_uuid"
definition literal_text :: "string \<Rightarrow> schema" where "literal_text s = SLiteral (JStr s)"
definition literal_number :: "int \<Rightarrow> schema" where "literal_number i = SLiteral (JNum i)"

definition capability_fields :: "(string \<times> bool \<times> schema) list" where
  "capability_fields =
     [(''mailbox_poll'', True, SBool), (''receipts'', True, SBool), (''attachments'', True, SBool)]"

definition DeviceRecordSchema :: schema where
  "DeviceRecordSchema = SObject False
     [(''type'', False, literal_text ''device_record''),
      (''version'', False, literal_number 1),
      (''identity_id'', False, any_string),
      (''device_id'', False, uuid_string),
      (''device_pubkey'', False, any_string),
      (''device_label'', True, any_string),
      (''capabilities'', False, SObject False capability_fields),
      (''created_at_ms'', False, any_number),
      (''signature'', False, any_string)]"

definition PreKeyBundleSchema :: schema where
  "PreKeyBundleSchema = SObject False
     [(''type'', False, literal_text ''prekey_bundle''),
      (''version'', False, literal_number 1),
      (''bundle_id'', False, uuid_string),
      (''identity_id'', False, any_string),
      (''device_id'', False, uuid_string),
      (''device_pubkey'', False, any_string),
      (''signed_prekey'', False, SObject False
         [(''key_id'', False, any_string), (''public_key'', False, any_string),
          (''created_at_ms'', False, any_number), (''expires_at_ms'', False, any_number),
          (''signature'', False, any_string)]),
      (''one_time_prekeys'', False, SArray (SObject False
         [(''key_id'', False, any_string), (''public_key'', False, any_string)])),
      (''created_at_ms'', False, any_number),
      (''signature'', False, any_string)]"

definition mailbox_envelope_fields :: "(string \<times> bool \<times> schema) list" where
  "mailbox_envelope_fields =
     [(''type'', False, literal_text ''mailbox_envelope''),
      (''version'', False, literal_number 1),
      (''envelope_id'', False, uuid_string),
      (''message_id'', False, uuid_string),
      (''sender_identity_id'', False, any_string),
      (''sender_device_id'', False, uuid_string),
      (''recipient_identity_id'', False, any_string),
      (''recipient_device_id'', False, uuid_string),
      (''recipient_mailbox_id'', False, any_string),
      (''payload_type'', False, literal_text ''ciphertext_message''),
      (''ciphertext'', False, any_string),
      (''created_at_ms'', False, any_number),
      (''expires_at_ms'', False, any_number),
      (''size_bytes'', False, any_number),
      (''sender_signature'', True, SString (\<lambda>s. 1 \<le> utf16_units s \<and> utf16_units s \<le> 256))]"

definition MailboxEnvelopeSchema :: schema where
  "MailboxEnvelopeSchema = SObject False mailbox_envelope_fields"

definition ChatMessageSchema :: schema where
  "ChatMessageSchema = SObject False
     [(''type'', False, literal_text ''chat_message''),
      (''version'', False, literal_number 1),
      (''message_id'', False, uuid_string),
      (''conversation_id'', False, any_string),
      (''sender_identity_id'', False, any_string),
      (''sender_device_id'', False, uuid_string),
      (''created_at_ms'', False, any_number),
      (''body'', False, any_string),
      (''reply_to_message_id'', False, SNullable uuid_string)]"

definition ReceiptSchema :: schema where
  "ReceiptSchema = SObject False
     [(''type'', False, literal_text ''receipt''),
      (''version'', False, literal_number 1),
      (''receipt_id'', False, uuid_string),
      (''message_id'', False, uuid_string),
      (''status'', False, SEnum [''queued'', ''relayed'', ''delivered'', ''read'']),
      (''created_at_ms'', False, any_number)]"

text \<open>\<open>validateX\<close> returns the rebuilt record or a failure.\<close>

definition validateDeviceRecord :: "json \<Rightarrow> json option" where
  "validateDeviceRecord v = zparse DeviceRecordSchema v"

definition validatePreKeyBundle :: "json \<Rightarrow> json option" where
  "validatePreKeyBundle v = zparse PreKeyBundleSchema v"

subsection \<open>The second-generation Signal prekey bundle\<close>

definition max_safe_integer :: int where "max_safe_integer = 9007199254740991"

definition lower_uuid :: schema where "lower_uuid = SString is_lower_uuid"
definition timestamp :: schema where "timestamp = SNumber (\<lambda>i. 0 \<le> i \<and> i \<le> max_safe_integer)"
definition keyId :: schema where "keyId = SNumber (\<lambda>i. 0 \<le> i \<and> i \<le> 4294967295)"
definition identity_string :: schema where "identity_string = SString (encodedBytes 32 None)"
definition signature_string :: schema where "signature_string = SString (encodedBytes 64 None)"
definition ecKey :: schema where "ecKey = SString (encodedBytes 33 (Some 5))"

definition signedDevice :: schema where
  "signedDevice = SObject True
     [(''type'', False, literal_text ''device_record''),
      (''version'', False, literal_number 1),
      (''identity_id'', False, identity_string),
      (''device_id'', False, lower_uuid),
      (''device_pubkey'', False, identity_string),
      (''device_label'', True, SString (\<lambda>s. utf16_units s \<le> 256)),
      (''capabilities'', False, SObject True capability_fields),
      (''created_at_ms'', False, timestamp),
      (''signature'', False, signature_string)]"

definition originalSignedDevice :: schema where
  "originalSignedDevice = SCustom (accepts signedDevice)"

definition bundle_v2_fields :: "(string \<times> bool \<times> schema) list" where
  "bundle_v2_fields =
     [(''type'', False, literal_text ''signal_prekey_bundle''),
      (''version'', False, literal_number 2),
      (''suite'', False, literal_text ''libsignal-pq-v1''),
      (''bundle_id'', False, lower_uuid),
      (''created_at_ms'', False, timestamp),
      (''expires_at_ms'', False, timestamp),
      (''device_record'', False, originalSignedDevice),
      (''registration_id'', False, SNumber (\<lambda>i. 1 \<le> i \<and> i \<le> 16380)),
      (''signal_identity_key'', False, ecKey),
      (''signed_prekey'', False, SObject True
         [(''key_id'', False, keyId), (''public_key'', False, ecKey), (''signature'', False, signature_string)]),
      (''kyber_prekey'', False, SObject True
         [(''key_id'', False, keyId), (''public_key'', False, SString (encodedBytes 1569 (Some 8))),
          (''signature'', False, signature_string)]),
      (''one_time_prekey'', False, SNullable (SObject True
         [(''key_id'', False, keyId), (''public_key'', False, ecKey)])),
      (''signature'', False, signature_string)]"

definition SignalPreKeyBundleV2Schema :: schema where
  "SignalPreKeyBundleV2Schema =
     SRefine (SObject True bundle_v2_fields)
       (\<lambda>v. let life = num_prop v ''expires_at_ms'' - num_prop v ''created_at_ms'' in
            0 < life \<and> life \<le> 7 * 24 * 60 * 60 * 1000)"

definition signalAddressForDevice :: "string \<Rightarrow> string \<Rightarrow> (string \<times> int) result" where
  "signalAddressForDevice identityId deviceId =
     bindR (guardR (encodedBytes 32 None identityId) (PlainError ''ZodError'')) (\<lambda>_.
     bindR (guardR (is_lower_uuid deviceId) (PlainError ''ZodError'')) (\<lambda>_.
       Inr (stringify (JArr [JStr identityId, JStr deviceId]), 1)))"

definition signing_value :: "json \<Rightarrow> json" where
  "signing_value v =
     (let d = jprop v ''device_record''; c = jprop d ''capabilities'';
          s = jprop v ''signed_prekey''; k = jprop v ''kyber_prekey''; otk = jprop v ''one_time_prekey'' in
      JArr [JStr ''echolet.signal.prekey_bundle.v2'', jprop v ''bundle_id'', jprop v ''suite'',
        JArr [jprop d ''type'', jprop d ''version'', jprop d ''identity_id'', jprop d ''device_id'',
          jprop d ''device_pubkey'', jprop d ''device_label'',
          JArr [jprop c ''mailbox_poll'', jprop c ''receipts'', jprop c ''attachments''],
          jprop d ''created_at_ms'', jprop d ''signature''],
        jprop v ''created_at_ms'', jprop v ''expires_at_ms'', jprop v ''registration_id'',
        jprop v ''signal_identity_key'',
        JArr [jprop s ''key_id'', jprop s ''public_key'', jprop s ''signature''],
        JArr [jprop k ''key_id'', jprop k ''public_key'', jprop k ''signature''],
        (if otk = JNull then JNull else JArr [jprop otk ''key_id'', jprop otk ''public_key''])])"

definition signalBundleV2SigningText :: "json \<Rightarrow> string result" where
  "signalBundleV2SigningText bundle =
     bindR (of_option (PlainError ''ZodError'') (zparse SignalPreKeyBundleV2Schema bundle)) (\<lambda>v.
       Inr (stringify (signing_value v)))"

subsection \<open>The signing text determines the bundle\<close>

lemma leaf_schemas [simp]:
  "leaf (literal_text s)" "leaf (literal_number i)" "leaf lower_uuid" "leaf timestamp" "leaf keyId"
  "leaf identity_string" "leaf signature_string" "leaf ecKey" "leaf any_string" "leaf any_number"
  "leaf uuid_string"
  by (simp_all add: literal_text_def literal_number_def lower_uuid_def timestamp_def keyId_def
      identity_string_def signature_string_def ecKey_def any_string_def any_number_def uuid_string_def)

definition device_fields :: "(string \<times> bool \<times> schema) list" where
  "device_fields =
     [(''type'', False, literal_text ''device_record''), (''version'', False, literal_number 1),
      (''identity_id'', False, identity_string), (''device_id'', False, lower_uuid),
      (''device_pubkey'', False, identity_string),
      (''device_label'', True, SString (\<lambda>s. utf16_units s \<le> 256)),
      (''capabilities'', False, SObject True capability_fields),
      (''created_at_ms'', False, timestamp), (''signature'', False, signature_string)]"

lemma signedDevice_fields: "signedDevice = SObject True device_fields"
  by (simp add: signedDevice_def device_fields_def)

lemma distinct_fields [simp]:
  "distinct (map fst device_fields)" "distinct (map fst capability_fields)"
  "distinct (map fst bundle_v2_fields)"
  by (simp_all add: device_fields_def capability_fields_def bundle_v2_fields_def)

lemma leaf_at_fields:
  "list_all (leaf_at capability_fields) [''mailbox_poll'', ''receipts'', ''attachments'']"
  "list_all (leaf_at device_fields) [''type'', ''version'', ''identity_id'', ''device_id'', ''device_pubkey'',
     ''device_label'', ''created_at_ms'', ''signature'']"
  "list_all (leaf_at bundle_v2_fields) [''type'', ''version'', ''suite'', ''bundle_id'', ''created_at_ms'',
     ''expires_at_ms'', ''registration_id'', ''signal_identity_key'', ''signature'']"
  by (simp_all add: leaf_at_def capability_fields_def device_fields_def bundle_v2_fields_def)

lemma capabilities_scalar:
  assumes "zparse (SObject True capability_fields) c = Some c'"
  shows "list_all (\<lambda>k. scalar (jprop c k) \<and> jprop c' k = jprop c k) [''mailbox_poll'', ''receipts'', ''attachments'']"
  using leaf_at_fields(1) object_leaf_at [OF assms distinct_fields(2)] unfolding list_all_iff by blast

lemma device_scalar:
  assumes "zparse signedDevice d = Some d'"
  shows "list_all (\<lambda>k. scalar (jprop d k) \<and> jprop d' k = jprop d k)
      [''type'', ''version'', ''identity_id'', ''device_id'', ''device_pubkey'', ''device_label'',
       ''created_at_ms'', ''signature'']"
    and "zparse (SObject True capability_fields) (jprop d ''capabilities'') = Some (jprop d' ''capabilities'')"
proof -
  note z = assms [unfolded signedDevice_fields]
  show "list_all (\<lambda>k. scalar (jprop d k) \<and> jprop d' k = jprop d k)
      [''type'', ''version'', ''identity_id'', ''device_id'', ''device_pubkey'', ''device_label'',
       ''created_at_ms'', ''signature'']"
    using leaf_at_fields(2) object_leaf_at [OF z distinct_fields(1)] unfolding list_all_iff by blast
  show "zparse (SObject True capability_fields) (jprop d ''capabilities'') = Some (jprop d' ''capabilities'')"
    by (rule object_required [OF z distinct_fields(1)]) (simp add: device_fields_def)
qed

definition accepted_bundle :: "json \<Rightarrow> json \<Rightarrow> bool" where
  "accepted_bundle b v = (zparse SignalPreKeyBundleV2Schema b = Some v)"

lemma accepted_object:
  "accepted_bundle b v \<Longrightarrow> zparse (SObject True bundle_v2_fields) b = Some v"
  by (auto simp: accepted_bundle_def SignalPreKeyBundleV2Schema_def split: option.splits if_splits)

lemma accepted_leaf:
  assumes "accepted_bundle b v"
  shows "list_all (\<lambda>k. scalar (jprop v k)) [''type'', ''version'', ''suite'', ''bundle_id'', ''created_at_ms'',
     ''expires_at_ms'', ''registration_id'', ''signal_identity_key'', ''signature'']"
  using leaf_at_fields(3) object_leaf_at [OF accepted_object [OF assms] distinct_fields(3)]
  unfolding list_all_iff by metis

definition key_fields :: "schema \<Rightarrow> (string \<times> bool \<times> schema) list" where
  "key_fields pk = [(''key_id'', False, keyId), (''public_key'', False, pk), (''signature'', False, signature_string)]"

definition otk_fields :: "(string \<times> bool \<times> schema) list" where
  "otk_fields = [(''key_id'', False, keyId), (''public_key'', False, ecKey)]"

text \<open>Two objects with the same names are equal when they agree on each of them.\<close>

lemma eq_by_fields:
  assumes "x = JObj (map (\<lambda>k. (k, jprop x k)) ks)" "y = JObj (map (\<lambda>k. (k, jprop y k)) ks)"
  shows "x = y \<longleftrightarrow> list_all (\<lambda>k. jprop x k = jprop y k) ks"
proof
  assume "list_all (\<lambda>k. jprop x k = jprop y k) ks"
  then have "map (\<lambda>k. (k, jprop x k)) ks = map (\<lambda>k. (k, jprop y k)) ks" by (simp add: list_all_iff)
  with assms show "x = y" by metis
qed (simp add: list_all_iff)

lemma key_shape:
  assumes "zparse (SObject True (key_fields pk)) u = Some w" "leaf pk"
  shows "w = JObj (map (\<lambda>k. (k, jprop w k)) [''key_id'', ''public_key'', ''signature''])
    \<and> scalar (jprop w ''key_id'') \<and> scalar (jprop w ''public_key'') \<and> scalar (jprop w ''signature'')"
  using assms
  by (auto dest!: leaf_result simp: zparse_SObject key_fields_def zfields_required zfields_Nil simp del: zparse.simps zfields.simps)

lemma otk_shape:
  assumes "zparse (SObject True otk_fields) u = Some w"
  shows "w = JObj (map (\<lambda>k. (k, jprop w k)) [''key_id'', ''public_key''])
    \<and> scalar (jprop w ''key_id'') \<and> scalar (jprop w ''public_key'')"
  using assms
  by (auto dest!: leaf_result simp: zparse_SObject otk_fields_def zfields_required zfields_Nil simp del: zparse.simps zfields.simps)

lemma accepted_parts:
  assumes "accepted_bundle b v"
  shows "\<exists>d. zparse signedDevice (jprop v ''device_record'') = Some d"
    and "\<exists>u. zparse (SObject True (key_fields ecKey)) u = Some (jprop v ''signed_prekey'')"
    and "\<exists>u. zparse (SObject True (key_fields (SString (encodedBytes 1569 (Some 8))))) u = Some (jprop v ''kyber_prekey'')"
    and "jprop v ''one_time_prekey'' = JNull \<or>
      (\<exists>u. zparse (SObject True otk_fields) u = Some (jprop v ''one_time_prekey''))"
proof -
  note r = object_required [OF accepted_object [OF assms] distinct_fields(3)]
  have "zparse originalSignedDevice (jprop b ''device_record'') = Some (jprop v ''device_record'')"
    by (rule r) (simp add: bundle_v2_fields_def)
  then show "\<exists>d. zparse signedDevice (jprop v ''device_record'') = Some d"
    by (auto simp: originalSignedDevice_def accepts_def split: if_splits)
  show "\<exists>u. zparse (SObject True (key_fields ecKey)) u = Some (jprop v ''signed_prekey'')"
    by (rule exI, rule r) (simp add: bundle_v2_fields_def key_fields_def)
  show "\<exists>u. zparse (SObject True (key_fields (SString (encodedBytes 1569 (Some 8))))) u = Some (jprop v ''kyber_prekey'')"
    by (rule exI, rule r) (simp add: bundle_v2_fields_def key_fields_def)
  have "zparse (SNullable (SObject True otk_fields)) (jprop b ''one_time_prekey'') = Some (jprop v ''one_time_prekey'')"
    by (rule r) (simp add: bundle_v2_fields_def otk_fields_def)
  then show "jprop v ''one_time_prekey'' = JNull \<or>
      (\<exists>u. zparse (SObject True otk_fields) u = Some (jprop v ''one_time_prekey''))"
    by (auto simp only: zparse.simps(7) option.inject split: if_splits)
qed

lemma signing_wf:
  assumes "accepted_bundle b v"
  shows "wf_json (signing_value v)"
proof -
  from accepted_parts [OF assms] obtain d u u' where
    d: "zparse signedDevice (jprop v ''device_record'') = Some d"
    and s: "zparse (SObject True (key_fields ecKey)) u = Some (jprop v ''signed_prekey'')"
    and k: "zparse (SObject True (key_fields (SString (encodedBytes 1569 (Some 8))))) u' = Some (jprop v ''kyber_prekey'')"
    and o': "jprop v ''one_time_prekey'' = JNull \<or>
      (\<exists>u. zparse (SObject True otk_fields) u = Some (jprop v ''one_time_prekey''))" by blast
  have kp: "leaf (SString (encodedBytes 1569 (Some 8)))" by simp
  have o'': "jprop v ''one_time_prekey'' \<noteq> JNull \<Longrightarrow>
      scalar (jprop (jprop v ''one_time_prekey'') ''key_id'') \<and> scalar (jprop (jprop v ''one_time_prekey'') ''public_key'')"
    using o' otk_shape by blast
  note key_shape [OF s leaf_schemas(8)] key_shape [OF k kp] o''
    device_scalar(1) [OF d] capabilities_scalar [OF device_scalar(2) [OF d]] accepted_leaf [OF assms]
  then show ?thesis by (simp add: signing_value_def Let_def)
qed

definition covered :: "string list" where
  "covered = [''bundle_id'', ''suite'', ''created_at_ms'', ''expires_at_ms'', ''registration_id'',
     ''signal_identity_key'', ''signed_prekey'', ''kyber_prekey'', ''one_time_prekey'', ''type'', ''version'']"

lemma device_text_iff:
  assumes "zparse signedDevice d = Some d'" "zparse signedDevice e = Some e'"
  shows "d' = e' \<longleftrightarrow>
    list_all (\<lambda>k. jprop d k = jprop e k) [''type'', ''version'', ''identity_id'', ''device_id'', ''device_pubkey'',
      ''device_label'', ''created_at_ms'', ''signature'']
    \<and> list_all (\<lambda>k. jprop (jprop d ''capabilities'') k = jprop (jprop e ''capabilities'') k)
        [''mailbox_poll'', ''receipts'', ''attachments'']" (is "_ \<longleftrightarrow> ?R")
proof
  note D = device_scalar [OF assms(1)] and E = device_scalar [OF assms(2)]
  note C = capabilities_scalar [OF D(2)] and C' = capabilities_scalar [OF E(2)]
  { assume "d' = e'" with D(1) E(1) C C' show ?R by simp }
  assume ?R
  have "jprop d' ''capabilities'' = jprop e' ''capabilities''"
  proof (rule object_cong [OF D(2) E(2) distinct_fields(2)])
    fix k assume "k \<in> fst ` set capability_fields"
    then show "jprop (jprop d' ''capabilities'') k = jprop (jprop e' ''capabilities'') k"
      using C C' \<open>?R\<close> by (auto simp: capability_fields_def)
  qed (auto simp: capability_fields_def zparse_SBool simp del: zparse.simps)
  show "d' = e'"
  proof (rule object_cong [OF assms [unfolded signedDevice_fields] distinct_fields(1)])
    fix k assume "k \<in> fst ` set device_fields"
    then show "jprop d' k = jprop e' k"
      using D(1) E(1) \<open>?R\<close> \<open>jprop d' ''capabilities'' = jprop e' ''capabilities''\<close>
      by (auto simp: device_fields_def)
  qed (auto simp: device_fields_def zparse_SString simp del: zparse.simps)
qed

lemma signing_value_iff:
  assumes "accepted_bundle b v" "accepted_bundle c w"
  shows "signing_value v = signing_value w \<longleftrightarrow>
    list_all (\<lambda>k. jprop v k = jprop w k) covered
    \<and> zparse signedDevice (jprop v ''device_record'') = zparse signedDevice (jprop w ''device_record'')"
    (is "?L \<longleftrightarrow> ?R")
proof -
  obtain d u u' where
    d: "zparse signedDevice (jprop v ''device_record'') = Some d"
    and s: "zparse (SObject True (key_fields ecKey)) u = Some (jprop v ''signed_prekey'')"
    and k: "zparse (SObject True (key_fields (SString (encodedBytes 1569 (Some 8))))) u' = Some (jprop v ''kyber_prekey'')"
    and o1: "jprop v ''one_time_prekey'' = JNull \<or>
      (\<exists>u. zparse (SObject True otk_fields) u = Some (jprop v ''one_time_prekey''))"
    using accepted_parts [OF assms(1)] by blast
  obtain e t t' where
    e: "zparse signedDevice (jprop w ''device_record'') = Some e"
    and s': "zparse (SObject True (key_fields ecKey)) t = Some (jprop w ''signed_prekey'')"
    and k': "zparse (SObject True (key_fields (SString (encodedBytes 1569 (Some 8))))) t' = Some (jprop w ''kyber_prekey'')"
    and o2: "jprop w ''one_time_prekey'' = JNull \<or>
      (\<exists>u. zparse (SObject True otk_fields) u = Some (jprop w ''one_time_prekey''))"
    using accepted_parts [OF assms(2)] by blast
  have kp: "leaf (SString (encodedBytes 1569 (Some 8)))" by simp
  have lit: "jprop x ''type'' = JStr ''signal_prekey_bundle''" "jprop x ''version'' = JNum 2"
    if "accepted_bundle a x" for a x
    using object_required [OF accepted_object [OF that] distinct_fields(3), of "''type''" "literal_text ''signal_prekey_bundle''"]
      object_required [OF accepted_object [OF that] distinct_fields(3), of "''version''" "literal_number 2"]
    by (auto simp: bundle_v2_fields_def literal_text_def literal_number_def split: if_splits)
  have S: "jprop v ''signed_prekey'' = jprop w ''signed_prekey'' \<longleftrightarrow>
      list_all (\<lambda>k. jprop (jprop v ''signed_prekey'') k = jprop (jprop w ''signed_prekey'') k) [''key_id'', ''public_key'', ''signature'']"
    by (rule eq_by_fields [OF conjunct1 [OF key_shape [OF s leaf_schemas(8)]]
          conjunct1 [OF key_shape [OF s' leaf_schemas(8)]]])
  have K: "jprop v ''kyber_prekey'' = jprop w ''kyber_prekey'' \<longleftrightarrow>
      list_all (\<lambda>k. jprop (jprop v ''kyber_prekey'') k = jprop (jprop w ''kyber_prekey'') k) [''key_id'', ''public_key'', ''signature'']"
    by (rule eq_by_fields [OF conjunct1 [OF key_shape [OF k kp]] conjunct1 [OF key_shape [OF k' kp]]])
  have O: "jprop v ''one_time_prekey'' = jprop w ''one_time_prekey'' \<longleftrightarrow>
      (jprop v ''one_time_prekey'' = JNull \<longleftrightarrow> jprop w ''one_time_prekey'' = JNull) \<and>
      list_all (\<lambda>k. jprop (jprop v ''one_time_prekey'') k = jprop (jprop w ''one_time_prekey'') k) [''key_id'', ''public_key'']"
  proof (cases "jprop v ''one_time_prekey'' = JNull \<or> jprop w ''one_time_prekey'' = JNull")
    case False
    then obtain a b where "zparse (SObject True otk_fields) a = Some (jprop v ''one_time_prekey'')"
      "zparse (SObject True otk_fields) b = Some (jprop w ''one_time_prekey'')" using o1 o2 by blast
    from eq_by_fields [OF conjunct1 [OF otk_shape [OF this(1)]] conjunct1 [OF otk_shape [OF this(2)]]] False
    show ?thesis by blast
  qed auto
  have D: "zparse signedDevice (jprop v ''device_record'') = zparse signedDevice (jprop w ''device_record'') \<longleftrightarrow> d = e"
    using d e by simp
  have T: "jprop v ''type'' = jprop w ''type''" "jprop v ''version'' = jprop w ''version''"
    using lit [OF assms(1)] lit [OF assms(2)] by simp_all
  have P: "(if a = JNull then JNull else JArr [x, y]) = (if b = JNull then JNull else JArr [x', y']) \<longleftrightarrow>
      (a = JNull \<longleftrightarrow> b = JNull) \<and> (a \<noteq> JNull \<longrightarrow> x = x' \<and> y = y')" for a b x y x' y'
    by simp
  have N: "jprop JNull k = JNull" for k by simp
  show ?thesis
  proof (cases "jprop v ''one_time_prekey'' = JNull \<and> jprop w ''one_time_prekey'' = JNull")
    case True
    then show ?thesis
      unfolding signing_value_def covered_def Let_def D device_text_iff [OF d e]
      by (simp only: json.inject list.inject list.pred_inject S K T P True simp_thms) blast
  next
    case False
    then show ?thesis
      unfolding signing_value_def covered_def Let_def D device_text_iff [OF d e] O
      by (simp only: json.inject list.inject list.pred_inject S K O T P simp_thms) blast
  qed
qed

subsection \<open>A sample bundle\<close>

lemma encodedBytes_of_encode [simp]:
  "0 < n \<Longrightarrow> encodedBytes n None (encodeBase64Url bs) \<longleftrightarrow> length bs = n"
  "0 < n \<Longrightarrow> encodedBytes n (Some p) (encodeBase64Url bs) \<longleftrightarrow> length bs = n \<and> of_char (hd bs) = p"
  by (auto simp: encodedBytes_encode encodedBytes_start)

definition sample_uuid :: string where
  "sample_uuid = ''01890a5d-ac96-774b-bcce-b302099a8057''"

lemma sample_uuid_ok [simp]: "is_lower_uuid sample_uuid"
  by code_simp

definition sample_key :: "nat \<Rightarrow> char \<Rightarrow> json" where
  "sample_key n c = JStr (encodeBase64Url (replicate n c))"

definition sample_device :: json where
  "sample_device = JObj
     [(''type'', JStr ''device_record''), (''version'', JNum 1), (''identity_id'', sample_key 32 CHR ''k''),
      (''device_id'', JStr sample_uuid), (''device_pubkey'', sample_key 32 CHR ''k''),
      (''capabilities'', JObj [(''mailbox_poll'', JBool True)]), (''created_at_ms'', JNum 1),
      (''signature'', sample_key 64 CHR ''s'')]"

definition sample_bundle :: "char \<Rightarrow> int \<Rightarrow> json" where
  "sample_bundle sig registration = JObj
     [(''type'', JStr ''signal_prekey_bundle''), (''version'', JNum 2), (''suite'', JStr ''libsignal-pq-v1''),
      (''bundle_id'', JStr sample_uuid), (''created_at_ms'', JNum 5), (''expires_at_ms'', JNum 9),
      (''device_record'', sample_device), (''registration_id'', JNum registration),
      (''signal_identity_key'', sample_key 33 CHR 0x05),
      (''signed_prekey'', JObj [(''key_id'', JNum 2), (''public_key'', sample_key 33 CHR 0x05),
         (''signature'', sample_key 64 CHR ''s'')]),
      (''kyber_prekey'', JObj [(''key_id'', JNum 3), (''public_key'', sample_key 1569 CHR 0x08),
         (''signature'', sample_key 64 CHR ''s'')]),
      (''one_time_prekey'', JNull),
      (''signature'', sample_key 64 sig)]"

lemma sample_leaves [simp]:
  "zparse identity_string (sample_key 32 c) = Some (sample_key 32 c)"
  "zparse signature_string (sample_key 64 c) = Some (sample_key 64 c)"
  "zparse ecKey (sample_key 33 CHR 0x05) = Some (sample_key 33 CHR 0x05)"
  "zparse (SString (encodedBytes 1569 (Some 8))) (sample_key 1569 CHR 0x08) = Some (sample_key 1569 CHR 0x08)"
  "zparse lower_uuid (JStr sample_uuid) = Some (JStr sample_uuid)"
  "zparse keyId (JNum 2) = Some (JNum 2)" "zparse keyId (JNum 3) = Some (JNum 3)"
  "zparse timestamp (JNum 1) = Some (JNum 1)" "zparse timestamp (JNum 5) = Some (JNum 5)"
  "zparse timestamp (JNum 9) = Some (JNum 9)"
  "zparse (literal_text s) (JStr s) = Some (JStr s)"
  "zparse (literal_number i) (JNum i) = Some (JNum i)"
  by (simp_all add: identity_string_def signature_string_def ecKey_def lower_uuid_def keyId_def
      timestamp_def max_safe_integer_def literal_text_def literal_number_def sample_key_def)

lemma sample_device_accepted [simp]: "zparse signedDevice sample_device = Some sample_device"
  by (simp add: signedDevice_def sample_device_def capability_fields_def)

lemma sample_bundle_accepted [simp]:
  "1 \<le> r \<Longrightarrow> r \<le> 16380 \<Longrightarrow> zparse SignalPreKeyBundleV2Schema (sample_bundle s r) = Some (sample_bundle s r)"
  by (simp add: SignalPreKeyBundleV2Schema_def bundle_v2_fields_def sample_bundle_def originalSignedDevice_def
      accepts_def num_prop_def Let_def del: zparse.simps(1))

subsection \<open>Properties\<close>

text \<open>
  The canonical base64url check accepts exactly the encodings: a text passes
  \<open>encodedBytes(n)\<close> when, and only when, it is what \<open>encodeBase64Url\<close> prints for some n bytes,
  and \<open>encodedBytes(n, prefix)\<close> when in addition the first byte is the prefix.
\<close>

theorem encodedBytes_exact:
  assumes "0 < n"
  shows "(encodedBytes n None v \<longleftrightarrow> (\<exists>bs. length bs = n \<and> v = encodeBase64Url bs))
    \<and> (encodedBytes n (Some p) v \<longleftrightarrow> (\<exists>bs. length bs = n \<and> v = encodeBase64Url bs \<and> of_char (hd bs) = p))"
  using encodedBytes_encode [OF assms] encodedBytes_start [OF assms] by blast

theorem encodedBytes_exact_witness:
  "encodedBytes 3 (Some 97) (encodeBase64Url ''abc'') \<and> \<not> encodedBytes 3 (Some 98) (encodeBase64Url ''abc'')"
proof -
  have c: "(of_char (hd ''abc'') :: nat) = 97" "length ''abc'' = 3" by simp_all
  have u: "encodeBase64Url ''abc'' = encodeBase64Url bs \<longleftrightarrow> ''abc'' = bs" for bs
    by (simp only: encode_inj)
  note t = encodedBytes_exact [of 3 "encodeBase64Url ''abc''", OF zero_less_numeral, THEN conjunct2, unfolded u]
  have "encodedBytes 3 (Some 97) (encodeBase64Url ''abc'')" using t [of 97] c by blast
  moreover have "\<not> encodedBytes 3 (Some 98) (encodeBase64Url ''abc'')"
  proof
    assume "encodedBytes 3 (Some 98) (encodeBase64Url ''abc'')"
    then have "(of_char (hd ''abc'') :: nat) = 98" using t [of 98] by blast
    with c(1) show False by simp
  qed
  ultimately show ?thesis by blast
qed

text \<open>
  C13. The signing text of a prekey bundle covers all of it but the outer signature: two accepted
  bundles have the same signing text exactly when they agree on every other field and their device
  records, with the nested signatures, validate to the same record.
\<close>

theorem signing_text_covers_bundle:
  assumes "zparse SignalPreKeyBundleV2Schema b = Some v" "zparse SignalPreKeyBundleV2Schema c = Some w"
  shows "signalBundleV2SigningText b = signalBundleV2SigningText c \<longleftrightarrow>
    list_all (\<lambda>k. jprop v k = jprop w k) covered
    \<and> zparse signedDevice (jprop v ''device_record'') = zparse signedDevice (jprop w ''device_record'')"
proof -
  have a: "accepted_bundle b v" "accepted_bundle c w" using assms by (simp_all add: accepted_bundle_def)
  have "signalBundleV2SigningText b = signalBundleV2SigningText c \<longleftrightarrow> signing_value v = signing_value w"
    using assms json.enc_inj_iff [OF signing_wf [OF a(1)] signing_wf [OF a(2)]]
    by (simp add: signalBundleV2SigningText_def del: stringify.simps zparse.simps)
  then show ?thesis using signing_value_iff [OF a] by simp
qed

theorem signing_text_covers_bundle_witness:
  "signalBundleV2SigningText (sample_bundle CHR ''a'' 7) = signalBundleV2SigningText (sample_bundle CHR ''b'' 7)
   \<and> signalBundleV2SigningText (sample_bundle CHR ''a'' 7) \<noteq> signalBundleV2SigningText (sample_bundle CHR ''a'' 8)"
proof -
  have p: "jprop (sample_bundle x r) k = jprop (sample_bundle y r) k" if "k \<in> set covered" for x y r k
    using that by (auto simp: covered_def sample_bundle_def)
  have d: "jprop (sample_bundle x r) ''device_record'' = sample_device" for x r
    by (simp add: sample_bundle_def)
  have "jprop (sample_bundle x r) ''registration_id'' = JNum r" for x r by (simp add: sample_bundle_def)
  then have "\<not> list_all (\<lambda>k. jprop (sample_bundle x 7) k = jprop (sample_bundle x 8) k) covered" for x
    by (simp add: covered_def)
  then show ?thesis
    using signing_text_covers_bundle [OF sample_bundle_accepted sample_bundle_accepted, of 7 7 "CHR ''a''" "CHR ''b''"]
      signing_text_covers_bundle [OF sample_bundle_accepted sample_bundle_accepted, of 7 8 "CHR ''a''" "CHR ''a''"]
      p d by (simp add: list_all_iff)
qed

end
