(* ===== verification/SignalClient.thy ===== *)
theory SignalClient
  imports Store Session Protocol
begin

text \<open>
  \<open>packages/session-node/src/SignalClient.ts\<close>: the Signal session client over the transactional
  store. libsignal is third-party code. Its native objects are their serialised bytes; its
  functions are the fields of \<open>libsignal\<close>, an argument of every definition. A library call that
  takes the store is a program of callback requests (\<open>prog\<close>), so it can reach the records only
  through the methods of the class \<open>Records\<close>, which \<open>answer\<close> models one by one.
\<close>

subsection \<open>Addresses and records\<close>

record device_address =
  addr_name :: string
  addr_device :: int

record stored_ciphertext =
  cipher_id :: string
  cipher_type :: int
  cipher_body :: bytes

record outbox_record =
  out_messageId :: string
  out_type :: int
  out_body :: string
  out_contentHash :: string

definition addressKey :: "device_address \<Rightarrow> string" where
  "addressKey a = stringify (JArr [JStr (addr_name a), JNum (addr_device a)])"

definition assertAddress :: "device_address \<Rightarrow> unit result" where
  "assertAddress a =
     guardR (addr_name a \<noteq> [] \<and> utf16_units (addr_name a) \<le> 256 \<and> 1 \<le> addr_device a \<and> addr_device a \<le> 127)
       (PlainError ''Invalid device address'')"

definition assertMessageId :: "string \<Rightarrow> unit result" where
  "assertMessageId i = guardR (i \<noteq> [] \<and> utf16_units i \<le> 256) (PlainError ''Invalid message id'')"

text \<open>The names of the records.\<close>

definition trust_key :: "device_address \<Rightarrow> string" where "trust_key a = ''trust:'' @ addressKey a"
definition session_key :: "device_address \<Rightarrow> string" where "session_key a = ''session:'' @ addressKey a"
definition pre_key :: "int \<Rightarrow> string" where "pre_key i = ''pre:'' @ show_int i"
definition signed_key :: "int \<Rightarrow> string" where "signed_key i = ''signed:'' @ show_int i"
definition kyber_key :: "int \<Rightarrow> string" where "kyber_key i = ''kyber:'' @ show_int i"
definition outbox_key :: "device_address \<Rightarrow> string \<Rightarrow> string" where
  "outbox_key a m = ''outbox:'' @ addressKey a @ '':'' @ m"
definition inbox_key :: "device_address \<Rightarrow> string \<Rightarrow> string" where
  "inbox_key a m = ''inbox:'' @ addressKey a @ '':'' @ m"

definition oneTimePreKeyPointer :: string where "oneTimePreKeyPointer = ''pre-current''"
definition maxOneTimePreKeyId :: int where "maxOneTimePreKeyId = 16777215"

abbreviation tget :: "string \<Rightarrow> bytes option tx" where "tget \<equiv> tx_get True"
abbreviation tset :: "string \<Rightarrow> bytes \<Rightarrow> unit tx" where "tset \<equiv> tx_set True"
abbreviation tdelete :: "string \<Rightarrow> unit tx" where "tdelete \<equiv> tx_delete True"
abbreviation tkeys :: "string \<Rightarrow> string list tx" where "tkeys \<equiv> tx_keys True"

definition requireRecord :: "string \<Rightarrow> bytes tx" where
  "requireRecord k =
     andThen (tget k) (\<lambda>v. lift (of_option
       (PlainError (''Missing session record: '' @ takeWhile (\<lambda>c. c \<noteq> CHR '':'') k)) v))"

definition pointer_id :: "json \<Rightarrow> int result" where
  "pointer_id j =
     (case j of
        JNum i \<Rightarrow> if 1 \<le> i \<and> i \<le> maxOneTimePreKeyId then Inr i
          else Inl (PlainError ''Invalid one-time prekey pointer'')
      | _ \<Rightarrow> Inl (PlainError ''Invalid one-time prekey pointer''))"

definition currentOneTimePreKeyId :: "int tx" where
  "currentOneTimePreKeyId =
     andThen (tget oneTimePreKeyPointer) (\<lambda>v.
       case v of
         None \<Rightarrow> ret 1
       | Some b \<Rightarrow> lift (bindR (decode b) pointer_id))"

subsection \<open>The library\<close>

datatype native = PrivateKeyN | PublicKeyN | KemPublicKeyN | PreKeyN | SignedPreKeyN | KyberPreKeyN
  | SessionN | PreKeyMessageN | SignalMessageN

datatype request =
    GetIdentityKey
  | GetLocalRegistrationId
  | GetIdentity device_address
  | IsTrustedIdentity device_address bytes
  | SaveIdentity device_address bytes
  | GetSession device_address
  | SaveSession device_address bytes
  | GetExistingSessions "device_address list"
  | GetPreKey int
  | SavePreKey int bytes
  | RemovePreKey int
  | GetSignedPreKey int
  | SaveSignedPreKey int bytes
  | GetKyberPreKey int
  | SaveKyberPreKey int bytes
  | MarkKyberPreKeyUsed int int bytes

datatype reply = ReplyBytes bytes | ReplyMaybe "bytes option" | ReplyInt int | ReplyBool bool
  | ReplyUnit | ReplyList "bytes list"

text \<open>A library call: it returns, throws, or awaits a callback and goes on with its outcome.\<close>

datatype 'a prog = Return 'a | Throw exn | Call request "exn + reply \<Rightarrow> 'a prog"

record prekey_bundle =
  b_registrationId :: int
  b_deviceId :: int
  b_preKey :: "(int \<times> bytes) option"
  b_signedId :: int
  b_signedPublic :: bytes
  b_signedSignature :: bytes
  b_identityKey :: bytes
  b_kyberId :: int
  b_kyberPublic :: bytes
  b_kyberSignature :: bytes

record libsignal =
  native_ok :: "native \<Rightarrow> bytes \<Rightarrow> bool"
  public_of :: "bytes \<Rightarrow> bytes"
  kem_public_of :: "bytes \<Rightarrow> bytes"
  native_sign :: "bytes \<Rightarrow> bytes \<Rightarrow> bytes"
  native_verify :: "bytes \<Rightarrow> bytes \<Rightarrow> bytes \<Rightarrow> bool"
  pre_new :: "int \<Rightarrow> bytes \<Rightarrow> bytes"
  pre_id :: "bytes \<Rightarrow> int"
  pre_public :: "bytes \<Rightarrow> bytes"
  signed_new :: "int \<Rightarrow> int \<Rightarrow> bytes \<Rightarrow> bytes \<Rightarrow> bytes"
  signed_id :: "bytes \<Rightarrow> int"
  signed_public :: "bytes \<Rightarrow> bytes"
  signed_signature :: "bytes \<Rightarrow> bytes"
  kyber_new :: "int \<Rightarrow> int \<Rightarrow> bytes \<Rightarrow> bytes \<Rightarrow> bytes"
  kyber_id :: "bytes \<Rightarrow> int"
  kyber_public :: "bytes \<Rightarrow> bytes"
  kyber_signature :: "bytes \<Rightarrow> bytes"
  process_bundle :: "prekey_bundle \<Rightarrow> device_address \<Rightarrow> device_address \<Rightarrow> unit prog"
  signal_encrypt :: "bytes \<Rightarrow> device_address \<Rightarrow> device_address \<Rightarrow> (int \<times> bytes) prog"
  decrypt_prekey :: "bytes \<Rightarrow> device_address \<Rightarrow> device_address \<Rightarrow> bytes prog"
  decrypt_whisper :: "bytes \<Rightarrow> device_address \<Rightarrow> device_address \<Rightarrow> bytes prog"

definition deserialize :: "libsignal \<Rightarrow> native \<Rightarrow> bytes \<Rightarrow> bytes result" where
  "deserialize L n b = (if native_ok L n b then Inr b else Inl (PlainError ''LibSignalError''))"

subsection \<open>The class Records\<close>

definition getIdentityKey :: "libsignal \<Rightarrow> bytes tx" where
  "getIdentityKey L = andThen (requireRecord ''identity'') (\<lambda>b. lift (deserialize L PrivateKeyN b))"

definition getLocalRegistrationId :: "int tx" where
  "getLocalRegistrationId =
     andThen (requireRecord ''device'') (\<lambda>b. lift (bindR (decode b) (\<lambda>v. Inr (num_prop v ''registrationId''))))"

definition getIdentity :: "libsignal \<Rightarrow> device_address \<Rightarrow> bytes option tx" where
  "getIdentity L a =
     andThen (tget (trust_key a)) (\<lambda>v.
       case v of None \<Rightarrow> ret None | Some b \<Rightarrow> lift (bindR (deserialize L PublicKeyN b) (\<lambda>k. Inr (Some k))))"

definition isTrustedIdentity :: "libsignal \<Rightarrow> device_address \<Rightarrow> bytes \<Rightarrow> bool tx" where
  "isTrustedIdentity L a k = andThen (getIdentity L a) (\<lambda>v. ret (v = Some k))"

definition saveIdentity :: "libsignal \<Rightarrow> device_address \<Rightarrow> bytes \<Rightarrow> unit tx" where
  "saveIdentity L a k =
     andThen (isTrustedIdentity L a k) (\<lambda>t.
       if t then ret () else raise (PlainError ''Remote identity is not explicitly approved''))"

definition getSession :: "libsignal \<Rightarrow> device_address \<Rightarrow> bytes option tx" where
  "getSession L a =
     andThen (tget (session_key a)) (\<lambda>v.
       case v of None \<Rightarrow> ret None | Some b \<Rightarrow> lift (bindR (deserialize L SessionN b) (\<lambda>k. Inr (Some k))))"

definition saveSession :: "device_address \<Rightarrow> bytes \<Rightarrow> unit tx" where
  "saveSession a r = tset (session_key a) r"

fun getExistingSessions :: "libsignal \<Rightarrow> device_address list \<Rightarrow> bytes list tx" where
  "getExistingSessions L [] = ret []"
| "getExistingSessions L (a # as) =
     andThen (getSession L a) (\<lambda>v.
       case v of
         None \<Rightarrow> raise (PlainError ''Missing session'')
       | Some r \<Rightarrow> andThen (getExistingSessions L as) (\<lambda>rs. ret (r # rs)))"

definition getRecord :: "libsignal \<Rightarrow> native \<Rightarrow> string \<Rightarrow> bytes tx" where
  "getRecord L n k = andThen (requireRecord k) (\<lambda>b. lift (deserialize L n b))"

definition getPreKey :: "libsignal \<Rightarrow> int \<Rightarrow> bytes tx" where "getPreKey L i = getRecord L PreKeyN (pre_key i)"
definition savePreKey :: "int \<Rightarrow> bytes \<Rightarrow> unit tx" where "savePreKey i r = tset (pre_key i) r"
definition removePreKey :: "int \<Rightarrow> unit tx" where "removePreKey i = tdelete (pre_key i)"
definition getSignedPreKey :: "libsignal \<Rightarrow> int \<Rightarrow> bytes tx" where
  "getSignedPreKey L i = getRecord L SignedPreKeyN (signed_key i)"
definition saveSignedPreKey :: "int \<Rightarrow> bytes \<Rightarrow> unit tx" where "saveSignedPreKey i r = tset (signed_key i) r"
definition getKyberPreKey :: "libsignal \<Rightarrow> int \<Rightarrow> bytes tx" where
  "getKyberPreKey L i = getRecord L KyberPreKeyN (kyber_key i)"
definition saveKyberPreKey :: "int \<Rightarrow> bytes \<Rightarrow> unit tx" where "saveKyberPreKey i r = tset (kyber_key i) r"

definition used_key :: "int \<Rightarrow> int \<Rightarrow> bytes \<Rightarrow> string" where
  "used_key i j base = ''used:'' @ show_int i @ '':'' @ show_int j @ '':'' @ btoa base"

definition markKyberPreKeyUsed :: "int \<Rightarrow> int \<Rightarrow> bytes \<Rightarrow> unit tx" where
  "markKyberPreKeyUsed i j base =
     andThen (tget (used_key i j base)) (\<lambda>v.
       if v \<noteq> None then raise (PlainError ''Kyber prekey already used for this base key'')
       else tset (used_key i j base) [char_of (1 :: nat)])"

fun answer :: "libsignal \<Rightarrow> request \<Rightarrow> reply tx" where
  "answer L GetIdentityKey = andThen (getIdentityKey L) (\<lambda>b. ret (ReplyBytes b))"
| "answer L GetLocalRegistrationId = andThen getLocalRegistrationId (\<lambda>i. ret (ReplyInt i))"
| "answer L (GetIdentity a) = andThen (getIdentity L a) (\<lambda>v. ret (ReplyMaybe v))"
| "answer L (IsTrustedIdentity a k) = andThen (isTrustedIdentity L a k) (\<lambda>b. ret (ReplyBool b))"
| "answer L (SaveIdentity a k) = andThen (saveIdentity L a k) (\<lambda>_. ret ReplyUnit)"
| "answer L (GetSession a) = andThen (getSession L a) (\<lambda>v. ret (ReplyMaybe v))"
| "answer L (SaveSession a r) = andThen (saveSession a r) (\<lambda>_. ret ReplyUnit)"
| "answer L (GetExistingSessions as) = andThen (getExistingSessions L as) (\<lambda>rs. ret (ReplyList rs))"
| "answer L (GetPreKey i) = andThen (getPreKey L i) (\<lambda>b. ret (ReplyBytes b))"
| "answer L (SavePreKey i r) = andThen (savePreKey i r) (\<lambda>_. ret ReplyUnit)"
| "answer L (RemovePreKey i) = andThen (removePreKey i) (\<lambda>_. ret ReplyUnit)"
| "answer L (GetSignedPreKey i) = andThen (getSignedPreKey L i) (\<lambda>b. ret (ReplyBytes b))"
| "answer L (SaveSignedPreKey i r) = andThen (saveSignedPreKey i r) (\<lambda>_. ret ReplyUnit)"
| "answer L (GetKyberPreKey i) = andThen (getKyberPreKey L i) (\<lambda>b. ret (ReplyBytes b))"
| "answer L (SaveKyberPreKey i r) = andThen (saveKyberPreKey i r) (\<lambda>_. ret ReplyUnit)"
| "answer L (MarkKyberPreKeyUsed i j b) = andThen (markKyberPreKeyUsed i j b) (\<lambda>_. ret ReplyUnit)"

primrec run_prog :: "libsignal \<Rightarrow> 'a prog \<Rightarrow> 'a tx" where
  "run_prog L (Return x) = ret x"
| "run_prog L (Throw e) = raise e"
| "run_prog L (Call q k) = (\<lambda>s. case answer L q s of (r, t) \<Rightarrow> run_prog L (k r) t)"

subsection \<open>The client operations\<close>

text \<open>
  What the operations read from outside: the clock and the random values of one call.
\<close>

record fresh_keys =
  fresh_identity :: bytes
  fresh_pre :: bytes
  fresh_signed :: bytes
  fresh_kyber :: bytes
  fresh_registration :: int

definition device_metadata :: "device_address \<Rightarrow> int \<Rightarrow> json" where
  "device_metadata a i =
     JObj [(''address'', JObj [(''name'', JStr (addr_name a)), (''deviceId'', JNum (addr_device a))]),
           (''registrationId'', JNum i)]"

definition metadata_address :: "json \<Rightarrow> device_address" where
  "metadata_address v =
     \<lparr>addr_name = str_prop (jprop v ''address'') ''name'',
      addr_device = num_prop (jprop v ''address'') ''deviceId''\<rparr>"

definition create_client :: "libsignal \<Rightarrow> fresh_keys \<Rightarrow> int \<Rightarrow> device_address \<Rightarrow> unit tx" where
  "create_client L F now a =
     andThen (lift (assertAddress a)) (\<lambda>_.
     andThen (tget ''device'') (\<lambda>stored.
       case stored of
         Some b \<Rightarrow>
           andThen (lift (decode b)) (\<lambda>m.
             if addressKey (metadata_address m) \<noteq> addressKey a
             then raise (PlainError ''Store belongs to another local device'')
             else andThen (getIdentityKey L) (\<lambda>_. ret ()))
       | None \<Rightarrow>
           andThen (tkeys []) (\<lambda>ks.
             if ks \<noteq> [] then raise (PlainError ''Incomplete device store; refusing identity reset'')
             else
               (let identity = fresh_identity F in
                andThen (tset ''device'' (encode (device_metadata a (fresh_registration F)))) (\<lambda>_.
                andThen (tset ''identity'' identity) (\<lambda>_.
                andThen (tset (pre_key 1) (pre_new L 1 (fresh_pre F))) (\<lambda>_.
                andThen (tset (signed_key 2) (signed_new L 2 now (fresh_signed F)
                           (native_sign L identity (public_of L (fresh_signed F))))) (\<lambda>_.
                  tset (kyber_key 3) (kyber_new L 3 now (fresh_kyber F)
                     (native_sign L identity (kem_public_of L (fresh_kyber F))))))))))))"

definition publicBundle :: "libsignal \<Rightarrow> device_address \<Rightarrow> prekey_bundle tx" where
  "publicBundle L self =
     andThen (getIdentityKey L) (\<lambda>identity.
     andThen (getSignedPreKey L 2) (\<lambda>signed.
     andThen (getKyberPreKey L 3) (\<lambda>kyber.
     andThen currentOneTimePreKeyId (\<lambda>i.
     andThen (tget (pre_key i)) (\<lambda>preBytes.
     andThen (case preBytes of None \<Rightarrow> ret None
              | Some b \<Rightarrow> lift (bindR (deserialize L PreKeyN b) (\<lambda>r. Inr (Some r)))) (\<lambda>pre.
     andThen getLocalRegistrationId (\<lambda>reg.
       ret \<lparr>b_registrationId = reg, b_deviceId = addr_device self,
            b_preKey = (case pre of None \<Rightarrow> None | Some r \<Rightarrow> Some (pre_id L r, pre_public L r)),
            b_signedId = signed_id L signed, b_signedPublic = signed_public L signed,
            b_signedSignature = signed_signature L signed,
            b_identityKey = public_of L identity,
            b_kyberId = kyber_id L kyber, b_kyberPublic = kyber_public L kyber,
            b_kyberSignature = kyber_signature L kyber\<rparr>)))))))"

text \<open>\<open>Number.parseInt(s, 10)\<close> of a key suffix: a sign, then the leading digits.\<close>

definition parse_int :: "string \<Rightarrow> int option" where
  "parse_int s =
     (case s of
        [] \<Rightarrow> None
      | c # cs \<Rightarrow>
          (let neg = (c = CHR ''-''); ds = takeWhile is_digit (if neg then cs else s) in
           if ds = [] then None else Some (if neg then - int (read_nat ds) else int (read_nat ds))))"

definition allocated_ids :: "string list \<Rightarrow> int list" where
  "allocated_ids ks =
     filter (\<lambda>i. 1 \<le> i \<and> i \<le> max_safe_integer) (List.map_filter (\<lambda>k. parse_int (drop 4 k)) ks)"

definition rotateOneTimePreKey :: "libsignal \<Rightarrow> bytes \<Rightarrow> int tx" where
  "rotateOneTimePreKey L pre =
     andThen (requireRecord ''identity'') (\<lambda>_.
     andThen (tkeys ''pre:'') (\<lambda>ks.
     andThen currentOneTimePreKeyId (\<lambda>current.
       let nxt = foldl max current (allocated_ids ks) + 1 in
       if nxt > maxOneTimePreKeyId then raise (PlainError ''One-time prekey identifiers are exhausted'')
       else
         andThen (tset (pre_key nxt) (pre_new L nxt pre)) (\<lambda>_.
         andThen (tset oneTimePreKeyPointer (encode (JNum nxt))) (\<lambda>_.
           ret nxt)))))"

definition approveRemote :: "libsignal \<Rightarrow> device_address \<Rightarrow> bytes \<Rightarrow> unit tx" where
  "approveRemote L remote serializedIdentity =
     andThen (lift (assertAddress remote)) (\<lambda>_.
     andThen (lift (deserialize L PublicKeyN serializedIdentity)) (\<lambda>key.
     andThen (getIdentity L remote) (\<lambda>old.
       if old \<noteq> None \<and> old \<noteq> Some key
       then raise (PlainError ''Remote identity changed; explicit re-verification and session reset required'')
       else tset (trust_key remote) key)))"

definition establish :: "libsignal \<Rightarrow> device_address \<Rightarrow> device_address \<Rightarrow> prekey_bundle \<Rightarrow> unit tx" where
  "establish L self remote bundle =
     andThen (lift (assertAddress remote)) (\<lambda>_.
       if b_deviceId bundle \<noteq> addr_device remote
       then raise (PlainError ''Bundle device does not match recipient'')
       else
         andThen (isTrustedIdentity L remote (b_identityKey bundle)) (\<lambda>trusted.
           if \<not> trusted then raise (PlainError ''Remote identity is not explicitly approved'')
           else
             andThen (getSession L remote) (\<lambda>session.
               if session \<noteq> None then raise (PlainError ''Session already exists; refusing implicit reset'')
               else run_prog L (process_bundle L bundle remote self))))"

definition outbox_json :: "outbox_record \<Rightarrow> json" where
  "outbox_json r =
     JObj [(''messageId'', JStr (out_messageId r)), (''type'', JNum (out_type r)),
           (''body'', JStr (out_body r)), (''contentHash'', JStr (out_contentHash r))]"

definition outbox_of_json :: "json \<Rightarrow> outbox_record" where
  "outbox_of_json v =
     \<lparr>out_messageId = str_prop v ''messageId'', out_type = num_prop v ''type'',
      out_body = str_prop v ''body'', out_contentHash = str_prop v ''contentHash''\<rparr>"

definition decode_outbox :: "bytes \<Rightarrow> outbox_record result" where
  "decode_outbox b = bindR (decode b) (\<lambda>v. Inr (outbox_of_json v))"

definition outgoing :: "outbox_record \<Rightarrow> stored_ciphertext" where
  "outgoing r = \<lparr>cipher_id = out_messageId r, cipher_type = out_type r,
     cipher_body = buffer_from_base64url (out_body r)\<rparr>"

definition hex_of :: "bytes \<Rightarrow> string" where
  "hex_of b = concat (map (\<lambda>c. [hex_digit (of_char c div 16), hex_digit (of_char c mod 16)]) b)"

definition message_payload :: "string \<Rightarrow> string \<Rightarrow> bytes" where
  "message_payload m text = encode (JObj [(''messageId'', JStr m), (''body'', JStr text)])"

definition content_hash :: "primitives \<Rightarrow> string \<Rightarrow> string \<Rightarrow> string" where
  "content_hash P m text = hex_of (sha256 P (message_payload m text))"

definition encrypt_message ::
  "libsignal \<Rightarrow> primitives \<Rightarrow> device_address \<Rightarrow> device_address \<Rightarrow> string \<Rightarrow> string \<Rightarrow> stored_ciphertext tx"
where
  "encrypt_message L P self remote m plaintext =
     andThen (lift (assertAddress remote)) (\<lambda>_.
     andThen (lift (assertMessageId m)) (\<lambda>_.
     andThen (lift (guardR (length plaintext \<le> 64 * 1024)
        (PlainError ''Message exceeds reference size limit''))) (\<lambda>_.
     andThen (getIdentity L remote) (\<lambda>identity.
       if identity = None then raise (PlainError ''Remote identity is not explicitly approved'')
       else
         andThen (tget (outbox_key remote m)) (\<lambda>previous.
           case previous of
             Some b \<Rightarrow>
               andThen (lift (decode_outbox b)) (\<lambda>r.
                 if out_contentHash r \<noteq> content_hash P m plaintext
                 then raise (PlainError ''Message id already used with different content'')
                 else ret (outgoing r))
           | None \<Rightarrow>
               andThen (run_prog L (signal_encrypt L (message_payload m plaintext) remote self)) (\<lambda>(code, bytes).
                 let r = \<lparr>out_messageId = m, out_type = code, out_body = btoa bytes,
                          out_contentHash = content_hash P m plaintext\<rparr> in
                 andThen (tset (outbox_key remote m) (encode (outbox_json r))) (\<lambda>_.
                   ret (outgoing r))))))))"

definition retry_message :: "device_address \<Rightarrow> string \<Rightarrow> stored_ciphertext tx" where
  "retry_message remote m =
     andThen (lift (assertAddress remote)) (\<lambda>_.
     andThen (lift (assertMessageId m)) (\<lambda>_.
     andThen (requireRecord (trust_key remote)) (\<lambda>_.
     andThen (requireRecord (outbox_key remote m)) (\<lambda>b.
     andThen (lift (decode_outbox b)) (\<lambda>r.
       ret (outgoing r))))))"

text \<open>The ciphertext types: \<open>CiphertextMessageType.Whisper\<close> is 2, \<open>PreKey\<close> is 3.\<close>

definition whisper_type :: int where "whisper_type = 2"
definition prekey_type :: int where "prekey_type = 3"

definition decrypt_message ::
  "libsignal \<Rightarrow> device_address \<Rightarrow> device_address \<Rightarrow> stored_ciphertext \<Rightarrow> string tx"
where
  "decrypt_message L self remote message =
     andThen (lift (assertAddress remote)) (\<lambda>_.
     andThen (lift (assertMessageId (cipher_id message))) (\<lambda>_.
     andThen (lift (guardR (length (cipher_body message) \<le> 1024 * 1024)
        (PlainError ''Ciphertext exceeds reference size limit''))) (\<lambda>_.
     andThen (tget (inbox_key remote (cipher_id message))) (\<lambda>seen.
       if seen \<noteq> None then raise (PlainError ''Message already received'')
       else
         andThen
           (if cipher_type message = prekey_type
            then andThen (lift (deserialize L PreKeyMessageN (cipher_body message))) (\<lambda>c.
                   run_prog L (decrypt_prekey L c remote self))
            else if cipher_type message = whisper_type
            then andThen (lift (deserialize L SignalMessageN (cipher_body message))) (\<lambda>c.
                   run_prog L (decrypt_whisper L c remote self))
            else raise (PlainError ''Unsupported ciphertext type'')) (\<lambda>plaintext.
         andThen (lift (decode plaintext)) (\<lambda>payload.
         andThen (lift (bindR (get_prop payload ''messageId'') (\<lambda>i.
                         bindR (get_prop payload ''body'') (\<lambda>b.
                           case (i, b) of
                             (Some (JStr j), Some (JStr text)) \<Rightarrow>
                               if j = cipher_id message then Inr text
                               else Inl (PlainError ''Authenticated message payload mismatch'')
                           | _ \<Rightarrow> Inl (PlainError ''Authenticated message payload mismatch''))))) (\<lambda>text.
         andThen (tset (inbox_key remote (cipher_id message)) (message_payload (cipher_id message) text)) (\<lambda>_.
           ret text))))))))"

subsection \<open>What an operation can change\<close>

definition reads :: "('s, 'a) op \<Rightarrow> bool" where
  "reads m \<longleftrightarrow> (\<forall>s. snd (m s) = s)"

named_theorems read_ops \<open>operations that leave the records as they are\<close>

lemma reads_basic [read_ops]:
  "reads (ret x)" "reads (raise e)" "reads (lift r)" "reads (tget k)" "reads (tkeys p)" "reads (Pair r)"
  by (simp_all add: reads_def)

lemma reads_andThen [read_ops]: "reads m \<Longrightarrow> (\<And>x. reads (f x)) \<Longrightarrow> reads (andThen m f)"
  by (simp add: reads_def andThen_def split: prod.splits sum.splits) (metis prod.sel(2))

lemma reads_if [read_ops]: "reads m \<Longrightarrow> reads n \<Longrightarrow> reads (if b then m else n)"
  by simp

lemma reads_option [read_ops]: "reads m \<Longrightarrow> (\<And>x. reads (f x)) \<Longrightarrow> reads (case v of None \<Rightarrow> m | Some x \<Rightarrow> f x)"
  by (cases v) auto

lemma reads_same: "reads m \<Longrightarrow> m s = (r, t) \<Longrightarrow> t = s"
  by (metis reads_def snd_conv)

lemma reads_requireRecord [read_ops]: "reads (requireRecord k)"
  by (simp add: requireRecord_def read_ops)

lemma reads_getRecord [read_ops]: "reads (getRecord L n k)"
  by (simp add: getRecord_def read_ops)

lemma reads_getters [read_ops]:
  "reads (getIdentityKey L)" "reads getLocalRegistrationId" "reads (getIdentity L a)"
  "reads (isTrustedIdentity L a k)" "reads (saveIdentity L a k)" "reads (getSession L a)"
  "reads (getPreKey L i)" "reads (getSignedPreKey L i)" "reads (getKyberPreKey L i)"
  by (auto intro!: read_ops simp: getIdentityKey_def getLocalRegistrationId_def getIdentity_def
      isTrustedIdentity_def saveIdentity_def getSession_def getPreKey_def getSignedPreKey_def getKyberPreKey_def)

lemma reads_getExistingSessions [read_ops]: "reads (getExistingSessions L as)"
  by (induction as) (auto intro!: read_ops)

lemma reads_currentOneTimePreKeyId [read_ops]: "reads currentOneTimePreKeyId"
  by (auto intro!: read_ops simp: currentOneTimePreKeyId_def)

text \<open>The records the library can write are those its callbacks name.\<close>

definition library_key :: "string \<Rightarrow> bool" where
  "library_key k = (\<exists>p \<in> {''session:'', ''pre:'', ''signed:'', ''kyber:'', ''used:''}. prefix p k)"

lemma library_key_cases [simp]:
  "library_key (session_key a)" "library_key (pre_key i)" "library_key (signed_key i)"
  "library_key (kyber_key i)" "library_key (used_key i j b)"
  "\<not> library_key (trust_key a)" "\<not> library_key (outbox_key a m)" "\<not> library_key (inbox_key a m)"
  "\<not> library_key ''device''" "\<not> library_key ''identity''" "\<not> library_key oneTimePreKeyPointer"
  by (simp_all add: library_key_def session_key_def pre_key_def signed_key_def kyber_key_def used_key_def
      trust_key_def outbox_key_def inbox_key_def oneTimePreKeyPointer_def)

definition framed :: "'a tx \<Rightarrow> bool" where
  "framed m \<longleftrightarrow> (\<forall>s r t k. m s = (r, t) \<longrightarrow> \<not> library_key k \<longrightarrow> rec_get k t = rec_get k s)"

lemma framed_reads: "reads m \<Longrightarrow> framed m"
  using reads_same by (fastforce simp: framed_def)

lemma framed_andThen: "framed m \<Longrightarrow> (\<And>x. framed (f x)) \<Longrightarrow> framed (andThen m f)"
  unfolding framed_def andThen_def by (fastforce split: prod.splits sum.splits)

lemma framed_set: "library_key k \<Longrightarrow> framed (tset k v)"
  by (auto simp: framed_def)

lemma framed_delete: "library_key k \<Longrightarrow> framed (tdelete k)"
  by (auto simp: framed_def)

lemma framed_answer: "framed (answer L q)"
proof -
  have w: "framed (saveSession a r)" "framed (savePreKey i r)" "framed (removePreKey i)"
    "framed (saveSignedPreKey i r)" "framed (saveKyberPreKey i r)" "framed (markKyberPreKeyUsed i j b)" for a r i j b
    by (simp_all add: saveSession_def savePreKey_def removePreKey_def saveSignedPreKey_def saveKyberPreKey_def
          markKyberPreKeyUsed_def framed_set framed_delete)
      (intro framed_andThen, auto intro: framed_reads read_ops framed_set split: if_splits)
  show ?thesis
    by (cases q) (auto intro!: framed_andThen intro: w framed_reads read_ops)
qed

lemma framed_run: "framed (run_prog L p)"
proof (induction p)
  case (Call q k)
  have "rec_get j t' = rec_get j s"
    if "run_prog L (Call q k) s = (r, t')" "\<not> library_key j" for s r t' j
  proof -
    obtain a t where a: "answer L q s = (a, t)" by fastforce
    with that(1) have "run_prog L (k a) t = (r, t')" by simp
    with Call.IH [OF rangeI, of a] that(2) have "rec_get j t' = rec_get j t" by (auto simp: framed_def)
    with framed_answer [of L q] a that(2) show ?thesis by (auto simp: framed_def)
  qed
  then show ?case by (auto simp: framed_def)
qed (simp_all add: framed_reads read_ops)

lemma run_frame:
  "run_prog L p s = (r, t) \<Longrightarrow> \<not> library_key k \<Longrightarrow> rec_get k t = rec_get k s"
  using framed_run by (fastforce simp: framed_def)

subsection \<open>Sending once per message id\<close>

lemma andThen_InrE:
  assumes "andThen m f s = (Inr y, u)"
  obtains x t where "m s = (Inr x, t)" "f x t = (Inr y, u)"
  using assms by (auto simp: andThen_Inr_iff)

lemma lift_Inr: "lift r s = (Inr x, t) \<longleftrightarrow> r = Inr x \<and> t = s"
  by auto

lemma outbox_round_trip [simp]: "decode_outbox (encode (outbox_json r)) = Inr r"
proof -
  have "wf_json (outbox_json r)" by (simp add: outbox_json_def)
  from json.dec_enc [OF this]
  show ?thesis by (simp add: decode_outbox_def outbox_of_json_def outbox_json_def str_prop_def num_prop_def
        del: stringify.simps)
qed

interpretation outbox: codec "\<lambda>r. encode (outbox_json r)" decode_outbox "\<lambda>_. True"
  by unfold_locales simp

lemma getIdentity_result:
  "getIdentity L a s =
     (case rec_get (trust_key a) s of
        None \<Rightarrow> (Inr None, s)
      | Some b \<Rightarrow> if native_ok L PublicKeyN b then (Inr (Some b), s) else (Inl (PlainError ''LibSignalError''), s))"
  by (simp add: getIdentity_def andThen_def deserialize_def split: option.splits)

definition send_guard :: "device_address \<Rightarrow> string \<Rightarrow> bool" where
  "send_guard r m \<longleftrightarrow> assertAddress r = Inr () \<and> assertMessageId m = Inr ()"

lemma encrypt_unfold:
  assumes "send_guard r m" "rec_get (trust_key r) s = Some k" "native_ok L PublicKeyN k" "length text \<le> 65536"
  shows "encrypt_message L P self r m text s =
    (case rec_get (outbox_key r m) s of
       Some b \<Rightarrow> andThen (lift (decode_outbox b)) (\<lambda>q.
           if out_contentHash q \<noteq> content_hash P m text
           then raise (PlainError ''Message id already used with different content'')
           else ret (outgoing q)) s
     | None \<Rightarrow> andThen (run_prog L (signal_encrypt L (message_payload m text) r self)) (\<lambda>(code, bytes).
           let q = \<lparr>out_messageId = m, out_type = code, out_body = btoa bytes,
                    out_contentHash = content_hash P m text\<rparr> in
           andThen (tset (outbox_key r m) (encode (outbox_json q))) (\<lambda>_. ret (outgoing q))) s)"
  using assms
  by (simp add: encrypt_message_def send_guard_def andThen_def getIdentity_result split: option.splits)

lemma encrypt_guard:
  assumes "encrypt_message L P self r m text s = (Inr c, t)"
  obtains k where "send_guard r m" "rec_get (trust_key r) s = Some k" "native_ok L PublicKeyN k"
    "length text \<le> 65536"
proof -
  from assms have g: "send_guard r m" "length text \<le> 65536"
    by (auto simp: encrypt_message_def andThen_Inr_iff send_guard_def)
  from assms obtain i where "getIdentity L r s = (Inr i, s)" "i \<noteq> None"
    by (auto simp: encrypt_message_def andThen_Inr_iff getIdentity_result split: option.splits if_splits)
  with g that show ?thesis by (auto simp: getIdentity_result split: option.splits if_splits)
qed

text \<open>After a send, the outbox holds a record of that content, and the result is what it says.\<close>

lemma encrypt_records:
  assumes "encrypt_message L P self r m text s = (Inr c, t)"
  obtains b q where "rec_get (outbox_key r m) t = Some b" "decode_outbox b = Inr q"
    "out_contentHash q = content_hash P m text" "c = outgoing q"
    "rec_get (trust_key r) t = rec_get (trust_key r) s"
proof -
  obtain k where g: "send_guard r m" "rec_get (trust_key r) s = Some k" "native_ok L PublicKeyN k"
      "length text \<le> 65536"
    by (rule encrypt_guard [OF assms])
  note u = assms [unfolded encrypt_unfold [OF g]]
  show ?thesis
  proof (cases "rec_get (outbox_key r m) s")
    case (Some b)
    with u that show ?thesis by (auto simp: andThen_Inr_iff split: if_splits)
  next
    case None
    with u obtain code bytes s' where
      run: "run_prog L (signal_encrypt L (message_payload m text) r self) s = (Inr (code, bytes), s')"
      and t: "t = rec_set (outbox_key r m) (encode (outbox_json \<lparr>out_messageId = m, out_type = code,
             out_body = btoa bytes, out_contentHash = content_hash P m text\<rparr>)) s'"
      and c: "c = outgoing \<lparr>out_messageId = m, out_type = code,
             out_body = btoa bytes, out_contentHash = content_hash P m text\<rparr>"
      by (auto simp: andThen_Inr_iff Let_def)
    have ne: "trust_key r \<noteq> outbox_key r m" by (simp add: trust_key_def outbox_key_def)
    have "rec_get (trust_key r) t = rec_get (trust_key r) s"
      using run_frame [OF run] ne t by simp
    with t c that outbox_round_trip show ?thesis by fastforce
  qed
qed

lemma retry_result:
  assumes "send_guard r m" "rec_get (trust_key r) t = Some k" "rec_get (outbox_key r m) t = Some b" "decode_outbox b = Inr q"
  shows "retry_message r m t = (Inr (outgoing q), t)"
  using assms by (simp add: retry_message_def andThen_def send_guard_def requireRecord_def)

subsection \<open>Histories of a client\<close>

text \<open>
  One call of the client, and the records after a sequence of calls: a call that throws is rolled
  back (\<open>transaction_atomic\<close> of \<open>Store\<close>).
\<close>

datatype client_call =
    CallCreate fresh_keys int device_address
  | CallPublicBundle device_address
  | CallRotate bytes
  | CallApprove device_address bytes
  | CallEstablish device_address device_address prekey_bundle
  | CallEncrypt device_address device_address string string
  | CallRetry device_address string
  | CallDecrypt device_address device_address stored_ciphertext

definition void :: "'a tx \<Rightarrow> unit tx" where
  "void m = andThen m (\<lambda>_. ret ())"

fun exec_call :: "libsignal \<Rightarrow> primitives \<Rightarrow> client_call \<Rightarrow> unit tx" where
  "exec_call L P (CallCreate F now a) = create_client L F now a"
| "exec_call L P (CallPublicBundle a) = void (publicBundle L a)"
| "exec_call L P (CallRotate pre) = void (rotateOneTimePreKey L pre)"
| "exec_call L P (CallApprove r k) = approveRemote L r k"
| "exec_call L P (CallEstablish self r b) = establish L self r b"
| "exec_call L P (CallEncrypt self r m text) = void (encrypt_message L P self r m text)"
| "exec_call L P (CallRetry r m) = void (retry_message r m)"
| "exec_call L P (CallDecrypt self r msg) = void (decrypt_message L self r msg)"

definition after_call :: "libsignal \<Rightarrow> primitives \<Rightarrow> records \<Rightarrow> client_call \<Rightarrow> records" where
  "after_call L P s c = (case exec_call L P c s of (Inl _, _) \<Rightarrow> s | (Inr _, t) \<Rightarrow> t)"

definition after_calls :: "libsignal \<Rightarrow> primitives \<Rightarrow> client_call list \<Rightarrow> records \<Rightarrow> records" where
  "after_calls L P cs s = foldl (after_call L P) s cs"

text \<open>Records outside the library's and the prekey pointer are written once and never changed.\<close>

definition permanent_key :: "string \<Rightarrow> bool" where
  "permanent_key k \<longleftrightarrow> \<not> library_key k \<and> k \<noteq> oneTimePreKeyPointer"

definition keeps_but :: "string set \<Rightarrow> 'a tx \<Rightarrow> bool" where
  "keeps_but J m \<longleftrightarrow>
     (\<forall>s r t k v. m s = (r, t) \<longrightarrow> permanent_key k \<longrightarrow> k \<notin> J \<longrightarrow> rec_get k s = Some v \<longrightarrow> rec_get k t = Some v)"

lemma keeps_framed: "framed m \<Longrightarrow> keeps_but J m"
  unfolding framed_def keeps_but_def permanent_key_def by metis

lemma keeps_reads: "reads m \<Longrightarrow> keeps_but J m"
  by (intro keeps_framed framed_reads)

lemma keeps_run: "keeps_but J (run_prog L p)"
  by (intro keeps_framed framed_run)

lemma keeps_andThen: "keeps_but J m \<Longrightarrow> (\<And>x. keeps_but J (f x)) \<Longrightarrow> keeps_but J (andThen m f)"
  unfolding keeps_but_def andThen_def by (fastforce split: prod.splits sum.splits)

lemma keeps_if: "keeps_but J m \<Longrightarrow> keeps_but J n \<Longrightarrow> keeps_but J (if b then m else n)"
  by simp

lemma keeps_option:
  "keeps_but J m \<Longrightarrow> (\<And>x. keeps_but J (f x)) \<Longrightarrow> keeps_but J (case v of None \<Rightarrow> m | Some x \<Rightarrow> f x)"
  by (cases v) auto

lemma keeps_set: "\<not> permanent_key k \<or> k \<in> J \<Longrightarrow> keeps_but J (tset k v)"
  unfolding keeps_but_def by auto

lemma keeps_void: "keeps_but J m \<Longrightarrow> keeps_but J (void m)"
  unfolding void_def by (rule keeps_andThen, assumption, rule keeps_reads, rule read_ops)

text \<open>An operation that leaves everything as it is when the excepted record exists keeps that too.\<close>

lemma keeps_unless_present:
  assumes "keeps_but {j} m" "\<And>s v. rec_get j s = Some v \<Longrightarrow> snd (m s) = s"
  shows "keeps_but {} m"
  using assms unfolding keeps_but_def by (metis insertE empty_iff snd_conv)

lemmas keep_rules = keeps_andThen keeps_if keeps_option

lemma permanent_names [simp]:
  "permanent_key (trust_key a)" "permanent_key (outbox_key a m)" "permanent_key (inbox_key a m)"
  "permanent_key ''device''" "permanent_key ''identity''"
  "\<not> permanent_key (pre_key i)" "\<not> permanent_key oneTimePreKeyPointer"
  by (simp_all add: permanent_key_def) (simp_all add: trust_key_def outbox_key_def inbox_key_def oneTimePreKeyPointer_def)

lemma keeps_create: "keeps_but {} (create_client L F now a)"
  unfolding keeps_but_def
proof (intro allI impI)
  fix s r t k v
  assume c: "create_client L F now a s = (r, t)" and k: "permanent_key k" "rec_get k s = Some v"
  have ne: "rec_keys [] s \<noteq> []" using k(2) kv.keyset_get [of k s] by auto
  show "rec_get k t = Some v"
  proof (cases "rec_get ''device'' s")
    case None
    with c ne have "t = s"
      by (auto simp: create_client_def andThen_def split: sum.splits)
    with k(2) show ?thesis by simp
  next
    case (Some b)
    with c have "t = s"
      by (auto simp: create_client_def andThen_def dest: reads_same [OF reads_getters(1)]
          split: sum.splits prod.splits if_splits)
    with k(2) show ?thesis by simp
  qed
qed

lemma keeps_approve: "keeps_but {} (approveRemote L a key)"
  unfolding keeps_but_def
  by (auto simp: approveRemote_def andThen_def getIdentity_result deserialize_def
      split: sum.splits prod.splits if_splits option.splits)

lemma keeps_establish: "keeps_but {} (establish L self a b)"
  unfolding establish_def
  by (intro keep_rules; (rule keeps_run | rule keeps_reads, intro read_ops))

lemma keeps_rotate: "keeps_but {} (rotateOneTimePreKey L pre)"
  unfolding rotateOneTimePreKey_def Let_def
  by (intro keep_rules; (rule keeps_set, simp | rule keeps_reads, intro read_ops))

lemma keeps_encrypt: "keeps_but {} (encrypt_message L P self a m text)"
proof (rule keeps_unless_present)
  show "keeps_but {outbox_key a m} (encrypt_message L P self a m text)"
    unfolding encrypt_message_def Let_def case_prod_unfold
    by (intro keep_rules; (rule keeps_run | rule keeps_set, simp | rule keeps_reads, intro read_ops))
  fix s v assume "rec_get (outbox_key a m) s = Some v"
  then show "snd (encrypt_message L P self a m text s) = s"
    by (auto simp: encrypt_message_def andThen_def getIdentity_result split: sum.splits prod.splits option.splits)
qed

lemma keeps_decrypt: "keeps_but {} (decrypt_message L self a msg)"
proof (rule keeps_unless_present)
  show "keeps_but {inbox_key a (cipher_id msg)} (decrypt_message L self a msg)"
    unfolding decrypt_message_def
    by (intro keep_rules; (rule keeps_run | rule keeps_set, simp | rule keeps_reads, intro read_ops))
  fix s v assume "rec_get (inbox_key a (cipher_id msg)) s = Some v"
  then show "snd (decrypt_message L self a msg s) = s"
    by (auto simp: decrypt_message_def andThen_def split: sum.splits prod.splits)
qed

lemma reads_publicBundle [read_ops]: "reads (publicBundle L a)"
  unfolding publicBundle_def by (intro read_ops)

lemma reads_retry [read_ops]: "reads (retry_message a m)"
  unfolding retry_message_def by (intro read_ops)

lemma keeps_exec: "keeps_but {} (exec_call L P c)"
  by (cases c) (auto intro!: keeps_void intro: keeps_create keeps_approve keeps_establish keeps_rotate
      keeps_encrypt keeps_decrypt keeps_reads read_ops)

lemma after_calls_keep:
  "permanent_key k \<Longrightarrow> rec_get k s = Some v \<Longrightarrow> rec_get k (after_calls L P cs s) = Some v"
proof (induction cs arbitrary: s)
  case (Cons c cs)
  have "rec_get k (after_call L P s c) = Some v"
    using keeps_exec [of L P c] Cons.prems
    by (auto simp: after_call_def keeps_but_def split: prod.splits sum.splits)
  with Cons show ?case by (simp add: after_calls_def)
qed (simp add: after_calls_def)

subsection \<open>Receiving once per message id\<close>

lemma decrypt_records:
  assumes "decrypt_message L self a msg s = (Inr text, t)"
  shows "rec_get (inbox_key a (cipher_id msg)) s = None"
    and "rec_get (inbox_key a (cipher_id msg)) t = Some (message_payload (cipher_id msg) text)"
  using assms
  by (auto simp: decrypt_message_def andThen_Inr_iff bindR_Inr_iff split: if_splits option.splits json.splits)

lemma decrypt_seen:
  assumes "rec_get (inbox_key a (cipher_id msg)) s \<noteq> None"
  shows "\<exists>e. decrypt_message L self a msg s = (Inl e, s)
    \<and> (assertAddress a = Inr () \<and> assertMessageId (cipher_id msg) = Inr () \<and> length (cipher_body msg) \<le> 1048576
        \<longrightarrow> e = PlainError ''Message already received'')"
  using assms
  by (cases "assertAddress a"; cases "assertMessageId (cipher_id msg)")
    (auto simp: decrypt_message_def andThen_def guardR_def)

subsection \<open>Rotating the one-time prekey\<close>

lemma foldl_max_ge: "(a :: int) \<le> foldl max a xs \<and> (\<forall>x \<in> set xs. x \<le> foldl max a xs)"
proof (induction xs arbitrary: a)
  case (Cons x xs)
  from Cons.IH [of "max a x"] show ?case by auto
qed simp

lemma takeWhile_digits_show: "takeWhile is_digit (show_nat n) = show_nat n"
  using show_nat_digits by (simp add: takeWhile_eq_all_conv)

lemma parse_show_int: "0 \<le> i \<Longrightarrow> parse_int (show_int i) = Some i"
proof -
  assume "0 \<le> i"
  obtain c cs where c: "show_nat (nat i) = c # cs" using show_nat_nonempty by (cases "show_nat (nat i)") auto
  then have "is_digit c" using show_nat_digits [of "nat i"] by simp
  then have "c \<noteq> CHR ''-''" by auto
  moreover have "show_int i = c # cs" using c \<open>0 \<le> i\<close> by (simp add: show_int_def)
  moreover have t: "takeWhile is_digit (c # cs) = c # cs" "read_nat (c # cs) = nat i"
    using takeWhile_digits_show [of "nat i"] read_show_nat [of "nat i"] by (simp_all only: c)
  ultimately show ?thesis using \<open>0 \<le> i\<close>
    unfolding parse_int_def Let_def by (simp only: list.case if_False t list.distinct) simp
qed

lemma pointer_id_Inr: "pointer_id j = Inr i \<longleftrightarrow> j = JNum i \<and> 1 \<le> i \<and> i \<le> maxOneTimePreKeyId"
  by (cases j) (auto simp: pointer_id_def)

lemma currentOneTime_range: "currentOneTimePreKeyId s = (Inr i, t) \<Longrightarrow> 1 \<le> i \<and> i \<le> maxOneTimePreKeyId \<and> t = s"
  by (auto simp: currentOneTimePreKeyId_def andThen_Inr_iff bindR_Inr_iff pointer_id_Inr maxOneTimePreKeyId_def
      split: option.splits)

lemma allocated_present:
  assumes "rec_get (pre_key i) s \<noteq> None" "1 \<le> i" "i \<le> maxOneTimePreKeyId"
  shows "i \<in> set (allocated_ids (rec_keys ''pre:'' s))"
proof -
  have "pre_key i \<in> set (rec_keys ''pre:'' s)" using assms(1) by (simp add: rec_keys_iff pre_key_def)
  moreover have "parse_int (drop 4 (pre_key i)) = Some i" using assms(2) by (simp add: pre_key_def parse_show_int)
  ultimately have "i \<in> set (List.map_filter (\<lambda>k. parse_int (drop 4 k)) (rec_keys ''pre:'' s))"
    by (auto simp: in_map_filter)
  with assms show ?thesis by (simp add: allocated_ids_def maxOneTimePreKeyId_def max_safe_integer_def)
qed

lemma rotate_result:
  assumes "rotateOneTimePreKey L pre s = (Inr n, t)"
  obtains i where "currentOneTimePreKeyId s = (Inr i, s)" "i < n" "n \<le> maxOneTimePreKeyId"
    "\<forall>j \<in> set (allocated_ids (rec_keys ''pre:'' s)). j < n"
    "t = rec_set oneTimePreKeyPointer (encode (JNum n)) (rec_set (pre_key n) (pre_new L n pre) s)"
proof -
  from assms obtain i s' where "currentOneTimePreKeyId s = (Inr i, s')"
    and n: "n = foldl max i (allocated_ids (rec_keys ''pre:'' s)) + 1" "n \<le> maxOneTimePreKeyId"
    and t: "t = rec_set oneTimePreKeyPointer (encode (JNum n)) (rec_set (pre_key n) (pre_new L n pre) s')"
    by (auto simp: rotateOneTimePreKey_def andThen_Inr_iff requireRecord_def Let_def split: if_splits)
  moreover from this have "s' = s" using currentOneTime_range by blast
  ultimately show ?thesis
    using that [of i] foldl_max_ge [of i "allocated_ids (rec_keys ''pre:'' s)"] by fastforce
qed

lemma pointer_read [simp]:
  assumes "1 \<le> n" "n \<le> maxOneTimePreKeyId" "rec_get oneTimePreKeyPointer t = Some (encode (JNum n))"
  shows "currentOneTimePreKeyId t = (Inr n, t)"
  using assms json.dec_enc [of "JNum n"] by (simp add: currentOneTimePreKeyId_def andThen_def pointer_id_def)

subsection \<open>A concrete library\<close>

text \<open>
  A toy instance of libsignal: public keys are the private ones, a ciphertext is the plaintext,
  and encrypting reads and saves the session record through the callbacks.
\<close>

definition toy_libsignal :: libsignal where
  "toy_libsignal = \<lparr>native_ok = (\<lambda>_ _. True), public_of = (\<lambda>k. k), kem_public_of = (\<lambda>k. k),
     native_sign = (\<lambda>k m. k @ m), native_verify = (\<lambda>k m sig. sig = k @ m),
     pre_new = (\<lambda>i k. k), pre_id = (\<lambda>_. 1), pre_public = (\<lambda>k. k),
     signed_new = (\<lambda>i t k sig. k), signed_id = (\<lambda>_. 2), signed_public = (\<lambda>k. k), signed_signature = (\<lambda>k. k),
     kyber_new = (\<lambda>i t k sig. k), kyber_id = (\<lambda>_. 3), kyber_public = (\<lambda>k. k), kyber_signature = (\<lambda>k. k),
     process_bundle = (\<lambda>b r self. Call (SaveSession r ''0'') (\<lambda>_. Return ())),
     signal_encrypt = (\<lambda>p r self. Call (SaveSession r ''1'') (\<lambda>_. Return (2, p))),
     decrypt_prekey = (\<lambda>c r self. Return c),
     decrypt_whisper = (\<lambda>c r self. Return c)\<rparr>"

definition toy_peer :: device_address where
  "toy_peer = \<lparr>addr_name = ''peer'', addr_device = 1\<rparr>"

lemma toy_guard [simp]: "send_guard toy_peer ''m1''"
  by (simp add: send_guard_def assertAddress_def assertMessageId_def toy_peer_def utf16_units_def guardR_def)

definition toy_trusted :: records where
  "toy_trusted = [(trust_key toy_peer, ''k'')]"

lemma toy_send: "\<exists>c t. encrypt_message toy_libsignal toy_primitives toy_peer toy_peer ''m1'' ''hi'' toy_trusted = (Inr c, t)"
proof -
  have "rec_get (trust_key toy_peer) toy_trusted = Some ''k''"
    "rec_get (outbox_key toy_peer ''m1'') toy_trusted = None"
    by (simp_all add: toy_trusted_def rec_get_def trust_key_def outbox_key_def)
  then show ?thesis
    by (subst encrypt_unfold [where k = "''k''"])
      (simp_all add: toy_libsignal_def andThen_def Let_def saveSession_def)
qed

subsection \<open>Properties\<close>

text \<open>
  C1. A message id is encrypted once: when \<open>encrypt\<close> has returned a ciphertext, then after any
  sequence of later calls of the client - failed ones rolled back - encrypting the same content
  under the same id returns the same ciphertext and changes nothing, \<open>retry\<close> returns it too, and
  other content under that id is refused.
\<close>

theorem send_once:
  assumes "encrypt_message L P self r m text s = (Inr c, t)" "u = after_calls L P cs t"
  shows "encrypt_message L P self r m text u = (Inr c, u)
    \<and> retry_message r m u = (Inr c, u)
    \<and> (length text' \<le> 65536 \<and> content_hash P m text' \<noteq> content_hash P m text \<longrightarrow>
        encrypt_message L P self r m text' u
          = (Inl (PlainError ''Message id already used with different content''), u))"
proof -
  obtain k where g: "send_guard r m" "rec_get (trust_key r) s = Some k" "native_ok L PublicKeyN k" "length text \<le> 65536"
    by (rule encrypt_guard [OF assms(1)])
  obtain b q where t: "rec_get (outbox_key r m) t = Some b" "decode_outbox b = Inr q"
      "out_contentHash q = content_hash P m text" "c = outgoing q" "rec_get (trust_key r) t = rec_get (trust_key r) s"
    by (rule encrypt_records [OF assms(1)])
  have u: "rec_get (trust_key r) u = Some k" "rec_get (outbox_key r m) u = Some b"
    using after_calls_keep [of "trust_key r" t k] after_calls_keep [of "outbox_key r m" t b] t g(2) assms(2) by simp_all
  have e: "encrypt_message L P self r m x u =
      (if content_hash P m text \<noteq> content_hash P m x
       then (Inl (PlainError ''Message id already used with different content''), u) else (Inr c, u))"
    if "length x \<le> 65536" for x
    using t(2,3,4) u(2) by (simp add: encrypt_unfold [OF g(1) u(1) g(3) that] andThen_def)
  have "retry_message r m u = (Inr c, u)"
    using retry_result [OF g(1) u t(2)] t(4) by simp
  with e [OF g(4)] e [of text'] show ?thesis by auto
qed

theorem send_once_witness:
  "\<exists>c t. encrypt_message toy_libsignal toy_primitives toy_peer toy_peer ''m1'' ''hi'' toy_trusted = (Inr c, t)
    \<and> retry_message toy_peer ''m1'' t = (Inr c, t)"
proof -
  obtain c t where e: "encrypt_message toy_libsignal toy_primitives toy_peer toy_peer ''m1'' ''hi'' toy_trusted = (Inr c, t)"
    using toy_send by blast
  have "t = after_calls toy_libsignal toy_primitives [] t" by (simp add: after_calls_def)
  from send_once [OF e this] e show ?thesis by blast
qed

text \<open>
  C2. A message is received once: when \<open>decrypt\<close> has returned a plaintext for a message id, the
  inbox had no record of it, and after any later calls every ciphertext under that id from that
  sender is refused without changing a record, with \<open>Message already received\<close> unless its own
  argument checks refuse it first.
\<close>

theorem receive_once:
  assumes "decrypt_message L self r msg s = (Inr text, t)" "u = after_calls L P cs t"
    "cipher_id again = cipher_id msg"
  shows "rec_get (inbox_key r (cipher_id msg)) s = None \<and>
    (\<exists>e. decrypt_message L self r again u = (Inl e, u)
      \<and> (length (cipher_body again) \<le> 1048576 \<longrightarrow> e = PlainError ''Message already received''))"
proof -
  have "rec_get (inbox_key r (cipher_id again)) u \<noteq> None"
    using after_calls_keep [OF permanent_names(3) decrypt_records(2) [OF assms(1)]] assms(2,3) by simp
  from decrypt_seen [OF this, of L self] obtain e where e: "decrypt_message L self r again u = (Inl e, u)"
    "assertAddress r = Inr () \<and> assertMessageId (cipher_id again) = Inr () \<and> length (cipher_body again) \<le> 1048576
        \<longrightarrow> e = PlainError ''Message already received''" by blast
  have "assertAddress r = Inr ()" "assertMessageId (cipher_id msg) = Inr ()"
    using assms(1) by (auto simp: decrypt_message_def andThen_Inr_iff)
  with e assms(3) decrypt_records(1) [OF assms(1)] show ?thesis by auto
qed

definition toy_cipher :: stored_ciphertext where
  "toy_cipher = \<lparr>cipher_id = ''m1'', cipher_type = 2, cipher_body = message_payload ''m1'' ''hi''\<rparr>"

lemma toy_payload: "decode (message_payload m text) = Inr (JObj [(''messageId'', JStr m), (''body'', JStr text)])"
  unfolding message_payload_def by (rule json.dec_enc) simp

lemma length_toy_payload: "length (message_payload ''m1'' ''hi'') \<le> 1048576"
proof -
  have "length (message_payload ''m1'' ''hi'') = 30" by code_simp
  then show ?thesis by simp
qed

lemma toy_receive: "\<exists>t. decrypt_message toy_libsignal toy_peer toy_peer toy_cipher [] = (Inr ''hi'', t)"
  using toy_guard toy_payload [of "''m1''" "''hi''"] length_toy_payload
  by (simp add: decrypt_message_def andThen_def send_guard_def toy_cipher_def toy_libsignal_def deserialize_def
      prekey_type_def whisper_type_def rec_get_def)

theorem receive_once_witness:
  "\<exists>t. decrypt_message toy_libsignal toy_peer toy_peer toy_cipher [] = (Inr ''hi'', t)
    \<and> decrypt_message toy_libsignal toy_peer toy_peer toy_cipher t = (Inl (PlainError ''Message already received''), t)"
proof -
  obtain t where d: "decrypt_message toy_libsignal toy_peer toy_peer toy_cipher [] = (Inr ''hi'', t)"
    using toy_receive by blast
  have "t = after_calls toy_libsignal toy_primitives [] t" by (simp add: after_calls_def)
  from receive_once [OF d this refl] d length_toy_payload show ?thesis by (auto simp: toy_cipher_def)
qed

text \<open>
  C12. Trust, identity, device, outbox and inbox records are written once: no sequence of client
  calls - library callbacks included - changes or deletes one that exists. In particular an
  approved remote identity is never replaced, and \<open>approveRemote\<close> with another key fails.
\<close>

theorem client_records_permanent:
  assumes "rec_get k s = Some v"
    "k \<in> {trust_key a, outbox_key a m, inbox_key a m, ''device'', ''identity''}"
  shows "rec_get k (after_calls L P cs s) = Some v
    \<and> (k = trust_key a \<and> native_ok L PublicKeyN v \<and> native_ok L PublicKeyN key \<and> key \<noteq> v
         \<and> assertAddress a = Inr () \<longrightarrow>
       approveRemote L a key (after_calls L P cs s)
         = (Inl (PlainError ''Remote identity changed; explicit re-verification and session reset required''),
            after_calls L P cs s))"
proof -
  have p: "permanent_key k" using assms(2) by auto
  from after_calls_keep [OF p assms(1)] show ?thesis
    by (auto simp: approveRemote_def andThen_def deserialize_def getIdentity_result)
qed

theorem client_records_permanent_witness:
  "rec_get (trust_key toy_peer) (after_calls toy_libsignal toy_primitives
     [CallApprove toy_peer ''other'', CallEncrypt toy_peer toy_peer ''m1'' ''hi''] toy_trusted) = Some ''k''"
proof -
  have "rec_get (trust_key toy_peer) toy_trusted = Some ''k''" by (simp add: toy_trusted_def rec_get_def)
  from client_records_permanent [OF this, of toy_peer "''m1''"] show ?thesis by blast
qed

text \<open>
  A rotated one-time prekey is fresh: the new id is greater than the pointer and than every
  prekey id with a record, it is at most the 24-bit bound, no record existed under it, the offered
  bundle points at it afterwards, and every other record - all earlier prekeys included - is kept.
\<close>

theorem rotated_prekey_fresh:
  assumes "rotateOneTimePreKey L pre s = (Inr n, t)"
  shows "1 < n \<and> n \<le> maxOneTimePreKeyId
    \<and> rec_get (pre_key n) s = None \<and> rec_get (pre_key n) t = Some (pre_new L n pre)
    \<and> currentOneTimePreKeyId t = (Inr n, t)
    \<and> (k = pre_key n \<or> k = oneTimePreKeyPointer \<or> rec_get k t = rec_get k s)"
proof -
  obtain i where i: "currentOneTimePreKeyId s = (Inr i, s)" "i < n" "n \<le> maxOneTimePreKeyId"
      "\<forall>j \<in> set (allocated_ids (rec_keys ''pre:'' s)). j < n"
      "t = rec_set oneTimePreKeyPointer (encode (JNum n)) (rec_set (pre_key n) (pre_new L n pre) s)"
    by (rule rotate_result [OF assms])
  have n: "1 < n" using currentOneTime_range [OF i(1)] i(2) by simp
  have "rec_get (pre_key n) s = None"
    using allocated_present [of n s] i(3,4) n by fastforce
  moreover have "pre_key n \<noteq> oneTimePreKeyPointer"
    by (auto simp: pre_key_def oneTimePreKeyPointer_def)
  moreover have "rec_get oneTimePreKeyPointer t = Some (encode (JNum n))" using i(5) by simp
  ultimately show ?thesis using n i(3,5) by auto
qed

lemma toy_rotate: "\<exists>t. rotateOneTimePreKey toy_libsignal ''x'' [(''identity'', ''i''), (''pre:1'', ''p'')] = (Inr 2, t)"
proof -
  have "allocated_ids (rec_keys ''pre:'' [(''identity'', ''i''), (''pre:1'', ''p'')]) = [1]" by code_simp
  then show ?thesis
    by (simp add: rotateOneTimePreKey_def andThen_def requireRecord_def currentOneTimePreKeyId_def rec_get_def
        oneTimePreKeyPointer_def maxOneTimePreKeyId_def Let_def)
qed

theorem rotated_prekey_fresh_witness:
  "\<exists>t. rotateOneTimePreKey toy_libsignal ''x'' [(''identity'', ''i''), (''pre:1'', ''p'')] = (Inr 2, t)
     \<and> currentOneTimePreKeyId t = (Inr 2, t)"
  using toy_rotate rotated_prekey_fresh by metis

text \<open>
  C4. A session is opened only to an explicitly approved identity and never over an existing one:
  when \<open>establish\<close> succeeds, the approved key of that address is the bundle's identity key, the
  bundle is for that device, and no session record existed.
\<close>

theorem establish_requires_trust:
  assumes "establish L self r b s = (Inr u, t)"
  shows "rec_get (trust_key r) s = Some (b_identityKey b) \<and> b_deviceId b = addr_device r
    \<and> rec_get (session_key r) s = None \<and> rec_get (trust_key r) t = Some (b_identityKey b)"
proof -
  from assms have d: "b_deviceId b = addr_device r"
    and k: "rec_get (trust_key r) s = Some (b_identityKey b)"
    and n: "rec_get (session_key r) s = None"
    and run: "run_prog L (process_bundle L b r self) s = (Inr u, t)"
    by (auto simp: establish_def andThen_Inr_iff isTrustedIdentity_def getIdentity_result getSession_def
        bindR_Inr_iff split: if_splits option.splits)
  with run_frame [OF run, of "trust_key r"] show ?thesis by simp
qed

definition toy_bundle :: prekey_bundle where
  "toy_bundle = \<lparr>b_registrationId = 5, b_deviceId = 1, b_preKey = None, b_signedId = 2, b_signedPublic = ''s'',
     b_signedSignature = ''g'', b_identityKey = ''k'', b_kyberId = 3, b_kyberPublic = ''y'', b_kyberSignature = ''z''\<rparr>"

lemma toy_establish: "\<exists>t. establish toy_libsignal toy_peer toy_peer toy_bundle toy_trusted = (Inr (), t)"
  using toy_guard
  by (simp add: establish_def andThen_def send_guard_def toy_bundle_def toy_trusted_def isTrustedIdentity_def
      getIdentity_result getSession_def toy_libsignal_def toy_peer_def rec_get_def trust_key_def session_key_def
      saveSession_def)

theorem establish_requires_trust_witness:
  "\<exists>t. establish toy_libsignal toy_peer toy_peer toy_bundle toy_trusted = (Inr (), t)
    \<and> rec_get (trust_key toy_peer) t = Some ''k''"
proof -
  obtain t where e: "establish toy_libsignal toy_peer toy_peer toy_bundle toy_trusted = (Inr (), t)"
    using toy_establish by blast
  have "b_identityKey toy_bundle = ''k''" by (simp add: toy_bundle_def)
  with establish_requires_trust [OF e] e show ?thesis by auto
qed

end
