(* ===== verification/Wire.thy ===== *)
theory Wire
  imports SignalClient
begin

text \<open>
  \<open>packages/session-node/src/wire.ts\<close>: exporting the signed second-generation bundle of a client
  and importing one against an expected contact. The random bundle id and the clock are arguments.
\<close>

definition copyJson :: "json \<Rightarrow> json result" where
  "copyJson v = decode (stringify v)"

definition requireDeviceSignature :: "primitives \<Rightarrow> json \<Rightarrow> unit result" where
  "requireDeviceSignature P record =
     bindR (decodeBase64Url (str_prop record ''identity_id'')) (\<lambda>root.
     bindR (verifyCanonicalJson P record (str_prop record ''signature'') root) (\<lambda>ok.
       guardR ok (PlainError ''Invalid root signature on DeviceRecord'')))"

text \<open>The native bundle built from an accepted wire bundle.\<close>

definition native_bundle :: "libsignal \<Rightarrow> int \<Rightarrow> json \<Rightarrow> prekey_bundle result" where
  "native_bundle L device wire =
     (let signed = jprop wire ''signed_prekey''; kyber = jprop wire ''kyber_prekey'';
          oneTime = jprop wire ''one_time_prekey'' in
      bindR (bindR (decodeBase64Url (str_prop wire ''signal_identity_key'')) (deserialize L PublicKeyN)) (\<lambda>identity.
      bindR (decodeBase64Url (str_prop signed ''public_key'')) (\<lambda>signedPub.
      bindR (decodeBase64Url (str_prop signed ''signature'')) (\<lambda>signedSig.
      bindR (decodeBase64Url (str_prop kyber ''public_key'')) (\<lambda>kyberPub.
      bindR (decodeBase64Url (str_prop kyber ''signature'')) (\<lambda>kyberSig.
      bindR (guardR (native_verify L identity signedPub signedSig \<and> native_verify L identity kyberPub kyberSig)
               (PlainError ''Invalid native prekey signature'')) (\<lambda>_.
      bindR (if oneTime = JNull then Inr None
             else bindR (bindR (decodeBase64Url (str_prop oneTime ''public_key'')) (deserialize L PublicKeyN)) (\<lambda>k.
                    Inr (Some (num_prop oneTime ''key_id'', k)))) (\<lambda>pre.
      bindR (deserialize L PublicKeyN signedPub) (\<lambda>signedKey.
      bindR (deserialize L KemPublicKeyN kyberPub) (\<lambda>kyberKey.
        Inr \<lparr>b_registrationId = num_prop wire ''registration_id'', b_deviceId = device, b_preKey = pre,
             b_signedId = num_prop signed ''key_id'', b_signedPublic = signedKey, b_signedSignature = signedSig,
             b_identityKey = identity,
             b_kyberId = num_prop kyber ''key_id'', b_kyberPublic = kyberKey, b_kyberSignature = kyberSig\<rparr>))))))))))"

definition bundle_current :: "json \<Rightarrow> int \<Rightarrow> bool" where
  "bundle_current wire now \<longleftrightarrow>
     0 \<le> now \<and> now \<le> max_safe_integer
     \<and> num_prop wire ''created_at_ms'' \<le> now \<and> now < num_prop wire ''expires_at_ms''
     \<and> num_prop (jprop wire ''device_record'') ''created_at_ms'' \<le> num_prop wire ''created_at_ms''"

definition importVerifiedSignalBundleV2 ::
  "libsignal \<Rightarrow> primitives \<Rightarrow> json \<Rightarrow> string \<Rightarrow> string \<Rightarrow> int \<Rightarrow> (device_address \<times> prekey_bundle) result"
where
  "importVerifiedSignalBundleV2 L P input identityId deviceId now =
     bindR (signalAddressForDevice identityId deviceId) (\<lambda>(name, device).
     bindR (of_option (PlainError ''ZodError'') (zparse SignalPreKeyBundleV2Schema input)) (\<lambda>parsed.
     bindR (copyJson parsed) (\<lambda>wire.
       let record = jprop wire ''device_record'' in
       bindR (guardR (str_prop record ''identity_id'' = identityId \<and> str_prop record ''device_id'' = deviceId)
                (PlainError ''Bundle does not match expected contact'')) (\<lambda>_.
       bindR (guardR (bundle_current wire now) (PlainError ''Bundle is not currently valid'')) (\<lambda>_.
       bindR (requireDeviceSignature P record) (\<lambda>_.
       bindR (signalBundleV2SigningText wire) (\<lambda>text.
       bindR (decodeBase64Url (str_prop record ''device_pubkey'')) (\<lambda>devicePub.
       bindR (verifyUtf8Message P text (str_prop wire ''signature'') (KeyBytes devicePub)) (\<lambda>ok.
       bindR (guardR ok (PlainError ''Invalid device signature on Signal bundle'')) (\<lambda>_.
       bindR (native_bundle L device wire) (\<lambda>bundle.
         Inr (\<lparr>addr_name = name, addr_device = device\<rparr>, bundle))))))))))))"

definition key_json :: "int \<Rightarrow> bytes \<Rightarrow> bytes \<Rightarrow> json" where
  "key_json i k sig = JObj [(''key_id'', JNum i), (''public_key'', JStr (encodeBase64Url k)),
     (''signature'', JStr (encodeBase64Url sig))]"

definition wire_of_bundle :: "prekey_bundle \<Rightarrow> string \<Rightarrow> json \<Rightarrow> int \<Rightarrow> int \<Rightarrow> json" where
  "wire_of_bundle b bundleId record created expires = JObj
     [(''type'', JStr ''signal_prekey_bundle''), (''version'', JNum 2), (''suite'', JStr ''libsignal-pq-v1''),
      (''bundle_id'', JStr bundleId), (''device_record'', record),
      (''created_at_ms'', JNum created), (''expires_at_ms'', JNum expires),
      (''registration_id'', JNum (b_registrationId b)),
      (''signal_identity_key'', JStr (encodeBase64Url (b_identityKey b))),
      (''signed_prekey'', key_json (b_signedId b) (b_signedPublic b) (b_signedSignature b)),
      (''kyber_prekey'', key_json (b_kyberId b) (b_kyberPublic b) (b_kyberSignature b)),
      (''one_time_prekey'',
         (case b_preKey b of None \<Rightarrow> JNull
          | Some (i, k) \<Rightarrow> JObj [(''key_id'', JNum i), (''public_key'', JStr (encodeBase64Url k))])),
      (''signature'', JStr (encodeBase64Url (replicate 64 (char_of (0 :: nat)))))]"

fun set_prop :: "json \<Rightarrow> string \<Rightarrow> json \<Rightarrow> json" where
  "set_prop (JObj kvs) k v = JObj (obj_put k v kvs)"
| "set_prop w k v = w"

definition seven_days :: int where
  "seven_days = 7 * 24 * 60 * 60 * 1000"

text \<open>
  The client is given by its address; \<open>createdAt\<close> and \<open>expiresAt\<close> are the optional options.
\<close>

definition exportSignedSignalBundleV2 ::
  "libsignal \<Rightarrow> primitives \<Rightarrow> device_address \<Rightarrow> json \<Rightarrow> bytes \<Rightarrow> int option \<Rightarrow> int option \<Rightarrow> int \<Rightarrow> string
     \<Rightarrow> json tx"
where
  "exportSignedSignalBundleV2 L P self deviceRecord secret createdAt expiresAt now bundleId =
     (let created = (case createdAt of Some t \<Rightarrow> t | None \<Rightarrow> now);
          expires = (case expiresAt of Some t \<Rightarrow> t | None \<Rightarrow> created + seven_days) in
      andThen (lift (copyJson deviceRecord)) (\<lambda>record.
      andThen (lift (signalAddressForDevice (str_prop record ''identity_id'') (str_prop record ''device_id''))) (\<lambda>(name, device).
        if addr_name self \<noteq> name \<or> addr_device self \<noteq> device
        then raise (PlainError ''Local Signal address does not match DeviceRecord'')
        else
          andThen (lift (requireDeviceSignature P record)) (\<lambda>_.
          andThen (publicBundle L self) (\<lambda>bundle.
          andThen (lift (bindR (of_option (PlainError ''ZodError'')
                     (zparse SignalPreKeyBundleV2Schema (wire_of_bundle bundle bundleId record created expires))) (\<lambda>unsigned.
                   bindR (signalBundleV2SigningText unsigned) (\<lambda>text.
                   bindR (signUtf8Message P text (KeyBytes secret)) (\<lambda>sig.
                     let wire = set_prop unsigned ''signature'' (JStr sig) in
                     bindR (importVerifiedSignalBundleV2 L P wire (str_prop record ''identity_id'')
                              (str_prop record ''device_id'') created) (\<lambda>_.
                       Inr wire)))))) (\<lambda>wire.
            ret wire))))))"

subsection \<open>What an import accepted\<close>

lemma wf_bundle_schema: "wf_schema SignalPreKeyBundleV2Schema"
  by (simp add: SignalPreKeyBundleV2Schema_def bundle_v2_fields_def literal_text_def literal_number_def
      lower_uuid_def timestamp_def keyId_def signature_string_def ecKey_def originalSignedDevice_def)

lemma copy_parsed:
  assumes "wf_json b" "zparse SignalPreKeyBundleV2Schema b = Some v" "copyJson v = Inr w"
  shows "w = v" "accepted_bundle v v"
proof -
  have v: "wf_json v" "zparse SignalPreKeyBundleV2Schema v = Some v"
    using zparse_idem [OF wf_bundle_schema assms(1,2)] by simp_all
  with assms(3) json.dec_enc [OF v(1)] show "w = v" by (simp add: copyJson_def)
  from v(2) show "accepted_bundle v v" by (simp add: accepted_bundle_def)
qed

lemma import_facts:
  assumes "importVerifiedSignalBundleV2 L P b i d now = Inr (a, nb)" "wf_json b"
  obtains v pk msg where "zparse SignalPreKeyBundleV2Schema b = Some v" "accepted_bundle v v"
    "str_prop (jprop v ''device_record'') ''identity_id'' = i" "str_prop (jprop v ''device_record'') ''device_id'' = d"
    "bundle_current v now" "requireDeviceSignature P (jprop v ''device_record'') = Inr ()"
    "signalBundleV2SigningText v = Inr msg"
    "decodeBase64Url (str_prop (jprop v ''device_record'') ''device_pubkey'') = Inr pk"
    "verifyUtf8Message P msg (str_prop v ''signature'') (KeyBytes pk) = Inr True"
    "native_bundle L 1 v = Inr nb" "a = \<lparr>addr_name = stringify (JArr [JStr i, JStr d]), addr_device = 1\<rparr>"
proof -
  from assms(1) obtain parsed wire pk msg where
    p: "zparse SignalPreKeyBundleV2Schema b = Some parsed" "copyJson parsed = Inr wire" and
    r: "str_prop (jprop wire ''device_record'') ''identity_id'' = i" "str_prop (jprop wire ''device_record'') ''device_id'' = d"
    "bundle_current wire now" "requireDeviceSignature P (jprop wire ''device_record'') = Inr ()"
    "signalBundleV2SigningText wire = Inr msg"
    "decodeBase64Url (str_prop (jprop wire ''device_record'') ''device_pubkey'') = Inr pk"
    "verifyUtf8Message P msg (str_prop wire ''signature'') (KeyBytes pk) = Inr True"
    "native_bundle L 1 wire = Inr nb" "a = \<lparr>addr_name = stringify (JArr [JStr i, JStr d]), addr_device = 1\<rparr>"
    by (auto simp: importVerifiedSignalBundleV2_def signalAddressForDevice_def bindR_Inr_iff Let_def
        simp del: stringify.simps)
  with copy_parsed [OF assms(2) p] that [of parsed msg pk] show ?thesis by simp
qed

lemma native_bundle_covered:
  assumes "list_all (\<lambda>k. jprop v k = jprop w k) covered"
  shows "native_bundle L dev v = native_bundle L dev w"
  using assms by (simp add: native_bundle_def covered_def str_prop_def num_prop_def Let_def)

subsection \<open>Properties\<close>

text \<open>
  C3. An imported bundle is authentic and current: the device record is the expected contact's
  and carries that identity's root signature, the device key of that record signed the bundle's
  signing text, both native prekey signatures verify under the bundle's identity key, the bundle
  is inside its validity window, and the returned address is the contact's.
\<close>

theorem import_verifies:
  assumes "importVerifiedSignalBundleV2 L P b i d now = Inr (a, nb)" "wf_json b"
  shows "\<exists>v root pk msg. zparse SignalPreKeyBundleV2Schema b = Some v
    \<and> (let record = jprop v ''device_record'' in
       str_prop record ''identity_id'' = i \<and> str_prop record ''device_id'' = d
       \<and> decodeBase64Url i = Inr root
       \<and> verifyCanonicalJson P record (str_prop record ''signature'') root = Inr True
       \<and> decodeBase64Url (str_prop record ''device_pubkey'') = Inr pk
       \<and> num_prop record ''created_at_ms'' \<le> num_prop v ''created_at_ms'')
    \<and> signalBundleV2SigningText b = Inr msg
    \<and> verifyUtf8Message P msg (str_prop v ''signature'') (KeyBytes pk) = Inr True
    \<and> num_prop v ''created_at_ms'' \<le> now \<and> now < num_prop v ''expires_at_ms''
    \<and> native_verify L (b_identityKey nb) (b_signedPublic nb) (b_signedSignature nb)
    \<and> native_verify L (b_identityKey nb) (b_kyberPublic nb) (b_kyberSignature nb)
    \<and> addr_name a = stringify (JArr [JStr i, JStr d]) \<and> addr_device a = 1"
proof -
  obtain v pk msg where v: "zparse SignalPreKeyBundleV2Schema b = Some v" "accepted_bundle v v"
    "str_prop (jprop v ''device_record'') ''identity_id'' = i" "str_prop (jprop v ''device_record'') ''device_id'' = d"
    "bundle_current v now" "requireDeviceSignature P (jprop v ''device_record'') = Inr ()"
    "signalBundleV2SigningText v = Inr msg"
    "decodeBase64Url (str_prop (jprop v ''device_record'') ''device_pubkey'') = Inr pk"
    "verifyUtf8Message P msg (str_prop v ''signature'') (KeyBytes pk) = Inr True"
    "native_bundle L 1 v = Inr nb" "a = \<lparr>addr_name = stringify (JArr [JStr i, JStr d]), addr_device = 1\<rparr>"
    by (rule import_facts [OF assms])
  from v(3,6) obtain root where "decodeBase64Url i = Inr root"
    "verifyCanonicalJson P (jprop v ''device_record'') (str_prop (jprop v ''device_record'') ''signature'') root = Inr True"
    by (auto simp: requireDeviceSignature_def bindR_Inr_iff)
  moreover have "native_verify L (b_identityKey nb) (b_signedPublic nb) (b_signedSignature nb)"
    "native_verify L (b_identityKey nb) (b_kyberPublic nb) (b_kyberSignature nb)"
    using v(10) by (auto simp: native_bundle_def bindR_Inr_iff deserialize_def Let_def split: if_splits)
  moreover have "signalBundleV2SigningText b = Inr msg"
    using v(1,2,7) by (simp add: signalBundleV2SigningText_def accepted_bundle_def)
  ultimately show ?thesis using v by (auto simp: bundle_current_def Let_def)
qed

text \<open>
  C9. A bundle cannot be altered in transit: when the signature of an imported bundle verifies
  only over the signing text of the device's own bundle, the import gives exactly the native
  prekey bundle and the device record of the device's own, whatever else was changed on the way,
  or it fails.
\<close>

theorem imported_bundle_is_the_signed_one:
  assumes "importVerifiedSignalBundleV2 L P b i d now = Inr (a, nb)" "wf_json b"
    "zparse SignalPreKeyBundleV2Schema b = Some v" "zparse SignalPreKeyBundleV2Schema own = Some w"
    "signalBundleV2SigningText own = Inr msg"
    "decodeBase64Url (str_prop (jprop v ''device_record'') ''device_pubkey'') = Inr pk"
    "\<And>m. verifyUtf8Message P m (str_prop v ''signature'') (KeyBytes pk) = Inr True \<Longrightarrow> m = msg"
  shows "native_bundle L 1 w = Inr nb
    \<and> zparse signedDevice (jprop v ''device_record'') = zparse signedDevice (jprop w ''device_record'')"
proof -
  obtain v' pk' msg' where v': "zparse SignalPreKeyBundleV2Schema b = Some v'" "accepted_bundle v' v'"
    "str_prop (jprop v' ''device_record'') ''identity_id'' = i" "str_prop (jprop v' ''device_record'') ''device_id'' = d"
    "bundle_current v' now" "requireDeviceSignature P (jprop v' ''device_record'') = Inr ()"
    "signalBundleV2SigningText v' = Inr msg'"
    "decodeBase64Url (str_prop (jprop v' ''device_record'') ''device_pubkey'') = Inr pk'"
    "verifyUtf8Message P msg' (str_prop v' ''signature'') (KeyBytes pk') = Inr True"
    "native_bundle L 1 v' = Inr nb" "a = \<lparr>addr_name = stringify (JArr [JStr i, JStr d]), addr_device = 1\<rparr>"
    by (rule import_facts [OF assms(1,2)])
  have e: "v' = v" "pk' = pk" using v'(1,8) assms(3,6) by simp_all
  have "msg' = msg" using assms(7) v'(9) e by simp
  then have s: "stringify (signing_value v) = stringify (signing_value w)"
    using v'(2,7) assms(4,5) e by (simp add: signalBundleV2SigningText_def accepted_bundle_def)
  have acc: "accepted_bundle v v" "accepted_bundle own w" using v'(2) e assms(4) by (simp_all add: accepted_bundle_def)
  from s json.enc_inj_iff [OF signing_wf [OF acc(1)] signing_wf [OF acc(2)]]
  have "signing_value v = signing_value w" by simp
  then have "list_all (\<lambda>k. jprop v k = jprop w k) covered
      \<and> zparse signedDevice (jprop v ''device_record'') = zparse signedDevice (jprop w ''device_record'')"
    using signing_value_iff [OF acc] by simp
  with native_bundle_covered v'(10) e show ?thesis by metis
qed

text \<open>The sample bundle imports under primitives that accept exactly its two signatures.\<close>

definition sample_text :: string where
  "sample_text = stringify (signing_value (sample_bundle CHR ''a'' 7))"

definition toy_signed :: primitives where
  "toy_signed = toy_primitives\<lparr>verify_detached :=
     (\<lambda>m sig pk. Inr (sig = replicate 64 CHR ''s'' \<or> m = sample_text))\<rparr>"

definition toy_native :: libsignal where
  "toy_native = toy_libsignal\<lparr>native_verify := (\<lambda>_ _ _. True)\<rparr>"

definition sample_identity :: string where
  "sample_identity = encodeBase64Url (replicate 32 CHR ''k'')"

lemma sample_props [simp]:
  "jprop (sample_bundle c r) ''device_record'' = sample_device"
  "str_prop sample_device ''identity_id'' = sample_identity"
  "str_prop sample_device ''device_pubkey'' = sample_identity"
  "str_prop sample_device ''device_id'' = sample_uuid"
  "str_prop sample_device ''signature'' = encodeBase64Url (replicate 64 CHR ''s'')"
  "str_prop (sample_bundle c r) ''signature'' = encodeBase64Url (replicate 64 c)"
  "bundle_current (sample_bundle c r) 6"
  by (simp_all add: sample_bundle_def sample_device_def str_prop_def num_prop_def sample_key_def sample_identity_def
      bundle_current_def max_safe_integer_def)

lemma sample_wf [simp]: "wf_json (sample_bundle c r)"
  by (simp add: sample_bundle_def sample_device_def sample_key_def)

lemma sample_native: "\<exists>nb. native_bundle toy_native 1 (sample_bundle c r) = Inr nb"
  by (simp add: native_bundle_def sample_bundle_def sample_key_def str_prop_def deserialize_def Let_def
      toy_native_def toy_libsignal_def)

lemma sample_signing_text: "signalBundleV2SigningText (sample_bundle CHR ''a'' 7) = Inr sample_text"
  by (simp add: signalBundleV2SigningText_def sample_text_def del: stringify.simps)

lemma sample_import:
  "\<exists>a nb. importVerifiedSignalBundleV2 toy_native toy_signed (sample_bundle CHR ''a'' 7) sample_identity sample_uuid 6 = Inr (a, nb)"
proof -
  have "requireDeviceSignature toy_signed sample_device = Inr ()"
    by (simp add: requireDeviceSignature_def sample_identity_def verifyCanonicalJson_def verifyUtf8Message_def toy_signed_def
        del: canonicalJson.simps)
  moreover have "copyJson (sample_bundle CHR ''a'' 7) = Inr (sample_bundle CHR ''a'' 7)"
    unfolding copyJson_def by (rule json.dec_enc) simp
  moreover have "signalAddressForDevice sample_identity sample_uuid
      = Inr (stringify (JArr [JStr sample_identity, JStr sample_uuid]), 1)"
    by (simp add: signalAddressForDevice_def sample_identity_def del: stringify.simps)
  moreover have "verifyUtf8Message toy_signed sample_text (encodeBase64Url (replicate 64 c)) (KeyBytes pk) = Inr True" for c pk
    by (simp add: verifyUtf8Message_def toy_signed_def)
  moreover have "decodeBase64Url sample_identity = Inr (replicate 32 CHR ''k'')" by (simp add: sample_identity_def)
  ultimately show ?thesis
    using sample_native [of "CHR ''a''" 7] sample_signing_text
    by (auto simp: importVerifiedSignalBundleV2_def Let_def simp del: stringify.simps)
qed

theorem import_verifies_witness:
  "\<exists>a nb. importVerifiedSignalBundleV2 toy_native toy_signed (sample_bundle CHR ''a'' 7) sample_identity sample_uuid 6 = Inr (a, nb)
     \<and> addr_device a = 1"
proof -
  obtain a nb where i: "importVerifiedSignalBundleV2 toy_native toy_signed (sample_bundle CHR ''a'' 7) sample_identity sample_uuid 6 = Inr (a, nb)"
    using sample_import by blast
  from import_verifies [OF i sample_wf] i show ?thesis by blast
qed

theorem imported_bundle_is_the_signed_one_witness:
  "\<exists>a nb. importVerifiedSignalBundleV2 toy_native toy_signed (sample_bundle CHR ''a'' 7) sample_identity sample_uuid 6 = Inr (a, nb)
     \<and> native_bundle toy_native 1 (sample_bundle CHR ''z'' 7) = Inr nb"
proof -
  obtain a nb where i: "importVerifiedSignalBundleV2 toy_native toy_signed (sample_bundle CHR ''a'' 7) sample_identity sample_uuid 6 = Inr (a, nb)"
    using sample_import by blast
  have acc: "zparse SignalPreKeyBundleV2Schema (sample_bundle c 7) = Some (sample_bundle c 7)" for c by simp
  have own: "signalBundleV2SigningText (sample_bundle CHR ''z'' 7) = Inr sample_text"
  proof -
    have "signing_value (sample_bundle CHR ''z'' 7) = signing_value (sample_bundle CHR ''a'' 7)"
      by (simp add: signing_value_def sample_bundle_def Let_def)
    then show ?thesis by (simp add: signalBundleV2SigningText_def sample_text_def del: stringify.simps)
  qed
  have "native_bundle toy_native 1 (sample_bundle CHR ''z'' 7) = Inr nb"
  proof (rule conjunct1 [OF imported_bundle_is_the_signed_one [OF i sample_wf acc acc own, where pk = "replicate 32 CHR ''k''"]])
    show "decodeBase64Url (str_prop (jprop (sample_bundle CHR ''a'' 7) ''device_record'') ''device_pubkey'') = Inr (replicate 32 CHR ''k'')"
      by (simp add: sample_identity_def)
    have "replicate 64 CHR ''a'' \<noteq> replicate 64 CHR ''s''" by simp
    then show "m = sample_text" if "verifyUtf8Message toy_signed m (str_prop (sample_bundle CHR ''a'' 7) ''signature'')
        (KeyBytes (replicate 32 CHR ''k'')) = Inr True" for m
      using that by (simp add: verifyUtf8Message_def toy_signed_def)
  qed
  with i show ?thesis by blast
qed

end
