(* ===== verification/Identity.thy ===== *)
theory Identity
  imports Wire
begin

text \<open>
  \<open>packages/client-core/src/identity\<close>: the identity derived from a seed, the device record signed
  by its root key and the first-generation prekey bundle. The name-based and time-based UUIDs and
  the random seed come from third-party code: \<open>uuid5\<close>, the fresh bundle id and the fresh seed are
  arguments, and so is the clock.
\<close>

subsection \<open>The profile\<close>

record identity_profile =
  identityId :: string
  identityPubKey :: string
  identitySecretKey :: string
  deviceId :: string
  devicePubKey :: string
  deviceSecretKey :: string
  sessionPubKey :: string
  sessionSecretKey :: string
  callsign :: string
  seed :: string

record profile_options =
  opt_seed :: "string option"
  opt_suffix :: "string option"
  opt_deviceLabel :: "string option"

datatype profile_argument = NoArgument | SuffixOnly string | Options profile_options

fun argument_options :: "profile_argument \<Rightarrow> profile_options" where
  "argument_options NoArgument = \<lparr>opt_seed = None, opt_suffix = None, opt_deviceLabel = None\<rparr>"
| "argument_options (SuffixOnly s) = \<lparr>opt_seed = None, opt_suffix = Some s, opt_deviceLabel = None\<rparr>"
| "argument_options (Options r) = r"

definition or_default :: "'a \<Rightarrow> 'a option \<Rightarrow> 'a" where
  "or_default d x = (case x of None \<Rightarrow> d | Some v \<Rightarrow> v)"

text \<open>\<open>slice(-4, -2)\<close>: the positions count from the end and stop at the beginning.\<close>

definition slice_end :: "nat \<Rightarrow> nat \<Rightarrow> string \<Rightarrow> string" where
  "slice_end a b s = take ((length s - b) - (length s - a)) (drop (length s - a) s)"

definition generateCallsign :: "string \<Rightarrow> string option \<Rightarrow> string" where
  "generateCallsign identityPub sfx =
     (let s = or_default [] sfx in
      ''AD-'' @ slice_end 4 2 identityPub @ ''-'' @ (if s = [] then ''GEN'' else s))"

definition createIdentityProfile ::
  "primitives \<Rightarrow> (string \<Rightarrow> string) \<Rightarrow> string \<Rightarrow> profile_argument \<Rightarrow> identity_profile"
where
  "createIdentityProfile P uuid5 fresh_seed arg =
     (let options = argument_options arg;
          seed = or_default fresh_seed (opt_seed options);
          deviceLabel = or_default ''mobile-device'' (opt_deviceLabel options);
          identityKeys = deriveKeyPairFromSeed P seed ''identity'';
          deviceKeys = deriveKeyPairFromSeed P seed (''device:'' @ deviceLabel);
          sessionKeys = deriveSessionKeyPairFromSeed P seed (''device:'' @ deviceLabel)
      in \<lparr>identityId = publicKey identityKeys, identityPubKey = publicKey identityKeys,
          identitySecretKey = secretKey identityKeys,
          deviceId = uuid5 (seed @ '':'' @ deviceLabel),
          devicePubKey = publicKey deviceKeys, deviceSecretKey = secretKey deviceKeys,
          sessionPubKey = publicKey sessionKeys, sessionSecretKey = secretKey sessionKeys,
          callsign = generateCallsign (publicKey identityKeys) (opt_suffix options),
          seed = seed\<rparr>)"

subsection \<open>The signed device record\<close>

text \<open>A property whose value is undefined is left out of what \<open>JSON.stringify\<close> prints.\<close>

definition device_record_fields ::
  "string \<Rightarrow> string \<Rightarrow> string \<Rightarrow> string option \<Rightarrow> int \<Rightarrow> (string \<times> json) list"
where
  "device_record_fields identity device pubkey label now =
     [(''type'', JStr ''device_record''), (''version'', JNum 1), (''identity_id'', JStr identity),
      (''device_id'', JStr device), (''device_pubkey'', JStr pubkey)]
     @ (case label of None \<Rightarrow> [] | Some l \<Rightarrow> [(''device_label'', JStr l)])
     @ [(''capabilities'', JObj [(''mailbox_poll'', JBool True), (''receipts'', JBool True), (''attachments'', JBool False)]),
        (''created_at_ms'', JNum now)]"

definition createSignedDeviceRecord ::
  "primitives \<Rightarrow> string \<Rightarrow> string \<Rightarrow> string \<Rightarrow> string \<Rightarrow> string option \<Rightarrow> int \<Rightarrow> json result"
where
  "createSignedDeviceRecord P identity device pubkey identitySecret label now =
     (let record = device_record_fields identity device pubkey label now in
      bindR (decodeBase64Url identitySecret) (\<lambda>secret.
      bindR (signCanonicalJson P (JObj record) secret) (\<lambda>signature.
        Inr (JObj (record @ [(''signature'', JStr signature)])))))"

subsection \<open>The first-generation prekey bundle\<close>

definition one_time_key :: "primitives \<Rightarrow> string \<Rightarrow> nat \<Rightarrow> json" where
  "one_time_key P sd index =
     (let keyId = ''otk-'' @ padStart 3 (CHR ''0'') (show_nat (index + 1)) in
      JObj [(''key_id'', JStr keyId), (''public_key'', JStr (publicKey (deriveSessionKeyPairFromSeed P sd keyId)))])"

definition signed_prekey_json :: "string \<Rightarrow> int \<Rightarrow> string \<Rightarrow> json" where
  "signed_prekey_json pub created signature = JObj
     [(''key_id'', JStr ''spk-001''), (''public_key'', JStr pub), (''created_at_ms'', JNum created),
      (''expires_at_ms'', JNum (created + seven_days)), (''signature'', JStr signature)]"

definition bundle_v1_json ::
  "identity_profile \<Rightarrow> string \<Rightarrow> json \<Rightarrow> json list \<Rightarrow> int \<Rightarrow> string \<Rightarrow> json"
where
  "bundle_v1_json p bundleId signedPreKey oneTimePreKeys created signature = JObj
     [(''type'', JStr ''prekey_bundle''), (''version'', JNum 1), (''bundle_id'', JStr bundleId),
      (''identity_id'', JStr (identityId p)), (''device_id'', JStr (deviceId p)),
      (''device_pubkey'', JStr (devicePubKey p)), (''signed_prekey'', signedPreKey),
      (''one_time_prekeys'', JArr oneTimePreKeys), (''created_at_ms'', JNum created),
      (''signature'', JStr signature)]"

definition createSignedPreKeyBundle ::
  "primitives \<Rightarrow> string \<Rightarrow> int \<Rightarrow> identity_profile \<Rightarrow> int option \<Rightarrow> int option \<Rightarrow> json result"
where
  "createSignedPreKeyBundle P uuid7 now p oneTimePreKeyCount createdAtMs =
     (let created = or_default now createdAtMs; count = or_default 5 oneTimePreKeyCount in
      bindR (decodeBase64Url (deviceSecretKey p)) (\<lambda>deviceSecret.
      bindR (signCanonicalJson P (signed_prekey_json (sessionPubKey p) created []) deviceSecret) (\<lambda>preSignature.
        let signedPreKey = signed_prekey_json (sessionPubKey p) created preSignature;
            oneTime = map (one_time_key P (seed p)) [0..<nat count] in
        bindR (decodeBase64Url (identitySecretKey p)) (\<lambda>identitySecret.
        bindR (signCanonicalJson P (bundle_v1_json p uuid7 signedPreKey oneTime created []) identitySecret) (\<lambda>signature.
          Inr (bundle_v1_json p uuid7 signedPreKey oneTime created signature))))))"

subsection \<open>Lemmas\<close>

lemma canonicalJson_signature_ignored:
  assumes "wf_json (JObj a)" "wf_json (JObj b)" "\<And>k. k \<noteq> ''signature'' \<Longrightarrow> map_of a k = map_of b k"
  shows "canonicalJson (JObj a) = canonicalJson (JObj b)"
  using canonicalJson_iff [OF assms(1,2)] assms(3) by blast

text \<open>What a key signed over one signature property verifies over another.\<close>

lemma resigned_verifies:
  assumes "sound_keys P pk sk" "wf_json (JObj a)" "wf_json (JObj b)"
    "\<And>k. k \<noteq> ''signature'' \<Longrightarrow> map_of a k = map_of b k"
    "signCanonicalJson P (JObj a) sk = Inr sig"
  shows "verifyCanonicalJson P (JObj b) sig pk = Inr True"
  using sign_deterministic_verify [OF assms(1), of "KeyBytes sk" "KeyBytes pk"] assms(5)
    canonicalJson_signature_ignored [OF assms(2-4)]
  by (simp add: signCanonicalJson_def verifyCanonicalJson_def)

lemma prekey_resigned:
  assumes "sound_keys P pk sk" "signCanonicalJson P (signed_prekey_json k c []) sk = Inr sig"
  shows "verifyCanonicalJson P (signed_prekey_json k c sig) sig pk = Inr True"
  using assms(2) unfolding signed_prekey_json_def by (rule resigned_verifies [OF assms(1), rotated -1]) simp_all

lemma bundle_resigned:
  assumes "sound_keys P pk sk" "\<And>s. wf_json (bundle_v1_json p i v ks c s)"
    "signCanonicalJson P (bundle_v1_json p i v ks c []) sk = Inr sig"
  shows "verifyCanonicalJson P (bundle_v1_json p i v ks c sig) sig pk = Inr True"
  using assms(3) unfolding bundle_v1_json_def
  by (rule resigned_verifies [OF assms(1) assms(2) [of "[]", unfolded bundle_v1_json_def]
        assms(2) [of sig, unfolded bundle_v1_json_def], rotated -1]) simp

lemma record_wf [simp]: "wf_json (JObj (device_record_fields i d k l now))"
  by (auto simp: device_record_fields_def split: option.splits)

lemma record_signature_free: "''signature'' \<notin> fst ` set (device_record_fields i d k l now)"
  by (auto simp: device_record_fields_def split: option.splits)

text \<open>The key pairs an identity consists of.\<close>

definition identity_seed :: "primitives \<Rightarrow> string \<Rightarrow> string \<Rightarrow> bytes \<times> bytes" where
  "identity_seed P sd namespace = sign_keypair_from_seed P (deriveSeedBytes P sd namespace)"

lemma derived_key: "deriveKeyPairFromSeed P sd n = encode_pair (identity_seed P sd n)"
  by (simp add: deriveKeyPairFromSeed_def identity_seed_def)

lemma encode_pair_simps [simp]:
  "publicKey (encode_pair kp) = encodeBase64Url (fst kp)"
  "secretKey (encode_pair kp) = encodeBase64Url (snd kp)"
  by (simp_all add: encode_pair_def)

text \<open>
  What the program relies on of a derived signing key pair: a 32-byte public key, 64-byte
  signatures, and that they verify.
\<close>

definition signing_keys :: "primitives \<Rightarrow> bytes \<times> bytes \<Rightarrow> bool" where
  "signing_keys P kp \<longleftrightarrow> length (fst kp) = 32
     \<and> (\<forall>m. \<exists>sig. sign_detached P m (snd kp) = Inr sig \<and> length sig = 64 \<and> verify_detached P m sig (fst kp) = Inr True)"

lemma signing_keys_sound: "signing_keys P kp \<Longrightarrow> sound_keys P (fst kp) (snd kp)"
  by (auto simp: signing_keys_def sound_keys_def)

lemma signing_keys_sign:
  assumes "signing_keys P kp"
  obtains sig where "signCanonicalJson P v (snd kp) = Inr (encodeBase64Url sig)" "length sig = 64"
proof -
  obtain sig where "sign_detached P (canonicalJson v) (snd kp) = Inr sig" "length sig = 64"
    using assms by (auto simp: signing_keys_def)
  with that [of sig] show ?thesis by (simp add: signCanonicalJson_def signUtf8Message_def)
qed

lemma encoded_length: "0 < n \<Longrightarrow> length bs = n \<Longrightarrow> encodedBytes n None (encodeBase64Url bs)"
  using encodedBytes_encode [of n "encodeBase64Url bs"] by blast

lemma record_shape:
  assumes "is_lower_uuid d" "encodedBytes 32 None i" "encodedBytes 32 None k" "encodedBytes 64 None sig"
    "case l of None \<Rightarrow> True | Some t \<Rightarrow> utf16_units t \<le> 256" "0 \<le> now" "now \<le> max_safe_integer"
  shows "zparse signedDevice (JObj (device_record_fields i d k l now @ [(''signature'', JStr sig)]))
    = Some (JObj (device_record_fields i d k l now @ [(''signature'', JStr sig)]))"
  using assms
  by (auto simp: signedDevice_def device_record_fields_def capability_fields_def literal_text_def literal_number_def
      identity_string_def lower_uuid_def timestamp_def signature_string_def split: option.splits)

lemma str_prop_record:
  "str_prop (JObj (device_record_fields i d k l now @ [(''signature'', JStr sig)])) ''identity_id'' = i"
  "str_prop (JObj (device_record_fields i d k l now @ [(''signature'', JStr sig)])) ''signature'' = sig"
  by (auto simp: device_record_fields_def str_prop_def split: option.splits)

lemma profile_simps:
  assumes "p = createIdentityProfile P u fs arg"
  shows "identityId p = encodeBase64Url (fst (identity_seed P (seed p) ''identity''))"
    "identitySecretKey p = encodeBase64Url (snd (identity_seed P (seed p) ''identity''))"
    "devicePubKey p = encodeBase64Url (fst (identity_seed P (seed p) (''device:'' @ or_default ''mobile-device'' (opt_deviceLabel (argument_options arg)))))"
    "deviceSecretKey p = encodeBase64Url (snd (identity_seed P (seed p) (''device:'' @ or_default ''mobile-device'' (opt_deviceLabel (argument_options arg)))))"
  using assms by (simp_all add: createIdentityProfile_def Let_def derived_key)

subsection \<open>Properties\<close>

text \<open>
  The device record a profile signs is one every importing client accepts: for a derived
  identity whose keys sign, a device UUID in lower case, a label of at most 256 units and a safe
  timestamp, the record is created, passes the strict device schema unchanged and carries a valid
  root signature.
\<close>

theorem device_record_accepted:
  assumes p: "p = createIdentityProfile P u fs arg"
    and keys: "signing_keys P (identity_seed P (seed p) ''identity'')"
    and dev: "length (fst (identity_seed P (seed p) (''device:'' @ or_default ''mobile-device'' (opt_deviceLabel (argument_options arg))))) = 32"
    and rest: "is_lower_uuid (deviceId p)" "case label of None \<Rightarrow> True | Some t \<Rightarrow> utf16_units t \<le> 256" "0 \<le> now" "now \<le> max_safe_integer"
  shows "\<exists>r. createSignedDeviceRecord P (identityId p) (deviceId p) (devicePubKey p) (identitySecretKey p) label now = Inr r
    \<and> zparse signedDevice r = Some r \<and> requireDeviceSignature P r = Inr ()"
proof -
  let ?f = "device_record_fields (identityId p) (deviceId p) (devicePubKey p) label now"
  note ps = profile_simps [OF p]
  obtain sig where s: "signCanonicalJson P (JObj ?f) (snd (identity_seed P (seed p) ''identity'')) = Inr (encodeBase64Url sig)" "length sig = 64"
    by (rule signing_keys_sign [OF keys])
  let ?r = "JObj (?f @ [(''signature'', JStr (encodeBase64Url sig))])"
  have c: "createSignedDeviceRecord P (identityId p) (deviceId p) (devicePubKey p) (identitySecretKey p) label now = Inr ?r"
    using s(1) ps(2) by (simp add: createSignedDeviceRecord_def Let_def del: canonicalJson.simps)
  have "zparse signedDevice ?r = Some ?r"
    using rest keys dev s(2) ps
    by (intro record_shape) (simp_all add: encoded_length signing_keys_def)
  moreover have w: "wf_json ?r" using record_wf [of "identityId p" "deviceId p" "devicePubKey p" label now] record_signature_free
    by (auto simp: wf_members_iff)
  have "verifyCanonicalJson P ?r (encodeBase64Url sig) (fst (identity_seed P (seed p) ''identity'')) = Inr True"
    using record_signature_free
    by (intro resigned_verifies [OF signing_keys_sound [OF keys] record_wf w _ s(1)])
      (auto simp: map_add_def split: option.splits)
  then have "requireDeviceSignature P ?r = Inr ()"
    using ps(1) by (simp only: requireDeviceSignature_def str_prop_record) simp
  ultimately show ?thesis using c by blast
qed

text \<open>Primitives with keys and signatures of the right lengths.\<close>

definition flat_primitives :: primitives where
  "flat_primitives = toy_primitives\<lparr>sign_detached := (\<lambda>m sk. Inr (replicate 64 CHR ''s'')),
     verify_detached := (\<lambda>m sig pk. Inr (length sig = 64)),
     sign_keypair_from_seed := (\<lambda>s. (replicate 32 CHR ''k'', s))\<rparr>"

lemma flat_keys [simp]: "signing_keys flat_primitives (identity_seed flat_primitives sd n)"
  by (simp add: signing_keys_def identity_seed_def flat_primitives_def)

definition sample_profile :: identity_profile where
  "sample_profile = createIdentityProfile flat_primitives (\<lambda>_. sample_uuid) ''seed'' NoArgument"

theorem device_record_accepted_witness:
  "\<exists>r. createSignedDeviceRecord flat_primitives (identityId sample_profile) (deviceId sample_profile)
     (devicePubKey sample_profile) (identitySecretKey sample_profile) (Some ''cli-device'') 5 = Inr r
     \<and> requireDeviceSignature flat_primitives r = Inr ()"
proof -
  have u: "is_lower_uuid (deviceId sample_profile)"
    by (simp add: sample_profile_def createIdentityProfile_def Let_def)
  have l: "utf16_units ''cli-device'' \<le> 256" by code_simp
  from device_record_accepted [OF sample_profile_def flat_keys _ u, of "Some ''cli-device''" 5] l show ?thesis
    by (auto simp: identity_seed_def flat_primitives_def max_safe_integer_def)
qed

text \<open>
  The first-generation bundle a profile publishes is valid: it passes the published schema,
  the nested signed prekey verifies under the profile's device key and the bundle under its
  identity key, and it offers exactly the requested number of one-time prekeys.
\<close>

theorem prekey_bundle_valid:
  assumes p: "p = createIdentityProfile P u fs arg"
    and ident: "signing_keys P (identity_seed P (seed p) ''identity'')"
    and dev: "signing_keys P (identity_seed P (seed p) (''device:'' @ or_default ''mobile-device'' (opt_deviceLabel (argument_options arg))))"
    and ids: "is_uuid u7" "is_uuid (deviceId p)"
  shows "\<exists>b. createSignedPreKeyBundle P u7 now p (Some n) created = Inr b \<and> validatePreKeyBundle b = Some b
    \<and> bindR (decodeBase64Url (devicePubKey p)) (\<lambda>k. verifyCanonicalJson P (jprop b ''signed_prekey'') (str_prop (jprop b ''signed_prekey'') ''signature'') k) = Inr True
    \<and> bindR (decodeBase64Url (identityId p)) (\<lambda>k. verifyCanonicalJson P b (str_prop b ''signature'') k) = Inr True
    \<and> (\<exists>ks. jprop b ''one_time_prekeys'' = JArr ks \<and> length ks = nat n)"
proof -
  note ps = profile_simps [OF p]
  define at where "at = or_default now created"
  define keys where "keys = map (one_time_key P (seed p)) [0..<nat n]"
  let ?dk = "identity_seed P (seed p) (''device:'' @ or_default ''mobile-device'' (opt_deviceLabel (argument_options arg)))"
  let ?ik = "identity_seed P (seed p) ''identity''"
  obtain s1 where s1: "signCanonicalJson P (signed_prekey_json (sessionPubKey p) at []) (snd ?dk) = Inr s1"
    using signing_keys_sign [OF dev] by metis
  define spk where "spk = signed_prekey_json (sessionPubKey p) at s1"
  obtain s2 where s2: "signCanonicalJson P (bundle_v1_json p u7 spk keys at []) (snd ?ik) = Inr s2"
    using signing_keys_sign [OF ident] by metis
  define b where "b = bundle_v1_json p u7 spk keys at s2"
  have k: "wf_json k" "zparse (SObject False [(''key_id'', False, any_string), (''public_key'', False, any_string)]) k = Some k"
    if "k \<in> set keys" for k
    using that by (auto simp: keys_def one_time_key_def Let_def any_string_def)
  then have ks: "zelems (SObject False [(''key_id'', False, any_string), (''public_key'', False, any_string)]) keys = Some keys"
    by (auto simp: zelems_Some list_all2_conv_all_nth)
  have wfs: "wf_json (signed_prekey_json a c s)" for a c s by (simp add: signed_prekey_json_def)
  have wfb: "wf_json (bundle_v1_json p u7 spk keys at s)" for s
    using k wfs by (simp add: bundle_v1_json_def spk_def wf_elems_iff)
  have c: "createSignedPreKeyBundle P u7 now p (Some n) created = Inr b"
    using s1 s2 ps by (simp add: createSignedPreKeyBundle_def Let_def or_default_def [of 5] at_def [symmetric] keys_def [symmetric]
        spk_def [symmetric] b_def)
  have v: "validatePreKeyBundle b = Some b"
    using ids ks by (simp add: validatePreKeyBundle_def PreKeyBundleSchema_def b_def bundle_v1_json_def literal_text_def
        literal_number_def uuid_string_def any_string_def any_number_def spk_def signed_prekey_json_def)
  have "verifyCanonicalJson P spk s1 (fst ?dk) = Inr True"
    using prekey_resigned [OF signing_keys_sound [OF dev] s1] by (simp add: spk_def)
  moreover have "verifyCanonicalJson P b s2 (fst ?ik) = Inr True"
    using bundle_resigned [OF signing_keys_sound [OF ident] wfb s2] by (simp add: b_def)
  ultimately show ?thesis using c v ps
    by (intro exI [of _ b]) (simp add: b_def bundle_v1_json_def spk_def signed_prekey_json_def str_prop_def keys_def
        del: canonicalJson.simps)
qed

theorem prekey_bundle_valid_witness:
  "\<exists>b. createSignedPreKeyBundle flat_primitives sample_uuid 5 sample_profile (Some 2) None = Inr b
     \<and> validatePreKeyBundle b = Some b"
proof -
  have u: "is_uuid sample_uuid" by code_simp
  have d: "deviceId sample_profile = sample_uuid"
    by (simp add: sample_profile_def createIdentityProfile_def Let_def)
  from prekey_bundle_valid [OF sample_profile_def flat_keys flat_keys u, of 5 2 None] u d show ?thesis by auto
qed

end
