(* ===== verification/Config.thy ===== *)
theory Config
  imports Protocol
begin

text \<open>
  \<open>apps/cli/src/runtime/config.ts\<close>, \<open>transport/loopback.ts\<close> and the acceptance rule of the
  \<open>RelayClient\<close> constructor (\<open>transport/relayClient.ts\<close>). The WHATWG URL parser is third-party
  code: \<open>parse\<close> is an argument, its result the record of the components the program reads.
\<close>

record url =
  url_protocol :: string
  url_username :: string
  url_password :: string
  url_hostname :: string
  url_pathname :: string
  url_search :: string
  url_hash :: string
  url_origin :: string

subsection \<open>Loopback\<close>

definition dot_part :: "string \<Rightarrow> bool" where
  "dot_part s = (1 \<le> length s \<and> length s \<le> 3 \<and> list_all is_digit s)"

fun split_dots :: "string \<Rightarrow> string list" where
  "split_dots [] = [[]]"
| "split_dots (c # cs) =
     (if c = CHR ''.'' then [] # split_dots cs
      else (case split_dots cs of [] \<Rightarrow> [[c]] | p # ps \<Rightarrow> (c # p) # ps))"

definition isLoopbackHostname :: "string \<Rightarrow> bool" where
  "isLoopbackHostname h =
     (h = ''localhost'' \<or> h = ''[::1]''
      \<or> (case split_dots h of
           [a, b, c, d] \<Rightarrow> a = ''127'' \<and> dot_part b \<and> dot_part c \<and> dot_part d
         | _ \<Rightarrow> False))"

subsection \<open>The configuration record\<close>

definition env_name :: "string \<Rightarrow> bool" where
  "env_name s =
     (case s of [] \<Rightarrow> False
      | c # cs \<Rightarrow>
          (let upper = (\<lambda>c. 65 \<le> (of_char c :: nat) \<and> (of_char c :: nat) \<le> 90) in
           upper c \<and> list_all (\<lambda>d. upper d \<or> is_digit d \<or> d = CHR ''_'') cs))"

definition config_fields :: "(string \<Rightarrow> url option) \<Rightarrow> (string \<times> bool \<times> schema) list" where
  "config_fields parse =
     [(''profile_version'', False, literal_number 1),
      (''profile_id'', False, lower_uuid),
      (''relay_url'', False, SString (\<lambda>s. parse s \<noteq> None)),
      (''database_path'', False, SString (\<lambda>s. s \<noteq> [])),
      (''store_key_env'', False, SString env_name),
      (''request_timeout_ms'', False, SNumber (\<lambda>i. 100 \<le> i \<and> i \<le> 60000)),
      (''poll_batch_size'', False, SNumber (\<lambda>i. 1 \<le> i \<and> i \<le> 100))]"

definition configSchema :: "(string \<Rightarrow> url option) \<Rightarrow> schema" where
  "configSchema parse = SObject True (config_fields parse)"

definition isRelayOrigin :: "url \<Rightarrow> bool" where
  "isRelayOrigin u = (url_search u = [] \<and> url_pathname u = ''/'')"

text \<open>The result is the validated record.\<close>

definition parseClientConfig :: "(string \<Rightarrow> url option) \<Rightarrow> json \<Rightarrow> json result" where
  "parseClientConfig parse input =
     bindR (of_option (ConfigurationError ''Invalid client configuration'') (zparse (configSchema parse) input)) (\<lambda>c.
     bindR (of_option (PlainError ''TypeError'') (parse (str_prop c ''relay_url''))) (\<lambda>u.
     bindR (guardR
       (\<not> (url_username u \<noteq> [] \<or> url_password u \<noteq> [] \<or> url_hash u \<noteq> []
            \<or> (url_protocol u \<noteq> ''https:'' \<and> \<not> (url_protocol u = ''http:'' \<and> isLoopbackHostname (url_hostname u)))))
       (ConfigurationError ''Relay URL requires HTTPS or loopback HTTP without credentials'')) (\<lambda>_.
     bindR (guardR (isRelayOrigin u)
       (ConfigurationError ''Relay URL must be an origin, without a path or a query'')) (\<lambda>_.
       Inr c))))"

definition key_error :: exn where
  "key_error = ConfigurationError ''Store key must be canonical base64url encoding of 32 bytes''"

definition readStoreKey :: "string \<Rightarrow> (string \<Rightarrow> string option) \<Rightarrow> bytes result" where
  "readStoreKey store_key_env environment =
     (case environment store_key_env of
        None \<Rightarrow> Inl key_error
      | Some value \<Rightarrow>
          if \<not> (length value = 43 \<and> list_all is_url_char value) then Inl key_error
          else (let key = buffer_from_base64url value in
                if length key \<noteq> 32 \<or> b64url key \<noteq> value then Inl key_error else Inr key))"

subsection \<open>The transport's acceptance rule\<close>

record relay_settings =
  baseUrl :: string
  timeoutMs :: int
  maxMessageBytes :: nat
  responseByteBound :: nat

definition pollResponseWrapperBytes :: nat where "pollResponseWrapperBytes = 64 * 1024"
definition pollResponseEnvelopeBudgetFactor :: nat where "pollResponseEnvelopeBudgetFactor = 4"

definition responseByteBoundFor :: "nat \<Rightarrow> nat" where
  "responseByteBoundFor m = max (pollResponseEnvelopeBudgetFactor * m) (m + pollResponseWrapperBytes)"

definition relay_client :: "(string \<Rightarrow> url option) \<Rightarrow> string \<Rightarrow> int \<Rightarrow> relay_settings result" where
  "relay_client parse base timeout =
     bindR (of_option (RelayError ''INVALID_RELAY_CONFIGURATION'' False None None) (parse base)) (\<lambda>u.
       if url_username u \<noteq> [] \<or> url_password u \<noteq> [] \<or> url_hash u \<noteq> [] \<or> url_search u \<noteq> []
          \<or> url_pathname u \<noteq> ''/''
          \<or> \<not> (url_protocol u = ''https:'' \<or> url_protocol u = ''http:'' \<and> isLoopbackHostname (url_hostname u))
          \<or> timeout < 1 \<or> timeout > 60000
       then Inl (RelayError ''INVALID_RELAY_CONFIGURATION'' False None None)
       else Inr \<lparr>baseUrl = url_origin u, timeoutMs = timeout,
                 maxMessageBytes = MAX_MESSAGE_BYTES LIMITS,
                 responseByteBound = responseByteBoundFor (MAX_MESSAGE_BYTES LIMITS)\<rparr>)"

subsection \<open>Lemmas\<close>

lemma config_accepted:
  assumes "parseClientConfig parse input = Inr c"
  obtains u where "parse (str_prop c ''relay_url'') = Some u"
    "url_username u = []" "url_password u = []" "url_hash u = []" "url_search u = []" "url_pathname u = ''/''"
    "url_protocol u = ''https:'' \<or> url_protocol u = ''http:'' \<and> isLoopbackHostname (url_hostname u)"
    "100 \<le> num_prop c ''request_timeout_ms''" "num_prop c ''request_timeout_ms'' \<le> 60000"
    "1 \<le> num_prop c ''poll_batch_size''" "num_prop c ''poll_batch_size'' \<le> 100"
proof -
  from assms have z: "zparse (SObject True (config_fields parse)) input = Some c"
    by (auto simp: parseClientConfig_def configSchema_def bindR_Inr_iff)
  have d: "distinct (map fst (config_fields parse))" by (simp add: config_fields_def)
  note r = object_required [OF z d]
  have "zparse (SNumber (\<lambda>i. 100 \<le> i \<and> i \<le> 60000)) (jprop input ''request_timeout_ms'') = Some (jprop c ''request_timeout_ms'')"
    "zparse (SNumber (\<lambda>i. 1 \<le> i \<and> i \<le> 100)) (jprop input ''poll_batch_size'') = Some (jprop c ''poll_batch_size'')"
    by (rule r, simp add: config_fields_def)+
  then have "100 \<le> num_prop c ''request_timeout_ms''" "num_prop c ''request_timeout_ms'' \<le> 60000"
    "1 \<le> num_prop c ''poll_batch_size''" "num_prop c ''poll_batch_size'' \<le> 100"
    by (auto simp: zparse_SNumber num_prop_def simp del: zparse.simps)
  with assms that show ?thesis
    by (auto simp: parseClientConfig_def isRelayOrigin_def bindR_Inr_iff)
qed

lemma split_dots_nonempty [simp]: "split_dots s \<noteq> []"
  by (induction s) (auto split: list.splits)

lemma join_split_dots: "join ''.'' (split_dots s) = s"
proof (induction s)
  case (Cons c cs)
  then show ?case
    by (cases "split_dots cs") (auto simp: join_Cons split: if_splits)
qed simp

lemma loopback_cases:
  assumes "isLoopbackHostname h"
  shows "h = ''localhost'' \<or> h = ''[::1]''
    \<or> (\<exists>b c d. h = ''127.'' @ b @ ''.'' @ c @ ''.'' @ d \<and> dot_part b \<and> dot_part c \<and> dot_part d)"
proof -
  have "\<exists>b c d. h = ''127.'' @ b @ ''.'' @ c @ ''.'' @ d \<and> dot_part b \<and> dot_part c \<and> dot_part d"
    if "split_dots h = [a, b, c, d]" "a = ''127''" "dot_part b" "dot_part c" "dot_part d" for a b c d
    using join_split_dots [of h] that by (intro exI [of _ b] exI [of _ c] exI [of _ d]) auto
  with assms show ?thesis by (auto simp: isLoopbackHostname_def split: list.splits)
qed

subsection \<open>Properties\<close>

text \<open>
  C14. A profile whose configuration is accepted is one its transport can open, and no secret
  leaves over plain HTTP: for every accepted configuration the relay client accepts the relay URL
  with the configured timeout, and the URL is HTTPS or its host is \<open>localhost\<close>, \<open>[::1]\<close> or a
  dotted quad of decimal components starting with 127.
\<close>

theorem config_and_transport_agree:
  assumes "parseClientConfig parse input = Inr c"
  shows "\<exists>u r. parse (str_prop c ''relay_url'') = Some u
    \<and> relay_client parse (str_prop c ''relay_url'') (num_prop c ''request_timeout_ms'') = Inr r
    \<and> baseUrl r = url_origin u
    \<and> (url_protocol u = ''https:'' \<or> url_hostname u = ''localhost'' \<or> url_hostname u = ''[::1]''
       \<or> (\<exists>b c d. url_hostname u = ''127.'' @ b @ ''.'' @ c @ ''.'' @ d \<and> dot_part b \<and> dot_part c \<and> dot_part d))"
proof -
  obtain u where "parse (str_prop c ''relay_url'') = Some u"
    "url_username u = []" "url_password u = []" "url_hash u = []" "url_search u = []" "url_pathname u = ''/''"
    "url_protocol u = ''https:'' \<or> url_protocol u = ''http:'' \<and> isLoopbackHostname (url_hostname u)"
    "100 \<le> num_prop c ''request_timeout_ms''" "num_prop c ''request_timeout_ms'' \<le> 60000"
    by (rule config_accepted [OF assms])
  with loopback_cases show ?thesis by (auto simp: relay_client_def)
qed

definition sample_url :: "string \<Rightarrow> url option" where
  "sample_url s = (if s = ''http://127.0.0.1:80'' then Some \<lparr>url_protocol = ''http:'', url_username = [], url_password = [],
     url_hostname = ''127.0.0.1'', url_pathname = ''/'', url_search = [], url_hash = [], url_origin = s\<rparr> else None)"

definition sample_config :: json where
  "sample_config = JObj [(''profile_version'', JNum 1), (''profile_id'', JStr sample_uuid),
     (''relay_url'', JStr ''http://127.0.0.1:80''), (''database_path'', JStr ''p.db''), (''store_key_env'', JStr ''KEY''),
     (''request_timeout_ms'', JNum 5000), (''poll_batch_size'', JNum 50)]"

lemma sample_config_accepted: "parseClientConfig sample_url sample_config = Inr sample_config"
proof -
  have "isLoopbackHostname ''127.0.0.1''" "env_name ''KEY''" by code_simp+
  then show ?thesis
    by (simp add: parseClientConfig_def configSchema_def config_fields_def sample_config_def sample_url_def
        isRelayOrigin_def str_prop_def)
qed

theorem config_and_transport_agree_witness:
  "\<exists>r. relay_client sample_url ''http://127.0.0.1:80'' 5000 = Inr r"
  using config_and_transport_agree [OF sample_config_accepted]
  by (auto simp: sample_config_def str_prop_def num_prop_def)

text \<open>
  The store key is read canonically: the result is a key exactly when the variable holds the
  unpadded base64url text the encoder prints for 32 bytes, and it is those bytes; every other
  value - wrong length, padding, the other alphabet, nonzero unused bits - is a configuration error.
\<close>

theorem store_key_canonical:
  "(readStoreKey name environment = Inr key
      \<longleftrightarrow> environment name = Some (encodeBase64Url key) \<and> length key = 32)
   \<and> (readStoreKey name environment = Inl e \<longrightarrow> e = key_error)"
proof (cases "environment name")
  case None
  then show ?thesis by (simp add: readStoreKey_def)
next
  case (Some v)
  have r: "readStoreKey name environment =
      (if \<not> (length v = 43 \<and> list_all is_url_char v) then Inl key_error
       else if length (buffer_from_base64url v) \<noteq> 32 \<or> encodeBase64Url (buffer_from_base64url v) \<noteq> v
       then Inl key_error else Inr (buffer_from_base64url v))"
    using Some by (simp add: readStoreKey_def encode_eq_b64url Let_def)
  have "length (encodeBase64Url key) = 43 \<and> list_all is_url_char (encodeBase64Url key)" if "length key = 32"
    using that b64url_is_url [of _ key] by (simp add: encode_eq_b64url length_b64url list_all_iff)
  then have "v = encodeBase64Url key \<and> length key = 32 \<Longrightarrow> readStoreKey name environment = Inr key"
    unfolding r by (simp only: buffer_of_base64url) simp
  moreover have "readStoreKey name environment = Inr key \<Longrightarrow> v = encodeBase64Url key \<and> length key = 32"
    unfolding r by (simp split: if_splits)
  moreover have "readStoreKey name environment = Inl e \<Longrightarrow> e = key_error"
    unfolding r by (simp split: if_splits)
  ultimately show ?thesis unfolding Some option.inject by blast
qed

theorem store_key_canonical_witness:
  "readStoreKey ''KEY'' (\<lambda>_. Some (encodeBase64Url (replicate 32 CHR ''k''))) = Inr (replicate 32 CHR ''k'')"
  using store_key_canonical [of "''KEY''" "\<lambda>_. Some (encodeBase64Url (replicate 32 CHR ''k''))" "replicate 32 CHR ''k''"]
  by simp

end
