(* ===== verification/History.thy ===== *)
theory History
  imports Store Protocol
begin

text \<open>
  \<open>apps/cli/src/runtime/history.ts\<close>: the message history, numbered entries under zero-padded
  keys with a sequence counter beside them, appended and read inside a store transaction.
\<close>

record history_entry =
  contactIdentityId :: string
  messageId :: string
  direction :: string
  plaintext :: string
  createdAtMs :: int

definition safe_int :: "int \<Rightarrow> bool" where
  "safe_int i = (- max_safe_integer \<le> i \<and> i \<le> max_safe_integer)"

definition entry_fields :: "(string \<times> bool \<times> schema) list" where
  "entry_fields =
     [(''sequence'', False, SNumber (\<lambda>i. safe_int i \<and> 0 < i)),
      (''contactIdentityId'', False, SString (\<lambda>s. s \<noteq> [])),
      (''messageId'', False, uuid_string),
      (''direction'', False, SEnum [''inbound'', ''outbound'']),
      (''plaintext'', False, any_string),
      (''createdAtMs'', False, SNumber (\<lambda>i. safe_int i \<and> 0 \<le> i))]"

definition entrySchema :: schema where
  "entrySchema = SObject True entry_fields"

definition entry_json :: "int \<Rightarrow> history_entry \<Rightarrow> json" where
  "entry_json i e = JObj
     [(''contactIdentityId'', JStr (contactIdentityId e)), (''messageId'', JStr (messageId e)),
      (''direction'', JStr (direction e)), (''plaintext'', JStr (plaintext e)),
      (''createdAtMs'', JNum (createdAtMs e)), (''sequence'', JNum i)]"

definition history_sequence_key :: string where
  "history_sequence_key = ''cli:history-sequence''"

definition history_prefix :: string where
  "history_prefix = ''cli:history:''"

definition history_key :: "int \<Rightarrow> string" where
  "history_key i = history_prefix @ padStart 16 (CHR ''0'') (show_int i)"

definition zod_parse :: "schema \<Rightarrow> json \<Rightarrow> json result" where
  "zod_parse s v = of_option (PlainError ''ZodError'') (zparse s v)"

definition next_sequence :: "bytes option \<Rightarrow> int result" where
  "next_sequence previous =
     (case previous of
        None \<Rightarrow> Inr 1
      | Some b \<Rightarrow> bindR (decode b) (\<lambda>v. bindR (zod_parse (SNumber (\<lambda>i. safe_int i \<and> 0 \<le> i)) v) (\<lambda>w.
          Inr (num_of w + 1))))"

definition appendHistory :: "history_entry \<Rightarrow> unit tx" where
  "appendHistory e =
     andThen (tx_get True history_sequence_key) (\<lambda>previous.
     andThen (lift (next_sequence previous)) (\<lambda>i.
       if \<not> safe_int i then raise (PlainError ''History sequence exhausted'')
       else
         andThen (lift (zod_parse entrySchema (entry_json i e))) (\<lambda>r.
         andThen (tx_set True (history_key i) (encode r)) (\<lambda>_.
           tx_set True history_sequence_key (encode (JNum i))))))"

definition read_entry :: "bytes option \<Rightarrow> json result" where
  "read_entry b =
     (case b of None \<Rightarrow> Inl (PlainError ''TypeError'') | Some x \<Rightarrow> bindR (decode x) (zod_parse entrySchema))"

fun read_entry_list :: "string list \<Rightarrow> records \<Rightarrow> json list result" where
  "read_entry_list [] s = Inr []"
| "read_entry_list (k # ks) s =
     bindR (read_entry (rec_get k s)) (\<lambda>v. bindR (read_entry_list ks s) (\<lambda>vs. Inr (v # vs)))"

definition readHistory :: "string \<Rightarrow> json list tx" where
  "readHistory contact =
     andThen (tx_keys True history_prefix) (\<lambda>ks. \<lambda>s.
       (bindR (read_entry_list (sort ks) s) (\<lambda>vs.
          Inr (filter (\<lambda>v. str_prop v ''contactIdentityId'' = contact) vs)), s))"

subsection \<open>Zero-padded decimals sort numerically\<close>

lemma read_nat_append: "read_nat (xs @ ys) = read_nat xs * 10 ^ length ys + read_nat ys"
proof (induction ys rule: rev_induct)
  case (snoc y ys)
  have "read_nat (zs @ [y]) = 10 * read_nat zs + digit_val y" for zs by (simp add: read_nat_def)
  from this [of "xs @ ys"] this [of ys] snoc show ?case by (simp add: algebra_simps)
qed (simp add: read_nat_def)

lemma read_nat_Cons: "read_nat (x # xs) = digit_val x * 10 ^ length xs + read_nat xs"
  using read_nat_append [of "[x]" xs] by (simp add: read_nat_def)

lemma read_nat_bound: "list_all is_digit xs \<Longrightarrow> read_nat xs < 10 ^ length xs"
proof (induction xs)
  case (Cons x xs)
  then have "is_digit x" by simp
  then have "digit_val x \<le> 9" unfolding is_digit_def digit_val_def by linarith
  then have "digit_val x * 10 ^ length xs \<le> 9 * 10 ^ length xs" by (rule mult_le_mono1)
  moreover have "read_nat xs < 10 ^ length xs" using Cons by simp
  ultimately show ?case unfolding read_nat_Cons length_Cons power_Suc by linarith
qed (simp add: read_nat_def)

lemma digit_less: "is_digit x \<Longrightarrow> is_digit y \<Longrightarrow> x < y \<longleftrightarrow> digit_val x < digit_val y"
  by (auto simp: is_digit_def digit_val_def less_char_def)

lemma digits_less:
  "length xs = length ys \<Longrightarrow> list_all is_digit xs \<Longrightarrow> list_all is_digit ys \<Longrightarrow> read_nat xs < read_nat ys \<Longrightarrow> xs < ys"
proof (induction xs ys rule: list_induct2)
  case (Cons x xs y ys)
  have b: "read_nat xs < 10 ^ length ys" "read_nat ys < 10 ^ length ys"
    using read_nat_bound [of xs] read_nat_bound [of ys] Cons by simp_all
  have d: "is_digit x" "is_digit y" using Cons.prems by simp_all
  show ?case
  proof (cases "digit_val x = digit_val y")
    case True
    with d have "x = y" using digit_less [of x y] digit_less [of y x] by (metis less_irrefl linorder_neqE)
    with Cons show ?thesis by (simp add: read_nat_Cons)
  next
    case False
    have "digit_val x < digit_val y"
    proof (rule ccontr)
      assume "\<not> digit_val x < digit_val y"
      with False have "digit_val y + 1 \<le> digit_val x" by simp
      then have "(digit_val y + 1) * 10 ^ length ys \<le> digit_val x * 10 ^ length ys" by (rule mult_le_mono1)
      with b Cons.prems(3) Cons.hyps show False by (simp add: read_nat_Cons)
    qed
    with d show ?thesis by (simp add: digit_less)
  qed
qed simp

lemma pad_digits: "0 \<le> i \<Longrightarrow> list_all is_digit (padStart 16 (CHR ''0'') (show_int i))"
  using show_nat_digits [of "nat i"]
  by (auto simp: padStart_def show_int_def list_all_iff is_digit_def)

lemma pad_value: "0 \<le> i \<Longrightarrow> read_nat (padStart 16 (CHR ''0'') (show_int i)) = nat i"
proof -
  have z: "read_nat (replicate k (CHR ''0'')) = 0" for k
    by (induction k) (simp_all add: read_nat_Cons digit_val_def, simp add: read_nat_def)
  assume "0 \<le> i"
  then show ?thesis by (simp add: padStart_def read_nat_append z show_int_def)
qed

lemma show_nat_length: "n < 10 ^ k \<Longrightarrow> 0 < k \<Longrightarrow> length (show_nat n) \<le> k"
proof (induction n arbitrary: k rule: show_nat.induct)
  case (1 n)
  show ?case
  proof (cases "n < 10")
    case True
    with "1.prems" show ?thesis by (subst show_nat.simps) simp
  next
    case False
    with "1.prems" obtain j where j: "k = Suc j" "0 < j" by (cases k; cases "k - 1") auto
    with "1.prems"(1) have "n div 10 < 10 ^ j" by (simp add: less_mult_imp_div_less mult.commute)
    with "1.IH" [OF False _ j(2)] have "length (show_nat (n div 10)) \<le> j" by simp
    with False j show ?thesis by (subst show_nat.simps) simp
  qed
qed

lemma pad_length: "0 \<le> i \<Longrightarrow> i \<le> max_safe_integer \<Longrightarrow> length (padStart 16 (CHR ''0'') (show_int i)) = 16"
proof -
  assume i: "0 \<le> i" "i \<le> max_safe_integer"
  then have "nat i < 10 ^ 16" by (simp add: max_safe_integer_def nat_less_iff)
  from show_nat_length [OF this] i show ?thesis by (simp add: padStart_def show_int_def)
qed

lemma history_key_less:
  assumes "0 \<le> i" "i < j" "j \<le> max_safe_integer"
  shows "history_key i < history_key j"
proof -
  have "padStart 16 (CHR ''0'') (show_int i) < padStart 16 (CHR ''0'') (show_int j)"
    by (rule digits_less) (use assms in \<open>simp_all add: pad_length pad_digits pad_value\<close>)
  then show ?thesis by (simp add: history_key_def history_prefix_def)
qed

subsection \<open>The history as a list\<close>

text \<open>
  \<open>holds_history s es\<close>: the store holds exactly the entries \<open>es\<close>, numbered from 1 in this order.
\<close>

definition stored_entry :: "int \<Rightarrow> history_entry \<Rightarrow> json" where
  "stored_entry i e = JObj
     [(''sequence'', JNum i), (''contactIdentityId'', JStr (contactIdentityId e)),
      (''messageId'', JStr (messageId e)), (''direction'', JStr (direction e)),
      (''plaintext'', JStr (plaintext e)), (''createdAtMs'', JNum (createdAtMs e))]"

definition valid_entry :: "history_entry \<Rightarrow> bool" where
  "valid_entry e \<longleftrightarrow> contactIdentityId e \<noteq> [] \<and> is_uuid (messageId e)
     \<and> direction e \<in> {''inbound'', ''outbound''} \<and> 0 \<le> createdAtMs e \<and> createdAtMs e \<le> max_safe_integer"

definition numbered :: "history_entry list \<Rightarrow> (int \<times> history_entry) list" where
  "numbered es = map (\<lambda>k. (int (Suc k), es ! k)) [0..<length es]"

definition holds_history :: "records \<Rightarrow> history_entry list \<Rightarrow> bool" where
  "holds_history s es \<longleftrightarrow>
     rec_get history_sequence_key s = (if es = [] then None else Some (encode (JNum (int (length es)))))
     \<and> set (rec_keys history_prefix s) = (\<lambda>(i, e). history_key i) ` set (numbered es)
     \<and> (\<forall>(i, e) \<in> set (numbered es). rec_get (history_key i) s = Some (encode (stored_entry i e)))
     \<and> list_all valid_entry es \<and> int (length es) \<le> max_safe_integer"

lemma entry_accepted:
  "valid_entry e \<Longrightarrow> 1 \<le> i \<Longrightarrow> i \<le> max_safe_integer \<Longrightarrow> zod_parse entrySchema (entry_json i e) = Inr (stored_entry i e)"
  by (auto simp: zod_parse_def entrySchema_def entry_fields_def entry_json_def stored_entry_def valid_entry_def
      safe_int_def uuid_string_def any_string_def)

lemma entry_reparsed:
  "valid_entry e \<Longrightarrow> 1 \<le> i \<Longrightarrow> i \<le> max_safe_integer \<Longrightarrow>
     read_entry (Some (encode (stored_entry i e))) = Inr (stored_entry i e)"
proof -
  assume *: "valid_entry e" "1 \<le> i" "i \<le> max_safe_integer"
  have "decode (encode (stored_entry i e)) = Inr (stored_entry i e)"
    by (rule json.dec_enc) (simp add: stored_entry_def)
  moreover have "zod_parse entrySchema (stored_entry i e) = Inr (stored_entry i e)"
    using * by (auto simp: zod_parse_def entrySchema_def entry_fields_def stored_entry_def valid_entry_def
        safe_int_def uuid_string_def any_string_def)
  ultimately show ?thesis by (simp add: read_entry_def)
qed

lemma numbered_append: "numbered (es @ [e]) = numbered es @ [(int (Suc (length es)), e)]"
  by (auto simp: numbered_def nth_append intro!: map_cong)

lemma numbered_bounds:
  "(i, e) \<in> set (numbered es) \<Longrightarrow> 1 \<le> i \<and> i \<le> int (length es) \<and> e \<in> set es"
  by (auto simp: numbered_def)

lemma history_key_eq:
  assumes "0 \<le> i" "0 \<le> j" "i \<le> max_safe_integer" "j \<le> max_safe_integer"
  shows "history_key i = history_key j \<longleftrightarrow> i = j"
  using history_key_less [of i j] history_key_less [of j i] assms
  by (metis less_irrefl linorder_neqE)

lemma sequence_key_other [simp]: "history_key i \<noteq> history_sequence_key" "\<not> prefix history_prefix history_sequence_key"
  by (simp_all add: history_key_def history_prefix_def history_sequence_key_def)

lemma keys_after_set:
  "set (rec_keys p (rec_set k v s)) = (if prefix p k then insert k (set (rec_keys p s)) else set (rec_keys p s))"
  by (rule set_eqI) (simp add: rec_keys_iff)

lemma append_holds:
  assumes "holds_history s es" "valid_entry e" "int (length es) < max_safe_integer"
  shows "\<exists>t. appendHistory e s = (Inr (), t) \<and> holds_history t (es @ [e])"
proof -
  let ?n = "int (Suc (length es))"
  have seq: "next_sequence (rec_get history_sequence_key s) = Inr ?n"
    using assms(1) json.dec_enc [of "JNum (int (length es))"]
    by (auto simp: holds_history_def next_sequence_def zod_parse_def safe_int_def)
  have n: "1 \<le> ?n" "?n \<le> max_safe_integer" "safe_int ?n" using assms(3) by (simp_all add: safe_int_def)
  let ?t = "rec_set history_sequence_key (encode (JNum ?n)) (rec_set (history_key ?n) (encode (stored_entry ?n e)) s)"
  have "appendHistory e s = (Inr (), ?t)"
    using seq n entry_accepted [OF assms(2) n(1,2)] by (simp add: appendHistory_def andThen_def)
  moreover have "holds_history ?t (es @ [e])"
  proof -
    have p: "prefix history_prefix (history_key ?n)" by (simp add: history_key_def)
    have ne: "history_key i \<noteq> history_key ?n" if "(i, x) \<in> set (numbered es)" for i x
      using numbered_bounds [OF that] history_key_eq [of i ?n] n(2) by simp
    then have "\<forall>(i, x) \<in> set (numbered es). rec_get (history_key i) ?t = Some (encode (stored_entry i x))"
      using assms(1) by (fastforce simp: holds_history_def)
    then show ?thesis
      using assms n p by (auto simp: holds_history_def numbered_append keys_after_set)
  qed
  ultimately show ?thesis by blast
qed

lemma sorted_history_keys:
  assumes "int (length es) \<le> max_safe_integer"
  shows "sorted_wrt (<) (map (\<lambda>(i, e). history_key i) (numbered es))"
proof -
  have "sorted_wrt (\<lambda>a b. history_key (int (Suc a)) < history_key (int (Suc b))) [0..<length es]"
    using assms history_key_less by (intro sorted_wrt_mono_rel [OF _ sorted_wrt_upt]) auto
  then show ?thesis by (simp add: numbered_def sorted_wrt_map)
qed

lemma sort_history_keys:
  assumes "holds_history s es" "wf_records s"
  shows "sort (rec_keys history_prefix s) = map (\<lambda>(i, e). history_key i) (numbered es)"
proof (rule sorted_distinct_set_unique)
  have s: "sorted_wrt (<) (map (\<lambda>(i, e). history_key i) (numbered es))"
    using assms(1) by (intro sorted_history_keys) (simp add: holds_history_def)
  then show "sorted (map (\<lambda>(i, e). history_key i) (numbered es))" "distinct (map (\<lambda>(i, e). history_key i) (numbered es))"
    by (simp_all add: strict_sorted_iff)
  show "distinct (sort (rec_keys history_prefix s))" using assms(2) by (simp add: rec_keys_def wf_records_def)
  show "set (sort (rec_keys history_prefix s)) = set (map (\<lambda>(i, e). history_key i) (numbered es))"
    using assms(1) by (simp add: holds_history_def)
qed simp

lemma read_entry_list_map:
  assumes "\<And>k v. (k, v) \<in> set kvs \<Longrightarrow> read_entry (rec_get k s) = Inr v"
  shows "read_entry_list (map fst kvs) s = Inr (map snd kvs)"
  using assms
proof (induction kvs)
  case (Cons kv kvs)
  obtain k v where kv: "kv = (k, v)" by (cases kv)
  have "read_entry (rec_get k s) = Inr v" by (rule Cons.prems) (simp add: kv)
  moreover have "read_entry_list (map fst kvs) s = Inr (map snd kvs)"
    by (rule Cons.IH) (simp add: Cons.prems)
  ultimately show ?case by (simp add: kv)
qed simp

lemma read_history_result:
  assumes "holds_history s es" "wf_records s"
  shows "readHistory c s = (Inr (map (\<lambda>(i, e). stored_entry i e) (filter (\<lambda>(i, e). contactIdentityId e = c) (numbered es))), s)"
proof -
  let ?kvs = "map (\<lambda>(i, e). (history_key i, stored_entry i e)) (numbered es)"
  have "read_entry_list (map fst ?kvs) s = Inr (map snd ?kvs)"
  proof (rule read_entry_list_map)
    fix k v assume "(k, v) \<in> set ?kvs"
    then obtain i e where ie: "(i, e) \<in> set (numbered es)" "k = history_key i" "v = stored_entry i e" by auto
    have "valid_entry e" using numbered_bounds [OF ie(1)] assms(1) by (simp add: holds_history_def list_all_iff)
    with ie numbered_bounds [OF ie(1)] assms(1) entry_reparsed [of e i]
    show "read_entry (rec_get k s) = Inr v" by (auto simp: holds_history_def)
  qed
  then have "read_entry_list (sort (rec_keys history_prefix s)) s = Inr (map (\<lambda>(i, e). stored_entry i e) (numbered es))"
    by (simp add: sort_history_keys [OF assms] case_prod_unfold comp_def)
  moreover have "str_prop (stored_entry i e) ''contactIdentityId'' = contactIdentityId e" for i e
    by (simp add: stored_entry_def str_prop_def)
  ultimately show ?thesis
    by (simp add: readHistory_def andThen_def filter_map comp_def case_prod_unfold)
qed

subsection \<open>Properties\<close>

text \<open>
  The history is an append-only log: on a store that holds a list of entries, appending a
  valid one succeeds and leaves the list with that entry at its end, and reading a contact's
  history afterwards returns, oldest first and with their numbers, exactly that contact's entries.
\<close>

theorem history_is_a_log:
  assumes "holds_history s es" "valid_entry e" "int (length es) < max_safe_integer" "wf_records s"
  shows "\<exists>t. appendHistory e s = (Inr (), t) \<and> holds_history t (es @ [e])
    \<and> readHistory c t = (Inr (map (\<lambda>(i, e). stored_entry i e)
          (filter (\<lambda>(i, e). contactIdentityId e = c) (numbered (es @ [e])))), t)"
proof -
  obtain t where t: "appendHistory e s = (Inr (), t)" "holds_history t (es @ [e])"
    using append_holds [OF assms(1-3)] by blast
  have "wf_records t"
    using t(1) assms(4) by (auto simp: appendHistory_def andThen_Inr_iff kv.inv_put split: if_splits)
  with t read_history_result [OF t(2)] show ?thesis by blast
qed

definition sample_entry :: history_entry where
  "sample_entry = \<lparr>contactIdentityId = ''alice'', messageId = sample_uuid, direction = ''inbound'',
     plaintext = ''hi'', createdAtMs = 5\<rparr>"

theorem history_is_a_log_witness:
  "\<exists>t. appendHistory sample_entry [] = (Inr (), t) \<and> readHistory ''alice'' t = (Inr [stored_entry 1 sample_entry], t)
     \<and> readHistory ''bob'' t = (Inr [], t)"
proof -
  have h: "holds_history [] []"
    by (simp add: holds_history_def rec_get_def rec_keys_def numbered_def max_safe_integer_def)
  have v: "valid_entry sample_entry"
    using sample_uuid_ok by (simp add: valid_entry_def sample_entry_def is_lower_uuid_def max_safe_integer_def)
  have n: "numbered [sample_entry] = [(1, sample_entry)]" "contactIdentityId sample_entry = ''alice''"
    by (simp_all add: numbered_def sample_entry_def)
  show ?thesis
    using history_is_a_log [OF h v, of "''alice''"] history_is_a_log [OF h v, of "''bob''"] n
    by (auto simp: wf_records_def max_safe_integer_def)
qed

end
