(* ===== verification/Profile.thy ===== *)
theory Profile
  imports Identity Config History
begin

text \<open>
  \<open>apps/cli/src/runtime/profile.ts\<close>: one profile over its encrypted store. \<open>env\<close> is what a run reads
  from outside - the third-party primitives, libsignal, and streams of random values, clock
  readings and storage faults, each read at the next tick - and \<open>world\<close> what it changes: the
  durable records, the relay's state and the tick. \<open>w_commits\<close> is a ghost: the records after every
  commit, newest first, so that a claim can speak of every instant a crash could happen at.
\<close>

subsection \<open>Environment and world\<close>

record env =
  en_prims :: primitives
  en_lib :: libsignal
  en_uuid5 :: "string \<Rightarrow> string"
  en_seed :: "nat \<Rightarrow> string"
  en_uuid :: "nat \<Rightarrow> string"
  en_keys :: "nat \<Rightarrow> fresh_keys"
  en_clock :: "nat \<Rightarrow> int"
  en_fault :: "nat \<Rightarrow> bool"

record 'r world =
  w_records :: records
  w_tick :: nat
  w_relay :: 'r
  w_commits :: "records list"

text \<open>An operation inside a transaction: the records, and the next tick.\<close>

type_synonym 'a ptx = "(records \<times> nat, 'a) op"

type_synonym ('r, 'a) run = "('r world, 'a) op"

definition onRecords :: "'a tx \<Rightarrow> 'a ptx" where
  "onRecords m s = (case m (fst s) of (x, rs) \<Rightarrow> (x, (rs, snd s)))"

definition draw :: "(nat \<Rightarrow> 'a) \<Rightarrow> 'a ptx" where
  "draw f s = (Inr (f (snd s)), (fst s, Suc (snd s)))"

lemma onRecords_iff: "onRecords m s = (r, u) \<longleftrightarrow> (\<exists>rs. m (fst s) = (r, rs) \<and> u = (rs, snd s))"
  by (auto simp: onRecords_def split: prod.splits)

lemma draw_iff [simp]: "draw f s = (r, u) \<longleftrightarrow> r = Inr (f (snd s)) \<and> u = (fst s, Suc (snd s))"
  by (auto simp: draw_def)

definition drawW :: "(nat \<Rightarrow> 'a) \<Rightarrow> ('r, 'a) run" where
  "drawW f w = (Inr (f (w_tick w)), w\<lparr>w_tick := Suc (w_tick w)\<rparr>)"

text \<open>
  The durable-storage boundary: an error the operation raised keeps its type, a failure of the
  store itself to begin or to commit is a \<open>PersistenceError\<close>, and nothing changes unless both
  succeed.
\<close>

definition transact :: "env \<Rightarrow> 'a ptx \<Rightarrow> ('r, 'a) run" where
  "transact E m w =
     (if en_fault E (w_tick w) then (Inl PersistenceError, w\<lparr>w_tick := Suc (w_tick w)\<rparr>)
      else
        (case m (w_records w, Suc (w_tick w)) of
           (Inl e, (_, t)) \<Rightarrow> (Inl e, w\<lparr>w_tick := t\<rparr>)
         | (Inr x, (rs, t)) \<Rightarrow>
             if en_fault E t then (Inl PersistenceError, w\<lparr>w_tick := Suc t\<rparr>)
             else (Inr x, w\<lparr>w_records := rs, w_tick := Suc t, w_commits := rs # w_commits w\<rparr>)))"

subsection \<open>Keys and schemas\<close>

definition metadataKey :: string where "metadataKey = ''cli:profile''"
definition publicationKey :: string where "publicationKey = ''cli:publication''"
definition poolTarget :: nat where "poolTarget = PREKEY_MIN_COUNT LIMITS"

definition publicationSlotKey :: "nat \<Rightarrow> string" where
  "publicationSlotKey slot =
     (if slot = 0 then publicationKey else publicationKey @ '':'' @ show_nat slot)"

definition mailboxRewalkKey :: string where "mailboxRewalkKey = ''cli:mailbox-rewalk''"

definition mailboxRewalkPosition :: "string \<Rightarrow> bool" where
  "mailboxRewalkPosition s = (1 \<le> length s \<and> length s \<le> 15 \<and> list_all is_digit s)"

definition contact_prefix :: string where "contact_prefix = ''cli:contact:''"
definition contact_key :: "string \<Rightarrow> string" where "contact_key i = contact_prefix @ i"

fun strict_schema :: "schema \<Rightarrow> schema" where
  "strict_schema (SObject _ fs) = SObject True fs"
| "strict_schema s = s"

definition metadataSchema :: schema where
  "metadataSchema = SObject True
     [(''version'', False, literal_number 1), (''profile_id'', False, uuid_string),
      (''seed'', False, SString (\<lambda>s. s \<noteq> [])),
      (''device_record'', False, SCustom (accepts (strict_schema DeviceRecordSchema)))]"

definition cardSchema :: schema where
  "cardSchema = SObject True
     [(''type'', False, literal_text ''echolet_contact_card''), (''version'', False, literal_number 1),
      (''display_name'', True, SString (\<lambda>s. s \<noteq> [] \<and> utf16_units s \<le> 128)),
      (''signal_bundle'', False, SRefine SignalPreKeyBundleV2Schema (\<lambda>b. jprop b ''one_time_prekey'' \<noteq> JNull))]"

definition contactSchema :: schema where
  "contactSchema = SObject True
     [(''identity_id'', False, any_string), (''device_id'', False, uuid_string),
      (''device_pubkey'', False, any_string), (''signal_identity_key'', False, any_string)]"

definition publicationSchema :: schema where
  "publicationSchema = SObject True
     [(''version'', False, literal_number 1), (''bundle'', False, SCustom (accepts SignalPreKeyBundleV2Schema))]"

text \<open>Reading a record that must be there: \<open>decode(undefined)\<close> throws.\<close>

definition decode_present :: "bytes option \<Rightarrow> json result" where
  "decode_present b = bindR (of_option (PlainError ''TypeError'') b) decode"

definition readMetadata :: "json ptx" where
  "readMetadata =
     andThen (onRecords (tget metadataKey)) (\<lambda>bytes.
       case bytes of
         None \<Rightarrow> raise (ProfileError ''Missing profile identity; refusing replacement'')
       | Some b \<Rightarrow> lift (bindR (decode b) (zod_parse metadataSchema)))"

definition device_record :: "json \<Rightarrow> json" where
  "device_record metadata = jprop metadata ''device_record''"

definition record_address :: "json \<Rightarrow> device_address result" where
  "record_address r =
     bindR (signalAddressForDevice (str_prop r ''identity_id'') (str_prop r ''device_id'')) (\<lambda>(name, device).
       Inr \<lparr>addr_name = name, addr_device = device\<rparr>)"

definition profile_identity :: "env \<Rightarrow> json \<Rightarrow> identity_profile" where
  "profile_identity E metadata =
     createIdentityProfile (en_prims E) (en_uuid5 E) []
       (Options \<lparr>opt_seed = Some (str_prop metadata ''seed''), opt_suffix = None, opt_deviceLabel = Some ''cli-device''\<rparr>)"

text \<open>\<open>SignalClient.create\<close> inside the running transaction.\<close>

definition open_client :: "env \<Rightarrow> json \<Rightarrow> device_address ptx" where
  "open_client E local =
     andThen (lift (record_address local)) (\<lambda>self.
     andThen (draw (en_keys E)) (\<lambda>F.
     andThen (draw (en_clock E)) (\<lambda>now.
     andThen (onRecords (create_client (en_lib E) F now self)) (\<lambda>_.
       ret self))))"

subsection \<open>Signing mailbox operations\<close>

datatype mailbox_operation = ChallengeOp | PollOp string string "string option" | AckOp "string list"

fun operation_text :: "string \<Rightarrow> string \<Rightarrow> mailbox_operation \<Rightarrow> string" where
  "operation_text mailbox device ChallengeOp = createMailboxCreateChallengeMessage mailbox device"
| "operation_text mailbox device (PollOp challenge nonce readThrough) =
     createMailboxChallengeMessage challenge mailbox device nonce readThrough"
| "operation_text mailbox device (AckOp ids) = createMailboxAckMessage mailbox device ids None"

definition mailboxAuthorization :: "env \<Rightarrow> mailbox_operation \<Rightarrow> ('r, (string \<times> json) list) run" where
  "mailboxAuthorization E operation =
     transact E
       (andThen readMetadata (\<lambda>metadata.
          let local = device_record metadata; P = en_prims E;
              mailboxId = deriveMailboxId P (str_prop local ''identity_id'');
              device = str_prop local ''device_id'' in
          andThen (lift (decodeBase64Url (deviceSecretKey (profile_identity E metadata)))) (\<lambda>key.
          andThen (lift (signUtf8Message P (operation_text mailboxId device operation) (KeyBytes key))) (\<lambda>signature.
            ret [(''recipient_mailbox_id'', JStr mailboxId), (''device_id'', JStr device),
                 (''signature'', JStr signature)]))))"

subsection \<open>The re-walk position\<close>

definition requestMailboxRewalk :: "env \<Rightarrow> ('r, unit) run" where
  "requestMailboxRewalk E = transact E (onRecords (tset mailboxRewalkKey ''0''))"

definition pendingMailboxRewalk :: "env \<Rightarrow> ('r, string option) run" where
  "pendingMailboxRewalk E =
     transact E
       (andThen (onRecords (tget mailboxRewalkKey)) (\<lambda>stored.
          ret (case stored of
                 None \<Rightarrow> None
               | Some position \<Rightarrow> Some (if mailboxRewalkPosition position then position else ''0''))))"

definition keepMailboxRewalk :: "env \<Rightarrow> string \<Rightarrow> ('r, unit) run" where
  "keepMailboxRewalk E position =
     (let kept = (if mailboxRewalkPosition position then position else ''0'') in
      transact E (onRecords (tset mailboxRewalkKey kept)))"

definition finishMailboxRewalk :: "env \<Rightarrow> ('r, unit) run" where
  "finishMailboxRewalk E = transact E (onRecords (tdelete mailboxRewalkKey))"

subsection \<open>The runtime boundary and the signed bundle\<close>

record envelope_binding =
  recipientMailboxId :: string
  envelopeId :: string
  senderIdentityId :: string
  senderDeviceId :: string
  binding_ciphertext :: string
  binding_createdAtMs :: int
  binding_expiresAtMs :: int

definition signEnvelopeBinding :: "env \<Rightarrow> envelope_binding \<Rightarrow> string ptx" where
  "signEnvelopeBinding E b =
     andThen readMetadata (\<lambda>metadata.
     andThen (lift (decodeBase64Url (deviceSecretKey (profile_identity E metadata)))) (\<lambda>key.
       lift (signMailboxEnvelopeMessage (en_prims E) (recipientMailboxId b) (envelopeId b) (senderIdentityId b)
         (senderDeviceId b) (hashMailboxEnvelopeCiphertext (en_prims E) (binding_ciphertext b))
         (binding_createdAtMs b) (binding_expiresAtMs b) (KeyBytes key))))"

definition withRuntime :: "env \<Rightarrow> (device_address \<Rightarrow> json \<Rightarrow> 'a ptx) \<Rightarrow> ('r, 'a) run" where
  "withRuntime E operation =
     transact E
       (andThen readMetadata (\<lambda>metadata.
          let local = device_record metadata in
          andThen (open_client E local) (\<lambda>self. operation self local)))"

definition signBundle :: "env \<Rightarrow> json ptx" where
  "signBundle E =
     andThen readMetadata (\<lambda>metadata.
     andThen (open_client E (device_record metadata)) (\<lambda>self.
     andThen (lift (decodeBase64Url (deviceSecretKey (profile_identity E metadata)))) (\<lambda>key.
     andThen (draw (en_clock E)) (\<lambda>now.
     andThen (draw (en_uuid E)) (\<lambda>bundleId.
       onRecords (exportSignedSignalBundleV2 (en_lib E) (en_prims E) self (device_record metadata) key None None now bundleId))))))"

definition exportContact :: "env \<Rightarrow> ('r, json) run" where
  "exportContact E =
     transact E
       (andThen (signBundle E) (\<lambda>bundle.
          lift (zod_parse cardSchema
            (JObj [(''type'', JStr ''echolet_contact_card''), (''version'', JNum 1), (''signal_bundle'', bundle)]))))"

subsection \<open>The publication pool\<close>

definition hasPublication :: "env \<Rightarrow> ('r, bool) run" where
  "hasPublication E =
     transact E (andThen (onRecords (tget publicationKey)) (\<lambda>stored. ret (stored \<noteq> None)))"

definition stored_bundle :: "bytes \<Rightarrow> json result" where
  "stored_bundle b =
     bindR (decode b) (\<lambda>v. bindR (zod_parse publicationSchema v) (\<lambda>p. Inr (jprop p ''bundle'')))"

definition readPublicationSlot :: "nat \<Rightarrow> json option ptx" where
  "readPublicationSlot slot =
     andThen (onRecords (tget (publicationSlotKey slot))) (\<lambda>stored.
       case stored of
         None \<Rightarrow> ret None
       | Some b \<Rightarrow> lift (bindR (stored_bundle b) (\<lambda>v. Inr (Some v))))"

definition publication_json :: "json \<Rightarrow> json" where
  "publication_json bundle = JObj [(''version'', JNum 1), (''bundle'', bundle)]"

definition rotate_prekey :: "env \<Rightarrow> unit ptx" where
  "rotate_prekey E =
     andThen readMetadata (\<lambda>metadata.
     andThen (open_client E (device_record metadata)) (\<lambda>_.
     andThen (draw (en_keys E)) (\<lambda>F.
     andThen (onRecords (rotateOneTimePreKey (en_lib E) (fresh_pre F))) (\<lambda>_.
       ret ()))))"

definition mintPublicationSlot :: "env \<Rightarrow> nat \<Rightarrow> bool \<Rightarrow> json ptx" where
  "mintPublicationSlot E slot fresh =
     andThen (if fresh then rotate_prekey E else ret ()) (\<lambda>_.
     andThen (signBundle E) (\<lambda>bundle.
     andThen (lift (zod_parse publicationSchema (publication_json bundle))) (\<lambda>p.
     andThen (onRecords (tset (publicationSlotKey slot) (encode p))) (\<lambda>_.
       ret bundle))))"

definition publicationBundle :: "env \<Rightarrow> ('r, json) run" where
  "publicationBundle E =
     transact E
       (andThen (readPublicationSlot 0) (\<lambda>member.
          case member of Some b \<Rightarrow> ret b | None \<Rightarrow> mintPublicationSlot E 0 False))"

fun read_slots :: "nat list \<Rightarrow> json option list ptx" where
  "read_slots [] = ret []"
| "read_slots (slot # slots) =
     andThen (readPublicationSlot slot) (\<lambda>m.
     andThen (read_slots slots) (\<lambda>ms. ret (m # ms)))"

fun fill_slots :: "env \<Rightarrow> nat list \<Rightarrow> json option list \<Rightarrow> nat \<Rightarrow> (json option list \<times> nat) ptx" where
  "fill_slots E [] members minted = ret (members, minted)"
| "fill_slots E (slot # slots) members minted =
     (if members ! slot \<noteq> None then fill_slots E slots members minted
      else
        andThen (mintPublicationSlot E slot (list_ex (\<lambda>m. m \<noteq> None) members)) (\<lambda>b.
          fill_slots E slots (members[slot := Some b]) (Suc minted)))"

text \<open>The members (every slot filled) and how many this call allocated.\<close>

definition restorePublicationPool :: "env \<Rightarrow> ('r, json list \<times> nat) run" where
  "restorePublicationPool E =
     transact E
       (andThen (read_slots [0..<poolTarget]) (\<lambda>members.
        andThen (fill_slots E (rev [0..<poolTarget]) members 0) (\<lambda>(filled, minted).
          ret (map the filled, minted))))"

definition publicationPool :: "env \<Rightarrow> ('r, json list) run" where
  "publicationPool E = andThen (restorePublicationPool E) (\<lambda>(members, _). ret members)"

definition replacePublicationSlot :: "env \<Rightarrow> int \<Rightarrow> ('r, json) run" where
  "replacePublicationSlot E slot =
     (if slot < 0 \<or> slot \<ge> int poolTarget then raise (ProfileError ''Publication slot is outside the pool'')
      else transact E (mintPublicationSlot E (nat slot) True))"

definition rotatePublicationBundle :: "env \<Rightarrow> ('r, json) run" where
  "rotatePublicationBundle E = transact E (mintPublicationSlot E 0 True)"

subsection \<open>Contacts\<close>

definition contact_json :: "json \<Rightarrow> json" where
  "contact_json wire =
     (let r = jprop wire ''device_record'' in
      JObj [(''identity_id'', jprop r ''identity_id''), (''device_id'', jprop r ''device_id''),
            (''device_pubkey'', jprop r ''device_pubkey''), (''signal_identity_key'', jprop wire ''signal_identity_key'')])"

text \<open>\<open>confirm\<close> is the callback of the options, when there is one; it may throw.\<close>

definition importContact :: "env \<Rightarrow> json \<Rightarrow> (json \<Rightarrow> bool result) option \<Rightarrow> ('r, bool) run" where
  "importContact E input confirm =
     andThen (lift (bindR (copyJson input) (zod_parse cardSchema))) (\<lambda>card.
       let wire = jprop card ''signal_bundle''; r = jprop wire ''device_record''; identifiers = contact_json wire in
       andThen (drawW (en_clock E)) (\<lambda>now.
       andThen (lift (importVerifiedSignalBundleV2 (en_lib E) (en_prims E) wire (str_prop r ''identity_id'')
                        (str_prop r ''device_id'') now)) (\<lambda>(address, bundle).
       andThen (lift (of_option (ProfileError ''Explicit contact confirmation is required'') confirm)) (\<lambda>ask.
       andThen (lift (ask identifiers)) (\<lambda>ok.
         if \<not> ok then ret False
         else
           transact E
             (let key = contact_key (str_prop identifiers ''identity_id'') in
              andThen (onRecords (tget key)) (\<lambda>previous.
              andThen (lift (case previous of
                  None \<Rightarrow> Inr ()
                | Some b \<Rightarrow> bindR (bindR (decode b) (zod_parse contactSchema)) (\<lambda>old.
                    guardR (stringify old = stringify identifiers)
                      (ProfileError ''Contact identifiers changed; replacement is not supported'')))) (\<lambda>_.
              andThen readMetadata (\<lambda>metadata.
              andThen (open_client E (device_record metadata)) (\<lambda>_.
              andThen (onRecords (approveRemote (en_lib E) address (b_identityKey bundle))) (\<lambda>_.
              andThen (onRecords (tset key (encode identifiers))) (\<lambda>_.
                ret True))))))))))))"

fun read_contacts :: "string list \<Rightarrow> records \<Rightarrow> json list result" where
  "read_contacts [] rs = Inr []"
| "read_contacts (k # ks) rs =
     bindR (bindR (decode_present (rec_get k rs)) (zod_parse contactSchema)) (\<lambda>c.
     bindR (read_contacts ks rs) (\<lambda>cs. Inr (c # cs)))"

definition listContacts :: "env \<Rightarrow> ('r, json list) run" where
  "listContacts E =
     transact E
       (andThen (onRecords (tkeys contact_prefix)) (\<lambda>ks.
          onRecords (\<lambda>rs. (read_contacts (sort ks) rs, rs))))"

definition profile_summary :: "env \<Rightarrow> json \<Rightarrow> ('r, (string \<times> json) list) run" where
  "profile_summary E config =
     transact E
       (andThen readMetadata (\<lambda>metadata.
        andThen (onRecords (tkeys contact_prefix)) (\<lambda>ks.
          ret [(''profile_id'', jprop config ''profile_id''),
               (''identity_id'', jprop (device_record metadata) ''identity_id''),
               (''device_id'', jprop (device_record metadata) ''device_id''),
               (''contact_count'', JNum (int (length ks)))])))"

definition diagnostics :: "env \<Rightarrow> json \<Rightarrow> ('r, json) run" where
  "diagnostics E config =
     andThen (listContacts E) (\<lambda>contacts.
     andThen (profile_summary E config) (\<lambda>summary.
       ret (JObj (obj_put ''contact_count'' (JNum (int (length contacts))) summary
         @ [(''contacts'', JArr contacts), (''storage'', JStr ''encrypted''), (''runtime'', JStr ''node-reference'')]))))"

subsection \<open>Records an operation leaves alone\<close>

text \<open>
  \<open>leaves K m\<close>: whatever its result, \<open>m\<close> leaves every record whose key is in \<open>K\<close> as it was. The
  client's operations never touch the profile's own records, whose keys start with \<open>cli:\<close>.
\<close>

definition leaves :: "(string \<Rightarrow> bool) \<Rightarrow> 'a tx \<Rightarrow> bool" where
  "leaves K m \<longleftrightarrow> (\<forall>s k. K k \<longrightarrow> rec_get k (snd (m s)) = rec_get k s)"

definition pleaves :: "(string \<Rightarrow> bool) \<Rightarrow> 'a ptx \<Rightarrow> bool" where
  "pleaves K m \<longleftrightarrow> (\<forall>s k. K k \<longrightarrow> rec_get k (fst (snd (m s))) = rec_get k (fst s))"

named_theorems frame_rules \<open>what an operation leaves alone\<close>

lemma leaves_basic [frame_rules]:
  "leaves K (ret x)" "leaves K (raise e)" "leaves K (lift r)" "leaves K (tget k)" "leaves K (tkeys p)" "leaves K (Pair r)"
  by (simp_all add: leaves_def)

lemma leaves_andThen [frame_rules]: "leaves K m \<Longrightarrow> (\<And>x. leaves K (f x)) \<Longrightarrow> leaves K (andThen m f)"
  unfolding leaves_def andThen_def by (auto split: prod.splits sum.splits) (metis snd_conv)+

lemma leaves_if [frame_rules]: "leaves K m \<Longrightarrow> leaves K n \<Longrightarrow> leaves K (if b then m else n)"
  by simp

lemma leaves_option [frame_rules]:
  "leaves K m \<Longrightarrow> (\<And>x. leaves K (f x)) \<Longrightarrow> leaves K (case v of None \<Rightarrow> m | Some x \<Rightarrow> f x)"
  by (cases v) auto

lemma leaves_set: "\<not> K k \<Longrightarrow> leaves K (tset k v)"
  by (auto simp: leaves_def)

lemma leaves_reads: "reads m \<Longrightarrow> leaves K m"
  by (simp add: leaves_def reads_def)

lemma leaves_framed: "framed m \<Longrightarrow> (\<And>k. K k \<Longrightarrow> \<not> library_key k) \<Longrightarrow> leaves K m"
  by (auto simp: leaves_def framed_def) (metis prod.collapse)

lemma pleaves_basic [frame_rules]:
  "pleaves K (ret x)" "pleaves K (raise e)" "pleaves K (lift r)" "pleaves K (draw f)" "pleaves K (Pair r)"
  by (simp_all add: pleaves_def draw_def)

lemma pleaves_onRecords [frame_rules]: "leaves K m \<Longrightarrow> pleaves K (onRecords m)"
  by (auto simp: pleaves_def leaves_def onRecords_def split: prod.splits) (metis snd_conv)

lemma pleaves_andThen [frame_rules]: "pleaves K m \<Longrightarrow> (\<And>x. pleaves K (f x)) \<Longrightarrow> pleaves K (andThen m f)"
  unfolding pleaves_def andThen_def by (auto split: prod.splits sum.splits) (metis fst_conv snd_conv)+

lemma pleaves_if [frame_rules]: "pleaves K m \<Longrightarrow> pleaves K n \<Longrightarrow> pleaves K (if b then m else n)"
  by simp

lemma pleaves_option [frame_rules]:
  "pleaves K m \<Longrightarrow> (\<And>x. pleaves K (f x)) \<Longrightarrow> pleaves K (case v of None \<Rightarrow> m | Some x \<Rightarrow> f x)"
  by (cases v) auto

definition cli_key :: "string \<Rightarrow> bool" where
  "cli_key k = prefix ''cli:'' k"

lemma cli_not_library: "cli_key k \<Longrightarrow> \<not> library_key k"
  by (auto simp: cli_key_def library_key_def prefix_def)

lemma client_names_not_cli [simp]:
  "\<not> cli_key (trust_key a)" "\<not> cli_key (outbox_key a m)" "\<not> cli_key (inbox_key a m)" "\<not> cli_key (pre_key i)"
  "\<not> cli_key (signed_key i)" "\<not> cli_key (kyber_key i)" "\<not> cli_key ''device''" "\<not> cli_key ''identity''"
  "\<not> cli_key oneTimePreKeyPointer" "\<not> cli_key (session_key a)"
  by (simp_all add: cli_key_def trust_key_def outbox_key_def inbox_key_def pre_key_def signed_key_def kyber_key_def
      oneTimePreKeyPointer_def session_key_def)

lemma leaves_run [frame_rules]: "leaves cli_key (run_prog L p)"
  by (rule leaves_framed [OF framed_run cli_not_library])

lemma leaves_client_reads [frame_rules]:
  "leaves cli_key (getIdentityKey L)" "leaves cli_key (getIdentity L a)" "leaves cli_key (getSession L a)"
  "leaves cli_key (isTrustedIdentity L a k)" "leaves cli_key (requireRecord k)" "leaves cli_key currentOneTimePreKeyId"
  "leaves cli_key (publicBundle L a)" "leaves cli_key (retry_message a m)"
  by (intro leaves_reads read_ops)+

lemma leaves_client_set [frame_rules]: "\<not> cli_key k \<Longrightarrow> leaves cli_key (tset k v)"
  by (rule leaves_set)

lemma leaves_create [frame_rules]: "leaves cli_key (create_client L F now a)"
  unfolding create_client_def Let_def by (intro frame_rules; simp)

lemma leaves_rotate [frame_rules]: "leaves cli_key (rotateOneTimePreKey L pre)"
  unfolding rotateOneTimePreKey_def Let_def by (intro frame_rules; simp)

lemma leaves_approve [frame_rules]: "leaves cli_key (approveRemote L a key)"
  unfolding approveRemote_def by (intro frame_rules; simp)

lemma leaves_establish [frame_rules]: "leaves cli_key (establish L self a b)"
  unfolding establish_def by (intro frame_rules; simp)

lemma leaves_encrypt [frame_rules]: "leaves cli_key (encrypt_message L P self a m text)"
  unfolding encrypt_message_def Let_def case_prod_unfold by (intro frame_rules; simp)

lemma leaves_decrypt [frame_rules]: "leaves cli_key (decrypt_message L self a msg)"
  unfolding decrypt_message_def by (intro frame_rules; simp)

lemma reads_export [frame_rules]: "leaves K (exportSignedSignalBundleV2 L P a r k c e now i)"
  unfolding exportSignedSignalBundleV2_def Let_def case_prod_unfold
  by (intro leaves_reads read_ops)

lemma pleaves_profile [frame_rules]:
  "pleaves K readMetadata" "pleaves cli_key (open_client E local)" "pleaves cli_key (signBundle E)"
  "pleaves cli_key (rotate_prekey E)" "pleaves K (readPublicationSlot slot)" "pleaves K (signEnvelopeBinding E b)"
  unfolding readMetadata_def open_client_def signBundle_def rotate_prekey_def readPublicationSlot_def
    signEnvelopeBinding_def
  by (intro frame_rules)+

subsection \<open>The publication pool is restored once\<close>

lemma slot_key_inj [simp]: "publicationSlotKey i = publicationSlotKey j \<longleftrightarrow> i = j"
  by (auto simp: publicationSlotKey_def publicationKey_def)

lemma slot_key_cli [simp]: "cli_key (publicationSlotKey i)"
  by (simp add: cli_key_def publicationSlotKey_def publicationKey_def)

lemma set_prop_wf: "wf_json v \<Longrightarrow> wf_json w \<Longrightarrow> wf_json (set_prop v k w)"
  by (cases v) (auto simp: distinct_obj_put wf_members_put)

lemma wire_of_bundle_wf: "wf_json r \<Longrightarrow> wf_json (wire_of_bundle b i r c e)"
  by (auto simp: wire_of_bundle_def key_json_def split: option.splits)

lemma export_wf:
  assumes "exportSignedSignalBundleV2 L P self r k c e now i s = (Inr b, s')"
  shows "wf_json b"
proof -
  from assms obtain q pb unsigned sig where q: "copyJson r = Inr q"
    and u: "zparse SignalPreKeyBundleV2Schema (wire_of_bundle pb i q (case c of None \<Rightarrow> now | Some t \<Rightarrow> t)
       (case e of None \<Rightarrow> (case c of None \<Rightarrow> now | Some t \<Rightarrow> t) + seven_days | Some t \<Rightarrow> t)) = Some unsigned"
    and b: "b = set_prop unsigned ''signature'' (JStr sig)"
    by (auto simp: exportSignedSignalBundleV2_def andThen_Inr_iff bindR_Inr_iff Let_def case_prod_unfold
        split: if_splits)
  have "wf_json q" using q by (auto simp: copyJson_def dest: decode_wf)
  from zparse_idem [OF wf_bundle_schema wire_of_bundle_wf [OF this] u] b show ?thesis
    by (simp add: set_prop_wf)
qed

definition slot_member :: "records \<Rightarrow> nat \<Rightarrow> json option result" where
  "slot_member rs slot =
     (case rec_get (publicationSlotKey slot) rs of
        None \<Rightarrow> Inr None
      | Some b \<Rightarrow> bindR (stored_bundle b) (\<lambda>v. Inr (Some v)))"

lemma readPublicationSlot_result: "readPublicationSlot slot (rs, t) = (slot_member rs slot, (rs, t))"
  by (auto simp: readPublicationSlot_def slot_member_def andThen_def onRecords_def split: option.splits)

lemma slot_member_None: "slot_member rs i = Inr m \<Longrightarrow> m = None \<longleftrightarrow> rec_get (publicationSlotKey i) rs = None"
  by (auto simp: slot_member_def bindR_Inr_iff split: option.splits)

lemma stored_publication:
  assumes "zod_parse publicationSchema (publication_json b) = Inr p" "wf_json b"
  shows "stored_bundle (encode p) = Inr b"
proof -
  from assms(1) have a: "accepts SignalPreKeyBundleV2Schema b" "p = publication_json b"
    by (auto simp: zod_parse_def publicationSchema_def publication_json_def literal_number_def split: if_splits option.splits)
  have "wf_json (publication_json b)" using assms(2) by (simp add: publication_json_def)
  from json.dec_enc [OF this] assms(1) a(2) show ?thesis
    by (simp add: stored_bundle_def) (simp add: publication_json_def)
qed

lemma mint_result:
  assumes "mintPublicationSlot E slot fresh (rs, t) = (Inr b, (rs', t'))"
  shows "slot_member rs' slot = Inr (Some b)"
    and "cli_key k \<Longrightarrow> k \<noteq> publicationSlotKey slot \<Longrightarrow> rec_get k rs' = rec_get k rs"
proof -
  let ?pre = "if fresh then rotate_prekey E else ret ()"
  from assms obtain rs1 t1 rs2 t2 p where r: "?pre (rs, t) = (Inr (), (rs1, t1))"
    and b: "signBundle E (rs1, t1) = (Inr b, (rs2, t2))"
    and p: "zod_parse publicationSchema (publication_json b) = Inr p"
    and rs': "rs' = rec_set (publicationSlotKey slot) (encode p) rs2"
    by (auto simp: mintPublicationSlot_def andThen_Inr_iff onRecords_def)
  have "wf_json b"
    using b by (auto simp: signBundle_def andThen_Inr_iff onRecords_iff dest: export_wf)
  from stored_publication [OF p this] rs' show "slot_member rs' slot = Inr (Some b)"
    by (simp add: slot_member_def)
  have "pleaves cli_key ?pre" "pleaves cli_key (signBundle E)" by (intro frame_rules)+
  then show "rec_get k rs' = rec_get k rs" if "cli_key k" "k \<noteq> publicationSlotKey slot"
    using that r b rs' unfolding pleaves_def by (metis fst_conv kv.get_put snd_conv)
qed

lemma read_slots_result:
  "read_slots slots (rs, t) = (Inr ms, s) \<longleftrightarrow> s = (rs, t) \<and> list_all2 (\<lambda>i m. slot_member rs i = Inr m) slots ms"
proof (induction slots arbitrary: ms)
  case (Cons i slots)
  have "read_slots (i # slots) (rs, t) = (Inr ms, s) \<longleftrightarrow>
      (\<exists>m ms'. slot_member rs i = Inr m \<and> read_slots slots (rs, t) = (Inr ms', s) \<and> ms = m # ms')"
    by (cases s) (auto simp: andThen_Inr_iff readPublicationSlot_result)
  with Cons.IH show ?case by (cases s) (auto simp: list_all2_Cons1)
qed auto

lemma list_upt_members:
  "list_all2 (\<lambda>i m. f i = Inr m) [0..<n] ms \<longleftrightarrow> length ms = n \<and> (\<forall>i < n. f i = Inr (ms ! i))"
  by (auto simp: list_all2_conv_all_nth)

lemma fill_slots_result:
  assumes "fill_slots E slots members k (rs, t) = (Inr (ms, k'), (rs', t'))" "length members = n"
    "\<forall>i < n. slot_member rs i = Inr (members ! i)" "\<forall>i \<in> set slots. i < n" "distinct slots"
  shows "length ms = n \<and> (\<forall>i < n. slot_member rs' i = Inr (ms ! i)) \<and> (\<forall>i \<in> set slots. ms ! i \<noteq> None)
    \<and> (\<forall>i < n. members ! i \<noteq> None \<longrightarrow> ms ! i = members ! i \<and> rec_get (publicationSlotKey i) rs' = rec_get (publicationSlotKey i) rs)
    \<and> k' = k + length (filter (\<lambda>i. members ! i = None) slots)
    \<and> (\<forall>q. cli_key q \<longrightarrow> (\<forall>i. q \<noteq> publicationSlotKey i) \<longrightarrow> rec_get q rs' = rec_get q rs)"
  using assms
proof (induction slots arbitrary: members k rs t)
  case (Cons i slots)
  show ?case
  proof (cases "members ! i")
    case (Some m)
    with Cons.IH [of members k rs t] Cons.prems show ?thesis by auto
  next
    case None
    let ?fresh = "list_ex (\<lambda>m. m \<noteq> None) members"
    obtain b rs1 t1 where m: "mintPublicationSlot E i ?fresh (rs, t) = (Inr b, (rs1, t1))"
      and f: "fill_slots E slots (members[i := Some b]) (Suc k) (rs1, t1) = (Inr (ms, k'), (rs', t'))"
      using Cons.prems(1) None by (auto simp: andThen_Inr_iff)
    note mr = mint_result [OF m]
    have other: "slot_member rs1 j = slot_member rs j" if "j \<noteq> i" for j
      using mr(2) [of "publicationSlotKey j"] that by (simp add: slot_member_def)
    have "\<forall>j < n. slot_member rs1 j = Inr (members[i := Some b] ! j)"
      using Cons.prems(2,3,4) mr(1) other by (auto simp: nth_list_update)
    from Cons.IH [OF f _ this] Cons.prems
    have ih: "length ms = n" "\<forall>j < n. slot_member rs' j = Inr (ms ! j)" "\<forall>j \<in> set slots. ms ! j \<noteq> None"
      "\<forall>j < n. members[i := Some b] ! j \<noteq> None \<longrightarrow> ms ! j = members[i := Some b] ! j
         \<and> rec_get (publicationSlotKey j) rs' = rec_get (publicationSlotKey j) rs1"
      "k' = Suc k + length (filter (\<lambda>j. members[i := Some b] ! j = None) slots)"
      "\<forall>q. cli_key q \<longrightarrow> (\<forall>j. q \<noteq> publicationSlotKey j) \<longrightarrow> rec_get q rs' = rec_get q rs1" by simp_all
    have i: "i < n" "i \<notin> set slots" using Cons.prems by simp_all
    have "ms ! i = Some b" using ih(4) i Cons.prems(2) by simp
    moreover have "filter (\<lambda>j. members[i := Some b] ! j = None) slots = filter (\<lambda>j. members ! j = None) slots"
      using i(2) by (intro filter_cong refl) (metis nth_list_update_neq)
    moreover have "ms ! j = members ! j \<and> rec_get (publicationSlotKey j) rs' = rec_get (publicationSlotKey j) rs"
      if "j < n" "members ! j \<noteq> None" for j
      using ih(4) that None mr(2) [of "publicationSlotKey j"] by (cases "j = i") auto
    ultimately show ?thesis using ih None mr(2) by auto
  qed
qed auto

subsection \<open>Transactions\<close>

lemma transact_Inr:
  "transact E m w = (Inr x, w') \<longleftrightarrow> \<not> en_fault E (w_tick w)
     \<and> (\<exists>rs t. m (w_records w, Suc (w_tick w)) = (Inr x, (rs, t)) \<and> \<not> en_fault E t
          \<and> w' = w\<lparr>w_records := rs, w_tick := Suc t, w_commits := rs # w_commits w\<rparr>)"
  by (auto simp: transact_def split: prod.splits sum.splits)

lemma transact_Inl:
  assumes "transact E m w = (Inl e, w')"
  shows "w_records w' = w_records w \<and> w_commits w' = w_commits w \<and> w_relay w' = w_relay w"
  using assms by (auto simp: transact_def split: prod.splits sum.splits if_splits)

lemma transact_relay [simp]: "w_relay (snd (transact E m w)) = w_relay w"
  by (auto simp: transact_def split: prod.splits sum.splits)

text \<open>The error a transaction reports: a fault of the store, or what the operation raised.\<close>

lemma transact_error:
  assumes "transact E m w = (Inl e, w')"
  shows "e = PersistenceError \<or> fst (m (w_records w, Suc (w_tick w))) = Inl e"
  using assms by (auto simp: transact_def split: prod.splits sum.splits if_splits)

lemma transact_reads:
  assumes "transact E m w = (r, w')" "pleaves (\<lambda>_. True) m"
  shows "rec_get k (w_records w') = rec_get k (w_records w)"
  using assms by (auto simp: transact_def pleaves_def split: prod.splits sum.splits if_splits) (metis fst_conv snd_conv)

lemma readMetadata_result:
  "readMetadata (rs, t) =
     (case rec_get metadataKey rs of
        None \<Rightarrow> Inl (ProfileError ''Missing profile identity; refusing replacement'')
      | Some b \<Rightarrow> bindR (decode b) (zod_parse metadataSchema), (rs, t))"
  by (auto simp: readMetadata_def andThen_def onRecords_def split: option.splits)

text \<open>The metadata record of a profile, decoded and checked.\<close>

definition profile_metadata :: "records \<Rightarrow> json \<Rightarrow> bool" where
  "profile_metadata rs m \<longleftrightarrow> (\<exists>b. rec_get metadataKey rs = Some b \<and> bindR (decode b) (zod_parse metadataSchema) = Inr m)"

lemma readMetadata_Inr: "readMetadata s = (Inr m, u) \<longleftrightarrow> u = s \<and> profile_metadata (fst s) m"
  by (cases s) (auto simp: readMetadata_result profile_metadata_def split: option.splits)

lemma profile_metadata_unique: "profile_metadata rs m \<Longrightarrow> profile_metadata rs m' \<Longrightarrow> m = m'"
  by (auto simp: profile_metadata_def)

lemma device_keys:
  "deviceSecretKey (profile_identity E m) = encodeBase64Url (snd (identity_seed (en_prims E) (str_prop m ''seed'') ''device:cli-device''))"
  "devicePubKey (profile_identity E m) = encodeBase64Url (fst (identity_seed (en_prims E) (str_prop m ''seed'') ''device:cli-device''))"
  by (simp_all add: profile_identity_def createIdentityProfile_def Let_def or_default_def derived_key)

lemma authorization_succeeds:
  assumes "\<And>t. \<not> en_fault E t" "profile_metadata (w_records w) m"
    "signing_keys (en_prims E) (identity_seed (en_prims E) (str_prop m ''seed'') ''device:cli-device'')"
  shows "\<exists>a w'. mailboxAuthorization E operation w = (Inr a, w')"
proof -
  let ?sk = "snd (identity_seed (en_prims E) (str_prop m ''seed'') ''device:cli-device'')"
  have rm: "readMetadata (w_records w, t) = (Inr m, (w_records w, t))" for t
    using assms(2) by (simp add: readMetadata_Inr)
  have "\<exists>sig. sign_detached (en_prims E) x ?sk = Inr sig" for x
    using assms(3) by (auto simp: signing_keys_def)
  then have "\<exists>sig. signUtf8Message (en_prims E) x (KeyBytes ?sk) = Inr sig" for x
    by (auto simp: signUtf8Message_def) (metis bindR_simps(2))
  then obtain sig where "signUtf8Message (en_prims E) (operation_text (deriveMailboxId (en_prims E)
      (str_prop (device_record m) ''identity_id'')) (str_prop (device_record m) ''device_id'') operation) (KeyBytes ?sk) = Inr sig"
    by blast
  then show ?thesis using assms(1) rm
    by (simp add: mailboxAuthorization_def transact_def andThen_def Let_def device_keys)
qed

subsection \<open>The runtime boundary\<close>

text \<open>\<open>preads m\<close>: inside a transaction, \<open>m\<close> changes no record.\<close>

definition preads :: "'a ptx \<Rightarrow> bool" where
  "preads m \<longleftrightarrow> (\<forall>s. fst (snd (m s)) = fst s)"

named_theorems pread_rules \<open>operations of a transaction that change no record\<close>

lemma preads_basic [pread_rules]:
  "preads (ret x)" "preads (raise e)" "preads (lift r)" "preads (draw f)" "preads (Pair r)" "preads readMetadata"
  by (auto simp: preads_def draw_def readMetadata_def andThen_def onRecords_def split: sum.splits option.splits)

lemma preads_onRecords [pread_rules]: "reads m \<Longrightarrow> preads (onRecords m)"
  by (auto simp: preads_def reads_def onRecords_def split: prod.splits) (metis snd_conv)

lemma preads_andThen [pread_rules]: "preads m \<Longrightarrow> (\<And>x. preads (f x)) \<Longrightarrow> preads (andThen m f)"
  unfolding preads_def andThen_def by (auto split: prod.splits sum.splits) (metis fst_conv snd_conv)+

lemma preads_if [pread_rules]: "preads m \<Longrightarrow> preads n \<Longrightarrow> preads (if b then m else n)"
  by simp

lemma preads_option [pread_rules]:
  "preads m \<Longrightarrow> (\<And>x. preads (f x)) \<Longrightarrow> preads (case v of None \<Rightarrow> m | Some x \<Rightarrow> f x)"
  by (cases v) auto

lemma transact_preads:
  assumes "preads m"
  shows "w_records (snd (transact E m w)) = w_records w"
  using assms by (auto simp: transact_def preads_def split: prod.splits sum.splits) (metis fst_conv snd_conv)+

lemma create_client_nonempty:
  assumes "rec_keys [] s \<noteq> []"
  shows "snd (create_client L F now a s) = s"
  using assms
  by (auto simp: create_client_def andThen_def dest: reads_same [OF reads_getters(1)]
      split: option.splits sum.splits prod.splits if_splits)

lemma open_client_nonempty:
  assumes "rec_keys [] rs \<noteq> []"
  shows "fst (snd (open_client E local (rs, t))) = rs"
  using create_client_nonempty [OF assms]
  by (auto simp: open_client_def andThen_def draw_def onRecords_def split: sum.splits prod.splits) (metis snd_conv)+

text \<open>A profile with metadata opens its client without a write, so a runtime operation starts from its records.\<close>

lemma metadata_nonempty: "profile_metadata rs m \<Longrightarrow> rec_keys [] rs \<noteq> []"
  using kv.keyset_get [of metadataKey rs] by (auto simp: profile_metadata_def)

lemma withRuntime_Inr:
  assumes "withRuntime E f w = (Inr x, w')"
  obtains m self t u where "profile_metadata (w_records w) m" "record_address (device_record m) = Inr self"
    "f self (device_record m) (w_records w, t) = (Inr x, (w_records w', u))"
    "w_relay w' = w_relay w" "w_commits w' = w_records w' # w_commits w" "w_tick w \<le> t"
proof -
  from assms obtain m self rs1 t1 rs2 t2 where
    m: "profile_metadata (w_records w) m" and
    o: "open_client E (device_record m) (w_records w, Suc (w_tick w)) = (Inr self, (rs1, t1))" and
    f: "f self (device_record m) (rs1, t1) = (Inr x, (rs2, t2))" and
    w': "w' = w\<lparr>w_records := rs2, w_tick := Suc t2, w_commits := rs2 # w_commits w\<rparr>"
    by (auto simp: withRuntime_def transact_Inr andThen_Inr_iff readMetadata_Inr Let_def)
  have "rs1 = w_records w"
    using open_client_nonempty [OF metadata_nonempty [OF m], of E "device_record m" "Suc (w_tick w)"] o by simp
  moreover have "record_address (device_record m) = Inr self" "w_tick w \<le> t1"
    using o by (auto simp: open_client_def andThen_Inr_iff onRecords_iff)
  ultimately show ?thesis using that [of m self t1 t2] m f w' by simp
qed

lemma withRuntime_Inl:
  "withRuntime E f w = (Inl e, w') \<Longrightarrow> w_records w' = w_records w \<and> w_commits w' = w_commits w \<and> w_relay w' = w_relay w"
  unfolding withRuntime_def by (rule transact_Inl)

lemma withRuntime_preads:
  assumes "withRuntime E f w = (r, w')" "\<And>self local. preads (f self local)"
  shows "w_records w' = w_records w"
proof (cases r)
  case (Inr x)
  with assms show ?thesis by (auto elim!: withRuntime_Inr simp: preads_def) (metis fst_conv snd_conv)
next
  case (Inl e)
  with assms(1) show ?thesis by (auto dest: withRuntime_Inl)
qed

lemma withRuntime_relay: "withRuntime E f w = (r, w') \<Longrightarrow> w_relay w' = w_relay w"
  by (drule arg_cong [of _ _ snd]) (auto simp: withRuntime_def)

subsection \<open>A concrete profile\<close>

definition toy_env :: env where
  "toy_env = \<lparr>en_prims = flat_primitives, en_lib = toy_libsignal, en_uuid5 = (\<lambda>_. sample_uuid),
     en_seed = (\<lambda>_. ''seed''), en_uuid = (\<lambda>_. sample_uuid),
     en_keys = (\<lambda>_. \<lparr>fresh_identity = ''i'', fresh_pre = ''p'', fresh_signed = ''s'', fresh_kyber = ''y'', fresh_registration = 7\<rparr>),
     en_clock = (\<lambda>_. 6), en_fault = (\<lambda>_. False)\<rparr>"

lemma toy_env_simps [simp]:
  "en_prims toy_env = flat_primitives" "en_lib toy_env = toy_libsignal" "en_clock toy_env t = 6"
  "en_uuid toy_env t = sample_uuid" "en_fault toy_env t = False"
  by (simp_all add: toy_env_def)

definition toy_metadata :: json where
  "toy_metadata = JObj [(''version'', JNum 1), (''profile_id'', JStr sample_uuid), (''seed'', JStr ''seed''),
     (''device_record'', sample_device)]"

definition toy_world :: "'r \<Rightarrow> (string \<times> bytes) list \<Rightarrow> 'r world" where
  "toy_world r kvs = \<lparr>w_records = (metadataKey, encode toy_metadata) # kvs, w_tick = 0, w_relay = r, w_commits = []\<rparr>"

lemma sample_uuid_uuid [simp]: "is_uuid sample_uuid"
  by code_simp

lemma toy_profile_metadata [simp]: "profile_metadata ((metadataKey, encode toy_metadata) # kvs) toy_metadata"
proof -
  have "wf_json toy_metadata" by (simp add: toy_metadata_def sample_device_def sample_key_def)
  from json.dec_enc [OF this] have d: "decode (encode toy_metadata) = Inr toy_metadata" .
  have "accepts (strict_schema DeviceRecordSchema) sample_device"
    by (simp add: accepts_def DeviceRecordSchema_def sample_device_def capability_fields_def literal_text_def
        literal_number_def any_string_def uuid_string_def any_number_def sample_key_def)
  then have "zod_parse metadataSchema toy_metadata = Inr toy_metadata"
    by (simp add: zod_parse_def metadataSchema_def toy_metadata_def literal_number_def uuid_string_def)
  with d show ?thesis by (simp add: profile_metadata_def rec_get_def)
qed

subsection \<open>Properties\<close>

text \<open>
  The profile's storage boundary refines the encrypted store: run on a file that holds the
  profile's records, a transaction of the store and the profile's agree - the file afterwards holds
  the profile's records, the result is the same - except that a commit the database refuses is
  reported as a \<open>PersistenceError\<close>, the operation's own errors keeping their type.
\<close>

theorem transact_refines_store:
  assumes "aead_ok A" "length nonce = 12" "holds A st (w_records w)" "\<not> en_fault E (w_tick w)"
    "m (w_records w, Suc (w_tick w)) = (r, (rs, t))" "wf_records rs"
    "perform A nonce (if en_fault E t then Some e else None) (\<lambda>s. case m (s, Suc (w_tick w)) of (r, (rs, _)) \<Rightarrow> (r, rs)) st
       = (res, st')"
  shows "holds A st' (w_records (snd (transact E m w)))
    \<and> fst (transact E m w) = (if (\<exists>x. r = Inr x) \<and> en_fault E t then Inl PersistenceError else res)"
  using assms
  by (cases r) (auto simp: transact_def perform_def holds_def read_write_row)

lemma toy_aead_exists: "aead_ok \<lparr>seal = (\<lambda>k n a p. (p, replicate 16 CHR ''t'')), unseal = (\<lambda>k n a c t. Some c)\<rparr>"
  by (simp add: aead_ok_def)

theorem transact_refines_store_witness:
  "\<exists>A st st'. perform A (replicate 12 CHR ''n'') None (\<lambda>s. case onRecords (tset ''k'' ''v'') (s, Suc 0) of (r, (rs, _)) \<Rightarrow> (r, rs)) st
       = (Inr (), st') \<and> holds A st' (rec_set ''k'' ''v'' (w_records (toy_world () [])))"
proof -
  define A where "A = \<lparr>seal = (\<lambda>k n a p. (p, replicate 16 CHR ''t'')), unseal = (\<lambda>k n a c t. Some c)\<rparr>"
  define w where "w = toy_world () []"
  define st where "st = \<lparr>file_row = Some (write_row A ''k'' (replicate 12 CHR ''n'') (w_records w)), file_key = ''k''\<rparr>"
  have A: "aead_ok A" using toy_aead_exists by (simp add: A_def)
  have wf: "wf_records (w_records w)" by (simp add: w_def toy_world_def wf_records_def)
  have h: "holds A st (w_records w)" using read_write_row [OF A _ wf] by (simp add: holds_def st_def)
  have m: "onRecords (tset ''k'' ''v'') (w_records w, Suc (w_tick w)) = (Inr (), (rec_set ''k'' ''v'' (w_records w), Suc 0))"
    by (simp add: onRecords_def w_def toy_world_def)
  let ?op = "\<lambda>s. case onRecords (tset ''k'' ''v'') (s, Suc (w_tick w)) of (r, (rs, _)) \<Rightarrow> (r, rs)"
  obtain res st' where p: "perform A (replicate 12 CHR ''n'') None ?op st = (res, st')" by fastforce
  then have p': "perform A (replicate 12 CHR ''n'') (if en_fault toy_env (Suc 0) then Some PersistenceError else None) ?op st = (res, st')"
    by simp
  have wf': "wf_records (rec_set ''k'' ''v'' (w_records w))" by (rule kv.inv_put [OF wf])
  have t: "transact toy_env (onRecords (tset ''k'' ''v'')) w
      = (Inr (), w\<lparr>w_records := rec_set ''k'' ''v'' (w_records w), w_tick := Suc (Suc 0),
           w_commits := rec_set ''k'' ''v'' (w_records w) # w_commits w\<rparr>)"
    unfolding transact_Inr m by simp
  have "holds A st' (w_records (snd (transact toy_env (onRecords (tset ''k'' ''v'')) w)))
     \<and> fst (transact toy_env (onRecords (tset ''k'' ''v'')) w) = res"
    using transact_refines_store [OF A _ h _ m wf' p'] by (simp del: tx_active)
  with t p show ?thesis by (auto simp: w_def toy_world_def)
qed

text \<open>
  A mailbox authorization is the device's and changes nothing: for a profile whose device
  record names the key derived from its seed, what the profile signs for a challenge, a poll (with
  or without a read position) or an acknowledgement names its own mailbox and device, verifies
  under the published device key over exactly that transcript, and no record is written.
\<close>

theorem authorization_verifies:
  assumes "mailboxAuthorization E operation w = (Inr a, w')" "profile_metadata (w_records w) m"
    "signing_keys (en_prims E) (identity_seed (en_prims E) (str_prop m ''seed'') ''device:cli-device'')"
    "str_prop (device_record m) ''device_pubkey'' = devicePubKey (profile_identity E m)"
  shows "w_records w' = w_records w
    \<and> (\<exists>mailbox device signature. mailbox = deriveMailboxId (en_prims E) (str_prop (device_record m) ''identity_id'')
        \<and> device = str_prop (device_record m) ''device_id''
        \<and> a = [(''recipient_mailbox_id'', JStr mailbox), (''device_id'', JStr device), (''signature'', JStr signature)]
        \<and> verifyUtf8Message (en_prims E) (operation_text mailbox device operation) signature
            (KeyText (str_prop (device_record m) ''device_pubkey'')) = Inr True)"
proof -
  let ?kp = "identity_seed (en_prims E) (str_prop m ''seed'') ''device:cli-device''"
  note s = device_keys [of E m]
  define t where "t = operation_text (deriveMailboxId (en_prims E) (str_prop (device_record m) ''identity_id''))
    (str_prop (device_record m) ''device_id'') operation"
  have rm: "readMetadata (w_records w, i) = (Inr m, (w_records w, i))" for i
    using assms(2) by (simp add: readMetadata_Inr)
  obtain sig where sig: "signUtf8Message (en_prims E) t (KeyBytes (snd ?kp)) = Inr sig"
    and a: "a = [(''recipient_mailbox_id'', JStr (deriveMailboxId (en_prims E) (str_prop (device_record m) ''identity_id''))),
       (''device_id'', JStr (str_prop (device_record m) ''device_id'')), (''signature'', JStr sig)]"
    and w: "w_records w' = w_records w"
  proof (cases "signUtf8Message (en_prims E) t (KeyBytes (snd ?kp))")
    case (Inl e)
    with assms(1) rm show ?thesis
      by (simp add: mailboxAuthorization_def transact_def andThen_def Let_def s t_def split: if_splits)
  next
    case (Inr sig)
    with assms(1) rm that [of sig] show ?thesis
      by (simp add: mailboxAuthorization_def transact_def andThen_def Let_def s t_def split: if_splits) auto
  qed
  have "normalizeKeyBytes (KeyText (encodeBase64Url (fst ?kp))) = Inr (fst ?kp)" by simp
  from sign_deterministic_verify [OF signing_keys_sound [OF assms(3)] _ this sig]
  have "verifyUtf8Message (en_prims E) t sig (KeyText (encodeBase64Url (fst ?kp))) = Inr True" by simp
  with a w s(2) assms(4) show ?thesis by (auto simp: t_def)
qed

lemma toy_device_key: "str_prop (device_record toy_metadata) ''device_pubkey'' = devicePubKey (profile_identity toy_env toy_metadata)"
proof -
  have "device_record toy_metadata = sample_device" by (simp add: device_record_def toy_metadata_def)
  moreover have "devicePubKey (profile_identity toy_env toy_metadata) = encodeBase64Url (replicate 32 CHR ''k'')"
    by (simp add: profile_identity_def createIdentityProfile_def Let_def derived_key identity_seed_def toy_env_def flat_primitives_def)
  ultimately show ?thesis by (simp add: sample_identity_def)
qed

theorem authorization_verifies_witness:
  "\<exists>a w'. mailboxAuthorization toy_env (AckOp [''e1'']) (toy_world () []) = (Inr a, w')
     \<and> w_records w' = w_records (toy_world () [])"
proof -
  have "\<exists>a w'. mailboxAuthorization toy_env (AckOp [''e1'']) (toy_world () []) = (Inr a, w')"
    by (rule authorization_succeeds [where m = toy_metadata]) (simp_all add: toy_world_def)
  then obtain a w' where m: "mailboxAuthorization toy_env (AckOp [''e1'']) (toy_world () []) = (Inr a, w')"
    by blast
  have p: "profile_metadata (w_records (toy_world () [])) toy_metadata" by (simp add: toy_world_def)
  have "signing_keys (en_prims toy_env) kp" if "kp = identity_seed (en_prims toy_env) sd n" for kp sd n
    using that by (simp add: toy_env_def)
  from authorization_verifies [OF m p this [OF refl] toy_device_key] m show ?thesis by blast
qed

lemma restore_unfold:
  assumes "restorePublicationPool E w = (Inr (ms, minted), w')"
  obtains members filled rs t where "length members = poolTarget" "length filled = poolTarget"
    "\<forall>i < poolTarget. slot_member (w_records w) i = Inr (members ! i)"
    "\<forall>i < poolTarget. slot_member rs i = Inr (filled ! i) \<and> filled ! i \<noteq> None"
    "\<forall>i < poolTarget. members ! i \<noteq> None \<longrightarrow> rec_get (publicationSlotKey i) rs = rec_get (publicationSlotKey i) (w_records w)"
    "minted = length (filter (\<lambda>i. members ! i = None) (rev [0..<poolTarget]))"
    "ms = map the filled" "w_records w' = rs"
proof -
  from assms obtain members s filled rs t where
    r: "read_slots [0..<poolTarget] (w_records w, Suc (w_tick w)) = (Inr members, s)"
    and f: "fill_slots E (rev [0..<poolTarget]) members 0 s = (Inr (filled, minted), (rs, t))"
    and e: "ms = map the filled" "w_records w' = rs"
    by (auto simp: restorePublicationPool_def transact_Inr andThen_Inr_iff)
  from r have m: "s = (w_records w, Suc (w_tick w))" "length members = poolTarget"
    "\<forall>i < poolTarget. slot_member (w_records w) i = Inr (members ! i)"
    by (auto simp: read_slots_result list_upt_members)
  from fill_slots_result [OF f [unfolded m(1)] m(2,3)] m(2,3) e that [of members filled rs] show ?thesis
    by simp
qed

lemma filter_rev_length: "length (filter p (rev xs)) = length (filter p xs)"
  by (simp flip: rev_filter)

lemma full_pool_unchanged:
  assumes "\<forall>i < poolTarget. slot_member (w_records w) i = Inr (Some (ms ! i))" "length ms = poolTarget"
    "\<not> en_fault E (w_tick w)" "\<not> en_fault E (Suc (w_tick w))"
  shows "\<exists>w'. restorePublicationPool E w = (Inr (ms, 0), w') \<and> w_records w' = w_records w"
proof -
  have r: "read_slots [0..<poolTarget] (w_records w, Suc (w_tick w)) = (Inr (map Some ms), (w_records w, Suc (w_tick w)))"
    using assms(1,2) by (simp add: read_slots_result list_upt_members)
  have f: "fill_slots E slots (map Some ms) k s = (Inr (map Some ms, k), s)" if "\<forall>i \<in> set slots. i < poolTarget" for slots k s
    using that assms(2) by (induction slots arbitrary: k) auto
  have "map (\<lambda>x. the (Some x)) ms = ms" by simp
  then show ?thesis
    using r f [of "rev [0..<poolTarget]" 0] assms(3,4)
    by (simp add: restorePublicationPool_def transact_def andThen_def comp_def)
qed

text \<open>
  The publication pool is restored once: a successful restore returns twenty members, each
  the durable bundle of its slot, leaves every member that was already stored as it was byte for
  byte, and reports exactly the number of empty slots; restoring again returns the same members,
  mints nothing and changes no record.
\<close>

theorem pool_restored:
  assumes "restorePublicationPool E w = (Inr (ms, minted), w')"
  shows "length ms = 20
    \<and> (\<forall>i. i < 20 \<longrightarrow> slot_member (w_records w') i = Inr (Some (ms ! i)))
    \<and> (\<forall>i. i < 20 \<and> rec_get (publicationSlotKey i) (w_records w) \<noteq> None \<longrightarrow>
          rec_get (publicationSlotKey i) (w_records w') = rec_get (publicationSlotKey i) (w_records w))
    \<and> minted = length (filter (\<lambda>i. rec_get (publicationSlotKey i) (w_records w) = None) [0..<20])
    \<and> (\<not> en_fault E (w_tick w') \<and> \<not> en_fault E (Suc (w_tick w')) \<longrightarrow>
          (\<exists>w''. restorePublicationPool E w' = (Inr (ms, 0), w'') \<and> w_records w'' = w_records w'))"
proof -
  have n: "poolTarget = 20" by (simp add: poolTarget_def LIMITS_def)
  obtain members filled rs t where r: "length members = poolTarget" "length filled = poolTarget"
    "\<forall>i < poolTarget. slot_member (w_records w) i = Inr (members ! i)"
    "\<forall>i < poolTarget. slot_member rs i = Inr (filled ! i) \<and> filled ! i \<noteq> None"
    "\<forall>i < poolTarget. members ! i \<noteq> None \<longrightarrow> rec_get (publicationSlotKey i) rs = rec_get (publicationSlotKey i) (w_records w)"
    "minted = length (filter (\<lambda>i. members ! i = None) (rev [0..<poolTarget]))"
    "ms = map the filled" "w_records w' = rs"
    by (rule restore_unfold [OF assms])
  have m: "members ! i = None \<longleftrightarrow> rec_get (publicationSlotKey i) (w_records w) = None" if "i < poolTarget" for i
    using slot_member_None r(3) that by blast
  have s: "\<forall>i < poolTarget. slot_member (w_records w') i = Inr (Some (ms ! i))" using r(2,4,7,8) by auto
  have c: "minted = length (filter (\<lambda>i. rec_get (publicationSlotKey i) (w_records w) = None) [0..<poolTarget])"
    unfolding r(6) filter_rev_length using m by (intro arg_cong [of _ _ length] filter_cong) simp_all
  have l: "length ms = poolTarget" using r(2,7) by simp
  show ?thesis
    using s l c r(5,8) m full_pool_unchanged [OF s l, of E] by (simp add: n)
qed

definition full_pool :: records where
  "full_pool = map (\<lambda>i. (publicationSlotKey i, encode (publication_json (sample_bundle CHR ''a'' 7)))) [0..<20]"

lemma full_pool_member: "i < 20 \<Longrightarrow> slot_member ((metadataKey, m) # full_pool) i = Inr (Some (sample_bundle CHR ''a'' 7))"
proof -
  assume "i < 20"
  then have "map_of full_pool (publicationSlotKey i) = Some (encode (publication_json (sample_bundle CHR ''a'' 7)))"
    by (intro map_of_is_SomeI) (auto simp: full_pool_def comp_def distinct_map inj_on_def)
  moreover have "publicationSlotKey i \<noteq> metadataKey"
    by (simp add: publicationSlotKey_def publicationKey_def metadataKey_def)
  moreover have "zod_parse publicationSchema (publication_json (sample_bundle CHR ''a'' 7)) = Inr (publication_json (sample_bundle CHR ''a'' 7))"
    by (simp add: zod_parse_def publicationSchema_def publication_json_def accepts_def literal_number_def)
  from stored_publication [OF this] have "stored_bundle (encode (publication_json (sample_bundle CHR ''a'' 7))) = Inr (sample_bundle CHR ''a'' 7)"
    by simp
  ultimately show ?thesis by (simp add: slot_member_def rec_get_def)
qed

theorem pool_restored_witness:
  "\<exists>w'. restorePublicationPool toy_env (toy_world () full_pool) = (Inr (replicate 20 (sample_bundle CHR ''a'' 7), 0), w')
     \<and> slot_member (w_records w') 19 = Inr (Some (sample_bundle CHR ''a'' 7))"
proof -
  have n: "poolTarget = 20" by (simp add: poolTarget_def LIMITS_def)
  obtain w' where w': "restorePublicationPool toy_env (toy_world () full_pool) = (Inr (replicate 20 (sample_bundle CHR ''a'' 7), 0), w')"
    using full_pool_unchanged [of "toy_world () full_pool" "replicate 20 (sample_bundle CHR ''a'' 7)" toy_env]
    by (auto simp: toy_world_def full_pool_member n)
  have "slot_member (w_records w') 19 = Inr (Some (replicate 20 (sample_bundle CHR ''a'' 7) ! 19))"
    using pool_restored [OF w'] by auto
  with w' show ?thesis by simp
qed

subsection \<open>Importing a contact\<close>

lemma approve_sets_trust:
  "approveRemote L a k s = (Inr u, s') \<Longrightarrow> rec_get (trust_key a) s' = Some k"
  by (auto simp: approveRemote_def andThen_Inr_iff deserialize_def getIdentity_result split: if_splits option.splits)

definition same_contact :: "records \<Rightarrow> json \<Rightarrow> bool" where
  "same_contact rs identifiers \<longleftrightarrow>
     (case rec_get (contact_key (str_prop identifiers ''identity_id'')) rs of
        None \<Rightarrow> True
      | Some b \<Rightarrow> (\<exists>old. bindR (decode b) (zod_parse contactSchema) = Inr old \<and> stringify old = stringify identifiers))"

text \<open>The transaction of an import whose identifiers were confirmed.\<close>

definition pin_contact :: "env \<Rightarrow> json \<Rightarrow> device_address \<Rightarrow> prekey_bundle \<Rightarrow> bool ptx" where
  "pin_contact E identifiers address bundle =
     (let key = contact_key (str_prop identifiers ''identity_id'') in
      andThen (onRecords (tget key)) (\<lambda>previous.
      andThen (lift (case previous of
          None \<Rightarrow> Inr ()
        | Some b \<Rightarrow> bindR (bindR (decode b) (zod_parse contactSchema)) (\<lambda>old.
            guardR (stringify old = stringify identifiers)
              (ProfileError ''Contact identifiers changed; replacement is not supported'')))) (\<lambda>_.
      andThen readMetadata (\<lambda>metadata.
      andThen (open_client E (device_record metadata)) (\<lambda>_.
      andThen (onRecords (approveRemote (en_lib E) address (b_identityKey bundle))) (\<lambda>_.
      andThen (onRecords (tset key (encode identifiers))) (\<lambda>_.
        ret True)))))))"

lemma import_unfold:
  "importContact E input confirm =
     andThen (lift (bindR (copyJson input) (zod_parse cardSchema))) (\<lambda>card.
       let wire = jprop card ''signal_bundle''; r = jprop wire ''device_record''; identifiers = contact_json wire in
       andThen (drawW (en_clock E)) (\<lambda>now.
       andThen (lift (importVerifiedSignalBundleV2 (en_lib E) (en_prims E) wire (str_prop r ''identity_id'')
                        (str_prop r ''device_id'') now)) (\<lambda>(address, bundle).
       andThen (lift (of_option (ProfileError ''Explicit contact confirmation is required'') confirm)) (\<lambda>ask.
       andThen (lift (ask identifiers)) (\<lambda>ok.
         if \<not> ok then ret False else transact E (pin_contact E identifiers address bundle))))))"
  unfolding importContact_def pin_contact_def Let_def ..

lemma pin_contact_result:
  assumes "pin_contact E identifiers address bundle (rs, t) = (Inr ok, (rs', t'))"
  shows "ok \<and> same_contact rs identifiers \<and> rec_get (trust_key address) rs' = Some (b_identityKey bundle)
    \<and> rec_get (contact_key (str_prop identifiers ''identity_id'')) rs' = Some (encode identifiers)"
proof -
  let ?k = "contact_key (str_prop identifiers ''identity_id'')"
  from assms have c: "same_contact rs identifiers"
    by (auto simp: pin_contact_def Let_def andThen_Inr_iff onRecords_iff same_contact_def bindR_Inr_iff split: option.splits)
  from assms obtain rs1 rs2 where a: "approveRemote (en_lib E) address (b_identityKey bundle) rs1 = (Inr (), rs2)"
    and r: "rs' = rec_set ?k (encode identifiers) rs2" "ok"
    by (auto simp: pin_contact_def Let_def andThen_Inr_iff onRecords_iff)
  have "trust_key address \<noteq> ?k" by (simp add: trust_key_def contact_key_def contact_prefix_def)
  with c approve_sets_trust [OF a] r show ?thesis by simp
qed

lemma drawW_result [simp]: "drawW f w = (r, w') \<longleftrightarrow> r = Inr (f (w_tick w)) \<and> w' = w\<lparr>w_tick := Suc (w_tick w)\<rparr>"
  by (auto simp: drawW_def)

text \<open>
  C25. A contact is pinned only by a verified card the operator confirmed, and never replaced: when
  an import returns true, the confirmation callback was there and said yes to exactly the
  identifiers that are stored, the card's bundle verified, any earlier record of that identity held
  the same identifiers, and the trust record is the card's Signal identity key; after any other
  outcome - refusal, error, storage fault - the records are unchanged.
\<close>

theorem contact_import:
  "case importContact E input confirm w of (res, w') \<Rightarrow>
     if res = Inr True
     then \<exists>crd ask now address bundle.
         bindR (copyJson input) (zod_parse cardSchema) = Inr crd
       \<and> confirm = Some ask \<and> ask (contact_json (jprop crd ''signal_bundle'')) = Inr True
       \<and> importVerifiedSignalBundleV2 (en_lib E) (en_prims E) (jprop crd ''signal_bundle'')
            (str_prop (jprop (jprop crd ''signal_bundle'') ''device_record'') ''identity_id'')
            (str_prop (jprop (jprop crd ''signal_bundle'') ''device_record'') ''device_id'') now = Inr (address, bundle)
       \<and> same_contact (w_records w) (contact_json (jprop crd ''signal_bundle''))
       \<and> rec_get (contact_key (str_prop (contact_json (jprop crd ''signal_bundle'')) ''identity_id'')) (w_records w')
            = Some (encode (contact_json (jprop crd ''signal_bundle'')))
       \<and> rec_get (trust_key address) (w_records w') = Some (b_identityKey bundle)
     else w_records w' = w_records w"
proof (cases "importContact E input confirm w")
  case (Pair res w')
  show ?thesis
  proof (cases "res = Inr True")
    case True
    with Pair obtain crd ask address nb rs t t' where
      c: "bindR (copyJson input) (zod_parse cardSchema) = Inr crd" "confirm = Some ask"
        "ask (contact_json (jprop crd ''signal_bundle'')) = Inr True"
        "importVerifiedSignalBundleV2 (en_lib E) (en_prims E) (jprop crd ''signal_bundle'')
            (str_prop (jprop (jprop crd ''signal_bundle'') ''device_record'') ''identity_id'')
            (str_prop (jprop (jprop crd ''signal_bundle'') ''device_record'') ''device_id'') (en_clock E (w_tick w)) = Inr (address, nb)"
      and p: "pin_contact E (contact_json (jprop crd ''signal_bundle'')) address nb (w_records w, t) = (Inr True, (rs, t'))"
      and w': "w_records w' = rs"
      by (auto simp: import_unfold andThen_Inr_iff Let_def transact_Inr split: if_splits)
    from pin_contact_result [OF p] c w' Pair True show ?thesis by auto
  next
    case False
    have "w_records w' = w_records w"
    proof (cases res)
      case (Inl e)
      with Pair show ?thesis
        by (auto simp: import_unfold andThen_def Let_def drawW_def dest!: transact_Inl split: sum.splits prod.splits if_splits)
    next
      case (Inr b)
      with False Pair show ?thesis
        by (auto simp: import_unfold andThen_Inr_iff Let_def transact_Inr dest!: pin_contact_result split: if_splits)
    qed
    with Pair False show ?thesis by simp
  qed
qed

end
