(* ===== verification/OpenProfile.thy ===== *)
theory OpenProfile
  imports Profile
begin

text \<open>
  \<open>openProfile\<close> of \<open>apps/cli/src/runtime/profile.ts\<close>: opening or initializing the profile of a
  directory. \<open>profile_files\<close> is what the directory holds: the configuration file, as what
  \<open>JSON.parse\<close> makes of its text, and the database file of the encrypted store.
\<close>

record profile_files =
  pf_config :: "json result option"
  pf_database :: "store_file option"

record open_options =
  oo_config :: "json option"
  oo_initialize :: bool
  oo_environment :: "string \<Rightarrow> string option"

definition metadata_json :: "json \<Rightarrow> string \<Rightarrow> json \<Rightarrow> json" where
  "metadata_json config sd local = JObj
     [(''version'', JNum 1), (''profile_id'', jprop config ''profile_id''), (''seed'', JStr sd), (''device_record'', local)]"

text \<open>What the first opening writes into an empty store.\<close>

definition initialize_profile :: "env \<Rightarrow> json \<Rightarrow> unit ptx" where
  "initialize_profile E config =
     andThen (draw (en_seed E)) (\<lambda>sd.
     let identity = createIdentityProfile (en_prims E) (en_uuid5 E) sd
           (Options \<lparr>opt_seed = None, opt_suffix = None, opt_deviceLabel = Some ''cli-device''\<rparr>) in
     andThen (draw (en_clock E)) (\<lambda>now.
     andThen (lift (createSignedDeviceRecord (en_prims E) (identityId identity) (deviceId identity)
                (devicePubKey identity) (identitySecretKey identity) (Some ''cli-device'') now)) (\<lambda>local.
     andThen (open_client E local) (\<lambda>_.
       onRecords (tset metadataKey (encode (metadata_json config (seed identity) local)))))))"

definition open_transaction :: "env \<Rightarrow> json \<Rightarrow> bool \<Rightarrow> unit ptx" where
  "open_transaction E config initialize =
     andThen (onRecords (tget metadataKey)) (\<lambda>stored.
     andThen
       (if stored = None then
          andThen (onRecords (tkeys [])) (\<lambda>ks.
            if \<not> initialize \<or> ks \<noteq> [] then raise (ProfileError ''Incomplete profile; refusing replacement'')
            else initialize_profile E config)
        else ret ()) (\<lambda>_.
     andThen readMetadata (\<lambda>metadata.
       if jprop metadata ''profile_id'' \<noteq> jprop config ''profile_id''
       then raise (ProfileError ''Database belongs to another profile'')
       else andThen (open_client E (device_record metadata)) (\<lambda>_. ret ()))))"

text \<open>
  \<open>n1\<close> and \<open>n2\<close> are the nonces of the two writes of the store, \<open>fault\<close> the error a database
  statement raises and \<open>config_fault\<close> that of writing the configuration file, if one does, and \<open>t\<close> the tick of the run. The result is the configuration and
  the store key of the opened profile.
\<close>

definition accepted_config :: "(string \<Rightarrow> url option) \<Rightarrow> open_options \<Rightarrow> profile_files \<Rightarrow> json result" where
  "accepted_config parse options files =
     (case pf_config files of
        None \<Rightarrow>
          (case oo_config options of
             Some c \<Rightarrow>
               if oo_initialize options then parseClientConfig parse c
               else Inl (ConfigurationError ''Profile initialization requires configuration'')
           | None \<Rightarrow> Inl (ConfigurationError ''Profile initialization requires configuration''))
      | Some text \<Rightarrow>
          bindR (bindR text (parseClientConfig parse)) (\<lambda>config.
          bindR (case oo_config options of
                   None \<Rightarrow> Inr ()
                 | Some c \<Rightarrow> bindR (parseClientConfig parse c) (\<lambda>given.
                     guardR (stringify given = stringify config)
                       (ConfigurationError ''Existing profile configuration cannot be replaced''))) (\<lambda>_.
            Inr config)))"

definition openProfile ::
  "env \<Rightarrow> aead \<Rightarrow> (string \<Rightarrow> url option) \<Rightarrow> bytes \<Rightarrow> bytes \<Rightarrow> exn option \<Rightarrow> exn option \<Rightarrow> nat \<Rightarrow> open_options
     \<Rightarrow> (profile_files, json \<times> bytes) op"
where
  "openProfile E A parse n1 n2 fault config_fault t options files =
     (case accepted_config parse options files of
        Inl e \<Rightarrow> (Inl e, files)
      | Inr config \<Rightarrow>
          (case readStoreKey (str_prop config ''store_key_env'') (oo_environment options) of
             Inl e \<Rightarrow> (Inl e, files)
           | Inr key \<Rightarrow>
               if pf_database files = None \<and> (pf_config files \<noteq> None \<or> \<not> oo_initialize options)
               then (Inl (ProfileError ''Profile database is missing; refusing replacement''), files)
               else
                 (case open_store A n1 key (map_option file_row (pf_database files)) of
                    Inl e \<Rightarrow> (Inl e, files)
                  | Inr st \<Rightarrow>
                      (case perform A n2 fault
                              (\<lambda>rs. case open_transaction E config (oo_initialize options) (rs, t) of (r, (rs', _)) \<Rightarrow> (r, rs')) st of
                         (Inl e, st') \<Rightarrow> (Inl e, files\<lparr>pf_database := Some st'\<rparr>)
                       | (Inr _, st') \<Rightarrow>
                           (case (pf_config files, config_fault) of
                              (None, Some e) \<Rightarrow> (Inl e, files\<lparr>pf_database := Some st'\<rparr>)
                            | (None, None) \<Rightarrow>
                                (Inr (config, key), files\<lparr>pf_database := Some st', pf_config := Some (Inr config)\<rparr>)
                            | (Some _, _) \<Rightarrow> (Inr (config, key), files\<lparr>pf_database := Some st'\<rparr>))))))"

subsection \<open>Opening an existing profile\<close>

lemma store_key_env:
  assumes "readStoreKey name environment = Inr key"
  shows "environment name = Some (encodeBase64Url key)"
  using assms by (auto simp: readStoreKey_def Let_def encode_eq_b64url split: option.splits if_splits)

lemma store_key_length: "readStoreKey name environment = Inr key \<Longrightarrow> length key = 32"
  by (auto simp: readStoreKey_def Let_def split: option.splits if_splits)

lemma open_transaction_existing:
  assumes "rec_get metadataKey rs \<noteq> None" "open_transaction E config i (rs, t) = (r, (rs', t'))"
  shows "rs' = rs"
    and "r = Inr () \<Longrightarrow> \<exists>m. profile_metadata rs m \<and> jprop m ''profile_id'' = jprop config ''profile_id''"
proof -
  have ne: "rec_keys [] rs \<noteq> []" using assms(1) kv.keyset_get [of metadataKey rs] by auto
  note oc = open_client_nonempty [OF ne]
  show "rs' = rs"
    using assms oc
    by (auto simp: open_transaction_def andThen_def onRecords_def readMetadata_result
        split: sum.splits prod.splits if_splits option.splits) (metis fst_conv snd_conv)+
  assume "r = Inr ()"
  with assms show "\<exists>m. profile_metadata rs m \<and> jprop m ''profile_id'' = jprop config ''profile_id''"
    by (auto simp: open_transaction_def andThen_Inr_iff onRecords_iff readMetadata_Inr split: if_splits)
qed

subsection \<open>Properties\<close>

text \<open>
  An identity is never replaced: opening a directory whose database holds profile metadata,
  with the profile's own key and whatever the options, faults and outcome, leaves every record as
  it was; and it succeeds only for the profile the configuration names, the configuration file
  then being the one that was there or the one just accepted.
\<close>

theorem open_existing_profile:
  assumes "aead_ok A" "length n2 = 12" "pf_database files = Some st" "holds A st rs" "rec_get metadataKey rs \<noteq> None"
    and key: "\<And>name k. readStoreKey name (oo_environment options) = Inr k \<Longrightarrow> k = file_key st"
    and run: "openProfile E A parse n1 n2 fault config_fault t options files = (res, files')"
  shows "(\<exists>st'. pf_database files' = Some st' \<and> holds A st' rs)
    \<and> (case res of Inl e \<Rightarrow> pf_config files' = pf_config files
       | Inr (config, k) \<Rightarrow> (\<exists>m. profile_metadata rs m \<and> jprop m ''profile_id'' = jprop config ''profile_id'')
           \<and> accepted_config parse options files = Inr config
           \<and> pf_config files' = (if pf_config files = None then Some (Inr config) else pf_config files))"
proof (cases "accepted_config parse options files")
  case (Inl e)
  with assms show ?thesis by (auto simp: openProfile_def)
next
  case (Inr config)
  note config = Inr
  show ?thesis
  proof (cases "readStoreKey (str_prop config ''store_key_env'') (oo_environment options)")
    case (Inl e)
    with config assms show ?thesis by (auto simp: openProfile_def)
  next
    case (Inr k)
    with key have k: "k = file_key st" by blast
    have len: "length k = 32" using Inr store_key_length by blast
    have o: "open_store A n1 k (map_option file_row (pf_database files)) = Inr st"
      using assms(3,4) len k by (simp add: open_store_def holds_def)
    let ?op = "\<lambda>s. case open_transaction E config (oo_initialize options) (s, t) of (r, (rs', _)) \<Rightarrow> (r, rs')"
    obtain r rs' t' where op: "open_transaction E config (oo_initialize options) (rs, t) = (r, (rs', t'))"
      by (cases "open_transaction E config (oo_initialize options) (rs, t)") auto
    note ote = open_transaction_existing [OF assms(5) op]
    obtain pr st' where p: "perform A n2 fault ?op st = (pr, st')" by fastforce
    have h: "holds A st' rs"
      using p op ote(1) assms(1,2,4) holds_wf [OF assms(4)]
      by (auto simp: perform_def holds_def read_write_row split: sum.splits option.splits)
    have pr: "pr = Inr () \<Longrightarrow> r = Inr ()"
      using p op assms(4) by (auto simp: perform_def holds_def split: sum.splits option.splits)
    show ?thesis
      using run config Inr o p h ote(2) pr assms(3)
      by (cases pr) (auto simp: openProfile_def split: option.splits)
  qed
qed

definition plain_aead :: aead where
  "plain_aead = \<lparr>seal = (\<lambda>k n a p. (p, replicate 16 CHR ''t'')), unseal = (\<lambda>k n a c t. Some c)\<rparr>"

lemma plain_aead_ok [simp]: "aead_ok plain_aead"
  by (simp add: aead_ok_def plain_aead_def)

definition stored_file :: "records \<Rightarrow> store_file" where
  "stored_file rs = \<lparr>file_row = Some (write_row plain_aead (replicate 32 CHR ''k'') (replicate 12 CHR ''n'') rs),
     file_key = replicate 32 CHR ''k''\<rparr>"

lemma stored_file_holds: "wf_records rs \<Longrightarrow> holds plain_aead (stored_file rs) rs"
  using read_write_row [OF plain_aead_ok] by (simp add: holds_def stored_file_def)

theorem open_existing_profile_witness:
  "\<exists>res files' st'. openProfile toy_env plain_aead sample_url [] (replicate 12 CHR ''n'') None None 0
       \<lparr>oo_config = None, oo_initialize = True, oo_environment = (\<lambda>_. Some (encodeBase64Url (replicate 32 CHR ''k'')))\<rparr>
       \<lparr>pf_config = Some (Inr sample_config), pf_database = Some (stored_file (w_records (toy_world () [])))\<rparr> = (res, files')
     \<and> pf_database files' = Some st' \<and> holds plain_aead st' (w_records (toy_world () []))"
proof -
  let ?rs = "w_records (toy_world () [])"
  let ?o = "\<lparr>oo_config = None, oo_initialize = True, oo_environment = (\<lambda>_. Some (encodeBase64Url (replicate 32 CHR ''k'')))\<rparr>"
  let ?f = "\<lparr>pf_config = Some (Inr sample_config), pf_database = Some (stored_file ?rs)\<rparr>"
  have wf: "wf_records ?rs" by (simp add: toy_world_def wf_records_def)
  have k: "k = file_key (stored_file ?rs)" if "readStoreKey name (oo_environment ?o) = Inr k" for name k
    using store_key_env [OF that] by (simp add: stored_file_def)
  have m: "rec_get metadataKey ?rs \<noteq> None" by (simp add: toy_world_def rec_get_def)
  obtain res files' where run: "openProfile toy_env plain_aead sample_url [] (replicate 12 CHR ''n'') None None 0 ?o ?f = (res, files')"
    by fastforce
  have "\<exists>st'. pf_database files' = Some st' \<and> holds plain_aead st' ?rs"
    by (rule conjunct1 [OF open_existing_profile [OF plain_aead_ok _ _ stored_file_holds [OF wf] m k run]]) simp_all
  with run show ?thesis by blast
qed

end
