(* ===== verification/RelayClient.thy ===== *)
theory RelayClient
  imports Config Wire
begin

text \<open>
  \<open>apps/cli/src/transport/relayClient.ts\<close>: the relay's routes as this client calls them. The relay
  and the network are the \<open>server\<close> argument: it is given the URL and the body of one POST and its
  own state, and gives back what \<open>fetch\<close> and the response reader saw. The deadline timer is one of
  those outcomes.
\<close>

subsection \<open>One response\<close>

text \<open>How the body stream ended after its chunks.\<close>

datatype stream_end = StreamDone | StreamFailed | StreamAborted

datatype fetch_outcome =
    Response int "bytes list" stream_end
  | FetchAborted
  | FetchFailed
  | DeadlineFirst

type_synonym 'r server = "string \<Rightarrow> string \<Rightarrow> 'r \<Rightarrow> fetch_outcome \<times> 'r"

definition invalid :: exn where
  "invalid = RelayError ''INVALID_RELAY_RESPONSE'' False None None"

definition relay_timeout :: exn where
  "relay_timeout = RelayError ''RELAY_TIMEOUT'' True None None"

definition relay_unavailable :: exn where
  "relay_unavailable = RelayError ''RELAY_UNAVAILABLE'' True None None"

definition oversizedEnvelope :: exn where
  "oversizedEnvelope = RelayError ''ENVELOPE_TOO_LARGE'' False None None"

definition remoteCodes :: "string list" where
  "remoteCodes =
     [''BUNDLE_ID_CONFLICT'', ''BUNDLE_EXPIRED'', ''CLAIM_ID_CONFLICT'', ''PREKEY_BUNDLE_UNAVAILABLE'',
      ''UNAUTHORIZED_MAILBOX_ACCESS'', ''SENDER_QUOTA_EXCEEDED'', ''NOT_FOUND'', ''INVALID_REQUEST'',
      ''UNAUTHORIZED'', ''ENVELOPE_ID_CONFLICT'', ''RATE_LIMITED'']"

text \<open>Reading the stream up to the byte bound.\<close>

fun read_stream :: "nat \<Rightarrow> nat \<Rightarrow> bytes \<Rightarrow> bytes list \<Rightarrow> stream_end \<Rightarrow> bytes result" where
  "read_stream bound n acc [] StreamDone = Inr acc"
| "read_stream bound n acc [] StreamFailed = Inl relay_unavailable"
| "read_stream bound n acc [] StreamAborted = Inl relay_timeout"
| "read_stream bound n acc (c # cs) e =
     (if n + length c > bound then Inl invalid
      else read_stream bound (n + length c) (acc @ c) cs e)"

subsection \<open>Validation and the request\<close>

definition success_schema :: "schema \<Rightarrow> schema" where
  "success_schema data = SObject True [(''ok'', False, SLiteral (JBool True)), (''data'', False, data)]"

definition error_schema :: schema where
  "error_schema = SObject True
     [(''ok'', False, SLiteral (JBool False)),
      (''error'', False, SObject True [(''code'', False, any_string), (''message'', False, any_string)])]"

definition validate :: "schema \<Rightarrow> json \<Rightarrow> json result" where
  "validate s input = (case zparse s input of None \<Rightarrow> Inl invalid | Some w \<Rightarrow> copyJson w)"

definition remote_code :: "json \<Rightarrow> string option" where
  "remote_code value =
     (case zparse error_schema value of
        Some w \<Rightarrow> (let c = str_prop (jprop w ''error'') ''code'' in if c \<in> set remoteCodes then Some c else None)
      | None \<Rightarrow> None)"

definition response_ok :: "int \<Rightarrow> bool" where
  "response_ok status = (200 \<le> status \<and> status \<le> 299)"

definition interpret_response :: "relay_settings \<Rightarrow> schema \<Rightarrow> fetch_outcome \<Rightarrow> json result" where
  "interpret_response C s out =
     (case out of
        DeadlineFirst \<Rightarrow> Inl relay_timeout
      | FetchAborted \<Rightarrow> Inl relay_timeout
      | FetchFailed \<Rightarrow> Inl relay_unavailable
      | Response status chunks e \<Rightarrow>
          bindR (read_stream (responseByteBound C) 0 [] chunks e) (\<lambda>body.
          bindR (of_option invalid (parse_json body)) (\<lambda>value.
            if \<not> response_ok status
            then Inl (RelayError ''RELAY_HTTP_ERROR'' (status = 429 \<or> 500 \<le> status) (Some (nat status)) (remote_code value))
            else bindR (validate (success_schema s) value) (\<lambda>w. Inr (jprop w ''data'')))))"

text \<open>What is not a \<open>RelayError\<close> is reported as the relay being unavailable.\<close>

fun relay_caught :: "exn \<Rightarrow> exn" where
  "relay_caught (RelayError c r s m) = RelayError c r s m"
| "relay_caught e = relay_unavailable"

definition request :: "relay_settings \<Rightarrow> 'r server \<Rightarrow> string \<Rightarrow> json \<Rightarrow> schema \<Rightarrow> ('r, json) op" where
  "request C R path body s r =
     (case R (baseUrl C @ path) (stringify body) r of
        (out, r') \<Rightarrow>
          (case interpret_response C s out of Inl e \<Rightarrow> (Inl (relay_caught e), r') | Inr d \<Rightarrow> (Inr d, r')))"

subsection \<open>The routes\<close>

definition bounded_text :: "nat \<Rightarrow> schema" where
  "bounded_text n = SString (\<lambda>s. s \<noteq> [] \<and> utf16_units s \<le> n)"

definition nonempty_text :: schema where
  "nonempty_text = SString (\<lambda>s. s \<noteq> [])"

definition authorization_fields :: "(string \<times> bool \<times> schema) list" where
  "authorization_fields =
     [(''recipient_mailbox_id'', False, nonempty_text), (''device_id'', False, uuid_string),
      (''signature'', False, nonempty_text)]"

definition authorizationSchema :: schema where
  "authorizationSchema = SObject True authorization_fields"

definition nextCursorSchema :: schema where
  "nextCursorSchema = SNullable (bounded_text 256)"

definition pollRequestSchema :: schema where
  "pollRequestSchema = SObject True (authorization_fields @
     [(''challenge_id'', False, uuid_string),
      (''batch_size'', False, SNumber (\<lambda>i. 1 \<le> i \<and> i \<le> 100)),
      (''cursor'', True, bounded_text 256),
      (''read_through'', True, bounded_text 256)])"

definition strictEnvelopeSchema :: schema where
  "strictEnvelopeSchema = SObject True mailbox_envelope_fields"

definition publishBundle :: "relay_settings \<Rightarrow> 'r server \<Rightarrow> json \<Rightarrow> ('r, string \<times> bool) op" where
  "publishBundle C R input =
     andThen (lift (validate SignalPreKeyBundleV2Schema input)) (\<lambda>bundle.
     andThen (request C R ''/v2/prekeys/publish'' (JObj [(''bundle'', bundle)])
        (SObject True [(''stored'', False, SLiteral (JBool True)),
           (''bundle_id'', False, literal_text (str_prop bundle ''bundle_id'')),
           (''claimable'', False, SBool)])) (\<lambda>data.
       ret (str_prop data ''bundle_id'', jprop data ''claimable'' = JBool True)))"

definition claim_body :: "string \<Rightarrow> string \<Rightarrow> string option \<Rightarrow> json" where
  "claim_body claimId identity device = JObj
     [(''claim_id'', JStr claimId), (''identity_id'', JStr identity),
      (''device_id'', (case device of None \<Rightarrow> JNull | Some d \<Rightarrow> JStr d))]"

definition claimBundle :: "relay_settings \<Rightarrow> 'r server \<Rightarrow> string \<Rightarrow> string \<Rightarrow> string option \<Rightarrow> ('r, json) op" where
  "claimBundle C R claimId identity device =
     andThen (lift (validate (SObject True
        [(''claim_id'', False, uuid_string), (''identity_id'', False, nonempty_text),
         (''device_id'', False, SNullable uuid_string)]) (claim_body claimId identity device))) (\<lambda>body.
     andThen (request C R ''/v2/prekeys/claim'' body
        (SObject True [(''bundle'', False, SignalPreKeyBundleV2Schema)])) (\<lambda>data.
       ret (jprop data ''bundle'')))"

definition sendEnvelope :: "relay_settings \<Rightarrow> 'r server \<Rightarrow> json \<Rightarrow> ('r, string) op" where
  "sendEnvelope C R input =
     andThen (lift (validate strictEnvelopeSchema input)) (\<lambda>envelope.
       if length (str_prop envelope ''ciphertext'') > maxMessageBytes C
          \<or> num_prop envelope ''size_bytes'' > int (maxMessageBytes C)
       then raise oversizedEnvelope
       else
         andThen (request C R ''/v1/messages/send'' (JObj [(''envelope'', envelope)])
           (SObject True [(''accepted'', False, SLiteral (JBool True)),
              (''envelope_id'', False, literal_text (str_prop envelope ''envelope_id'')),
              (''status'', False, literal_text ''relayed'')])) (\<lambda>data.
           ret (str_prop data ''envelope_id'')))"

definition createChallenge :: "relay_settings \<Rightarrow> 'r server \<Rightarrow> json \<Rightarrow> ('r, json) op" where
  "createChallenge C R input =
     andThen (lift (validate authorizationSchema input)) (\<lambda>body.
       request C R ''/v1/mailbox/challenge'' body
         (SObject True [(''challenge_id'', False, uuid_string), (''nonce'', False, bounded_text 256),
            (''expires_at_ms'', False, SNumber (\<lambda>i. 0 \<le> i \<and> i \<le> max_safe_integer))]))"

definition poll_response_schema :: schema where
  "poll_response_schema = SObject True
     [(''envelopes'', False, SRefine (SArray strictEnvelopeSchema)
         (\<lambda>v. case v of JArr es \<Rightarrow> length es \<le> 100 | _ \<Rightarrow> False)),
      (''next_cursor'', False, nextCursorSchema)]"

definition pollMailbox :: "relay_settings \<Rightarrow> 'r server \<Rightarrow> json \<Rightarrow> ('r, json) op" where
  "pollMailbox C R input =
     andThen (lift (validate pollRequestSchema input)) (\<lambda>body.
       request C R ''/v1/mailbox/poll'' body poll_response_schema)"

fun elements :: "json \<Rightarrow> json list" where
  "elements (JArr vs) = vs"
| "elements _ = []"

definition ackMailbox :: "relay_settings \<Rightarrow> 'r server \<Rightarrow> json \<Rightarrow> ('r, json) op" where
  "ackMailbox C R input =
     andThen (lift (validate (SObject True (authorization_fields @
         [(''envelope_ids'', False, SRefine (SArray uuid_string)
             (\<lambda>v. case v of JArr es \<Rightarrow> 1 \<le> length es \<and> length es \<le> 100 | _ \<Rightarrow> False))])) input)) (\<lambda>body.
       request C R ''/v1/mailbox/ack'' body
         (SObject True [(''acked'', False, literal_number (int (length (elements (jprop body ''envelope_ids''))))) ]))"

subsection \<open>What a request returns\<close>

lemma read_stream_Inr:
  "read_stream bound n acc cs e = Inr b \<longleftrightarrow>
     e = StreamDone \<and> b = acc @ concat cs \<and> (cs = [] \<or> n + length (concat cs) \<le> bound)"
proof (induction bound n acc cs e rule: read_stream.induct)
  case (4 bound n acc c cs e)
  then show ?case by (cases cs) (auto simp: invalid_def)
qed (auto simp: relay_unavailable_def relay_timeout_def)

definition client_failure :: "exn \<Rightarrow> bool" where
  "client_failure e \<longleftrightarrow> e = invalid \<or> e = relay_timeout \<or> e = relay_unavailable
     \<or> (\<exists>status m. \<not> response_ok status \<and> (\<forall>c. m = Some c \<longrightarrow> c \<in> set remoteCodes)
          \<and> e = RelayError ''RELAY_HTTP_ERROR'' (status = 429 \<or> 500 \<le> status) (Some (nat status)) m)"

lemma remote_code_allowed: "remote_code v = Some c \<Longrightarrow> c \<in> set remoteCodes"
  by (auto simp: remote_code_def Let_def split: option.splits if_splits)

lemma read_stream_Inl: "read_stream bound n acc cs e = Inl x \<Longrightarrow> x = invalid \<or> x = relay_timeout \<or> x = relay_unavailable"
  by (induction bound n acc cs e rule: read_stream.induct) (auto split: if_splits)

lemma relay_caught_id: "client_failure e \<Longrightarrow> relay_caught e = e"
  by (auto simp: client_failure_def invalid_def relay_timeout_def relay_unavailable_def)

lemma caught_failure: "client_failure e \<or> relay_caught e = relay_unavailable \<Longrightarrow> client_failure (relay_caught e)"
  by (auto simp: relay_caught_id) (simp add: client_failure_def)

lemma interpret_failure:
  "interpret_response C s out = Inl e \<Longrightarrow> client_failure (relay_caught e)"
proof -
  assume i: "interpret_response C s out = Inl e"
  have "client_failure e \<or> relay_caught e = relay_unavailable"
  proof (cases out)
    case (Response status chunks se)
    show ?thesis
    proof (cases "read_stream (responseByteBound C) 0 [] chunks se")
      case (Inl x)
      with i Response read_stream_Inl [OF Inl] show ?thesis
        by (auto simp: interpret_response_def client_failure_def)
    next
      case (Inr body)
      show ?thesis
      proof (cases "parse_json body")
        case None
        with i Response Inr show ?thesis by (simp add: interpret_response_def client_failure_def)
      next
        case (Some v)
        show ?thesis
        proof (cases "response_ok status")
          case True
          with i Response Inr Some have "validate (success_schema s) v = Inl e"
            by (cases "validate (success_schema s) v") (simp_all add: interpret_response_def)
          then have "e = invalid \<or> e = PlainError ''SyntaxError''"
            by (auto simp: validate_def copyJson_def decode_def of_option_def split: option.splits)
          then show ?thesis by (auto simp: client_failure_def)
        next
          case False
          with i Response Inr Some have
            "e = RelayError ''RELAY_HTTP_ERROR'' (status = 429 \<or> 500 \<le> status) (Some (nat status)) (remote_code v)"
            by (simp add: interpret_response_def)
          moreover have "\<forall>c. remote_code v = Some c \<longrightarrow> c \<in> set remoteCodes" using remote_code_allowed by blast
          ultimately show ?thesis using False unfolding client_failure_def by blast
        qed
      qed
    qed
  qed (use i in \<open>auto simp: interpret_response_def client_failure_def\<close>)
  then show ?thesis by (rule caught_failure)
qed

lemma request_fails: "request C R path body s r = (Inl e, r') \<Longrightarrow> client_failure e"
  by (auto simp: request_def split: prod.splits sum.splits dest: interpret_failure)

lemma validate_accepts:
  assumes "wf_schema s" "wf_json v" "validate s v = Inr w"
  shows "zparse s v = Some w" "zparse s w = Some w" "wf_json w"
proof -
  from assms(3) obtain u where u: "zparse s v = Some u" "copyJson u = Inr w"
    by (auto simp: validate_def split: option.splits)
  with zparse_idem [OF assms(1,2) u(1)] show "zparse s v = Some w" "zparse s w = Some w" "wf_json w"
    by (simp_all add: copyJson_def)
qed

lemma request_succeeds:
  assumes "request C R path body s r = (Inr d, r')" "wf_schema s"
  obtains status chunks v where "R (baseUrl C @ path) (stringify body) r = (Response status chunks StreamDone, r')"
    "response_ok status" "length (concat chunks) \<le> responseByteBound C"
    "parse_json (concat chunks) = Some v" "wf_json v" "jprop v ''ok'' = JBool True" "zparse s (jprop v ''data'') = Some d"
    "zparse s d = Some d" "wf_json d"
proof -
  obtain out where R: "R (baseUrl C @ path) (stringify body) r = (out, r')" "interpret_response C s out = Inr d"
    using assms(1) by (auto simp: request_def split: prod.splits sum.splits)
  then obtain status chunks e where out: "out = Response status chunks e"
    by (cases out) (auto simp: interpret_response_def)
  then obtain b where b: "read_stream (responseByteBound C) 0 [] chunks e = Inr b"
    using R(2) by (auto simp: interpret_response_def bindR_Inr_iff)
  then have b': "e = StreamDone" "b = concat chunks" "length (concat chunks) \<le> responseByteBound C"
    by (auto simp: read_stream_Inr)
  with R(2) out b obtain v where v: "parse_json (concat chunks) = Some v" by (auto simp: interpret_response_def bindR_Inr_iff)
  with R(2) out b b' have ok: "response_ok status" by (auto simp: interpret_response_def split: if_splits)
  with R(2) out b b' v obtain w where w: "validate (success_schema s) v = Inr w" "d = jprop w ''data''"
    by (auto simp: interpret_response_def bindR_Inr_iff)
  have ws: "wf_schema (success_schema s)" using assms(2) by (simp add: success_schema_def)
  note va = validate_accepts [OF ws parse_json_wf [OF v] w(1)]
  have z: "zparse (SObject True [(''ok'', False, SLiteral (JBool True)), (''data'', False, s)]) v = Some w"
    "zparse (SObject True [(''ok'', False, SLiteral (JBool True)), (''data'', False, s)]) w = Some w"
    using va(1,2) by (simp_all add: success_schema_def del: zparse.simps)
  have d: "zparse s (jprop v ''data'') = Some d" "zparse s d = Some d"
    using object_required [OF z(1), of "''data''" s] object_required [OF z(2), of "''data''" s] w(2) by simp_all
  have "jprop v ''ok'' = JBool True"
    using object_required [OF z(1), of "''ok''" "SLiteral (JBool True)"] by (simp split: if_splits)
  moreover have "wf_json d"
  proof -
    have "wf_json (jprop w k)" for k
      using va(3) by (cases w) (auto simp: wf_members_iff split: option.splits dest: map_of_SomeD)
    then show ?thesis using w(2) by simp
  qed
  ultimately show ?thesis using that R(1) out ok b' v d parse_json_wf [OF v] by simp
qed

text \<open>An envelope the relay client sends, and one it must not.\<close>

definition oversized :: "relay_settings \<Rightarrow> json \<Rightarrow> bool" where
  "oversized C v \<longleftrightarrow> length (str_prop v ''ciphertext'') > maxMessageBytes C
     \<or> num_prop v ''size_bytes'' > int (maxMessageBytes C)"

lemma envelope_schema_wf [simp]: "wf_schema strictEnvelopeSchema"
  by (simp add: strictEnvelopeSchema_def mailbox_envelope_fields_def literal_text_def literal_number_def
      uuid_string_def any_string_def any_number_def)

lemma validate_accepted:
  assumes "zparse s v = Some v" "wf_json v"
  shows "validate s v = Inr v"
  using assms by (simp add: validate_def copyJson_def)

subsection \<open>Properties\<close>

text \<open>
  Every failure of a relay call is one of the client's own: a \<open>RelayError\<close> that is retryable
  exactly for a timeout, an unreachable relay and the statuses 429 and 500 and above, that carries
  a status only for an HTTP error, and whose remote code - text the relay chose - is on the
  client's list.
\<close>

theorem request_failures:
  assumes "request C R path body s r = (Inl e, r')"
  shows "\<exists>code retryable status remote. e = RelayError code retryable status remote
    \<and> (retryable \<longleftrightarrow> code = ''RELAY_TIMEOUT'' \<or> code = ''RELAY_UNAVAILABLE''
          \<or> (\<exists>n. status = Some n \<and> (n = 429 \<or> 500 \<le> n)))
    \<and> (status \<noteq> None \<longrightarrow> code = ''RELAY_HTTP_ERROR'')
    \<and> (\<forall>c. remote = Some c \<longrightarrow> c \<in> set remoteCodes)"
proof -
  have n: "nat i = 429 \<or> 500 \<le> nat i \<longleftrightarrow> i = 429 \<or> 500 \<le> i" for i by linarith
  from request_fails [OF assms] consider "e = invalid" | "e = relay_timeout" | "e = relay_unavailable"
    | status m where "\<forall>c. m = Some c \<longrightarrow> c \<in> set remoteCodes"
      "e = RelayError ''RELAY_HTTP_ERROR'' (status = 429 \<or> 500 \<le> status) (Some (nat status)) m"
    unfolding client_failure_def by blast
  then show ?thesis
    by cases (auto simp: invalid_def relay_timeout_def relay_unavailable_def simp flip: n)
qed

text \<open>
  What a relay call returns was read within the byte bound and accepted by the route's schema:
  the relay answered 2xx, the whole body was at most the bound and parses to an object whose
  \<open>ok\<close> is true, and the result is what the schema made of its \<open>data\<close>, accepted again as it is.
\<close>

theorem request_success:
  assumes "request C R path body s r = (Inr d, r')" "wf_schema s"
  shows "\<exists>status chunks v. R (baseUrl C @ path) (stringify body) r = (Response status chunks StreamDone, r')
    \<and> 200 \<le> status \<and> status \<le> 299 \<and> length (concat chunks) \<le> responseByteBound C
    \<and> parse_json (concat chunks) = Some v \<and> jprop v ''ok'' = JBool True
    \<and> zparse s (jprop v ''data'') = Some d \<and> zparse s d = Some d"
  by (rule request_succeeds [OF assms]) (auto simp: response_ok_def)

text \<open>
  The size rule is applied before the wire: an oversized envelope is refused with
  \<open>ENVELOPE_TOO_LARGE\<close> and the relay is not asked, and any other acceptable envelope is posted to
  the send route exactly as it is, success being the relay's answer for that envelope id.
\<close>

theorem send_size_agreed:
  assumes "zparse strictEnvelopeSchema v = Some v" "wf_json v"
  shows "if oversized C v then sendEnvelope C R v r = (Inl oversizedEnvelope, r)
    else snd (sendEnvelope C R v r) = snd (R (baseUrl C @ ''/v1/messages/send'') (stringify (JObj [(''envelope'', v)])) r)
      \<and> (\<forall>i. fst (sendEnvelope C R v r) = Inr i \<longrightarrow> i = str_prop v ''envelope_id'')"
proof (cases "oversized C v")
  case True
  with validate_accepted [OF assms] show ?thesis
    by (auto simp: sendEnvelope_def oversized_def andThen_def simp del: zparse.simps)
next
  case False
  let ?s = "SObject True [(''accepted'', False, SLiteral (JBool True)),
     (''envelope_id'', False, literal_text (str_prop v ''envelope_id'')), (''status'', False, literal_text ''relayed'')]"
  let ?q = "request C R ''/v1/messages/send'' (JObj [(''envelope'', v)]) ?s"
  have e: "sendEnvelope C R v = andThen ?q (\<lambda>d. ret (str_prop d ''envelope_id''))"
    using False validate_accepted [OF assms]
    by (intro ext) (auto simp: sendEnvelope_def oversized_def andThen_def simp del: zparse.simps)
  have st: "snd (?q r) = snd (R (baseUrl C @ ''/v1/messages/send'') (stringify (JObj [(''envelope'', v)])) r)"
    by (simp add: request_def split: prod.splits sum.splits)
  have i: "str_prop d ''envelope_id'' = str_prop v ''envelope_id''" if "?q r = (Inr d, r')" for d r'
  proof -
    have "wf_schema ?s" by (simp add: literal_text_def)
    from request_succeeds [OF that this] have z: "zparse ?s d = Some d" by blast
    have "zparse (literal_text (str_prop v ''envelope_id'')) (jprop d ''envelope_id'') = Some (jprop d ''envelope_id'')"
      by (rule object_required [OF z]) simp_all
    then show ?thesis by (simp add: literal_text_def str_prop_def split: if_splits)
  qed
  show ?thesis
  proof (cases "?q r")
    case (Pair x r')
    with i [of _ r'] st False show ?thesis unfolding e by (cases x) (auto simp: andThen_def)
  qed
qed

text \<open>A relay that answers every call with one response and counts the calls.\<close>

definition toy_settings :: relay_settings where
  "toy_settings = \<lparr>baseUrl = ''https://r'', timeoutMs = 1000, maxMessageBytes = 4, responseByteBound = 100\<rparr>"

definition fixed_server :: "fetch_outcome \<Rightarrow> nat server" where
  "fixed_server out = (\<lambda>url body n. (out, Suc n))"

theorem request_failures_witness:
  "\<exists>e. request toy_settings (fixed_server FetchFailed) ''/x'' JNull any_string 0 = (Inl e, 1)
     \<and> (\<exists>code status remote. e = RelayError code True status remote)"
proof -
  have r: "request toy_settings (fixed_server FetchFailed) ''/x'' JNull any_string 0 = (Inl relay_unavailable, 1)"
    by (simp add: request_def fixed_server_def interpret_response_def relay_unavailable_def)
  from request_failures [OF r] r show ?thesis by (auto simp: relay_unavailable_def)
qed

definition accepted_reply :: json where
  "accepted_reply = JObj [(''ok'', JBool True), (''data'', JStr ''d'')]"

theorem request_success_witness:
  "request toy_settings (fixed_server (Response 200 [stringify accepted_reply] StreamDone)) ''/x'' JNull any_string 0 = (Inr (JStr ''d''), 1)
     \<and> length (stringify accepted_reply) \<le> 100"
proof -
  have w: "wf_json accepted_reply" by (simp add: accepted_reply_def)
  have l: "length (stringify accepted_reply) \<le> 100" by code_simp
  have va: "validate (success_schema any_string) accepted_reply = Inr accepted_reply"
    by (rule validate_accepted [OF _ w]) (simp add: accepted_reply_def success_schema_def any_string_def)
  have r: "request toy_settings (fixed_server (Response 200 [stringify accepted_reply] StreamDone)) ''/x'' JNull any_string 0 = (Inr (JStr ''d''), 1)"
    using l w va by (simp add: request_def fixed_server_def interpret_response_def response_ok_def toy_settings_def)
      (simp add: accepted_reply_def)
  have "wf_schema any_string" by (simp add: any_string_def)
  from request_success [OF r this] r show ?thesis
    by (auto simp: fixed_server_def toy_settings_def)
qed

definition sample_envelope :: "int \<Rightarrow> json" where
  "sample_envelope n = JObj
     [(''type'', JStr ''mailbox_envelope''), (''version'', JNum 1), (''envelope_id'', JStr sample_uuid),
      (''message_id'', JStr sample_uuid), (''sender_identity_id'', JStr ''a''), (''sender_device_id'', JStr sample_uuid),
      (''recipient_identity_id'', JStr ''b''), (''recipient_device_id'', JStr sample_uuid),
      (''recipient_mailbox_id'', JStr ''m''), (''payload_type'', JStr ''ciphertext_message''),
      (''ciphertext'', JStr ''abc''), (''created_at_ms'', JNum 1), (''expires_at_ms'', JNum 2), (''size_bytes'', JNum n)]"

lemma sample_envelope_ok: "zparse strictEnvelopeSchema (sample_envelope n) = Some (sample_envelope n)" "wf_json (sample_envelope n)"
proof -
  have "is_uuid sample_uuid" by code_simp
  then show "zparse strictEnvelopeSchema (sample_envelope n) = Some (sample_envelope n)"
    by (simp add: strictEnvelopeSchema_def mailbox_envelope_fields_def sample_envelope_def literal_text_def literal_number_def
        uuid_string_def any_string_def any_number_def)
qed (simp add: sample_envelope_def)

theorem send_size_agreed_witness:
  "sendEnvelope toy_settings (fixed_server FetchFailed) (sample_envelope 5) 0 = (Inl oversizedEnvelope, 0)
   \<and> snd (sendEnvelope toy_settings (fixed_server FetchFailed) (sample_envelope 3) 0) = 1"
  using send_size_agreed [OF sample_envelope_ok, of toy_settings 5 "fixed_server FetchFailed" 0]
    send_size_agreed [OF sample_envelope_ok, of toy_settings 3 "fixed_server FetchFailed" 0]
  by (simp add: oversized_def sample_envelope_def toy_settings_def str_prop_def num_prop_def fixed_server_def)

end
