(* ===== verification/Outbound.thy ===== *)
theory Outbound
  imports OpenProfile RelayClient
begin

text \<open>
  \<open>apps/cli/src/runtime/outbound.ts\<close>: the outbound messenger over a profile and a relay client.
  Its operations run one at a time (\<open>serial\<close>); an operation is a state transformer of the world,
  whose relay part only the relay calls touch.
\<close>

subsection \<open>The messenger\<close>

text \<open>\<open>ms_id\<close> is the id factory of the options, or the random UUIDs it defaults to.\<close>

record 'r messenger =
  ms_env :: env
  ms_settings :: relay_settings
  ms_server :: "'r server"
  ms_id :: "string \<Rightarrow> nat \<Rightarrow> string"
  ms_config :: json

definition onRelay :: "('r, 'a) op \<Rightarrow> ('r, 'a) run" where
  "onRelay m w = (case m (w_relay w) of (x, r) \<Rightarrow> (x, w\<lparr>w_relay := r\<rparr>))"

definition MAX_PLAINTEXT_BYTES :: nat where "MAX_PLAINTEXT_BYTES = 65536"

fun outbound_error :: "exn \<Rightarrow> exn" where
  "outbound_error (RelayError c r s m) = RelayError c r s m"
| "outbound_error (OutboundError c) = OutboundError c"
| "outbound_error PersistenceError = PersistenceError"
| "outbound_error _ = OutboundError ''OUTBOUND_REJECTED''"

definition serial :: "('r, 'a) run \<Rightarrow> ('r, 'a) run" where
  "serial m w = (case m w of (Inl e, w') \<Rightarrow> (Inl (outbound_error e), w') | (Inr x, w') \<Rightarrow> (Inr x, w'))"

definition outbox_record_key :: "string \<Rightarrow> string" where
  "outbox_record_key i = ''cli:outbox:'' @ i"

definition claim_key :: "string \<Rightarrow> string" where
  "claim_key i = ''cli:claim:'' @ i"

fun expiredPublication :: "exn \<Rightarrow> bool" where
  "expiredPublication (RelayError c r s m) = (m = Some ''BUNDLE_EXPIRED'')"
| "expiredPublication _ = False"

subsection \<open>Publishing the pool\<close>

definition offer_bundle :: "'r messenger \<Rightarrow> json \<Rightarrow> ('r, string \<times> bool) run" where
  "offer_bundle M b = onRelay (publishBundle (ms_settings M) (ms_server M) b)"

text \<open>Re-submitting every member: how many are claimable, and the slots that no longer are.\<close>

fun offer_members :: "'r messenger \<Rightarrow> (nat \<times> json) list \<Rightarrow> ('r, nat \<times> nat list) run" where
  "offer_members M [] w = ret (0, []) w"
| "offer_members M ((slot, b) # rest) w =
     (case offer_bundle M b w of
        (Inl e, w') \<Rightarrow>
          if expiredPublication e
          then andThen (offer_members M rest) (\<lambda>(c, dead). ret (c, slot # dead)) w'
          else (Inl e, w')
      | (Inr (_, claimable), w') \<Rightarrow>
          andThen (offer_members M rest) (\<lambda>(c, dead).
            ret (if claimable then (Suc c, dead) else (c, slot # dead))) w')"

fun replace_members ::
  "'r messenger \<Rightarrow> nat list \<Rightarrow> json list \<Rightarrow> nat \<Rightarrow> nat \<Rightarrow> ('r, json list \<times> nat \<times> nat) run"
where
  "replace_members M [] members minted claimable = ret (members, minted, claimable)"
| "replace_members M (slot # slots) members minted claimable =
     andThen (replacePublicationSlot (ms_env M) (int slot)) (\<lambda>b.
     andThen (offer_bundle M b) (\<lambda>(_, ok).
       replace_members M slots (members[slot := b]) (Suc minted) (if ok then Suc claimable else claimable)))"

record publish_result =
  pub_bundleId :: string
  pub_claimable :: bool
  pool_target :: nat
  pool_claimable :: nat
  pool_minted :: nat

definition publish :: "'r messenger \<Rightarrow> ('r, publish_result) run" where
  "publish M =
     serial
       (andThen (restorePublicationPool (ms_env M)) (\<lambda>(members, minted).
        andThen (offer_members M (enumerate 0 members)) (\<lambda>(claimable, dead).
        andThen (replace_members M (rev dead) members minted claimable) (\<lambda>(members, minted, claimable).
          ret \<lparr>pub_bundleId = str_prop (members ! 0) ''bundle_id'', pub_claimable = (0 < claimable),
               pool_target = length members, pool_claimable = claimable, pool_minted = minted\<rparr>))))"

definition rotateBundle :: "'r messenger \<Rightarrow> ('r, unit) run" where
  "rotateBundle M = serial (andThen (rotatePublicationBundle (ms_env M)) (\<lambda>_. ret ()))"

subsection \<open>Claiming a first contact\<close>

definition uuid_parse :: "string \<Rightarrow> string result" where
  "uuid_parse i = (if is_uuid i then Inr i else Inl (PlainError ''ZodError''))"

definition fresh_claim :: "'r messenger \<Rightarrow> string \<Rightarrow> string ptx" where
  "fresh_claim M key =
     andThen (draw (ms_id M ''claim'')) (\<lambda>i.
     andThen (lift (uuid_parse i)) (\<lambda>i.
     andThen (onRecords (tset key (encode (JStr i)))) (\<lambda>_.
       ret i)))"

definition pin_matches :: "json \<Rightarrow> json \<Rightarrow> bool" where
  "pin_matches contact bundle \<longleftrightarrow>
     jprop bundle ''one_time_prekey'' \<noteq> JNull
     \<and> jprop (jprop bundle ''device_record'') ''identity_id'' = jprop contact ''identity_id''
     \<and> jprop (jprop bundle ''device_record'') ''device_id'' = jprop contact ''device_id''
     \<and> jprop (jprop bundle ''device_record'') ''device_pubkey'' = jprop contact ''device_pubkey''
     \<and> jprop bundle ''signal_identity_key'' = jprop contact ''signal_identity_key''"

text \<open>
  \<open>left\<close> counts the replacement claims still allowed: one at first, so \<open>replaced\<close> is \<open>left = 0\<close>.
  The result is the verified address and bundle, and whether the claim was replaced.
\<close>

fun claimFirstContact ::
  "'r messenger \<Rightarrow> json \<Rightarrow> string \<Rightarrow> nat \<Rightarrow> string \<Rightarrow> ('r, (device_address \<times> prekey_bundle) \<times> bool) run"
where
  "claimFirstContact M contact key left identifier =
     andThen (onRelay (claimBundle (ms_settings M) (ms_server M) identifier (str_prop contact ''identity_id'')
                (Some (str_prop contact ''device_id'')))) (\<lambda>b.
     andThen (drawW (en_clock (ms_env M))) (\<lambda>at.
       if \<not> pin_matches contact b then raise (OutboundError ''CONTACT_PIN_MISMATCH'')
       else if at < num_prop b ''created_at_ms'' \<or> at \<ge> num_prop b ''expires_at_ms''
       then (case left of
               0 \<Rightarrow> raise (OutboundError ''PREKEY_BUNDLE_EXPIRED'')
             | Suc n \<Rightarrow>
                 andThen (withRuntime (ms_env M) (\<lambda>_ _. fresh_claim M key)) (\<lambda>i.
                   claimFirstContact M contact key n i))
       else
         (case importVerifiedSignalBundleV2 (en_lib (ms_env M)) (en_prims (ms_env M)) b
                 (str_prop contact ''identity_id'') (str_prop contact ''device_id'') at of
            Inl _ \<Rightarrow> raise (OutboundError ''CONTACT_PIN_MISMATCH'')
          | Inr verified \<Rightarrow> ret (verified, left = 0))))"

declare claimFirstContact.simps [simp del]

subsection \<open>Sending\<close>

definition inputSchema :: schema where
  "inputSchema = SObject True
     [(''recipientIdentityId'', False, SString (\<lambda>s. s \<noteq> [])), (''messageId'', False, uuid_string),
      (''plaintext'', False, SString (\<lambda>s. utf16_units s \<le> MAX_PLAINTEXT_BYTES))]"

definition send_hash :: "primitives \<Rightarrow> json \<Rightarrow> string" where
  "send_hash P input =
     hex_of (sha256 P (stringify (JArr [jprop input ''recipientIdentityId'', jprop input ''messageId'', jprop input ''plaintext''])))"

definition wrap_ciphertext :: "stored_ciphertext \<Rightarrow> string" where
  "wrap_ciphertext m =
     encodeBase64Url (stringify (JObj
       [(''version'', JNum 1), (''type'', JNum (cipher_type m)), (''body'', JStr (encodeBase64Url (cipher_body m)))]))"

definition outbox_entry :: "string \<Rightarrow> json \<Rightarrow> json" where
  "outbox_entry h envelope =
     JObj [(''contentHash'', JStr h), (''envelope'', envelope), (''status'', JStr ''pending'')]"

definition mailbox_envelope ::
  "string \<Rightarrow> string \<Rightarrow> json \<Rightarrow> json \<Rightarrow> string \<Rightarrow> string \<Rightarrow> int \<Rightarrow> int \<Rightarrow> string \<Rightarrow> json"
where
  "mailbox_envelope envelope message local contact mailbox ciphertext created expires signature = JObj
     [(''type'', JStr ''mailbox_envelope''), (''version'', JNum 1), (''envelope_id'', JStr envelope),
      (''message_id'', JStr message),
      (''sender_identity_id'', jprop local ''identity_id''), (''sender_device_id'', jprop local ''device_id''),
      (''recipient_identity_id'', jprop contact ''identity_id''), (''recipient_device_id'', jprop contact ''device_id''),
      (''recipient_mailbox_id'', JStr mailbox), (''payload_type'', JStr ''ciphertext_message''),
      (''ciphertext'', JStr ciphertext), (''created_at_ms'', JNum created), (''expires_at_ms'', JNum expires),
      (''size_bytes'', JNum (int (length ciphertext))), (''sender_signature'', JStr signature)]"

definition contact_address :: "json \<Rightarrow> device_address result" where
  "contact_address contact = record_address contact"

text \<open>
  The transaction that encrypts: the stored outbox record, and whether it was there already.
\<close>

definition compose_message ::
  "'r messenger \<Rightarrow> json \<Rightarrow> json \<Rightarrow> string \<Rightarrow> prekey_bundle option \<Rightarrow> device_address \<Rightarrow> json
     \<Rightarrow> (json \<times> bool) ptx"
where
  "compose_message M input contact h verified self local =
     (let E = ms_env M; message = str_prop input ''messageId''; text = str_prop input ''plaintext'';
          identity = str_prop contact ''identity_id'' in
      andThen (onRecords (tget (outbox_record_key message))) (\<lambda>committed.
        case committed of
          Some b \<Rightarrow> andThen (lift (decode b)) (\<lambda>r. ret (r, True))
        | None \<Rightarrow>
            andThen (lift (contact_address contact)) (\<lambda>address.
            andThen (onRecords (tget (contact_key identity))) (\<lambda>pinned.
            andThen (lift (case pinned of
                None \<Rightarrow> Inl (OutboundError ''CONTACT_PIN_MISMATCH'')
              | Some b \<Rightarrow> bindR (decode b) (\<lambda>p.
                  guardR (stringify p = stringify contact) (OutboundError ''CONTACT_PIN_MISMATCH'')))) (\<lambda>_.
            andThen (case verified of None \<Rightarrow> ret ()
                     | Some nb \<Rightarrow> onRecords (establish (en_lib E) self address nb)) (\<lambda>_.
            andThen (onRecords (encrypt_message (en_lib E) (en_prims E) self address message text)) (\<lambda>c.
            andThen (draw (en_clock E)) (\<lambda>created.
            andThen (draw (ms_id M ''envelope'')) (\<lambda>envelope.
            let mailbox = deriveMailboxId (en_prims E) identity; expires = created + 86400000; ciphertext = wrap_ciphertext c in
            andThen (signEnvelopeBinding E
                \<lparr>recipientMailboxId = mailbox, envelopeId = envelope,
                 senderIdentityId = str_prop local ''identity_id'', senderDeviceId = str_prop local ''device_id'',
                 binding_ciphertext = ciphertext, binding_createdAtMs = created, binding_expiresAtMs = expires\<rparr>) (\<lambda>signature.
            andThen (lift (zod_parse strictEnvelopeSchema
                (mailbox_envelope envelope message local contact mailbox ciphertext created expires signature))) (\<lambda>env.
            let r = outbox_entry h env in
            andThen (onRecords (tset (outbox_record_key message) (encode r))) (\<lambda>_.
            andThen (onRecords (appendHistory \<lparr>contactIdentityId = identity, messageId = message,
                direction = ''outbound'', plaintext = text, createdAtMs = created\<rparr>)) (\<lambda>_.
            andThen (onRecords (tdelete (claim_key identity))) (\<lambda>_.
              ret (r, False)))))))))))))))"

record delivery_receipt =
  rc_messageId :: string
  rc_envelopeId :: string

definition outbox_receipt :: "json \<Rightarrow> delivery_receipt" where
  "outbox_receipt r =
     \<lparr>rc_messageId = str_prop (jprop r ''envelope'') ''message_id'',
      rc_envelopeId = str_prop (jprop r ''envelope'') ''envelope_id''\<rparr>"

definition check_persisted :: "'r messenger \<Rightarrow> json \<Rightarrow> unit ptx" where
  "check_persisted M r =
     (let e = jprop r ''envelope'' in
      andThen (lift (bindR (signalAddressForDevice (str_prop e ''recipient_identity_id'') (str_prop e ''recipient_device_id''))
                 (\<lambda>(name, device). Inr \<lparr>addr_name = name, addr_device = device\<rparr>))) (\<lambda>remote.
      andThen (onRecords (retry_message remote (str_prop e ''message_id''))) (\<lambda>persisted.
        if str_prop e ''ciphertext'' \<noteq> wrap_ciphertext persisted then raise (OutboundError ''OUTBOUND_REJECTED'')
        else ret ())))"

definition deliver :: "'r messenger \<Rightarrow> json \<Rightarrow> ('r, delivery_receipt) run" where
  "deliver M r =
     (if jprop r ''status'' = JStr ''delivered'' then ret (outbox_receipt r)
      else
        andThen (withRuntime (ms_env M) (\<lambda>_ _. check_persisted M r)) (\<lambda>_.
        andThen (onRelay (sendEnvelope (ms_settings M) (ms_server M) (jprop r ''envelope''))) (\<lambda>_.
        andThen (withRuntime (ms_env M) (\<lambda>_ _. onRecords
            (tset (outbox_record_key (str_prop (jprop r ''envelope'') ''message_id''))
               (encode (set_prop r ''status'' (JStr ''delivered'')))))) (\<lambda>_.
          ret (outbox_receipt r)))))"

definition settle :: "'r messenger \<Rightarrow> json \<Rightarrow> string \<Rightarrow> ('r, delivery_receipt) run" where
  "settle M r h =
     (if jprop r ''contentHash'' \<noteq> JStr h then raise (OutboundError ''MESSAGE_ID_CONFLICT'') else deliver M r)"

definition prior_record :: "'r messenger \<Rightarrow> string \<Rightarrow> ('r, json option) run" where
  "prior_record M message =
     withRuntime (ms_env M) (\<lambda>_ _.
       andThen (onRecords (tget (outbox_record_key message))) (\<lambda>v.
         case v of None \<Rightarrow> ret None | Some b \<Rightarrow> lift (bindR (decode b) (\<lambda>r. Inr (Some r)))))"

text \<open>The claim id of a send without a session: the stored one, or a fresh one stored first.\<close>

definition allocate_claim :: "'r messenger \<Rightarrow> json \<Rightarrow> device_address \<Rightarrow> ('r, string option) run" where
  "allocate_claim M contact address =
     withRuntime (ms_env M) (\<lambda>_ _.
       andThen (onRecords (tget (session_key address))) (\<lambda>session.
         if session \<noteq> None then ret None
         else
           (let key = claim_key (str_prop contact ''identity_id'') in
            andThen (onRecords (tget key)) (\<lambda>previous.
              case previous of
                Some b \<Rightarrow> lift (bindR (decode b) (\<lambda>v. Inr (Some (str_of v))))
              | None \<Rightarrow> andThen (fresh_claim M key) (\<lambda>i. ret (Some i))))))"

definition claim_for_send ::
  "'r messenger \<Rightarrow> json \<Rightarrow> string option \<Rightarrow> ('r, ((device_address \<times> prekey_bundle) \<times> bool) option) run"
where
  "claim_for_send M contact claim =
     (case claim of
        None \<Rightarrow> ret None
      | Some i \<Rightarrow>
          andThen (claimFirstContact M contact (claim_key (str_prop contact ''identity_id'')) 1 i) (\<lambda>c. ret (Some c)))"

text \<open>The receipt, and whether the claim had to be replaced on the way.\<close>

definition sendOwned :: "'r messenger \<Rightarrow> json \<Rightarrow> ('r, delivery_receipt \<times> bool) run" where
  "sendOwned M input =
     (let E = ms_env M; h = send_hash (en_prims E) input; message = str_prop input ''messageId'' in
      andThen (prior_record M message) (\<lambda>prior.
        case prior of
          Some r \<Rightarrow> andThen (settle M r h) (\<lambda>c. ret (c, False))
        | None \<Rightarrow>
            andThen (listContacts E) (\<lambda>contacts.
              case find (\<lambda>c. str_prop c ''identity_id'' = str_prop input ''recipientIdentityId'') contacts of
                None \<Rightarrow> raise (OutboundError ''CONTACT_NOT_TRUSTED'')
              | Some contact \<Rightarrow>
                  andThen (hasPublication E) (\<lambda>published.
                    if \<not> published then raise (OutboundError ''SENDER_NOT_PUBLISHED'')
                    else
                      andThen (lift (contact_address contact)) (\<lambda>address.
                      andThen (allocate_claim M contact address) (\<lambda>claim.
                      andThen (claim_for_send M contact claim) (\<lambda>claimed.
                      andThen (withRuntime E (compose_message M input contact h
                                 (map_option (\<lambda>c. snd (fst c)) claimed))) (\<lambda>(r, existed).
                      andThen (if existed then settle M r h else deliver M r) (\<lambda>delivered.
                        ret (delivered, case claimed of None \<Rightarrow> False | Some c \<Rightarrow> snd c))))))))))"

definition send_message :: "'r messenger \<Rightarrow> json \<Rightarrow> ('r, delivery_receipt \<times> bool) run" where
  "send_message M input =
     (case zparse inputSchema input of
        None \<Rightarrow> raise (OutboundError ''INVALID_MESSAGE'')
      | Some v \<Rightarrow>
          if length (str_prop v ''plaintext'') > MAX_PLAINTEXT_BYTES then raise (OutboundError ''INVALID_MESSAGE'')
          else serial (sendOwned M v))"

fun deliver_all :: "'r messenger \<Rightarrow> json list \<Rightarrow> ('r, delivery_receipt list) run" where
  "deliver_all M [] = ret []"
| "deliver_all M (r # rs) =
     andThen (deliver M r) (\<lambda>c. andThen (deliver_all M rs) (\<lambda>cs. ret (c # cs)))"

fun read_outbox :: "string list \<Rightarrow> records \<Rightarrow> json list result" where
  "read_outbox [] rs = Inr []"
| "read_outbox (k # ks) rs =
     bindR (decode_present (rec_get k rs)) (\<lambda>r. bindR (read_outbox ks rs) (\<lambda>vs. Inr (r # vs)))"

definition retryPending :: "'r messenger \<Rightarrow> ('r, delivery_receipt list) run" where
  "retryPending M =
     serial
       (andThen (withRuntime (ms_env M) (\<lambda>_ _.
          andThen (onRecords (tkeys ''cli:outbox:'')) (\<lambda>ks.
            onRecords (\<lambda>rs. (bindR (read_outbox (sort ks) rs) (\<lambda>vs.
              Inr (filter (\<lambda>v. jprop v ''status'' = JStr ''pending'') vs)), rs))))) (\<lambda>pending.
          deliver_all M pending))"

definition outbound_diagnostics :: "'r messenger \<Rightarrow> ('r, json) run" where
  "outbound_diagnostics M = serial (diagnostics (ms_env M) (ms_config M))"

subsection \<open>A send without a pinned contact or a publication\<close>

text \<open>\<open>quiet m\<close>: whatever its result, \<open>m\<close> makes no relay call and changes no record.\<close>

definition quiet :: "('r, 'a) run \<Rightarrow> bool" where
  "quiet m \<longleftrightarrow> (\<forall>w. w_relay (snd (m w)) = w_relay w \<and> w_records (snd (m w)) = w_records w)"

named_theorems quiet_rules \<open>operations that neither ask the relay nor write\<close>

lemma quiet_basic [quiet_rules]: "quiet (ret x)" "quiet (raise e)" "quiet (lift r)" "quiet (drawW f)" "quiet (Pair r)"
  by (simp_all add: quiet_def drawW_def)

lemma quiet_andThen [quiet_rules]: "quiet m \<Longrightarrow> (\<And>x. quiet (f x)) \<Longrightarrow> quiet (andThen m f)"
  unfolding quiet_def andThen_def by (auto split: prod.splits sum.splits) (metis snd_conv)+

lemma quiet_if [quiet_rules]: "quiet m \<Longrightarrow> quiet n \<Longrightarrow> quiet (if b then m else n)"
  by simp

lemma quiet_option [quiet_rules]:
  "quiet m \<Longrightarrow> (\<And>x. quiet (f x)) \<Longrightarrow> quiet (case v of None \<Rightarrow> m | Some x \<Rightarrow> f x)"
  by (cases v) auto

lemma quiet_transact [quiet_rules]: "preads m \<Longrightarrow> quiet (transact E m)"
  by (simp add: quiet_def transact_preads)

lemma quiet_withRuntime [quiet_rules]: "(\<And>self local. preads (f self local)) \<Longrightarrow> quiet (withRuntime E f)"
  unfolding quiet_def
proof (intro allI conjI)
  fix w assume "\<And>self local. preads (f self local)"
  then show "w_records (snd (withRuntime E f w)) = w_records w"
    using withRuntime_preads [of E f w "fst (withRuntime E f w)" "snd (withRuntime E f w)"] by simp
  show "w_relay (snd (withRuntime E f w)) = w_relay w"
    using withRuntime_relay [of E f w "fst (withRuntime E f w)" "snd (withRuntime E f w)"] by simp
qed

lemma quiet_profile [quiet_rules]: "quiet (prior_record M i)" "quiet (listContacts E)" "quiet (hasPublication E)"
  unfolding prior_record_def listContacts_def hasPublication_def
  by (intro quiet_rules pread_rules read_ops; simp add: reads_def)+

lemma quiet_serial: "quiet m \<Longrightarrow> quiet (serial m)"
  by (auto simp: quiet_def serial_def split: prod.splits sum.splits) (metis snd_conv)+

lemma prior_record_result:
  assumes "prior_record M i w = (Inr v, w')"
  shows "case v of None \<Rightarrow> rec_get (outbox_record_key i) (w_records w) = None
    | Some r \<Rightarrow> \<exists>b. rec_get (outbox_record_key i) (w_records w) = Some b \<and> decode b = Inr r"
  using assms unfolding prior_record_def
  by (elim withRuntime_Inr) (auto simp: andThen_Inr_iff onRecords_iff bindR_Inr_iff split: option.splits)

text \<open>A contact is pinned when a stored record decodes to its identity.\<close>

definition pinned :: "records \<Rightarrow> string \<Rightarrow> bool" where
  "pinned rs i \<longleftrightarrow> (\<exists>k b c. prefix contact_prefix k \<and> rec_get k rs = Some b
     \<and> bindR (decode b) (zod_parse contactSchema) = Inr c \<and> str_prop c ''identity_id'' = i)"

lemma read_contacts_pinned:
  assumes "read_contacts ks rs = Inr cs" "c \<in> set cs" "\<forall>k \<in> set ks. prefix contact_prefix k"
  shows "pinned rs (str_prop c ''identity_id'')"
  using assms
proof (induction ks arbitrary: cs)
  case (Cons k ks)
  then obtain b d ds where d: "rec_get k rs = Some b" "bindR (decode b) (zod_parse contactSchema) = Inr d"
    "read_contacts ks rs = Inr ds" "cs = d # ds"
    by (auto simp: bindR_Inr_iff decode_present_def)
  show ?case
  proof (cases "c = d")
    case True
    with d Cons.prems(3) show ?thesis by (auto simp: pinned_def)
  next
    case False
    with Cons d show ?thesis by simp
  qed
qed simp

lemma listContacts_pinned:
  assumes "listContacts E w = (Inr cs, w')" "c \<in> set cs"
  shows "pinned (w_records w) (str_prop c ''identity_id'')"
proof -
  from assms(1) have "read_contacts (sort (rec_keys contact_prefix (w_records w))) (w_records w) = Inr cs"
    by (auto simp: listContacts_def transact_Inr andThen_Inr_iff onRecords_iff)
  from read_contacts_pinned [OF this assms(2)] show ?thesis by (simp add: rec_keys_iff)
qed

lemma hasPublication_result: "hasPublication E w = (Inr b, w') \<Longrightarrow> b \<longleftrightarrow> rec_get publicationKey (w_records w) \<noteq> None"
  by (auto simp: hasPublication_def transact_Inr andThen_Inr_iff onRecords_iff)

lemma quiet_result: "quiet m \<Longrightarrow> m w = (r, w') \<Longrightarrow> w_relay w' = w_relay w \<and> w_records w' = w_records w"
  unfolding quiet_def by (metis snd_conv)

lemma sendOwned_refused:
  assumes "rec_get (outbox_record_key (str_prop v ''messageId'')) (w_records w) = None"
    "rec_get publicationKey (w_records w) = None \<or> \<not> pinned (w_records w) (str_prop v ''recipientIdentityId'')"
  shows "\<exists>e w'. sendOwned M v w = (Inl e, w') \<and> w_relay w' = w_relay w \<and> w_records w' = w_records w"
proof -
  let ?E = "ms_env M" and ?i = "str_prop v ''messageId''"
  obtain p w1 where p: "prior_record M ?i w = (p, w1)" by fastforce
  note q1 = quiet_result [OF quiet_profile(1) p]
  show ?thesis
  proof (cases p)
    case (Inl e)
    with p q1 show ?thesis by (simp add: sendOwned_def Let_def andThen_Inl)
  next
    case (Inr po)
    with p prior_record_result [of M ?i w po w1] assms(1) have po: "po = None" by (cases po) auto
    obtain l w2 where l: "listContacts ?E w1 = (l, w2)" by fastforce
    note q2 = quiet_result [OF quiet_profile(2) l]
    show ?thesis
    proof (cases l)
      case (Inl e)
      with p \<open>p = Inr po\<close> po l q1 q2 show ?thesis by (simp add: sendOwned_def Let_def andThen_Inl andThen_Inr)
    next
      case (Inr cs)
      show ?thesis
      proof (cases "find (\<lambda>c. str_prop c ''identity_id'' = str_prop v ''recipientIdentityId'') cs")
        case None
        with p \<open>p = Inr po\<close> po l Inr q1 q2 show ?thesis by (simp add: sendOwned_def Let_def andThen_Inr)
      next
        case (Some c)
        then have c: "c \<in> set cs" "str_prop c ''identity_id'' = str_prop v ''recipientIdentityId''"
          by (auto simp: find_Some_iff)
        with listContacts_pinned [of ?E w1 cs w2 c] l Inr q1 assms(2)
        have n: "rec_get publicationKey (w_records w2) = None" using q2 by auto
        obtain h w3 where h: "hasPublication ?E w2 = (h, w3)" by fastforce
        note q3 = quiet_result [OF quiet_profile(3) h]
        have "h = Inr False \<or> (\<exists>e. h = Inl e)"
          using hasPublication_result [of ?E w2 _ w3] h n by (cases h) auto
        then consider "hasPublication ?E w2 = (Inr False, w3)" | e where "hasPublication ?E w2 = (Inl e, w3)"
          using h by blast
        then show ?thesis
          using p \<open>p = Inr po\<close> po l Inr Some q1 q2 q3
          by cases (simp_all add: sendOwned_def Let_def andThen_def [of "hasPublication ?E"] andThen_Inl andThen_Inr)
      qed
    qed
  qed
qed

subsection \<open>The outbox\<close>

text \<open>\<open>rleaves K m\<close>: whatever its result, \<open>m\<close> leaves every record whose key is in \<open>K\<close> as it was.\<close>

definition rleaves :: "(string \<Rightarrow> bool) \<Rightarrow> ('r, 'a) run \<Rightarrow> bool" where
  "rleaves K m \<longleftrightarrow> (\<forall>w k. K k \<longrightarrow> rec_get k (w_records (snd (m w))) = rec_get k (w_records w))"

lemma rleaves_quiet: "quiet m \<Longrightarrow> rleaves K m"
  by (simp add: quiet_def rleaves_def)

lemma rleaves_basic [frame_rules]: "rleaves K (ret x)" "rleaves K (raise e)" "rleaves K (lift r)" "rleaves K (drawW f)"
  by (simp_all add: rleaves_def drawW_def)

lemma rleaves_andThen [frame_rules]: "rleaves K m \<Longrightarrow> (\<And>x. rleaves K (f x)) \<Longrightarrow> rleaves K (andThen m f)"
  unfolding rleaves_def andThen_def by (auto split: prod.splits sum.splits) (metis snd_conv)+

lemma rleaves_onRelay [frame_rules]: "rleaves K (onRelay m)"
  by (auto simp: rleaves_def onRelay_def split: prod.splits)

lemma rleaves_transact [frame_rules]: "pleaves K m \<Longrightarrow> rleaves K (transact E m)"
  unfolding rleaves_def pleaves_def transact_def by (auto split: prod.splits sum.splits) (metis fst_conv snd_conv)+

lemma rleaves_withRuntime [frame_rules]:
  assumes "\<And>self local. pleaves K (f self local)"
  shows "rleaves K (withRuntime E f)"
  unfolding rleaves_def
proof (intro allI impI)
  fix w k assume "K k"
  obtain r w' where r: "withRuntime E f w = (r, w')" by fastforce
  show "rec_get k (w_records (snd (withRuntime E f w))) = rec_get k (w_records w)"
  proof (cases r)
    case (Inl e)
    with r show ?thesis by (auto dest: withRuntime_Inl)
  next
    case (Inr x)
    with r assms \<open>K k\<close> show ?thesis by (auto elim!: withRuntime_Inr simp: pleaves_def) (metis fst_conv snd_conv)
  qed
qed

lemma rleaves_option [frame_rules]:
  "rleaves K m \<Longrightarrow> (\<And>x. rleaves K (f x)) \<Longrightarrow> rleaves K (case v of None \<Rightarrow> m | Some x \<Rightarrow> f x)"
  by (cases v) auto

lemma rleaves_result: "rleaves K m \<Longrightarrow> m w = (r, w') \<Longrightarrow> K k \<Longrightarrow> rec_get k (w_records w') = rec_get k (w_records w)"
  unfolding rleaves_def by (metis snd_conv)

definition message_record :: "string \<Rightarrow> bool" where
  "message_record k \<longleftrightarrow> prefix ''cli:outbox:'' k"

lemma message_record_keys [simp]:
  "message_record (outbox_record_key i)" "\<not> message_record (claim_key i)" "\<not> message_record history_sequence_key"
  "\<not> message_record (history_key n)" "outbox_record_key i = outbox_record_key j \<longleftrightarrow> i = j"
  "outbox_record_key i \<noteq> claim_key j"
  by (simp_all add: message_record_def outbox_record_key_def claim_key_def history_sequence_key_def history_key_def history_prefix_def)

lemma leaves_mono: "leaves K m \<Longrightarrow> (\<And>k. K' k \<Longrightarrow> K k) \<Longrightarrow> leaves K' m"
  by (auto simp: leaves_def)

lemma message_record_cli: "message_record k \<Longrightarrow> cli_key k"
  by (auto simp: message_record_def cli_key_def prefix_def)

lemma leaves_history [frame_rules]: "leaves message_record (appendHistory e)"
  unfolding appendHistory_def by (intro frame_rules leaves_set; simp)

lemma leaves_delete: "\<not> K k \<Longrightarrow> leaves K (tdelete k)"
  by (auto simp: leaves_def)

lemma message_leaves_client [frame_rules]:
  "leaves message_record (establish L self a b)" "leaves message_record (encrypt_message L P self a m text)"
  by (rule leaves_mono [OF leaves_establish message_record_cli], assumption)
    (rule leaves_mono [OF leaves_encrypt message_record_cli], assumption)

lemma pleaves_fresh_claim [frame_rules]: "pleaves message_record (fresh_claim M (claim_key i))"
  unfolding fresh_claim_def by (intro frame_rules leaves_set; simp)

lemma rleaves_claims [frame_rules]:
  "rleaves message_record (allocate_claim M contact address)"
  "rleaves message_record (claimFirstContact M contact (claim_key j) n i)"
proof -
  show "rleaves message_record (allocate_claim M contact address)"
    unfolding allocate_claim_def Let_def by (intro frame_rules)
  show "rleaves message_record (claimFirstContact M contact (claim_key j) n i)"
  proof (induction n arbitrary: i)
    case 0
    show ?case by (subst claimFirstContact.simps)
      (intro frame_rules; auto split: sum.splits intro: frame_rules)
  next
    case (Suc n)
    show ?case by (subst claimFirstContact.simps)
      (intro frame_rules; auto split: sum.splits intro!: frame_rules Suc)
  qed
qed

text \<open>An outbox record as the messenger writes it; \<open>outbox_ok\<close>: the stored ones are filed under their own message id.\<close>

definition stored_entry_json :: "string \<Rightarrow> json \<Rightarrow> string \<Rightarrow> json" where
  "stored_entry_json h envelope status =
     JObj [(''contentHash'', JStr h), (''envelope'', envelope), (''status'', JStr status)]"

definition outbox_holds :: "records \<Rightarrow> string \<Rightarrow> string \<Rightarrow> json \<Rightarrow> string \<Rightarrow> bool" where
  "outbox_holds rs i h envelope status \<longleftrightarrow>
     rec_get (outbox_record_key i) rs = Some (encode (stored_entry_json h envelope status))
     \<and> wf_json envelope \<and> str_prop envelope ''message_id'' = i"

definition outbox_ok :: "records \<Rightarrow> bool" where
  "outbox_ok rs \<longleftrightarrow> (\<forall>i. rec_get (outbox_record_key i) rs \<noteq> None \<longrightarrow> (\<exists>h envelope status. outbox_holds rs i h envelope status))"

lemma stored_entry_props [simp]:
  "jprop (stored_entry_json h e s) ''contentHash'' = JStr h" "jprop (stored_entry_json h e s) ''envelope'' = e"
  "jprop (stored_entry_json h e s) ''status'' = JStr s"
  "set_prop (stored_entry_json h e s) ''status'' (JStr s') = stored_entry_json h e s'"
  "outbox_entry h e = stored_entry_json h e ''pending''"
  "wf_json (stored_entry_json h e s) = wf_json e"
  by (simp_all add: stored_entry_json_def outbox_entry_def)

lemma onRelay_records: "onRelay m w = (r, w') \<Longrightarrow> w_records w' = w_records w"
  by (auto simp: onRelay_def split: prod.splits)

lemma deliver_result:
  assumes "deliver M (stored_entry_json h e s) w = (Inr c, w')" "outbox_holds (w_records w) i h e s"
  shows "outbox_holds (w_records w') i h e ''delivered''
    \<and> c = \<lparr>rc_messageId = i, rc_envelopeId = str_prop e ''envelope_id''\<rparr>
    \<and> (\<forall>k. message_record k \<longrightarrow> k \<noteq> outbox_record_key i \<longrightarrow> rec_get k (w_records w') = rec_get k (w_records w))"
proof (cases "s = ''delivered''")
  case True
  with assms show ?thesis by (auto simp: deliver_def outbox_receipt_def outbox_holds_def)
next
  case False
  let ?W = "withRuntime (ms_env M) (\<lambda>_ _. onRecords (tset (outbox_record_key i) (encode (stored_entry_json h e ''delivered''))))"
  from False assms obtain w1 w2 where s: "withRuntime (ms_env M) (\<lambda>_ _. check_persisted M (stored_entry_json h e s)) w = (Inr (), w1)"
    "w_records w2 = w_records w1" "?W w2 = (Inr (), w')"
    and c: "c = \<lparr>rc_messageId = i, rc_envelopeId = str_prop e ''envelope_id''\<rparr>"
    by (auto simp: deliver_def andThen_Inr_iff outbox_holds_def outbox_receipt_def dest: onRelay_records)
  have "preads (check_persisted M (stored_entry_json h e s))"
    unfolding check_persisted_def Let_def case_prod_unfold by (intro pread_rules read_ops)
  then have r: "w_records w2 = w_records w" using withRuntime_preads [OF s(1)] s(2) by simp
  from s(3) have "w_records w' = rec_set (outbox_record_key i) (encode (stored_entry_json h e ''delivered'')) (w_records w)"
    by (rule withRuntime_Inr) (auto simp: onRecords_iff r)
  with c assms(2) show ?thesis by (auto simp: outbox_holds_def)
qed

lemma envelope_wf: "zod_parse strictEnvelopeSchema v = Inr e \<Longrightarrow> wf_json e"
proof -
  assume "zod_parse strictEnvelopeSchema v = Inr e"
  then have "zparse (SObject True mailbox_envelope_fields) v = Some e"
    by (auto simp: zod_parse_def strictEnvelopeSchema_def)
  moreover have "distinct (map fst mailbox_envelope_fields)" "\<forall>(k, opt, s) \<in> set mailbox_envelope_fields. leaf s"
    by (simp_all add: mailbox_envelope_fields_def literal_text_def literal_number_def uuid_string_def any_string_def any_number_def)
  ultimately show ?thesis by (rule flat_object_wf)
qed

lemma envelope_message_id:
  assumes "zod_parse strictEnvelopeSchema v = Inr e"
  shows "jprop e ''message_id'' = jprop v ''message_id''"
proof -
  from assms have "zparse (SObject True mailbox_envelope_fields) v = Some e"
    by (simp only: zod_parse_def strictEnvelopeSchema_def of_option_Inr_iff)
  moreover have "distinct (map fst mailbox_envelope_fields)" "leaf_at mailbox_envelope_fields ''message_id''"
    by (simp_all add: mailbox_envelope_fields_def leaf_at_def uuid_string_def)
  ultimately show ?thesis using object_leaf_at by blast
qed

lemma leaves_result: "leaves K m \<Longrightarrow> m s = (r, s') \<Longrightarrow> K k \<Longrightarrow> rec_get k s' = rec_get k s"
  unfolding leaves_def by (metis snd_conv)

lemma pleaves_result: "pleaves K m \<Longrightarrow> m (s, t) = (r, (s', t')) \<Longrightarrow> K k \<Longrightarrow> rec_get k s' = rec_get k s"
  unfolding pleaves_def by (metis fst_conv snd_conv)

definition other_messages :: "string \<Rightarrow> string \<Rightarrow> bool" where
  "other_messages i k \<longleftrightarrow> message_record k \<and> k \<noteq> outbox_record_key i"

lemma other_messages_leaves:
  "leaves message_record m \<Longrightarrow> leaves (other_messages i) m"
  by (erule leaves_mono) (simp add: other_messages_def)

lemma other_messages_keys: "\<not> other_messages i (outbox_record_key i)" "\<not> other_messages i (claim_key j)"
  by (simp_all add: other_messages_def)

lemma pleaves_compose:
  assumes "str_prop input ''messageId'' = i"
  shows "pleaves (other_messages i) (compose_message M input contact h verified self local)"
  unfolding compose_message_def Let_def assms
  by (intro frame_rules leaves_set leaves_delete leaves_history [THEN other_messages_leaves]
      message_leaves_client [THEN other_messages_leaves] other_messages_keys)

lemma compose_result:
  assumes "compose_message M input contact h verified self local (rs, t) = (Inr (r, existed), (rs', t'))"
    "rec_get (outbox_record_key (str_prop input ''messageId'')) rs = None"
  shows "\<not> existed \<and> (\<exists>e. r = stored_entry_json h e ''pending'' \<and> outbox_holds rs' (str_prop input ''messageId'') h e ''pending'')
    \<and> (\<forall>k. message_record k \<longrightarrow> k \<noteq> outbox_record_key (str_prop input ''messageId'') \<longrightarrow> rec_get k rs' = rec_get k rs)"
proof -
  let ?i = "str_prop input ''messageId''"
  from assms obtain e en he rs1 rs2 where
    e: "zod_parse strictEnvelopeSchema (mailbox_envelope en ?i local contact (deriveMailboxId (en_prims (ms_env M)) (str_prop contact ''identity_id''))
        (fst he) (fst (snd he)) (fst (snd he) + 86400000) (snd (snd he))) = Inr e"
    and r: "r = stored_entry_json h e ''pending''" "\<not> existed"
    and st: "appendHistory \<lparr>contactIdentityId = str_prop contact ''identity_id'', messageId = ?i, direction = ''outbound'',
        plaintext = str_prop input ''plaintext'', createdAtMs = fst (snd he)\<rparr> (rec_set (outbox_record_key ?i) (encode r) rs1) = (Inr (), rs2)"
      "rs' = rec_delete (claim_key (str_prop contact ''identity_id'')) rs2"
    by (simp add: compose_message_def Let_def andThen_Inr_iff onRecords_iff) (metis fst_conv snd_conv)
  have "str_prop e ''message_id'' = ?i"
    using envelope_message_id [OF e] by (simp add: mailbox_envelope_def str_prop_def)
  moreover have "rec_get (outbox_record_key ?i) rs2 = Some (encode r)"
    using leaves_result [OF leaves_history st(1) message_record_keys(1) [of ?i]] by simp
  ultimately have "outbox_holds rs' ?i h e ''pending''"
    using st(2) r(1) envelope_wf [OF e] by (simp add: outbox_holds_def)
  moreover have "rec_get k rs' = rec_get k rs" if "message_record k" "k \<noteq> outbox_record_key ?i" for k
    using pleaves_result [OF pleaves_compose [OF refl] assms(1), of k] that by (simp add: other_messages_def)
  ultimately show ?thesis using r by blast
qed

lemma outbox_okD: "outbox_ok rs \<Longrightarrow> rec_get (outbox_record_key i) rs = Some b \<Longrightarrow> \<exists>h e s. outbox_holds rs i h e s"
  by (auto simp: outbox_ok_def)

lemma outbox_ok_update:
  assumes "outbox_ok rs" "outbox_holds rs' i h e s"
    "\<And>k. message_record k \<Longrightarrow> k \<noteq> outbox_record_key i \<Longrightarrow> rec_get k rs' = rec_get k rs"
  shows "outbox_ok rs'"
  unfolding outbox_ok_def
proof (intro allI impI)
  fix j assume j: "rec_get (outbox_record_key j) rs' \<noteq> None"
  show "\<exists>h e s. outbox_holds rs' j h e s"
  proof (cases "j = i")
    case False
    with assms(3) [of "outbox_record_key j"] have eq: "rec_get (outbox_record_key j) rs' = rec_get (outbox_record_key j) rs"
      by simp
    with j assms(1) show ?thesis by (auto simp: outbox_ok_def outbox_holds_def)
  qed (use assms(2) in blast)
qed

lemma prior_found:
  assumes "prior_record M i w = (Inr (Some r), w1)" "outbox_ok (w_records w)"
  obtains h e s where "r = stored_entry_json h e s" "outbox_holds (w_records w) i h e s"
proof -
  from prior_record_result [OF assms(1)] obtain b where b: "rec_get (outbox_record_key i) (w_records w) = Some b" "decode b = Inr r"
    by auto
  from outbox_okD [OF assms(2) b(1)] obtain h e s where h: "outbox_holds (w_records w) i h e s" by blast
  with b have "r = stored_entry_json h e s" by (simp add: outbox_holds_def)
  with h that show thesis by blast
qed

text \<open>A send that succeeds leaves its record delivered, with the hash of its content.\<close>

lemma sendOwned_delivers:
  assumes run: "sendOwned M v w = (Inr (c, rep), w1)" and ok: "outbox_ok (w_records w)"
  defines "i \<equiv> str_prop v ''messageId''"
  shows "\<exists>e. outbox_holds (w_records w1) i (send_hash (en_prims (ms_env M)) v) e ''delivered''
    \<and> c = \<lparr>rc_messageId = i, rc_envelopeId = str_prop e ''envelope_id''\<rparr> \<and> outbox_ok (w_records w1)"
proof -
  let ?h = "send_hash (en_prims (ms_env M)) v"
  obtain p w0 where p: "prior_record M i w = (Inr p, w0)"
    using run by (auto simp: sendOwned_def Let_def andThen_Inr_iff i_def)
  have q: "w_records w0 = w_records w" using quiet_result [OF quiet_profile(1) p] by simp
  show ?thesis
  proof (cases p)
    case (Some r)
    with p ok obtain h e s where r: "r = stored_entry_json h e s" "outbox_holds (w_records w) i h e s"
      by (blast elim: prior_found)
    with run p Some q have "h = ?h" "deliver M (stored_entry_json h e s) w0 = (Inr c, w1)"
      by (auto simp: sendOwned_def Let_def andThen_Inr settle_def andThen_Inr_iff i_def [symmetric] split: if_splits)
    with r q deliver_result [of M h e s w0 c w1 i] outbox_ok_update [OF ok, of "w_records w1"] show ?thesis by auto
  next
    case None
    from run p None obtain contact address wa claim wb claimed wc r existed wd where
      a: "allocate_claim M contact address wa = (Inr claim, wb)" and wa: "w_records wa = w_records w0"
      and b: "claim_for_send M contact claim wb = (Inr claimed, wc)"
      and d: "withRuntime (ms_env M) (compose_message M v contact ?h (map_option (\<lambda>c. snd (fst c)) claimed)) wc = (Inr (r, existed), wd)"
      and e: "(if existed then settle M r ?h else deliver M r) wd = (Inr c, w1)"
      by (auto simp: sendOwned_def Let_def andThen_Inr andThen_Inr_iff i_def [symmetric]
          dest!: quiet_result [OF quiet_profile(2)] quiet_result [OF quiet_profile(3)] split: option.splits if_splits)
    have "rleaves message_record (claim_for_send M contact claim)"
      unfolding claim_for_send_def by (intro frame_rules)
    from rleaves_result [OF this b] rleaves_result [OF rleaves_claims(1) a] wa q
    have same: "rec_get k (w_records wc) = rec_get k (w_records w)" if "message_record k" for k
      using that by simp
    have n: "rec_get (outbox_record_key i) (w_records wc) = None"
      using same [of "outbox_record_key i"] prior_record_result [OF p] None by simp
    from d obtain self local t u where
      "compose_message M v contact ?h (map_option (\<lambda>c. snd (fst c)) claimed) self local (w_records wc, t) = (Inr (r, existed), (w_records wd, u))"
      by (rule withRuntime_Inr)
    from compose_result [OF this n [unfolded i_def]] obtain en where
      r: "\<not> existed" "r = stored_entry_json ?h en ''pending''" "outbox_holds (w_records wd) i ?h en ''pending''"
      and o: "\<And>k. message_record k \<Longrightarrow> k \<noteq> outbox_record_key i \<Longrightarrow> rec_get k (w_records wd) = rec_get k (w_records w)"
      using same by (auto simp: i_def)
    from e r(1,2) have "deliver M (stored_entry_json ?h en ''pending'') wd = (Inr c, w1)" by simp
    from deliver_result [OF this r(3)] o outbox_ok_update [OF ok, of "w_records w1" i] show ?thesis by auto
  qed
qed

subsection \<open>A profile whose runtime opens\<close>

lemma withRuntime_opens:
  assumes "profile_metadata (w_records w) m" "record_address (device_record m) = Inr self"
    "create_client (en_lib E) (en_keys E (Suc (w_tick w))) (en_clock E (Suc (Suc (w_tick w)))) self (w_records w) = (Inr (), w_records w)"
    "f self (device_record m) (w_records w, Suc (Suc (Suc (w_tick w)))) = (Inr x, (rs, t))"
    "\<And>t. \<not> en_fault E t"
  shows "withRuntime E f w = (Inr x, w\<lparr>w_records := rs, w_tick := Suc t, w_commits := rs # w_commits w\<rparr>)"
proof -
  have "readMetadata (w_records w, Suc (w_tick w)) = (Inr m, (w_records w, Suc (w_tick w)))"
    using assms(1) by (simp add: readMetadata_Inr)
  with assms(2-5) show ?thesis
    by (simp add: withRuntime_def transact_def andThen_def open_client_def draw_def onRecords_def)
qed

definition toy_self :: device_address where
  "toy_self = \<lparr>addr_name = stringify (JArr [jprop sample_device ''identity_id'', JStr sample_uuid]), addr_device = 1\<rparr>"

lemma toy_self_address: "record_address sample_device = Inr toy_self"
proof -
  have "encodedBytes 32 None (encodeBase64Url (replicate 32 CHR ''k''))"
    by (subst encodedBytes_encode) auto
  then show ?thesis
    by (simp add: record_address_def signalAddressForDevice_def toy_self_def sample_device_def sample_key_def str_prop_def del: stringify.simps)
qed

definition plain_char :: "char \<Rightarrow> bool" where
  "plain_char c \<longleftrightarrow> escape_char c = [c]"

lemma quote_plain: "list_all plain_char s \<Longrightarrow> length (quote s) = length s + 2"
  by (induction s) (auto simp: quote_def plain_char_def)

lemma plainI:
  assumes "32 \<le> (of_char c :: nat)" "c \<noteq> CHR 0x22" "c \<noteq> CHR 0x5C"
  shows "plain_char c"
proof -
  have "c \<noteq> CHR 0x08" "c \<noteq> CHR 0x0C" "c \<noteq> CHR 0x0A" "c \<noteq> CHR 0x0D" "c \<noteq> CHR 0x09"
    using assms(1) by auto
  with assms show ?thesis by (simp add: plain_char_def escape_char_def)
qed

lemma url_plain: "is_url_char c \<Longrightarrow> plain_char c"
proof (rule plainI)
  assume u: "is_url_char c"
  show "32 \<le> (of_char c :: nat)" using u unfolding is_url_char_def is_url_code_def by linarith
  show "c \<noteq> CHR 0x22" "c \<noteq> CHR 0x5C" using u by (auto simp: is_url_char_def is_url_code_def)
qed

lemma b64_plain: "list_all plain_char (encodeBase64Url bs)"
  by (auto simp: list_all_iff encode_eq_b64url intro: url_plain dest: b64url_is_url)

lemma utf16_units_le: "utf16_units s \<le> 2 * length s"
  by (induction s) (simp_all add: utf16_units_def Let_def)

lemma toy_self_ok: "assertAddress toy_self = Inr ()"
proof -
  have "list_all plain_char sample_uuid" "length sample_uuid = 36" by code_simp+
  then have "length (addr_name toy_self) = 86"
    by (simp add: toy_self_def sample_device_def sample_key_def quote_plain b64_plain encode_eq_b64url [symmetric] length_b64url [folded encode_eq_b64url])
  with utf16_units_le [of "addr_name toy_self"] show ?thesis
    by (auto simp: assertAddress_def) (simp_all add: toy_self_def)
qed

definition client_records :: "(string \<times> bytes) list \<Rightarrow> records" where
  "client_records kvs =
     (metadataKey, encode toy_metadata) # (''device'', encode (device_metadata toy_self 7)) # (''identity'', ''i'') # kvs"

definition client_world :: "'r \<Rightarrow> (string \<times> bytes) list \<Rightarrow> 'r world" where
  "client_world r kvs = \<lparr>w_records = client_records kvs, w_tick = 0, w_relay = r, w_commits = []\<rparr>"

lemma client_created: "create_client toy_libsignal F now toy_self (client_records kvs) = (Inr (), client_records kvs)"
proof -
  have "wf_json (device_metadata toy_self 7)" by (simp add: device_metadata_def)
  from json.dec_enc [OF this] show ?thesis
    by (simp add: create_client_def andThen_def toy_self_ok client_records_def rec_get_def metadataKey_def
        metadata_address_def device_metadata_def getIdentityKey_def requireRecord_def deserialize_def toy_libsignal_def
        str_prop_def num_prop_def addressKey_def)
qed

lemma client_runtime:
  assumes "w_records w = client_records kvs" "f toy_self sample_device (client_records kvs, Suc (Suc (Suc (w_tick w)))) = (Inr x, (rs, t))"
  shows "withRuntime toy_env f w = (Inr x, w\<lparr>w_records := rs, w_tick := Suc t, w_commits := rs # w_commits w\<rparr>)"
proof (rule withRuntime_opens [where m = toy_metadata and self = toy_self])
  show "profile_metadata (w_records w) toy_metadata" by (simp add: assms(1) client_records_def)
  show "record_address (device_record toy_metadata) = Inr toy_self"
    using toy_self_address by (simp add: device_record_def toy_metadata_def)
qed (use assms client_created in \<open>simp_all add: device_record_def toy_metadata_def toy_env_def\<close>)

definition toy_messenger :: "'r server \<Rightarrow> 'r messenger" where
  "toy_messenger R = \<lparr>ms_env = toy_env, ms_settings = toy_settings, ms_server = R, ms_id = (\<lambda>_ _. sample_uuid), ms_config = JNull\<rparr>"

definition toy_input :: json where
  "toy_input = JObj [(''recipientIdentityId'', JStr ''b''), (''messageId'', JStr sample_uuid), (''plaintext'', JStr ''hi'')]"

lemma toy_input_ok: "zparse inputSchema toy_input = Some toy_input"
proof -
  have "utf16_units ''hi'' = 2" by code_simp
  then show ?thesis by (simp add: inputSchema_def toy_input_def uuid_string_def MAX_PLAINTEXT_BYTES_def)
qed

lemma toy_input_props:
  "str_prop toy_input ''messageId'' = sample_uuid" "str_prop toy_input ''recipientIdentityId'' = ''b''"
  "str_prop toy_input ''plaintext'' = ''hi''"
  by (simp_all add: toy_input_def str_prop_def)

subsection \<open>Properties\<close>

text \<open>
  A send costs nothing until it can be delivered: a message that has no record yet, from a
  profile that has never offered a publication or to an identity no stored contact pins, is refused
  before any relay call - so no one-time prekey of the recipient is spent - and changes no record.
\<close>

theorem send_needs_contact_and_publication:
  assumes "zparse inputSchema input = Some v"
    "rec_get (outbox_record_key (str_prop v ''messageId'')) (w_records w) = None"
    "rec_get publicationKey (w_records w) = None \<or> \<not> pinned (w_records w) (str_prop v ''recipientIdentityId'')"
  shows "\<exists>e w'. send_message M input w = (Inl e, w') \<and> w_relay w' = w_relay w \<and> w_records w' = w_records w"
  using assms sendOwned_refused [of v w M] by (auto simp: send_message_def serial_def)

theorem send_needs_contact_and_publication_witness:
  "\<exists>e w'. send_message (toy_messenger (fixed_server FetchFailed)) toy_input (client_world 0 []) = (Inl e, w')
     \<and> w_relay w' = 0 \<and> w_records w' = client_records []"
  using send_needs_contact_and_publication [OF toy_input_ok, of "client_world 0 []" "toy_messenger (fixed_server FetchFailed)"]
  by (simp add: client_world_def client_records_def rec_get_def toy_input_props outbox_record_key_def
      publicationKey_def metadataKey_def)

text \<open>
  C26. Sending is idempotent per message id: after a send that succeeded, another send under the
  same id - with the record still there, whatever else has changed - makes no relay call and writes
  nothing; it can only succeed for the same recipient and text (by hash), and then gives the same
  receipt.
\<close>

theorem send_is_idempotent:
  assumes "outbox_ok (w_records w)" "send_message M input w = (Inr (c, replaced), w1)"
    "zparse inputSchema input = Some v" "zparse inputSchema again = Some v'"
    "str_prop v' ''messageId'' = str_prop v ''messageId''"
    "rec_get (outbox_record_key (str_prop v ''messageId'')) (w_records w2)
       = rec_get (outbox_record_key (str_prop v ''messageId'')) (w_records w1)"
  shows "outbox_ok (w_records w1)
    \<and> (case send_message M again w2 of (r, w3) \<Rightarrow> w_relay w3 = w_relay w2 \<and> w_records w3 = w_records w2
         \<and> (\<forall>x. r = Inr x \<longrightarrow> x = (c, False)
              \<and> send_hash (en_prims (ms_env M)) v' = send_hash (en_prims (ms_env M)) v))"
proof -
  let ?i = "str_prop v ''messageId''" and ?h = "send_hash (en_prims (ms_env M))"
  from assms(2,3) have "sendOwned M v w = (Inr (c, replaced), w1)"
    by (auto simp: send_message_def serial_def split: if_splits prod.splits sum.splits)
  from sendOwned_delivers [OF this assms(1)] obtain e where
    h: "outbox_holds (w_records w1) ?i (?h v) e ''delivered''" and
    c: "c = \<lparr>rc_messageId = ?i, rc_envelopeId = str_prop e ''envelope_id''\<rparr>" and ok: "outbox_ok (w_records w1)"
    by blast
  obtain p w4 where p: "prior_record M ?i w2 = (p, w4)" by fastforce
  note q = quiet_result [OF quiet_profile(1) p]
  have r: "p = Inr (Some (stored_entry_json (?h v) e ''delivered'')) \<or> (\<exists>x. p = Inl x)"
    using prior_record_result [of M ?i w2 _ w4] p h assms(6)
    by (cases p) (auto simp: outbox_holds_def split: option.splits)
  have c': "outbox_receipt (stored_entry_json h e s) = c" for h s
    using c h by (simp add: outbox_receipt_def outbox_holds_def)
  have s: "settle M (stored_entry_json (?h v) e ''delivered'') (?h v') w4
      = (if ?h v' = ?h v then Inr c else Inl (OutboundError ''MESSAGE_ID_CONFLICT''), w4)"
    using c' by (simp add: settle_def deliver_def)
  have "w_relay (snd (sendOwned M v' w2)) = w_relay w2 \<and> w_records (snd (sendOwned M v' w2)) = w_records w2
     \<and> (\<forall>x. fst (sendOwned M v' w2) = Inr x \<longrightarrow> x = (c, False) \<and> ?h v' = ?h v)"
    using r p q s by (cases "?h v' = ?h v") (auto simp: sendOwned_def Let_def assms(5) andThen_def)
  then have "case serial (sendOwned M v') w2 of (r, w3) \<Rightarrow> w_relay w3 = w_relay w2 \<and> w_records w3 = w_records w2
     \<and> (\<forall>x. r = Inr x \<longrightarrow> x = (c, False) \<and> ?h v' = ?h v)"
    by (auto simp: serial_def split: prod.splits sum.splits)
  then show ?thesis using assms(4) ok by (simp add: send_message_def)
qed

definition toy_sent :: "(string \<times> bytes) list" where
  "toy_sent = [(outbox_record_key sample_uuid,
     encode (stored_entry_json (send_hash flat_primitives toy_input) (sample_envelope 3) ''delivered''))]"

lemma toy_sent_holds:
  "outbox_holds (client_records toy_sent) sample_uuid (send_hash flat_primitives toy_input) (sample_envelope 3) ''delivered''"
  using sample_envelope_ok(2) [of 3]
  by (simp add: outbox_holds_def client_records_def toy_sent_def rec_get_def metadataKey_def outbox_record_key_def
      sample_envelope_def str_prop_def)

lemma toy_sent_ok: "outbox_ok (client_records toy_sent)"
proof -
  have "i = sample_uuid" if "rec_get (outbox_record_key i) (client_records toy_sent) \<noteq> None" for i
    using that
    by (simp add: client_records_def toy_sent_def rec_get_def metadataKey_def outbox_record_key_def split: if_splits)
  with toy_sent_holds show ?thesis unfolding outbox_ok_def by metis
qed

lemma toy_resend:
  fixes r :: 'r
  shows "\<exists>c w1. send_message (toy_messenger R) toy_input (client_world r toy_sent) = (Inr (c, False), w1)"
proof -
  have "prior_record (toy_messenger R) sample_uuid (client_world r toy_sent)
      = (Inr (Some (stored_entry_json (send_hash flat_primitives toy_input) (sample_envelope 3) ''delivered'')),
         (client_world r toy_sent)\<lparr>w_tick := 4, w_commits := [client_records toy_sent]\<rparr>)"
    unfolding prior_record_def toy_messenger_def messenger.simps
    by (subst client_runtime [where kvs = toy_sent and t = 3 and rs = "client_records toy_sent"
        and x = "Some (stored_entry_json (send_hash flat_primitives toy_input) (sample_envelope 3) ''delivered'')"])
      (use toy_sent_holds in \<open>simp_all add: client_world_def andThen_def onRecords_def outbox_holds_def numeral_eq_Suc\<close>)
  then show ?thesis
    by (simp add: send_message_def toy_input_ok serial_def sendOwned_def Let_def andThen_def toy_messenger_def settle_def
        deliver_def toy_input_props MAX_PLAINTEXT_BYTES_def)
qed

theorem send_is_idempotent_witness:
  "\<exists>c w1. send_message (toy_messenger (fixed_server FetchFailed)) toy_input (client_world 0 toy_sent) = (Inr (c, False), w1)
     \<and> outbox_ok (w_records w1)"
proof -
  obtain c w1 where s: "send_message (toy_messenger (fixed_server FetchFailed)) toy_input (client_world 0 toy_sent) = (Inr (c, False), w1)"
    using toy_resend [of "fixed_server FetchFailed" 0] by blast
  have "outbox_ok (w_records (client_world 0 toy_sent))" using toy_sent_ok by (simp add: client_world_def)
  from send_is_idempotent [OF this s toy_input_ok toy_input_ok refl refl] s show ?thesis by blast
qed

end
