(* ===== verification/Inbound.thy ===== *)
theory Inbound
  imports Outbound
begin

text \<open>
  \<open>apps/cli/src/runtime/inbound.ts\<close>: the inbound messenger over the same profile and relay client
  (\<open>messenger\<close>): one page of the mailbox, the walk of a poll with its durable re-walk position,
  the acceptance of one envelope, and the acknowledgements.
\<close>

subsection \<open>Decoding a message wrapper\<close>

text \<open>Well-formed UTF-8, which a fatal \<open>TextDecoder\<close> insists on.\<close>

definition continuation :: "char \<Rightarrow> bool" where
  "continuation c \<longleftrightarrow> (let k = (of_char c :: nat) in 128 \<le> k \<and> k < 192)"

text \<open>For a lead byte: how many bytes follow, and the bounds of the first of them.\<close>

definition utf8_lead :: "char \<Rightarrow> (nat \<times> nat \<times> nat) option" where
  "utf8_lead c =
     (let k = (of_char c :: nat) in
      if k < 128 then Some (0, 128, 191)
      else if 194 \<le> k \<and> k \<le> 223 then Some (1, 128, 191)
      else if k = 224 then Some (2, 160, 191)
      else if k = 237 then Some (2, 128, 159)
      else if 225 \<le> k \<and> k \<le> 239 then Some (2, 128, 191)
      else if k = 240 then Some (3, 144, 191)
      else if 241 \<le> k \<and> k \<le> 243 then Some (3, 128, 191)
      else if k = 244 then Some (3, 128, 143)
      else None)"

function valid_utf8 :: "bytes \<Rightarrow> bool" where
  "valid_utf8 [] = True"
| "valid_utf8 (c # cs) =
     (case utf8_lead c of
        None \<Rightarrow> False
      | Some (n, lo, hi) \<Rightarrow>
          n \<le> length cs \<and> list_all continuation (take n cs)
          \<and> (n = 0 \<or> lo \<le> (of_char (hd cs) :: nat) \<and> (of_char (hd cs) :: nat) \<le> hi)
          \<and> valid_utf8 (drop n cs))"
  by pat_completeness auto
termination by (relation "measure length") auto

text \<open>\<open>new TextDecoder("utf-8", {fatal: true}).decode\<close>: a leading byte order mark is dropped.\<close>

definition decode_fatal :: "bytes \<Rightarrow> string result" where
  "decode_fatal b =
     (let t = (if take 3 b = [CHR 0xEF, CHR 0xBB, CHR 0xBF] then drop 3 b else b) in
      if valid_utf8 t then Inr t else Inl (PlainError ''TypeError''))"

definition base64_schema :: schema where
  "base64_schema = SString (\<lambda>s. 1 \<le> length s \<and> length s \<le> 1024 * 1024 \<and> list_all is_url_char s
     \<and> encodeBase64Url (buffer_from_base64url s) = s)"

definition wrapperSchema :: schema where
  "wrapperSchema = SObject True
     [(''version'', False, literal_number 1), (''type'', False, SNumber (\<lambda>i. i = 2 \<or> i = 3)), (''body'', False, base64_schema)]"

definition parse_wrapper :: "string \<Rightarrow> json result" where
  "parse_wrapper ciphertext =
     bindR (zod_parse base64_schema (JStr ciphertext)) (\<lambda>_.
     bindR (decode_fatal (buffer_from_base64url ciphertext)) (\<lambda>t.
     bindR (of_option (PlainError ''SyntaxError'') (parse_json t)) (zod_parse wrapperSchema)))"

subsection \<open>The messenger's error boundary\<close>

fun inbound_error :: "exn \<Rightarrow> exn" where
  "inbound_error (InboundError c) = InboundError c"
| "inbound_error (RelayError c r s m) = RelayError c r s m"
| "inbound_error PersistenceError = PersistenceError"
| "inbound_error _ = InboundError ''INBOUND_REJECTED''"

definition inbound_serial :: "('r, 'a) run \<Rightarrow> ('r, 'a) run" where
  "inbound_serial m w =
     (case m w of (Inl e, w') \<Rightarrow> (Inl (inbound_error e), w') | (Inr x, w') \<Rightarrow> (Inr x, w'))"

fun isNotAnEnvelopeVerdict :: "exn \<Rightarrow> bool" where
  "isNotAnEnvelopeVerdict PersistenceError = True"
| "isNotAnEnvelopeVerdict (RelayError c r s m) = True"
| "isNotAnEnvelopeVerdict (ProfileError m) = True"
| "isNotAnEnvelopeVerdict _ = False"

fun rejection_code :: "exn \<Rightarrow> string" where
  "rejection_code (InboundError c) = c"
| "rejection_code _ = ''INBOUND_REJECTED''"

definition maxPollPagesPerPoll :: nat where "maxPollPagesPerPoll = 16"

definition ack_prefix :: string where "ack_prefix = ''cli:pending-ack:''"
definition ack_key :: "string \<Rightarrow> string" where "ack_key i = ack_prefix @ i"

subsection \<open>One page\<close>

definition optional_text :: "string \<Rightarrow> string option \<Rightarrow> (string \<times> json) list" where
  "optional_text k v = (case v of None \<Rightarrow> [] | Some s \<Rightarrow> [(k, JStr s)])"

definition page :: "'r messenger \<Rightarrow> string option \<Rightarrow> string option \<Rightarrow> ('r, json) run" where
  "page M cursor readThrough =
     (let E = ms_env M; C = ms_settings M; R = ms_server M in
      andThen (mailboxAuthorization E ChallengeOp) (\<lambda>a.
      andThen (onRelay (createChallenge C R (JObj a))) (\<lambda>challenge.
      andThen (drawW (en_clock E)) (\<lambda>now.
        if num_prop challenge ''expires_at_ms'' \<le> now then raise (InboundError ''CHALLENGE_EXPIRED'')
        else
          andThen (mailboxAuthorization E
              (PollOp (str_prop challenge ''challenge_id'') (str_prop challenge ''nonce'') readThrough)) (\<lambda>a.
            onRelay (pollMailbox C R (JObj
              (a @ [(''challenge_id'', jprop challenge ''challenge_id''),
                    (''batch_size'', jprop (ms_config M) ''poll_batch_size'')]
                 @ optional_text ''cursor'' cursor @ optional_text ''read_through'' readThrough))))))))"

subsection \<open>Accepting an envelope\<close>

definition envelope_valid :: "env \<Rightarrow> json \<Rightarrow> json \<Rightarrow> int \<Rightarrow> bool" where
  "envelope_valid E local envelope now \<longleftrightarrow>
     jprop envelope ''recipient_identity_id'' = jprop local ''identity_id''
     \<and> jprop envelope ''recipient_device_id'' = jprop local ''device_id''
     \<and> jprop envelope ''recipient_mailbox_id'' = JStr (deriveMailboxId (en_prims E) (str_prop local ''identity_id''))
     \<and> num_prop envelope ''size_bytes'' = int (length (str_prop envelope ''ciphertext''))
     \<and> safe_int (num_prop envelope ''created_at_ms'') \<and> safe_int (num_prop envelope ''expires_at_ms'')
     \<and> 0 \<le> num_prop envelope ''created_at_ms'' \<and> num_prop envelope ''created_at_ms'' \<le> now
     \<and> now < num_prop envelope ''expires_at_ms''
     \<and> num_prop envelope ''created_at_ms'' < num_prop envelope ''expires_at_ms''"

definition pinned_sender :: "json \<Rightarrow> bytes option \<Rightarrow> json result" where
  "pinned_sender envelope stored =
     bindR (of_option (InboundError ''CONTACT_NOT_TRUSTED'') stored) (\<lambda>b.
     bindR (decode b) (\<lambda>contact.
     bindR (get_prop contact ''identity_id'') (\<lambda>i.
     bindR (guardR (i = Some (jprop envelope ''sender_identity_id'')
         \<and> jprop contact ''device_id'' = jprop envelope ''sender_device_id'') (InboundError ''CONTACT_PIN_MISMATCH'')) (\<lambda>_.
       Inr contact))))"

definition trusted_key_matches :: "json \<Rightarrow> bytes option \<Rightarrow> bool" where
  "trusted_key_matches contact trusted \<longleftrightarrow>
     (case trusted of None \<Rightarrow> False | Some k \<Rightarrow> JStr (encodeBase64Url k) = jprop contact ''signal_identity_key'')"

definition inbox_record_key :: "device_address \<Rightarrow> string \<Rightarrow> string" where
  "inbox_record_key remote m = ''cli:inbox:'' @ addressKey remote @ '':'' @ m"

definition ciphertext_hash :: "primitives \<Rightarrow> string \<Rightarrow> string" where
  "ciphertext_hash P ciphertext = hex_of (sha256 P ciphertext)"

text \<open>The first delivery of a message: decrypt it, remember its hash, append it to the history.\<close>

definition admit :: "env \<Rightarrow> device_address \<Rightarrow> device_address \<Rightarrow> json \<Rightarrow> json \<Rightarrow> json \<Rightarrow> unit tx" where
  "admit E self remote contact envelope wrapper =
     andThen (decrypt_message (en_lib E) self remote
        \<lparr>cipher_id = str_prop envelope ''message_id'', cipher_type = num_prop wrapper ''type'',
         cipher_body = buffer_from_base64url (str_prop wrapper ''body'')\<rparr>) (\<lambda>plaintext.
     andThen (tset (inbox_record_key remote (str_prop envelope ''message_id''))
        (encode (JStr (ciphertext_hash (en_prims E) (str_prop envelope ''ciphertext''))))) (\<lambda>_.
       appendHistory \<lparr>contactIdentityId = str_prop contact ''identity_id'', messageId = str_prop envelope ''message_id'',
         direction = ''inbound'', plaintext = plaintext, createdAtMs = num_prop envelope ''created_at_ms''\<rparr>))"

text \<open>A repeated delivery must carry the ciphertext already taken.\<close>

definition admit_or_match :: "env \<Rightarrow> device_address \<Rightarrow> device_address \<Rightarrow> json \<Rightarrow> json \<Rightarrow> json \<Rightarrow> unit tx" where
  "admit_or_match E self remote contact envelope wrapper =
     andThen (tget (inbox_record_key remote (str_prop envelope ''message_id''))) (\<lambda>previous.
       case previous of
         Some b \<Rightarrow> lift (bindR (decode b) (\<lambda>v.
           guardR (v = JStr (ciphertext_hash (en_prims E) (str_prop envelope ''ciphertext'')))
             (InboundError ''MESSAGE_ID_CONFLICT'')))
       | None \<Rightarrow> admit E self remote contact envelope wrapper)"

definition mark_pending :: "device_address \<Rightarrow> json \<Rightarrow> unit tx" where
  "mark_pending remote envelope =
     (let inboxKey = inbox_record_key remote (str_prop envelope ''message_id'');
          k = ack_key (str_prop envelope ''envelope_id'') in
      andThen (tget k) (\<lambda>pending.
      andThen (lift (case pending of
                 None \<Rightarrow> Inr ()
               | Some b \<Rightarrow> bindR (decode b) (\<lambda>v. guardR (v = JStr inboxKey) (InboundError ''INVALID_ENVELOPE'')))) (\<lambda>_.
        tset k (encode (JStr inboxKey)))))"

definition acceptOne :: "'r messenger \<Rightarrow> json \<Rightarrow> ('r, unit) run" where
  "acceptOne M envelope =
     (let E = ms_env M in
      withRuntime E (\<lambda>self local.
        andThen (draw (en_clock E)) (\<lambda>now.
          if \<not> envelope_valid E local envelope now then raise (InboundError ''INVALID_ENVELOPE'')
          else
            andThen (onRecords (tget (contact_key (str_prop envelope ''sender_identity_id'')))) (\<lambda>stored.
            andThen (lift (pinned_sender envelope stored)) (\<lambda>contact.
            andThen (lift (contact_address contact)) (\<lambda>remote.
            andThen (onRecords (tget (trust_key remote))) (\<lambda>trusted.
              if \<not> trusted_key_matches contact trusted then raise (InboundError ''CONTACT_PIN_MISMATCH'')
              else
                andThen (lift (parse_wrapper (str_prop envelope ''ciphertext''))) (\<lambda>wrapper.
                andThen (onRecords (admit_or_match E self remote contact envelope wrapper)) (\<lambda>_.
                  onRecords (mark_pending remote envelope))))))))))"

record tally =
  received :: nat
  rejected :: "(string \<times> string) list"
  firstRejection :: "string option"

definition no_tally :: tally where
  "no_tally = \<lparr>received = 0, rejected = [], firstRejection = None\<rparr>"

definition reject :: "string \<Rightarrow> string \<Rightarrow> tally \<Rightarrow> tally" where
  "reject i code t =
     t\<lparr>rejected := rejected t @ [(i, code)],
       firstRejection := (case firstRejection t of None \<Rightarrow> Some code | Some c \<Rightarrow> Some c)\<rparr>"

fun accept :: "'r messenger \<Rightarrow> json list \<Rightarrow> tally \<Rightarrow> ('r, tally) run" where
  "accept M [] t = ret t"
| "accept M (e # es) t = (\<lambda>w.
     case acceptOne M e w of
       (Inr _, w') \<Rightarrow> accept M es (t\<lparr>received := Suc (received t)\<rparr>) w'
     | (Inl x, w') \<Rightarrow>
         if isNotAnEnvelopeVerdict x then (Inl x, w')
         else accept M es (reject (str_prop e ''envelope_id'') (rejection_code x) t) w')"

subsection \<open>Acknowledging\<close>

text \<open>The acknowledgement batches: at most a hundred ids each.\<close>

fun ack_batches :: "nat \<Rightarrow> string list \<Rightarrow> string list list" where
  "ack_batches 0 ids = []"
| "ack_batches (Suc n) ids = (if ids = [] then [] else take 100 ids # ack_batches n (drop 100 ids))"

fun delete_acks :: "string list \<Rightarrow> unit tx" where
  "delete_acks [] = ret ()"
| "delete_acks (i # is) = andThen (tdelete (ack_key i)) (\<lambda>_. delete_acks is)"

fun ack_all :: "'r messenger \<Rightarrow> string list list \<Rightarrow> ('r, unit) run" where
  "ack_all M [] = ret ()"
| "ack_all M (ids # rest) =
     andThen (mailboxAuthorization (ms_env M) (AckOp ids)) (\<lambda>a.
     andThen (onRelay (ackMailbox (ms_settings M) (ms_server M)
        (JObj (a @ [(''envelope_ids'', JArr (map JStr ids))])))) (\<lambda>_.
     andThen (withRuntime (ms_env M) (\<lambda>_ _. onRecords (delete_acks ids))) (\<lambda>_.
       ack_all M rest)))"

definition ackPending :: "'r messenger \<Rightarrow> ('r, nat) run" where
  "ackPending M =
     andThen (withRuntime (ms_env M) (\<lambda>_ _.
        andThen (onRecords (tkeys ack_prefix)) (\<lambda>ks. ret (map (drop (length ack_prefix)) (sort ks))))) (\<lambda>ids.
     andThen (ack_all M (ack_batches (length ids) ids)) (\<lambda>_.
       ret (length ids)))"

definition retryPendingAcks :: "'r messenger \<Rightarrow> ('r, nat) run" where
  "retryPendingAcks M = inbound_serial (ackPending M)"

subsection \<open>A poll\<close>

fun text_of :: "json \<Rightarrow> string option" where
  "text_of (JStr s) = Some s"
| "text_of _ = None"

text \<open>The re-walk position after a page: advanced with the walk, deleted at the end of the mailbox.\<close>

definition advance_rewalk :: "'r messenger \<Rightarrow> string option \<Rightarrow> string option \<Rightarrow> ('r, string option) run" where
  "advance_rewalk M rewalk next_cursor =
     (case rewalk of
        None \<Rightarrow> ret None
      | Some _ \<Rightarrow>
          (case next_cursor of
             None \<Rightarrow> andThen (finishMailboxRewalk (ms_env M)) (\<lambda>_. ret None)
           | Some c \<Rightarrow> andThen (keepMailboxRewalk (ms_env M) c) (\<lambda>_. ret (Some c))))"

text \<open>The first argument counts the pages the walk may still read; the result also says whether more remain.\<close>

fun walk ::
  "nat \<Rightarrow> 'r messenger \<Rightarrow> string option \<Rightarrow> string option \<Rightarrow> string option \<Rightarrow> tally \<Rightarrow> bool \<Rightarrow> ('r, tally \<times> bool) run"
where
  "walk 0 M rewalk cursor readThrough t more_left = ret (t, more_left)"
| "walk (Suc n) M rewalk cursor readThrough t more_left =
     andThen (page M cursor readThrough) (\<lambda>batch.
     andThen (accept M (elements (jprop batch ''envelopes'')) t) (\<lambda>t'.
       let next_cursor = text_of (jprop batch ''next_cursor'') in
       andThen (advance_rewalk M rewalk next_cursor) (\<lambda>rewalk'.
         if received t' > received t \<or> next_cursor = None then ret (t', next_cursor \<noteq> None)
         else walk n M rewalk' next_cursor next_cursor t' True)))"

definition poll_walk :: "'r messenger \<Rightarrow> ('r, tally \<times> bool) run" where
  "poll_walk M =
     andThen (pendingMailboxRewalk (ms_env M)) (\<lambda>rewalk.
       walk maxPollPagesPerPoll M rewalk rewalk None no_tally False)"

definition poll :: "'r messenger \<Rightarrow> ('r, nat \<times> bool \<times> (string \<times> string) list) run" where
  "poll M =
     inbound_serial
       (andThen (poll_walk M) (\<lambda>(t, more_left).
          case (received t, firstRejection t) of
            (0, Some c) \<Rightarrow> raise (InboundError c)
          | _ \<Rightarrow> andThen (ackPending M) (\<lambda>_. ret (received t, more_left, rejected t))))"

definition inbound_history :: "'r messenger \<Rightarrow> string \<Rightarrow> ('r, json list) run" where
  "inbound_history M contact =
     inbound_serial (withRuntime (ms_env M) (\<lambda>_ _. onRecords (readHistory contact)))"

definition inbound_diagnostics :: "'r messenger \<Rightarrow> ('r, json) run" where
  "inbound_diagnostics M = inbound_serial (diagnostics (ms_env M) (ms_config M))"

subsection \<open>What one end wraps the other reads\<close>

lemma valid_utf8_ascii: "\<forall>c \<in> set s. (of_char c :: nat) < 128 \<Longrightarrow> valid_utf8 s"
  by (induction s) (simp_all add: utf8_lead_def)

lemma url_char_bound: "is_url_char c \<Longrightarrow> (of_char c :: nat) < 128"
  unfolding is_url_char_def is_url_code_def by linarith

lemma quote_b64: "quote (encodeBase64Url bs) = CHR 0x22 # encodeBase64Url bs @ [CHR 0x22]"
proof -
  have "concat (map escape_char s) = s" if "list_all plain_char s" for s
    using that by (induction s) (auto simp: plain_char_def)
  with b64_plain [of bs] show ?thesis by (simp add: quote_def)
qed

lemma encode_url: "list_all is_url_char (encodeBase64Url bs)"
  by (auto simp: list_all_iff encode_eq_b64url b64url_is_url)

lemma length_encode: "length (encodeBase64Url bs) = (length bs * 8 + 5) div 6"
  by (simp add: encode_eq_b64url length_b64url)

definition wrapper_json :: "stored_ciphertext \<Rightarrow> json" where
  "wrapper_json m =
     JObj [(''version'', JNum 1), (''type'', JNum (cipher_type m)), (''body'', JStr (encodeBase64Url (cipher_body m)))]"

lemma wrap_json: "wrap_ciphertext m = encodeBase64Url (stringify (wrapper_json m))"
  by (simp add: wrap_ciphertext_def wrapper_json_def)

lemma wrapper_text:
  assumes "cipher_type m = 2 \<or> cipher_type m = 3"
  shows "\<exists>pre. stringify (wrapper_json m) = CHR ''{'' # pre @ encodeBase64Url (cipher_body m) @ [CHR 0x22, CHR ''}'']
    \<and> (\<forall>c \<in> set pre. (of_char c :: nat) < 128) \<and> length pre < 60"
proof -
  have q: "quote ''version'' = [CHR 0x22] @ ''version'' @ [CHR 0x22]" "quote ''type'' = [CHR 0x22] @ ''type'' @ [CHR 0x22]"
    "quote ''body'' = [CHR 0x22] @ ''body'' @ [CHR 0x22]" "show_int 1 = ''1''" "show_int 2 = ''2''" "show_int 3 = ''3''"
    by code_simp+
  show ?thesis
    using assms by (intro exI [of _ "quote ''version'' @ [CHR '':''] @ ''1'' @ [CHR '',''] @ quote ''type'' @ [CHR '':''] @ show_int (cipher_type m)
       @ [CHR '',''] @ quote ''body'' @ [CHR '':'', CHR 0x22]"]) (auto simp: wrapper_json_def quote_b64 q)
qed

lemma wrapper_reads:
  assumes "cipher_type m = 2 \<or> cipher_type m = 3" "cipher_body m \<noteq> []" "length (cipher_body m) \<le> 400000"
  shows "\<exists>v. parse_wrapper (wrap_ciphertext m) = Inr v \<and> num_prop v ''type'' = cipher_type m
    \<and> buffer_from_base64url (str_prop v ''body'') = cipher_body m"
proof -
  obtain pre where pre: "stringify (wrapper_json m) = CHR ''{'' # pre @ encodeBase64Url (cipher_body m) @ [CHR 0x22, CHR ''}'']"
    "\<forall>c \<in> set pre. (of_char c :: nat) < 128" "length pre < 60"
    using wrapper_text [OF assms(1)] by blast
  let ?t = "stringify (wrapper_json m)"
  have b: "1 \<le> length (encodeBase64Url (cipher_body m))" "length (encodeBase64Url (cipher_body m)) \<le> 533334"
    using assms(2,3) by (auto simp: length_encode Suc_le_eq div_greater_zero_iff)
  have t: "1 \<le> length ?t" "length ?t \<le> 533400" using pre(1,3) b(2) by simp_all
  have c: "1 \<le> length (wrap_ciphertext m)" "length (wrap_ciphertext m) \<le> 1024 * 1024"
    using t unfolding wrap_json length_encode by (auto simp: Suc_le_eq div_greater_zero_iff)
  have ascii: "\<forall>c \<in> set ?t. (of_char c :: nat) < 128"
    using pre encode_url [of "cipher_body m"] by (auto simp: list_all_iff url_char_bound)
  have "take 3 ?t \<noteq> [CHR 0xEF, CHR 0xBB, CHR 0xBF]" using pre(1) by auto
  then have "decode_fatal ?t = Inr ?t" using valid_utf8_ascii [OF ascii] by (simp add: decode_fatal_def)
  moreover have "zod_parse base64_schema (JStr (wrap_ciphertext m)) = Inr (JStr (wrap_ciphertext m))"
    using c by (simp add: zod_parse_def base64_schema_def wrap_json encode_url)
  moreover have "parse_json ?t = Some (wrapper_json m)" by (rule parse_stringify) (simp add: wrapper_json_def)
  moreover have "zod_parse wrapperSchema (wrapper_json m) = Inr (wrapper_json m)"
    using assms(1) b by (auto simp: zod_parse_def wrapperSchema_def wrapper_json_def literal_number_def base64_schema_def encode_url)
  ultimately have "parse_wrapper (wrap_ciphertext m) = Inr (wrapper_json m)"
    by (simp add: parse_wrapper_def wrap_json)
  then show ?thesis by (simp add: wrapper_json_def num_prop_def str_prop_def)
qed

subsection \<open>A concrete delivery\<close>

definition toy_key :: "char \<Rightarrow> string" where "toy_key c = encodeBase64Url (replicate 32 c)"

text \<open>A contact with the profile's own address stands for the sender.\<close>

definition toy_contact :: json where
  "toy_contact = JObj [(''identity_id'', sample_key 32 CHR ''k''), (''device_id'', JStr sample_uuid),
     (''device_pubkey'', sample_key 32 CHR ''k''), (''signal_identity_key'', JStr (encodeBase64Url ''K''))]"

definition toy_contacts :: "(string \<times> bytes) list" where
  "toy_contacts = [(contact_key (toy_key CHR ''k''), encode toy_contact), (trust_key toy_self, ''K'')]"

definition toy_cipher :: stored_ciphertext where
  "toy_cipher = \<lparr>cipher_id = sample_uuid, cipher_type = 3, cipher_body = message_payload sample_uuid ''hello''\<rparr>"

definition toy_arrival :: "string \<Rightarrow> json" where
  "toy_arrival i = JObj
     [(''envelope_id'', JStr i), (''message_id'', JStr sample_uuid),
      (''sender_identity_id'', sample_key 32 CHR ''k''), (''sender_device_id'', JStr sample_uuid),
      (''recipient_identity_id'', sample_key 32 CHR ''k''), (''recipient_device_id'', JStr sample_uuid),
      (''recipient_mailbox_id'', JStr (deriveMailboxId flat_primitives (toy_key CHR ''k''))),
      (''ciphertext'', JStr (wrap_ciphertext toy_cipher)), (''created_at_ms'', JNum 1), (''expires_at_ms'', JNum 9),
      (''size_bytes'', JNum (int (length (wrap_ciphertext toy_cipher))))]"

lemma toy_arrival_props:
  "jprop (toy_arrival i) ''envelope_id'' = JStr i" "jprop (toy_arrival i) ''message_id'' = JStr sample_uuid"
  "jprop (toy_arrival i) ''sender_identity_id'' = JStr (toy_key CHR ''k'')" "jprop (toy_arrival i) ''sender_device_id'' = JStr sample_uuid"
  "jprop (toy_arrival i) ''recipient_identity_id'' = JStr (toy_key CHR ''k'')" "jprop (toy_arrival i) ''recipient_device_id'' = JStr sample_uuid"
  "jprop (toy_arrival i) ''recipient_mailbox_id'' = JStr (deriveMailboxId flat_primitives (toy_key CHR ''k''))"
  "jprop (toy_arrival i) ''ciphertext'' = JStr (wrap_ciphertext toy_cipher)" "jprop (toy_arrival i) ''created_at_ms'' = JNum 1"
  "jprop (toy_arrival i) ''expires_at_ms'' = JNum 9" "jprop (toy_arrival i) ''size_bytes'' = JNum (int (length (wrap_ciphertext toy_cipher)))"
  by (simp_all add: toy_arrival_def sample_key_def toy_key_def)

lemma toy_arrival_valid: "envelope_valid toy_env sample_device (toy_arrival i) 6"
  by (simp add: envelope_valid_def toy_arrival_props num_prop_def str_prop_def sample_device_def sample_key_def toy_key_def
      safe_int_def max_safe_integer_def)

lemma toy_pinned: "pinned_sender (toy_arrival i) (Some (encode toy_contact)) = Inr toy_contact"
proof -
  have "wf_json toy_contact" by (simp add: toy_contact_def sample_key_def)
  from json.dec_enc [OF this] show ?thesis
    by (simp add: pinned_sender_def toy_arrival_props del: stringify.simps)
       (simp add: toy_contact_def sample_key_def toy_key_def)
qed

lemma toy_contact_address: "contact_address toy_contact = Inr toy_self"
proof -
  have "record_address sample_device = record_address toy_contact"
    by (simp add: record_address_def toy_contact_def sample_device_def str_prop_def)
  with toy_self_address show ?thesis by (simp add: contact_address_def)
qed

lemma toy_wrapper:
  obtains v where "parse_wrapper (wrap_ciphertext toy_cipher) = Inr v" "num_prop v ''type'' = 3"
    "buffer_from_base64url (str_prop v ''body'') = message_payload sample_uuid ''hello''"
proof -
  have "length (message_payload sample_uuid ''hello'') < 400" by code_simp
  then have "length (cipher_body toy_cipher) \<le> 400000" by (simp add: toy_cipher_def)
  moreover have "cipher_body toy_cipher \<noteq> []" "cipher_type toy_cipher = 3" by (simp_all add: toy_cipher_def message_payload_def)
  ultimately show thesis using wrapper_reads [of toy_cipher] that by (auto simp: toy_cipher_def)
qed

lemma toy_decrypted:
  assumes "rec_get (inbox_key toy_self sample_uuid) rs = None"
  shows "decrypt_message toy_libsignal toy_self toy_self
      \<lparr>cipher_id = sample_uuid, cipher_type = 3, cipher_body = message_payload sample_uuid ''hello''\<rparr> rs
    = (Inr ''hello'', rec_set (inbox_key toy_self sample_uuid) (message_payload sample_uuid ''hello'') rs)"
proof -
  have "length (message_payload sample_uuid ''hello'') < 400" by code_simp
  moreover have "assertMessageId sample_uuid = Inr ()" by code_simp
  moreover have "decode (message_payload sample_uuid ''hello'') = Inr (JObj [(''messageId'', JStr sample_uuid), (''body'', JStr ''hello'')])"
    unfolding message_payload_def by (rule json.dec_enc) simp
  ultimately show ?thesis using assms
    by (simp add: decrypt_message_def andThen_def toy_self_ok prekey_type_def whisper_type_def deserialize_def toy_libsignal_def)
qed

subsection \<open>A message is accepted once\<close>

text \<open>The address an accepted envelope comes from: its contact's pinned ids are its sender's.\<close>

definition sender_address :: "json \<Rightarrow> device_address result" where
  "sender_address e =
     bindR (signalAddressForDevice (str_prop e ''sender_identity_id'') (str_prop e ''sender_device_id'')) (\<lambda>(name, device).
       Inr \<lparr>addr_name = name, addr_device = device\<rparr>)"

lemma get_prop_jprop: "get_prop v k = Inr (Some x) \<Longrightarrow> jprop v k = x"
  by (cases v) auto

lemma pinned_sender_address:
  assumes "pinned_sender e b = Inr contact"
  shows "contact_address contact = sender_address e"
  using assms
  by (auto simp: pinned_sender_def bindR_Inr_iff contact_address_def record_address_def sender_address_def str_prop_def
      dest!: get_prop_jprop)

definition received_record :: "string \<Rightarrow> bool" where
  "received_record k \<longleftrightarrow> prefix ''cli:inbox:'' k"

lemma received_record_keys [simp]:
  "received_record (inbox_record_key a m)" "\<not> received_record (ack_key i)" "\<not> received_record history_sequence_key"
  "\<not> received_record (history_key n)"
  by (simp_all add: received_record_def inbox_record_key_def ack_key_def ack_prefix_def history_sequence_key_def
      history_key_def history_prefix_def)

lemma leaves_received: "leaves received_record (appendHistory e)" "leaves received_record (mark_pending a en)"
  unfolding appendHistory_def mark_pending_def Let_def by (intro frame_rules leaves_set; simp)+

lemma admitted_record:
  assumes "admit_or_match E self remote contact e wrapper rs = (Inr (), rs')"
  shows "\<exists>b. rec_get (inbox_record_key remote (str_prop e ''message_id'')) rs' = Some b
    \<and> decode b = Inr (JStr (ciphertext_hash (en_prims E) (str_prop e ''ciphertext'')))"
proof (cases "rec_get (inbox_record_key remote (str_prop e ''message_id'')) rs")
  case None
  with assms obtain p rs1 where
    h: "appendHistory \<lparr>contactIdentityId = str_prop contact ''identity_id'', messageId = str_prop e ''message_id'',
       direction = ''inbound'', plaintext = p, createdAtMs = num_prop e ''created_at_ms''\<rparr>
       (rec_set (inbox_record_key remote (str_prop e ''message_id'')) (encode (JStr (ciphertext_hash (en_prims E) (str_prop e ''ciphertext'')))) rs1)
       = (Inr (), rs')"
    by (auto simp: admit_or_match_def admit_def andThen_Inr_iff)
  show ?thesis
    using leaves_result [OF leaves_received(1) h received_record_keys(1) [of remote "str_prop e ''message_id''"]]
    by (simp del: stringify.simps)
next
  case (Some b)
  with assms show ?thesis by (auto simp: admit_or_match_def andThen_Inr_iff bindR_Inr_iff)
qed

lemma acceptOne_record:
  assumes "acceptOne M e w = (Inr (), w1)"
  shows "\<exists>remote b. sender_address e = Inr remote
    \<and> rec_get (inbox_record_key remote (str_prop e ''message_id'')) (w_records w1) = Some b
    \<and> decode b = Inr (JStr (ciphertext_hash (en_prims (ms_env M)) (str_prop e ''ciphertext'')))"
proof -
  from assms obtain self contact stored remote wrapper rs1 rs2 where
    s: "pinned_sender e stored = Inr contact" "contact_address contact = Inr remote"
    and a: "admit_or_match (ms_env M) self remote contact e wrapper rs1 = (Inr (), rs2)"
    and m: "mark_pending remote e rs2 = (Inr (), w_records w1)"
    unfolding acceptOne_def Let_def
    by (elim withRuntime_Inr) (auto simp: andThen_Inr_iff onRecords_iff split: if_splits)
  have "sender_address e = Inr remote" using pinned_sender_address [OF s(1)] s(2) by simp
  with admitted_record [OF a] leaves_result [OF leaves_received(2) m received_record_keys(1) [of remote "str_prop e ''message_id''"]]
  show ?thesis by simp
qed

lemma acceptOne_repeat:
  assumes "sender_address e = Inr remote"
    "rec_get (inbox_record_key remote (str_prop e ''message_id'')) (w_records w) = Some b" "decode b = Inr (JStr h)"
    "acceptOne M e w = (r, w')"
  shows "(\<forall>k. k \<noteq> ack_key (str_prop e ''envelope_id'') \<longrightarrow> rec_get k (w_records w') = rec_get k (w_records w))
    \<and> (r = Inr () \<longrightarrow> h = ciphertext_hash (en_prims (ms_env M)) (str_prop e ''ciphertext''))"
proof (cases r)
  case (Inl x)
  with assms(4) have "w_records w' = w_records w" unfolding acceptOne_def Let_def by (auto dest: withRuntime_Inl)
  with Inl show ?thesis by simp
next
  case (Inr u)
  with assms(4) have run: "acceptOne M e w = (Inr (), w')" by simp
  from run obtain self contact stored remote' wrapper rs2 where
    s: "pinned_sender e stored = Inr contact" "contact_address contact = Inr remote'"
    and a: "admit_or_match (ms_env M) self remote' contact e wrapper (w_records w) = (Inr (), rs2)"
    and m: "mark_pending remote' e rs2 = (Inr (), w_records w')"
    unfolding acceptOne_def Let_def
    by (elim withRuntime_Inr) (auto simp: andThen_Inr_iff onRecords_iff split: if_splits)
  have "remote' = remote" using pinned_sender_address [OF s(1)] s(2) assms(1) by simp
  with a assms(2,3) have h: "rs2 = w_records w" "h = ciphertext_hash (en_prims (ms_env M)) (str_prop e ''ciphertext'')"
    by (auto simp: admit_or_match_def andThen_Inr_iff)
  have "leaves (\<lambda>k. k \<noteq> ack_key (str_prop e ''envelope_id'')) (mark_pending remote' e)"
    unfolding mark_pending_def Let_def by (intro frame_rules leaves_set; simp)
  from leaves_result [OF this m] h show ?thesis by simp
qed

lemma toy_append:
  assumes "rec_get history_sequence_key rs = None" "valid_entry e"
  shows "\<exists>rs'. appendHistory e rs = (Inr (), rs')"
  using assms entry_accepted [OF assms(2), of 1]
  by (auto simp: appendHistory_def andThen_def next_sequence_def safe_int_def max_safe_integer_def)

lemma toy_accepts:
  "\<exists>w1. acceptOne (toy_messenger R) (toy_arrival i) (client_world r toy_contacts) = (Inr (), w1)"
proof -
  let ?rs = "client_records toy_contacts" and ?P = "message_payload sample_uuid ''hello''" and ?k = "inbox_record_key toy_self sample_uuid"
  obtain v where v: "parse_wrapper (wrap_ciphertext toy_cipher) = Inr v" "num_prop v ''type'' = 3"
    "buffer_from_base64url (str_prop v ''body'') = ?P"
    by (rule toy_wrapper)
  have get: "rec_get (contact_key (toy_key CHR ''k'')) ?rs = Some (encode toy_contact)"
    "rec_get (trust_key toy_self) ?rs = Some ''K''" "rec_get (inbox_key toy_self sample_uuid) ?rs = None" "rec_get ?k ?rs = None"
    "rec_get history_sequence_key ?rs = None" "rec_get (ack_key i) ?rs = None"
    by (simp_all add: client_records_def toy_contacts_def rec_get_def metadataKey_def contact_key_def contact_prefix_def
        trust_key_def inbox_key_def inbox_record_key_def history_sequence_key_def ack_key_def ack_prefix_def)
  define rs1 where "rs1 = rec_set ?k (encode (JStr (ciphertext_hash flat_primitives (wrap_ciphertext toy_cipher))))
     (rec_set (inbox_key toy_self sample_uuid) ?P ?rs)"
  let ?e = "\<lparr>contactIdentityId = toy_key CHR ''k'', messageId = sample_uuid, direction = ''inbound'', plaintext = ''hello'', createdAtMs = 1\<rparr>"
  have "is_uuid sample_uuid" "length (toy_key CHR ''k'') = 43" by (simp_all add: toy_key_def length_encode)
  then have ve: "valid_entry ?e" by (auto simp: valid_entry_def max_safe_integer_def)
  have "rec_get history_sequence_key rs1 = None" using get(5)
    by (simp add: rs1_def inbox_record_key_def inbox_key_def history_sequence_key_def)
  from toy_append [OF this ve] obtain rs2 where a: "appendHistory ?e rs1 = (Inr (), rs2)" by blast
  have n: "rec_get (ack_key i) rs2 = None"
  proof -
    have "leaves (\<lambda>k. prefix ack_prefix k) (appendHistory ?e)"
      unfolding appendHistory_def by (intro frame_rules leaves_set; simp add: ack_prefix_def history_key_def history_prefix_def history_sequence_key_def)
    from leaves_result [OF this a, of "ack_key i"] get(6) show ?thesis
      by (simp add: ack_key_def rs1_def inbox_record_key_def inbox_key_def ack_prefix_def)
  qed
  have ad: "admit_or_match toy_env toy_self toy_self toy_contact (toy_arrival i) v ?rs = (Inr (), rs2)"
    using get(3,4) a v toy_decrypted [OF get(3)]
    by (simp add: admit_or_match_def admit_def andThen_def toy_arrival_props str_prop_def num_prop_def rs1_def
        toy_contact_def sample_key_def toy_key_def toy_env_def del: stringify.simps)
  have mk: "mark_pending toy_self (toy_arrival i) rs2 = (Inr (), rec_set (ack_key i) (encode (JStr ?k)) rs2)"
    using n by (simp add: mark_pending_def Let_def andThen_def toy_arrival_props str_prop_def)
  show ?thesis
    unfolding acceptOne_def Let_def toy_messenger_def messenger.simps
    by (subst client_runtime [where kvs = toy_contacts and x = "()" and rs = "rec_set (ack_key i) (encode (JStr ?k)) rs2" and t = 4])
      (use get ad mk v toy_arrival_valid toy_pinned toy_contact_address in
        \<open>simp_all add: client_world_def andThen_def draw_def onRecords_def toy_arrival_props str_prop_def numeral_eq_Suc
           trusted_key_matches_def toy_contact_def del: stringify.simps\<close>)
qed

subsection \<open>Properties\<close>

text \<open>
  What the sender wraps the receiver reads: for every ciphertext of the library's two message
  types up to 400,000 bytes, the wrapper the outbound messenger puts in an envelope passes the
  inbound messenger's base64, UTF-8, JSON and schema checks and yields the type and exactly the body.
\<close>

theorem wrapper_round_trip:
  assumes "cipher_type m = 2 \<or> cipher_type m = 3" "cipher_body m \<noteq> []" "length (cipher_body m) \<le> 400000"
  shows "\<exists>v. parse_wrapper (wrap_ciphertext m) = Inr v \<and> num_prop v ''type'' = cipher_type m
    \<and> buffer_from_base64url (str_prop v ''body'') = cipher_body m"
  using wrapper_reads [OF assms] .

theorem wrapper_round_trip_witness:
  "\<exists>v. parse_wrapper (wrap_ciphertext \<lparr>cipher_id = ''m'', cipher_type = 3, cipher_body = ''hello''\<rparr>) = Inr v
     \<and> buffer_from_base64url (str_prop v ''body'') = ''hello''"
  using wrapper_round_trip [of "\<lparr>cipher_id = ''m'', cipher_type = 3, cipher_body = ''hello''\<rparr>"] by auto

text \<open>
  C29. A message is accepted once: when an envelope has been accepted, then whatever happened in
  between - other messages accepted included, as long as this message's own inbox record is as it
  was - accepting an envelope of the same sender and message id again changes no record but its own
  pending acknowledgement, so nothing is decrypted twice and nothing enters the history twice; and it
  can only succeed for the ciphertext (by hash) already taken, another one being refused.
\<close>

theorem message_accepted_once:
  assumes "acceptOne M e w = (Inr (), w1)" "sender_address e' = sender_address e"
    "str_prop e' ''message_id'' = str_prop e ''message_id''"
    "\<And>remote. sender_address e = Inr remote \<Longrightarrow>
      rec_get (inbox_record_key remote (str_prop e ''message_id'')) (w_records w2)
        = rec_get (inbox_record_key remote (str_prop e ''message_id'')) (w_records w1)"
    "acceptOne M e' w2 = (r, w3)"
  shows "(\<forall>k. k \<noteq> ack_key (str_prop e' ''envelope_id'') \<longrightarrow> rec_get k (w_records w3) = rec_get k (w_records w2))
    \<and> (r = Inr () \<longrightarrow> ciphertext_hash (en_prims (ms_env M)) (str_prop e' ''ciphertext'')
         = ciphertext_hash (en_prims (ms_env M)) (str_prop e ''ciphertext''))"
proof -
  from acceptOne_record [OF assms(1)] obtain remote b where
    r: "sender_address e = Inr remote" "rec_get (inbox_record_key remote (str_prop e ''message_id'')) (w_records w1) = Some b"
      "decode b = Inr (JStr (ciphertext_hash (en_prims (ms_env M)) (str_prop e ''ciphertext'')))"
    by blast
  have "sender_address e' = Inr remote" using assms(2) r(1) by simp
  moreover have "rec_get (inbox_record_key remote (str_prop e' ''message_id'')) (w_records w2) = Some b"
    using assms(3) assms(4) [OF r(1)] r(2) by simp
  ultimately show ?thesis using acceptOne_repeat [OF _ _ r(3) assms(5)] by auto
qed

theorem message_accepted_once_witness:
  "\<exists>w1 r w3. acceptOne (toy_messenger (fixed_server FetchFailed)) (toy_arrival ''e1'') (client_world 0 toy_contacts) = (Inr (), w1)
     \<and> acceptOne (toy_messenger (fixed_server FetchFailed)) (toy_arrival ''e2'') w1 = (r, w3)
     \<and> (\<forall>k. k \<noteq> ack_key ''e2'' \<longrightarrow> rec_get k (w_records w3) = rec_get k (w_records w1))"
proof -
  obtain w1 where a: "acceptOne (toy_messenger (fixed_server FetchFailed)) (toy_arrival ''e1'') (client_world 0 toy_contacts) = (Inr (), w1)"
    using toy_accepts [of "fixed_server FetchFailed" "''e1''" 0] by blast
  obtain r w3 where b: "acceptOne (toy_messenger (fixed_server FetchFailed)) (toy_arrival ''e2'') w1 = (r, w3)" by fastforce
  have "sender_address (toy_arrival ''e2'') = sender_address (toy_arrival ''e1'')"
    "str_prop (toy_arrival ''e2'') ''message_id'' = str_prop (toy_arrival ''e1'') ''message_id''"
    by (simp_all add: sender_address_def str_prop_def toy_arrival_props)
  from message_accepted_once [OF a this _ b] a b show ?thesis by (simp add: str_prop_def toy_arrival_props)
qed

end
