(* ===== verification/Delivery.thy ===== *)
theory Delivery
  imports Inbound
begin

text \<open>
  The behaviour of whole sends and polls: how often they ask the relay, and what becomes of a pending
  re-walk position when a poll is interrupted anywhere.
\<close>

subsection \<open>How often the relay is asked\<close>

text \<open>A relay that counts its requests beside its own state; \<open>calls n m\<close>: \<open>m\<close> makes at most \<open>n\<close>.\<close>

definition counted :: "'r server \<Rightarrow> ('r \<times> nat) server" where
  "counted R u b s = (case R u b (fst s) of (out, r) \<Rightarrow> (out, (r, Suc (snd s))))"

definition calls :: "nat \<Rightarrow> ('r \<times> nat, 'a) run \<Rightarrow> bool" where
  "calls n m \<longleftrightarrow> (\<forall>w. snd (w_relay (snd (m w))) \<le> snd (w_relay w) + n)"

named_theorems call_rules \<open>bounds on the number of requests\<close>

lemma calls_mono: "calls n m \<Longrightarrow> n \<le> k \<Longrightarrow> calls k m"
  unfolding calls_def by (meson add_left_mono le_trans)

lemma calls_basic [call_rules]:
  "calls n (ret x)" "calls n (raise e)" "calls n (lift r)" "calls n (drawW f)" "calls n (transact E p)"
  by (simp_all add: calls_def drawW_def)

lemma calls_withRuntime [call_rules]: "calls n (withRuntime E f)"
  unfolding withRuntime_def by (rule call_rules)

lemma calls_andThen:
  assumes "calls a m" "\<And>x. calls b (f x)" "a + b \<le> n"
  shows "calls n (andThen m f)"
  unfolding calls_def
proof
  fix w
  obtain r w1 where m: "m w = (r, w1)" by fastforce
  have 1: "snd (w_relay w1) \<le> snd (w_relay w) + a" using assms(1) m unfolding calls_def by (metis snd_conv)
  show "snd (w_relay (snd (andThen m f w))) \<le> snd (w_relay w) + n"
  proof (cases r)
    case (Inl e)
    with 1 m assms(3) show ?thesis by (simp add: andThen_def)
  next
    case (Inr x)
    have "snd (w_relay (snd (f x w1))) \<le> snd (w_relay w1) + b" using assms(2) by (simp add: calls_def)
    with 1 m Inr assms(3) show ?thesis by (simp add: andThen_def)
  qed
qed

lemma calls_seq [call_rules]: "calls 0 m \<Longrightarrow> (\<And>x. calls n (f x)) \<Longrightarrow> calls n (andThen m f)"
  by (rule calls_andThen) auto

lemma calls_if [call_rules]: "calls n m \<Longrightarrow> calls n m' \<Longrightarrow> calls n (if b then m else m')"
  by simp

lemma calls_option [call_rules]: "calls n m \<Longrightarrow> (\<And>x. calls n (f x)) \<Longrightarrow> calls n (case v of None \<Rightarrow> m | Some x \<Rightarrow> f x)"
  by (cases v) auto

lemma calls_prod [call_rules]: "(\<And>x y. calls n (f x y)) \<Longrightarrow> calls n (case v of (x, y) \<Rightarrow> f x y)"
  by (cases v) auto

lemma calls_sum [call_rules]:
  "(\<And>x. calls n (f x)) \<Longrightarrow> (\<And>x. calls n (g x)) \<Longrightarrow> calls n (case v of Inl x \<Rightarrow> f x | Inr x \<Rightarrow> g x)"
  by (cases v) auto

definition op_calls :: "nat \<Rightarrow> ('r \<times> nat, 'a) op \<Rightarrow> bool" where
  "op_calls n m \<longleftrightarrow> (\<forall>r. snd (snd (m r)) \<le> snd r + n)"

lemma calls_onRelay: "op_calls n m \<Longrightarrow> calls n (onRelay m)"
  by (auto simp: op_calls_def calls_def onRelay_def split: prod.splits) (metis prod.collapse snd_conv)

lemma op_calls_request: "op_calls 1 (request C (counted R) path body s)"
  by (auto simp: op_calls_def request_def counted_def split: prod.splits sum.splits)

lemma op_calls_pure: "op_calls n (ret x)" "op_calls n (raise e)" "op_calls n (lift r)"
  by (simp_all add: op_calls_def)

lemma op_calls_andThen: "op_calls a m \<Longrightarrow> (\<And>x. op_calls b (f x)) \<Longrightarrow> op_calls (a + b) (andThen m f)"
  unfolding op_calls_def andThen_def by (auto split: prod.splits sum.splits) (smt (verit) add.assoc add_le_mono1 le_trans snd_conv trans_le_add1)+

lemma op_calls_validated: "(\<And>x. op_calls n (f x)) \<Longrightarrow> op_calls n (andThen (lift (validate s v)) f)"
  using op_calls_andThen [OF op_calls_pure(3), of n f 0] by simp

lemma op_calls_answer: "op_calls 1 (andThen (request C (counted R) path body s) (\<lambda>d. ret (f d)))"
  using op_calls_andThen [OF op_calls_request op_calls_pure(1), of 0] by simp

lemma op_calls_if: "op_calls n m \<Longrightarrow> op_calls n m' \<Longrightarrow> op_calls n (if b then m else m')"
  by simp

lemma routes_call:
  "op_calls 1 (sendEnvelope C (counted R) e)" "op_calls 1 (claimBundle C (counted R) i j d)"
  "op_calls 1 (createChallenge C (counted R) v)" "op_calls 1 (pollMailbox C (counted R) v)" "op_calls 1 (ackMailbox C (counted R) v)"
  unfolding sendEnvelope_def claimBundle_def createChallenge_def pollMailbox_def ackMailbox_def
  by (intro op_calls_validated op_calls_if op_calls_pure op_calls_answer op_calls_request)+

lemma calls_routes [call_rules]:
  assumes "ms_server M = counted R"
  shows "calls 1 (onRelay (sendEnvelope C (ms_server M) e))" "calls 1 (onRelay (claimBundle C (ms_server M) i j d))"
    "calls 1 (onRelay (createChallenge C (ms_server M) v))" "calls 1 (onRelay (pollMailbox C (ms_server M) v))"
    "calls 1 (onRelay (ackMailbox C (ms_server M) v))"
  unfolding assms by (intro calls_onRelay routes_call)+

subsection \<open>Bounds for a send and a walk\<close>

lemma calls_serial: "calls n m \<Longrightarrow> calls n (serial m)"
  unfolding calls_def serial_def by (auto split: prod.splits sum.splits) (metis snd_conv)+

lemma calls_inbound_serial: "calls n m \<Longrightarrow> calls n (inbound_serial m)"
  unfolding calls_def inbound_serial_def by (auto split: prod.splits sum.splits) (metis snd_conv)+

lemma calls_profile [call_rules]:
  "calls n (prior_record M i)" "calls n (listContacts E)" "calls n (hasPublication E)" "calls n (allocate_claim M c a)"
  "calls n (mailboxAuthorization E p)" "calls n (pendingMailboxRewalk E)" "calls n (keepMailboxRewalk E s)"
  "calls n (finishMailboxRewalk E)" "calls n (acceptOne M e)"
  unfolding prior_record_def listContacts_def hasPublication_def allocate_claim_def mailboxAuthorization_def
    pendingMailboxRewalk_def keepMailboxRewalk_def finishMailboxRewalk_def acceptOne_def Let_def
  by (rule call_rules)+

lemma calls_deliver: "ms_server M = counted R \<Longrightarrow> calls 1 (deliver M r)"
  unfolding deliver_def by (intro call_rules calls_andThen [where a = 0 and b = 1] calls_andThen [where a = 1 and b = 0]) auto

lemma calls_claim:
  assumes "ms_server M = counted R"
  shows "calls (Suc n) (claimFirstContact M contact key n i)"
proof (induction n arbitrary: i)
  case 0
  have "calls 0 (case (0::nat) of 0 \<Rightarrow> raise e | Suc m \<Rightarrow> f m)" for e and f :: "nat \<Rightarrow> ('a \<times> nat, 'c) run"
    by (simp add: call_rules)
  then show ?case
    by (subst claimFirstContact.simps, intro calls_andThen [where a = 1 and b = 0] call_rules) (use assms in auto)
next
  case (Suc n)
  have "calls (Suc n) (case Suc n of 0 \<Rightarrow> raise e | Suc m \<Rightarrow> andThen (withRuntime (ms_env M) (\<lambda>_ _. fresh_claim M key)) (claimFirstContact M contact key m))" for e
    by (simp add: call_rules Suc)
  then show ?case
    by (subst claimFirstContact.simps, intro calls_andThen [where a = 1 and b = "Suc n"] call_rules) (use assms in auto)
qed

lemma calls_send:
  assumes "ms_server M = counted R"
  shows "calls 3 (sendOwned M v)"
proof -
  have d: "calls k (deliver M r)" "calls k (settle M r h)" if "1 \<le> k" for k r h
    using calls_mono [OF calls_deliver [OF assms] that] unfolding settle_def by (auto intro: call_rules)
  have r: "calls k (andThen (if b then settle M r h else deliver M r) (\<lambda>c. ret (f c)))" if "1 \<le> k"
    for k r h b and f :: "delivery_receipt \<Rightarrow> 'x"
    by (rule calls_andThen [where b = 0]) (auto intro: d call_rules that)
  have c: "calls 2 (claim_for_send M contact claim)" for contact claim
    unfolding claim_for_send_def
    using calls_claim [OF assms, of 1] by (intro call_rules calls_andThen [where b = 0]) (auto simp: numeral_2_eq_2)
  show ?thesis
    unfolding sendOwned_def Let_def
    by (intro call_rules calls_andThen [OF c] r calls_andThen [OF d(2)]) auto
qed

lemma calls_accept [call_rules]: "calls 0 (accept M es t)"
proof (induction es arbitrary: t)
  case (Cons e es)
  have a: "snd (w_relay (snd (acceptOne M e w))) \<le> snd (w_relay w)" for w
    using calls_profile(9) [of 0 M e] by (simp add: calls_def)
  show ?case
    unfolding calls_def
  proof
    fix w
    obtain r w1 where w1: "acceptOne M e w = (r, w1)" by fastforce
    with a [of w] Cons show "snd (w_relay (snd (accept M (e # es) t w))) \<le> snd (w_relay w) + 0"
      by (auto simp: calls_def split: sum.splits) (meson le_trans)+
  qed
qed (simp add: call_rules)

lemma calls_page: "ms_server M = counted R \<Longrightarrow> calls 2 (page M cursor rt)"
  unfolding page_def Let_def
  by (intro call_rules calls_andThen [where a = 1 and b = 1]) auto

lemma calls_advance [call_rules]: "calls n (advance_rewalk M rewalk c)"
  unfolding advance_rewalk_def by (intro call_rules)

lemma calls_walk:
  assumes "ms_server M = counted R"
  shows "calls (2 * n) (walk n M rewalk cursor rt t b)"
proof (induction n arbitrary: rewalk cursor rt t b)
  case (Suc n)
  show ?case
    unfolding walk.simps Let_def
    by (intro calls_andThen [OF calls_page [OF assms], of "2 * n"] call_rules Suc) auto
qed (simp add: call_rules)

lemma batch_count:
  assumes "0 < l"
  shows "Suc ((l - 100 + 99) div 100) = (l + 99) div (100::nat)"
proof (cases "l \<le> 100")
  case True
  have "(l + 99) div 100 = 1" by (rule div_nat_eqI) (use assms True in auto)
  with True show ?thesis by simp
next
  case False
  then obtain m where "l = 100 + m" using le_Suc_ex [of 100 l] by auto
  then show ?thesis by simp
qed

lemma length_ack_batches: "length ids \<le> n \<Longrightarrow> length (ack_batches n ids) = (length ids + 99) div 100"
proof (induction n arbitrary: ids)
  case (Suc n)
  show ?case
  proof (cases "ids = []")
    case False
    then have "length (ack_batches n (drop 100 ids)) = (length ids - 100 + 99) div 100" using Suc by simp
    then have "length (ack_batches (Suc n) ids) = Suc ((length ids - 100 + 99) div 100)" using False by simp
    with batch_count [of "length ids"] False show ?thesis by simp
  qed simp
qed simp

lemma calls_ack_all: "ms_server M = counted R \<Longrightarrow> calls (length bs) (ack_all M bs)"
proof (induction bs)
  case (Cons ids bs)
  then show ?case
    unfolding ack_all.simps by (intro call_rules calls_andThen [where a = 1 and b = "length bs"]) auto
qed (simp add: call_rules)

lemma ackPending_calls:
  assumes "ms_server M = counted R"
  shows "snd (w_relay (snd (ackPending M w)))
    \<le> snd (w_relay w) + (length (rec_keys ack_prefix (w_records w)) + 99) div 100"
proof -
  let ?keys = "\<lambda>_ _. andThen (onRecords (tkeys ack_prefix)) (\<lambda>ks. ret (map (drop (length ack_prefix)) (sort ks)))"
  obtain r w1 where k: "withRuntime (ms_env M) ?keys w = (r, w1)" by fastforce
  note q = withRuntime_relay [OF k]
  show ?thesis
  proof (cases r)
    case (Inl e)
    with k q show ?thesis by (simp add: ackPending_def andThen_def)
  next
    case (Inr ids)
    from k Inr have ids: "length ids = length (rec_keys ack_prefix (w_records w))"
      by (auto elim!: withRuntime_Inr simp: andThen_Inr_iff onRecords_iff)
    have "calls (length (ack_batches (length ids) ids)) (andThen (ack_all M (ack_batches (length ids) ids)) (\<lambda>_. ret (length ids)))"
      by (rule calls_andThen [OF calls_ack_all [OF assms], where b = 0]) (auto simp: call_rules)
    then have "snd (w_relay (snd (andThen (ack_all M (ack_batches (length ids) ids)) (\<lambda>_. ret (length ids)) w1)))
        \<le> snd (w_relay w1) + (length ids + 99) div 100"
      unfolding calls_def by (simp add: length_ack_batches)
    with k q Inr have "snd (w_relay (snd (ackPending M w))) \<le> snd (w_relay w) + (length ids + 99) div 100"
      by (simp add: ackPending_def andThen_Inr)
    with ids show ?thesis by simp
  qed
qed

lemma poll_walk_calls: "ms_server M = counted R \<Longrightarrow> calls 32 (poll_walk M)"
  unfolding poll_walk_def maxPollPagesPerPoll_def
  by (rule calls_seq) (use calls_walk [of M R 16] in \<open>simp_all add: call_rules\<close>)

lemma poll_calls:
  assumes "ms_server M = counted R"
  shows "snd (w_relay (snd (poll M w)))
    \<le> snd (w_relay w) + 32 + (length (rec_keys ack_prefix (w_records (snd (poll_walk M w)))) + 99) div 100"
proof -
  obtain r w1 where p: "poll_walk M w = (r, w1)" by fastforce
  have 1: "snd (w_relay w1) \<le> snd (w_relay w) + 32"
    using poll_walk_calls [OF assms] p unfolding calls_def by (metis snd_conv)
  have i: "w_relay (snd (inbound_serial m w)) = w_relay (snd (m w))" for m :: "('a \<times> nat, 'c) run"
    by (auto simp: inbound_serial_def split: prod.splits sum.splits)
  show ?thesis
  proof (cases r)
    case (Inl e)
    with p 1 show ?thesis by (simp add: poll_def i andThen_def)
  next
    case (Inr x)
    obtain t b where x: "x = (t, b)" by fastforce
    have a: "snd (w_relay (snd (andThen (ackPending M) (\<lambda>_. ret y) w1)))
        \<le> snd (w_relay w1) + (length (rec_keys ack_prefix (w_records w1)) + 99) div 100" for y :: "nat \<times> bool \<times> (string \<times> string) list"
      using ackPending_calls [OF assms, of w1] by (auto simp: andThen_def split: prod.splits sum.splits)
    with p 1 Inr x show ?thesis
      by (auto simp: poll_def i andThen_Inr split: nat.splits option.splits intro: order_trans [OF a])
  qed
qed

subsection \<open>The re-walk position is durable\<close>

definition rewalk_pending :: "records \<Rightarrow> bool" where
  "rewalk_pending rs \<longleftrightarrow> rec_get mailboxRewalkKey rs \<noteq> None"

text \<open>From one state to a later one, every committed state held a re-walk position.\<close>

definition held_throughout :: "'r world \<Rightarrow> 'r world \<Rightarrow> bool" where
  "held_throughout w w' \<longleftrightarrow> rewalk_pending (w_records w')
     \<and> (\<exists>new. w_commits w' = new @ w_commits w \<and> (\<forall>rs \<in> set new. rewalk_pending rs))"

lemma held_refl: "rewalk_pending (w_records w) \<Longrightarrow> held_throughout w w"
  by (simp add: held_throughout_def)

lemma held_trans: "held_throughout u v \<Longrightarrow> held_throughout v w \<Longrightarrow> held_throughout u w"
  unfolding held_throughout_def by (metis (no_types, opaque_lifting) Un_iff append.assoc set_append)

definition holding :: "('r, 'a) run \<Rightarrow> bool" where
  "holding m \<longleftrightarrow> (\<forall>w. rewalk_pending (w_records w) \<longrightarrow> held_throughout w (snd (m w)))"

named_theorems holding_rules \<open>operations that keep the re-walk position\<close>

lemma holding_basic [holding_rules]: "holding (ret x)" "holding (raise e)" "holding (lift r)" "holding (drawW f)" "holding (onRelay p)"
  by (auto simp: holding_def held_throughout_def drawW_def onRelay_def split: prod.splits)

lemma holding_result: "holding m \<Longrightarrow> m w = (r, w') \<Longrightarrow> rewalk_pending (w_records w) \<Longrightarrow> held_throughout w w'"
  unfolding holding_def by (metis snd_conv)

lemma held_pending: "held_throughout w w' \<Longrightarrow> rewalk_pending (w_records w')"
  by (simp add: held_throughout_def)

lemma holding_andThen [holding_rules]:
  fixes m :: "('r, 'a) run"
  assumes "holding m" "\<And>x. holding (f x)"
  shows "holding (andThen m f)"
  unfolding holding_def
proof (intro allI impI)
  fix w :: "'r world" assume p: "rewalk_pending (w_records w)"
  obtain r w1 where m: "m w = (r, w1)" by fastforce
  note h = holding_result [OF assms(1) m p]
  show "held_throughout w (snd (andThen m f w))"
  proof (cases r)
    case (Inr x)
    with assms(2) [of x] held_pending [OF h] have "held_throughout w1 (snd (f x w1))" by (simp add: holding_def)
    with h m Inr show ?thesis by (simp add: andThen_Inr held_trans)
  qed (use h m in \<open>simp add: andThen_Inl\<close>)
qed

lemma holding_if [holding_rules]: "holding m \<Longrightarrow> holding n \<Longrightarrow> holding (if b then m else n)"
  by simp

lemma holding_transact [holding_rules]:
  assumes "pleaves (\<lambda>k. k = mailboxRewalkKey) m"
  shows "holding (transact E m :: ('r, 'a) run)"
  unfolding holding_def
proof (intro allI impI)
  fix w :: "'r world" assume p: "rewalk_pending (w_records w)"
  obtain r w' where t: "transact E m w = (r, w')" by fastforce
  have "rec_get mailboxRewalkKey (w_records w') = rec_get mailboxRewalkKey (w_records w)"
    using rleaves_result [OF rleaves_transact [OF assms] t] by simp
  with p have q: "rewalk_pending (w_records w')" by (simp add: rewalk_pending_def)
  have "w_commits w' = w_commits w \<or> w_commits w' = w_records w' # w_commits w"
    using t by (cases r) (auto simp: transact_Inr dest: transact_Inl)
  with q have "held_throughout w w'" by (auto simp: held_throughout_def)
  with t show "held_throughout w (snd (transact E m w))" by simp
qed

lemma leaves_rewalk [frame_rules]:
  "leaves (\<lambda>k. k = mailboxRewalkKey) (appendHistory e)" "leaves (\<lambda>k. k = mailboxRewalkKey) (mark_pending a en)"
  "leaves (\<lambda>k. k = mailboxRewalkKey) (decrypt_message L self a m)"
proof -
  show "leaves (\<lambda>k. k = mailboxRewalkKey) (appendHistory e)" "leaves (\<lambda>k. k = mailboxRewalkKey) (mark_pending a en)"
    unfolding appendHistory_def mark_pending_def Let_def
    by (intro frame_rules leaves_set;
        simp add: mailboxRewalkKey_def history_key_def history_prefix_def history_sequence_key_def ack_key_def ack_prefix_def)+
  show "leaves (\<lambda>k. k = mailboxRewalkKey) (decrypt_message L self a m)"
    by (rule leaves_mono [OF leaves_decrypt]) (simp add: mailboxRewalkKey_def cli_key_def)
qed

lemma leaves_admit [frame_rules]: "leaves (\<lambda>k. k = mailboxRewalkKey) (admit_or_match E self a c en v)"
  unfolding admit_or_match_def admit_def
  by (intro frame_rules leaves_set; simp add: mailboxRewalkKey_def inbox_record_key_def)

lemma pleaves_open_rewalk [frame_rules]: "pleaves (\<lambda>k. k = mailboxRewalkKey) (open_client E local)"
proof -
  have "pleaves cli_key (open_client E local)" by (rule pleaves_profile)
  then show ?thesis by (auto simp: pleaves_def mailboxRewalkKey_def cli_key_def)
qed

lemma holding_withRuntime [holding_rules]:
  assumes "\<And>self local. pleaves (\<lambda>k. k = mailboxRewalkKey) (f self local)"
  shows "holding (withRuntime E f)"
  unfolding withRuntime_def Let_def by (intro holding_rules frame_rules assms)

lemma holding_acceptOne [holding_rules]: "holding (acceptOne M e)"
  unfolding acceptOne_def Let_def by (intro holding_rules frame_rules)

lemma holding_authorization [holding_rules]: "holding (mailboxAuthorization E p)"
  unfolding mailboxAuthorization_def Let_def by (intro holding_rules frame_rules)

lemma holding_page [holding_rules]: "holding (page M cursor rt)"
  unfolding page_def Let_def by (intro holding_rules)

lemma holding_accept [holding_rules]: "holding (accept (M :: 'r messenger) es t)"
proof (induction es arbitrary: t)
  case (Cons e es)
  show ?case
    unfolding holding_def
  proof (intro allI impI)
    fix w :: "'r world" assume p: "rewalk_pending (w_records w)"
    obtain r w1 where a: "acceptOne M e w = (r, w1)" by fastforce
    note h = holding_result [OF holding_acceptOne a p]
    have "held_throughout w (snd (accept M es t' w1))" for t'
      using held_trans [OF h] Cons [of t'] held_pending [OF h] by (simp add: holding_def)
    with a h show "held_throughout w (snd (accept M (e # es) t w))" by (auto split: sum.splits)
  qed
qed (simp add: holding_rules)

text \<open>How a walk that started with a pending position ends.\<close>

definition mailbox_end :: "'r messenger \<Rightarrow> 'r world \<Rightarrow> 'r world \<Rightarrow> bool" where
  "mailbox_end M w w' \<longleftrightarrow>
     (\<exists>v cursor rt b v' u. held_throughout w v \<and> page M cursor rt v = (Inr b, v') \<and> held_throughout w v'
        \<and> text_of (jprop b ''next_cursor'') = None \<and> held_throughout v' u
        \<and> \<not> rewalk_pending (w_records w') \<and> w_commits w' = w_records w' # w_commits u)"

lemma finish_result:
  assumes "finishMailboxRewalk E w = (Inr (), w')"
  shows "\<not> rewalk_pending (w_records w') \<and> w_commits w' = w_records w' # w_commits w"
  using assms by (auto simp: finishMailboxRewalk_def transact_Inr onRecords_iff rewalk_pending_def)

lemma keep_result:
  assumes "keepMailboxRewalk E p w = (r, w')" "rewalk_pending (w_records w)"
  shows "held_throughout w w'"
proof (cases r)
  case (Inl e)
  with assms show ?thesis by (auto simp: keepMailboxRewalk_def Let_def held_throughout_def dest: transact_Inl)
next
  case (Inr u)
  with assms show ?thesis
    by (auto simp: keepMailboxRewalk_def Let_def held_throughout_def rewalk_pending_def transact_Inr onRecords_iff)
qed

lemma mailbox_end_held: "held_throughout w v \<Longrightarrow> mailbox_end M v w' \<Longrightarrow> mailbox_end M w w'"
  unfolding mailbox_end_def by (meson held_trans)

lemma walk_rewalk:
  assumes "walk n M (Some p) cursor rt t m w = (r, w')" "rewalk_pending (w_records w)"
  shows "held_throughout w w' \<and> (\<forall>t' b. r = Inr (t', b) \<longrightarrow> b \<or> n = 0)
    \<or> mailbox_end M w w' \<and> (\<exists>t'. r = Inr (t', False))"
  using assms
proof (induction n arbitrary: p cursor rt t m w)
  case 0
  then show ?case by (auto simp: held_refl)
next
  case (Suc n)
  obtain rp w1 where pg: "page M cursor rt w = (rp, w1)" by fastforce
  note h1 = holding_result [OF holding_page pg Suc.prems(2)]
  show ?case
  proof (cases rp)
    case (Inl e)
    with Suc.prems(1) pg h1 show ?thesis by (auto simp: andThen_Inl)
  next
    case (Inr batch)
    note batch = Inr
    obtain ra w2 where ac: "accept M (elements (jprop batch ''envelopes'')) t w1 = (ra, w2)" by fastforce
    note h2 = holding_result [OF holding_accept ac held_pending [OF h1]]
    note h12 = held_trans [OF h1 h2]
    show ?thesis
    proof (cases ra)
      case (Inl e)
      with Suc.prems(1) pg batch ac h12 show ?thesis by (auto simp: andThen_Inl andThen_Inr)
    next
      case (Inr t')
      show ?thesis
      proof (cases "text_of (jprop batch ''next_cursor'')")
        case None
        obtain rf w3 where f: "finishMailboxRewalk (ms_env M) w2 = (rf, w3)" by fastforce
        show ?thesis
        proof (cases rf)
          case (Inl e)
          with f have "held_throughout w2 w3"
            using held_pending [OF h12] by (auto simp: finishMailboxRewalk_def held_throughout_def dest: transact_Inl)
          with Suc.prems(1) pg batch ac Inr None f Inl held_trans [OF h12] show ?thesis
            by (auto simp: andThen_Inl andThen_Inr advance_rewalk_def Let_def)
        next
          case (Inr u)
          with f finish_result [of "ms_env M" w2 w3]
          have "\<not> rewalk_pending (w_records w3)" "w_commits w3 = w_records w3 # w_commits w2" by auto
          with pg batch h1 h2 None held_refl [OF Suc.prems(2)] have "mailbox_end M w w3"
            unfolding mailbox_end_def by blast
          with Suc.prems(1) pg batch ac \<open>ra = Inr t'\<close> None f Inr show ?thesis
            by (auto simp: andThen_Inr advance_rewalk_def Let_def)
        qed
      next
        case (Some c)
        obtain rk w3 where k: "keepMailboxRewalk (ms_env M) c w2 = (rk, w3)" by fastforce
        note h3 = held_trans [OF h12 keep_result [OF k held_pending [OF h12]]]
        show ?thesis
        proof (cases rk)
          case (Inl e)
          with Suc.prems(1) pg batch ac Inr Some k h3 show ?thesis
            by (auto simp: andThen_Inl andThen_Inr advance_rewalk_def Let_def)
        next
          case (Inr u)
          with Suc.prems(1) pg batch ac \<open>ra = Inr t'\<close> Some k
          have "(if received t' > received t then ret (t', True) else walk n M (Some c) (Some c) (Some c) t' True) w3 = (r, w')"
            by (cases "received t' > received t") (simp_all add: andThen_Inr advance_rewalk_def Let_def)
          then consider "r = Inr (t', True)" "w' = w3" | "walk n M (Some c) (Some c) (Some c) t' True w3 = (r, w')"
            by (auto split: if_splits)
          then show ?thesis
          proof cases
            case 1
            with h3 show ?thesis by simp
          next
            case 2
            have "n = 0 \<Longrightarrow> r = Inr (t', True)" using 2 by simp
            with Suc.IH [OF 2 held_pending [OF h3]] held_trans [OF h3] mailbox_end_held [OF h3] show ?thesis by fastforce
          qed
        qed
      qed
    qed
  qed
qed

subsection \<open>After the walk\<close>

definition extends :: "('r, 'a) run \<Rightarrow> bool" where
  "extends m \<longleftrightarrow> (\<forall>w. suffix (w_commits w) (w_commits (snd (m w))))"

lemma extends_basic: "extends (ret x)" "extends (onRelay p)"
  by (auto simp: extends_def onRelay_def split: prod.splits)

lemma extends_transact: "extends (transact E m)"
  by (auto simp: extends_def transact_def suffix_def split: prod.splits sum.splits)

lemma extends_andThen:
  assumes "extends m" "\<And>x. extends (f x)"
  shows "extends (andThen m f)"
  unfolding extends_def
proof
  fix w
  obtain r w1 where m: "m w = (r, w1)" by fastforce
  have s: "suffix (w_commits w) (w_commits w1)" using assms(1) m unfolding extends_def by (metis snd_conv)
  show "suffix (w_commits w) (w_commits (snd (andThen m f w)))"
  proof (cases r)
    case (Inr x)
    have "suffix (w_commits w1) (w_commits (snd (f x w1)))" using assms(2) by (simp add: extends_def)
    with s m Inr show ?thesis by (simp add: andThen_Inr suffix_order.trans [of "w_commits w"])
  qed (use s m in \<open>simp add: andThen_Inl\<close>)
qed

lemma leaves_acks: "leaves (\<lambda>k. k = mailboxRewalkKey) (delete_acks ids)"
  by (induction ids)
    (auto intro!: frame_rules leaves_delete simp: mailboxRewalkKey_def ack_key_def ack_prefix_def)

lemma ack_all_rules:
  "rleaves (\<lambda>k. k = mailboxRewalkKey) (ack_all M bs)" "extends (ack_all M bs)" "holding (ack_all M bs)"
proof (induction bs)
  case (Cons ids bs)
  show "rleaves (\<lambda>k. k = mailboxRewalkKey) (ack_all M (ids # bs))"
    unfolding ack_all.simps mailboxAuthorization_def withRuntime_def Let_def by (intro frame_rules leaves_acks Cons)
  show "extends (ack_all M (ids # bs))"
    unfolding ack_all.simps mailboxAuthorization_def withRuntime_def by (intro extends_andThen extends_transact extends_basic Cons)
  show "holding (ack_all M (ids # bs))"
    unfolding ack_all.simps by (intro holding_rules frame_rules leaves_acks Cons)
qed (auto intro: frame_rules extends_basic holding_rules)

lemma ackPending_rules:
  "rleaves (\<lambda>k. k = mailboxRewalkKey) (ackPending M)" "extends (ackPending M)" "holding (ackPending M)"
proof -
  show "rleaves (\<lambda>k. k = mailboxRewalkKey) (ackPending M)"
    unfolding ackPending_def by (intro frame_rules ack_all_rules)
  show "extends (ackPending M)"
    unfolding ackPending_def withRuntime_def by (intro extends_andThen extends_transact extends_basic ack_all_rules)
  show "holding (ackPending M)"
    unfolding ackPending_def by (intro holding_rules frame_rules ack_all_rules)
qed

lemma pending_result:
  assumes "pendingMailboxRewalk E w = (Inr p, w')"
  shows "w_records w' = w_records w \<and> (p \<noteq> None \<longleftrightarrow> rewalk_pending (w_records w))"
  using assms by (auto simp: pendingMailboxRewalk_def transact_Inr andThen_Inr_iff onRecords_iff rewalk_pending_def split: option.splits)

lemma holding_pending: "holding (pendingMailboxRewalk E)"
  unfolding pendingMailboxRewalk_def by (intro holding_rules frame_rules)

lemma poll_walk_rewalk:
  assumes "poll_walk M w = (r, w')" "rewalk_pending (w_records w)"
  shows "held_throughout w w' \<and> (\<forall>t b. r = Inr (t, b) \<longrightarrow> b) \<or> mailbox_end M w w' \<and> (\<exists>t. r = Inr (t, False))"
proof -
  obtain q w1 where p: "pendingMailboxRewalk (ms_env M) w = (q, w1)" by fastforce
  note h = holding_result [OF holding_pending p assms(2)]
  show ?thesis
  proof (cases q)
    case (Inl e)
    with assms(1) p h show ?thesis by (auto simp: poll_walk_def andThen_Inl)
  next
    case (Inr po)
    with pending_result [of "ms_env M" w po w1] p assms(2) obtain pos where po: "po = Some pos" by auto
    with assms(1) p Inr have "walk maxPollPagesPerPoll M (Some pos) (Some pos) None no_tally False w1 = (r, w')"
      by (simp add: poll_walk_def andThen_Inr)
    from walk_rewalk [OF this held_pending [OF h]] held_trans [OF h] mailbox_end_held [OF h]
    show ?thesis by (auto simp: maxPollPagesPerPoll_def)
  qed
qed

subsection \<open>Properties\<close>

text \<open>
  C27. No operation asks the relay more often than its bound: a send makes at most three requests
  (two claims and one deposit), a poll at most two for each of the sixteen pages it may walk and
  then one for each hundred acknowledgements pending when its walk ended - so both return whatever
  the relay answers, however many pages an attacker has filled.
\<close>

theorem relay_requests_bounded:
  assumes "ms_server M = counted R"
  shows "snd (w_relay (snd (send_message M input w))) \<le> snd (w_relay w) + 3
    \<and> snd (w_relay (snd (poll M w))) \<le> snd (w_relay w) + 32
         + (length (rec_keys ack_prefix (w_records (snd (poll_walk M w)))) + 99) div 100"
proof -
  have "calls 3 (send_message M input)"
    unfolding send_message_def by (intro call_rules calls_serial calls_send [OF assms])
  then show ?thesis using poll_calls [OF assms] by (simp add: calls_def)
qed

theorem relay_requests_bounded_witness:
  "snd (w_relay (snd (poll (toy_messenger (counted (fixed_server FetchFailed))) (client_world (0, 0) [])))) \<le> 32
     + (length (rec_keys ack_prefix (w_records (snd (poll_walk (toy_messenger (counted (fixed_server FetchFailed))) (client_world (0, 0) []))))) + 99) div 100"
  using relay_requests_bounded [of "toy_messenger (counted (fixed_server FetchFailed))" "fixed_server FetchFailed" JNull "client_world (0, 0) []"]
  by (simp add: toy_messenger_def client_world_def)

text \<open>
  C28. A pending re-walk is never lost: a poll that finds a position recorded keeps one in every
  state it commits - so in whatever state an interruption, a relay failure or a storage fault leaves
  it - until a page of this very poll has reported the end of the mailbox; the deletion is the
  commit that follows, and a poll that returns reports more work exactly when the position is kept.
\<close>

theorem rewalk_position_durable:
  assumes "rewalk_pending (w_records w)" "poll M w = (r, w')"
  shows "held_throughout w w' \<and> (\<forall>n b ids. r = Inr (n, b, ids) \<longrightarrow> b)
    \<or> (\<exists>u. mailbox_end M w u \<and> suffix (w_commits u) (w_commits w') \<and> \<not> rewalk_pending (w_records w')
         \<and> (\<forall>n b ids. r = Inr (n, b, ids) \<longrightarrow> \<not> b))"
proof -
  obtain rp w1 where p: "poll_walk M w = (rp, w1)" by fastforce
  note walked = poll_walk_rewalk [OF p assms(1)]
  have ack: "(held_throughout w w1 \<longrightarrow> held_throughout w (snd (ackPending M w1)))
      \<and> suffix (w_commits w1) (w_commits (snd (ackPending M w1)))
      \<and> (\<not> rewalk_pending (w_records w1) \<longrightarrow> \<not> rewalk_pending (w_records (snd (ackPending M w1))))"
    using ackPending_rules [of M]
    by (auto simp: holding_def extends_def rleaves_def rewalk_pending_def [of "w_records (snd _)"] dest: held_pending intro: held_trans)
       (simp add: rewalk_pending_def)
  have w': "w' = w1 \<and> (\<forall>x. r \<noteq> Inr x) \<or> w' = snd (ackPending M w1) \<and> (\<forall>n b ids. r = Inr (n, b, ids) \<longrightarrow> (\<exists>t. rp = Inr (t, b)))"
  proof (cases rp)
    case (Inl e)
    with assms(2) p show ?thesis by (auto simp: poll_def inbound_serial_def andThen_Inl)
  next
    case (Inr x)
    obtain t b where x: "x = (t, b)" by fastforce
    obtain ra w2 where a: "ackPending M w1 = (ra, w2)" by fastforce
    show ?thesis
      using assms(2) p Inr x a
      by (cases ra) (auto simp: poll_def inbound_serial_def andThen_Inr andThen_Inl split: nat.splits option.splits)
  qed
  show ?thesis
  proof (cases "mailbox_end M w w1 \<and> (\<exists>t. rp = Inr (t, False))")
    case True
    then have "\<not> rewalk_pending (w_records w1)" by (auto simp: mailbox_end_def)
    with True w' ack show ?thesis by (intro disjI2 exI [of _ w1]) auto
  next
    case False
    with walked have "held_throughout w w1" "\<forall>t b. rp = Inr (t, b) \<longrightarrow> b" by blast+
    with w' ack show ?thesis by (intro disjI1) auto
  qed
qed

lemma failing_page: "page (toy_messenger (fixed_server FetchFailed)) cursor rt w \<noteq> (Inr b, w')"
  by (auto simp: page_def Let_def andThen_Inr_iff toy_messenger_def onRelay_def createChallenge_def request_def
      fixed_server_def interpret_response_def split: prod.splits if_splits)

theorem rewalk_position_durable_witness:
  "\<exists>r w'. poll (toy_messenger (fixed_server FetchFailed)) (client_world 0 [(mailboxRewalkKey, ''0'')]) = (r, w')
     \<and> held_throughout (client_world 0 [(mailboxRewalkKey, ''0'')]) w'"
proof -
  obtain r w' where p: "poll (toy_messenger (fixed_server FetchFailed)) (client_world 0 [(mailboxRewalkKey, ''0'')]) = (r, w')"
    by fastforce
  have "rewalk_pending (w_records (client_world 0 [(mailboxRewalkKey, ''0'')]))"
    by (simp add: rewalk_pending_def client_world_def client_records_def rec_get_def metadataKey_def mailboxRewalkKey_def)
  from rewalk_position_durable [OF this p] p failing_page show ?thesis by (auto simp: mailbox_end_def)
qed

end
