(* ===== verification/Cli.thy ===== *)
theory Cli
  imports Delivery
begin

text \<open>
  \<open>apps/cli/src/commands/cli.ts\<close>: the strict command line. Its argument parser (over the part of
  Node's \<open>util.parseArgs\<close> the options use), the sources of a message body and of a confirmation,
  every command over the profile and the two messengers, and the classification of failures into
  exit codes. The interactive operator commands the dispatcher hands over to are named only.
\<close>

subsection \<open>Failures\<close>

definition inputFailure :: "string \<Rightarrow> exn" where "inputFailure code = CliFailure code 2"
definition trustFailure :: "string \<Rightarrow> exn" where "trustFailure code = CliFailure code 3"
definition persistenceFailure :: exn where "persistenceFailure = CliFailure ''PERSISTENCE_FAILURE'' 5"

definition invalidArguments :: exn where "invalidArguments = inputFailure ''INVALID_ARGUMENTS''"

definition reportedRelayCodes :: "string list" where
  "reportedRelayCodes = [''PREKEY_BUNDLE_UNAVAILABLE'', ''UNAUTHORIZED_MAILBOX_ACCESS'', ''SENDER_QUOTA_EXCEEDED'']"

fun classify :: "exn \<Rightarrow> string \<times> nat" where
  "classify (CliFailure c n) = (c, n)"
| "classify PersistenceError = (''PERSISTENCE_FAILURE'', 5)"
| "classify (ConfigurationError m) = (''INVALID_CONFIGURATION'', 2)"
| "classify (RelayError c retryable s remote) =
     (if retryable then (''RELAY_UNAVAILABLE'', 4)
      else (case remote of
              Some r \<Rightarrow> (if r \<in> set reportedRelayCodes then r else ''PROTOCOL_REJECTED'', 3)
            | None \<Rightarrow> (''PROTOCOL_REJECTED'', 3)))"
| "classify (OutboundError c) = (if c = ''INVALID_MESSAGE'' then (c, 2) else (c, 3))"
| "classify (InboundError c) = (c, 3)"
| "classify (ProfileError m) = (''PROFILE_REJECTED'', 3)"
| "classify (PlainError m) = (''PERSISTENCE_FAILURE'', 5)"

subsection \<open>Options\<close>

text \<open>The declared options: the name, and whether it takes a value (\<open>type: "string"\<close>).\<close>

definition cliOptions :: "(string \<times> bool) list" where
  "cliOptions =
     [(''profile'', True), (''json'', False), (''relay-url'', True), (''store-key-env'', True), (''out'', True),
      (''from'', True), (''yes'', False), (''to'', True), (''text'', True), (''message-id'', True), (''with'', True)]"

definition stringOptions :: "string list" where
  "stringOptions = map fst (filter snd cliOptions)"

definition commandOptions :: "(string \<times> string list) list" where
  "commandOptions =
     [(''init'', [''profile'', ''json'', ''relay-url'', ''store-key-env'']),
      (''contact export'', [''profile'', ''json'', ''out'']),
      (''contact import'', [''profile'', ''json'', ''from'', ''yes'']),
      (''relay publish'', [''profile'', ''json'']),
      (''send'', [''profile'', ''json'', ''to'', ''text'', ''message-id'']),
      (''poll'', [''profile'', ''json'']),
      (''history'', [''profile'', ''json'', ''with'']),
      (''doctor'', [''profile'', ''json''])]"

definition requiredByCommand :: "(string \<times> string list) list" where
  "requiredByCommand =
     [(''init'', [''relay-url'', ''store-key-env'']), (''contact export'', [''out'']), (''contact import'', [''from'']),
      (''relay publish'', []), (''send'', [''to'']), (''poll'', []), (''history'', [''with'']), (''doctor'', [])]"

definition optionSeparator :: string where "optionSeparator = ''--''"

definition is_long :: "string \<Rightarrow> bool" where
  "is_long arg \<longleftrightarrow> prefix ''--'' arg"

fun inlineStringOptionValues :: "string list \<Rightarrow> string list" where
  "inlineStringOptionValues [] = []"
| "inlineStringOptionValues (arg # rest) =
     (if arg = optionSeparator then arg # rest
      else if is_long arg \<and> CHR ''='' \<notin> set arg \<and> drop 2 arg \<in> set stringOptions \<and> rest \<noteq> [] \<and> hd rest \<noteq> optionSeparator
      then (arg @ ''='' @ hd rest) # inlineStringOptionValues (tl rest)
      else arg # inlineStringOptionValues rest)"

subsection \<open>The argument parser\<close>

text \<open>
  \<open>parseArgs\<close> in strict mode with positionals allowed. No short option is declared, so a token
  for one (of a group, its first) is refused; \<open>True\<close> marks a value written inline.
\<close>

datatype arg_token = OptionToken string "string option" bool | PositionalToken string

definition inline_value :: "string \<Rightarrow> (string \<times> string) option" where
  "inline_value arg =
     (if CHR ''='' \<in> set (drop 3 arg)
      then (let i = length (takeWhile (\<lambda>c. c \<noteq> CHR ''='') arg) in Some (drop 2 (take i arg), drop (Suc i) arg))
      else None)"

fun arg_tokens :: "string list \<Rightarrow> arg_token list" where
  "arg_tokens [] = []"
| "arg_tokens (arg # rest) =
     (if arg = optionSeparator then map PositionalToken rest
      else if is_long arg then
        (case inline_value arg of
           Some (name, v) \<Rightarrow> OptionToken name (Some v) True # arg_tokens rest
         | None \<Rightarrow>
             (case rest of
                v # rest' \<Rightarrow>
                  if drop 2 arg \<in> set stringOptions then OptionToken (drop 2 arg) (Some v) False # arg_tokens rest'
                  else OptionToken (drop 2 arg) None False # arg_tokens rest
              | [] \<Rightarrow> [OptionToken (drop 2 arg) None False]))
      else if prefix ''-'' arg \<and> 2 \<le> length arg then OptionToken [arg ! 1] None False # arg_tokens rest
      else PositionalToken arg # arg_tokens rest)"

definition option_like :: "string \<Rightarrow> bool" where
  "option_like v \<longleftrightarrow> 1 < length v \<and> prefix ''-'' v"

fun token_ok :: "arg_token \<Rightarrow> bool" where
  "token_ok (PositionalToken s) = True"
| "token_ok (OptionToken name v inlined) =
     ((inlined \<or> (case v of None \<Rightarrow> True | Some s \<Rightarrow> \<not> option_like s))
      \<and> (case map_of cliOptions name of
           None \<Rightarrow> False
         | Some takes_value \<Rightarrow> (takes_value \<longleftrightarrow> v \<noteq> None)))"

text \<open>The value of an option that takes none is \<open>true\<close>, here \<open>None\<close>.\<close>

type_synonym cli_values = "(string \<times> string option) list"

fun token_options :: "arg_token list \<Rightarrow> cli_values" where
  "token_options [] = []"
| "token_options (OptionToken name v inlined # ts) = (name, v) # token_options ts"
| "token_options (PositionalToken s # ts) = token_options ts"

fun token_positionals :: "arg_token list \<Rightarrow> string list" where
  "token_positionals [] = []"
| "token_positionals (OptionToken name v inlined # ts) = token_positionals ts"
| "token_positionals (PositionalToken s # ts) = s # token_positionals ts"

fun join_words :: "string list \<Rightarrow> string" where
  "join_words [] = []"
| "join_words [w] = w"
| "join_words (w # ws) = w @ '' '' @ join_words ws"

text \<open>The lookup of a command reaches the members an object inherits; they have no \<open>includes\<close>.\<close>

definition inherited_members :: "string list" where
  "inherited_members =
     [''constructor'', ''__defineGetter__'', ''__defineSetter__'', ''hasOwnProperty'', ''__lookupGetter__'', ''__lookupSetter__'',
      ''isPrototypeOf'', ''propertyIsEnumerable'', ''toString'', ''valueOf'', ''__proto__'', ''toLocaleString'']"

fun check_options :: "string list option \<Rightarrow> string list \<Rightarrow> string list \<Rightarrow> unit result" where
  "check_options allowed seen [] = Inr ()"
| "check_options allowed seen (n # ns) =
     (if n \<in> set seen then Inl invalidArguments
      else
        (case allowed of
           None \<Rightarrow> Inl (PlainError ''TypeError'')
         | Some names \<Rightarrow> if n \<in> set names then check_options allowed (n # seen) ns else Inl invalidArguments))"

text \<open>The bytes of the white space character a text starts with: what \<open>trim\<close> removes.\<close>

definition white_sequences :: "string list" where
  "white_sequences =
     [[CHR 0x09], [CHR 0x0A], [CHR 0x0B], [CHR 0x0C], [CHR 0x0D], [CHR 0x20], [CHR 0xC2, CHR 0xA0], [CHR 0xE1, CHR 0x9A, CHR 0x80],
      [CHR 0xE2, CHR 0x80, CHR 0x80], [CHR 0xE2, CHR 0x80, CHR 0x81], [CHR 0xE2, CHR 0x80, CHR 0x82], [CHR 0xE2, CHR 0x80, CHR 0x83],
      [CHR 0xE2, CHR 0x80, CHR 0x84], [CHR 0xE2, CHR 0x80, CHR 0x85], [CHR 0xE2, CHR 0x80, CHR 0x86], [CHR 0xE2, CHR 0x80, CHR 0x87],
      [CHR 0xE2, CHR 0x80, CHR 0x88], [CHR 0xE2, CHR 0x80, CHR 0x89], [CHR 0xE2, CHR 0x80, CHR 0x8A], [CHR 0xE2, CHR 0x80, CHR 0xA8],
      [CHR 0xE2, CHR 0x80, CHR 0xA9], [CHR 0xE2, CHR 0x80, CHR 0xAF], [CHR 0xE2, CHR 0x81, CHR 0x9F], [CHR 0xE3, CHR 0x80, CHR 0x80],
      [CHR 0xEF, CHR 0xBB, CHR 0xBF]]"

function trim_start :: "string \<Rightarrow> string" where
  "trim_start s =
     (case find (\<lambda>w. prefix w s) white_sequences of None \<Rightarrow> s | Some w \<Rightarrow> trim_start (drop (length w) s))"
  by pat_completeness auto
termination
proof (relation "measure length")
  fix s w assume "find (\<lambda>w. prefix w s) white_sequences = Some w"
  then have w: "w \<in> set white_sequences" "prefix w s" by (auto simp: find_Some_iff)
  then have "w \<noteq> []" by (auto simp: white_sequences_def)
  with w(2) show "(drop (length w) s, s) \<in> measure length" by (auto simp: prefix_def)
qed simp

function trim_end :: "string \<Rightarrow> string" where
  "trim_end s =
     (case find (\<lambda>w. suffix w s) white_sequences of None \<Rightarrow> s | Some w \<Rightarrow> trim_end (take (length s - length w) s))"
  by pat_completeness auto
termination
proof (relation "measure length")
  fix s w assume "find (\<lambda>w. suffix w s) white_sequences = Some w"
  then have w: "w \<in> set white_sequences" "suffix w s" by (auto simp: find_Some_iff)
  then have "w \<noteq> []" by (auto simp: white_sequences_def)
  with w(2) show "(take (length s - length w) s, s) \<in> measure length" by (auto simp: suffix_def)
qed simp

declare trim_start.simps [simp del] trim_end.simps [simp del]

definition trim :: "string \<Rightarrow> string" where
  "trim s = trim_end (trim_start s)"

definition option_text :: "cli_values \<Rightarrow> string \<Rightarrow> string option" where
  "option_text values key = (case map_of values key of None \<Rightarrow> None | Some v \<Rightarrow> v)"

definition parseCommand :: "string list \<Rightarrow> (string \<times> cli_values) result" where
  "parseCommand rawArgs =
     (let tokens = arg_tokens (inlineStringOptionValues rawArgs); values = token_options tokens;
          command = join_words (token_positionals tokens) in
      bindR (guardR (list_all token_ok tokens) invalidArguments) (\<lambda>_.
      bindR (case map_of commandOptions command of
               Some names \<Rightarrow> Inr (Some names)
             | None \<Rightarrow> if command \<in> set inherited_members then Inr None else Inl invalidArguments) (\<lambda>allowed.
      bindR (check_options allowed [] (map fst values)) (\<lambda>_.
      bindR (guardR (case option_text values ''profile'' of None \<Rightarrow> False | Some p \<Rightarrow> trim p \<noteq> []) invalidArguments) (\<lambda>_.
        Inr (command, values))))))"

definition required :: "cli_values \<Rightarrow> string \<Rightarrow> string result" where
  "required values key =
     (case option_text values key of None \<Rightarrow> Inl invalidArguments | Some v \<Rightarrow> if v = [] then Inl invalidArguments else Inr v)"

fun require_all :: "cli_values \<Rightarrow> string list \<Rightarrow> unit result" where
  "require_all values [] = Inr ()"
| "require_all values (k # ks) = bindR (required values k) (\<lambda>_. require_all values ks)"

definition rejectUnexpectedMissing :: "string \<Rightarrow> cli_values \<Rightarrow> unit result" where
  "rejectUnexpectedMissing command values =
     require_all values (case map_of requiredByCommand command of None \<Rightarrow> [] | Some ks \<Rightarrow> ks)"

subsection \<open>The message body and the confirmation\<close>

text \<open>Standard input: whether it is a terminal, the chunks read from it, and the error it ends with, if one.\<close>

record stdin =
  in_tty :: bool
  in_chunks :: "string list"
  in_error :: "exn option"

fun read_chunks :: "nat \<Rightarrow> string \<Rightarrow> string list \<Rightarrow> exn option \<Rightarrow> string result" where
  "read_chunks n acc [] e = (case e of None \<Rightarrow> Inr acc | Some x \<Rightarrow> Inl x)"
| "read_chunks n acc (c # cs) e =
     (if n + length c > MAX_PLAINTEXT_BYTES then Inl (inputFailure ''INVALID_MESSAGE'')
      else read_chunks (n + length c) (acc @ c) cs e)"

definition readStdinBody :: "stdin \<Rightarrow> string result" where
  "readStdinBody i = read_chunks 0 [] (in_chunks i) (in_error i)"

definition resolveSendBody :: "cli_values \<Rightarrow> stdin \<Rightarrow> string result" where
  "resolveSendBody values i =
     (case option_text values ''text'' of
        Some body \<Rightarrow> if body = [] then Inl invalidArguments else Inr body
      | None \<Rightarrow>
          if in_tty i then Inl invalidArguments
          else bindR (readStdinBody i) (\<lambda>body. if body = [] then Inl invalidArguments else Inr body))"

definition to_lower :: "char \<Rightarrow> char" where
  "to_lower c = (let k = (of_char c :: nat) in if 65 \<le> k \<and> k \<le> 90 then char_of (k + 32) else c)"

definition affirmative :: "string \<Rightarrow> bool" where
  "affirmative typed \<longleftrightarrow> map to_lower (trim typed) \<in> {''y'', ''yes''}"

definition answerLimit :: nat where "answerLimit = 16"

definition line_break :: "char \<Rightarrow> bool" where
  "line_break c \<longleftrightarrow> c = CHR 0x0D \<or> c = CHR 0x0A"

text \<open>What the text typed so far and the chunks still to come settle the confirmation to.\<close>

fun readConfirmation :: "string \<Rightarrow> string list \<Rightarrow> bool" where
  "readConfirmation typed [] = (if utf16_units typed > answerLimit then False else affirmative typed)"
| "readConfirmation typed (c # cs) =
     (let a = typed @ c in
      if \<exists>x \<in> set a. line_break x then affirmative (takeWhile (\<lambda>x. \<not> line_break x) a)
      else if utf16_units a > answerLimit then False
      else readConfirmation a cs)"

subsection \<open>The commands\<close>

text \<open>
  What a command runs in: the messengers' environment and relay, what reading the configuration and
  a contact file gives, what \<open>openProfile\<close> answers for an existing and for a new profile, the
  input, and whether the exclusive creation of the output file succeeds.
\<close>

record 'r cli =
  cl_messenger :: "'r messenger"
  cl_parse :: "string \<Rightarrow> url option"
  cl_config_file :: "string result"
  cl_contact_file :: "string \<Rightarrow> string result"
  cl_open :: "unit result"
  cl_initialize :: "json \<Rightarrow> unit result"
  cl_stdin :: stdin
  cl_create_file :: "string \<Rightarrow> string \<Rightarrow> bool"
  cl_uuid :: "nat \<Rightarrow> string"

definition loadConfig :: "'r cli \<Rightarrow> json result" where
  "loadConfig C =
     (case bindR (cl_config_file C) (\<lambda>raw. bindR (of_option (PlainError ''SyntaxError'') (parse_json raw)) (parseClientConfig (cl_parse C))) of
        Inr config \<Rightarrow> Inr config
      | Inl (ConfigurationError m) \<Rightarrow> Inl (ConfigurationError m)
      | Inl _ \<Rightarrow> Inl (inputFailure ''INVALID_CONFIGURATION''))"

text \<open>The \<open>catch\<close> around every opening of a profile or a messenger.\<close>

definition opened :: "'a result \<Rightarrow> 'a result" where
  "opened r =
     (case r of
        Inr x \<Rightarrow> Inr x
      | Inl (ConfigurationError m) \<Rightarrow> Inl (ConfigurationError m)
      | Inl _ \<Rightarrow> Inl persistenceFailure)"

definition openExistingProfile :: "'r cli \<Rightarrow> unit result" where
  "openExistingProfile C = bindR (loadConfig C) (\<lambda>_. opened (cl_open C))"

definition relayFor :: "'r cli \<Rightarrow> json \<Rightarrow> relay_settings result" where
  "relayFor C config =
     (case relay_client (cl_parse C) (str_prop config ''relay_url'') (num_prop config ''request_timeout_ms'') of
        Inr s \<Rightarrow> Inr s
      | Inl _ \<Rightarrow> Inl (inputFailure ''INVALID_CONFIGURATION''))"

definition open_messenger :: "'r cli \<Rightarrow> 'r messenger result" where
  "open_messenger C =
     bindR (loadConfig C) (\<lambda>config.
     opened (bindR (relayFor C config) (\<lambda>s. bindR (cl_open C) (\<lambda>_.
       Inr ((cl_messenger C)\<lparr>ms_settings := s, ms_config := config\<rparr>)))))"

definition readContactFile :: "'r cli \<Rightarrow> string \<Rightarrow> json result" where
  "readContactFile C path =
     (case bindR (cl_contact_file C path) (\<lambda>raw.
           if length raw > 1024 * 1024 then Inl (inputFailure ''INVALID_CONTACT_CARD'')
           else of_option (PlainError ''SyntaxError'') (parse_json raw)) of
        Inr v \<Rightarrow> Inr v
      | Inl (CliFailure c n) \<Rightarrow> Inl (CliFailure c n)
      | Inl _ \<Rightarrow> Inl (inputFailure ''INVALID_CONTACT_CARD''))"

definition init_config :: "string \<Rightarrow> string \<Rightarrow> string \<Rightarrow> json" where
  "init_config i relay_url store_key_env = JObj
     [(''profile_version'', JNum 1), (''profile_id'', JStr i), (''relay_url'', JStr relay_url),
      (''database_path'', JStr ''client.sqlite''), (''store_key_env'', JStr store_key_env),
      (''request_timeout_ms'', JNum 5000), (''poll_batch_size'', JNum 50)]"

definition cmd_init :: "'r cli \<Rightarrow> cli_values \<Rightarrow> ('r, json) run" where
  "cmd_init C values =
     andThen (drawW (cl_uuid C)) (\<lambda>i.
     andThen (lift (bindR (required values ''relay-url'') (\<lambda>u. bindR (required values ''store-key-env'') (\<lambda>k.
        parseClientConfig (cl_parse C) (init_config i u k))))) (\<lambda>config.
     andThen (lift (opened (cl_initialize C config))) (\<lambda>_.
     andThen (profile_summary (ms_env (cl_messenger C)) config) (\<lambda>s.
       ret (JObj s)))))"

definition cmd_contact_export :: "'r cli \<Rightarrow> cli_values \<Rightarrow> ('r, json) run" where
  "cmd_contact_export C values =
     andThen (lift (openExistingProfile C)) (\<lambda>_.
     andThen (exportContact (ms_env (cl_messenger C))) (\<lambda>card.
     andThen (lift (bindR (case required values ''out'' of Inl _ \<Rightarrow> Inl persistenceFailure | Inr p \<Rightarrow> Inr p) (\<lambda>path.
        guardR (cl_create_file C path (stringify card @ [CHR 0x0A])) persistenceFailure))) (\<lambda>_.
       ret (JObj [(''exported'', JBool True)]))))"

text \<open>A local storage failure is not a trust decision about the card.\<close>

fun import_error :: "exn \<Rightarrow> exn" where
  "import_error PersistenceError = persistenceFailure"
| "import_error _ = trustFailure ''INVALID_CONTACT_CARD''"

definition catching :: "(exn \<Rightarrow> exn) \<Rightarrow> ('r, 'a) run \<Rightarrow> ('r, 'a) run" where
  "catching h m w = (case m w of (Inl e, w') \<Rightarrow> (Inl (h e), w') | (Inr x, w') \<Rightarrow> (Inr x, w'))"

definition cmd_contact_import :: "'r cli \<Rightarrow> cli_values \<Rightarrow> ('r, json) run" where
  "cmd_contact_import C values =
     (let E = ms_env (cl_messenger C);
          confirm = (\<lambda>identifiers. Inr (map_of values ''yes'' \<noteq> None \<or> readConfirmation [] (in_chunks (cl_stdin C)))) in
      andThen (lift (bindR (required values ''from'') (readContactFile C))) (\<lambda>card.
      andThen (lift (openExistingProfile C)) (\<lambda>_.
      andThen (catching import_error (importContact E card (Some confirm))) (\<lambda>imported.
        if \<not> imported then raise (trustFailure ''CONTACT_NOT_CONFIRMED'')
        else andThen (requestMailboxRewalk E) (\<lambda>_. ret (JObj [(''trusted'', JBool True)]))))))"

definition publish_json :: "publish_result \<Rightarrow> json" where
  "publish_json p = JObj
     [(''stored'', JBool True), (''bundleId'', JStr (pub_bundleId p)), (''claimable'', JBool (pub_claimable p)),
      (''pool'', JObj [(''target'', JNum (int (pool_target p))), (''claimable'', JNum (int (pool_claimable p))),
         (''minted'', JNum (int (pool_minted p)))])]"

definition cmd_publish :: "'r cli \<Rightarrow> ('r, json) run" where
  "cmd_publish C =
     andThen (lift (open_messenger C)) (\<lambda>M.
     andThen (publish M) (\<lambda>p. ret (publish_json p)))"

text \<open>The shape of a UUID in either case.\<close>

definition message_id_shape :: "string \<Rightarrow> bool" where
  "message_id_shape s \<longleftrightarrow>
     length s = 36 \<and> (\<forall>i < 36. if i \<in> {8, 13, 18, 23} then s ! i = CHR ''-'' else is_hex (s ! i))"

definition delivery_json :: "delivery_receipt \<Rightarrow> bool \<Rightarrow> json" where
  "delivery_json c replaced = JObj
     ([(''messageId'', JStr (rc_messageId c)), (''envelopeId'', JStr (rc_envelopeId c)), (''status'', JStr ''delivered'')]
      @ (if replaced then [(''claimReplaced'', JBool True)] else []))"

definition send_input :: "string \<Rightarrow> string \<Rightarrow> string \<Rightarrow> json" where
  "send_input recipient message text =
     JObj [(''recipientIdentityId'', JStr recipient), (''messageId'', JStr message), (''plaintext'', JStr text)]"

definition cmd_send :: "'r cli \<Rightarrow> cli_values \<Rightarrow> ('r, json) run" where
  "cmd_send C values =
     andThen (case option_text values ''message-id'' of Some m \<Rightarrow> ret m | None \<Rightarrow> drawW (cl_uuid C)) (\<lambda>messageId.
       if \<not> message_id_shape messageId then raise (inputFailure ''INVALID_MESSAGE_ID'')
       else
         andThen (lift (open_messenger C)) (\<lambda>M.
         andThen (lift (bindR (required values ''to'') (\<lambda>recipient. bindR (required values ''text'') (\<lambda>text.
            Inr (send_input recipient messageId text))))) (\<lambda>input.
         andThen (send_message M input) (\<lambda>(c, replaced).
           ret (delivery_json c replaced)))))"

definition poll_json :: "nat \<Rightarrow> bool \<Rightarrow> (string \<times> string) list \<Rightarrow> json" where
  "poll_json n more_left rejections = JObj
     [(''received'', JNum (int n)), (''more'', JBool more_left),
      (''rejected'', JArr (map (\<lambda>(i, c). JObj [(''envelopeId'', JStr i), (''code'', JStr c)]) rejections))]"

definition cmd_poll :: "'r cli \<Rightarrow> ('r, json) run" where
  "cmd_poll C =
     andThen (lift (open_messenger C)) (\<lambda>M.
     andThen (poll M) (\<lambda>(n, more_left, rejections). ret (poll_json n more_left rejections)))"

definition cmd_history :: "'r cli \<Rightarrow> cli_values \<Rightarrow> ('r, json) run" where
  "cmd_history C values =
     andThen (lift (open_messenger C)) (\<lambda>M.
     andThen (lift (required values ''with'')) (\<lambda>contact.
     andThen (inbound_history M contact) (\<lambda>entries.
       ret (JObj [(''entries'', JArr entries)]))))"

definition cmd_doctor :: "'r cli \<Rightarrow> ('r, json) run" where
  "cmd_doctor C =
     andThen (lift (bindR (loadConfig C) (\<lambda>config. bindR (opened (cl_open C)) (\<lambda>_. Inr config)))) (\<lambda>config.
       diagnostics (ms_env (cl_messenger C)) config)"

definition execute :: "'r cli \<Rightarrow> string \<Rightarrow> cli_values \<Rightarrow> ('r, json) run" where
  "execute C command values =
     andThen (lift (required values ''profile'')) (\<lambda>_.
       if command = ''init'' then cmd_init C values
       else if command = ''contact export'' then cmd_contact_export C values
       else if command = ''contact import'' then cmd_contact_import C values
       else if command = ''relay publish'' then cmd_publish C
       else if command = ''send'' then cmd_send C values
       else if command = ''poll'' then cmd_poll C
       else if command = ''history'' then cmd_history C values
       else if command = ''doctor'' then cmd_doctor C
       else raise invalidArguments)"

subsection \<open>The dispatcher and the process result\<close>

datatype route = VersionRoute | HelpRoute | OperatorRoute string "string list" | TuiRoute "string list" | StrictRoute

definition route_of :: "string list \<Rightarrow> route" where
  "route_of args =
     (case args of
        [] \<Rightarrow> HelpRoute
      | a # rest \<Rightarrow>
          if a \<in> {''--version'', ''-v'', ''version''} then VersionRoute
          else if a \<in> {[], ''--help'', ''-h'', ''help''} then HelpRoute
          else if a \<in> {''station'', ''repeater'', ''profile''} then OperatorRoute a rest
          else if a = ''contact'' \<and> (rest = [] \<or> hd rest \<notin> {''export'', ''import''}) then OperatorRoute a rest
          else if a \<in> {''radio'', ''tui''} then TuiRoute rest
          else StrictRoute)"

definition with_text :: "string \<Rightarrow> cli_values \<Rightarrow> cli_values" where
  "with_text body values = (''text'', Some body) # filter (\<lambda>(k, _). k \<noteq> ''text'') values"

definition strict_run :: "'r cli \<Rightarrow> string list \<Rightarrow> ('r, json) run" where
  "strict_run C rawArgs =
     andThen (lift (parseCommand rawArgs)) (\<lambda>(command, values).
     andThen (lift (rejectUnexpectedMissing command values)) (\<lambda>_.
     andThen (if command = ''send'' then andThen (lift (resolveSendBody values (cl_stdin C))) (\<lambda>b. ret (with_text b values))
              else ret values) (\<lambda>values.
       execute C command values)))"

text \<open>The line written to standard output and the exit code.\<close>

definition strict_main :: "'r cli \<Rightarrow> string list \<Rightarrow> 'r world \<Rightarrow> (string \<times> nat) \<times> 'r world" where
  "strict_main C rawArgs w =
     (case strict_run C rawArgs w of
        (Inr v, w') \<Rightarrow> ((stringify (JObj [(''ok'', JBool True), (''data'', v)]) @ [CHR 0x0A], 0), w')
      | (Inl e, w') \<Rightarrow>
          ((stringify (JObj [(''ok'', JBool False), (''error'', JObj [(''code'', JStr (fst (classify e)))])]) @ [CHR 0x0A],
            snd (classify e)), w'))"

subsection \<open>What is written on a command line is what is read\<close>

text \<open>The arguments that give the options their values.\<close>

fun option_args :: "cli_values \<Rightarrow> string list" where
  "option_args [] = []"
| "option_args ((n, None) # os) = (''--'' @ n) # option_args os"
| "option_args ((n, Some v) # os) = (''--'' @ n) # v # option_args os"

definition declared :: "string \<times> string option \<Rightarrow> bool" where
  "declared p \<longleftrightarrow> map_of cliOptions (fst p) = Some (snd p \<noteq> None) \<and> snd p \<noteq> Some optionSeparator"

lemma declared_name:
  assumes "declared (n, v)"
  shows "n \<noteq> []" "CHR ''='' \<notin> set n" "n \<in> set stringOptions \<longleftrightarrow> v \<noteq> None" "n ! 0 \<noteq> CHR ''=''"
proof -
  from assms have "map_of cliOptions n = Some (v \<noteq> None)" by (simp add: declared_def)
  then have "(n, v \<noteq> None) \<in> set cliOptions" by (rule map_of_SomeD)
  then show "n \<noteq> []" "CHR ''='' \<notin> set n" "n \<in> set stringOptions \<longleftrightarrow> v \<noteq> None" "n ! 0 \<noteq> CHR ''=''"
    by (auto simp: cliOptions_def stringOptions_def)
qed

fun inlined_args :: "cli_values \<Rightarrow> string list" where
  "inlined_args [] = []"
| "inlined_args ((n, None) # os) = (''--'' @ n) # inlined_args os"
| "inlined_args ((n, Some v) # os) = (''--'' @ n @ ''='' @ v) # inlined_args os"

lemma inline_options:
  "list_all declared os \<Longrightarrow> inlineStringOptionValues (option_args os) = inlined_args os"
proof (induction os rule: option_args.induct)
  case (2 n os)
  with declared_name [of n None] show ?case by (auto simp: is_long_def optionSeparator_def)
next
  case (3 n v os)
  with declared_name [of n "Some v"] show ?case by (auto simp: is_long_def optionSeparator_def declared_def)
qed simp

lemma inline_value_split:
  assumes "n \<noteq> []" "CHR ''='' \<notin> set n"
  shows "inline_value (''--'' @ n @ ''='' @ v) = Some (n, v)" "inline_value (''--'' @ n) = None"
proof -
  have t: "takeWhile (\<lambda>c. c \<noteq> CHR ''='') (''--'' @ n @ ''='' @ v) = ''--'' @ n"
    using assms(2) by (subst append_assoc [symmetric], subst takeWhile_append2) auto
  obtain c cs where n: "n = c # cs" using assms(1) by (cases n) auto
  show "inline_value (''--'' @ n @ ''='' @ v) = Some (n, v)"
    unfolding inline_value_def t by (simp add: n Let_def)
  show "inline_value (''--'' @ n) = None"
    using assms(2) by (auto simp: inline_value_def dest: in_set_dropD)
qed

lemma token_inline:
  assumes "n \<noteq> []" "CHR ''='' \<notin> set n"
  shows "arg_tokens ((''--'' @ n @ ''='' @ v) # rest) = OptionToken n (Some v) True # arg_tokens rest"
proof -
  have "''--'' @ n @ ''='' @ v \<noteq> optionSeparator" "is_long (''--'' @ n @ ''='' @ v)"
    using assms(1) by (auto simp: optionSeparator_def is_long_def)
  then show ?thesis by (simp only: arg_tokens.simps inline_value_split [OF assms] if_True if_False option.case prod.case)
qed

lemma token_flag:
  assumes "n \<noteq> []" "CHR ''='' \<notin> set n" "n \<notin> set stringOptions"
  shows "arg_tokens ((''--'' @ n) # rest) = OptionToken n None False # arg_tokens rest"
proof -
  have "''--'' @ n \<noteq> optionSeparator" "is_long (''--'' @ n)" "drop 2 (''--'' @ n) = n"
    using assms(1) by (auto simp: optionSeparator_def is_long_def)
  with assms(3) show ?thesis
    by (cases rest) (simp_all only: arg_tokens.simps inline_value_split [OF assms(1,2)] if_True if_False option.case list.case)
qed

definition option_token :: "string \<times> string option \<Rightarrow> arg_token" where
  "option_token p = OptionToken (fst p) (snd p) (snd p \<noteq> None)"

lemma tokens_of_options:
  "list_all declared os \<Longrightarrow>
     arg_tokens (inlined_args os) = map option_token os"
proof (induction os rule: inlined_args.induct)
  case (2 n os)
  with declared_name [of n None] show ?case
    using token_flag [of n "inlined_args os"] by (simp add: option_token_def del: arg_tokens.simps)
next
  case (3 n v os)
  with declared_name [of n "Some v"] show ?case
    using token_inline [of n v "inlined_args os"] by (simp add: option_token_def del: arg_tokens.simps)
qed simp

lemma option_tokens_ok: "list_all declared os \<Longrightarrow> list_all token_ok (map option_token os)"
proof (induction os)
  case (Cons p os)
  obtain n v where p: "p = (n, v)" by (cases p)
  with Cons show ?case by (cases v) (auto simp: declared_def option_token_def)
qed simp

lemma option_tokens_values:
  "token_options (map option_token os) = os"
  "token_positionals (map option_token os) = []"
  by (induction os) (auto simp: option_token_def)

text \<open>The words of a command stand before its options.\<close>

definition command_words :: "(string \<times> string list) list" where
  "command_words =
     [(''init'', [''init'']), (''contact export'', [''contact'', ''export'']), (''contact import'', [''contact'', ''import'']),
      (''relay publish'', [''relay'', ''publish'']), (''send'', [''send'']), (''poll'', [''poll'']),
      (''history'', [''history'']), (''doctor'', [''doctor''])]"

definition plain_word :: "string \<Rightarrow> bool" where
  "plain_word w \<longleftrightarrow> \<not> prefix ''-'' w"

lemma plain_word_args:
  assumes "list_all plain_word ws"
  shows "inlineStringOptionValues (ws @ rest) = ws @ inlineStringOptionValues rest"
    "arg_tokens (ws @ rest) = map PositionalToken ws @ arg_tokens rest"
proof -
  have w: "w \<noteq> optionSeparator" "\<not> is_long w" "\<not> (prefix ''-'' w \<and> 2 \<le> length w)" if "plain_word w" for w
    using that by (auto simp: plain_word_def optionSeparator_def is_long_def prefix_def)
  show "inlineStringOptionValues (ws @ rest) = ws @ inlineStringOptionValues rest"
    "arg_tokens (ws @ rest) = map PositionalToken ws @ arg_tokens rest"
    using assms w by (induction ws) auto
qed

lemma positional_tokens:
  "list_all token_ok (map PositionalToken ws)" "token_options (map PositionalToken ws @ ts) = token_options ts"
  "token_positionals (map PositionalToken ws @ ts) = ws @ token_positionals ts"
  by (induction ws) auto

lemma check_options_ok:
  "distinct (rev seen @ ns) \<Longrightarrow> set ns \<subseteq> set names \<Longrightarrow> check_options (Some names) seen ns = Inr ()"
  by (induction ns arbitrary: seen) auto

lemma command_words_ok:
  assumes "map_of command_words command = Some ws"
  shows "list_all plain_word ws" "join_words ws = command" "map_of commandOptions command \<noteq> None"
  using assms by (auto simp: command_words_def commandOptions_def plain_word_def split: if_splits)

lemma command_line_parses:
  assumes "map_of command_words command = Some ws" "map_of commandOptions command = Some names"
    "list_all declared options" "distinct (map fst options)" "fst ` set options \<subseteq> set names"
    "map_of options ''profile'' = Some (Some p)" "trim p \<noteq> []"
  shows "parseCommand (ws @ option_args options) = Inr (command, options)"
proof -
  note w = command_words_ok [OF assms(1)]
  have t: "arg_tokens (inlineStringOptionValues (ws @ option_args options))
      = map PositionalToken ws @ map option_token options"
    using inline_options [OF assms(3)] tokens_of_options [OF assms(3)] plain_word_args [OF w(1)] by simp
  have c: "check_options (Some names) [] (map fst options) = Inr ()"
    using assms(4,5) by (intro check_options_ok) auto
  show ?thesis
    unfolding parseCommand_def t Let_def
    using option_tokens_ok [OF assms(3)] c assms(2,6,7) w(2)
    by (simp add: positional_tokens option_tokens_values option_text_def)
qed

text \<open>
  C30. Every value can be addressed: a command line that names a command, then each of its options
  once in any order, gives the parser back exactly those options and values - whatever the values
  are, a leading dash, an equals sign or a flag's own name included - the separator \<open>--\<close> alone excepted
  and a blank profile refused.
\<close>

theorem command_line_round_trip:
  assumes "map_of command_words command = Some ws" "map_of commandOptions command = Some names"
    "list_all declared options" "distinct (map fst options)" "fst ` set options \<subseteq> set names"
    "map_of options ''profile'' = Some (Some p)" "trim p \<noteq> []"
  shows "parseCommand (ws @ option_args options) = Inr (command, options)"
  using assms by (rule command_line_parses)

theorem command_line_round_trip_witness:
  "parseCommand [''send'', ''--profile'', ''/p'', ''--to'', ''-abc'', ''--text'', ''--json'']
     = Inr (''send'', [(''profile'', Some ''/p''), (''to'', Some ''-abc''), (''text'', Some ''--json'')])"
proof -
  have "trim ''/p'' \<noteq> []" by code_simp
  then show ?thesis
    using command_line_round_trip [of "''send''" "[''send'']" "[''profile'', ''json'', ''to'', ''text'', ''message-id'']"
        "[(''profile'', Some ''/p''), (''to'', Some ''-abc''), (''text'', Some ''--json'')]" "''/p''"]
    by (simp add: command_words_def commandOptions_def declared_def cliOptions_def optionSeparator_def)
qed
subsection \<open>Importing a contact asks for a re-walk\<close>

lemma importContact_pins:
  assumes "importContact E sheet (Some confirm) w = (Inr True, w')"
  shows "\<exists>identifiers. rec_get (contact_key (str_prop identifiers ''identity_id'')) (w_records w') = Some (encode identifiers)
    \<and> confirm identifiers = Inr True"
  using assms
  by (auto simp: importContact_def Let_def andThen_Inr_iff transact_Inr onRecords_iff split: if_splits prod.splits)

lemma leaves_approve_rewalk [frame_rules]: "leaves (\<lambda>k. k = mailboxRewalkKey) (approveRemote L a key)"
  by (rule leaves_mono [OF leaves_approve]) (simp add: mailboxRewalkKey_def cli_key_def)

lemma rleaves_if [frame_rules]: "rleaves K m \<Longrightarrow> rleaves K n \<Longrightarrow> rleaves K (if b then m else n)"
  by simp

lemma importContact_rewalk: "rleaves (\<lambda>k. k = mailboxRewalkKey) (importContact E sheet confirm)"
  unfolding importContact_def Let_def case_prod_unfold
  by (intro frame_rules leaves_set; simp add: mailboxRewalkKey_def contact_key_def contact_prefix_def)

text \<open>\<open>offline m\<close>: \<open>m\<close> never asks the relay.\<close>

definition offline :: "('r, 'a) run \<Rightarrow> bool" where
  "offline m \<longleftrightarrow> (\<forall>w. w_relay (snd (m w)) = w_relay w)"

named_theorems offline_rules \<open>operations that never ask the relay\<close>

lemma offline_basic [offline_rules]: "offline (ret x)" "offline (raise e)" "offline (lift r)" "offline (drawW f)" "offline (transact E p)"
  by (simp_all add: offline_def drawW_def)

lemma offline_andThen [offline_rules]: "offline m \<Longrightarrow> (\<And>x. offline (f x)) \<Longrightarrow> offline (andThen m f)"
  unfolding offline_def andThen_def by (auto split: prod.splits sum.splits) (metis snd_conv)+

lemma offline_if [offline_rules]: "offline m \<Longrightarrow> offline n \<Longrightarrow> offline (if b then m else n)"
  by simp

lemma offline_catching [offline_rules]: "offline m \<Longrightarrow> offline (catching h m)"
  by (auto simp: offline_def catching_def split: prod.splits sum.splits) (metis snd_conv)+

lemma offline_import [offline_rules]: "offline (importContact E sheet confirm)" "offline (requestMailboxRewalk E)"
  unfolding importContact_def requestMailboxRewalk_def Let_def case_prod_unfold by (intro offline_rules)+

lemma request_rewalk:
  assumes "requestMailboxRewalk E w = (r, w')"
  shows "case r of Inr _ \<Rightarrow> rec_get mailboxRewalkKey (w_records w') = Some ''0''
      \<and> (\<forall>k. k \<noteq> mailboxRewalkKey \<longrightarrow> rec_get k (w_records w') = rec_get k (w_records w))
    | Inl _ \<Rightarrow> w_records w' = w_records w"
  using assms by (cases r) (auto simp: requestMailboxRewalk_def transact_Inr onRecords_iff dest: transact_Inl)

lemma pending_at_head:
  assumes "rec_get mailboxRewalkKey (w_records w) = Some ''0''"
  shows "fst (pendingMailboxRewalk E w) \<in> {Inr (Some ''0''), Inl PersistenceError}"
proof -
  have "mailboxRewalkPosition ''0''" by (simp add: mailboxRewalkPosition_def is_digit_def)
  with assms show ?thesis
    by (auto simp: pendingMailboxRewalk_def transact_def andThen_def onRecords_def)
qed

text \<open>The two ways an import ends: before the card is looked at, or with what the profile's import answered.\<close>

definition asks_operator :: "'r cli \<Rightarrow> cli_values \<Rightarrow> json \<Rightarrow> bool result" where
  "asks_operator C values identifiers = Inr (map_of values ''yes'' \<noteq> None \<or> readConfirmation [] (in_chunks (cl_stdin C)))"

lemma contact_import_cases:
  assumes run: "cmd_contact_import C values w = (r, w')"
  obtains "\<exists>e. r = Inl e" "w' = w"
  | sheet i w1 where "importContact (ms_env (cl_messenger C)) sheet (Some (asks_operator C values)) w = (i, w1)"
      "(case i of Inl e \<Rightarrow> (Inl (import_error e), w1)
        | Inr False \<Rightarrow> (Inl (trustFailure ''CONTACT_NOT_CONFIRMED''), w1)
        | Inr True \<Rightarrow> andThen (requestMailboxRewalk (ms_env (cl_messenger C))) (\<lambda>_. ret (JObj [(''trusted'', JBool True)])) w1) = (r, w')"
proof -
  have confirm: "asks_operator C values = (\<lambda>identifiers. Inr (map_of values ''yes'' \<noteq> None \<or> readConfirmation [] (in_chunks (cl_stdin C))))"
    by (simp add: asks_operator_def fun_eq_iff)
  show thesis
  proof (cases "bindR (required values ''from'') (readContactFile C)")
    case (Inl e)
    from run have "r = Inl e \<and> w' = w" by (auto simp: cmd_contact_import_def Let_def andThen_Inl Inl)
    with that(1) show thesis by blast
  next
    case (Inr sheet)
    note read = this
    show thesis
    proof (cases "openExistingProfile C")
      case (Inl e)
      from run have "r = Inl e \<and> w' = w"
        by (auto simp: cmd_contact_import_def Let_def andThen_Inl andThen_Inr read Inl)
      with that(1) show thesis by blast
    next
      case (Inr u)
      obtain i w1 where i: "importContact (ms_env (cl_messenger C)) sheet (Some (asks_operator C values)) w = (i, w1)" by fastforce
      have "(case i of Inl e \<Rightarrow> (Inl (import_error e), w1)
        | Inr False \<Rightarrow> (Inl (trustFailure ''CONTACT_NOT_CONFIRMED''), w1)
        | Inr True \<Rightarrow> andThen (requestMailboxRewalk (ms_env (cl_messenger C))) (\<lambda>_. ret (JObj [(''trusted'', JBool True)])) w1) = (r, w')"
        using run read Inr i [unfolded confirm]
        by (auto simp: cmd_contact_import_def Let_def andThen_def catching_def split: sum.splits bool.splits)
      with i that(2) show thesis by blast
    qed
  qed
qed

text \<open>
  Importing a contact is offline and schedules the re-walk: the command never asks the relay;
  when it reports success the confirmed identifiers are pinned under their identity, the recorded
  position is the head of the mailbox, and the next poll reads it there (or the store fails); when it
  reports a failure the recorded position is what it was.
\<close>

theorem contact_import_schedules_rewalk:
  "case cmd_contact_import C values w of (r, w') \<Rightarrow>
     w_relay w' = w_relay w
     \<and> (case r of
          Inr _ \<Rightarrow> (\<exists>identifiers. rec_get (contact_key (str_prop identifiers ''identity_id'')) (w_records w') = Some (encode identifiers))
            \<and> rec_get mailboxRewalkKey (w_records w') = Some ''0''
            \<and> fst (pendingMailboxRewalk (ms_env (cl_messenger C)) w') \<in> {Inr (Some ''0''), Inl PersistenceError}
        | Inl _ \<Rightarrow> rec_get mailboxRewalkKey (w_records w') = rec_get mailboxRewalkKey (w_records w))"
proof -
  let ?E = "ms_env (cl_messenger C)"
  obtain r w' where run: "cmd_contact_import C values w = (r, w')" by fastforce
  have off: "offline (cmd_contact_import C values)"
    unfolding cmd_contact_import_def Let_def by (intro offline_rules)
  then have relay: "w_relay w' = w_relay w" using run unfolding offline_def by (metis snd_conv)
  from run show ?thesis
  proof (cases rule: contact_import_cases)
    case 1
    with run relay show ?thesis by auto
  next
    case (2 sheet i w1)
    have same: "rec_get mailboxRewalkKey (w_records w1) = rec_get mailboxRewalkKey (w_records w)"
      by (rule rleaves_result [OF importContact_rewalk 2(1)]) simp
    show ?thesis
    proof (cases "i = Inr True")
      case False
      with 2(2) run relay same show ?thesis by (auto split: sum.splits bool.splits)
    next
      case True
      obtain q w2 where q: "requestMailboxRewalk ?E w1 = (q, w2)" by fastforce
      from importContact_pins [of ?E sheet "asks_operator C values" w w1] 2(1) True obtain identifiers where
        p: "rec_get (contact_key (str_prop identifiers ''identity_id'')) (w_records w1) = Some (encode identifiers)" by blast
      have ne: "contact_key (str_prop identifiers ''identity_id'') \<noteq> mailboxRewalkKey"
        by (simp add: contact_key_def contact_prefix_def mailboxRewalkKey_def)
      show ?thesis
      proof (cases q)
        case (Inl e)
        with 2(2) True q request_rewalk [OF q] run relay same show ?thesis by (auto simp: andThen_Inl)
      next
        case (Inr u)
        with 2(2) True q have "r = Inr (JObj [(''trusted'', JBool True)])" "w' = w2" by (auto simp: andThen_Inr)
        moreover have "rec_get (contact_key (str_prop identifiers ''identity_id'')) (w_records w2) = Some (encode identifiers)"
          "rec_get mailboxRewalkKey (w_records w2) = Some ''0''"
          using request_rewalk [OF q] Inr p ne by auto
        ultimately show ?thesis using run relay pending_at_head [of w2 ?E] by auto
      qed
    qed
  qed
qed

subsection \<open>Lines between processes\<close>

lemma trim_braced: "trim (CHR ''{'' # s @ ''}'') = CHR ''{'' # s @ ''}''"
proof -
  have f: "find (\<lambda>w. prefix w (CHR ''{'' # s @ ''}'')) white_sequences = None"
    by (simp add: white_sequences_def)
  have "w \<noteq> [] \<and> last w \<noteq> CHR ''}''" if "w \<in> set white_sequences" for w
    using that by (auto simp: white_sequences_def)
  then have "\<not> suffix w ((CHR ''{'' # s) @ [CHR ''}''])" if "w \<in> set white_sequences" for w
    using that by (metis append_butlast_last_id snoc_suffix_snoc)
  then have "find (\<lambda>w. suffix w (CHR ''{'' # s @ ''}'')) white_sequences = None"
    by (simp add: find_None_iff)
  with f show ?thesis by (simp add: trim_def trim_start.simps trim_end.simps)
qed

lemma trim_line: "trim (CHR ''{'' # s @ ''}'' @ [CHR 0x0A]) = CHR ''{'' # s @ ''}''"
proof -
  have f: "find (\<lambda>w. prefix w (CHR ''{'' # s @ ''}'' @ [CHR 0x0A])) white_sequences = None"
    by (simp add: white_sequences_def)
  have one: "suffix [c] (xs @ [d]) \<longleftrightarrow> c = d" for c d and xs :: string by (auto simp: suffix_def)
  have "find (\<lambda>w. suffix w ((CHR ''{'' # s @ ''}'') @ [CHR 0x0A])) white_sequences = Some [CHR 0x0A]"
    unfolding white_sequences_def find.simps one by simp
  then have "trim_end ((CHR ''{'' # s @ ''}'') @ [CHR 0x0A]) = trim_end (CHR ''{'' # s @ ''}'')"
    by (subst trim_end.simps) simp
  moreover have "trim_end (CHR ''{'' # s @ ''}'') = CHR ''{'' # s @ ''}''"
    using trim_braced [of s] by (simp add: trim_def trim_start.simps white_sequences_def)
  ultimately show ?thesis using f by (simp add: trim_def trim_start.simps)
qed

text \<open>A short answer line is judged alike however its bytes arrive.\<close>

lemma confirmation_heard:
  assumes "list_all (\<lambda>c. \<not> line_break c) t" "length t \<le> 8"
  shows "typed @ concat pieces = t @ [CHR 0x0A] \<Longrightarrow> list_all (\<lambda>c. \<not> line_break c) typed
    \<Longrightarrow> readConfirmation typed pieces = affirmative t"
proof (induction pieces arbitrary: typed)
  case Nil
  then show ?case by (auto simp: line_break_def)
next
  case (Cons c cs)
  have run: "readConfirmation typed (c # cs) =
    (if \<exists>x \<in> set (typed @ c). line_break x then affirmative (takeWhile (\<lambda>x. \<not> line_break x) (typed @ c))
     else if utf16_units (typed @ c) > answerLimit then False else readConfirmation (typed @ c) cs)"
    by (simp only: readConfirmation.simps Let_def)
  have p: "(typed @ c) @ concat cs = t @ [CHR 0x0A]" using Cons.prems(1) by simp
  show ?case
  proof (cases "concat cs = []")
    case True
    with p have a: "typed @ c = t @ [CHR 0x0A]" by simp
    have "takeWhile (\<lambda>x. \<not> line_break x) (t @ [CHR 0x0A]) = t"
      using assms(1) by (simp add: list_all_iff line_break_def takeWhile_tail)
    with run a show ?thesis by (simp add: line_break_def)
  next
    case False
    have e: "\<exists>d. concat cs = d @ [CHR 0x0A]"
      using p False by (metis append_butlast_last_id last_appendR last_snoc)
    then obtain d where d: "typed @ c @ d = t" using p by auto
    then have "list_all (\<lambda>x. \<not> line_break x) (typed @ c)" using assms(1) by (auto simp: list_all_iff)
    moreover have "utf16_units (typed @ c) \<le> answerLimit"
      using utf16_units_le [of "typed @ c"] d assms(2) by (auto simp: answerLimit_def)
    ultimately show ?thesis using run Cons.IH [OF p] by (auto simp: list_all_iff)
  qed
qed

subsection \<open>A command named like an inherited member\<close>

text \<open>Such a command with an option fails as a defect of the store would, not as the wrong command it is.\<close>

lemma inherited_command_misreported:
  "parseCommand [''constructor'', ''--profile'', ''p''] = Inl (PlainError ''TypeError'')"
  "classify (PlainError ''TypeError'') = (''PERSISTENCE_FAILURE'', 5)"
  "parseCommand [''other'', ''--profile'', ''p''] = Inl invalidArguments"
  by code_simp+

end
