(* ===== verification/Display.thy ===== *)
theory Display
  imports Inbound
begin

text \<open>
  The display primitives of the operator console, \<open>apps/cli/src/tui/text.ts\<close> and \<open>pane-fit.ts\<close>:
  width in code points, the filter everything the console paints goes through, the fixed rendering
  of an instant, and the layout of one pane's head, list and tail into a number of rows.
\<close>

subsection \<open>Code points\<close>

text \<open>\<open>[...text]\<close>: the code points of a text, each as the bytes that encode it.\<close>

function codePoints :: "string \<Rightarrow> string list" where
  "codePoints [] = []"
| "codePoints (c # cs) = (c # takeWhile continuation cs) # codePoints (dropWhile continuation cs)"
  by pat_completeness auto
termination by (relation "measure length") (auto simp: le_imp_less_Suc length_dropWhile_le)

text \<open>\<open>codePointAt(0)\<close>; bytes that encode no code point have none.\<close>

definition low6 :: "char \<Rightarrow> nat" where
  "low6 c = of_char c - 128"

fun codePointAt :: "string \<Rightarrow> nat option" where
  "codePointAt [a] = (if (of_char a :: nat) < 128 then Some (of_char a) else None)"
| "codePointAt [a, b] =
     (let k = (of_char a :: nat) in if 192 \<le> k \<and> k < 224 then Some ((k - 192) * 64 + low6 b) else None)"
| "codePointAt [a, b, c] =
     (let k = (of_char a :: nat) in
      if 224 \<le> k \<and> k < 240 then Some (((k - 224) * 64 + low6 b) * 64 + low6 c) else None)"
| "codePointAt [a, b, c, d] =
     (let k = (of_char a :: nat) in
      if 240 \<le> k \<and> k < 248 then Some ((((k - 240) * 64 + low6 b) * 64 + low6 c) * 64 + low6 d) else None)"
| "codePointAt _ = None"

definition columns :: "string \<Rightarrow> nat" where
  "columns text = length (codePoints text)"

definition utf8Bytes :: "string \<Rightarrow> nat" where
  "utf8Bytes text = length text"

definition clipLine :: "string \<Rightarrow> int \<Rightarrow> string" where
  "clipLine text width =
     (let limit = nat width; points = codePoints text in
      if length points \<le> limit then text else concat (take limit points))"

definition padOrClip :: "string \<Rightarrow> int \<Rightarrow> string" where
  "padOrClip text width =
     (let limit = nat width; points = codePoints text in
      if length points \<ge> limit then concat (take limit points)
      else text @ replicate (limit - length points) CHR '' '')"

definition labelled :: "string \<Rightarrow> string \<Rightarrow> string" where
  "labelled label val = padOrClip label 16 @ val"

definition steersTheDisplay :: "string \<Rightarrow> bool" where
  "steersTheDisplay point =
     (let code = (case codePointAt point of None \<Rightarrow> 0 | Some k \<Rightarrow> k) in
      code \<le> 31 \<or> code = 127 \<or> (128 \<le> code \<and> code \<le> 159)
      \<or> code = 0x200E \<or> code = 0x200F
      \<or> (0x202A \<le> code \<and> code \<le> 0x202E)
      \<or> (0x2066 \<le> code \<and> code \<le> 0x2069)
      \<or> code = 0x2028 \<or> code = 0x2029 \<or> code = 0xFEFF)"

definition paintable :: "string \<Rightarrow> string" where
  "paintable text = concat (filter (\<lambda>p. \<not> steersTheDisplay p) (codePoints text))"

subsection \<open>Instants\<close>

text \<open>\<open>new Date(ms).toISOString()\<close> on a time value a date can hold, by the civil calendar.\<close>

definition civil_date :: "int \<Rightarrow> int \<times> int \<times> int" where
  "civil_date days =
     (let z = days + 719468; era = z div 146097; doe = z mod 146097;
          yoe = (doe - doe div 1460 + doe div 36524 - doe div 146096) div 365;
          doy = doe - (365 * yoe + yoe div 4 - yoe div 100);
          mp = (5 * doy + 2) div 153; d = doy - (153 * mp + 2) div 5 + 1;
          m = (if mp < 10 then mp + 3 else mp - 9)
      in (yoe + era * 400 + (if m \<le> 2 then 1 else 0), m, d))"

definition padded :: "nat \<Rightarrow> int \<Rightarrow> string" where
  "padded n i = padStart n (CHR ''0'') (show_int i)"

definition iso_year :: "int \<Rightarrow> string" where
  "iso_year y = (if 0 \<le> y \<and> y \<le> 9999 then padded 4 y else (if y < 0 then ''-'' else ''+'') @ padded 6 (abs y))"

definition toISOString :: "int \<Rightarrow> string" where
  "toISOString ms =
     (let (y, m, d) = civil_date (ms div 86400000); t = ms mod 86400000 in
      iso_year y @ ''-'' @ padded 2 m @ ''-'' @ padded 2 d @ ''T'' @ padded 2 (t div 3600000) @ '':''
      @ padded 2 (t div 60000 mod 60) @ '':'' @ padded 2 (t div 1000 mod 60) @ ''.'' @ padded 3 (t mod 1000) @ ''Z'')"

definition formatInstant :: "int option \<Rightarrow> string" where
  "formatInstant atMs =
     (case atMs of None \<Rightarrow> ''never''
      | Some ms \<Rightarrow> map (\<lambda>c. if c = CHR ''T'' then CHR '' '' else c) (take 19 (toISOString ms)) @ ''Z'')"

subsection \<open>One pane\<close>

datatype keep_end = KeepHead | KeepTail

text \<open>An item of a list: one line, or all the lines it occupies.\<close>

datatype pane_row = LineRow string | BlockRow "string list"

fun rowLines :: "pane_row \<Rightarrow> string list" where
  "rowLines (LineRow s) = [s]"
| "rowLines (BlockRow ss) = ss"

definition ellipsis :: string where
  "ellipsis = [CHR 0xE2, CHR 0x80, CHR 0xA6]"

definition truncationMarker :: "nat \<Rightarrow> string" where
  "truncationMarker hidden = ellipsis @ '' '' @ show_nat hidden @ '' more not shown''"

fun keep_loop :: "int \<Rightarrow> pane_row list \<Rightarrow> int \<Rightarrow> pane_row list \<Rightarrow> pane_row list \<times> int" where
  "keep_loop budget kept used [] = (kept, used)"
| "keep_loop budget kept used (row # rows) =
     (let height = int (length (rowLines row)) in
      if kept \<noteq> [] \<and> used + height > budget then (kept, used)
      else if used + height \<ge> budget then (kept @ [row], used + height)
      else keep_loop budget (kept @ [row]) (used + height) rows)"

definition keepItems :: "pane_row list \<Rightarrow> keep_end \<Rightarrow> int \<Rightarrow> int \<Rightarrow> pane_row list \<times> int" where
  "keepItems rows keep room budget =
     (if room \<le> 0 then ([], 0)
      else (let (kept, used) = keep_loop budget [] 0 (if keep = KeepTail then rev rows else rows)
            in (if keep = KeepTail then rev kept else kept, used)))"

text \<open>The limit \<open>None\<close> is \<open>Infinity\<close>.\<close>

definition fittedLines :: "string list \<Rightarrow> pane_row list \<Rightarrow> string list \<Rightarrow> keep_end \<Rightarrow> int option \<Rightarrow> string list" where
  "fittedLines head rows tail keep limit =
     (let all = head @ concat (map rowLines rows) @ tail in
      case limit of
        None \<Rightarrow> all
      | Some l \<Rightarrow>
          let cap = max 0 l in
          if int (length all) \<le> cap then all
          else if rows = [] then take (nat cap) all
          else
            let room = max 0 (cap - 1); wanted = int (length head) + int (length tail);
                (kept, used) = keepItems rows keep room (room - wanted);
                fixed = max 0 (min wanted (room - used));
                headRoom = min (int (length head)) fixed; tailRoom = max 0 (fixed - headRoom)
            in take (nat cap)
                 (take (nat headRoom) head @ concat (map rowLines kept)
                  @ [truncationMarker (length rows - length kept)]
                  @ drop (length tail - nat tailRoom) tail))"

definition fitPane :: "string list \<Rightarrow> pane_row list \<Rightarrow> string list \<Rightarrow> keep_end \<Rightarrow> int option \<Rightarrow> int \<Rightarrow> string list" where
  "fitPane head rows tail keep limit width = map (\<lambda>line. clipLine line width) (fittedLines head rows tail keep limit)"

subsection \<open>Width in code points\<close>

definition starts :: "string \<Rightarrow> bool" where
  "starts s \<longleftrightarrow> (case s of [] \<Rightarrow> True | c # cs \<Rightarrow> \<not> continuation c)"

text \<open>The cells of a line: each a byte and its continuations, none but the first a continuation itself.\<close>

definition cell :: "string \<Rightarrow> bool" where
  "cell p \<longleftrightarrow> (case p of [] \<Rightarrow> False | c # ks \<Rightarrow> list_all continuation ks)"

definition cells :: "string list \<Rightarrow> bool" where
  "cells ps \<longleftrightarrow> list_all cell ps \<and> list_all starts (tl ps)"

lemma starts_append: "starts (a @ b) \<longleftrightarrow> (if a = [] then starts b else starts a)"
  by (cases a) (auto simp: starts_def)

lemma dropWhile_starts: "starts (dropWhile continuation cs)"
  by (induction cs) (auto simp: starts_def)

lemma codePoints_heads: "starts s \<Longrightarrow> list_all starts (codePoints s)"
proof (induction s rule: codePoints.induct)
  case (2 c cs)
  then show ?case by (simp add: dropWhile_starts) (simp add: starts_def)
qed simp

lemma codePoints_cells: "cells (codePoints s)"
proof -
  have "list_all cell (codePoints s)"
    by (induction s rule: codePoints.induct) (auto simp: cell_def list_all_iff dest: set_takeWhileD)
  moreover have "list_all starts (tl (codePoints s))"
    by (cases s) (simp_all add: codePoints_heads dropWhile_starts)
  ultimately show ?thesis by (simp add: cells_def)
qed

lemma concat_codePoints [simp]: "concat (codePoints s) = s"
  by (induction s rule: codePoints.induct) auto

lemma concat_starts: "list_all cell ps \<Longrightarrow> list_all starts ps \<Longrightarrow> starts (concat ps)"
  by (cases ps) (auto simp: starts_append starts_def cell_def split: list.splits)

lemma codePoints_concat: "cells ps \<Longrightarrow> codePoints (concat ps) = ps"
proof (induction ps)
  case (Cons p ps)
  then have c: "cell p" "list_all cell ps" "list_all starts ps" by (simp_all add: cells_def)
  then obtain a ks where p: "p = a # ks" "list_all continuation ks" by (auto simp: cell_def split: list.splits)
  have s: "starts (concat ps)" using c by (simp add: concat_starts)
  have "takeWhile continuation (ks @ r) = ks \<and> dropWhile continuation (ks @ r) = r" if "starts r" for r
    using p(2) that by (cases r) (auto simp: starts_def list_all_iff)
  from this [OF s] have "codePoints (concat (p # ps)) = p # codePoints (concat ps)" by (simp add: p(1))
  moreover have "cells ps" using c by (cases ps) (auto simp: cells_def)
  ultimately show ?case using Cons.IH by simp
qed simp

lemma codePoints_append: "starts b \<Longrightarrow> codePoints (a @ b) = codePoints a @ codePoints b"
proof -
  assume b: "starts b"
  have "cells (codePoints a @ codePoints b)"
    using codePoints_cells [of a] codePoints_cells [of b] codePoints_heads [OF b]
    by (cases "codePoints a") (auto simp: cells_def)
  from codePoints_concat [OF this] show ?thesis by simp
qed

lemma in_tl: "x \<in> set (tl xs) \<Longrightarrow> x \<in> set xs"
  by (cases xs) auto

lemma cells_filter: "cells ps \<Longrightarrow> cells (filter P ps)"
  by (cases ps) (auto simp: cells_def list_all_iff dest: in_tl)

lemma cells_take: "cells ps \<Longrightarrow> cells (take n ps)"
  by (cases ps; cases n) (auto simp: cells_def list_all_iff dest: in_set_takeD)

lemma codePoints_paintable: "codePoints (paintable s) = filter (\<lambda>p. \<not> steersTheDisplay p) (codePoints s)"
  unfolding paintable_def by (intro codePoints_concat cells_filter codePoints_cells)

lemma codePoints_take: "codePoints (concat (take n (codePoints s))) = take n (codePoints s)"
  by (intro codePoints_concat cells_take codePoints_cells)

lemma ascii_starts [simp]: "starts (replicate n CHR '' '')"
  by (cases n) (simp_all add: starts_def continuation_def)

lemma codePoints_spaces [simp]: "codePoints (replicate n CHR '' '') = replicate n '' ''"
  by (induction n) (auto simp: continuation_def starts_def takeWhile_replicate dropWhile_replicate)

lemma columns_padOrClip [simp]: "columns (padOrClip s w) = nat w"
  by (auto simp: columns_def padOrClip_def Let_def codePoints_take codePoints_append)

lemma columns_clipLine: "columns (clipLine s w) \<le> nat w"
  by (auto simp: columns_def clipLine_def Let_def codePoints_take)

subsection \<open>Clean text\<close>

text \<open>A text no code point of which steers the display: what \<open>paintable\<close> leaves.\<close>

definition clean :: "string \<Rightarrow> bool" where
  "clean s \<longleftrightarrow> list_all (\<lambda>p. \<not> steersTheDisplay p) (codePoints s)"

lemma paintable_clean [simp]: "clean (paintable s)"
  by (simp add: clean_def codePoints_paintable list_all_iff)

lemma paintable_id [simp]: "clean s \<Longrightarrow> paintable s = s"
  by (simp add: clean_def paintable_def list_all_iff filter_True)

lemma codePointAt_ascii:
  "(of_char a :: nat) < 128 \<Longrightarrow> codePointAt (a # ks) = (if ks = [] then Some (of_char a) else None)"
  by (cases "a # ks" rule: codePointAt.cases) (simp_all add: Let_def)

lemma codePointAt_continuation: "continuation a \<Longrightarrow> codePointAt (a # ks) = None"
  by (cases "a # ks" rule: codePointAt.cases) (simp_all add: Let_def continuation_def)

lemma continuation_steers: "continuation a \<Longrightarrow> steersTheDisplay (a # ks)"
  by (simp add: steersTheDisplay_def codePointAt_continuation)

lemma control_steers: "(of_char a :: nat) < 32 \<or> (of_char a :: nat) = 127 \<Longrightarrow> steersTheDisplay (a # ks)"
  by (auto simp: steersTheDisplay_def codePointAt_ascii)

lemma clean_starts: "clean s \<Longrightarrow> starts s"
proof (cases s)
  case (Cons c cs)
  assume "clean s"
  then show ?thesis
    using continuation_steers [of c "takeWhile continuation cs"] by (auto simp: Cons clean_def starts_def)
qed (simp add: starts_def)

lemma clean_append [intro]: "clean a \<Longrightarrow> clean b \<Longrightarrow> clean (a @ b)"
  by (simp add: clean_def codePoints_append clean_starts [unfolded clean_def])

lemma clean_Nil [simp]: "clean []"
  by (simp add: clean_def)

text \<open>No byte of a clean text starts or is a control sequence.\<close>

lemma clean_bytes:
  assumes "clean s" "c \<in> set s"
  shows "32 \<le> (of_char c :: nat) \<and> (of_char c :: nat) \<noteq> 127"
proof -
  from assms(2) have "c \<in> set (concat (codePoints s))" by simp
  then obtain p where p: "p \<in> set (codePoints s)" "c \<in> set p" unfolding set_concat by blast
  with assms(1) codePoints_cells [of s] have "cell p" "\<not> steersTheDisplay p"
    by (auto simp: cells_def list_all_iff clean_def)
  then obtain a ks where a: "p = a # ks" "list_all continuation ks" "\<not> steersTheDisplay (a # ks)"
    by (auto simp: cell_def split: list.splits)
  from control_steers [of a ks] a(3) have "32 \<le> (of_char a :: nat) \<and> (of_char a :: nat) \<noteq> 127" by (metis not_less)
  with a(1,2) p(2) show ?thesis by (auto simp: list_all_iff continuation_def Let_def)
qed

lemma clean_take [intro]: "clean s \<Longrightarrow> clean (concat (take n (codePoints s)))"
  by (auto simp: clean_def codePoints_take list_all_iff dest: in_set_takeD)

lemma clean_spaces [simp]: "clean (replicate n CHR '' '')"
  by (simp add: clean_def list_all_iff steersTheDisplay_def)

lemma clean_clipLine [intro]: "clean s \<Longrightarrow> clean (clipLine s w)"
  by (auto simp: clipLine_def Let_def)

lemma clean_padOrClip [intro]: "clean s \<Longrightarrow> clean (padOrClip s w)"
  by (auto simp: padOrClip_def Let_def)

text \<open>Printable ASCII, which the literals and the numbers of the console are.\<close>

definition plain :: "string \<Rightarrow> bool" where
  "plain s \<longleftrightarrow> list_all (\<lambda>c. 32 \<le> (of_char c :: nat) \<and> (of_char c :: nat) < 127) s"

lemma plain_simps [simp]:
  "plain []" "plain (c # s) \<longleftrightarrow> (32 \<le> (of_char c :: nat) \<and> (of_char c :: nat) < 127) \<and> plain s"
  "plain (a @ b) \<longleftrightarrow> plain a \<and> plain b"
  by (simp_all add: plain_def)

lemma plain_clean: "plain s \<Longrightarrow> clean s"
proof (induction s)
  case (Cons c s)
  then have "clean [c]"
    by (simp add: clean_def steersTheDisplay_def)
  from clean_append [OF this] Cons show ?case by simp
qed simp

lemma plain_digits: "list_all is_digit s \<Longrightarrow> plain s"
  by (auto simp: plain_def list_all_iff is_digit_def)

lemma plain_show_nat [simp]: "plain (show_nat n)"
  using show_nat_digits [of n] by (simp add: plain_digits list_all_iff)

lemma plain_show_int [simp]: "plain (show_int i)"
  by (simp add: show_int_def)

subsection \<open>What a fitted pane shows\<close>

definition rows_height :: "pane_row list \<Rightarrow> int" where
  "rows_height rows = (\<Sum>r\<leftarrow>rows. int (length (rowLines r)))"

lemma length_rowLines: "int (length (concat (map rowLines rows))) = rows_height rows"
  by (induction rows) (simp_all add: rows_height_def)

lemma keep_loop_take:
  "keep_loop budget kept used rows = (k, u) \<Longrightarrow>
     \<exists>n. k = kept @ take n rows \<and> u = used + rows_height (take n rows)
       \<and> (kept = [] \<and> rows \<noteq> [] \<longrightarrow> 0 < n) \<and> (kept = [] \<and> n \<le> 1 \<or> n = 0 \<or> u \<le> budget)"
proof (induction rows arbitrary: kept used)
  case Nil
  then show ?case by (intro exI [of _ 0]) (simp add: rows_height_def)
next
  case (Cons r rows)
  let ?h = "int (length (rowLines r))"
  consider "kept \<noteq> [] \<and> used + ?h > budget" | "\<not> (kept \<noteq> [] \<and> used + ?h > budget)" "used + ?h \<ge> budget"
    | "used + ?h < budget" by linarith
  then show ?case
  proof cases
    case 1
    with Cons.prems show ?thesis by (intro exI [of _ 0]) (simp add: Let_def rows_height_def)
  next
    case 2
    with Cons.prems show ?thesis by (intro exI [of _ 1]) (auto simp: Let_def rows_height_def)
  next
    case 3
    with Cons.prems have "keep_loop budget (kept @ [r]) (used + ?h) rows = (k, u)" by (simp add: Let_def)
    from Cons.IH [OF this] obtain n where n: "k = (kept @ [r]) @ take n rows" "u = used + ?h + rows_height (take n rows)"
      "n = 0 \<or> u \<le> budget" by auto
    with 3 show ?thesis by (intro exI [of _ "Suc n"]) (auto simp: rows_height_def)
  qed
qed

text \<open>\<open>kept\<close> stands at the end of \<open>rows\<close> that \<open>keep\<close> names.\<close>

definition at_end :: "keep_end \<Rightarrow> pane_row list \<Rightarrow> pane_row list \<Rightarrow> bool" where
  "at_end keep kept rows \<longleftrightarrow> (if keep = KeepTail then suffix kept rows else prefix kept rows)"

lemma keepItems_at_end:
  assumes "keepItems rows keep room budget = (kept, used)" "budget \<le> room"
    "rows \<noteq> []" "\<forall>r \<in> set rows. 0 < length (rowLines r) \<and> int (length (rowLines r)) \<le> room"
  shows "at_end keep kept rows" "used = rows_height kept" "used \<le> room" "kept \<noteq> []"
proof -
  let ?o = "if keep = KeepTail then rev rows else rows"
  from assms(3) have "hd rows \<in> set rows" by (rule hd_in_set)
  with assms(4) have "0 < length (rowLines (hd rows))" "int (length (rowLines (hd rows))) \<le> room" by blast+
  then have room: "0 < room" by linarith
  obtain k u where k: "keep_loop budget [] 0 ?o = (k, u)" by fastforce
  with keep_loop_take [OF k] obtain n where n: "k = take n ?o" "u = rows_height (take n ?o)" "?o \<noteq> [] \<longrightarrow> 0 < n" "n \<le> 1 \<or> u \<le> budget"
    by auto
  from assms(1) k room have res: "kept = (if keep = KeepTail then rev k else k)" "used = u"
    by (auto simp: keepItems_def)
  have "rows_height (rev xs) = rows_height xs" for xs by (induction xs) (auto simp: rows_height_def)
  with res n(1,2) show "used = rows_height kept" by simp
  have s: "set ?o = set rows" "?o \<noteq> []" using assms(3) by auto
  with n(1,3) res show "kept \<noteq> []" by auto
  show "at_end keep kept rows"
    using res(1) n(1) by (auto simp: at_end_def take_is_prefix suffix_to_prefix rev_swap)
  show "used \<le> room"
  proof (cases "u \<le> budget")
    case False
    with n(3,4) s have "n = 1" by linarith
    with s n(2) have "u = int (length (rowLines (hd ?o)))" by (cases ?o) (auto simp: rows_height_def)
    with assms(4) s res(2) show ?thesis by (metis hd_in_set)
  qed (use assms(2) res(2) in simp)
qed

lemma fitPane_columns: "line \<in> set (fitPane head rows tail keep limit width) \<Longrightarrow> columns line \<le> nat width"
  by (auto simp: fitPane_def columns_clipLine)

lemma fitPane_length: "length (fitPane head rows tail keep (Some l) width) \<le> nat l"
proof -
  obtain kept used where k: "keepItems rows keep (max 0 (max 0 l - 1)) (max 0 (max 0 l - 1) - (int (length head) + int (length tail))) = (kept, used)"
    by fastforce
  have "length (if int (length a) \<le> max 0 l then a else if b then take (nat (max 0 l)) a else take (nat (max 0 l)) c) \<le> nat l"
    for a c :: "string list" and b by (auto simp: min_le_iff_disj)
  then show ?thesis
    unfolding fitPane_def fittedLines_def Let_def option.case k prod.case length_map .
qed

lemma truncated_pane:
  assumes "int (length head + length (concat (map rowLines rows)) + length tail) > l"
    "rows \<noteq> []" "\<forall>r \<in> set rows. 0 < length (rowLines r) \<and> int (length (rowLines r)) < l"
  shows "\<exists>kept n m. at_end keep kept rows \<and> kept \<noteq> []
    \<and> fittedLines head rows tail keep (Some l)
      = take n head @ concat (map rowLines kept) @ [truncationMarker (length rows - length kept)] @ drop m tail"
proof -
  define room wanted where "room = l - 1" and "wanted = int (length head) + int (length tail)"
  from assms(2) have "hd rows \<in> set rows" by (rule hd_in_set)
  with assms(3) have "0 < length (rowLines (hd rows))" "int (length (rowLines (hd rows))) < l" by blast+
  then have l: "1 < l" by linarith
  obtain kept used where k: "keepItems rows keep room (room - wanted) = (kept, used)" by fastforce
  have "room - wanted \<le> room" by (simp add: wanted_def)
  moreover from assms(3) have "\<forall>r \<in> set rows. 0 < length (rowLines r) \<and> int (length (rowLines r)) \<le> room"
    by (auto simp: room_def)
  ultimately have kept: "at_end keep kept rows" "used = rows_height kept" "used \<le> room" "kept \<noteq> []"
    using keepItems_at_end [OF k _ assms(2)] by blast+
  define fixed where "fixed = max 0 (min wanted (room - used))"
  let ?n = "nat (min (int (length head)) fixed)"
  let ?m = "length tail - nat (max 0 (fixed - min (int (length head)) fixed))"
  let ?out = "take ?n head @ concat (map rowLines kept) @ [truncationMarker (length rows - length kept)] @ drop ?m tail"
  have "int (length (take ?n head)) + int (length (drop ?m tail)) \<le> fixed"
    by (auto simp: fixed_def wanted_def)
  moreover have "fixed \<le> room - used" using kept(3) by (simp add: fixed_def)
  ultimately have "int (length ?out) \<le> l"
    using kept(2) length_rowLines [of kept] by (simp add: room_def del: length_concat length_take length_drop)
  then have "length ?out \<le> nat l" by linarith
  then have "take (nat l) ?out = ?out" by (rule take_all)
  moreover have "max 0 l = l" "max 0 (l - 1) = room" using l by (simp_all add: room_def)
  moreover have "\<not> int (length (head @ concat (map rowLines rows) @ tail)) \<le> l"
    using assms(1) by (simp del: length_concat)
  ultimately have "fittedLines head rows tail keep (Some l) = ?out"
    using assms(2) k unfolding fittedLines_def Let_def option.case fixed_def wanted_def by (simp only: prod.case if_False)
  with kept(1,4) show ?thesis by blast
qed

subsection \<open>Pieces of clean text\<close>

definition clean_points :: "string list \<Rightarrow> bool" where
  "clean_points ps \<longleftrightarrow> list_all (\<lambda>p. cell p \<and> starts p \<and> \<not> steersTheDisplay p) ps"

lemma clean_points_codePoints: "clean s \<Longrightarrow> clean_points (codePoints s)"
  using codePoints_cells [of s] codePoints_heads [OF clean_starts, of s]
  by (auto simp: clean_points_def clean_def cells_def list_all_iff)

lemma clean_concat: "clean_points ps \<Longrightarrow> clean (concat ps)"
proof -
  assume ps: "clean_points ps"
  then have "cells ps" by (cases ps) (auto simp: clean_points_def cells_def list_all_iff)
  with ps show "clean (concat ps)" by (auto simp: clean_def codePoints_concat clean_points_def list_all_iff)
qed

lemma clean_points_subset: "set ps \<subseteq> set qs \<Longrightarrow> clean_points qs \<Longrightarrow> clean_points ps"
  by (auto simp: clean_points_def list_all_iff)

lemma clean_cut: "clean s \<Longrightarrow> set ps \<subseteq> set (codePoints s) \<Longrightarrow> clean (concat ps)"
  by (rule clean_concat [OF clean_points_subset [OF _ clean_points_codePoints]])

named_theorems clean_texts \<open>texts that are clean when their parts are\<close>

lemma clean_Cons [clean_texts]:
  assumes "32 \<le> (of_char c :: nat) \<and> (of_char c :: nat) < 127"
  shows "clean (c # s) \<longleftrightarrow> clean s"
proof (cases "starts s")
  case True
  from assms have "\<not> steersTheDisplay [c]" by (simp add: steersTheDisplay_def)
  with codePoints_append [OF True, of "[c]"] show ?thesis by (simp add: clean_def)
next
  case False
  then obtain k ks where "s = k # ks" "continuation k" by (cases s) (simp_all add: starts_def)
  moreover from assms have "codePointAt (c # k # r) = None" for r by (simp add: codePointAt_ascii)
  ultimately have "\<not> clean (c # s)" by (simp add: clean_def steersTheDisplay_def)
  with False show ?thesis using clean_starts by blast
qed

lemma clean_parts [clean_texts]:
  "clean a \<Longrightarrow> clean b \<Longrightarrow> clean (a @ b)" "clean s \<Longrightarrow> clean (padOrClip s w)" "clean s \<Longrightarrow> clean (clipLine s w)"
  "clean (show_nat n)" "clean (show_int i)" "clean a \<Longrightarrow> clean b \<Longrightarrow> clean (labelled a b)"
  by (auto simp: plain_clean labelled_def)

lemma clean_join [clean_texts]: "clean sep \<Longrightarrow> list_all clean xs \<Longrightarrow> clean (join sep xs)"
  by (induction sep xs rule: join.induct) auto

lemma plain_padStart: "plain s \<Longrightarrow> plain [c] \<Longrightarrow> plain (padStart n c s)"
  by (auto simp: padStart_def plain_def list_all_iff)

lemma plain_padded [simp]: "plain (padded n i)"
  by (simp add: padded_def plain_padStart)

lemma clean_formatInstant [clean_texts]: "clean (formatInstant t)"
proof -
  have "plain (toISOString ms)" for ms by (simp add: toISOString_def iso_year_def Let_def case_prod_unfold)
  then have "plain (map (\<lambda>c. if c = CHR ''T'' then CHR '' '' else c) (take 19 (toISOString ms)))" for ms
    by (auto simp: plain_def list_all_iff dest: in_set_takeD)
  then show ?thesis by (auto simp: formatInstant_def split: option.split intro!: plain_clean)
qed

lemma clean_ellipsis [clean_texts, simp]: "clean ellipsis"
  by (simp add: clean_def ellipsis_def steersTheDisplay_def continuation_def low6_def)

lemma clean_marker [clean_texts]: "clean (truncationMarker n)"
  by (simp add: truncationMarker_def clean_texts)

lemma keepItems_subset:
  assumes "keepItems rows keep room budget = (kept, used)"
  shows "set kept \<subseteq> set rows"
proof -
  obtain k u where k: "keep_loop budget [] 0 (if keep = KeepTail then rev rows else rows) = (k, u)" by fastforce
  with keep_loop_take [OF k] have "set k \<subseteq> set rows" by (auto dest: in_set_takeD split: if_splits)
  with assms k show ?thesis by (auto simp: keepItems_def split: if_splits)
qed

lemma fittedLines_from:
  assumes "line \<in> set (fittedLines head rows tail keep limit)"
  shows "line \<in> set (head @ concat (map rowLines rows) @ tail) \<or> (\<exists>n. line = truncationMarker n)"
proof (cases limit)
  case None
  with assms show ?thesis by (simp add: fittedLines_def)
next
  case (Some l)
  define room wanted where "room = max 0 (max 0 l - 1)" and "wanted = int (length head) + int (length tail)"
  obtain kept used where k: "keepItems rows keep room (room - wanted) = (kept, used)" by fastforce
  define fixed where "fixed = max 0 (min wanted (room - used))"
  define n m i where "n = nat (min (int (length head)) fixed)"
    and "m = length tail - nat (max 0 (fixed - min (int (length head)) fixed))" and "i = length rows - length kept"
  let ?all = "head @ concat (map rowLines rows) @ tail"
  let ?cut = "take n head @ concat (map rowLines kept) @ [truncationMarker i] @ drop m tail"
  have eq: "fittedLines head rows tail keep limit = (if int (length ?all) \<le> max 0 l then ?all
      else if rows = [] then take (nat (max 0 l)) ?all else take (nat (max 0 l)) ?cut)"
    unfolding fittedLines_def Let_def Some option.case wanted_def [symmetric] room_def [symmetric] k prod.case
      fixed_def [symmetric] n_def m_def i_def by (rule refl)
  have "set (if a then x else if b then take j x else take j y) \<subseteq> set x \<union> set y" for a b j and x y :: "string list"
    using set_take_subset [of j x] set_take_subset [of j y] by auto
  then have "set (fittedLines head rows tail keep limit) \<subseteq> set ?all \<union> set ?cut" unfolding eq .
  with assms have "line \<in> set ?all \<union> set ?cut" by (rule subsetD [rotated])
  then have "line \<in> set ?all \<or> line \<in> set (take n head) \<or> line \<in> set (concat (map rowLines kept))
      \<or> line = truncationMarker i \<or> line \<in> set (drop m tail)" by auto
  moreover have "set (concat (map rowLines kept)) \<subseteq> set (concat (map rowLines rows))"
    using keepItems_subset [OF k] by auto
  ultimately show ?thesis using set_take_subset [of n head] set_drop_subset [of m tail] by auto
qed

lemma clean_fitPane:
  assumes "list_all clean head" "\<forall>r \<in> set rows. list_all clean (rowLines r)" "list_all clean tail"
  shows "list_all clean (fitPane head rows tail keep limit width)"
proof -
  have "clean line" if "line \<in> set (fittedLines head rows tail keep limit)" for line
    using fittedLines_from [OF that] assms by (auto simp: list_all_iff clean_marker)
  then show ?thesis by (auto simp: fitPane_def list_all_iff clean_texts)
qed

end
