(* ===== verification/Operator.thy ===== *)
theory Operator
  imports Cli Display
begin

text \<open>
  The data of the operator console: its state (\<open>apps/cli/src/tui/state.ts\<close>), the intents and effects
  of its input model (\<open>intents.ts\<close>), the bridge to the command line (\<open>cli-bridge.ts\<close>) and the words for
  every failure the command line reports (\<open>failure-text.ts\<close>).
\<close>

subsection \<open>Panes, keys and viewports\<close>

record viewport =
  vp_cols :: int
  vp_rows :: int

datatype pane_id = ProfilesPane | MailboxPane | HistoryPane | RejectionsPane | HealthPane

definition PANE_IDS :: "pane_id list" where
  "PANE_IDS = [ProfilesPane, MailboxPane, HistoryPane, RejectionsPane, HealthPane]"

fun pane_name :: "pane_id \<Rightarrow> string" where
  "pane_name ProfilesPane = ''profiles''"
| "pane_name MailboxPane = ''mailbox''"
| "pane_name HistoryPane = ''history''"
| "pane_name RejectionsPane = ''rejections''"
| "pane_name HealthPane = ''health''"

record key_event =
  ke_name :: string
  ke_ctrl :: bool
  ke_sequence :: string

text \<open>\<open>xs[i]\<close>: nothing beyond the end.\<close>

definition at :: "'a list \<Rightarrow> nat \<Rightarrow> 'a option" where
  "at xs i = (if i < length xs then Some (xs ! i) else None)"

subsection \<open>The state\<close>

datatype profile_state = UnknownProfile | AbsentProfile | ReadyProfile

datatype step_outcome = StepPending | StepOk | StepFailed string int

definition SETUP_STEPS :: nat where "SETUP_STEPS = 6"

definition PENDING_SETUP :: "step_outcome list" where
  "PENDING_SETUP = [StepPending, StepPending, StepPending, StepPending, StepPending, StepPending]"

record profile_view =
  pv_label :: string
  pv_profileDir :: string
  pv_relayUrl :: string
  pv_storeKeyEnv :: string
  pv_identityId :: string
  pv_deviceId :: string
  pv_contactCount :: int
  pv_published :: bool
  pv_state :: "profile_state option"
  pv_storeKeyPresent :: "bool option"
  pv_setup :: "step_outcome list option"
  pv_contactCardPath :: "string option"

record contact_view =
  cv_identityId :: string
  cv_deviceId :: string
  cv_devicePubkey :: string
  cv_signalIdentityKey :: string
  cv_displayName :: "string option"

record mailbox_view =
  mb_outboxPending :: "int option"
  mb_inboxReceived :: "int option"
  mb_more :: bool
  mb_lastPolledAtMs :: "int option"

record rejection_view =
  rj_envelopeId :: string
  rj_code :: string

datatype entry_direction = InboundEntry | OutboundEntry

record history_view =
  he_sequence :: int
  he_contactIdentityId :: string
  he_messageId :: string
  he_direction :: entry_direction
  he_plaintext :: string
  he_createdAtMs :: int

datatype relay_status = RelayHealthy | RelayUnreachable | RelayUnknown

record relay_health =
  rh_relayUrl :: string
  rh_status :: relay_status
  rh_uptimeMs :: "int option"
  rh_checkedAtMs :: "int option"

record trust_identifiers =
  ti_identity_id :: "string option"
  ti_device_id :: "string option"
  ti_device_pubkey :: "string option"
  ti_signal_identity_key :: "string option"

record trust_modal =
  tm_cardPath :: string
  tm_profileLabel :: string
  tm_identifiers :: trust_identifiers
  tm_renderedAt :: "int option"

datatype input_field =
  RelayUrlField | ProfileDirField | StoreKeyEnvField | ExportPathField | CardPathField | MessageField | ContactNameField

fun field_name :: "input_field \<Rightarrow> string" where
  "field_name RelayUrlField = ''relay-url''"
| "field_name ProfileDirField = ''profile-dir''"
| "field_name StoreKeyEnvField = ''store-key-env''"
| "field_name ExportPathField = ''export-path''"
| "field_name CardPathField = ''card-path''"
| "field_name MessageField = ''message''"
| "field_name ContactNameField = ''contact-name''"

record input_state =
  ip_field :: input_field
  ip_buffer :: string
  ip_renderedAt :: "int option"
  ip_maxBytes :: nat

definition PATH_MAX_BYTES :: nat where "PATH_MAX_BYTES = 1024"
definition NAME_MAX_BYTES :: nat where "NAME_MAX_BYTES = 128"

fun inputMaxBytes :: "input_field \<Rightarrow> nat" where
  "inputMaxBytes MessageField = MAX_PLAINTEXT_BYTES"
| "inputMaxBytes ContactNameField = NAME_MAX_BYTES"
| "inputMaxBytes StoreKeyEnvField = NAME_MAX_BYTES"
| "inputMaxBytes _ = PATH_MAX_BYTES"

record activity_line =
  ac_at :: int
  ac_text :: string

record operator_state =
  os_profiles :: "profile_view list"
  os_activeProfile :: nat
  os_contacts :: "contact_view list"
  os_selectedContactId :: "string option"
  os_mailbox :: mailbox_view
  os_rejections :: "rejection_view list"
  os_history :: "history_view list"
  os_health :: relay_health
  os_pane :: pane_id
  os_modal :: "trust_modal option"
  os_activity :: "activity_line list"
  os_busy :: bool
  os_help :: "bool option"
  os_input :: "input_state option"
  os_observedAtMs :: "int option"

definition active :: "operator_state \<Rightarrow> profile_view option" where
  "active s = at (os_profiles s) (os_activeProfile s)"

definition setup_done :: "step_outcome list \<Rightarrow> nat \<Rightarrow> bool" where
  "setup_done setup step \<longleftrightarrow> at setup step = Some StepOk"

definition setupIsComplete :: "profile_view \<Rightarrow> bool" where
  "setupIsComplete profile =
     (case pv_setup profile of
        None \<Rightarrow> False
      | Some setup \<Rightarrow> pv_storeKeyPresent profile = Some True \<and> list_all (setup_done setup) [1..<SETUP_STEPS])"

definition profileIsInSetup :: "profile_view \<Rightarrow> bool" where
  "profileIsInSetup profile \<longleftrightarrow> pv_setup profile \<noteq> None \<and> \<not> setupIsComplete profile"

definition nextSetupStep :: "profile_view \<Rightarrow> nat option" where
  "nextSetupStep profile =
     (case pv_setup profile of
        None \<Rightarrow> None
      | Some setup \<Rightarrow>
          if pv_storeKeyPresent profile \<noteq> Some True then None
          else find (\<lambda>step. \<not> setup_done setup step) [1..<SETUP_STEPS])"

definition createInitialState :: "profile_view list \<Rightarrow> operator_state" where
  "createInitialState profiles =
     \<lparr>os_profiles = profiles, os_activeProfile = 0, os_contacts = [], os_selectedContactId = None,
      os_mailbox = \<lparr>mb_outboxPending = None, mb_inboxReceived = None, mb_more = False, mb_lastPolledAtMs = None\<rparr>,
      os_rejections = [], os_history = [],
      os_health = \<lparr>rh_relayUrl = (case profiles of [] \<Rightarrow> [] | p # ps \<Rightarrow> pv_relayUrl p),
        rh_status = RelayUnknown, rh_uptimeMs = None, rh_checkedAtMs = None\<rparr>,
      os_pane = ProfilesPane, os_modal = None, os_activity = [], os_busy = False,
      os_help = None, os_input = None, os_observedAtMs = None\<rparr>"

subsection \<open>The bridge to the command line\<close>

datatype cli_command = Init | ContactExport | ContactImport | RelayPublish | Send | Poll | HistoryOf | Doctor

definition CLI_COMMANDS :: "cli_command list" where
  "CLI_COMMANDS = [Init, ContactExport, ContactImport, RelayPublish, Send, Poll, HistoryOf, Doctor]"

fun command_name :: "cli_command \<Rightarrow> string" where
  "command_name Init = ''init''"
| "command_name ContactExport = ''contact export''"
| "command_name ContactImport = ''contact import''"
| "command_name RelayPublish = ''relay publish''"
| "command_name Send = ''send''"
| "command_name Poll = ''poll''"
| "command_name HistoryOf = ''history''"
| "command_name Doctor = ''doctor''"

text \<open>The requests, by their fields in the order of the type.\<close>

datatype cli_request =
    InitRequest string string string
  | ExportRequest string string
  | ImportRequest string string
  | PublishRequest string
  | SendRequest string string string "string option"
  | PollRequest string
  | HistoryRequest string string
  | DoctorRequest string

fun request_command :: "cli_request \<Rightarrow> cli_command" where
  "request_command (InitRequest profileDir relayUrl storeKeyEnv) = Init"
| "request_command (ExportRequest profileDir out) = ContactExport"
| "request_command (ImportRequest profileDir source) = ContactImport"
| "request_command (PublishRequest profileDir) = RelayPublish"
| "request_command (SendRequest profileDir to body mid) = Send"
| "request_command (PollRequest profileDir) = Poll"
| "request_command (HistoryRequest profileDir contact) = HistoryOf"
| "request_command (DoctorRequest profileDir) = Doctor"

fun buildArgv :: "cli_request \<Rightarrow> string list" where
  "buildArgv (InitRequest profileDir relayUrl storeKeyEnv) =
     [''init'', ''--relay-url'', relayUrl, ''--store-key-env'', storeKeyEnv, ''--profile'', profileDir, ''--json'']"
| "buildArgv (ExportRequest profileDir out) =
     [''contact'', ''export'', ''--out'', out, ''--profile'', profileDir, ''--json'']"
| "buildArgv (ImportRequest profileDir source) =
     [''contact'', ''import'', ''--from'', source, ''--profile'', profileDir, ''--json'']"
| "buildArgv (PublishRequest profileDir) = [''relay'', ''publish'', ''--profile'', profileDir, ''--json'']"
| "buildArgv (SendRequest profileDir to body mid) =
     [''send'', ''--to'', to] @ (case mid of None \<Rightarrow> [] | Some i \<Rightarrow> [''--message-id'', i])
     @ [''--profile'', profileDir, ''--json'']"
| "buildArgv (PollRequest profileDir) = [''poll'', ''--profile'', profileDir, ''--json'']"
| "buildArgv (HistoryRequest profileDir contact) = [''history'', ''--with'', contact, ''--profile'', profileDir, ''--json'']"
| "buildArgv (DoctorRequest profileDir) = [''doctor'', ''--profile'', profileDir, ''--json'']"

record cli_outcome =
  oc_ok :: bool
  oc_code :: string
  oc_exitCode :: int
  oc_data :: json

definition UNREADABLE_CLI_OUTPUT :: string where "UNREADABLE_CLI_OUTPUT = ''UNREADABLE_CLI_OUTPUT''"

definition unreadable_outcome :: "int \<Rightarrow> cli_outcome" where
  "unreadable_outcome exitCode =
     \<lparr>oc_ok = False, oc_code = UNREADABLE_CLI_OUTPUT, oc_exitCode = exitCode, oc_data = JNull\<rparr>"

definition parseCliOutcome :: "string \<Rightarrow> int \<Rightarrow> cli_outcome" where
  "parseCliOutcome out exitCode =
     (case parse_json out of
        Some (JObj kvs) \<Rightarrow>
          if jprop (JObj kvs) ''ok'' = JBool True
          then \<lparr>oc_ok = True, oc_code = ''ok'', oc_exitCode = exitCode, oc_data = jprop (JObj kvs) ''data''\<rparr>
          else
            (let code = (case jprop (jprop (JObj kvs) ''error'') ''code'' of
                JStr c \<Rightarrow> if c \<noteq> [] then c else UNREADABLE_CLI_OUTPUT
              | _ \<Rightarrow> UNREADABLE_CLI_OUTPUT)
             in \<lparr>oc_ok = False, oc_code = code, oc_exitCode = exitCode, oc_data = jprop (JObj kvs) ''data''\<rparr>)
      | _ \<Rightarrow> unreadable_outcome exitCode)"

subsection \<open>Intents and effects\<close>

datatype intent =
    SelectPane pane_id
  | SelectProfile int
  | SelectContact string
  | Run cli_request
  | ToggleHelp
  | TrustConfirm
  | TrustCancel
  | InputOpen input_field
  | InputInsert string
  | InputBackspace
  | InputCancel
  | InputSubmit
  | QuitIntent

datatype effect = RunCli cli_request | AnswerTrustPrompt bool | QuitEffect

subsection \<open>The words for a failure\<close>

datatype words = words (wd_sentence: string) (wd_action: string)

definition em_dash :: string where "em_dash = [CHR 0xE2, CHR 0x80, CHR 0x94]"

definition CLASSES :: "int list" where "CLASSES = [2, 3, 4, 5]"

definition isClass :: "int \<Rightarrow> bool" where
  "isClass exitCode \<longleftrightarrow> exitCode \<in> set CLASSES"

function fill :: "string \<Rightarrow> string \<Rightarrow> string" where
  "fill template code =
     (if template = [] then []
      else if prefix ''{code}'' template then code @ fill (drop 6 template) code
      else hd template # fill (tl template) code)"
  by pat_completeness auto
termination by (relation "measure (length o fst)") auto

declare fill.simps [simp del]

definition ENTRIES :: "(string \<times> words) list" where
  "ENTRIES =
    [(''INVALID_ARGUMENTS@2'', words (''{code} '' @ em_dash @ '' the console built this command wrongly. Nothing was read or written.'')
        (''Report it '' @ em_dash @ '' no keystroke here should be able to produce it.'')),
     (''INVALID_CONFIGURATION@2'', words (''{code} '' @ em_dash @ '' one code for six causes; the console cannot say which.'')
        (''Check steps 0 and 1 on the profiles pane; the rest are on disk.'')),
     (''INVALID_CONTACT_CARD@2'', words (''{code} '' @ em_dash @ '' that file is not a contact card the CLI can read, or it is too big.'')
        (''Check the path, and that the file is the card they sent.'')),
     (''INVALID_MESSAGE_ID@2'', words (''{code} '' @ em_dash @ '' the message id used here is not a UUID.'')
        (''Report it: the console names no id of its own, so the CLI minted this one.'')),
     (''INVALID_MESSAGE@2'', words (''{code} '' @ em_dash @ '' the body is longer than the CLI accepts; nothing was encrypted.'')
        (''Shorten it; the compose row counts bytes once you are past half.'')),
     (''TRUST_REJECTED@3'', words (''{code} '' @ em_dash @ '' refused on trust grounds; no pin and no session changed.'')
        (''Check the contact is pinned and the card you imported is the one they sent.'')),
     (''CONTACT_NOT_CONFIRMED@3'', words (''{code} '' @ em_dash @ '' the import was answered with no, so nothing was pinned.'')
        (''Press i again and answer y once all four identifiers match.'')),
     (''INVALID_CONTACT_CARD@3'', words (''{code} '' @ em_dash @ '' the card read cleanly but failed validation; it may have expired.'')
        (''Ask them to run contact export again and send you the new card.'')),
     (''PROTOCOL_REJECTED@3'', words (''{code} '' @ em_dash @ '' the relay refused this, and will refuse the same request again.'')
        (''Check both sides run the same build against the same relay.'')),
     (''PREKEY_BUNDLE_UNAVAILABLE@3'', words (''{code} '' @ em_dash @ '' their side has no claimable prekey bundle. Not a trust failure.'')
        (''Ask them to run relay publish, then try again.'')),
     (''UNAUTHORIZED_MAILBOX_ACCESS@3'', words (''{code} '' @ em_dash @ '' the relay would not accept this profile as the sender.'')
        (''Run step 2 (r) to publish this profile, then try again.'')),
     (''SENDER_QUOTA_EXCEEDED@3'', words (''{code} '' @ em_dash @ '' your unacked allowance in their mailbox is full. Temporary.'')
        (''It clears when they poll, or when the envelopes expire.'')),
     (''CONTACT_NOT_TRUSTED@3'', words (''{code} '' @ em_dash @ '' that correspondent is not pinned in this profile.'')
        (''Import their card first: profiles pane, i.'')),
     (''CONTACT_PIN_MISMATCH@3'', words (''{code} '' @ em_dash @ '' the bundle the relay served is not the one you pinned. Stop.'')
        (''Do not re-import a card sent the same way; check out of band.'')),
     (''PREKEY_BUNDLE_EXPIRED@3'', words (''{code} '' @ em_dash @ '' the bundle pinned for them has expired.'')
        (''Ask them to run relay publish, then try again.'')),
     (''MESSAGE_ID_CONFLICT@3'', words (''{code} '' @ em_dash @ '' that message id was already used for different text.'')
        (''Send again; each send takes a fresh id from the CLI.'')),
     (''OUTBOUND_REJECTED@3'', words (''{code} '' @ em_dash @ '' the relay refused the envelope; nothing was delivered.'')
        (''Check they are still published, then send again.'')),
     (''SENDER_NOT_PUBLISHED@3'', words (''{code} '' @ em_dash @ '' this profile has never published, so this was refused locally.'')
        (''Run step 2 (r) to publish, then send again.'')),
     (''INBOUND_REJECTED@3'', words (''{code} '' @ em_dash @ '' the relay refused this profile'' @ [CHR 0x27] @ ''s authentication; the poll stopped.'')
        (''Check this profile is published to that relay, then poll again.'')),
     (''CHALLENGE_EXPIRED@3'', words (''{code} '' @ em_dash @ '' the relay'' @ [CHR 0x27] @ ''s challenge expired before the poll could use it.'')
        (''Poll again; a slow or loaded relay is the usual cause.'')),
     (''PROFILE_REJECTED@3'', words (''{code} '' @ em_dash @ '' the relay refused this profile'' @ [CHR 0x27] @ ''s own record.'')
        (''Re-run steps 1 and 2, and check the relay URL on the profiles pane.'')),
     (''RELAY_UNAVAILABLE@4'', words (''{code} '' @ em_dash @ '' the relay did not answer, so nothing was committed anywhere.'')
        (''Check it is up at the URL on the profiles pane; retrying is safe.'')),
     (''PERSISTENCE_FAILURE@5'', words (''{code} '' @ em_dash @ '' the encrypted store could not be read or written.'')
        (''Do not retry blindly: check the profile directory and its store-key variable.''))]"

definition GENERIC :: "(int \<times> words) list" where
  "GENERIC =
    [(2, words (''{code} '' @ em_dash @ '' the CLI refused the command as it was built, not the state of the world.'')
        (''Correct the operand this command used and run it again.'')),
     (3, words (''{code} '' @ em_dash @ '' a trust or protocol refusal; no pin, session or trust state changed.'')
        (''Read the code before retrying: repeated unchanged, it will be refused again.'')),
     (4, words (''{code} '' @ em_dash @ '' a relay or network failure; nothing was committed anywhere.'')
        (''Check the relay at the URL on the profiles pane; retrying is safe.'')),
     (5, words (''{code} '' @ em_dash @ '' a persistence failure; the encrypted store could not be read or written.'')
        (''Do not retry blindly '' @ em_dash @ '' the store may be locked, or opened with a different key.''))]"

definition UNCLASSED_WORDS :: words where
  "UNCLASSED_WORDS = words (''{code} '' @ em_dash @ '' the CLI exited with a status this console has no class for.'')
     (''Quote the code and the status exactly if you report this.'')"

definition UNREADABLE_WORDS :: words where
  "UNREADABLE_WORDS = words (''{code} '' @ em_dash @ '' the CLI printed nothing the console could read, so it knows nothing more.'')
     (''Run the same command in a terminal and read its output there.'')"

definition BY_COMMAND :: "(string \<times> (cli_command \<times> words) list) list" where
  "BY_COMMAND =
    [(''PERSISTENCE_FAILURE@5'', [(ContactExport, words (''{code} '' @ em_dash @ '' one cause is that the path already exists; export never overwrites.'')
        (''Export to a new path; a real storage failure looks the same.''))])]"

definition wordsFor :: "cli_command \<Rightarrow> string \<Rightarrow> int \<Rightarrow> words" where
  "wordsFor command code exitCode =
     (if code = UNREADABLE_CLI_OUTPUT then UNREADABLE_WORDS
      else
        (let k = code @ ''@'' @ show_int exitCode in
         case (case map_of BY_COMMAND k of None \<Rightarrow> None | Some m \<Rightarrow> map_of m command) of
           Some override \<Rightarrow> override
         | None \<Rightarrow>
             (case map_of ENTRIES k of
                Some entry \<Rightarrow> entry
              | None \<Rightarrow>
                  if isClass exitCode then (case map_of GENERIC exitCode of Some w \<Rightarrow> w | None \<Rightarrow> UNCLASSED_WORDS)
                  else UNCLASSED_WORDS)))"

record failure_text =
  ft_command :: cli_command
  ft_code :: string
  ft_exitCode :: int
  ft_sentence :: string
  ft_action :: string

definition explain :: "cli_command \<Rightarrow> string \<Rightarrow> int \<Rightarrow> failure_text" where
  "explain command code exitCode =
     (let w = wordsFor command code exitCode; shown = paintable code in
      \<lparr>ft_command = command, ft_code = code, ft_exitCode = exitCode,
       ft_sentence = fill (wd_sentence w) shown, ft_action = fill (wd_action w) shown\<rparr>)"

subsection \<open>Every request is a command line the parser reads back\<close>

fun request_words :: "cli_command \<Rightarrow> string list" where
  "request_words Init = [''init'']"
| "request_words ContactExport = [''contact'', ''export'']"
| "request_words ContactImport = [''contact'', ''import'']"
| "request_words RelayPublish = [''relay'', ''publish'']"
| "request_words Send = [''send'']"
| "request_words Poll = [''poll'']"
| "request_words HistoryOf = [''history'']"
| "request_words Doctor = [''doctor'']"

text \<open>The operands of a request under the names of their options; the text of a message is not one.\<close>

fun request_operands :: "cli_request \<Rightarrow> (string \<times> string) list" where
  "request_operands (InitRequest profileDir relayUrl storeKeyEnv) =
     [(''relay-url'', relayUrl), (''store-key-env'', storeKeyEnv), (''profile'', profileDir)]"
| "request_operands (ExportRequest profileDir out) = [(''out'', out), (''profile'', profileDir)]"
| "request_operands (ImportRequest profileDir source) = [(''from'', source), (''profile'', profileDir)]"
| "request_operands (PublishRequest profileDir) = [(''profile'', profileDir)]"
| "request_operands (SendRequest profileDir to body mid) =
     [(''to'', to)] @ (case mid of None \<Rightarrow> [] | Some i \<Rightarrow> [(''message-id'', i)]) @ [(''profile'', profileDir)]"
| "request_operands (PollRequest profileDir) = [(''profile'', profileDir)]"
| "request_operands (HistoryRequest profileDir contact) = [(''with'', contact), (''profile'', profileDir)]"
| "request_operands (DoctorRequest profileDir) = [(''profile'', profileDir)]"

definition request_options :: "cli_request \<Rightarrow> cli_values" where
  "request_options r = map (\<lambda>(k, v). (k, Some v)) (request_operands r) @ [(''json'', None)]"

lemma buildArgv_args: "buildArgv r = request_words (request_command r) @ option_args (request_options r)"
  by (cases r) (auto simp: request_options_def split: option.splits)

lemma request_options_declared:
  assumes "list_all (\<lambda>(k, v). v \<noteq> optionSeparator) (request_operands r)"
  shows "list_all declared (request_options r)" "distinct (map fst (request_options r))"
  using assms by (cases r; auto simp: request_options_def declared_def cliOptions_def split: option.splits)+

lemma request_command_words:
  "map_of command_words (command_name c) = Some (request_words c)"
  "\<exists>names. map_of commandOptions (command_name c) = Some names"
  by (cases c; simp add: command_words_def commandOptions_def)+

lemma request_options_allowed:
  "map_of commandOptions (command_name (request_command r)) = Some names \<Longrightarrow> fst ` set (request_options r) \<subseteq> set names"
  by (cases r) (auto simp: commandOptions_def request_options_def split: option.splits)

lemma request_reaches_parser:
  assumes "list_all (\<lambda>(k, v). v \<noteq> optionSeparator) (request_operands r)"
    "map_of (request_operands r) ''profile'' = Some p" "trim p \<noteq> []"
  shows "parseCommand (buildArgv r) = Inr (command_name (request_command r), request_options r)"
proof -
  obtain names where names: "map_of commandOptions (command_name (request_command r)) = Some names"
    using request_command_words(2) by blast
  have "map_of (request_options r) ''profile'' = Some (Some p)"
    using assms(2) by (cases r) (auto simp: request_options_def split: option.splits if_splits)
  from command_line_parses [OF request_command_words(1) names request_options_declared [OF assms(1)]
      request_options_allowed [OF names] this assms(3)]
  show ?thesis unfolding buildArgv_args .
qed

lemma request_complete:
  assumes "list_all (\<lambda>(k, v). v \<noteq> []) (request_operands r)"
  shows "rejectUnexpectedMissing (command_name (request_command r)) (request_options r) = Inr ()"
  using assms
  by (cases r) (auto simp: rejectUnexpectedMissing_def requiredByCommand_def request_options_def required_def option_text_def
      split: option.splits)

text \<open>What is written to the standard input of the child of a request before it is closed; nothing closes an import's.\<close>

fun childStdin :: "cli_request \<Rightarrow> string option" where
  "childStdin (SendRequest profileDir to body mid) = Some body"
| "childStdin (ImportRequest profileDir source) = None"
| "childStdin _ = Some []"

definition reads_body :: "stdin \<Rightarrow> cli_request \<Rightarrow> bool" where
  "reads_body i r \<longleftrightarrow>
     (case childStdin r of None \<Rightarrow> True | Some body \<Rightarrow> \<not> in_tty i \<and> concat (in_chunks i) = body \<and> in_error i = None)"

text \<open>The values a request is to be executed with.\<close>

fun request_values :: "cli_request \<Rightarrow> cli_values" where
  "request_values (SendRequest profileDir to body mid) = with_text body (request_options (SendRequest profileDir to body mid))"
| "request_values r = request_options r"

lemma read_chunks_all:
  "n + length (concat cs) \<le> MAX_PLAINTEXT_BYTES \<Longrightarrow> read_chunks n acc cs None = Inr (acc @ concat cs)"
proof (induction cs arbitrary: n acc)
  case (Cons c cs)
  then show ?case using Cons.IH [of "n + length c" "acc @ c"] by (simp del: length_concat)
qed simp

definition sendable :: "cli_request \<Rightarrow> bool" where
  "sendable r \<longleftrightarrow> (case r of SendRequest d to body mid \<Rightarrow> body \<noteq> [] \<and> length body \<le> MAX_PLAINTEXT_BYTES | _ \<Rightarrow> True)"

lemma request_body:
  assumes "reads_body i r" "sendable r" "request_command r = Send"
  shows "\<exists>body. resolveSendBody (request_options r) i = Inr body \<and> request_values r = with_text body (request_options r)"
proof -
  from assms(3) obtain d to body mid where r: "r = SendRequest d to body mid" by (cases r) auto
  have "option_text (request_options r) ''text'' = None"
    by (auto simp: r option_text_def request_options_def split: option.splits)
  with assms(1,2) r read_chunks_all [of 0 "in_chunks i" "[]"] show ?thesis
    by (auto simp: reads_body_def sendable_def resolveSendBody_def readStdinBody_def simp del: length_concat)
qed

text \<open>
  C19. The console and the command line agree on every request: when no operand is the bare separator
  or empty, the profile is not blank and a message body is within the bound, running the argument
  vector built for the request, with what the console writes to the child's standard input, is
  executing exactly that command on exactly its operands - and the body of a message is in no argument.
\<close>

theorem console_request_is_understood:
  assumes "list_all (\<lambda>(k, v). v \<noteq> optionSeparator \<and> v \<noteq> []) (request_operands r)"
    "map_of (request_operands r) ''profile'' = Some p" "trim p \<noteq> []"
    "reads_body (cl_stdin C) r" "sendable r"
  shows "strict_run C (buildArgv r) = execute C (command_name (request_command r)) (request_values r)"
proof -
  have "list_all (\<lambda>(k, v). v \<noteq> optionSeparator) (request_operands r)" "list_all (\<lambda>(k, v). v \<noteq> []) (request_operands r)"
    using assms(1) by (auto simp: list_all_iff)
  note run = request_reaches_parser [OF this(1) assms(2,3)] request_complete [OF this(2)]
  show ?thesis
  proof (cases "request_command r = Send")
    case True
    with request_body [OF assms(4,5)] run show ?thesis by (intro ext) (auto simp: strict_run_def andThen_def)
  next
    case False
    then have "command_name (request_command r) \<noteq> ''send''" "request_values r = request_options r"
      by (cases r; simp)+
    with run show ?thesis by (intro ext) (simp add: strict_run_def andThen_def)
  qed
qed

definition with_input :: "'r cli \<Rightarrow> string \<Rightarrow> 'r cli" where
  "with_input C body = C\<lparr>cl_stdin := \<lparr>in_tty = False, in_chunks = [body], in_error = None\<rparr>\<rparr>"

theorem console_request_is_understood_witness:
  "\<forall>C :: nat cli. strict_run (with_input C ''hello'') [''send'', ''--to'', ''-id'', ''--profile'', ''/p'', ''--json'']
     = execute (with_input C ''hello'') ''send''
         [(''text'', Some ''hello''), (''to'', Some ''-id''), (''profile'', Some ''/p''), (''json'', None)]"
proof
  fix C :: "nat cli"
  have "trim ''/p'' \<noteq> []" by code_simp
  then show "strict_run (with_input C ''hello'') [''send'', ''--to'', ''-id'', ''--profile'', ''/p'', ''--json'']
     = execute (with_input C ''hello'') ''send''
         [(''text'', Some ''hello''), (''to'', Some ''-id''), (''profile'', Some ''/p''), (''json'', None)]"
    using console_request_is_understood [of "SendRequest ''/p'' ''-id'' ''hello'' None" "''/p''" "with_input C ''hello''"]
    by (simp add: with_input_def optionSeparator_def reads_body_def sendable_def MAX_PLAINTEXT_BYTES_def with_text_def
        request_options_def)
qed

subsection \<open>Every outcome is read back\<close>

lemma wf_envelope: "wf_json v \<Longrightarrow> wf_json (JObj [(''ok'', b), (k, v)]) \<longleftrightarrow> k \<noteq> ''ok'' \<and> wf_json b"
  by (auto simp: wf_members_iff)

text \<open>
  What the command line prints is what the console reads: the line a command writes and its exit
  code are read back as its result, or as the very error code and class it was classified to - the
  console neither loses nor invents a refusal.
\<close>

theorem console_reads_outcome:
  assumes "strict_main C args w = ((line, code), w')" "strict_run C args w = (r, w')"
    "case r of Inr v \<Rightarrow> wf_json v | Inl e \<Rightarrow> fst (classify e) \<noteq> []"
  shows "parseCliOutcome line (int code) =
    (case r of
       Inr v \<Rightarrow> \<lparr>oc_ok = True, oc_code = ''ok'', oc_exitCode = 0, oc_data = v\<rparr>
     | Inl e \<Rightarrow> \<lparr>oc_ok = False, oc_code = fst (classify e), oc_exitCode = int (snd (classify e)), oc_data = JNull\<rparr>)"
proof (cases r)
  case (Inr v)
  with assms have "line = stringify (JObj [(''ok'', JBool True), (''data'', v)]) @ [CHR 0x0A]" "code = 0"
    by (auto simp: strict_main_def simp del: stringify.simps)
  moreover have "wf_json (JObj [(''ok'', JBool True), (''data'', v)])" using assms(3) Inr by simp
  ultimately show ?thesis
    using Inr by (simp add: parseCliOutcome_def parse_printed_line del: stringify.simps)
next
  case (Inl e)
  let ?doc = "JObj [(''ok'', JBool False), (''error'', JObj [(''code'', JStr (fst (classify e)))])]"
  from Inl assms have "line = stringify ?doc @ [CHR 0x0A]" "code = snd (classify e)"
    by (auto simp: strict_main_def simp del: stringify.simps)
  moreover have "wf_json ?doc" by simp
  ultimately show ?thesis
    using Inl assms(3) by (simp add: parseCliOutcome_def parse_printed_line del: stringify.simps)
qed

theorem console_reads_outcome_witness:
  "\<forall>(C :: nat cli) w. parseCliOutcome (fst (fst (strict_main C [] w))) (int (snd (fst (strict_main C [] w))))
     = \<lparr>oc_ok = False, oc_code = ''INVALID_ARGUMENTS'', oc_exitCode = 2, oc_data = JNull\<rparr>"
proof (intro allI)
  fix C :: "nat cli" and w
  have run: "strict_run C [] w = (Inl invalidArguments, w)"
    by (simp add: strict_run_def andThen_def parseCommand_def commandOptions_def inherited_members_def)
  obtain line code w' where m: "strict_main C [] w = ((line, code), w')" by (metis prod.exhaust)
  with run have "w' = w" by (simp add: strict_main_def)
  with console_reads_outcome [OF m, of "Inl invalidArguments"] run m
  show "parseCliOutcome (fst (fst (strict_main C [] w))) (int (snd (fst (strict_main C [] w))))
     = \<lparr>oc_ok = False, oc_code = ''INVALID_ARGUMENTS'', oc_exitCode = 2, oc_data = JNull\<rparr>"
    by (simp add: invalidArguments_def inputFailure_def)
qed

subsection \<open>The words name the code\<close>

definition words_ok :: "words \<Rightarrow> bool" where
  "words_ok w \<longleftrightarrow> (\<exists>rest. wd_sentence w = ''{code}'' @ rest \<and> CHR ''{'' \<notin> set rest \<and> clean rest)
     \<and> CHR ''{'' \<notin> set (wd_action w) \<and> clean (wd_action w)"

lemma fill_none: "CHR ''{'' \<notin> set t \<Longrightarrow> fill t code = t"
proof (induction t)
  case Nil
  show ?case by (simp add: fill.simps)
next
  case (Cons c t)
  then show ?case by (subst fill.simps) simp
qed

lemma fill_head: "CHR ''{'' \<notin> set rest \<Longrightarrow> fill (''{code}'' @ rest) code = code @ rest"
  by (subst fill.simps) (simp add: fill_none)

lemma clean_em_dash [simp]: "clean em_dash"
  by (simp add: clean_def em_dash_def steersTheDisplay_def continuation_def low6_def)

lemma words_ok_intro:
  assumes "CHR ''{'' \<notin> set a" "plain a" "CHR ''{'' \<notin> set b" "clean b"
  shows "words_ok (words (''{code} '' @ em_dash @ a) b)"
proof -
  have "CHR ''{'' \<notin> set ('' '' @ em_dash @ a)" using assms(1) by (simp add: em_dash_def)
  moreover have "clean ('' '' @ em_dash @ a)" using assms(2) by (intro clean_append plain_clean clean_em_dash) simp_all
  ultimately show ?thesis
    using assms(3,4) unfolding words_ok_def by (intro conjI exI [of _ "'' '' @ em_dash @ a"]) simp_all
qed

lemma tables_ok:
  "list_all (words_ok \<circ> snd) ENTRIES" "list_all (words_ok \<circ> snd) GENERIC"
  "list_all (list_all (words_ok \<circ> snd) \<circ> snd) BY_COMMAND" "words_ok UNCLASSED_WORDS" "words_ok UNREADABLE_WORDS"
  unfolding ENTRIES_def GENERIC_def BY_COMMAND_def UNCLASSED_WORDS_def UNREADABLE_WORDS_def list.pred_inject comp_def snd_conv
  by (intro conjI TrueI words_ok_intro clean_append plain_clean clean_em_dash; simp add: em_dash_def)+

lemma map_of_ok: "list_all (P \<circ> snd) m \<Longrightarrow> map_of m k = Some v \<Longrightarrow> P v"
  by (drule map_of_SomeD) (auto simp: list_all_iff)

lemma wordsFor_ok: "words_ok (wordsFor command code exitCode)"
  unfolding wordsFor_def Let_def
  by (auto split: option.split intro: tables_ok map_of_ok [OF tables_ok(1)] map_of_ok [OF tables_ok(2)]
      map_of_ok [OF map_of_ok [OF tables_ok(3), unfolded comp_def [symmetric]]])

text \<open>
  Every failure is explained, and under its own name: whatever command, code and exit status the
  console is given, the explanation returns all three unchanged, its sentence opens with the code and
  no part of the text it adds steers the display.
\<close>

theorem explanation_names_its_code:
  "case explain command code exitCode of t \<Rightarrow>
     ft_command t = command \<and> ft_code t = code \<and> ft_exitCode t = exitCode
     \<and> (\<exists>rest. ft_sentence t = paintable code @ rest) \<and> clean (ft_sentence t) \<and> clean (ft_action t)"
proof -
  let ?w = "wordsFor command code exitCode"
  from wordsFor_ok [of command code exitCode] obtain rest where
    w: "wd_sentence ?w = ''{code}'' @ rest" "CHR ''{'' \<notin> set rest" "clean rest" "CHR ''{'' \<notin> set (wd_action ?w)" "clean (wd_action ?w)"
    by (auto simp: words_ok_def)
  have "fill (wd_sentence ?w) (paintable code) = paintable code @ rest" "fill (wd_action ?w) (paintable code) = wd_action ?w"
    by (simp_all only: w(1) fill_head [OF w(2)] fill_none [OF w(4)])
  with w(3,5) show ?thesis by (auto simp: explain_def Let_def)
qed

lemma classify_class:
  assumes "\<And>c n. e = CliFailure c n \<Longrightarrow> n \<in> {2, 3, 5}"
  shows "isClass (int (snd (classify e)))"
  using assms by (cases e rule: classify.cases) (auto simp: isClass_def CLASSES_def split: option.split)

end
