(* ===== verification/Frame.thy ===== *)
theory Frame
  imports Operator
begin

text \<open>
  The frames the operator console paints, a function of its state and the terminal's size: the
  confirmation panel (\<open>modal-host.ts\<close>), the panes (\<open>history-pane.ts\<close>, \<open>mailbox-pane.ts\<close>,
  \<open>profiles-pane.ts\<close>) and the chrome around them (\<open>shell-chrome.ts\<close>).
\<close>

subsection \<open>The confirmation panel\<close>

definition TRUST_IDENTIFIER_FIELDS :: "(string \<times> (trust_identifiers \<Rightarrow> string option)) list" where
  "TRUST_IDENTIFIER_FIELDS =
     [(''identity_id'', ti_identity_id), (''device_id'', ti_device_id),
      (''device_pubkey'', ti_device_pubkey), (''signal_identity_key'', ti_signal_identity_key)]"

definition TRUST_MODAL_FOOTER :: "(string \<times> string) list" where
  "TRUST_MODAL_FOOTER = [(''y'', ''trust''), (''n'', ''reject''), (''esc'', ''cancel'')]"

definition MODAL_PANEL_CHROME_X :: int where "MODAL_PANEL_CHROME_X = 4"
definition MODAL_PANEL_MIN_WIDTH :: int where "MODAL_PANEL_MIN_WIDTH = 56"
definition MODAL_PANEL_MIN_HEIGHT :: int where "MODAL_PANEL_MIN_HEIGHT = 14"
definition MODAL_CHROME_ROWS :: int where "MODAL_CHROME_ROWS = 4"
definition MODAL_PANEL_MAX_WIDTH :: int where "MODAL_PANEL_MAX_WIDTH = 80"
definition MODAL_PANEL_MAX_HEIGHT :: int where "MODAL_PANEL_MAX_HEIGHT = 20"
definition MODAL_PANEL_MARGIN :: int where "MODAL_PANEL_MARGIN = 4"

definition panel_span :: "int \<Rightarrow> int \<Rightarrow> int \<Rightarrow> int" where
  "panel_span span low high = max low (min (max 0 (span - MODAL_PANEL_MARGIN)) high)"

definition resolveModalPanelSize :: "int \<Rightarrow> int \<Rightarrow> int \<times> int" where
  "resolveModalPanelSize cols rows =
     (panel_span cols MODAL_PANEL_MIN_WIDTH MODAL_PANEL_MAX_WIDTH, panel_span rows MODAL_PANEL_MIN_HEIGHT MODAL_PANEL_MAX_HEIGHT)"

definition modalBodyRows :: "int \<Rightarrow> int" where
  "modalBodyRows panelHeight = max 1 (panelHeight - MODAL_CHROME_ROWS)"

definition resolveModalInnerWidth :: "int \<Rightarrow> int" where
  "resolveModalInnerWidth availableWidth = max 1 (availableWidth - MODAL_PANEL_CHROME_X)"

definition formatModalFooter :: "(string \<times> string) list \<Rightarrow> string" where
  "formatModalFooter actions = join ''  '' (map (\<lambda>(key, label). ''['' @ key @ ''] '' @ label) actions)"

definition buildTrustModal :: "string \<Rightarrow> string \<Rightarrow> trust_identifiers \<Rightarrow> trust_modal" where
  "buildTrustModal cardPath profileLabel identifiers =
     \<lparr>tm_cardPath = cardPath, tm_profileLabel = profileLabel, tm_identifiers = identifiers, tm_renderedAt = None\<rparr>"

text \<open>A string that is there and not empty.\<close>

definition present :: "string option \<Rightarrow> bool" where
  "present v \<longleftrightarrow> (case v of None \<Rightarrow> False | Some s \<Rightarrow> s \<noteq> [])"

definition trustModalIsComplete :: "trust_modal \<Rightarrow> bool" where
  "trustModalIsComplete modal \<longleftrightarrow> list_all (\<lambda>(name, get). present (get (tm_identifiers modal))) TRUST_IDENTIFIER_FIELDS"

definition horizontal :: string where "horizontal = [CHR 0xE2, CHR 0x94, CHR 0x80]"
definition vertical :: string where "vertical = [CHR 0xE2, CHR 0x94, CHR 0x82]"
definition top_left :: string where "top_left = [CHR 0xE2, CHR 0x95, CHR 0xAD]"
definition top_right :: string where "top_right = [CHR 0xE2, CHR 0x95, CHR 0xAE]"
definition bottom_right :: string where "bottom_right = [CHR 0xE2, CHR 0x95, CHR 0xAF]"
definition bottom_left :: string where "bottom_left = [CHR 0xE2, CHR 0x95, CHR 0xB0]"

lemmas box_chars = horizontal_def vertical_def top_left_def top_right_def bottom_right_def bottom_left_def

definition modal_body :: "trust_modal \<Rightarrow> string list" where
  "modal_body modal =
     [''profile: '' @ tm_profileLabel modal, ''card: '' @ tm_cardPath modal]
     @ concat (map (\<lambda>(name, get). [name @ '':'',
         (case get (tm_identifiers modal) of
            Some v \<Rightarrow> if v \<noteq> [] then ''  '' @ v else ''  (missing)''
          | None \<Rightarrow> ''  (missing)'')]) TRUST_IDENTIFIER_FIELDS)"

definition boxed :: "int \<Rightarrow> string \<Rightarrow> string" where
  "boxed inner s = vertical @ '' '' @ padOrClip (clipLine s inner) inner @ '' '' @ vertical"

definition pad_rows :: "nat \<Rightarrow> 'a \<Rightarrow> 'a list \<Rightarrow> 'a list" where
  "pad_rows n filler rows = rows @ replicate (n - length rows) filler"

definition renderModal :: "trust_modal \<Rightarrow> viewport \<Rightarrow> string list" where
  "renderModal modal v =
     (let (width, height) = resolveModalPanelSize (vp_cols v) (vp_rows v);
          inner = resolveModalInnerWidth width;
          rule = concat (replicate (nat (width - 2)) horizontal);
          bodyRows = nat (modalBodyRows height);
          painted = pad_rows bodyRows [] (take bodyRows (modal_body modal));
          lines = [top_left @ rule @ top_right, boxed inner ''Trust these contact identifiers?'']
            @ map (boxed inner) painted
            @ [boxed inner (formatModalFooter TRUST_MODAL_FOOTER), bottom_left @ rule @ bottom_right]
      in map (\<lambda>line. padOrClip line width) (take (nat height) (pad_rows (nat height) (boxed inner []) lines)))"

fun modalIntent :: "key_event \<Rightarrow> intent option" where
  "modalIntent key =
     (if ke_ctrl key then None
      else if ke_name key = ''y'' then Some TrustConfirm
      else if ke_name key = ''n'' then Some TrustCancel
      else if ke_name key = ''escape'' then Some TrustCancel
      else None)"

subsection \<open>The conversation pane\<close>

record history_snapshot =
  hs_contact :: "string option"
  hs_lines :: "(string \<times> string) list"
  hs_withheldCount :: nat

definition BODY_INDENT :: string where "BODY_INDENT = ''    ''"
definition MAX_BODY_ROWS :: nat where "MAX_BODY_ROWS = 4"

text \<open>A list cut into runs of \<open>n\<close>, which is never zero here.\<close>

function chunks :: "nat \<Rightarrow> 'a list \<Rightarrow> 'a list list" where
  "chunks n xs = (if xs = [] \<or> n = 0 then [] else take n xs # chunks n (drop n xs))"
  by pat_completeness auto
termination by (relation "measure (length \<circ> snd)") auto

declare chunks.simps [simp del]

definition bodyRows :: "string \<Rightarrow> int \<Rightarrow> string list" where
  "bodyRows body width =
     (let room = nat (max 1 (width - int (length BODY_INDENT))); points = codePoints body;
          wrapped = map concat (chunks room points)
      in if length wrapped \<le> MAX_BODY_ROWS then map (\<lambda>row. BODY_INDENT @ row) wrapped
         else
           let kept = take MAX_BODY_ROWS wrapped; final = codePoints (kept ! (MAX_BODY_ROWS - 1))
           in map (\<lambda>row. BODY_INDENT @ row)
                (kept[MAX_BODY_ROWS - 1 := concat (take (room - 1) final) @ ellipsis]))"

fun direction_name :: "entry_direction \<Rightarrow> string" where
  "direction_name InboundEntry = ''inbound''"
| "direction_name OutboundEntry = ''outbound''"

definition buildHistorySnapshot :: "history_view list \<Rightarrow> string option \<Rightarrow> history_snapshot" where
  "buildHistorySnapshot entries selectedContactId =
     (case selectedContactId of
        None \<Rightarrow> \<lparr>hs_contact = None, hs_lines = [], hs_withheldCount = length entries\<rparr>
      | Some contact \<Rightarrow>
          let selected = filter (\<lambda>e. he_contactIdentityId e = contact) entries
          in \<lparr>hs_contact = Some contact,
              hs_lines = map (\<lambda>e. (show_int (he_sequence e) @ ''  '' @ direction_name (he_direction e) @ ''  '' @ he_messageId e,
                he_plaintext e)) selected,
              hs_withheldCount = length entries - length selected\<rparr>)"

definition formatHistoryLines :: "history_snapshot \<Rightarrow> int \<Rightarrow> int option \<Rightarrow> string list" where
  "formatHistoryLines snapshot width limit =
     (let (head, rows) =
        (case hs_contact snapshot of
           None \<Rightarrow> ([''no contact selected '' @ em_dash @ '' history is shown only on an explicit request''], [])
         | Some contact \<Rightarrow>
             if hs_lines snapshot = [] then ([''history with '' @ contact, ''  no entries for this contact''], [])
             else ([''history with '' @ contact],
               map (\<lambda>(meta, body). BlockRow ((''  '' @ meta) # bodyRows body width)) (hs_lines snapshot)));
        tail = (if hs_withheldCount snapshot > 0
                then [[], show_nat (hs_withheldCount snapshot) @ '' entries withheld (other contacts)''] else [])
      in fitPane head rows tail KeepTail limit width)"

subsection \<open>The mailbox pane\<close>

record mailbox_snapshot =
  ms_rows :: "(string \<times> string) list"
  ms_rejectionLines :: "string list"
  ms_rejectionCount :: nat

definition countedValue :: "int option \<Rightarrow> string \<Rightarrow> string \<Rightarrow> string" where
  "countedValue figure unit absent = (case figure of None \<Rightarrow> absent | Some n \<Rightarrow> show_int n @ '' '' @ unit)"

definition formatRejectionLine :: "rejection_view \<Rightarrow> string" where
  "formatRejectionLine rejection = rj_envelopeId rejection @ ''  '' @ rj_code rejection"

definition buildMailboxSnapshot :: "mailbox_view \<Rightarrow> rejection_view list \<Rightarrow> mailbox_snapshot" where
  "buildMailboxSnapshot mailbox rejections =
     \<lparr>ms_rows =
        [(''outbox'', countedValue (mb_outboxPending mailbox) ''pending'' ''no command reports an outbox count''),
         (''inbox'', countedValue (mb_inboxReceived mailbox) ''received by the last poll'' ''no poll has reported yet''),
         (''more'', if mb_more mailbox then ''yes '' @ em_dash @ '' poll again'' else ''no''),
         (''last poll'', formatInstant (mb_lastPolledAtMs mailbox))],
      ms_rejectionLines = map formatRejectionLine rejections, ms_rejectionCount = length rejections\<rparr>"

definition formatMailboxLines :: "mailbox_snapshot \<Rightarrow> int \<Rightarrow> int option \<Rightarrow> string list" where
  "formatMailboxLines snapshot width limit =
     (let head = map (\<lambda>(label, v). labelled label v) (ms_rows snapshot)
        @ (if ms_rejectionCount snapshot > 0
           then [[], labelled ''rejected'' (show_nat (ms_rejectionCount snapshot) @ '' permanently unacceptable'')] else []);
        rows = map (\<lambda>r. LineRow (''  '' @ r)) (ms_rejectionLines snapshot)
      in fitPane head rows [] KeepTail limit width)"

subsection \<open>The profiles pane\<close>

record profiles_snapshot =
  ps_rows :: "(string \<times> string) list"
  ps_contactLines :: "string list"
  ps_rosterDiscrepancy :: "string option"
  ps_healthLine :: string
  ps_setupLines :: "string list option"

definition SETUP_TITLES :: "(string \<times> string) list" where
  "SETUP_TITLES =
     [(''store key'', []), (''create profile'', ''init''), (''publish'', ''relay publish''),
      (''export card'', ''contact export''), (''import card'', ''contact import''), (''confirm'', ''doctor'')]"

definition STEP_GUTTER :: string where "STEP_GUTTER = replicate 8 CHR '' ''"
definition TITLE_WIDTH :: int where "TITLE_WIDTH = 16"
definition COMMAND_WIDTH :: int where "COMMAND_WIDTH = 16"

definition storeKeyRecipe :: "string \<Rightarrow> string" where
  "storeKeyRecipe storeKeyEnv =
     ''export '' @ storeKeyEnv @ ''='' @ [CHR 0x22] @ ''$(head -c 32 /dev/urandom | base64 | tr '' @ [CHR 0x27] @ ''+/'' @ [CHR 0x27]
     @ '' '' @ [CHR 0x27] @ ''-_'' @ [CHR 0x27] @ '' | tr -d '' @ [CHR 0x27] @ ''='' @ [CHR 0x27] @ '')'' @ [CHR 0x22]"

fun stepStatus :: "step_outcome option \<Rightarrow> string" where
  "stepStatus None = ''pending''"
| "stepStatus (Some StepPending) = ''pending''"
| "stepStatus (Some StepOk) = ''ok''"
| "stepStatus (Some (StepFailed failed exitCode)) = failed @ '' (exit '' @ show_int exitCode @ '')''"

fun stepHint :: "nat \<Rightarrow> step_outcome option \<Rightarrow> string option" where
  "stepHint step (Some (StepFailed failed exitCode)) =
     (if step \<noteq> 3 \<or> exitCode \<noteq> 5 then None
      else Some (''a file at that path already exists '' @ em_dash @ '' `contact export` never overwrites one''))"
| "stepHint step _ = None"

definition setup_step_lines :: "profile_view \<Rightarrow> nat \<Rightarrow> string list" where
  "setup_step_lines profile step =
     (let setup = (case pv_setup profile of None \<Rightarrow> [] | Some s \<Rightarrow> s);
          (title, command) = (case at SETUP_TITLES step of None \<Rightarrow> ([], []) | Some p \<Rightarrow> p);
          prefix_text = ''step '' @ show_nat step @ ''  '' @ padOrClip title TITLE_WIDTH
      in if step = 0 then
           (if pv_storeKeyPresent profile = Some True then [prefix_text @ padOrClip [] COMMAND_WIDTH @ ''ok'']
            else [prefix_text @ pv_storeKeyEnv profile @ '' is not set in this console'' @ [CHR 0x27] @ ''s environment'',
                  STEP_GUTTER @ padOrClip [] TITLE_WIDTH @ ''run this in your shell, then restart the console:'',
                  STEP_GUTTER @ padOrClip [] TITLE_WIDTH @ ''  '' @ storeKeyRecipe (pv_storeKeyEnv profile)])
         else (prefix_text @ padOrClip command COMMAND_WIDTH @ stepStatus (at setup step))
              # (case stepHint step (at setup step) of None \<Rightarrow> [] | Some hint \<Rightarrow> [STEP_GUTTER @ padOrClip [] TITLE_WIDTH @ hint]))"

definition buildSetupLines :: "profile_view \<Rightarrow> string list" where
  "buildSetupLines profile =
     (''registration '' @ em_dash @ '' [enter] starts the next step'')
     # concat (map (setup_step_lines profile) [0..<SETUP_STEPS])"

definition formatHealthLine :: "relay_health \<Rightarrow> string" where
  "formatHealthLine health =
     (case rh_status health of
        RelayHealthy \<Rightarrow>
          (let uptime = (case rh_uptimeMs health of None \<Rightarrow> [] | Some u \<Rightarrow> ''uptime '' @ show_int u @ '' ms, '')
           in ''relay '' @ rh_relayUrl health @ '' healthy ('' @ uptime @ ''checked '' @ formatInstant (rh_checkedAtMs health) @ '')'')
      | RelayUnreachable \<Rightarrow>
          ''relay '' @ rh_relayUrl health @ '' unreachable (checked '' @ formatInstant (rh_checkedAtMs health) @ '')''
      | RelayUnknown \<Rightarrow> ''relay '' @ rh_relayUrl health @ '' not yet checked'')"

definition buildProfilesSnapshot :: "profile_view \<Rightarrow> contact_view list \<Rightarrow> relay_health \<Rightarrow> profiles_snapshot" where
  "buildProfilesSnapshot profile contacts health =
     (let unseen = pv_contactCount profile - int (length contacts)
      in \<lparr>ps_rows =
            [(''profile'', pv_label profile), (''relay'', pv_relayUrl profile), (''store-key-env'', pv_storeKeyEnv profile),
             (''identity'', pv_identityId profile), (''device'', pv_deviceId profile),
             (''published'', if pv_published profile then ''yes, by this session'' else ''not observed by this session''),
             (''directory'', pv_profileDir profile)],
          ps_contactLines = map (\<lambda>c. cv_identityId c @ ''  '' @ cv_deviceId c) contacts,
          ps_rosterDiscrepancy = (if unseen > 0
            then Some (''+'' @ show_int unseen @ '' pinned by doctor but not seen by this session (no CLI command lists contacts)'')
            else None),
          ps_healthLine = formatHealthLine health,
          ps_setupLines = (if profileIsInSetup profile then Some (buildSetupLines profile) else None)\<rparr>)"

definition formatProfilesLines :: "profiles_snapshot \<Rightarrow> int \<Rightarrow> int option \<Rightarrow> string list" where
  "formatProfilesLines snapshot width limit =
     (case ps_setupLines snapshot of
        Some setup \<Rightarrow> fitPane setup [] [[], ps_healthLine snapshot] KeepHead limit width
      | None \<Rightarrow>
          let head = map (\<lambda>(label, v). labelled label v) (ps_rows snapshot)
                @ [[], labelled ''contacts'' (show_nat (length (ps_contactLines snapshot)) @ '' observed this session'')]
                @ (case ps_rosterDiscrepancy snapshot of None \<Rightarrow> [] | Some d \<Rightarrow> [d]);
              rows = map (\<lambda>c. LineRow (''  '' @ c)) (ps_contactLines snapshot)
          in fitPane head rows [[], ps_healthLine snapshot] KeepHead limit width)"

subsection \<open>The chrome\<close>

definition UNAUDITED_NOTICE :: string where
  "UNAUDITED_NOTICE = ''UNAUDITED PROTOTYPE '' @ em_dash @ '' not suitable for sensitive communication''"

definition MIN_VIEWPORT :: viewport where "MIN_VIEWPORT = \<lparr>vp_cols = 72, vp_rows = 16\<rparr>"

definition isBelowMinViewport :: "viewport \<Rightarrow> bool" where
  "isBelowMinViewport v \<longleftrightarrow> vp_cols v < vp_cols MIN_VIEWPORT \<or> vp_rows v < vp_rows MIN_VIEWPORT"

definition fitLine :: "string \<Rightarrow> int \<Rightarrow> string" where
  "fitLine text cols = padOrClip text cols"

definition FIRST_OVERLAY_ROW :: int where "FIRST_OVERLAY_ROW = 1"
definition HEAD_ROWS :: int where "HEAD_ROWS = 3"
definition TAIL_ROWS :: int where "TAIL_ROWS = 2"

definition middle_dot :: string where "middle_dot = [CHR 0xC2, CHR 0xB7]"

definition headerLine :: "operator_state \<Rightarrow> string" where
  "headerLine s =
     (let tabs = concat (map (\<lambda>(index, pane).
            (let title = show_nat (index + 1) @ '' '' @ pane_name pane in
             if pane = os_pane s then ''['' @ title @ '']'' else '' '' @ title @ '' '')) (enumerate 0 PANE_IDS))
      in ''echolet operator '' @ middle_dot @ '' '' @ (case active s of None \<Rightarrow> ''no profile'' | Some p \<Rightarrow> pv_label p)
         @ '' '' @ middle_dot @ tabs)"

text \<open>The advertised keys, each with the rank that orders their removal.\<close>

definition FOOTER_KEYS :: "(string \<times> nat) list" where
  "FOOTER_KEYS =
     [(''[1-5] pane'', 3), (''[p] poll'', 4), (''[d] doctor'', 5), (''[r] publish'', 6), (''[h] history'', 7),
      (''[i] import'', 8), (''[c] contact'', 9), (''[t] profile'', 10), (''[?] help'', 2), (''[q] quit'', 1)]"

definition FOOTER_KEYS_HELP_OPEN :: "(string \<times> nat) list" where
  "FOOTER_KEYS_HELP_OPEN =
     map (\<lambda>(label, rank). if label = ''[?] help'' then (''[?] close'', rank) else (label, rank)) FOOTER_KEYS"

definition FOOTER_SEPARATOR :: string where "FOOTER_SEPARATOR = ''  ''"

definition paint_keys :: "(string \<times> nat) list \<Rightarrow> nat list \<Rightarrow> string" where
  "paint_keys entries chosen = join FOOTER_SEPARATOR (map (\<lambda>i. fst (entries ! i)) (sort chosen))"

fun choose_keys :: "(string \<times> nat) list \<Rightarrow> int \<Rightarrow> nat list \<Rightarrow> nat list \<Rightarrow> nat list" where
  "choose_keys entries cols chosen [] = chosen"
| "choose_keys entries cols chosen (i # is) =
     (if columns (paint_keys entries (chosen @ [i])) > nat cols then chosen
      else choose_keys entries cols (chosen @ [i]) is)"

definition fitFooter :: "(string \<times> nat) list \<Rightarrow> int \<Rightarrow> string" where
  "fitFooter entries cols =
     paint_keys entries (choose_keys entries cols [] (sort_key (\<lambda>i. snd (entries ! i)) [0..<length entries]))"

fun submitLabel :: "input_field \<Rightarrow> string" where
  "submitLabel MessageField = ''[enter] send  ''"
| "submitLabel RelayUrlField = ''[enter] run  ''"
| "submitLabel ExportPathField = ''[enter] run  ''"
| "submitLabel CardPathField = ''[enter] run  ''"
| "submitLabel _ = []"

definition footerLine :: "operator_state \<Rightarrow> int \<Rightarrow> string" where
  "footerLine s cols =
     (if os_modal s \<noteq> None then ''[y] trust  [n] reject  [esc] cancel  [ctrl-c] quit''
      else
        (case os_input s of
           Some i \<Rightarrow> submitLabel (ip_field i) @ ''[esc] cancel  [ctrl-c] quit''
         | None \<Rightarrow> fitFooter (if os_help s = Some True then FOOTER_KEYS_HELP_OPEN else FOOTER_KEYS) cols))"

definition small_triangle :: string where "small_triangle = [CHR 0xE2, CHR 0x96, CHR 0xB8]"

definition composeLine :: "input_state \<Rightarrow> int \<Rightarrow> string" where
  "composeLine i cols =
     (let label = field_name (ip_field i) @ '' '' @ small_triangle @ '' ''; used = utf8Bytes (ip_buffer i);
          counter = (if used * 2 > ip_maxBytes i
            then ''  '' @ show_nat used @ ''/'' @ show_nat (ip_maxBytes i) @ '' bytes'' else []);
          room = nat (cols - int (columns label) - int (columns counter)); points = codePoints (ip_buffer i);
          shown = (if length points \<le> room then ip_buffer i else concat (drop (length points - room) points))
      in label @ shown @ counter)"

definition activityLine :: "operator_state \<Rightarrow> string" where
  "activityLine s =
     (let line = (if os_activity s = [] then ''no activity yet'' else ac_text (last (os_activity s)))
      in if os_busy s then ''running'' @ ellipsis @ '' (busy '' @ em_dash @ '' a command key starts nothing) '' @ line else line)"

definition HELP_LINES_HEAD :: "string list" where
  "HELP_LINES_HEAD =
     [''key bindings'',
      ''  1-5        select pane'',
      ''  enter      start the next registration step (profiles pane, while one is left)'',
      ''  p          poll'',
      ''  d          doctor'',
      ''  r          relay publish'',
      ''  h          history for the selected contact'',
      ''  w          write a message (history pane, with a contact selected)'',
      ''  i          import the contact card named at startup'',
      ''  c          next contact'',
      ''  t          next profile'',
      ''  ?          close this list'']"

definition helpQuitLine :: "operator_state \<Rightarrow> string" where
  "helpQuitLine s =
     (if os_modal s \<noteq> None \<or> os_input s \<noteq> None then ''  ctrl-c     quit'' else ''  q          quit (ctrl-c also quits)'')"

definition helpLines :: "operator_state \<Rightarrow> string list" where
  "helpLines s = HELP_LINES_HEAD @ [helpQuitLine s]"

fun status_name :: "relay_status \<Rightarrow> string" where
  "status_name RelayHealthy = ''healthy''"
| "status_name RelayUnreachable = ''unreachable''"
| "status_name RelayUnknown = ''unknown''"

definition no_profile_view :: "operator_state \<Rightarrow> profile_view" where
  "no_profile_view s =
     \<lparr>pv_label = ''-'', pv_profileDir = ''-'', pv_relayUrl = rh_relayUrl (os_health s), pv_storeKeyEnv = ''-'',
      pv_identityId = ''-'', pv_deviceId = ''-'', pv_contactCount = 0, pv_published = False, pv_state = None,
      pv_storeKeyPresent = None, pv_setup = None, pv_contactCardPath = None\<rparr>"

definition paneLines :: "operator_state \<Rightarrow> pane_id \<Rightarrow> int \<Rightarrow> int \<Rightarrow> string list" where
  "paneLines s pane width rows =
     (if os_help s = Some True
      then (let lines = helpLines s in fitPane [hd lines] (map LineRow (tl lines)) [] KeepHead (Some rows) width)
      else
        (case pane of
           ProfilesPane \<Rightarrow>
             (case active s of
                None \<Rightarrow> [clipLine (''no profile configured '' @ em_dash @ '' run init first'') width]
              | Some profile \<Rightarrow>
                  formatProfilesLines (buildProfilesSnapshot profile (os_contacts s) (os_health s)) width (Some rows))
         | MailboxPane \<Rightarrow> formatMailboxLines (buildMailboxSnapshot (os_mailbox s) (os_rejections s)) width (Some rows)
         | HistoryPane \<Rightarrow>
             formatHistoryLines (buildHistorySnapshot (os_history s) (os_selectedContactId s)) width (Some rows)
         | RejectionsPane \<Rightarrow>
             (let snapshot = buildMailboxSnapshot (os_mailbox s) (os_rejections s) in
              if ms_rejectionCount snapshot = 0
              then [clipLine ''no permanently rejected envelopes in the last poll'' width]
              else fitPane [show_nat (ms_rejectionCount snapshot) @ '' rejected by the last poll'']
                     (map (\<lambda>line. LineRow (''  '' @ line)) (ms_rejectionLines snapshot)) [] KeepTail (Some rows) width)
         | HealthPane \<Rightarrow>
             (let profile = (case active s of None \<Rightarrow> no_profile_view s | Some p \<Rightarrow> p);
                  snapshot = buildProfilesSnapshot profile (os_contacts s) (os_health s)
              in [clipLine (ps_healthLine snapshot) width, [],
                  clipLine (''status  '' @ status_name (rh_status (os_health s))) width])))"

definition wrapToWidth :: "string \<Rightarrow> int \<Rightarrow> string list" where
  "wrapToWidth text cols =
     (let points = codePoints text in if points = [] then [[]] else map concat (chunks (nat cols) points))"

definition tooSmallFrame :: "operator_state \<Rightarrow> int \<Rightarrow> int \<Rightarrow> string list" where
  "tooSmallFrame s cols rows =
     (let composing = os_input s \<noteq> None; ctrlCOnly = os_modal s \<noteq> None \<or> composing
      in wrapToWidth UNAUDITED_NOTICE cols @ [[]]
         @ wrapToWidth (show_int cols @ ''x'' @ show_int rows @ '' '' @ em_dash @ '' this console needs ''
             @ show_int (vp_cols MIN_VIEWPORT) @ ''x'' @ show_int (vp_rows MIN_VIEWPORT)) cols
         @ wrapToWidth (if ctrlCOnly then ''resize, or press ctrl-c to quit'' else ''resize, or press q to quit'') cols
         @ (if os_modal s \<noteq> None
            then [] # wrapToWidth (''a trust decision is waiting '' @ em_dash @ '' resize to answer it'') cols else [])
         @ (if composing
            then [] # wrapToWidth (''a message is being composed '' @ em_dash @ '' resize to see and send it'') cols else []))"

text \<open>Each cell of a panel line over the cell of the frame it covers.\<close>

fun overlay_cells :: "nat \<Rightarrow> string list \<Rightarrow> string list \<Rightarrow> string list" where
  "overlay_cells column cs [] = cs"
| "overlay_cells column cs (p # ps) =
     overlay_cells (Suc column) (if column < length cs then cs[column := p] else cs) ps"

fun overlay_rows :: "nat \<Rightarrow> nat \<Rightarrow> string list \<Rightarrow> string list \<Rightarrow> string list" where
  "overlay_rows left row frame [] = frame"
| "overlay_rows left row frame (l # ls) =
     overlay_rows left (Suc row)
       (if row < length frame
        then frame[row := concat (overlay_cells left (codePoints (frame ! row)) (codePoints l))] else frame) ls"

definition overlayModal :: "string list \<Rightarrow> trust_modal \<Rightarrow> viewport \<Rightarrow> string list" where
  "overlayModal frame modal v =
     (let (width, height) = resolveModalPanelSize (vp_cols v) (vp_rows v);
          top = min (max FIRST_OVERLAY_ROW ((vp_rows v - height) div 2)) (max FIRST_OVERLAY_ROW (vp_rows v - height));
          left = max 0 ((vp_cols v - width) div 2)
      in overlay_rows (nat left) (nat top) frame (renderModal modal v))"

definition renderFrame :: "operator_state \<Rightarrow> viewport \<Rightarrow> string list" where
  "renderFrame s v =
     (let cols = max 1 (vp_cols v); rows = max 1 (vp_rows v) in
      if isBelowMinViewport \<lparr>vp_cols = cols, vp_rows = rows\<rparr>
      then pad_rows (nat rows) (fitLine [] cols) (map (\<lambda>line. fitLine line cols) (take (nat rows) (tooSmallFrame s cols rows)))
      else
        let head = take (nat (min HEAD_ROWS rows)) [UNAUDITED_NOTICE, headerLine s, concat (replicate (nat cols) horizontal)];
            tail = take (nat (min TAIL_ROWS (rows - int (length head)))) [activityLine s, footerLine s cols];
            bodyRows = nat (rows - int (length head) - int (length tail));
            composeRows = (if os_input s \<noteq> None \<and> bodyRows > 0 then 1 else 0);
            paneRows = bodyRows - composeRows;
            body = pad_rows paneRows [] (take paneRows (paneLines s (os_pane s) cols (int paneRows)));
            compose = (case os_input s of Some i \<Rightarrow> if composeRows = 1 then [composeLine i cols] else [] | None \<Rightarrow> []);
            frame = map (\<lambda>line. fitLine line cols) (head @ body @ compose @ tail)
        in (case os_modal s of
              None \<Rightarrow> frame
            | Some modal \<Rightarrow> overlayModal frame modal \<lparr>vp_cols = cols, vp_rows = rows\<rparr>))"

definition ESC :: string where "ESC = [CHR 0x1B]"
definition BOLD :: string where "BOLD = ESC @ ''[1m''"
definition DIM :: string where "DIM = ESC @ ''[2m''"
definition RESET :: string where "RESET = ESC @ ''[0m''"

definition styleFrame :: "string list \<Rightarrow> string list" where
  "styleFrame frame = map (\<lambda>(index, line).
     if sublist UNAUDITED_NOTICE line then BOLD @ line @ RESET
     else if index = 1 then BOLD @ line @ RESET
     else if prefix horizontal line then DIM @ line @ RESET else line) (enumerate (0 :: nat) frame)"

subsection \<open>The shape of a frame\<close>

lemma length_pad_rows [simp]: "length (pad_rows n f xs) = max n (length xs)"
  by (simp add: pad_rows_def)

lemma set_pad_rows: "x \<in> set (pad_rows n f xs) \<Longrightarrow> x \<in> set xs \<or> x = f"
  by (auto simp: pad_rows_def)

lemma length_overlay_cells [simp]: "length (overlay_cells c cs ps) = length cs"
  by (induction c cs ps rule: overlay_cells.induct) auto

lemma overlay_cells_keeps:
  assumes "cells cs" "list_all cell ps" "list_all starts ps"
  shows "cells (overlay_cells c cs ps)"
  using assms
proof (induction c cs ps rule: overlay_cells.induct)
  case (2 column cs p ps)
  have "cells (cs[column := p])" if "column < length cs"
    using 2(2-4) that by (cases cs; cases column)
      (auto simp: cells_def list_all_iff dest: set_update_subset_insert [THEN subsetD])
  with 2 show ?case by simp
qed simp

lemma length_overlay_rows [simp]: "length (overlay_rows left row frame ls) = length frame"
  by (induction left row frame ls rule: overlay_rows.induct) auto

lemma overlay_rows_nth:
  "j < length frame \<Longrightarrow>
     overlay_rows left row frame ls ! j =
       (if row \<le> j \<and> j < row + length ls
        then concat (overlay_cells left (codePoints (frame ! j)) (codePoints (ls ! (j - row)))) else frame ! j)"
proof (induction left row frame ls rule: overlay_rows.induct)
  case (2 left row frame l ls)
  then show ?case by (cases "j = row") (auto simp: Suc_le_eq nth_Cons' Suc_diff_Suc)
qed auto

lemma box_starts [simp]:
  "starts (horizontal @ s)" "starts (vertical @ s)" "starts (top_left @ s)" "starts (top_right @ s)"
  "starts (bottom_left @ s)" "starts (bottom_right @ s)"
  by (simp_all add: box_chars starts_def continuation_def)

lemma starts_take: "starts s \<Longrightarrow> starts (concat (take n (codePoints s)))"
  by (rule concat_starts)
    (use codePoints_cells [of s] codePoints_heads [of s] in \<open>auto simp: cells_def list_all_iff dest: in_set_takeD\<close>)

lemma starts_padOrClip: "starts s \<Longrightarrow> starts (padOrClip s w)"
  by (auto simp: padOrClip_def Let_def starts_take starts_append)

lemma panel_lines_start:
  assumes "l \<in> set (renderModal modal v)"
  shows "starts l"
proof -
  have b: "starts (boxed inner s)" for inner s by (simp add: boxed_def)
  from assms show ?thesis
    unfolding renderModal_def Let_def case_prod_unfold
    by (auto dest!: in_set_takeD set_pad_rows intro!: starts_padOrClip simp: b)
qed

lemma columns_overlaid:
  assumes "starts l"
  shows "columns (concat (overlay_cells c (codePoints base) (codePoints l))) = columns base"
proof -
  have "cells (overlay_cells c (codePoints base) (codePoints l))"
    using codePoints_cells [of l] codePoints_heads [OF assms]
    by (intro overlay_cells_keeps codePoints_cells) (simp_all add: cells_def)
  then show ?thesis by (simp add: columns_def codePoints_concat)
qed

lemma overlayModal_shape:
  assumes "\<forall>line \<in> set frame. columns line = n"
  shows "length (overlayModal frame modal v) = length frame \<and> (\<forall>line \<in> set (overlayModal frame modal v). columns line = n)"
proof -
  obtain left row where o: "overlayModal frame modal v = overlay_rows left row frame (renderModal modal v)"
    by (auto simp: overlayModal_def Let_def case_prod_unfold)
  have "columns (overlayModal frame modal v ! j) = n" if j: "j < length frame" for j
  proof -
    from j assms have "columns (frame ! j) = n" by simp
    moreover have "starts (renderModal modal v ! (j - row))" if "row \<le> j" "j < row + length (renderModal modal v)"
      using that by (intro panel_lines_start [of _ modal v] nth_mem) simp
    ultimately show ?thesis unfolding o overlay_rows_nth [OF j] by (simp add: columns_overlaid)
  qed
  then show ?thesis unfolding o by (auto simp: in_set_conv_nth)
qed

text \<open>The lines of a frame that fits, before they are fitted and the panel is laid over them.\<close>

definition compose_rows :: "operator_state \<Rightarrow> int \<Rightarrow> string list" where
  "compose_rows s cols = (case os_input s of Some i \<Rightarrow> [composeLine i cols] | None \<Rightarrow> [])"

definition pane_rows :: "operator_state \<Rightarrow> int \<Rightarrow> int \<Rightarrow> nat" where
  "pane_rows s cols rows = nat rows - 5 - length (compose_rows s cols)"

definition frame_lines :: "operator_state \<Rightarrow> int \<Rightarrow> int \<Rightarrow> string list" where
  "frame_lines s cols rows =
     [UNAUDITED_NOTICE, headerLine s, concat (replicate (nat cols) horizontal)]
     @ pad_rows (pane_rows s cols rows) []
         (take (pane_rows s cols rows) (paneLines s (os_pane s) cols (int (pane_rows s cols rows))))
     @ compose_rows s cols @ [activityLine s, footerLine s cols]"

lemma renderFrame_small:
  "isBelowMinViewport v \<Longrightarrow>
     renderFrame s v = (let cols = max 1 (vp_cols v); rows = max 1 (vp_rows v)
       in pad_rows (nat rows) (fitLine [] cols) (map (\<lambda>line. fitLine line cols) (take (nat rows) (tooSmallFrame s cols rows))))"
  by (auto simp: renderFrame_def Let_def isBelowMinViewport_def MIN_VIEWPORT_def)

lemma renderFrame_big:
  assumes "\<not> isBelowMinViewport v"
  shows "renderFrame s v =
    (let frame = map (\<lambda>line. fitLine line (vp_cols v)) (frame_lines s (vp_cols v) (vp_rows v)) in
     case os_modal s of None \<Rightarrow> frame | Some modal \<Rightarrow> overlayModal frame modal v)"
proof -
  define cols rows where "cols = vp_cols v" and "rows = vp_rows v"
  from assms have big: "72 \<le> cols" "16 \<le> rows" by (simp_all add: isBelowMinViewport_def MIN_VIEWPORT_def cols_def rows_def)
  then have m: "max 1 cols = cols" "max 1 rows = rows" by simp_all
  have v: "\<lparr>vp_cols = cols, vp_rows = rows\<rparr> = v" by (simp add: cols_def rows_def)
  have h: "nat (min HEAD_ROWS rows) = 3" "nat (min TAIL_ROWS (rows - int 3)) = 2" "nat (rows - int 3 - int 2) = nat rows - 5"
    "0 < nat rows - 5" using big by (simp_all add: HEAD_ROWS_def TAIL_ROWS_def)
  have t: "take 3 [x, y, z] = [x, y, z]" "length [x, y, z] = 3" "take 2 [x, y] = [x, y]" "length [x, y] = 2" for x y z :: string
    by simp_all
  show ?thesis
    using assms h(4)
    unfolding renderFrame_def frame_lines_def pane_rows_def Let_def cols_def [symmetric] rows_def [symmetric] m v h t compose_rows_def
    by (cases "os_input s"; cases "os_modal s") simp_all
qed

lemma length_frame_lines: "16 \<le> rows \<Longrightarrow> length (frame_lines s cols rows) = nat rows"
proof -
  have "length (compose_rows s cols) \<le> 1" by (simp add: compose_rows_def split: option.split)
  then show "16 \<le> rows \<Longrightarrow> length (frame_lines s cols rows) = nat rows"
    by (simp add: frame_lines_def pane_rows_def)
qed

text \<open>
  C20. A frame is exactly as large as the terminal: whatever the state - any profile, message,
  history, draft or open confirmation - and whatever size is reported, a frame has exactly as many
  lines as the terminal has rows, and each line exactly as many code points as it has columns.
\<close>

theorem frame_fits_terminal:
  "length (renderFrame s v) = nat (max 1 (vp_rows v))
   \<and> (\<forall>line \<in> set (renderFrame s v). columns line = nat (max 1 (vp_cols v)))"
proof (cases "isBelowMinViewport v")
  case True
  show ?thesis unfolding renderFrame_small [OF True] Let_def
    by (auto simp: fitLine_def dest!: set_pad_rows)
next
  case False
  then have big: "max 1 (vp_cols v) = vp_cols v" "16 \<le> vp_rows v" "max 1 (vp_rows v) = vp_rows v"
    by (simp_all add: isBelowMinViewport_def MIN_VIEWPORT_def)
  have c: "\<forall>line \<in> set (map (\<lambda>line. fitLine line (vp_cols v)) (frame_lines s (vp_cols v) (vp_rows v))). columns line = nat (vp_cols v)"
    by (simp add: fitLine_def)
  show ?thesis unfolding renderFrame_big [OF False] Let_def big(1,3)
    using c overlayModal_shape [OF c] by (auto simp: length_frame_lines [OF big(2)] split: option.split)
qed

theorem frame_fits_terminal_witness:
  "\<exists>lines. renderFrame (createInitialState []) \<lparr>vp_cols = 80, vp_rows = 24\<rparr> = lines \<and> length lines = 24 \<and> columns (hd lines) = 80"
proof -
  have "renderFrame (createInitialState []) \<lparr>vp_cols = 80, vp_rows = 24\<rparr> \<noteq> []"
    using frame_fits_terminal [of "createInitialState []" "\<lparr>vp_cols = 80, vp_rows = 24\<rparr>"] by auto
  then show ?thesis
    using frame_fits_terminal [of "createInitialState []" "\<lparr>vp_cols = 80, vp_rows = 24\<rparr>"] hd_in_set by auto
qed

subsection \<open>What the operator is shown\<close>

lemma overlay_cells_split:
  "c + length ps \<le> length cs \<Longrightarrow> overlay_cells c cs ps = take c cs @ ps @ drop (c + length ps) cs"
proof (induction c cs ps rule: overlay_cells.induct)
  case (2 c cs p ps)
  then show ?case by (simp add: take_Suc_conv_app_nth)
qed simp

lemma padOrClip_exact: "columns s = nat w \<Longrightarrow> padOrClip s w = s"
  by (simp add: padOrClip_def columns_def)

lemma padOrClip_short: "columns s \<le> nat w \<Longrightarrow> padOrClip s w = s @ replicate (nat w - columns s) CHR '' ''"
  by (auto simp: padOrClip_def columns_def Let_def)

lemma clipLine_short: "columns s \<le> nat w \<Longrightarrow> clipLine s w = s"
  by (simp add: clipLine_def columns_def)

lemma columns_append: "starts b \<Longrightarrow> columns (a @ b) = columns a + columns b"
  by (simp add: columns_def codePoints_append)

lemma columns_ascii: "plain s \<Longrightarrow> columns s = length s"
proof (induction s)
  case (Cons c s)
  then have "starts s" by (simp add: plain_clean clean_starts)
  with columns_append [of s "[c]"] Cons show ?case by (simp add: columns_def)
qed (simp add: columns_def)

lemma columns_vertical [simp]: "columns vertical = 1"
  by (simp add: columns_def vertical_def continuation_def)

lemma boxed_short:
  assumes "columns t \<le> nat inner" "0 \<le> inner" "starts t"
  shows "columns (boxed inner t) = nat (inner + 4)" "sublist t (boxed inner t)"
proof -
  have p: "padOrClip (clipLine t inner) inner = t @ replicate (nat inner - columns t) CHR '' ''"
    using assms(1) by (simp add: clipLine_short padOrClip_short)
  have sp: "columns '' '' = 1" "starts ('' '' @ s)" for s by (simp_all add: columns_ascii starts_def continuation_def)
  have "columns (padOrClip (clipLine t inner) inner @ '' '' @ vertical) = nat inner + 2"
  proof -
    have "columns ('' '' @ vertical) = 2" by (simp add: columns_def vertical_def continuation_def)
    with columns_append [OF sp(2) [of vertical]] show ?thesis by (simp only: columns_padOrClip)
  qed
  moreover have "starts (padOrClip (clipLine t inner) inner @ '' '' @ vertical)"
    using assms(3) sp(2) [of vertical] by (simp add: p starts_append)
  ultimately have "columns (boxed inner t) = nat inner + 4"
    unfolding boxed_def using sp by (simp only: columns_append columns_vertical)
  then show "columns (boxed inner t) = nat (inner + 4)" using assms(2) by simp
  have "boxed inner t = (vertical @ '' '') @ t @ (replicate (nat inner - columns t) CHR '' '' @ '' '' @ vertical)"
    unfolding boxed_def p by simp
  then show "sublist t (boxed inner t)" unfolding sublist_def by blast
qed

lemma panel_size:
  assumes "\<not> isBelowMinViewport v" "resolveModalPanelSize (vp_cols v) (vp_rows v) = (width, height)"
  shows "68 \<le> width" "width + 4 \<le> vp_cols v" "14 \<le> height" "height + 2 \<le> vp_rows v"
  using assms
  by (auto simp: isBelowMinViewport_def MIN_VIEWPORT_def resolveModalPanelSize_def panel_span_def MODAL_PANEL_MIN_WIDTH_def
      MODAL_PANEL_MAX_WIDTH_def MODAL_PANEL_MIN_HEIGHT_def MODAL_PANEL_MAX_HEIGHT_def MODAL_PANEL_MARGIN_def)

lemma panel_line:
  assumes "resolveModalPanelSize (vp_cols v) (vp_rows v) = (width, height)" "14 \<le> height" "k < 10"
  shows "renderModal modal v ! (k + 2) = padOrClip (boxed (width - 4) (modal_body modal ! k)) width" (is ?line)
    "length (renderModal modal v) = nat height"
proof -
  have body: "length (modal_body modal) = 10" by (simp add: modal_body_def TRUST_IDENTIFIER_FIELDS_def)
  have "56 \<le> width" using assms(1) by (auto simp: resolveModalPanelSize_def panel_span_def MODAL_PANEL_MIN_WIDTH_def)
  then have width: "resolveModalInnerWidth width = width - 4" by (simp add: resolveModalInnerWidth_def MODAL_PANEL_CHROME_X_def)
  define n where "n = nat (modalBodyRows height)"
  have n: "10 \<le> n" "n + 4 = nat height" using assms(2) by (simp_all add: n_def modalBodyRows_def MODAL_CHROME_ROWS_def)
  let ?p = "pad_rows n [] (take n (modal_body modal))"
  have p: "length ?p = n" "?p ! k = modal_body modal ! k" using n(1) assms(3) body by (simp_all add: pad_rows_def nth_append)
  obtain a b c d where r: "renderModal modal v = map (\<lambda>line. padOrClip line width)
      (take (nat height) (pad_rows (nat height) (boxed (width - 4) []) ([a, b] @ map (boxed (width - 4)) ?p @ [c, d])))"
    unfolding renderModal_def assms(1) Let_def prod.case width n_def by (metis append_Cons append_Nil)
  show "length (renderModal modal v) = nat height" unfolding r using n(2) p(1) by simp
  show ?line unfolding r using n p assms(3) body by (simp add: pad_rows_def nth_append)
qed

lemma body_line:
  assumes "(name, get) \<in> set TRUST_IDENTIFIER_FIELDS" "get (tm_identifiers modal) = Some i" "i \<noteq> []"
  shows "\<exists>k < 10. modal_body modal ! k = ''  '' @ i"
proof -
  consider "get = ti_identity_id" | "get = ti_device_id" | "get = ti_device_pubkey" | "get = ti_signal_identity_key"
    using assms(1) by (auto simp: TRUST_IDENTIFIER_FIELDS_def)
  then show ?thesis
  proof cases
    case 1 with assms(2,3) show ?thesis by (intro exI [of _ 3]) (simp add: modal_body_def TRUST_IDENTIFIER_FIELDS_def)
  next
    case 2 with assms(2,3) show ?thesis by (intro exI [of _ 5]) (simp add: modal_body_def TRUST_IDENTIFIER_FIELDS_def)
  next
    case 3 with assms(2,3) show ?thesis by (intro exI [of _ 7]) (simp add: modal_body_def TRUST_IDENTIFIER_FIELDS_def)
  next
    case 4 with assms(2,3) show ?thesis by (intro exI [of _ 9]) (simp add: modal_body_def TRUST_IDENTIFIER_FIELDS_def)
  qed
qed

lemma overlaid_line:
  assumes "\<not> isBelowMinViewport v" "resolveModalPanelSize (vp_cols v) (vp_rows v) = (width, height)"
    "length frame = nat (vp_rows v)" "\<forall>line \<in> set frame. columns line = nat (vp_cols v)"
    "k < length (renderModal modal v)" "columns (renderModal modal v ! k) = nat width" "length (renderModal modal v) = nat height"
  shows "\<exists>row. 0 < row \<and> row < length frame \<and> sublist (renderModal modal v ! k) (overlayModal frame modal v ! row)"
    "overlayModal frame modal v ! 0 = frame ! 0"
proof -
  define top where "top = min (max FIRST_OVERLAY_ROW ((vp_rows v - height) div 2)) (max FIRST_OVERLAY_ROW (vp_rows v - height))"
  define left where "left = max 0 ((vp_cols v - width) div 2)"
  note ps = panel_size [OF assms(1,2)]
  have top: "1 \<le> top" "top + height \<le> vp_rows v" using ps by (simp_all add: top_def FIRST_OVERLAY_ROW_def)
  have left: "0 \<le> left" "left + width \<le> vp_cols v" using ps by (simp_all add: left_def)
  have o: "overlayModal frame modal v = overlay_rows (nat left) (nat top) frame (renderModal modal v)"
    by (simp add: overlayModal_def assms(2) Let_def top_def left_def)
  have len: "0 < length frame" "nat top + k < length frame" using top assms(3,5,7) ps by linarith+
  let ?base = "frame ! (nat top + k)" and ?l = "renderModal modal v ! k"
  have line: "overlayModal frame modal v ! (nat top + k) = concat (overlay_cells (nat left) (codePoints ?base) (codePoints ?l))"
    unfolding o overlay_rows_nth [OF len(2)] using assms(5) by simp
  have "nat left + length (codePoints ?l) \<le> length (codePoints ?base)"
    using assms(4,6) len(2) left ps by (simp add: columns_def)
  from overlay_cells_split [OF this] line have "sublist ?l (overlayModal frame modal v ! (nat top + k))"
    by (simp add: sublist_def) blast
  with len(2) top show "\<exists>row. 0 < row \<and> row < length frame \<and> sublist (renderModal modal v ! k) (overlayModal frame modal v ! row)"
    by (intro exI [of _ "nat top + k"]) simp
  show "overlayModal frame modal v ! 0 = frame ! 0"
    unfolding o overlay_rows_nth [OF len(1)] using top by simp
qed

lemma notice_columns: "columns UNAUDITED_NOTICE = 62"
  by (simp add: columns_def UNAUDITED_NOTICE_def em_dash_def continuation_def)

lemma panel_shows_identifiers:
  assumes "\<not> isBelowMinViewport v" "os_modal s = Some modal"
    "(name, get) \<in> set TRUST_IDENTIFIER_FIELDS" "get (tm_identifiers modal) = Some i" "i \<noteq> []" "clean i" "columns i \<le> 62"
  shows "prefix UNAUDITED_NOTICE (renderFrame s v ! 0)
    \<and> (\<exists>row. 0 < row \<and> row < length (renderFrame s v) \<and> sublist i (renderFrame s v ! row))"
proof -
  let ?frame = "map (\<lambda>line. fitLine line (vp_cols v)) (frame_lines s (vp_cols v) (vp_rows v))"
  have big: "72 \<le> vp_cols v" "16 \<le> vp_rows v" using assms(1) by (simp_all add: isBelowMinViewport_def MIN_VIEWPORT_def)
  have r: "renderFrame s v = overlayModal ?frame modal v" using assms(2) by (simp add: renderFrame_big [OF assms(1)] Let_def)
  obtain width height where size: "resolveModalPanelSize (vp_cols v) (vp_rows v) = (width, height)" by fastforce
  note ps = panel_size [OF assms(1) size]
  obtain k where k: "k < 10" "modal_body modal ! k = ''  '' @ i" using body_line [OF assms(3-5)] by blast
  note pl = panel_line [OF size ps(3) k(1), of modal]
  have "starts i" "columns ''  '' = 2" using assms(6) by (simp_all add: clean_starts columns_ascii)
  then have "columns (''  '' @ i) \<le> nat (width - 4)" "starts (''  '' @ i)"
    using assms(7) ps(1) by (simp_all only: columns_append) (simp_all add: starts_def continuation_def)
  from boxed_short [OF this(1) _ this(2)] ps(1) have b: "columns (boxed (width - 4) (''  '' @ i)) = nat width"
    "sublist (''  '' @ i) (boxed (width - 4) (''  '' @ i))" by simp_all
  from pl(1) k(2) b(1) have l: "renderModal modal v ! (k + 2) = boxed (width - 4) (''  '' @ i)" by (simp add: padOrClip_exact)
  have "sublist i (''  '' @ i)" by (simp add: suffix_imp_sublist suffix_def)
  then have sub: "sublist i (renderModal modal v ! (k + 2))" unfolding l using b(2) by (rule sublist_order.order.trans)
  have f: "length ?frame = nat (vp_rows v)" "\<forall>line \<in> set ?frame. columns line = nat (vp_cols v)"
    using length_frame_lines [OF big(2)] by (simp_all add: fitLine_def)
  have "k + 2 < length (renderModal modal v)" using k(1) ps(3) pl(2) by simp
  note o = overlaid_line [OF assms(1) size f this _ pl(2), unfolded l, OF b(1)]
  from o(1) obtain row where row: "0 < row" "row < length ?frame"
    "sublist (boxed (width - 4) (''  '' @ i)) (overlayModal ?frame modal v ! row)" by blast
  have "?frame ! 0 = fitLine UNAUDITED_NOTICE (vp_cols v)" by (simp add: frame_lines_def)
  then have "prefix UNAUDITED_NOTICE (?frame ! 0)"
    using big(1) by (simp add: fitLine_def padOrClip_short notice_columns)
  moreover have "sublist i (overlayModal ?frame modal v ! row)" using sub row(3) unfolding l by (rule sublist_order.order.trans)
  moreover have "length (renderFrame s v) = length ?frame" unfolding r using overlayModal_shape [OF f(2)] by blast
  ultimately show ?thesis unfolding r o(2) using row(1,2) by auto
qed

text \<open>
  The operator decides on what was on the screen: on a terminal that is not too small, a frame
  with an open confirmation carries the unaudited notice unbroken in its first line and every
  identifier the contact card holds, of up to 62 code points, whole in one line below it.
\<close>

theorem trust_panel_shows_identifiers:
  assumes "\<not> isBelowMinViewport v" "os_modal s = Some modal"
    "(name, get) \<in> set TRUST_IDENTIFIER_FIELDS" "get (tm_identifiers modal) = Some i" "i \<noteq> []" "clean i" "columns i \<le> 62"
  shows "prefix UNAUDITED_NOTICE (renderFrame s v ! 0)
    \<and> (\<exists>row. 0 < row \<and> row < length (renderFrame s v) \<and> sublist i (renderFrame s v ! row))"
  using assms by (rule panel_shows_identifiers)

theorem trust_panel_shows_identifiers_witness:
  "\<exists>row. sublist ''AB'' (renderFrame ((createInitialState [])
     \<lparr>os_modal := Some (buildTrustModal ''/c'' ''a'' \<lparr>ti_identity_id = Some ''AB'', ti_device_id = None, ti_device_pubkey = None,
        ti_signal_identity_key = None\<rparr>)\<rparr>) \<lparr>vp_cols = 72, vp_rows = 16\<rparr> ! row)"
proof -
  have "clean ''AB''" "columns ''AB'' \<le> 62" by (simp_all add: plain_clean columns_ascii)
  then show ?thesis
    using trust_panel_shows_identifiers [of "\<lparr>vp_cols = 72, vp_rows = 16\<rparr>" "(createInitialState [])
     \<lparr>os_modal := Some (buildTrustModal ''/c'' ''a'' \<lparr>ti_identity_id = Some ''AB'', ti_device_id = None, ti_device_pubkey = None,
        ti_signal_identity_key = None\<rparr>)\<rparr>" "buildTrustModal ''/c'' ''a'' \<lparr>ti_identity_id = Some ''AB'', ti_device_id = None, ti_device_pubkey = None,
        ti_signal_identity_key = None\<rparr>" "''identity_id''" ti_identity_id "''AB''"]
    by (auto simp: isBelowMinViewport_def MIN_VIEWPORT_def TRUST_IDENTIFIER_FIELDS_def buildTrustModal_def)
qed

subsection \<open>Clean states paint clean frames\<close>

definition clean_option :: "string option \<Rightarrow> bool" where
  "clean_option s \<longleftrightarrow> (case s of None \<Rightarrow> True | Some t \<Rightarrow> clean t)"

fun clean_outcome :: "step_outcome \<Rightarrow> bool" where
  "clean_outcome (StepFailed failed exitCode) = clean failed"
| "clean_outcome _ = True"

definition clean_profile :: "profile_view \<Rightarrow> bool" where
  "clean_profile p \<longleftrightarrow>
     clean (pv_label p) \<and> clean (pv_profileDir p) \<and> clean (pv_relayUrl p) \<and> clean (pv_storeKeyEnv p)
     \<and> clean (pv_identityId p) \<and> clean (pv_deviceId p) \<and> clean_option (pv_contactCardPath p)
     \<and> (case pv_setup p of None \<Rightarrow> True | Some setup \<Rightarrow> list_all clean_outcome setup)"

definition clean_contact :: "contact_view \<Rightarrow> bool" where
  "clean_contact c \<longleftrightarrow> clean (cv_identityId c) \<and> clean (cv_deviceId c) \<and> clean (cv_devicePubkey c) \<and> clean (cv_signalIdentityKey c)"

definition clean_rejection :: "rejection_view \<Rightarrow> bool" where
  "clean_rejection r \<longleftrightarrow> clean (rj_envelopeId r) \<and> clean (rj_code r)"

definition clean_entry :: "history_view \<Rightarrow> bool" where
  "clean_entry e \<longleftrightarrow> clean (he_contactIdentityId e) \<and> clean (he_messageId e) \<and> clean (he_plaintext e)"

definition clean_identifiers :: "trust_identifiers \<Rightarrow> bool" where
  "clean_identifiers i \<longleftrightarrow> clean_option (ti_identity_id i) \<and> clean_option (ti_device_id i)
     \<and> clean_option (ti_device_pubkey i) \<and> clean_option (ti_signal_identity_key i)"

definition clean_modal :: "trust_modal \<Rightarrow> bool" where
  "clean_modal m \<longleftrightarrow> clean (tm_cardPath m) \<and> clean (tm_profileLabel m) \<and> clean_identifiers (tm_identifiers m)"

definition clean_state :: "operator_state \<Rightarrow> bool" where
  "clean_state s \<longleftrightarrow>
     list_all clean_profile (os_profiles s) \<and> list_all clean_contact (os_contacts s)
     \<and> clean_option (os_selectedContactId s) \<and> list_all clean_rejection (os_rejections s)
     \<and> list_all clean_entry (os_history s) \<and> clean (rh_relayUrl (os_health s))
     \<and> (case os_modal s of None \<Rightarrow> True | Some m \<Rightarrow> clean_modal m)
     \<and> list_all (\<lambda>a. clean (ac_text a)) (os_activity s)
     \<and> (case os_input s of None \<Rightarrow> True | Some i \<Rightarrow> clean (ip_buffer i))"

lemma clean_active: "clean_state s \<Longrightarrow> active s = Some p \<Longrightarrow> clean_profile p"
  by (auto simp: clean_state_def active_def at_def list_all_iff split: if_splits)

lemma clean_replicate: "clean s \<Longrightarrow> clean (concat (replicate n s))"
  by (induction n) auto

lemma clean_glyphs [clean_texts, simp]:
  "clean em_dash" "clean middle_dot" "clean small_triangle" "clean horizontal" "clean vertical"
  "clean top_left" "clean top_right" "clean bottom_left" "clean bottom_right"
  by (simp_all add: clean_def em_dash_def middle_dot_def small_triangle_def box_chars steersTheDisplay_def continuation_def low6_def)

lemma clean_header: "clean_state s \<Longrightarrow> clean (headerLine s)"
proof -
  assume s: "clean_state s"
  have "clean (pane_name p)" for p by (cases p) (simp_all add: clean_texts)
  then have "clean (concat (map (\<lambda>(index, pane).
            (let title = show_nat (index + 1) @ '' '' @ pane_name pane in
             if pane = os_pane s then ''['' @ title @ '']'' else '' '' @ title @ '' '')) xs))" for xs :: "(nat \<times> pane_id) list"
    by (induction xs) (auto simp: Let_def clean_texts)
  moreover have "clean (pv_label p)" if "active s = Some p" for p
    using clean_active [OF s that] by (simp add: clean_profile_def)
  ultimately show ?thesis by (auto simp: headerLine_def Let_def clean_texts split: option.split)
qed

lemma clean_footer: "clean (footerLine s cols)"
proof -
  have keys: "list_all (clean \<circ> fst) FOOTER_KEYS" "list_all (clean \<circ> fst) FOOTER_KEYS_HELP_OPEN"
    by (simp_all add: FOOTER_KEYS_def FOOTER_KEYS_HELP_OPEN_def clean_texts)
  have paint: "clean (paint_keys entries chosen)" if "list_all (clean \<circ> fst) entries" "set chosen \<subseteq> {..<length entries}" for entries chosen
  proof -
    from that(2) have "\<forall>i \<in> set chosen. i < length entries" by auto
    with that(1) show ?thesis by (auto simp: paint_keys_def list_all_iff FOOTER_SEPARATOR_def clean_texts intro!: clean_join)
  qed
  have choose: "set (choose_keys entries cols chosen is) \<subseteq> set chosen \<union> set is" for entries chosen "is"
    by (induction entries cols chosen "is" rule: choose_keys.induct) auto
  have "clean (fitFooter entries cols)" if "list_all (clean \<circ> fst) entries" for entries
    unfolding fitFooter_def
    by (rule paint [OF that]) (use choose [of entries "[]" "sort_key (\<lambda>i. snd (entries ! i)) [0..<length entries]"] in auto)
  moreover have "clean (submitLabel f)" for f by (cases f) (simp_all add: clean_texts)
  ultimately show ?thesis using keys by (auto simp: footerLine_def clean_texts split: option.split)
qed

lemma clean_composed: "clean (ip_buffer i) \<Longrightarrow> clean (composeLine i cols)"
proof -
  assume b: "clean (ip_buffer i)"
  have "clean (field_name f)" for f by (cases f) (simp_all add: clean_texts)
  moreover have "clean (concat (drop n (codePoints (ip_buffer i))))" for n
    by (rule clean_cut [OF b]) (rule set_drop_subset)
  ultimately show ?thesis using b by (auto simp: composeLine_def Let_def clean_texts)
qed

lemma clean_activity: "clean_state s \<Longrightarrow> clean (activityLine s)"
  by (auto simp: activityLine_def Let_def clean_texts clean_state_def list_all_iff)

lemma chunks_subset: "ys \<in> set (chunks n xs) \<Longrightarrow> set ys \<subseteq> set xs"
proof (induction n xs rule: chunks.induct)
  case (1 n xs)
  then have ys: "ys \<in> set (if xs = [] \<or> n = 0 then [] else take n xs # chunks n (drop n xs))"
    by (simp only: chunks.simps [of n xs, symmetric])
  then have n: "\<not> (xs = [] \<or> n = 0)" by (metis empty_iff list.set(1))
  with ys have "ys = take n xs \<or> ys \<in> set (chunks n (drop n xs))" by (simp only: if_False list.set insert_iff)
  with "1.IH" [OF n] show ?case using set_take_subset [of n xs] set_drop_subset [of n xs] by auto
qed

lemma clean_chunks: "clean s \<Longrightarrow> list_all clean (map concat (chunks n (codePoints s)))"
  by (auto simp: list_all_iff dest: chunks_subset intro: clean_cut)

lemma clean_wrap: "clean s \<Longrightarrow> list_all clean (wrapToWidth s cols)"
  using clean_chunks [of s "nat cols"] by (simp add: wrapToWidth_def Let_def)

lemma clean_bodyRows: "clean s \<Longrightarrow> list_all clean (bodyRows s width)"
proof -
  assume s: "clean s"
  define room where "room = nat (max 1 (width - int (length BODY_INDENT)))"
  define wrapped where "wrapped = map concat (chunks room (codePoints s))"
  have w: "list_all clean wrapped" unfolding wrapped_def by (rule clean_chunks [OF s])
  have i: "clean BODY_INDENT" by (simp add: BODY_INDENT_def clean_texts)
  have def: "bodyRows s width = (if length wrapped \<le> MAX_BODY_ROWS then map (\<lambda>row. BODY_INDENT @ row) wrapped
      else map (\<lambda>row. BODY_INDENT @ row) ((take MAX_BODY_ROWS wrapped)[MAX_BODY_ROWS - 1 :=
        concat (take (room - 1) (codePoints (take MAX_BODY_ROWS wrapped ! (MAX_BODY_ROWS - 1)))) @ ellipsis]))"
    unfolding bodyRows_def Let_def room_def wrapped_def by (rule refl)
  show ?thesis
  proof (cases "length wrapped \<le> MAX_BODY_ROWS")
    case True
    with w i show ?thesis unfolding def by (auto simp: list_all_iff clean_texts)
  next
    case False
    let ?final = "take MAX_BODY_ROWS wrapped ! (MAX_BODY_ROWS - 1)"
    from False w have "clean ?final" by (auto simp: list_all_iff MAX_BODY_ROWS_def)
    then have "clean (concat (take (room - 1) (codePoints ?final)) @ ellipsis)"
      by (intro clean_append clean_cut [OF _ set_take_subset] clean_ellipsis)
    with w i have "\<forall>row \<in> set ((take MAX_BODY_ROWS wrapped)[MAX_BODY_ROWS - 1 := concat (take (room - 1) (codePoints ?final)) @ ellipsis]). clean (BODY_INDENT @ row)"
      by (auto simp: list_all_iff dest!: set_update_subset_insert [THEN subsetD] in_set_takeD)
    with False show ?thesis unfolding def by (simp add: list_all_iff del: One_nat_def)
  qed
qed

lemma clean_history:
  assumes "clean_state s"
  shows "list_all clean (formatHistoryLines (buildHistorySnapshot (os_history s) (os_selectedContactId s)) width limit)"
proof -
  have d: "clean (direction_name d)" for d by (cases d) (simp_all add: clean_texts)
  have e: "clean_entry e" if "e \<in> set (os_history s)" for e using assms that by (simp add: clean_state_def list_all_iff)
  have c: "clean contact" if "os_selectedContactId s = Some contact" for contact
    using assms that by (simp add: clean_state_def clean_option_def)
  show ?thesis
    unfolding formatHistoryLines_def Let_def case_prod_unfold
    by (rule clean_fitPane)
      (use e c in \<open>auto simp: buildHistorySnapshot_def Let_def list_all_iff clean_texts d clean_entry_def split: option.splits
        dest!: clean_bodyRows [unfolded list_all_iff, THEN bspec, rotated]\<close>)
qed

lemma clean_mailbox:
  assumes "clean_state s"
  shows "list_all clean (formatMailboxLines (buildMailboxSnapshot (os_mailbox s) (os_rejections s)) width limit)"
    "list_all clean (ms_rejectionLines (buildMailboxSnapshot (os_mailbox s) (os_rejections s)))"
proof -
  have r: "clean (formatRejectionLine r)" if "r \<in> set (os_rejections s)" for r
    using assms that by (simp add: clean_state_def list_all_iff clean_rejection_def formatRejectionLine_def clean_texts)
  have n: "clean (countedValue c ''pending'' ''no command reports an outbox count'')"
    "clean (countedValue c ''received by the last poll'' ''no poll has reported yet'')" for c
    by (auto simp: countedValue_def clean_texts split: option.split)
  show "list_all clean (ms_rejectionLines (buildMailboxSnapshot (os_mailbox s) (os_rejections s)))"
    using r by (simp add: buildMailboxSnapshot_def list_all_iff)
  show "list_all clean (formatMailboxLines (buildMailboxSnapshot (os_mailbox s) (os_rejections s)) width limit)"
    unfolding formatMailboxLines_def Let_def
    by (rule clean_fitPane) (use r n in \<open>auto simp: buildMailboxSnapshot_def list_all_iff clean_texts\<close>)
qed

lemma clean_health:
  assumes "clean (rh_relayUrl h)"
  shows "clean (formatHealthLine h)"
  using assms by (auto simp: formatHealthLine_def Let_def clean_texts split: relay_status.split option.split)

lemma clean_recipe: "clean env \<Longrightarrow> clean (storeKeyRecipe env)"
  by (simp add: storeKeyRecipe_def clean_texts)

lemma clean_step_status: "(\<And>st. o1 = Some st \<Longrightarrow> clean_outcome st) \<Longrightarrow> clean (stepStatus o1)"
  by (cases o1 rule: stepStatus.cases) (auto simp: clean_texts)

lemma clean_step_hint: "stepHint step o1 = Some hint \<Longrightarrow> clean hint"
  by (cases "(step, o1)" rule: stepHint.cases) (auto simp: clean_texts split: if_splits)

lemma clean_setup:
  assumes "clean_profile p"
  shows "list_all clean (buildSetupLines p)"
proof -
  have t: "clean (fst (case at SETUP_TITLES n of None \<Rightarrow> ([], []) | Some p \<Rightarrow> p))"
    "clean (snd (case at SETUP_TITLES n of None \<Rightarrow> ([], []) | Some p \<Rightarrow> p))" for n
  proof -
    have "list_all (\<lambda>p. clean (fst p) \<and> clean (snd p)) SETUP_TITLES" by (simp add: SETUP_TITLES_def clean_texts)
    then show "clean (fst (case at SETUP_TITLES n of None \<Rightarrow> ([], []) | Some p \<Rightarrow> p))"
      "clean (snd (case at SETUP_TITLES n of None \<Rightarrow> ([], []) | Some p \<Rightarrow> p))"
      by (auto simp: at_def list_all_length)
  qed
  let ?stps = "case pv_setup p of None \<Rightarrow> [] | Some s \<Rightarrow> s"
  have o: "clean_outcome st" if "at ?stps n = Some st" for n st
    using that assms by (auto simp: at_def clean_profile_def list_all_iff split: if_splits option.splits)
  have g: "clean STEP_GUTTER" "clean (pv_storeKeyEnv p)" using assms by (simp_all add: STEP_GUTTER_def clean_profile_def)
  have "list_all clean (setup_step_lines p n)" for n
    using t [of n] o [of n] g clean_step_status [of "at ?stps n"] clean_step_hint [of n "at ?stps n"]
    unfolding setup_step_lines_def Let_def case_prod_unfold
    by (auto simp: clean_texts clean_recipe split: option.split)
  then show ?thesis by (auto simp: buildSetupLines_def list_all_iff clean_texts)
qed

lemma clean_profiles:
  assumes "clean_profile p" "list_all clean_contact contacts" "clean (rh_relayUrl h)"
  shows "list_all clean (formatProfilesLines (buildProfilesSnapshot p contacts h) width limit)"
    "clean (ps_healthLine (buildProfilesSnapshot p contacts h))"
proof -
  have h: "clean (formatHealthLine h)" by (rule clean_health [OF assms(3)])
  then show "clean (ps_healthLine (buildProfilesSnapshot p contacts h))" by (simp add: buildProfilesSnapshot_def Let_def)
  have c: "clean (cv_identityId c @ ''  '' @ cv_deviceId c)" if "c \<in> set contacts" for c
    using assms(2) that by (simp add: list_all_iff clean_contact_def clean_texts)
  have rows: "list_all clean (map (\<lambda>(label, v). labelled label v) (ps_rows (buildProfilesSnapshot p contacts h)))"
    using assms(1) by (simp add: buildProfilesSnapshot_def Let_def clean_profile_def clean_texts)
  have d: "case ps_rosterDiscrepancy (buildProfilesSnapshot p contacts h) of None \<Rightarrow> True | Some d \<Rightarrow> clean d"
    by (simp add: buildProfilesSnapshot_def Let_def clean_texts)
  show "list_all clean (formatProfilesLines (buildProfilesSnapshot p contacts h) width limit)"
  proof (cases "ps_setupLines (buildProfilesSnapshot p contacts h)")
    case None
    show ?thesis
      unfolding formatProfilesLines_def None option.case Let_def
      by (rule clean_fitPane)
        (use rows d h c in \<open>auto simp: buildProfilesSnapshot_def Let_def list_all_iff clean_texts split: option.splits if_splits\<close>)
  next
    case (Some steps)
    then have "steps = buildSetupLines p" by (simp add: buildProfilesSnapshot_def Let_def split: if_splits)
    with clean_setup [OF assms(1)] h show ?thesis
      unfolding formatProfilesLines_def Some option.case
      by (intro clean_fitPane) (simp_all add: buildProfilesSnapshot_def Let_def)
  qed
qed

lemma clean_pane:
  assumes "clean_state s"
  shows "list_all clean (paneLines s pane width rows)"
proof -
  have parts: "list_all clean_contact (os_contacts s)" "clean (rh_relayUrl (os_health s))"
    using assms by (simp_all add: clean_state_def)
  have "clean_profile (no_profile_view s)"
    using parts(2) by (simp add: no_profile_view_def clean_profile_def clean_option_def clean_texts)
  then have health: "clean_profile (case active s of None \<Rightarrow> no_profile_view s | Some p \<Rightarrow> p)"
    using clean_active [OF assms] by (auto split: option.split)
  have hl: "list_all clean (helpLines s)"
    by (simp add: helpLines_def HELP_LINES_HEAD_def helpQuitLine_def clean_texts)
  have hd: "clean (hd (helpLines s))" "list_all clean (tl (helpLines s))"
    using hl by (simp_all add: helpLines_def HELP_LINES_HEAD_def)
  have status: "clean (status_name st)" for st by (cases st) (simp_all add: clean_texts)
  show ?thesis
  proof (cases "os_help s = Some True")
    case True
    have "list_all clean (fitPane [hd (helpLines s)] (map LineRow (tl (helpLines s))) [] KeepHead (Some rows) width)"
      using hd by (intro clean_fitPane) (simp_all add: list_all_iff)
    with True show ?thesis by (simp add: paneLines_def Let_def)
  next
    case False
    show ?thesis
    proof (cases pane)
      case ProfilesPane
      with False clean_profiles(1) [OF clean_active [OF assms] parts] show ?thesis
        by (auto simp: paneLines_def clean_texts split: option.split)
    next
      case RejectionsPane
      let ?m = "buildMailboxSnapshot (os_mailbox s) (os_rejections s)"
      have "list_all clean (fitPane [show_nat (ms_rejectionCount ?m) @ '' rejected by the last poll'']
          (map (\<lambda>line. LineRow (''  '' @ line)) (ms_rejectionLines ?m)) [] KeepTail (Some rows) width)"
        using clean_mailbox(2) [OF assms] by (intro clean_fitPane) (simp_all add: list_all_iff clean_texts)
      with False RejectionsPane show ?thesis by (simp add: paneLines_def Let_def clean_texts)
    next
      case HealthPane
      with False clean_profiles(2) [OF health parts] status show ?thesis by (simp add: paneLines_def Let_def clean_texts)
    qed (use False clean_mailbox(1) [OF assms] clean_history [OF assms] in \<open>simp_all add: paneLines_def\<close>)
  qed
qed

lemma list_all_take: "list_all P xs \<Longrightarrow> list_all P (take n xs)"
  by (auto simp: list_all_iff dest: in_set_takeD)

lemma list_all_pad_rows: "list_all P xs \<Longrightarrow> P f \<Longrightarrow> list_all P (pad_rows n f xs)"
  by (auto simp: list_all_iff dest: set_pad_rows)

lemma list_all_update: "list_all P xs \<Longrightarrow> P x \<Longrightarrow> list_all P (xs[i := x])"
  using set_update_subset_insert [of xs i x] by (auto simp: list_all_iff)

lemma clean_panel:
  assumes "clean_modal m"
  shows "list_all clean (renderModal m v)"
proof -
  have f: "clean (formatModalFooter TRUST_MODAL_FOOTER)"
    by (simp add: formatModalFooter_def TRUST_MODAL_FOOTER_def clean_texts)
  have b: "clean (boxed inner t)" if "clean t" for inner t using that by (simp add: boxed_def clean_texts)
  have line: "clean (case x of Some v \<Rightarrow> if v \<noteq> [] then ''  '' @ v else ''  (missing)'' | None \<Rightarrow> ''  (missing)'')"
    if "clean_option x" for x using that by (cases x) (simp_all add: clean_option_def clean_texts)
  have "list_all clean (modal_body m)"
    using assms line unfolding modal_body_def TRUST_IDENTIFIER_FIELDS_def clean_modal_def clean_identifiers_def
    by (simp add: clean_texts)
  then have body: "clean t" if "t \<in> set (modal_body m)" for t using that by (simp add: list_all_iff)
  have painted: "list_all clean (map (boxed inner) (pad_rows n [] (take n (modal_body m))))" for inner n
  proof -
    have "list_all clean (pad_rows n [] (take n (modal_body m)))"
      by (rule list_all_pad_rows [OF list_all_take]) (simp_all add: list_all_iff body)
    then show ?thesis by (simp add: list_all_iff b)
  qed
  have title: "clean (boxed inner ''Trust these contact identifiers?'')" for inner by (rule b) (simp add: clean_texts)
  have rule: "clean (l @ concat (replicate n horizontal) @ r)" if "clean l" "clean r" for l r n
    using that by (intro clean_append clean_replicate) simp_all
  have lines: "list_all clean ([top_left @ concat (replicate k horizontal) @ top_right, boxed inner ''Trust these contact identifiers?'']
      @ map (boxed inner) (pad_rows n [] (take n (modal_body m)))
      @ [boxed inner (formatModalFooter TRUST_MODAL_FOOTER), bottom_left @ concat (replicate k horizontal) @ bottom_right])" for k n inner
    using painted title rule [OF clean_glyphs(6,7)] rule [OF clean_glyphs(8,9)] b [OF f]
    by (simp only: list_all_append list.pred_inject simp_thms)
  have padded: "list_all clean (map (\<lambda>line. padOrClip line w) xs)" if "list_all clean xs" for w xs
    using that by (simp add: list_all_iff clean_texts)
  show ?thesis
    unfolding renderModal_def Let_def case_prod_unfold
    by (rule padded [OF list_all_take [OF list_all_pad_rows [OF lines b [OF clean_Nil]]]])
qed

lemma overlay_cells_clean:
  "clean_points cs \<Longrightarrow> clean_points ps \<Longrightarrow> clean_points (overlay_cells c cs ps)"
proof (induction c cs ps rule: overlay_cells.induct)
  case (2 c cs p ps)
  have "clean_points (cs[c := p])"
    using 2(2,3) unfolding clean_points_def by (intro list_all_update) simp_all
  moreover have "clean_points ps" using 2(3) by (simp add: clean_points_def)
  ultimately show ?case using 2(1,2) by simp
qed simp

lemma clean_overlay:
  "list_all clean frame \<Longrightarrow> list_all clean ls \<Longrightarrow> list_all clean (overlay_rows left row frame ls)"
proof (induction left row frame ls rule: overlay_rows.induct)
  case (2 left row frame l ls)
  have "list_all clean (frame[row := concat (overlay_cells left (codePoints (frame ! row)) (codePoints l))])" if "row < length frame"
  proof -
    have "clean (frame ! row)" using 2(2) that by (simp add: list_all_length)
    moreover have "clean l" using 2(3) by simp
    ultimately show ?thesis
      by (intro list_all_update 2(2) clean_concat overlay_cells_clean clean_points_codePoints)
  qed
  with 2 show ?case by simp
qed simp

lemma clean_frame:
  assumes "clean_state s"
  shows "\<forall>line \<in> set (renderFrame s v). clean line"
proof (cases "isBelowMinViewport v")
  case True
  have notice: "clean UNAUDITED_NOTICE" by (simp add: UNAUDITED_NOTICE_def clean_texts)
  have "list_all clean (tooSmallFrame s cols rows)" for cols rows
    by (auto simp: tooSmallFrame_def Let_def clean_texts notice intro!: clean_wrap)
  then show ?thesis
    unfolding renderFrame_small [OF True] Let_def fitLine_def
    by (auto dest!: set_pad_rows in_set_takeD simp: list_all_iff clean_texts)
next
  case False
  have notice: "clean UNAUDITED_NOTICE" by (simp add: UNAUDITED_NOTICE_def clean_texts)
  have input: "clean (ip_buffer i)" if "os_input s = Some i" for i using assms that by (simp add: clean_state_def)
  have "list_all clean (frame_lines s cols rows)" for cols rows
    using clean_pane [OF assms]
    by (auto simp: frame_lines_def compose_rows_def list_all_iff clean_header [OF assms] clean_activity [OF assms] clean_footer
        clean_composed input notice clean_replicate dest!: set_pad_rows in_set_takeD split: option.split)
  then have frame: "list_all clean (map (\<lambda>line. fitLine line (vp_cols v)) (frame_lines s (vp_cols v) (vp_rows v)))"
    by (simp add: list_all_iff fitLine_def clean_texts)
  have modal: "clean_modal m" if "os_modal s = Some m" for m using assms that by (simp add: clean_state_def)
  have "list_all clean (renderFrame s v)"
    unfolding renderFrame_big [OF False] Let_def
    using frame clean_overlay [OF frame clean_panel [OF modal]]
    by (auto simp: overlayModal_def Let_def case_prod_unfold split: option.split)
  then show ?thesis by (simp add: list_all_iff)
qed

text \<open>
  What the console holds decides what it paints: when no text of the state steers the display,
  no line of any frame does - no control sequence, reordering mark or zero-width character reaches
  the terminal through a frame - whatever is open and whatever the size of the terminal.
\<close>

theorem clean_state_clean_frame:
  assumes "clean_state s"
  shows "\<forall>line \<in> set (renderFrame s v). clean line"
  using assms by (rule clean_frame)

theorem clean_state_clean_frame_witness:
  "list_all clean (renderFrame (createInitialState []) \<lparr>vp_cols = 72, vp_rows = 16\<rparr>)"
  using clean_state_clean_frame [of "createInitialState []" "\<lparr>vp_cols = 72, vp_rows = 16\<rparr>"]
  by (simp add: list_all_iff clean_state_def createInitialState_def clean_option_def)

end
