(* ===== verification/Console.thy ===== *)
theory Console
  imports Frame
begin

text \<open>
  The operator console, \<open>apps/cli/src/tui/tui-shell.ts\<close> and \<open>main.ts\<close>: what a key means in a state,
  what an intent does to it and which effects it asks for, how the outcome of a command is folded
  into it, and the shell that owns the terminal, the clock and the children, as a step relation over
  the events it reacts to.
\<close>

subsection \<open>Keys\<close>

definition DEL :: string where "DEL = [CHR 0x7F]"
definition CTRL_C :: string where "CTRL_C = [CHR 0x03]"
definition CR :: string where "CR = [CHR 0x0D]"
definition LF :: string where "LF = [CHR 0x0A]"

definition ctrl_intent :: "key_event \<Rightarrow> intent option" where
  "ctrl_intent key = (if map to_lower (ke_name key) = ''c'' then Some QuitIntent else None)"

definition inputKey :: "key_event \<Rightarrow> intent option" where
  "inputKey key =
     (if ke_ctrl key then ctrl_intent key
      else if prefix ESC (ke_sequence key) then (if ke_sequence key = ESC then Some InputCancel else None)
      else if ke_sequence key = CR \<or> ke_sequence key = LF then Some InputSubmit
      else if ke_sequence key = DEL then Some InputBackspace
      else if ke_sequence key = [] then None
      else Some (InputInsert (ke_sequence key)))"

definition setupStepIntent :: "profile_view \<Rightarrow> intent option" where
  "setupStepIntent profile =
     (let profileDir = pv_profileDir profile in
      case nextSetupStep profile of
        None \<Rightarrow> None
      | Some step \<Rightarrow>
          if step = 1 then
            (if pv_relayUrl profile = [] then Some (InputOpen RelayUrlField)
             else Some (Run (InitRequest profileDir (pv_relayUrl profile) (pv_storeKeyEnv profile))))
          else if step = 2 then Some (Run (PublishRequest profileDir))
          else if step = 3 then Some (InputOpen ExportPathField)
          else if step = 4 then Some (InputOpen CardPathField)
          else if step = 5 then Some (Run (DoctorRequest profileDir))
          else None)"

text \<open>\<open>findIndex + 1\<close> of the selected contact: one past its position, or zero.\<close>

fun after_contact :: "string option \<Rightarrow> contact_view list \<Rightarrow> nat \<Rightarrow> nat" where
  "after_contact selected [] i = 0"
| "after_contact selected (c # cs) i =
     (if selected = Some (cv_identityId c) then Suc i else after_contact selected cs (Suc i))"

definition paneKeyIntent :: "key_event \<Rightarrow> operator_state \<Rightarrow> intent option" where
  "paneKeyIntent key s =
     (case active s of
        None \<Rightarrow> None
      | Some profile \<Rightarrow>
          let dir = pv_profileDir profile; name = ke_name key in
          if name = ''p'' then Some (Run (PollRequest dir))
          else if name = ''d'' then Some (Run (DoctorRequest dir))
          else if name = ''r'' then Some (Run (PublishRequest dir))
          else if name = ''h'' then map_option (\<lambda>contact. Run (HistoryRequest dir contact)) (os_selectedContactId s)
          else if name = ''i'' then map_option (\<lambda>path. Run (ImportRequest dir path)) (pv_contactCardPath profile)
          else if name = ''w'' then
            (if os_pane s \<noteq> HistoryPane \<or> os_selectedContactId s = None \<or> os_busy s \<or> \<not> pv_published profile then None
             else Some (InputOpen MessageField))
          else if name = ''return'' then (if os_pane s \<noteq> ProfilesPane \<or> os_busy s then None else setupStepIntent profile)
          else if name = ''c'' then
            (let contacts = os_contacts s in
             map_option (\<lambda>c. SelectContact (cv_identityId c))
               (at contacts (after_contact (os_selectedContactId s) contacts 0 mod max 1 (length contacts))))
          else if name = ''t'' then
            (if length (os_profiles s) < 2 then None
             else Some (SelectProfile (int ((os_activeProfile s + 1) mod length (os_profiles s)))))
          else None)"

text \<open>The pane a key of one of the digits 1 to 9 names.\<close>

definition ordinal_pane :: "string \<Rightarrow> pane_id option" where
  "ordinal_pane name =
     (case name of
        [c] \<Rightarrow> (let k = (of_char c :: nat) in if 49 \<le> k \<and> k \<le> 57 then at PANE_IDS (k - 49) else None)
      | _ \<Rightarrow> None)"

fun is_run :: "intent option \<Rightarrow> bool" where
  "is_run (Some (Run r)) = True"
| "is_run _ = False"

definition mapKey :: "key_event \<Rightarrow> operator_state \<Rightarrow> intent option" where
  "mapKey key s =
     (if os_modal s \<noteq> None then (if ke_ctrl key then ctrl_intent key else modalIntent key)
      else if os_input s \<noteq> None then inputKey key
      else if ke_ctrl key then ctrl_intent key
      else if ke_name key = ''q'' then Some QuitIntent
      else if ke_name key = ''?'' then Some ToggleHelp
      else
        (case ordinal_pane (ke_name key) of
           Some pane \<Rightarrow> Some (SelectPane pane)
         | None \<Rightarrow> (let intent = paneKeyIntent key s in if os_busy s \<and> is_run intent then None else intent)))"

text \<open>
  The three fields of a raw chunk. Letters beyond ASCII keep their case in a name here: no key is
  bound to one.
\<close>

definition decodeKey :: "string \<Rightarrow> key_event" where
  "decodeKey chunk =
     (if chunk = CTRL_C then \<lparr>ke_name = ''c'', ke_ctrl = True, ke_sequence = chunk\<rparr>
      else if chunk = ESC then \<lparr>ke_name = ''escape'', ke_ctrl = False, ke_sequence = chunk\<rparr>
      else if chunk = CR \<or> chunk = LF then \<lparr>ke_name = ''return'', ke_ctrl = False, ke_sequence = chunk\<rparr>
      else
        (let first = (case codePoints chunk of [] \<Rightarrow> [] | p # ps \<Rightarrow> p) in
         case first of
           [c] \<Rightarrow>
             (let code = (of_char c :: nat) in
              if 0 < code \<and> code < 27 then \<lparr>ke_name = [char_of (code + 96)], ke_ctrl = True, ke_sequence = chunk\<rparr>
              else \<lparr>ke_name = map to_lower first, ke_ctrl = False, ke_sequence = chunk\<rparr>)
         | _ \<Rightarrow> \<lparr>ke_name = first, ke_ctrl = False, ke_sequence = chunk\<rparr>))"

fun split_points :: "string list \<Rightarrow> string list" where
  "split_points [] = []"
| "split_points (p # ps) = (if p = ESC then [concat (p # ps)] else p # split_points ps)"

definition splitKeystrokes :: "string \<Rightarrow> string list" where
  "splitKeystrokes chunk = split_points (codePoints chunk)"

subsection \<open>The reducer\<close>

definition cardInstant :: "int \<Rightarrow> string" where
  "cardInstant atMs = filter (\<lambda>c. c \<notin> {CHR ''-'', CHR '':'', CHR ''.''}) (toISOString atMs)"

definition initialBuffer :: "operator_state \<Rightarrow> input_field \<Rightarrow> string" where
  "initialBuffer s field =
     (case active s of
        None \<Rightarrow> []
      | Some profile \<Rightarrow>
          (case field of
             ExportPathField \<Rightarrow>
               pv_profileDir profile @ ''/card-''
               @ cardInstant (case os_observedAtMs s of None \<Rightarrow> 0 | Some t \<Rightarrow> t) @ ''.json''
           | CardPathField \<Rightarrow> (case pv_contactCardPath profile of None \<Rightarrow> [] | Some path \<Rightarrow> path)
           | _ \<Rightarrow> []))"

definition submitRequest :: "operator_state \<Rightarrow> input_state \<Rightarrow> cli_request option" where
  "submitRequest s i =
     (case active s of
        None \<Rightarrow> None
      | Some profile \<Rightarrow>
          let v = ip_buffer i; dir = pv_profileDir profile in
          (case ip_field i of
             MessageField \<Rightarrow>
               (case os_selectedContactId s of
                  None \<Rightarrow> None
                | Some to \<Rightarrow> if v = [] \<or> \<not> pv_published profile then None else Some (SendRequest dir to v None))
           | RelayUrlField \<Rightarrow>
               if v = [] \<or> pv_storeKeyPresent profile \<noteq> Some True then None
               else Some (InitRequest dir v (pv_storeKeyEnv profile))
           | ExportPathField \<Rightarrow> if v = [] then None else Some (ExportRequest dir v)
           | CardPathField \<Rightarrow> if v = [] then None else Some (ImportRequest dir v)
           | _ \<Rightarrow> None))"

definition update_active :: "operator_state \<Rightarrow> (profile_view \<Rightarrow> profile_view) \<Rightarrow> profile_view list" where
  "update_active s f =
     map (\<lambda>(index, profile). if index = os_activeProfile s then f profile else profile) (enumerate 0 (os_profiles s))"

fun reduce :: "operator_state \<Rightarrow> intent \<Rightarrow> operator_state \<times> effect list" where
  "reduce s (SelectPane pane) = (s\<lparr>os_pane := pane\<rparr>, [])"
| "reduce s (SelectProfile index) =
     (s\<lparr>os_activeProfile := if 0 \<le> index \<and> index < int (length (os_profiles s)) then nat index else os_activeProfile s\<rparr>, [])"
| "reduce s (SelectContact contact) = (s\<lparr>os_selectedContactId := Some contact\<rparr>, [])"
| "reduce s ToggleHelp = (s\<lparr>os_help := Some (os_help s \<noteq> Some True)\<rparr>, [])"
| "reduce s (Run r) = (if os_busy s then (s, []) else (s\<lparr>os_busy := True\<rparr>, [RunCli r]))"
| "reduce s TrustConfirm =
     (case os_modal s of
        None \<Rightarrow> (s, [])
      | Some modal \<Rightarrow>
          if tm_renderedAt modal = None \<or> \<not> trustModalIsComplete modal then (s, [])
          else (s\<lparr>os_modal := None\<rparr>, [AnswerTrustPrompt True]))"
| "reduce s TrustCancel =
     (if os_modal s = None then (s, []) else (s\<lparr>os_modal := None\<rparr>, [AnswerTrustPrompt False]))"
| "reduce s (InputOpen field) =
     (if os_modal s \<noteq> None \<or> os_busy s then (s, [])
      else (s\<lparr>os_input := Some \<lparr>ip_field = field, ip_buffer = initialBuffer s field, ip_renderedAt = None,
              ip_maxBytes = inputMaxBytes field\<rparr>\<rparr>, []))"
| "reduce s (InputInsert chunk) =
     (case os_input s of
        None \<Rightarrow> (s, [])
      | Some i \<Rightarrow>
          if os_modal s \<noteq> None then (s, [])
          else
            (let cleaned = paintable chunk; buffer = ip_buffer i @ cleaned in
             if cleaned = [] then (s, [])
             else if utf8Bytes buffer > ip_maxBytes i then (s, [])
             else (s\<lparr>os_input := Some (i\<lparr>ip_buffer := buffer\<rparr>)\<rparr>, [])))"
| "reduce s InputBackspace =
     (case os_input s of
        None \<Rightarrow> (s, [])
      | Some i \<Rightarrow>
          if os_modal s \<noteq> None then (s, [])
          else (s\<lparr>os_input := Some (i\<lparr>ip_buffer := concat (butlast (codePoints (ip_buffer i)))\<rparr>)\<rparr>, []))"
| "reduce s InputCancel = (if os_input s = None then (s, []) else (s\<lparr>os_input := None\<rparr>, []))"
| "reduce s InputSubmit =
     (case os_input s of
        None \<Rightarrow> (s, [])
      | Some i \<Rightarrow>
          if os_modal s \<noteq> None \<or> os_busy s then (s, [])
          else if ip_renderedAt i = None then (s, [])
          else
            (case submitRequest s i of
               None \<Rightarrow> (s, [])
             | Some r \<Rightarrow>
                 let profiles = (case r of
                     InitRequest dir relayUrl env \<Rightarrow> update_active s (\<lambda>p. p\<lparr>pv_relayUrl := relayUrl\<rparr>)
                   | _ \<Rightarrow> os_profiles s)
                 in (s\<lparr>os_profiles := profiles, os_input := None, os_busy := True\<rparr>, [RunCli r])))"
| "reduce s QuitIntent = (s, [QuitEffect])"

subsection \<open>The outcome of a command\<close>

definition paintableIdentifiers :: "trust_identifiers \<Rightarrow> trust_identifiers" where
  "paintableIdentifiers identifiers =
     \<lparr>ti_identity_id = map_option paintable (ti_identity_id identifiers),
      ti_device_id = map_option paintable (ti_device_id identifiers),
      ti_device_pubkey = map_option paintable (ti_device_pubkey identifiers),
      ti_signal_identity_key = map_option paintable (ti_signal_identity_key identifiers)\<rparr>"

fun isRecord :: "json \<Rightarrow> bool" where
  "isRecord (JObj kvs) = True"
| "isRecord _ = False"

fun asNumber :: "json \<Rightarrow> int \<Rightarrow> int" where
  "asNumber (JNum n) fallback = n"
| "asNumber _ fallback = fallback"

fun read_rejection :: "json \<Rightarrow> rejection_view list" where
  "read_rejection (JObj kvs) =
     (case (jprop (JObj kvs) ''envelopeId'', jprop (JObj kvs) ''code'') of
        (JStr i, JStr c) \<Rightarrow> [\<lparr>rj_envelopeId = paintable i, rj_code = paintable c\<rparr>]
      | _ \<Rightarrow> [])"
| "read_rejection _ = []"

fun readRejections :: "json \<Rightarrow> rejection_view list" where
  "readRejections (JArr vs) = concat (map read_rejection vs)"
| "readRejections _ = []"

fun read_entry :: "json \<Rightarrow> history_view list" where
  "read_entry (JObj kvs) =
     (let e = JObj kvs in
      case (jprop e ''contactIdentityId'', jprop e ''messageId'', jprop e ''plaintext'') of
        (JStr contact, JStr mid, JStr body) \<Rightarrow>
          (let way =
             (if jprop e ''direction'' = JStr ''inbound'' then Some InboundEntry
              else if jprop e ''direction'' = JStr ''outbound'' then Some OutboundEntry else None)
           in case way of
                None \<Rightarrow> []
              | Some d \<Rightarrow>
                  [\<lparr>he_sequence = asNumber (jprop e ''sequence'') 0, he_contactIdentityId = paintable contact,
                    he_messageId = paintable mid, he_direction = d, he_plaintext = paintable body,
                    he_createdAtMs = asNumber (jprop e ''createdAtMs'') 0\<rparr>])
      | _ \<Rightarrow> [])"
| "read_entry _ = []"

definition readHistoryEntries :: "json \<Rightarrow> history_view list" where
  "readHistoryEntries v =
     (case jprop v ''entries'' of JArr es \<Rightarrow> concat (map read_entry es) | _ \<Rightarrow> [])"

fun SETUP_STEP_OF :: "cli_command \<Rightarrow> nat option" where
  "SETUP_STEP_OF Init = Some 1"
| "SETUP_STEP_OF RelayPublish = Some 2"
| "SETUP_STEP_OF ContactExport = Some 3"
| "SETUP_STEP_OF ContactImport = Some 4"
| "SETUP_STEP_OF Doctor = Some 5"
| "SETUP_STEP_OF _ = None"

definition stepSucceeded :: "cli_request \<Rightarrow> cli_outcome \<Rightarrow> bool" where
  "stepSucceeded r outcome \<longleftrightarrow>
     request_command r \<noteq> Doctor
     \<or> isRecord (oc_data outcome) \<and> asNumber (jprop (oc_data outcome) ''contact_count'') 0 > 0"

definition reportedIdentity :: "cli_request \<Rightarrow> cli_outcome \<Rightarrow> string option" where
  "reportedIdentity r outcome =
     (if request_command r \<noteq> Init \<and> request_command r \<noteq> Doctor then None
      else if \<not> oc_ok outcome \<or> \<not> isRecord (oc_data outcome) then None
      else (case jprop (oc_data outcome) ''identity_id'' of JStr i \<Rightarrow> Some i | _ \<Rightarrow> None))"

definition foldSetup :: "operator_state \<Rightarrow> cli_request \<Rightarrow> cli_outcome \<Rightarrow> profile_view list" where
  "foldSetup s r outcome =
     (let absent = \<not> oc_ok outcome \<and> oc_code outcome = ''INVALID_CONFIGURATION'' \<and> oc_exitCode outcome = 2 in
      update_active s (\<lambda>profile.
        case pv_setup profile of
          None \<Rightarrow> profile
        | Some setup \<Rightarrow>
            let st = (if absent then Some AbsentProfile
                      else if reportedIdentity r outcome \<noteq> None then Some ReadyProfile else pv_state profile) in
            (case SETUP_STEP_OF (request_command r) of
               None \<Rightarrow> profile\<lparr>pv_state := st\<rparr>
             | Some step \<Rightarrow>
                 let v = (if oc_ok outcome then (if stepSucceeded r outcome then StepOk else StepPending)
                          else StepFailed (paintable (oc_code outcome)) (oc_exitCode outcome));
                     folded = map (\<lambda>(i, previous). if i = step then v else if i > step then StepPending else previous)
                       (enumerate 0 setup)
                 in profile\<lparr>pv_state := st, pv_setup := Some folded\<rparr>)))"

fun reportedCount :: "json \<Rightarrow> int option \<Rightarrow> int option" where
  "reportedCount (JNum n) previous = Some n"
| "reportedCount _ previous = previous"

definition folded_health :: "operator_state \<Rightarrow> cli_outcome \<Rightarrow> int \<Rightarrow> relay_health" where
  "folded_health s outcome atMs =
     (if oc_ok outcome then (os_health s)\<lparr>rh_status := RelayHealthy, rh_checkedAtMs := Some atMs\<rparr>
      else if oc_exitCode outcome = 4 then (os_health s)\<lparr>rh_status := RelayUnreachable, rh_checkedAtMs := Some atMs\<rparr>
      else os_health s)"

definition painted_or :: "json \<Rightarrow> string \<Rightarrow> string" where
  "painted_or v fallback = (case v of JStr t \<Rightarrow> paintable t | _ \<Rightarrow> fallback)"

definition fold_summary :: "operator_state \<Rightarrow> json \<Rightarrow> operator_state" where
  "fold_summary next doc =
     (if \<not> isRecord doc then next
      else next\<lparr>os_profiles := update_active next (\<lambda>p.
        p\<lparr>pv_identityId := painted_or (jprop doc ''identity_id'') (pv_identityId p),
          pv_deviceId := painted_or (jprop doc ''device_id'') (pv_deviceId p),
          pv_contactCount := asNumber (jprop doc ''contact_count'') (pv_contactCount p)\<rparr>)\<rparr>)"

definition applyOutcome :: "operator_state \<Rightarrow> cli_request \<Rightarrow> cli_outcome \<Rightarrow> int \<Rightarrow> operator_state" where
  "applyOutcome s r outcome atMs =
     (let touchedRelay = request_command r \<in> {Poll, RelayPublish, Send};
          next = s\<lparr>os_health := if touchedRelay then folded_health s outcome atMs else os_health s,
                   os_profiles := foldSetup s r outcome,
                   os_mailbox := (os_mailbox s)\<lparr>mb_outboxPending := None\<rparr>\<rparr>;
          doc = oc_data outcome
      in if \<not> oc_ok outcome then next
         else
           (case request_command r of
              Init \<Rightarrow> fold_summary next doc
            | Doctor \<Rightarrow> fold_summary next doc
            | Poll \<Rightarrow>
                if \<not> isRecord doc then next
                else next\<lparr>os_mailbox := \<lparr>mb_outboxPending = mb_outboxPending (os_mailbox next),
                      mb_inboxReceived = reportedCount (jprop doc ''received'') (mb_inboxReceived (os_mailbox next)),
                      mb_more = (jprop doc ''more'' = JBool True), mb_lastPolledAtMs = Some atMs\<rparr>,
                    os_rejections := readRejections (jprop doc ''rejected'')\<rparr>
            | RelayPublish \<Rightarrow> next\<lparr>os_profiles := update_active next (\<lambda>p. p\<lparr>pv_published := True\<rparr>)\<rparr>
            | Send \<Rightarrow> next
            | HistoryOf \<Rightarrow> next\<lparr>os_history := readHistoryEntries doc\<rparr>
            | _ \<Rightarrow> next))"

definition right_arrow :: string where "right_arrow = [CHR 0xE2, CHR 0x86, CHR 0x92]"

definition outcomeLine :: "cli_command \<Rightarrow> cli_outcome \<Rightarrow> string" where
  "outcomeLine command outcome =
     (let head = command_name command @ '' '' @ right_arrow @ '' '' @ oc_code outcome
            @ '' (exit '' @ show_int (oc_exitCode outcome) @ '')'';
          t = explain command (oc_code outcome) (oc_exitCode outcome)
      in if oc_ok outcome then head else head @ ''  '' @ ft_sentence t @ '' '' @ ft_action t)"

subsection \<open>The composition root\<close>

text \<open>
  \<open>resolve\<close> stands for Node's \<open>path.resolve\<close> with the directory the console was started in, and
  \<open>variables\<close> for the names set in its environment: the values are read by nothing here.
\<close>

definition HELP_FLAGS :: "string set" where "HELP_FLAGS = {''--help'', ''-h''}"

fun wantsHelp :: "string list \<Rightarrow> bool" where
  "wantsHelp [] = False"
| "wantsHelp [token] = (token \<in> HELP_FLAGS)"
| "wantsHelp (token # operand # argv) = (token \<in> HELP_FLAGS \<or> wantsHelp argv)"

definition new_profile :: "(string \<Rightarrow> string) \<Rightarrow> nat \<Rightarrow> string \<Rightarrow> profile_view" where
  "new_profile resolve n dir =
     \<lparr>pv_label = ''profile-'' @ show_nat (n + 1), pv_profileDir = resolve dir, pv_relayUrl = [], pv_storeKeyEnv = [],
      pv_identityId = ''(run doctor)'', pv_deviceId = ''(run doctor)'', pv_contactCount = 0, pv_published = False,
      pv_state = Some UnknownProfile, pv_storeKeyPresent = None, pv_setup = Some PENDING_SETUP, pv_contactCardPath = None\<rparr>"

definition assign :: "(string \<Rightarrow> string) \<Rightarrow> profile_view list \<Rightarrow> string \<Rightarrow> string \<Rightarrow> profile_view list result" where
  "assign resolve profiles key v =
     (if profiles = [] then Inl (PlainError (key @ '' must follow a --profile''))
      else
        (let current = last profiles; put = (\<lambda>p. Inr (butlast profiles @ [p])) in
         if key = ''--label'' then put (current\<lparr>pv_label := v\<rparr>)
         else if key = ''--relay-url'' then put (current\<lparr>pv_relayUrl := v\<rparr>)
         else if key = ''--store-key-env'' then put (current\<lparr>pv_storeKeyEnv := v\<rparr>)
         else if key = ''--card'' then put (current\<lparr>pv_contactCardPath := Some (resolve v)\<rparr>)
         else Inl (PlainError (''unknown option '' @ key))))"

fun parse_options :: "(string \<Rightarrow> string) \<Rightarrow> profile_view list \<Rightarrow> string \<Rightarrow> string list \<Rightarrow> (profile_view list \<times> string) result" where
  "parse_options resolve profiles cliPath [] =
     (if profiles = [] then Inl (PlainError ''at least one --profile <dir> is required'') else Inr (profiles, cliPath))"
| "parse_options resolve profiles cliPath [flag] =
     (if flag \<in> HELP_FLAGS then parse_options resolve profiles cliPath []
      else Inl (PlainError (flag @ '' needs a value'')))"
| "parse_options resolve profiles cliPath (flag # v # argv) =
     (if flag \<in> HELP_FLAGS then parse_options resolve profiles cliPath (v # argv)
      else if flag = ''--profile''
      then parse_options resolve (profiles @ [new_profile resolve (length profiles) v]) cliPath argv
      else if flag = ''--cli'' then parse_options resolve profiles (resolve v) argv
      else bindR (assign resolve profiles flag v) (\<lambda>ps. parse_options resolve ps cliPath argv))"

definition parseOptions :: "(string \<Rightarrow> string) \<Rightarrow> string \<Rightarrow> string list \<Rightarrow> (profile_view list \<times> string) result" where
  "parseOptions resolve defaultCli rawArgv = parse_options resolve [] defaultCli (map paintable rawArgv)"

definition withStoreKeyPresence :: "string set \<Rightarrow> profile_view \<Rightarrow> profile_view" where
  "withStoreKeyPresence variables profile =
     (let present = pv_storeKeyEnv profile \<in> variables;
          setup = (case pv_setup profile of None \<Rightarrow> PENDING_SETUP | Some s \<Rightarrow> s)
      in profile\<lparr>pv_storeKeyPresent := Some present,
          pv_setup := Some (map (\<lambda>(step, outcome). if step = 0 then (if present then StepOk else StepPending) else outcome)
            (enumerate (0 :: nat) setup))\<rparr>)"

fun split_lines :: "string \<Rightarrow> string list" where
  "split_lines [] = [[]]"
| "split_lines (c # s) =
     (if c = CHR 0x0A then [] # split_lines s
      else (case split_lines s of [] \<Rightarrow> [[c]] | l # ls \<Rightarrow> (c # l) # ls))"

definition str_field :: "json \<Rightarrow> string \<Rightarrow> string option" where
  "str_field v key = (case jprop v key of JStr s \<Rightarrow> Some s | _ \<Rightarrow> None)"

definition line_identifiers :: "string \<Rightarrow> trust_identifiers option" where
  "line_identifiers line =
     (let trimmed = trim line in
      if \<not> prefix ''{'' trimmed then None
      else
        (case parse_json trimmed of
           None \<Rightarrow> None
         | Some v \<Rightarrow>
             if str_field v ''identity_id'' = None then None
             else Some \<lparr>ti_identity_id = str_field v ''identity_id'', ti_device_id = str_field v ''device_id'',
               ti_device_pubkey = str_field v ''device_pubkey'', ti_signal_identity_key = str_field v ''signal_identity_key''\<rparr>))"

definition readIdentifiers :: "string \<Rightarrow> trust_identifiers option" where
  "readIdentifiers text =
     (case List.map_filter line_identifiers (split_lines text) of [] \<Rightarrow> None | i # is \<Rightarrow> Some i)"

subsection \<open>The shell\<close>

text \<open>
  A child of the console: its request, what it wrote to its standard error, whether its identifiers
  were announced, and whether the console asked for it by itself.
\<close>

record child =
  ch_request :: cli_request
  ch_stderr :: string
  ch_announced :: bool
  ch_startup :: bool

datatype screen_write = AlternateOn | Painted "string list" | AlternateOff | StillRunning string

text \<open>
  What \<open>runTuiShell\<close> and \<open>runCli\<close> keep: the variables of both closures, how often the clock was read, the
  completions that wait for the end of the current event, the writes to the terminal, and the
  answers given, each with the confirmation it answers and whether a child's standard input got it.
\<close>

record shell =
  sh_current :: operator_state
  sh_running :: bool
  sh_finished :: bool
  sh_confirmed :: "trust_modal option"
  sh_inFlight :: "cli_command option"
  sh_children :: "child list"
  sh_awaiting :: bool
  sh_reads :: nat
  sh_deferred :: nat
  sh_screen :: "screen_write list"
  sh_answers :: "(bool \<times> trust_modal \<times> bool) list"

definition write_screen :: "screen_write \<Rightarrow> shell \<Rightarrow> shell" where
  "write_screen x sh = sh\<lparr>sh_screen := sh_screen sh @ [x]\<rparr>"

definition change :: "(operator_state \<Rightarrow> operator_state) \<Rightarrow> shell \<Rightarrow> shell" where
  "change f sh = sh\<lparr>sh_current := f (sh_current sh)\<rparr>"

definition tick :: "shell \<Rightarrow> shell" where
  "tick sh = sh\<lparr>sh_reads := Suc (sh_reads sh)\<rparr>"

text \<open>The clock gives the next reading to a change of the state.\<close>

definition timed :: "(nat \<Rightarrow> int) \<Rightarrow> (int \<Rightarrow> operator_state \<Rightarrow> operator_state) \<Rightarrow> shell \<Rightarrow> shell" where
  "timed clock f sh = tick (change (f (clock (sh_reads sh))) sh)"

definition stamp_modal :: "int \<Rightarrow> operator_state \<Rightarrow> operator_state" where
  "stamp_modal t s = s\<lparr>os_modal := map_option (\<lambda>m. m\<lparr>tm_renderedAt := Some t\<rparr>) (os_modal s)\<rparr>"

definition stamp_input :: "int \<Rightarrow> operator_state \<Rightarrow> operator_state" where
  "stamp_input t s = s\<lparr>os_input := map_option (\<lambda>i. i\<lparr>ip_renderedAt := Some t\<rparr>) (os_input s)\<rparr>"

definition unpainted_modal :: "operator_state \<Rightarrow> bool" where
  "unpainted_modal s \<longleftrightarrow> (case os_modal s of None \<Rightarrow> False | Some m \<Rightarrow> tm_renderedAt m = None)"

definition unpainted_input :: "operator_state \<Rightarrow> bool" where
  "unpainted_input s \<longleftrightarrow> (case os_input s of None \<Rightarrow> False | Some i \<Rightarrow> ip_renderedAt i = None)"

definition paint :: "(nat \<Rightarrow> int) \<Rightarrow> viewport \<Rightarrow> shell \<Rightarrow> shell" where
  "paint clock v sh =
     (let sh1 = write_screen (Painted (renderFrame (sh_current sh) v)) sh;
          sh2 = (if unpainted_modal (sh_current sh1) \<and> \<not> isBelowMinViewport v then timed clock stamp_modal sh1 else sh1)
      in if unpainted_input (sh_current sh2) \<and> \<not> isBelowMinViewport v then timed clock stamp_input sh2 else sh2)"

definition note_line :: "string \<Rightarrow> int \<Rightarrow> operator_state \<Rightarrow> operator_state" where
  "note_line line t s =
     (let ls = os_activity s @ [\<lparr>ac_at = t, ac_text = paintable line\<rparr>]
      in s\<lparr>os_activity := drop (length ls - 64) ls\<rparr>)"

definition note_activity :: "(nat \<Rightarrow> int) \<Rightarrow> string \<Rightarrow> shell \<Rightarrow> shell" where
  "note_activity clock line = timed clock (note_line line)"

definition observeContact :: "trust_modal \<Rightarrow> operator_state \<Rightarrow> operator_state" where
  "observeContact modal s =
     (let i = tm_identifiers modal in
      case (ti_identity_id i, ti_device_id i, ti_device_pubkey i, ti_signal_identity_key i) of
        (Some identity, Some device, Some pubkey, Some signalKey) \<Rightarrow>
          if \<exists>c \<in> set (os_contacts s). cv_identityId c = identity then s
          else s\<lparr>os_contacts := os_contacts s
            @ [\<lparr>cv_identityId = identity, cv_deviceId = device, cv_devicePubkey = pubkey,
                cv_signalIdentityKey = signalKey, cv_displayName = None\<rparr>]\<rparr>
      | _ \<Rightarrow> s)"

definition finish :: "viewport \<Rightarrow> shell \<Rightarrow> shell" where
  "finish v sh =
     (if sh_finished sh then sh
      else
        (let sh1 = write_screen AlternateOff (sh\<lparr>sh_finished := True\<rparr>) in
         case sh_inFlight sh of
           None \<Rightarrow> sh1
         | Some c \<Rightarrow> write_screen (StillRunning (clipLine (command_name c @ '' is still running'') (max 1 (vp_cols v)))) sh1))"

text \<open>The end of a keystroke's chain.\<close>

definition complete :: "(nat \<Rightarrow> int) \<Rightarrow> viewport \<Rightarrow> shell \<Rightarrow> shell" where
  "complete clock v sh = (if sh_running sh then paint clock v sh else finish v sh)"

definition start_child :: "bool \<Rightarrow> cli_request \<Rightarrow> shell \<Rightarrow> shell" where
  "start_child startup r sh =
     sh\<lparr>sh_inFlight := Some (request_command r),
        sh_children := sh_children sh @ [\<lparr>ch_request = r, ch_stderr = [], ch_announced = False, ch_startup = startup\<rparr>]\<rparr>"

definition answer_prompt :: "(nat \<Rightarrow> int) \<Rightarrow> bool \<Rightarrow> trust_modal \<Rightarrow> shell \<Rightarrow> shell" where
  "answer_prompt clock b modal sh =
     note_activity clock
       (if b then ''contact import '' @ right_arrow @ '' confirmed by operator''
        else ''contact import '' @ right_arrow @ '' declined by operator'')
       (sh\<lparr>sh_answers := sh_answers sh @ [(b, modal, sh_awaiting sh)]\<rparr>)"

text \<open>
  The effects of a keystroke; there is at most one. A command is awaited, so its chain goes on when the
  child settles; the other effects complete when the event has been handled.
\<close>

definition run_effects :: "(nat \<Rightarrow> int) \<Rightarrow> viewport \<Rightarrow> trust_modal option \<Rightarrow> effect list \<Rightarrow> shell \<Rightarrow> shell" where
  "run_effects clock v open effects sh =
     (case effects of
        [] \<Rightarrow> complete clock v sh
      | RunCli r # _ \<Rightarrow> start_child False r sh
      | AnswerTrustPrompt b # _ \<Rightarrow>
          (case open of None \<Rightarrow> sh | Some modal \<Rightarrow> answer_prompt clock b modal sh)\<lparr>sh_deferred := Suc (sh_deferred sh)\<rparr>
      | QuitEffect # _ \<Rightarrow> sh\<lparr>sh_running := False, sh_deferred := Suc (sh_deferred sh)\<rparr>)"

definition handleKey :: "(nat \<Rightarrow> int) \<Rightarrow> viewport \<Rightarrow> string \<Rightarrow> shell \<Rightarrow> shell" where
  "handleKey clock v sequence sh =
     (case mapKey (decodeKey sequence) (sh_current sh) of
        None \<Rightarrow> sh
      | Some intent \<Rightarrow>
          let open = os_modal (sh_current sh); (next, effects) = reduce (sh_current sh) intent;
              sh1 = (if open \<noteq> None \<and> AnswerTrustPrompt True \<in> set effects then sh\<lparr>sh_confirmed := open\<rparr> else sh)
          in run_effects clock v open effects (paint clock v (sh1\<lparr>sh_current := next\<rparr>)))"

fun handle_keys :: "(nat \<Rightarrow> int) \<Rightarrow> viewport \<Rightarrow> string list \<Rightarrow> shell \<Rightarrow> shell" where
  "handle_keys clock v [] sh = sh"
| "handle_keys clock v (k # ks) sh = (if sh_running sh then handle_keys clock v ks (handleKey clock v k sh) else sh)"

definition run_deferred :: "(nat \<Rightarrow> int) \<Rightarrow> viewport \<Rightarrow> shell \<Rightarrow> shell" where
  "run_deferred clock v sh = (complete clock v ^^ sh_deferred sh) (sh\<lparr>sh_deferred := 0\<rparr>)"

definition key_chunk :: "(nat \<Rightarrow> int) \<Rightarrow> viewport \<Rightarrow> string \<Rightarrow> shell \<Rightarrow> shell" where
  "key_chunk clock v chunk sh =
     (if \<not> sh_running sh then sh
      else run_deferred clock v
        (handle_keys clock v (if os_input (sh_current sh) = None then splitKeystrokes chunk else [chunk]) sh))"

text \<open>The child's identifiers open the confirmation; the listener does not ask whether the console still runs.\<close>

definition show_identifiers :: "(nat \<Rightarrow> int) \<Rightarrow> viewport \<Rightarrow> string \<Rightarrow> string \<Rightarrow> trust_identifiers \<Rightarrow> shell \<Rightarrow> shell" where
  "show_identifiers clock v cardPath profileLabel identifiers sh =
     paint clock v (change (\<lambda>s. s\<lparr>os_modal := Some \<lparr>tm_cardPath = cardPath, tm_profileLabel = profileLabel,
        tm_identifiers = paintableIdentifiers identifiers, tm_renderedAt = None\<rparr>\<rparr>) sh)"

definition profile_label :: "profile_view list \<Rightarrow> string \<Rightarrow> string" where
  "profile_label profiles dir =
     (case find (\<lambda>p. pv_profileDir p = dir) profiles of None \<Rightarrow> dir | Some p \<Rightarrow> pv_label p)"

definition child_stderr :: "(nat \<Rightarrow> int) \<Rightarrow> profile_view list \<Rightarrow> viewport \<Rightarrow> nat \<Rightarrow> string \<Rightarrow> shell \<Rightarrow> shell" where
  "child_stderr clock profiles v i chunk sh =
     (case at (sh_children sh) i of
        None \<Rightarrow> sh
      | Some c \<Rightarrow>
          let printed = ch_stderr c @ chunk; sh1 = sh\<lparr>sh_children := (sh_children sh)[i := c\<lparr>ch_stderr := printed\<rparr>]\<rparr> in
          (case (ch_request c, readIdentifiers printed) of
             (ImportRequest dir source, Some identifiers) \<Rightarrow>
               if ch_announced c then sh1
               else show_identifiers clock v source (profile_label profiles dir) identifiers
                 (sh\<lparr>sh_children := (sh_children sh)[i := c\<lparr>ch_stderr := printed, ch_announced := True\<rparr>],
                     sh_awaiting := True\<rparr>)
           | _ \<Rightarrow> sh1))"

text \<open>What follows the settling of a command: \<open>apply\<close> after its \<open>await\<close>.\<close>

definition settle_command :: "(nat \<Rightarrow> int) \<Rightarrow> cli_request \<Rightarrow> cli_outcome \<Rightarrow> shell \<Rightarrow> shell" where
  "settle_command clock r outcome sh =
     (let sh1 = note_activity clock (outcomeLine (request_command r) outcome) (sh\<lparr>sh_inFlight := None\<rparr>);
          sh2 = timed clock (\<lambda>t s. (applyOutcome s r outcome t)\<lparr>os_busy := False\<rparr>) sh1;
          sh3 = timed clock (\<lambda>t s. s\<lparr>os_observedAtMs := Some t\<rparr>) sh2
      in if request_command r = ContactImport
         then (case sh_confirmed sh3 of
             Some m \<Rightarrow> if oc_ok outcome then change (observeContact m) sh3 else sh3
           | None \<Rightarrow> sh3)\<lparr>sh_confirmed := None\<rparr>
         else sh3)"

definition child_closed :: "(nat \<Rightarrow> int) \<Rightarrow> viewport \<Rightarrow> nat \<Rightarrow> string \<Rightarrow> int \<Rightarrow> shell \<Rightarrow> shell" where
  "child_closed clock v i out exitCode sh =
     (case at (sh_children sh) i of
        None \<Rightarrow> sh
      | Some c \<Rightarrow>
          let sh1 = settle_command clock (ch_request c) (parseCliOutcome out exitCode)
            (sh\<lparr>sh_children := take i (sh_children sh) @ drop (Suc i) (sh_children sh), sh_awaiting := False\<rparr>)
          in if ch_startup c then (if sh_running sh1 then paint clock v sh1 else sh1) else complete clock v sh1)"

definition askWhatIsThere :: "(nat \<Rightarrow> int) \<Rightarrow> viewport \<Rightarrow> shell \<Rightarrow> shell" where
  "askWhatIsThere clock v sh =
     (case active (sh_current sh) of
        None \<Rightarrow> sh
      | Some profile \<Rightarrow>
          if pv_state profile \<noteq> Some UnknownProfile then sh
          else
            (case reduce (sh_current sh) (Run (DoctorRequest (pv_profileDir profile))) of
               (next, RunCli r # _) \<Rightarrow> start_child True r (paint clock v (sh\<lparr>sh_current := next\<rparr>))
             | (next, _) \<Rightarrow> paint clock v (sh\<lparr>sh_current := next\<rparr>)))"

definition runTuiShell :: "(nat \<Rightarrow> int) \<Rightarrow> viewport \<Rightarrow> operator_state \<Rightarrow> shell" where
  "runTuiShell clock v s =
     (let sh = \<lparr>sh_current = s, sh_running = True, sh_finished = False, sh_confirmed = None, sh_inFlight = None,
          sh_children = [], sh_awaiting = False, sh_reads = 0, sh_deferred = 0, sh_screen = [], sh_answers = []\<rparr>;
          sh1 = (if os_observedAtMs s = None then timed clock (\<lambda>t s. s\<lparr>os_observedAtMs := Some t\<rparr>) sh else sh)
      in askWhatIsThere clock v (paint clock v (write_screen AlternateOn sh1)))"

datatype shell_event =
    KeyChunk string
  | ChildStderr nat string
  | ChildClosed nat string int

fun shell_step :: "(nat \<Rightarrow> int) \<Rightarrow> profile_view list \<Rightarrow> viewport \<Rightarrow> shell_event \<Rightarrow> shell \<Rightarrow> shell" where
  "shell_step clock profiles v (KeyChunk chunk) sh = key_chunk clock v chunk sh"
| "shell_step clock profiles v (ChildStderr i chunk) sh = child_stderr clock profiles v i chunk sh"
| "shell_step clock profiles v (ChildClosed i out exitCode) sh = child_closed clock v i out exitCode sh"

text \<open>
  The shells a session started with \<open>profiles\<close> can reach, whatever the clock says, the operator types, the
  children print and exit with, and however the terminal is resized in between.
\<close>

inductive session :: "(nat \<Rightarrow> int) \<Rightarrow> string set \<Rightarrow> profile_view list \<Rightarrow> shell \<Rightarrow> bool"
  for clock variables profiles where
  opened: "session clock variables profiles
    (runTuiShell clock v (createInitialState (map (withStoreKeyPresence variables) profiles)))"
| event: "session clock variables profiles sh \<Longrightarrow> session clock variables profiles (shell_step clock profiles v e sh)"

end
