(* ===== verification/ConsoleLaws.thy ===== *)
theory ConsoleLaws
  imports Console
begin

text \<open>
  What holds of the operator console: the laws of its reducer, and the invariants of a session - one
  command at a time, no typing under a confirmation, a way out in every state, only shown identifiers
  answered with yes, a roster of confirmed contacts, and only clean text on the terminal. The last
  part is a locale for the invariants of a session, interpreted once for each of them.
\<close>

subsection \<open>The reducer\<close>

text \<open>An effect list has at most one element, and each effect its precondition.\<close>

definition answering :: "operator_state \<Rightarrow> intent \<Rightarrow> bool \<Rightarrow> trust_modal \<Rightarrow> bool" where
  "answering s i b m \<longleftrightarrow> os_modal s = Some m \<and> i = (if b then TrustConfirm else TrustCancel)
     \<and> (b \<longrightarrow> tm_renderedAt m \<noteq> None \<and> trustModalIsComplete m)"

definition running :: "operator_state \<Rightarrow> intent \<Rightarrow> operator_state \<Rightarrow> cli_request \<Rightarrow> bool" where
  "running s i n r \<longleftrightarrow> \<not> os_busy s \<and> os_busy n \<and> os_modal n = os_modal s
     \<and> (i = Run r \<or> i = InputSubmit \<and> os_modal s = None \<and> os_input n = None)"

lemma reduce_effects:
  assumes "reduce s i = (n, es)"
  shows "es = [] \<and> os_busy n = os_busy s \<and> os_modal n = os_modal s
    \<or> (\<exists>r. es = [RunCli r] \<and> running s i n r)
    \<or> (\<exists>b m. es = [AnswerTrustPrompt b] \<and> n = s\<lparr>os_modal := None\<rparr> \<and> answering s i b m)
    \<or> es = [QuitEffect] \<and> n = s \<and> i = QuitIntent"
proof (cases i)
  case (Run r)
  with assms show ?thesis by (auto simp: running_def split: if_splits)
next
  case TrustConfirm
  with assms show ?thesis by (auto simp: answering_def split: option.splits if_splits)
next
  case TrustCancel
  with assms show ?thesis by (auto simp: answering_def split: if_splits)
next
  case InputSubmit
  show ?thesis
  proof (cases "os_input s = None \<or> os_modal s \<noteq> None \<or> os_busy s")
    case True
    with assms InputSubmit show ?thesis by (auto split: option.splits)
  next
    case False
    then obtain inp where inp: "os_input s = Some inp" "os_modal s = None" "\<not> os_busy s" by auto
    show ?thesis
    proof (cases "submitRequest s inp")
      case None
      with assms InputSubmit inp show ?thesis by (simp split: if_splits)
    next
      case (Some r)
      with assms InputSubmit inp show ?thesis by (auto simp: running_def Let_def split: if_splits)
    qed
  qed
next
  case (InputInsert t)
  with assms show ?thesis by (auto simp: Let_def split: option.splits if_splits)
next
  case InputBackspace
  with assms show ?thesis by (auto split: option.splits if_splits)
qed (use assms in \<open>auto split: if_splits\<close>)

text \<open>Who owns the keyboard: a confirmation, then the input row, then the panes.\<close>

lemma mapKey_modal: "os_modal s \<noteq> None \<Longrightarrow> mapKey k s = Some i \<Longrightarrow> i \<in> {QuitIntent, TrustConfirm, TrustCancel}"
  by (auto simp: mapKey_def ctrl_intent_def split: if_splits)

lemma mapKey_input:
  "os_modal s = None \<Longrightarrow> os_input s \<noteq> None \<Longrightarrow> mapKey k s = Some i
     \<Longrightarrow> i \<in> {QuitIntent, InputCancel, InputSubmit, InputBackspace} \<or> (\<exists>t. i = InputInsert t)"
  by (auto simp: mapKey_def inputKey_def ctrl_intent_def split: if_splits)

lemma pane_intent: "paneKeyIntent k s = Some i \<Longrightarrow>
    (\<exists>r. i = Run r) \<or> (\<exists>f. i = InputOpen f) \<or> (\<exists>c \<in> set (os_contacts s). i = SelectContact (cv_identityId c)) \<or> (\<exists>n. i = SelectProfile n)"
  by (auto simp: paneKeyIntent_def setupStepIntent_def Let_def at_def split: option.splits if_splits)

lemma mapKey_panes:
  "os_modal s = None \<Longrightarrow> os_input s = None \<Longrightarrow> mapKey k s = Some i
     \<Longrightarrow> i \<in> {QuitIntent, ToggleHelp} \<or> (\<exists>p. i = SelectPane p) \<or> (\<exists>r. i = Run r \<and> \<not> os_busy s) \<or> (\<exists>f. i = InputOpen f)
      \<or> (\<exists>c \<in> set (os_contacts s). i = SelectContact (cv_identityId c)) \<or> (\<exists>n. i = SelectProfile n)"
  by (auto simp: mapKey_def ctrl_intent_def Let_def split: if_splits option.splits dest!: pane_intent)

text \<open>No typing while a command runs or a confirmation is open.\<close>

definition exclusive :: "operator_state \<Rightarrow> bool" where
  "exclusive s \<longleftrightarrow> (os_busy s \<or> os_modal s \<noteq> None \<longrightarrow> os_input s = None)"

lemma reduce_exclusive:
  assumes "exclusive s" "mapKey k s = Some i" "reduce s i = (n, es)"
  shows "exclusive n"
proof (cases "os_modal s")
  case (Some m)
  with assms mapKey_modal [of s k i] show ?thesis by (auto simp: exclusive_def split: if_splits)
next
  case None
  show ?thesis
  proof (cases "os_input s")
    case (Some inp)
    with assms None mapKey_input [OF None _ assms(2)] show ?thesis
      by (auto simp: exclusive_def Let_def split: if_splits option.splits)
  next
    case none: None
    from mapKey_panes [OF None none assms(2)] assms None none show ?thesis
      by (auto simp: exclusive_def split: if_splits)
  qed
qed

subsection \<open>The invariants of a session\<close>

text \<open>What the primitive steps of the shell must keep for a property of every reachable shell.\<close>

locale session_invariant =
  fixes clock :: "nat \<Rightarrow> int" and variables :: "string set" and profiles :: "profile_view list" and I :: "shell \<Rightarrow> bool"
  assumes start: "I (runTuiShell clock v (createInitialState (map (withStoreKeyPresence variables) profiles)))"
    and paint: "I sh \<Longrightarrow> I (Console.paint clock v sh)"
    and finish: "I sh \<Longrightarrow> \<not> sh_running sh \<Longrightarrow> I (Console.finish v sh)"
    and postponed: "I sh \<Longrightarrow> I (sh\<lparr>sh_deferred := n\<rparr>)"
    and key: "I sh \<Longrightarrow> sh_running sh \<Longrightarrow> I (handleKey clock v k sh)"
    and stderr: "I sh \<Longrightarrow> I (child_stderr clock profiles v i chunk sh)"
    and closed: "I sh \<Longrightarrow> I (child_closed clock v i out exitCode sh)"
begin

lemma complete: "I sh \<Longrightarrow> I (Console.complete clock v sh)"
  by (simp add: complete_def paint finish)

lemma keys: "I sh \<Longrightarrow> I (handle_keys clock v ks sh)"
  by (induction ks arbitrary: sh) (simp_all add: key)

lemma completions: "I sh \<Longrightarrow> I ((Console.complete clock v ^^ n) sh)"
  by (induction n) (simp_all add: complete)

lemma step: "I sh \<Longrightarrow> I (shell_step clock profiles v e sh)"
  by (cases e) (simp_all add: stderr closed key_chunk_def run_deferred_def keys postponed completions)

lemma always: "session clock variables profiles sh \<Longrightarrow> I sh"
  by (induction rule: session.induct) (simp_all add: start step)

end

subsection \<open>What a primitive step changes\<close>

lemmas shell_ops = write_screen_def change_def tick_def timed_def Let_def

lemma paint_keeps [simp]:
  "sh_running (paint clock v sh) = sh_running sh" "sh_finished (paint clock v sh) = sh_finished sh"
  "sh_confirmed (paint clock v sh) = sh_confirmed sh" "sh_inFlight (paint clock v sh) = sh_inFlight sh"
  "sh_children (paint clock v sh) = sh_children sh" "sh_awaiting (paint clock v sh) = sh_awaiting sh"
  "sh_deferred (paint clock v sh) = sh_deferred sh" "sh_answers (paint clock v sh) = sh_answers sh"
  "sh_screen (paint clock v sh) = sh_screen sh @ [Painted (renderFrame (sh_current sh) v)]"
  by (simp_all add: paint_def shell_ops)

lemma paint_state [simp]:
  "os_busy (sh_current (paint clock v sh)) = os_busy (sh_current sh)"
  "os_contacts (sh_current (paint clock v sh)) = os_contacts (sh_current sh)"
  "os_profiles (sh_current (paint clock v sh)) = os_profiles (sh_current sh)"
  "os_activeProfile (sh_current (paint clock v sh)) = os_activeProfile (sh_current sh)"
  "os_mailbox (sh_current (paint clock v sh)) = os_mailbox (sh_current sh)"
  "os_selectedContactId (sh_current (paint clock v sh)) = os_selectedContactId (sh_current sh)"
  "os_rejections (sh_current (paint clock v sh)) = os_rejections (sh_current sh)"
  "os_history (sh_current (paint clock v sh)) = os_history (sh_current sh)"
  "os_health (sh_current (paint clock v sh)) = os_health (sh_current sh)"
  "os_activity (sh_current (paint clock v sh)) = os_activity (sh_current sh)"
  "os_modal (sh_current (paint clock v sh)) = None \<longleftrightarrow> os_modal (sh_current sh) = None"
  "os_input (sh_current (paint clock v sh)) = None \<longleftrightarrow> os_input (sh_current sh) = None"
  by (simp_all add: paint_def shell_ops stamp_modal_def stamp_input_def)

lemma paint_modal:
  assumes "os_modal (sh_current (paint clock v sh)) = Some m"
  obtains m' where "os_modal (sh_current sh) = Some m'" "tm_identifiers m = tm_identifiers m'" "tm_cardPath m = tm_cardPath m'"
    "tm_profileLabel m = tm_profileLabel m'" "tm_renderedAt m \<noteq> None \<longrightarrow> tm_renderedAt m' \<noteq> None \<or> \<not> isBelowMinViewport v"
  using assms
  by (auto simp: paint_def shell_ops stamp_modal_def stamp_input_def unpainted_modal_def split: if_splits)

lemma paint_input:
  assumes "os_input (sh_current (paint clock v sh)) = Some i"
  obtains i' where "os_input (sh_current sh) = Some i'" "ip_buffer i = ip_buffer i'"
  using assms by (auto simp: paint_def shell_ops stamp_modal_def stamp_input_def split: if_splits)

lemma finish_keeps [simp]:
  "sh_current (finish v sh) = sh_current sh" "sh_running (finish v sh) = sh_running sh"
  "sh_confirmed (finish v sh) = sh_confirmed sh" "sh_inFlight (finish v sh) = sh_inFlight sh"
  "sh_children (finish v sh) = sh_children sh" "sh_awaiting (finish v sh) = sh_awaiting sh"
  "sh_deferred (finish v sh) = sh_deferred sh" "sh_answers (finish v sh) = sh_answers sh" "sh_finished (finish v sh)"
  by (simp_all add: finish_def shell_ops split: option.split)

lemma finish_screen: "\<exists>ws. sh_screen (finish v sh) = sh_screen sh @ ws \<and> (\<forall>f. Painted f \<notin> set ws)"
  by (auto simp: finish_def shell_ops split: option.split)

lemma note_keeps [simp]:
  "sh_running (note_activity clock l sh) = sh_running sh" "sh_finished (note_activity clock l sh) = sh_finished sh"
  "sh_confirmed (note_activity clock l sh) = sh_confirmed sh" "sh_inFlight (note_activity clock l sh) = sh_inFlight sh"
  "sh_children (note_activity clock l sh) = sh_children sh" "sh_awaiting (note_activity clock l sh) = sh_awaiting sh"
  "sh_deferred (note_activity clock l sh) = sh_deferred sh" "sh_answers (note_activity clock l sh) = sh_answers sh"
  "sh_screen (note_activity clock l sh) = sh_screen sh"
  by (simp_all add: note_activity_def shell_ops)

lemma note_state:
  "\<exists>ls. sh_current (note_activity clock l sh) = (sh_current sh)\<lparr>os_activity := ls\<rparr>
     \<and> (\<forall>a \<in> set ls. a \<in> set (os_activity (sh_current sh)) \<or> ac_text a = paintable l)"
  by (auto simp: note_activity_def shell_ops note_line_def dest!: in_set_dropD intro!: exI)

lemma applyOutcome_keeps [simp]:
  "os_modal (applyOutcome s r oc t) = os_modal s" "os_input (applyOutcome s r oc t) = os_input s"
  "os_contacts (applyOutcome s r oc t) = os_contacts s" "os_activity (applyOutcome s r oc t) = os_activity s"
  "os_selectedContactId (applyOutcome s r oc t) = os_selectedContactId s"
  "mb_outboxPending (os_mailbox (applyOutcome s r oc t)) = None"
  by (simp_all add: applyOutcome_def fold_summary_def Let_def split: cli_command.split)

lemma observeContact_keeps [simp]:
  "os_modal (observeContact m s) = os_modal s" "os_input (observeContact m s) = os_input s"
  "os_busy (observeContact m s) = os_busy s" "os_activity (observeContact m s) = os_activity s"
  "os_profiles (observeContact m s) = os_profiles s" "os_mailbox (observeContact m s) = os_mailbox s"
  "os_selectedContactId (observeContact m s) = os_selectedContactId s" "os_rejections (observeContact m s) = os_rejections s"
  "os_history (observeContact m s) = os_history s" "os_health (observeContact m s) = os_health s"
  by (simp_all add: observeContact_def Let_def split: option.split)

lemma settle_keeps [simp]:
  "sh_running (settle_command clock r oc sh) = sh_running sh" "sh_finished (settle_command clock r oc sh) = sh_finished sh"
  "sh_inFlight (settle_command clock r oc sh) = None" "sh_children (settle_command clock r oc sh) = sh_children sh"
  "sh_awaiting (settle_command clock r oc sh) = sh_awaiting sh" "sh_deferred (settle_command clock r oc sh) = sh_deferred sh"
  "sh_answers (settle_command clock r oc sh) = sh_answers sh" "sh_screen (settle_command clock r oc sh) = sh_screen sh"
  by (simp_all add: settle_command_def shell_ops split: option.split)

lemma note_fields [simp]:
  "os_busy (sh_current (note_activity clock l sh)) = os_busy (sh_current sh)"
  "os_modal (sh_current (note_activity clock l sh)) = os_modal (sh_current sh)"
  "os_input (sh_current (note_activity clock l sh)) = os_input (sh_current sh)"
  "os_contacts (sh_current (note_activity clock l sh)) = os_contacts (sh_current sh)"
  "os_profiles (sh_current (note_activity clock l sh)) = os_profiles (sh_current sh)"
  "os_mailbox (sh_current (note_activity clock l sh)) = os_mailbox (sh_current sh)"
  by (simp_all add: note_activity_def shell_ops note_line_def)

lemma settle_state [simp]:
  "os_modal (sh_current (settle_command clock r oc sh)) = os_modal (sh_current sh)"
  "os_input (sh_current (settle_command clock r oc sh)) = os_input (sh_current sh)"
  "\<not> os_busy (sh_current (settle_command clock r oc sh))"
  "mb_outboxPending (os_mailbox (sh_current (settle_command clock r oc sh))) = None"
  by (simp_all add: settle_command_def shell_ops split: option.split)

text \<open>A keystroke, by the effect it has.\<close>

lemma handleKey_cases:
  obtains (ignored) "handleKey clock v k sh = sh"
  | (quiet) i n where "mapKey (decodeKey k) (sh_current sh) = Some i" "reduce (sh_current sh) i = (n, [])"
      "handleKey clock v k sh = complete clock v (paint clock v (sh\<lparr>sh_current := n\<rparr>))"
      "os_busy n = os_busy (sh_current sh)" "os_modal n = os_modal (sh_current sh)"
  | (runs) i n r where "mapKey (decodeKey k) (sh_current sh) = Some i" "reduce (sh_current sh) i = (n, [RunCli r])"
      "running (sh_current sh) i n r" "handleKey clock v k sh = start_child False r (paint clock v (sh\<lparr>sh_current := n\<rparr>))"
  | (answers) i b m where "mapKey (decodeKey k) (sh_current sh) = Some i"
      "reduce (sh_current sh) i = ((sh_current sh)\<lparr>os_modal := None\<rparr>, [AnswerTrustPrompt b])"
      "answering (sh_current sh) i b m"
      "handleKey clock v k sh = (answer_prompt clock b m (paint clock v ((if b then sh\<lparr>sh_confirmed := Some m\<rparr> else sh)
          \<lparr>sh_current := (sh_current sh)\<lparr>os_modal := None\<rparr>\<rparr>)))\<lparr>sh_deferred := Suc (sh_deferred sh)\<rparr>"
  | (quits) i where "mapKey (decodeKey k) (sh_current sh) = Some i"
      "handleKey clock v k sh = (paint clock v sh)\<lparr>sh_running := False, sh_deferred := Suc (sh_deferred sh)\<rparr>"
proof (cases "mapKey (decodeKey k) (sh_current sh)")
  case None
  then show thesis by (intro ignored) (simp add: handleKey_def)
next
  case (Some i)
  obtain n es where r: "reduce (sh_current sh) i = (n, es)" by fastforce
  have h: "handleKey clock v k sh = run_effects clock v (os_modal (sh_current sh)) es
      (paint clock v ((if os_modal (sh_current sh) \<noteq> None \<and> AnswerTrustPrompt True \<in> set es
        then sh\<lparr>sh_confirmed := os_modal (sh_current sh)\<rparr> else sh)\<lparr>sh_current := n\<rparr>))"
    by (simp add: handleKey_def Some r Let_def)
  from reduce_effects [OF r] consider "es = []" "os_busy n = os_busy (sh_current sh)" "os_modal n = os_modal (sh_current sh)"
    | rq where "es = [RunCli rq]" "running (sh_current sh) i n rq"
    | b m where "es = [AnswerTrustPrompt b]" "n = (sh_current sh)\<lparr>os_modal := None\<rparr>" "answering (sh_current sh) i b m"
    | "es = [QuitEffect]" "n = sh_current sh" by blast
  then show thesis
  proof cases
    case 1
    show thesis by (rule quiet [OF Some, of n]) (use 1 r h in \<open>simp_all add: run_effects_def\<close>)
  next
    case 2
    show thesis by (rule runs [OF Some, of n rq]) (use 2 r h in \<open>simp_all add: run_effects_def\<close>)
  next
    case 3
    show thesis by (rule answers [OF Some, of b m]) (use 3 r h in \<open>simp_all add: run_effects_def answering_def answer_prompt_def\<close>)
  next
    case 4
    show thesis by (rule quits [OF Some]) (use 4 r h in \<open>simp_all add: run_effects_def\<close>)
  qed
qed

lemma answer_keeps [simp]:
  "sh_running (answer_prompt clock b m sh) = sh_running sh" "sh_finished (answer_prompt clock b m sh) = sh_finished sh"
  "sh_confirmed (answer_prompt clock b m sh) = sh_confirmed sh" "sh_inFlight (answer_prompt clock b m sh) = sh_inFlight sh"
  "sh_children (answer_prompt clock b m sh) = sh_children sh" "sh_screen (answer_prompt clock b m sh) = sh_screen sh"
  "sh_answers (answer_prompt clock b m sh) = sh_answers sh @ [(b, m, sh_awaiting sh)]"
  "os_busy (sh_current (answer_prompt clock b m sh)) = os_busy (sh_current sh)"
  "os_modal (sh_current (answer_prompt clock b m sh)) = os_modal (sh_current sh)"
  "os_input (sh_current (answer_prompt clock b m sh)) = os_input (sh_current sh)"
  "os_contacts (sh_current (answer_prompt clock b m sh)) = os_contacts (sh_current sh)"
  "os_mailbox (sh_current (answer_prompt clock b m sh)) = os_mailbox (sh_current sh)"
  by (simp_all add: answer_prompt_def)

lemma start_child_keeps [simp]:
  "sh_current (start_child st r sh) = sh_current sh" "sh_running (start_child st r sh) = sh_running sh"
  "sh_finished (start_child st r sh) = sh_finished sh" "sh_confirmed (start_child st r sh) = sh_confirmed sh"
  "sh_screen (start_child st r sh) = sh_screen sh" "sh_answers (start_child st r sh) = sh_answers sh"
  "sh_deferred (start_child st r sh) = sh_deferred sh" "sh_awaiting (start_child st r sh) = sh_awaiting sh"
  by (simp_all add: start_child_def)

lemma child_stderr_cases:
  obtains (printed) cs where "child_stderr clock profiles v i chunk sh = sh\<lparr>sh_children := cs\<rparr>"
      "map ch_request cs = map ch_request (sh_children sh)"
  | (announced) cs dir source ids where "map ch_request cs = map ch_request (sh_children sh)" "i < length (sh_children sh)"
      "ch_request (sh_children sh ! i) = ImportRequest dir source"
      "child_stderr clock profiles v i chunk sh =
        show_identifiers clock v source (profile_label profiles dir) ids (sh\<lparr>sh_children := cs, sh_awaiting := True\<rparr>)"
proof (cases "i < length (sh_children sh)")
  case False
  then have "child_stderr clock profiles v i chunk sh = sh\<lparr>sh_children := sh_children sh\<rparr>"
    by (simp add: child_stderr_def at_def)
  then show thesis by (rule printed) simp
next
  case True
  let ?c = "sh_children sh ! i" and ?printed = "ch_stderr (sh_children sh ! i) @ chunk"
  have eq: "map ch_request ((sh_children sh)[i := ?c\<lparr>ch_stderr := s, ch_announced := a\<rparr>]) = map ch_request (sh_children sh)"
    "map ch_request ((sh_children sh)[i := ?c\<lparr>ch_stderr := s\<rparr>]) = map ch_request (sh_children sh)" for s a
  proof -
    have "(map ch_request (sh_children sh))[i := ch_request ?c] = map ch_request (sh_children sh)"
      using True by (metis list_update_id nth_map)
    then show "map ch_request ((sh_children sh)[i := ?c\<lparr>ch_stderr := s, ch_announced := a\<rparr>]) = map ch_request (sh_children sh)"
      "map ch_request ((sh_children sh)[i := ?c\<lparr>ch_stderr := s\<rparr>]) = map ch_request (sh_children sh)" by (simp_all add: map_update)
  qed
  show thesis
  proof (cases "\<exists>dir source ids. ch_request ?c = ImportRequest dir source \<and> readIdentifiers ?printed = Some ids \<and> \<not> ch_announced ?c")
    case True
    then obtain dir source ids where t: "ch_request ?c = ImportRequest dir source" "readIdentifiers ?printed = Some ids" "\<not> ch_announced ?c"
      by blast
    show thesis
      by (rule announced [OF eq(1) \<open>i < length (sh_children sh)\<close> t(1)])
        (use t \<open>i < length (sh_children sh)\<close> in \<open>simp add: child_stderr_def at_def Let_def\<close>)
  next
    case False
    then have "child_stderr clock profiles v i chunk sh = sh\<lparr>sh_children := (sh_children sh)[i := ?c\<lparr>ch_stderr := ?printed\<rparr>]\<rparr>"
      using True by (auto simp: child_stderr_def at_def Let_def split: cli_request.split option.split)
    then show thesis by (rule printed [OF _ eq(2)])
  qed
qed

lemma show_keeps [simp]:
  "sh_running (show_identifiers clock v p l ids sh) = sh_running sh" "sh_finished (show_identifiers clock v p l ids sh) = sh_finished sh"
  "sh_confirmed (show_identifiers clock v p l ids sh) = sh_confirmed sh" "sh_inFlight (show_identifiers clock v p l ids sh) = sh_inFlight sh"
  "sh_children (show_identifiers clock v p l ids sh) = sh_children sh" "sh_answers (show_identifiers clock v p l ids sh) = sh_answers sh"
  "sh_deferred (show_identifiers clock v p l ids sh) = sh_deferred sh"
  "os_busy (sh_current (show_identifiers clock v p l ids sh)) = os_busy (sh_current sh)"
  "os_contacts (sh_current (show_identifiers clock v p l ids sh)) = os_contacts (sh_current sh)"
  "os_mailbox (sh_current (show_identifiers clock v p l ids sh)) = os_mailbox (sh_current sh)"
  "os_input (sh_current (show_identifiers clock v p l ids sh)) = None \<longleftrightarrow> os_input (sh_current sh) = None"
  "os_modal (sh_current (show_identifiers clock v p l ids sh)) \<noteq> None"
  by (simp_all add: show_identifiers_def change_def)

lemma child_closed_cases:
  obtains (nobody) "child_closed clock v i out exitCode sh = sh"
  | (settled) c sh1 where "i < length (sh_children sh)" "c = sh_children sh ! i"
      "sh1 = settle_command clock (ch_request c) (parseCliOutcome out exitCode)
        (sh\<lparr>sh_children := take i (sh_children sh) @ drop (Suc i) (sh_children sh), sh_awaiting := False\<rparr>)"
      "child_closed clock v i out exitCode sh \<in> {complete clock v sh1, sh1}"
proof (cases "i < length (sh_children sh)")
  case True
  show thesis
    by (rule settled [OF True refl refl]) (use True in \<open>simp add: child_closed_def at_def Let_def complete_def\<close>)
next
  case False
  then show thesis by (intro nobody) (simp add: child_closed_def at_def)
qed

subsection \<open>One command at a time\<close>

definition single_flight :: "shell \<Rightarrow> bool" where
  "single_flight sh \<longleftrightarrow>
     length (sh_children sh) \<le> 1 \<and> (os_busy (sh_current sh) \<longleftrightarrow> sh_children sh \<noteq> [])
     \<and> sh_inFlight sh = map_option request_command (at (map ch_request (sh_children sh)) 0)
     \<and> exclusive (sh_current sh)"

lemma single_flight_frame:
  assumes "single_flight sh" "sh_children sh' = sh_children sh" "sh_inFlight sh' = sh_inFlight sh"
    "os_busy (sh_current sh') = os_busy (sh_current sh)" "exclusive (sh_current sh')"
  shows "single_flight sh'"
  using assms by (simp add: single_flight_def)

lemma exclusive_frame:
  "exclusive s \<Longrightarrow> os_busy t = os_busy s \<Longrightarrow> (os_modal t \<noteq> None \<longrightarrow> os_modal s \<noteq> None) \<Longrightarrow> (os_input s = None \<longrightarrow> os_input t = None)
    \<Longrightarrow> exclusive t"
  by (auto simp: exclusive_def)

lemma exclusive_paint: "exclusive (sh_current (paint clock v sh)) \<longleftrightarrow> exclusive (sh_current sh)"
  by (simp add: exclusive_def)

lemma single_flight_paint: "single_flight sh \<Longrightarrow> single_flight (paint clock v sh)"
  by (simp add: single_flight_def exclusive_paint)

lemma single_flight_complete: "single_flight sh \<Longrightarrow> single_flight (complete clock v sh)"
  unfolding complete_def by (cases "sh_running sh") (simp_all add: single_flight_paint, simp add: single_flight_def)

lemma single_flight_key:
  assumes "single_flight sh" "sh_running sh"
  shows "single_flight (handleKey clock v k sh)"
proof (cases rule: handleKey_cases [of clock v k sh])
  case ignored
  with assms show ?thesis by simp
next
  case (quiet i n)
  have "exclusive n" using assms quiet(1,2) by (auto simp: single_flight_def intro: reduce_exclusive)
  with assms quiet(4) have "single_flight (sh\<lparr>sh_current := n\<rparr>)" by (simp add: single_flight_def)
  then show ?thesis unfolding quiet(3) by (intro single_flight_complete single_flight_paint)
next
  case (runs i n r)
  have "exclusive n" using assms runs(1,2) by (auto simp: single_flight_def intro: reduce_exclusive)
  moreover from assms runs(3) have "sh_children sh = []" by (auto simp: single_flight_def running_def)
  ultimately show ?thesis
    using runs(3) unfolding runs(4)
    by (simp add: single_flight_def start_child_def exclusive_paint running_def at_def)
next
  case (answers i b m)
  with assms show ?thesis
    by (auto simp: single_flight_def exclusive_def)
next
  case (quits i)
  with assms show ?thesis by (simp add: single_flight_def exclusive_paint)
qed

interpretation flight: session_invariant clock variables profiles single_flight
proof
  show "single_flight (runTuiShell clock v (createInitialState (map (withStoreKeyPresence variables) profiles)))" for v
    by (auto simp: runTuiShell_def Let_def askWhatIsThere_def single_flight_def exclusive_def createInitialState_def shell_ops
        start_child_def at_def exclusive_paint split: option.split)
next
  show "single_flight (finish v sh)" if "single_flight sh" "\<not> sh_running sh" for sh v
    using that(1) by (simp add: single_flight_def)
next
  show "single_flight (child_stderr clock profiles v i chunk sh)" if s: "single_flight sh" for sh v i chunk
  proof (cases rule: child_stderr_cases [of clock profiles v i chunk sh])
    case (printed cs)
    then have "length cs = length (sh_children sh)" by (metis length_map)
    with s printed show ?thesis by (auto simp: single_flight_def)
  next
    case (announced cs dir source ids)
    then have "length cs = length (sh_children sh)" by (metis length_map)
    with s announced show ?thesis by (auto simp: single_flight_def exclusive_def)
  qed
next
  show "single_flight (child_closed clock v i out exitCode sh)" if s: "single_flight sh" for sh v i out exitCode
  proof (cases rule: child_closed_cases [of clock v i out exitCode sh])
    case nobody
    with s show ?thesis by simp
  next
    case (settled c sh1)
    from settled(1) s have "i = 0" "length (sh_children sh) = 1" by (auto simp: single_flight_def)
    with settled(3) have "sh_children sh1 = []" by simp
    moreover from settled(3) s have "exclusive (sh_current sh1)" by (simp add: exclusive_def single_flight_def)
    ultimately have "single_flight sh1" using settled(3) by (auto simp: single_flight_def at_def)
    with settled(4) show ?thesis by (auto intro: single_flight_complete)
  qed
qed (simp_all add: single_flight_paint single_flight_key, simp add: single_flight_def)

text \<open>
  C16. One command at a time, and one owner of the keyboard: in every state a session can reach - after
  any keystrokes, output and exits, in any order - at most one child runs, the console is busy exactly
  while one does and names the command it waits for, and no input row is open while a command runs or
  a confirmation is shown.
\<close>

theorem session_runs_one_command:
  assumes "session clock variables profiles sh"
  shows "length (sh_children sh) \<le> 1 \<and> (os_busy (sh_current sh) \<longleftrightarrow> sh_children sh \<noteq> [])
    \<and> sh_inFlight sh = map_option (request_command \<circ> ch_request) (at (sh_children sh) 0)
    \<and> ((os_busy (sh_current sh) \<or> os_modal (sh_current sh) \<noteq> None) \<longrightarrow> os_input (sh_current sh) = None)"
  using flight.always [OF assms] by (auto simp: single_flight_def exclusive_def at_def)

subsection \<open>Yes is said to what was shown\<close>

text \<open>A frame that carried the identifiers of the confirmation was written to the terminal.\<close>

definition shown :: "screen_write list \<Rightarrow> trust_modal \<Rightarrow> bool" where
  "shown scr m \<longleftrightarrow> (\<exists>s v m'. \<not> isBelowMinViewport v \<and> os_modal s = Some m' \<and> tm_identifiers m' = tm_identifiers m
     \<and> Painted (renderFrame s v) \<in> set scr)"

lemma shown_mono: "shown scr m \<Longrightarrow> set scr \<subseteq> set scr' \<Longrightarrow> tm_identifiers m' = tm_identifiers m \<Longrightarrow> shown scr' m'"
  unfolding shown_def by (metis subsetD)

definition modal_ok :: "shell \<Rightarrow> bool" where
  "modal_ok sh \<longleftrightarrow> (\<forall>m. os_modal (sh_current sh) = Some m \<longrightarrow>
     clean_identifiers (tm_identifiers m) \<and> (tm_renderedAt m \<noteq> None \<longrightarrow> shown (sh_screen sh) m))"

definition said_yes :: "shell \<Rightarrow> trust_modal \<Rightarrow> bool" where
  "said_yes sh m \<longleftrightarrow> (\<exists>d. (True, m, d) \<in> set (sh_answers sh))"

definition names_contact :: "trust_modal \<Rightarrow> contact_view \<Rightarrow> bool" where
  "names_contact m c \<longleftrightarrow> tm_identifiers m = \<lparr>ti_identity_id = Some (cv_identityId c), ti_device_id = Some (cv_deviceId c),
     ti_device_pubkey = Some (cv_devicePubkey c), ti_signal_identity_key = Some (cv_signalIdentityKey c)\<rparr>"

definition trust_ok :: "shell \<Rightarrow> bool" where
  "trust_ok sh \<longleftrightarrow> modal_ok sh
     \<and> (\<forall>m. said_yes sh m \<longrightarrow> trustModalIsComplete m \<and> clean_identifiers (tm_identifiers m) \<and> shown (sh_screen sh) m)
     \<and> (\<forall>m. sh_confirmed sh = Some m \<longrightarrow> said_yes sh m)
     \<and> (\<forall>c \<in> set (os_contacts (sh_current sh)). \<exists>m. said_yes sh m \<and> names_contact m c)"

lemma modal_ok_paint: "modal_ok sh \<Longrightarrow> modal_ok (paint clock v sh)"
  unfolding modal_ok_def
proof (intro allI impI)
  fix m assume ok: "\<forall>m. os_modal (sh_current sh) = Some m \<longrightarrow>
     clean_identifiers (tm_identifiers m) \<and> (tm_renderedAt m \<noteq> None \<longrightarrow> shown (sh_screen sh) m)"
    and m: "os_modal (sh_current (paint clock v sh)) = Some m"
  from m obtain m' where m': "os_modal (sh_current sh) = Some m'" "tm_identifiers m = tm_identifiers m'"
    "tm_cardPath m = tm_cardPath m'" "tm_profileLabel m = tm_profileLabel m'"
    "tm_renderedAt m \<noteq> None \<longrightarrow> tm_renderedAt m' \<noteq> None \<or> \<not> isBelowMinViewport v" by (rule paint_modal)
  have "shown (sh_screen (paint clock v sh)) m" if "tm_renderedAt m \<noteq> None"
  proof (cases "tm_renderedAt m' = None")
    case True
    with m'(5) that have "\<not> isBelowMinViewport v" by simp
    with m'(1,2) show ?thesis unfolding shown_def by (intro exI [of _ "sh_current sh"] exI [of _ v]) simp
  next
    case False
    with ok m'(1) have "shown (sh_screen sh) m'" by blast
    then show ?thesis by (rule shown_mono) (auto simp: m'(2))
  qed
  with ok m'(1,2) show "clean_identifiers (tm_identifiers m) \<and> (tm_renderedAt m \<noteq> None \<longrightarrow> shown (sh_screen (paint clock v sh)) m)"
    by simp
qed

lemma trust_ok_frame:
  assumes "trust_ok sh" "modal_ok sh'" "sh_answers sh' = sh_answers sh" "set (sh_screen sh) \<subseteq> set (sh_screen sh')"
    "\<And>m. sh_confirmed sh' = Some m \<Longrightarrow> said_yes sh m" "set (os_contacts (sh_current sh')) \<subseteq> set (os_contacts (sh_current sh))"
  shows "trust_ok sh'"
proof -
  have a: "said_yes sh' m \<longleftrightarrow> said_yes sh m" for m using assms(3) by (simp add: said_yes_def)
  show ?thesis using assms(1,2,4-6) unfolding trust_ok_def a by (blast intro: shown_mono)
qed

lemma trust_ok_paint: "trust_ok sh \<Longrightarrow> trust_ok (paint clock v sh)"
  by (rule trust_ok_frame [of sh]) (auto simp: trust_ok_def intro: modal_ok_paint)

lemma trust_ok_finish: "trust_ok sh \<Longrightarrow> trust_ok (finish v sh)"
  by (rule trust_ok_frame [of sh]) (use finish_screen [of v sh] in \<open>auto simp: trust_ok_def modal_ok_def intro: shown_mono\<close>)

lemma trust_ok_complete: "trust_ok sh \<Longrightarrow> trust_ok (complete clock v sh)"
  by (simp add: complete_def trust_ok_paint trust_ok_finish)

lemma reduce_contacts [simp]: "os_contacts (fst (reduce s i)) = os_contacts s"
  by (cases i) (auto simp: Let_def split: option.split)

lemma trust_ok_key:
  assumes "trust_ok sh"
  shows "trust_ok (handleKey clock v k sh)"
proof (cases rule: handleKey_cases [of clock v k sh])
  case ignored
  with assms show ?thesis by simp
next
  case (quiet i n)
  have "os_contacts n = os_contacts (sh_current sh)" using reduce_contacts [of "sh_current sh" i] quiet(2) by simp
  then have "trust_ok (sh\<lparr>sh_current := n\<rparr>)"
    using assms quiet(5) by (intro trust_ok_frame [OF assms]) (auto simp: trust_ok_def modal_ok_def)
  then show ?thesis unfolding quiet(3) by (intro trust_ok_complete trust_ok_paint)
next
  case (runs i n r)
  have "os_contacts n = os_contacts (sh_current sh)" using reduce_contacts [of "sh_current sh" i] runs(2) by simp
  then have "trust_ok (sh\<lparr>sh_current := n\<rparr>)"
    using assms runs(3) by (intro trust_ok_frame [OF assms]) (auto simp: trust_ok_def modal_ok_def running_def)
  then have p: "trust_ok (paint clock v (sh\<lparr>sh_current := n\<rparr>))" by (rule trust_ok_paint)
  then have "modal_ok (paint clock v (sh\<lparr>sh_current := n\<rparr>))"
    "sh_confirmed (paint clock v (sh\<lparr>sh_current := n\<rparr>)) = Some m \<Longrightarrow> said_yes (paint clock v (sh\<lparr>sh_current := n\<rparr>)) m" for m
    by (simp_all add: trust_ok_def)
  then show ?thesis unfolding runs(4)
    by (intro trust_ok_frame [OF p]) (simp_all add: modal_ok_def)
next
  case (answers i b m)
  let ?h = "handleKey clock v k sh"
  have m: "os_modal (sh_current sh) = Some m" "b \<longrightarrow> tm_renderedAt m \<noteq> None \<and> trustModalIsComplete m"
    using answers(3) by (auto simp: answering_def)
  have h: "os_modal (sh_current ?h) = None" "sh_answers ?h = sh_answers sh @ [(b, m, sh_awaiting sh)]"
    "set (sh_screen sh) \<subseteq> set (sh_screen ?h)" "sh_confirmed ?h = (if b then Some m else sh_confirmed sh)"
    "os_contacts (sh_current ?h) = os_contacts (sh_current sh)"
    unfolding answers(4) by auto
  have acc: "said_yes ?h m' \<longleftrightarrow> said_yes sh m' \<or> (b \<and> m' = m)" for m' by (auto simp: said_yes_def h(2))
  have "trustModalIsComplete m \<and> clean_identifiers (tm_identifiers m) \<and> shown (sh_screen sh) m" if b
    using that assms m by (auto simp: trust_ok_def modal_ok_def)
  with assms h show ?thesis
    unfolding trust_ok_def acc by (auto simp: modal_ok_def intro: shown_mono split: if_splits)
next
  case (quits i)
  have p: "trust_ok (paint clock v sh)" using assms by (rule trust_ok_paint)
  then have "modal_ok (paint clock v sh)" "sh_confirmed (paint clock v sh) = Some m \<Longrightarrow> said_yes (paint clock v sh) m" for m
    by (simp_all add: trust_ok_def)
  then show ?thesis unfolding quits(2) by (intro trust_ok_frame [OF p]) (simp_all add: modal_ok_def)
qed

lemma clean_paintable_identifiers [simp]: "clean_identifiers (paintableIdentifiers ids)"
  by (simp add: clean_identifiers_def paintableIdentifiers_def clean_option_def split: option.split)

lemma trust_ok_shown:
  assumes "trust_ok sh"
  shows "trust_ok (show_identifiers clock v p l ids (sh\<lparr>sh_children := cs, sh_awaiting := a\<rparr>))"
proof -
  have "trust_ok (change (\<lambda>s. s\<lparr>os_modal := Some \<lparr>tm_cardPath = p, tm_profileLabel = l,
        tm_identifiers = paintableIdentifiers ids, tm_renderedAt = None\<rparr>\<rparr>) (sh\<lparr>sh_children := cs, sh_awaiting := a\<rparr>))"
    by (rule trust_ok_frame [OF assms]) (use assms in \<open>auto simp: modal_ok_def change_def trust_ok_def\<close>)
  then show ?thesis unfolding show_identifiers_def by (rule trust_ok_paint)
qed

lemma observed_contact: "c \<in> set (os_contacts (observeContact m s)) \<Longrightarrow> c \<in> set (os_contacts s) \<or> names_contact m c"
  by (auto simp: observeContact_def Let_def names_contact_def split: option.splits if_splits)

lemma trust_ok_settled:
  assumes "trust_ok sh"
  shows "trust_ok (settle_command clock r oc (sh\<lparr>sh_children := cs, sh_awaiting := a\<rparr>))" (is "trust_ok ?s")
proof -
  let ?t = "sh\<lparr>sh_children := cs, sh_awaiting := a\<rparr>"
  have conf: "sh_confirmed ?s = Some m \<Longrightarrow> sh_confirmed sh = Some m" for m
    by (simp add: settle_command_def shell_ops split: if_splits)
  have cont: "c \<in> set (os_contacts (sh_current sh)) \<or> (\<exists>m. sh_confirmed sh = Some m \<and> names_contact m c)"
    if "c \<in> set (os_contacts (sh_current ?s))" for c
    using that note_fields(4) [of clock _ "?t\<lparr>sh_inFlight := None\<rparr>"]
    by (auto simp: settle_command_def shell_ops note_activity_def note_line_def split: if_splits option.splits dest!: observed_contact)
  have acc: "said_yes ?s m \<longleftrightarrow> said_yes sh m" for m by (simp add: said_yes_def)
  have "modal_ok ?s" using assms by (simp add: trust_ok_def modal_ok_def)
  with assms conf cont show ?thesis unfolding trust_ok_def acc by simp blast
qed

interpretation trust: session_invariant clock variables profiles trust_ok
proof
  show "trust_ok (runTuiShell clock v (createInitialState (map (withStoreKeyPresence variables) profiles)))" for v
  proof -
    let ?s = "createInitialState (map (withStoreKeyPresence variables) profiles)"
    have quietly: "trust_ok sh" if "os_modal (sh_current sh) = None" "os_contacts (sh_current sh) = []" "sh_confirmed sh = None" "sh_answers sh = []" for sh
      using that by (simp add: trust_ok_def modal_ok_def said_yes_def)
    show ?thesis
      by (rule quietly) (auto simp: runTuiShell_def Let_def askWhatIsThere_def createInitialState_def shell_ops start_child_def split: option.split)
  qed
next
  show "trust_ok (child_stderr clock profiles v i chunk sh)" if t: "trust_ok sh" for sh v i chunk
  proof (cases rule: child_stderr_cases [of clock profiles v i chunk sh])
    case (printed cs)
    show ?thesis unfolding printed(1) by (rule trust_ok_frame [OF t]) (use t in \<open>auto simp: trust_ok_def modal_ok_def\<close>)
  next
    case (announced cs dir source ids)
    show ?thesis unfolding announced(4) by (rule trust_ok_shown [OF t])
  qed
next
  show "trust_ok (child_closed clock v i out exitCode sh)" if t: "trust_ok sh" for sh v i out exitCode
  proof (cases rule: child_closed_cases [of clock v i out exitCode sh])
    case nobody
    with t show ?thesis by simp
  next
    case (settled c sh1)
    have "trust_ok sh1" unfolding settled(3) by (rule trust_ok_settled [OF t])
    with settled(4) show ?thesis by (auto intro: trust_ok_complete)
  qed
next
  show "trust_ok (sh\<lparr>sh_deferred := n\<rparr>)" if "trust_ok sh" for sh n
    by (rule trust_ok_frame [OF that]) (use that in \<open>auto simp: trust_ok_def modal_ok_def\<close>)
qed (simp_all add: trust_ok_paint trust_ok_key trust_ok_finish)

lemma complete_identifiers:
  "trustModalIsComplete m \<Longrightarrow> (name, get) \<in> set TRUST_IDENTIFIER_FIELDS \<Longrightarrow> \<exists>i. get (tm_identifiers m) = Some i \<and> i \<noteq> []"
  by (auto simp: trustModalIsComplete_def TRUST_IDENTIFIER_FIELDS_def present_def split: option.splits)

lemma clean_identifier:
  "clean_identifiers ids \<Longrightarrow> (name, get) \<in> set TRUST_IDENTIFIER_FIELDS \<Longrightarrow> get ids = Some i \<Longrightarrow> clean i"
  by (auto simp: clean_identifiers_def TRUST_IDENTIFIER_FIELDS_def clean_option_def)

lemma shown_identifier:
  assumes "shown scr m" "(name, get) \<in> set TRUST_IDENTIFIER_FIELDS" "get (tm_identifiers m) = Some i" "i \<noteq> []" "clean i" "columns i \<le> 62"
  shows "\<exists>frame line. Painted frame \<in> set scr \<and> line \<in> set frame \<and> sublist i line"
proof -
  from assms(1) obtain s v m' where s: "\<not> isBelowMinViewport v" "os_modal s = Some m'" "tm_identifiers m' = tm_identifiers m"
    "Painted (renderFrame s v) \<in> set scr" by (auto simp: shown_def)
  with panel_shows_identifiers [OF s(1,2) assms(2) _ assms(4-6)] assms(3)
  obtain row where "row < length (renderFrame s v)" "sublist i (renderFrame s v ! row)" by auto
  with s(4) show ?thesis by (meson nth_mem)
qed

text \<open>
  C7. Trust is only ever confirmed for what the operator was shown: in every session, a yes was given
  to a confirmation that held all four identifiers, none of them empty or able to steer the display,
  and each identifier of up to 62 code points stood whole in one line of a frame that had been written
  to the terminal - whatever was typed, in whatever bursts, and however the terminal was resized.
\<close>

theorem yes_is_said_to_what_was_shown:
  assumes "session clock variables profiles sh" "(True, m, delivered) \<in> set (sh_answers sh)"
    "(name, get) \<in> set TRUST_IDENTIFIER_FIELDS"
  shows "\<exists>i. get (tm_identifiers m) = Some i \<and> i \<noteq> [] \<and> clean i
    \<and> (columns i \<le> 62 \<longrightarrow> (\<exists>frame line. Painted frame \<in> set (sh_screen sh) \<and> line \<in> set frame \<and> sublist i line))"
proof -
  have "said_yes sh m" using assms(2) by (auto simp: said_yes_def)
  with trust.always [OF assms(1)] have m: "trustModalIsComplete m" "clean_identifiers (tm_identifiers m)" "shown (sh_screen sh) m"
    by (auto simp: trust_ok_def)
  from complete_identifiers [OF m(1) assms(3)] obtain i where i: "get (tm_identifiers m) = Some i" "i \<noteq> []" by blast
  with clean_identifier [OF m(2) assms(3)] shown_identifier [OF m(3) assms(3)] show ?thesis by blast
qed

text \<open>How a contact comes into the roster.\<close>

inductive session_from :: "(nat \<Rightarrow> int) \<Rightarrow> profile_view list \<Rightarrow> shell \<Rightarrow> shell \<Rightarrow> bool" for clock profiles sh where
  here: "session_from clock profiles sh sh"
| later: "session_from clock profiles sh sh' \<Longrightarrow> session_from clock profiles sh (shell_step clock profiles v e sh')"

lemma complete_contacts [simp]: "os_contacts (sh_current (complete clock v sh)) = os_contacts (sh_current sh)"
  by (simp add: complete_def finish_def shell_ops split: option.split)

lemma key_contacts: "os_contacts (sh_current (handleKey clock v k sh)) = os_contacts (sh_current sh)"
proof (cases rule: handleKey_cases [of clock v k sh])
  case (quiet i n)
  then show ?thesis using reduce_contacts [of "sh_current sh" i] by simp
next
  case (runs i n r)
  then show ?thesis using reduce_contacts [of "sh_current sh" i] by (simp add: start_child_def)
qed simp_all

lemma chunk_contacts: "os_contacts (sh_current (key_chunk clock v chunk sh)) = os_contacts (sh_current sh)"
proof -
  have "os_contacts (sh_current (handle_keys clock v ks sh)) = os_contacts (sh_current sh)" for ks sh
    by (induction ks arbitrary: sh) (simp_all add: key_contacts)
  moreover have "os_contacts (sh_current ((complete clock v ^^ n) sh)) = os_contacts (sh_current sh)" for n sh
    by (induction n) simp_all
  ultimately show ?thesis by (simp add: key_chunk_def run_deferred_def)
qed

lemma settled_contact:
  assumes "c \<in> set (os_contacts (sh_current (settle_command clock r oc (sh\<lparr>sh_children := cs, sh_awaiting := a\<rparr>))))"
    "c \<notin> set (os_contacts (sh_current sh))"
  shows "request_command r = ContactImport \<and> oc_ok oc \<and> (\<exists>m. sh_confirmed sh = Some m \<and> names_contact m c)"
  using assms note_fields(4) [of clock _ "sh\<lparr>sh_children := cs, sh_awaiting := a, sh_inFlight := None\<rparr>"]
  by (auto simp: settle_command_def shell_ops note_activity_def note_line_def split: if_splits option.splits dest!: observed_contact)

lemma new_contact:
  assumes "c \<in> set (os_contacts (sh_current (shell_step clock profiles v e sh)))" "c \<notin> set (os_contacts (sh_current sh))"
  shows "\<exists>i out exitCode child m. e = ChildClosed i out exitCode \<and> at (sh_children sh) i = Some child
    \<and> request_command (ch_request child) = ContactImport \<and> oc_ok (parseCliOutcome out exitCode)
    \<and> sh_confirmed sh = Some m \<and> names_contact m c"
proof (cases e)
  case (KeyChunk chunk)
  with assms show ?thesis by (simp add: chunk_contacts)
next
  case (ChildStderr i chunk)
  with assms show ?thesis by (cases rule: child_stderr_cases [of clock profiles v i chunk sh]) simp_all
next
  case (ChildClosed i out exitCode)
  show ?thesis
  proof (cases rule: child_closed_cases [of clock v i out exitCode sh])
    case nobody
    with assms ChildClosed show ?thesis by simp
  next
    case (settled child sh1)
    with assms ChildClosed have "c \<in> set (os_contacts (sh_current sh1))" by auto
    with settled_contact [OF this [unfolded settled(3)] assms(2)] settled(1,2) ChildClosed show ?thesis by (auto simp: at_def)
  qed
qed

lemma roster_origin:
  "session clock variables profiles sh \<Longrightarrow> c \<in> set (os_contacts (sh_current sh)) \<Longrightarrow>
    \<exists>before v i out exitCode child m. session clock variables profiles before
      \<and> at (sh_children before) i = Some child \<and> request_command (ch_request child) = ContactImport \<and> oc_ok (parseCliOutcome out exitCode)
      \<and> sh_confirmed before = Some m \<and> names_contact m c
      \<and> session_from clock profiles (shell_step clock profiles v (ChildClosed i out exitCode) before) sh"
proof (induction rule: session.induct)
  case (opened v)
  then show ?case
    by (auto simp: runTuiShell_def Let_def askWhatIsThere_def createInitialState_def shell_ops start_child_def split: option.splits if_splits prod.splits list.splits effect.splits)
next
  case (event sh v e)
  show ?case
  proof (cases "c \<in> set (os_contacts (sh_current sh))")
    case True
    with event.IH show ?thesis by (meson later)
  next
    case False
    from new_contact [OF event.prems False] event.hyps here show ?thesis by blast
  qed
qed

text \<open>
  C8. The roster holds only contacts the operator confirmed and a command imported: every contact a
  session lists came into the list when a child that ran an import ended with a reported success, at a
  moment when the confirmation the console held was one with exactly the contact's four identifiers,
  answered with yes; the session went on from there.
\<close>

theorem roster_holds_confirmed_contacts:
  assumes "session clock variables profiles sh" "c \<in> set (os_contacts (sh_current sh))"
  shows "\<exists>before v i out exitCode child m delivered. session clock variables profiles before
    \<and> at (sh_children before) i = Some child \<and> request_command (ch_request child) = ContactImport
    \<and> oc_ok (parseCliOutcome out exitCode)
    \<and> sh_confirmed before = Some m \<and> (True, m, delivered) \<in> set (sh_answers before)
    \<and> tm_identifiers m = \<lparr>ti_identity_id = Some (cv_identityId c), ti_device_id = Some (cv_deviceId c),
        ti_device_pubkey = Some (cv_devicePubkey c), ti_signal_identity_key = Some (cv_signalIdentityKey c)\<rparr>
    \<and> session_from clock profiles (shell_step clock profiles v (ChildClosed i out exitCode) before) sh"
proof -
  from roster_origin [OF assms] obtain before v i out exitCode child m where o: "session clock variables profiles before"
      "at (sh_children before) i = Some child" "request_command (ch_request child) = ContactImport" "oc_ok (parseCliOutcome out exitCode)"
      "sh_confirmed before = Some m" "names_contact m c"
      "session_from clock profiles (shell_step clock profiles v (ChildClosed i out exitCode) before) sh" by blast
  from trust.always [OF o(1)] o(5) have "said_yes before m" by (simp add: trust_ok_def)
  with o show ?thesis unfolding said_yes_def names_contact_def by blast
qed

subsection \<open>A way out of every state\<close>

definition settled_events :: "shell \<Rightarrow> bool" where
  "settled_events sh \<longleftrightarrow> sh_deferred sh = 0"

lemma complete_deferred [simp]: "sh_deferred (complete clock v sh) = sh_deferred sh"
  by (simp add: complete_def)

lemma run_deferred_settled [simp]: "sh_deferred (run_deferred clock v sh) = 0"
proof -
  have "sh_deferred ((complete clock v ^^ n) sh) = sh_deferred sh" for n sh by (induction n) simp_all
  then show ?thesis by (simp add: run_deferred_def)
qed

lemma session_settled: "session clock variables profiles sh \<Longrightarrow> sh_deferred sh = 0"
proof (induction rule: session.induct)
  case (opened v)
  show ?case
    by (auto simp: runTuiShell_def Let_def askWhatIsThere_def createInitialState_def shell_ops split: option.split)
next
  case (event sh v e)
  show ?case
  proof (cases e)
    case (KeyChunk chunk)
    with event show ?thesis by (simp add: key_chunk_def)
  next
    case (ChildStderr i chunk)
    with event show ?thesis by (cases rule: child_stderr_cases [of clock profiles v i chunk sh]) simp_all
  next
    case (ChildClosed i out exitCode)
    with event show ?thesis by (cases rule: child_closed_cases [of clock v i out exitCode sh]) auto
  qed
qed

definition unfinished :: "shell \<Rightarrow> bool" where
  "unfinished sh \<longleftrightarrow> (sh_running sh \<longrightarrow> \<not> sh_finished sh)"

lemma unfinished_key: "unfinished sh \<Longrightarrow> unfinished (handleKey clock v k sh)"
  by (cases rule: handleKey_cases [of clock v k sh]) (auto simp: unfinished_def complete_def)

interpretation leave: session_invariant clock variables profiles unfinished
proof
  show "unfinished (runTuiShell clock v (createInitialState (map (withStoreKeyPresence variables) profiles)))" for v
    by (auto simp: runTuiShell_def Let_def askWhatIsThere_def createInitialState_def shell_ops unfinished_def split: option.split)
next
  show "unfinished (child_stderr clock profiles v i chunk sh)" if "unfinished sh" for sh v i chunk
    using that by (cases rule: child_stderr_cases [of clock profiles v i chunk sh]) (simp_all add: unfinished_def)
next
  show "unfinished (child_closed clock v i out exitCode sh)" if "unfinished sh" for sh v i out exitCode
    using that by (cases rule: child_closed_cases [of clock v i out exitCode sh]) (auto simp: unfinished_def complete_def split: if_splits)
qed (simp_all add: unfinished_key, simp_all add: unfinished_def)

lemma ctrl_c_quits: "mapKey (decodeKey CTRL_C) s = Some QuitIntent"
  by (simp add: decodeKey_def mapKey_def inputKey_def ctrl_intent_def to_lower_def Let_def)

lemma ctrl_c_chunk: "splitKeystrokes CTRL_C = [CTRL_C]"
  by (simp add: splitKeystrokes_def CTRL_C_def ESC_def)

text \<open>
  C17. Ctrl-C leaves, from every state: with a confirmation open, a draft half written or a command
  running, the keystroke ends the session and gives the terminal back once and at once - after one last
  frame - and names the command that is still running if there is one.
\<close>

theorem ctrl_c_always_leaves:
  assumes "session clock variables profiles sh" "sh_running sh"
  shows "case shell_step clock profiles v (KeyChunk CTRL_C) sh of sh' \<Rightarrow>
    \<not> sh_running sh' \<and> sh_finished sh'
    \<and> sh_screen sh' = sh_screen sh @ [Painted (renderFrame (sh_current sh) v), AlternateOff]
        @ (case sh_children sh of [] \<Rightarrow> []
           | c # cs \<Rightarrow> [StillRunning (clipLine (command_name (request_command (ch_request c)) @ '' is still running'') (max 1 (vp_cols v)))])"
proof -
  have keys: "(if os_input (sh_current sh) = None then splitKeystrokes CTRL_C else [CTRL_C]) = [CTRL_C]"
    by (simp add: ctrl_c_chunk)
  have d: "sh_deferred sh = 0" "\<not> sh_finished sh"
    using session_settled [OF assms(1)] leave.always [OF assms(1)] assms(2) by (simp_all add: unfinished_def)
  have f: "sh_inFlight sh = map_option (request_command \<circ> ch_request) (at (sh_children sh) 0)"
    using flight.always [OF assms(1)] by (auto simp: single_flight_def at_def)
  have "handleKey clock v CTRL_C sh = (paint clock v sh)\<lparr>sh_running := False, sh_deferred := Suc 0\<rparr>"
    by (simp add: handleKey_def ctrl_c_quits run_effects_def Let_def d(1))
  then have step: "shell_step clock profiles v (KeyChunk CTRL_C) sh
      = complete clock v ((paint clock v sh)\<lparr>sh_running := False, sh_deferred := 0\<rparr>)"
    using assms(2) by (simp add: key_chunk_def keys run_deferred_def)
  show ?thesis
    unfolding step using d(2) f by (cases "sh_children sh") (simp_all add: complete_def finish_def write_screen_def at_def)
qed

lemma confirmation_after_leaving:
  assumes "\<not> sh_running sh" "i < length (sh_children sh)" "sh_children sh ! i = c" "ch_request c = ImportRequest dir source"
    "\<not> ch_announced c" "readIdentifiers (ch_stderr c @ chunk) = Some ids"
  shows "\<exists>frame. sh_screen (shell_step clock profiles v (ChildStderr i chunk) sh) = sh_screen sh @ [Painted frame]"
  using assms by (simp add: child_stderr_def at_def Let_def show_identifiers_def change_def)

subsection \<open>Only clean text reaches the terminal\<close>

fun clean_request :: "cli_request \<Rightarrow> bool" where
  "clean_request (InitRequest dir relayUrl env) = (clean dir \<and> clean relayUrl \<and> clean env)"
| "clean_request (ExportRequest dir out) = (clean dir \<and> clean out)"
| "clean_request (ImportRequest dir source) = (clean dir \<and> clean source)"
| "clean_request (PublishRequest dir) = clean dir"
| "clean_request (SendRequest dir to body mid) = (clean dir \<and> clean to \<and> clean body)"
| "clean_request (PollRequest dir) = clean dir"
| "clean_request (HistoryRequest dir contact) = (clean dir \<and> clean contact)"
| "clean_request (DoctorRequest dir) = clean dir"

definition clean_intent :: "intent \<Rightarrow> bool" where
  "clean_intent i \<longleftrightarrow> (case i of Run r \<Rightarrow> clean_request r | SelectContact c \<Rightarrow> clean c | _ \<Rightarrow> True)"

lemma clean_setup_intent: "clean_profile p \<Longrightarrow> setupStepIntent p = Some i \<Longrightarrow> clean_intent i"
  by (auto simp: setupStepIntent_def Let_def clean_intent_def clean_profile_def split: option.splits if_splits)

lemma clean_pane_intent:
  assumes "clean_state s" "paneKeyIntent k s = Some i"
  shows "clean_intent i"
proof -
  obtain p where p: "active s = Some p" "clean_profile p"
    using assms(2) clean_active [OF assms(1)] by (auto simp: paneKeyIntent_def split: option.splits)
  then have d: "clean (pv_profileDir p)" "clean_option (pv_contactCardPath p)" by (simp_all add: clean_profile_def)
  have sel: "clean c" if "os_selectedContactId s = Some c" for c using assms(1) that by (simp add: clean_state_def clean_option_def)
  have con: "clean (cv_identityId c)" if "c \<in> set (os_contacts s)" for c
    using assms(1) that by (simp add: clean_state_def list_all_iff clean_contact_def)
  show ?thesis
    using assms(2) p(1) d sel con clean_setup_intent [OF p(2)]
    by (auto simp: paneKeyIntent_def Let_def clean_intent_def clean_option_def at_def split: if_splits)
qed

lemma clean_key_intent: "clean_state s \<Longrightarrow> mapKey k s = Some i \<Longrightarrow> clean_intent i"
  using clean_pane_intent [of s k i]
  by (auto simp: mapKey_def inputKey_def ctrl_intent_def Let_def clean_intent_def split: if_splits option.splits)

lemma clean_cardInstant: "clean (cardInstant t)"
proof -
  have "plain (toISOString t)" by (simp add: toISOString_def iso_year_def Let_def case_prod_unfold)
  then have "plain (cardInstant t)" by (auto simp: cardInstant_def plain_def list_all_iff)
  then show ?thesis by (rule plain_clean)
qed

lemma clean_initialBuffer: "clean_state s \<Longrightarrow> clean (initialBuffer s field)"
proof (cases "active s")
  case (Some p)
  assume "clean_state s"
  from clean_active [OF this Some] have "clean (pv_profileDir p)" "clean_option (pv_contactCardPath p)"
    by (simp_all add: clean_profile_def)
  then show ?thesis
    by (cases field) (auto simp: initialBuffer_def Some clean_texts clean_cardInstant clean_option_def split: option.split)
qed (simp add: initialBuffer_def)

lemma clean_update_active:
  "list_all clean_profile (os_profiles s) \<Longrightarrow> (\<And>p. clean_profile p \<Longrightarrow> clean_profile (f p)) \<Longrightarrow> list_all clean_profile (update_active s f)"
  by (auto simp: update_active_def list_all_length nth_enumerate_eq)

lemma clean_submit: "clean_state s \<Longrightarrow> clean (ip_buffer inp) \<Longrightarrow> submitRequest s inp = Some r \<Longrightarrow> clean_request r"
proof -
  assume s: "clean_state s" "clean (ip_buffer inp)" "submitRequest s inp = Some r"
  then obtain p where p: "active s = Some p" by (auto simp: submitRequest_def split: option.splits)
  from clean_active [OF s(1) p] have "clean (pv_profileDir p)" "clean (pv_storeKeyEnv p)" by (simp_all add: clean_profile_def)
  moreover have "clean c" if "os_selectedContactId s = Some c" for c using s(1) that by (simp add: clean_state_def clean_option_def)
  ultimately show ?thesis
    using s(2,3) p by (auto simp: submitRequest_def Let_def split: input_field.splits option.splits if_splits)
qed

lemma clean_reduce:
  assumes "clean_state s" "clean_intent i" "reduce s i = (n, es)"
  shows "clean_state n \<and> (\<forall>r. RunCli r \<in> set es \<longrightarrow> clean_request r)"
proof (cases i)
  case InputSubmit
  show ?thesis
  proof (cases "\<exists>inp r. os_input s = Some inp \<and> submitRequest s inp = Some r \<and> os_modal s = None \<and> \<not> os_busy s \<and> ip_renderedAt inp \<noteq> None")
    case True
    then obtain inp r where inp: "os_input s = Some inp" "submitRequest s inp = Some r" "os_modal s = None" "\<not> os_busy s" "ip_renderedAt inp \<noteq> None"
      by blast
    have "clean (ip_buffer inp)" using assms(1) inp(1) by (simp add: clean_state_def)
    from clean_submit [OF assms(1) this inp(2)] have r: "clean_request r" .
    have ps: "list_all clean_profile (case r of InitRequest dir relayUrl env \<Rightarrow> update_active s (\<lambda>p. p\<lparr>pv_relayUrl := relayUrl\<rparr>) | _ \<Rightarrow> os_profiles s)"
      using assms(1) r by (cases r) (auto simp: clean_state_def clean_profile_def intro!: clean_update_active)
    from inp InputSubmit assms(3) have "es = [RunCli r]"
      "n = s\<lparr>os_profiles := (case r of InitRequest dir relayUrl env \<Rightarrow> update_active s (\<lambda>p. p\<lparr>pv_relayUrl := relayUrl\<rparr>) | _ \<Rightarrow> os_profiles s),
          os_input := None, os_busy := True\<rparr>" by (auto simp: Let_def)
    with ps r assms(1) show ?thesis by (simp add: clean_state_def)
  next
    case False
    with InputSubmit assms(3) have "n = s \<and> es = []" by (auto simp: Let_def split: option.splits if_splits)
    with assms(1) show ?thesis by simp
  qed
next
  case (InputInsert t)
  show ?thesis
  proof (cases "os_input s")
    case None
    with InputInsert assms(1,3) show ?thesis by simp
  next
    case (Some inp)
    have "clean (ip_buffer inp)" using assms(1) Some by (simp add: clean_state_def)
    then have "clean (ip_buffer inp @ paintable t)" by (rule clean_append) simp
    moreover define typed where "typed = s\<lparr>os_input := Some (inp\<lparr>ip_buffer := ip_buffer inp @ paintable t\<rparr>)\<rparr>"
    ultimately have "clean_state typed" using assms(1) by (simp add: clean_state_def)
    moreover have "reduce s i = (s, []) \<or> reduce s i = (typed, [])"
      unfolding InputInsert reduce.simps Some option.case Let_def typed_def [symmetric] by simp
    ultimately show ?thesis using assms(1,3) by auto
  qed
next
  case InputBackspace
  show ?thesis
  proof (cases "os_input s")
    case None
    with InputBackspace assms(1,3) show ?thesis by simp
  next
    case (Some inp)
    have "clean (ip_buffer inp)" using assms(1) Some by (simp add: clean_state_def)
    then have "clean (concat (butlast (codePoints (ip_buffer inp))))" by (rule clean_cut) (auto dest: in_set_butlastD)
    with InputBackspace Some assms(1,3) show ?thesis by (auto simp: clean_state_def split: if_splits)
  qed
next
  case (InputOpen f)
  with assms clean_initialBuffer [OF assms(1), of f] show ?thesis by (auto simp: clean_state_def split: if_splits)
next
  case (SelectContact contact)
  with assms show ?thesis by (auto simp: clean_state_def clean_intent_def clean_option_def)
next
  case (Run r)
  with assms show ?thesis by (cases "os_busy s") (auto simp: clean_state_def clean_intent_def)
next
  case TrustConfirm
  with assms show ?thesis by (auto simp: clean_state_def split: option.splits if_splits)
next
  case TrustCancel
  with assms show ?thesis by (cases "os_modal s = None") (auto simp: clean_state_def)
next
  case InputCancel
  with assms show ?thesis by (cases "os_input s = None") (auto simp: clean_state_def)
qed (use assms in \<open>auto simp: clean_state_def\<close>)

lemma clean_read_rejections: "list_all clean_rejection (readRejections v)"
proof -
  have "list_all clean_rejection (read_rejection e)" for e
    by (cases e) (auto simp: clean_rejection_def split: json.split)
  then show ?thesis by (cases v) (auto simp: list_all_iff)
qed

lemma clean_read_history: "list_all clean_entry (readHistoryEntries v)"
proof -
  have "list_all clean_entry (read_entry e)" for e
    by (cases e) (auto simp: clean_entry_def Let_def split: json.split option.split)
  then show ?thesis by (auto simp: readHistoryEntries_def list_all_iff split: json.split)
qed

lemma clean_steps:
  assumes "list_all clean_outcome steps" "\<And>i x. clean_outcome x \<Longrightarrow> clean_outcome (f (i, x))"
  shows "list_all clean_outcome (map f (enumerate 0 steps))"
  using assms by (auto simp: list_all_iff in_set_enumerate_eq)

lemma clean_fold_setup:
  assumes "list_all clean_profile (os_profiles s)"
  shows "list_all clean_profile (foldSetup s r oc)"
proof -
  show ?thesis
    unfolding foldSetup_def Let_def
    by (rule clean_update_active [OF assms]) (auto simp: clean_profile_def simp del: map_map intro!: clean_steps split: option.split)
qed

lemma clean_summary:
  assumes "clean_state s"
  shows "clean_state (fold_summary s v)"
proof -
  have "clean (painted_or w t)" if "clean t" for w t using that by (simp add: painted_or_def split: json.split)
  then have "list_all clean_profile (update_active s (\<lambda>p.
        p\<lparr>pv_identityId := painted_or (jprop v ''identity_id'') (pv_identityId p),
          pv_deviceId := painted_or (jprop v ''device_id'') (pv_deviceId p),
          pv_contactCount := asNumber (jprop v ''contact_count'') (pv_contactCount p)\<rparr>))"
    using assms by (intro clean_update_active) (simp_all add: clean_state_def clean_profile_def)
  with assms show ?thesis by (simp add: fold_summary_def clean_state_def)
qed

lemma clean_outcome_applied:
  assumes "clean_state s"
  shows "clean_state (applyOutcome s r oc t)"
proof -
  define nx where "nx = s\<lparr>os_health := if request_command r \<in> {Poll, RelayPublish, Send} then folded_health s oc t else os_health s,
      os_profiles := foldSetup s r oc, os_mailbox := (os_mailbox s)\<lparr>mb_outboxPending := None\<rparr>\<rparr>"
  have n: "clean_state nx"
    using assms clean_fold_setup [of s r oc] by (simp add: clean_state_def folded_health_def nx_def)
  have p: "clean_state (nx\<lparr>os_profiles := update_active nx (\<lambda>p. p\<lparr>pv_published := True\<rparr>)\<rparr>)"
    using n clean_update_active [of nx "\<lambda>p. p\<lparr>pv_published := True\<rparr>"] by (simp add: clean_state_def clean_profile_def)
  have h: "clean_state (nx\<lparr>os_history := readHistoryEntries d\<rparr>)" for d
    using n clean_read_history by (simp add: clean_state_def)
  have q: "clean_state (nx\<lparr>os_mailbox := b, os_rejections := readRejections d\<rparr>)" for b d
    using n clean_read_rejections by (simp add: clean_state_def)
  show ?thesis
    unfolding applyOutcome_def Let_def nx_def [symmetric]
    by (cases "request_command r") (simp_all add: n p h q clean_summary [OF n])
qed

definition clean_screen :: "screen_write list \<Rightarrow> bool" where
  "clean_screen scr \<longleftrightarrow> (\<forall>frame line. Painted frame \<in> set scr \<and> line \<in> set frame \<longrightarrow> clean line)"

definition clean_shell :: "shell \<Rightarrow> bool" where
  "clean_shell sh \<longleftrightarrow> clean_state (sh_current sh) \<and> clean_screen (sh_screen sh)
     \<and> list_all (\<lambda>c. clean_request (ch_request c)) (sh_children sh)
     \<and> (\<forall>m. sh_confirmed sh = Some m \<longrightarrow> clean_modal m)"

lemma clean_state_stamps: "clean_state s \<Longrightarrow> clean_state (stamp_modal t s)" "clean_state s \<Longrightarrow> clean_state (stamp_input t s)"
  by (auto simp: clean_state_def stamp_modal_def stamp_input_def clean_modal_def split: option.splits)

lemma clean_shell_paint: "clean_shell sh \<Longrightarrow> clean_shell (paint clock v sh)"
proof -
  assume sh: "clean_shell sh"
  then have "clean_state (sh_current (paint clock v sh))"
    by (simp add: clean_shell_def paint_def shell_ops clean_state_stamps)
  moreover have "clean_screen (sh_screen (paint clock v sh))"
    using sh clean_frame [of "sh_current sh" v] by (auto simp: clean_shell_def clean_screen_def)
  ultimately show ?thesis using sh by (simp add: clean_shell_def)
qed

lemma clean_shell_finish: "clean_shell sh \<Longrightarrow> clean_shell (finish v sh)"
  using finish_screen [of v sh] by (auto simp: clean_shell_def clean_screen_def)

lemma clean_shell_complete: "clean_shell sh \<Longrightarrow> clean_shell (complete clock v sh)"
  by (simp add: complete_def clean_shell_paint clean_shell_finish)

lemma clean_shell_note: "clean_shell sh \<Longrightarrow> clean_shell (note_activity clock l sh)"
proof -
  assume sh: "clean_shell sh"
  obtain ls where ls: "sh_current (note_activity clock l sh) = (sh_current sh)\<lparr>os_activity := ls\<rparr>"
    "\<forall>a \<in> set ls. a \<in> set (os_activity (sh_current sh)) \<or> ac_text a = paintable l" using note_state by blast
  from ls(2) sh have "list_all (\<lambda>a. clean (ac_text a)) ls" by (auto simp: list_all_iff clean_shell_def clean_state_def)
  with sh ls(1) show ?thesis by (simp add: clean_shell_def clean_state_def)
qed

lemma clean_shell_key:
  assumes "clean_shell sh"
  shows "clean_shell (handleKey clock v k sh)"
proof -
  have s: "clean_state (sh_current sh)" using assms by (simp add: clean_shell_def)
  show ?thesis
  proof (cases rule: handleKey_cases [of clock v k sh])
    case ignored
    with assms show ?thesis by simp
  next
    case (quiet i n)
    with clean_reduce [OF s clean_key_intent [OF s quiet(1)] quiet(2)] assms
    have "clean_shell (sh\<lparr>sh_current := n\<rparr>)" by (simp add: clean_shell_def)
    then show ?thesis unfolding quiet(3) by (intro clean_shell_complete clean_shell_paint)
  next
    case (runs i n r)
    with clean_reduce [OF s clean_key_intent [OF s runs(1)] runs(2)] assms
    have "clean_shell (sh\<lparr>sh_current := n\<rparr>)" "clean_request r" by (simp_all add: clean_shell_def)
    then have "clean_shell (paint clock v (sh\<lparr>sh_current := n\<rparr>))" "clean_request r" by (simp_all add: clean_shell_paint)
    then show ?thesis unfolding runs(4) by (simp add: clean_shell_def start_child_def)
  next
    case (answers i b m)
    have "clean_modal m" using s answers(3) by (auto simp: answering_def clean_state_def)
    with assms have "clean_shell ((if b then sh\<lparr>sh_confirmed := Some m\<rparr> else sh)\<lparr>sh_current := (sh_current sh)\<lparr>os_modal := None\<rparr>\<rparr>)"
      by (simp add: clean_shell_def clean_state_def)
    then have "clean_shell (paint clock v ((if b then sh\<lparr>sh_confirmed := Some m\<rparr> else sh)\<lparr>sh_current := (sh_current sh)\<lparr>os_modal := None\<rparr>\<rparr>))"
      by (rule clean_shell_paint)
    then have "clean_shell (answer_prompt clock b m (paint clock v ((if b then sh\<lparr>sh_confirmed := Some m\<rparr> else sh)
        \<lparr>sh_current := (sh_current sh)\<lparr>os_modal := None\<rparr>\<rparr>)))"
      unfolding answer_prompt_def by (intro clean_shell_note) (simp add: clean_shell_def)
    then show ?thesis unfolding answers(4) by (simp add: clean_shell_def)
  next
    case (quits i)
    from clean_shell_paint [OF assms, of clock v] show ?thesis unfolding quits(2) by (simp add: clean_shell_def)
  qed
qed

lemma clean_shell_settled:
  assumes "clean_shell sh"
  shows "clean_shell (settle_command clock r oc sh)"
proof -
  have "clean_shell (sh\<lparr>sh_inFlight := None\<rparr>)" using assms by (simp add: clean_shell_def)
  then have n: "clean_shell (note_activity clock l (sh\<lparr>sh_inFlight := None\<rparr>))" for l by (rule clean_shell_note)
  have st: "clean_state ((applyOutcome s r oc t)\<lparr>os_busy := False\<rparr>)" if "clean_state s" for s t
    using clean_outcome_applied [OF that, of r oc t] by (simp add: clean_state_def)
  have ob: "clean_state (s\<lparr>os_observedAtMs := t\<rparr>)" if "clean_state s" for s t using that by (simp add: clean_state_def)
  have con: "clean_state (observeContact m s)" if "clean_state s" "clean_modal m" for s m
    using that by (auto simp: observeContact_def Let_def clean_state_def clean_modal_def clean_identifiers_def clean_option_def
        clean_contact_def split: option.split)
  define sh3 where "sh3 = timed clock (\<lambda>t s. s\<lparr>os_observedAtMs := Some t\<rparr>)
    (timed clock (\<lambda>t s. (applyOutcome s r oc t)\<lparr>os_busy := False\<rparr>) (note_activity clock (outcomeLine (request_command r) oc) (sh\<lparr>sh_inFlight := None\<rparr>)))"
  have s3: "clean_shell sh3" using n [of "outcomeLine (request_command r) oc"] by (simp add: sh3_def clean_shell_def shell_ops st ob)
  have c3: "clean_shell (change (observeContact m) sh3)" if "sh_confirmed sh3 = Some m" for m
    using s3 that con by (simp add: clean_shell_def change_def)
  have un: "clean_shell (x\<lparr>sh_confirmed := None\<rparr>)" if "clean_shell x" for x using that by (simp add: clean_shell_def)
  show ?thesis
    unfolding settle_command_def Let_def sh3_def [symmetric] using s3 c3 by (auto intro: un split: option.split)
qed

definition clean_shell_of :: "profile_view list \<Rightarrow> shell \<Rightarrow> bool" where
  "clean_shell_of profiles sh \<longleftrightarrow> (list_all clean_profile profiles \<longrightarrow> clean_shell sh)"

lemma clean_started:
  assumes "list_all clean_profile profiles"
  shows "clean_shell (runTuiShell clock v (createInitialState (map (withStoreKeyPresence variables) profiles)))"
proof -
  have "clean_profile (withStoreKeyPresence variables p)" if "clean_profile p" for p
  proof -
    have "list_all clean_outcome PENDING_SETUP" by (simp add: PENDING_SETUP_def)
    with that show ?thesis
      by (auto simp: withStoreKeyPresence_def Let_def clean_profile_def simp del: map_map intro!: clean_steps split: option.splits)
  qed
  with assms have ps: "list_all clean_profile (map (withStoreKeyPresence variables) profiles)" by (simp add: list_all_iff)
  have s: "clean_state (createInitialState (map (withStoreKeyPresence variables) profiles))" (is "clean_state ?s")
    using ps by (cases profiles) (auto simp: clean_state_def createInitialState_def clean_option_def clean_profile_def)
  define sh where "sh = paint clock v (write_screen AlternateOn
     (let sh = \<lparr>sh_current = ?s, sh_running = True, sh_finished = False, sh_confirmed = None, sh_inFlight = None,
          sh_children = [], sh_awaiting = False, sh_reads = 0, sh_deferred = 0, sh_screen = [], sh_answers = []\<rparr>
      in if os_observedAtMs ?s = None then timed clock (\<lambda>t s. s\<lparr>os_observedAtMs := Some t\<rparr>) sh else sh))"
  have sh: "clean_shell sh" unfolding sh_def
    by (rule clean_shell_paint) (use s in \<open>simp add: clean_shell_def shell_ops clean_state_def clean_screen_def\<close>)
  have ask: "clean_shell (askWhatIsThere clock v sh)"
  proof (cases "active (sh_current sh)")
    case (Some p)
    have p: "clean (pv_profileDir p)" using clean_active [OF _ Some] sh by (simp add: clean_shell_def clean_profile_def)
    have "clean_shell (paint clock v (sh\<lparr>sh_current := (sh_current sh)\<lparr>os_busy := b\<rparr>\<rparr>))" for b
      by (rule clean_shell_paint) (use sh in \<open>simp add: clean_shell_def clean_state_def\<close>)
    moreover have "clean_shell (paint clock v sh)" by (rule clean_shell_paint [OF sh])
    ultimately show ?thesis using sh p Some by (auto simp: askWhatIsThere_def clean_shell_def start_child_def)
  qed (use sh in \<open>simp add: askWhatIsThere_def\<close>)
  then show ?thesis unfolding runTuiShell_def sh_def Let_def .
qed

interpretation clean: session_invariant clock variables profiles "clean_shell_of profiles"
proof
  show "clean_shell_of profiles (runTuiShell clock v (createInitialState (map (withStoreKeyPresence variables) profiles)))" for v
    by (simp add: clean_shell_of_def clean_started)
next
  show "clean_shell_of profiles (child_stderr clock profiles v i chunk sh)" if t: "clean_shell_of profiles sh" for sh v i chunk
    unfolding clean_shell_of_def
  proof
    assume p: "list_all clean_profile profiles"
    with t have sh: "clean_shell sh" by (simp add: clean_shell_of_def)
    have kids: "list_all (\<lambda>c. clean_request (ch_request c)) cs" if "map ch_request cs = map ch_request (sh_children sh)" for cs
    proof -
      have "list_all clean_request (map ch_request cs)" unfolding that using sh by (simp add: clean_shell_def list.pred_map comp_def)
      then show ?thesis by (simp add: list.pred_map comp_def)
    qed
    show "clean_shell (child_stderr clock profiles v i chunk sh)"
    proof (cases rule: child_stderr_cases [of clock profiles v i chunk sh])
      case (printed cs)
      with sh kids show ?thesis by (simp add: clean_shell_def)
    next
      case (announced cs dir source ids)
      have "clean_request (ch_request (sh_children sh ! i))" using sh announced(2) by (simp add: clean_shell_def list_all_length)
      then have "clean source" "clean dir" using announced(3) by simp_all
      moreover have "clean (profile_label profiles dir)"
        using p \<open>clean dir\<close> by (auto simp: profile_label_def list_all_iff clean_profile_def find_Some_iff split: option.split)
      ultimately show ?thesis
        using sh kids [OF announced(1)] unfolding announced(4) show_identifiers_def
        by (intro clean_shell_paint) (simp add: clean_shell_def change_def clean_state_def clean_modal_def)
    qed
  qed
next
  show "clean_shell_of profiles (child_closed clock v i out exitCode sh)" if t: "clean_shell_of profiles sh" for sh v i out exitCode
  proof (cases rule: child_closed_cases [of clock v i out exitCode sh])
    case nobody
    with t show ?thesis by simp
  next
    case (settled c sh1)
    have "clean_shell sh1" if "clean_shell sh"
      unfolding settled(3)
      by (rule clean_shell_settled) (use that in \<open>auto simp: clean_shell_def list_all_iff dest: in_set_takeD in_set_dropD\<close>)
    with settled(4) t show ?thesis by (auto simp: clean_shell_of_def clean_shell_complete)
  qed
qed (auto simp: clean_shell_of_def clean_shell_paint clean_shell_finish clean_shell_key, auto simp: clean_shell_def)

end
