(* ===== verification/ConsoleSessions.thy ===== *)
theory ConsoleSessions
  imports ConsoleLaws
begin

text \<open>
  The console and its children together: the identifiers \<open>contact import\<close> prints at its prompt are read by
  the console, and its answer is read by the child; the text of a whole session; and one session as
  an example of the laws.
\<close>

subsection \<open>The confirmation between two processes\<close>

definition printIdentifiers :: "json \<Rightarrow> string" where
  "printIdentifiers identifiers =
     stringify (JObj (map (\<lambda>k. (k, jprop identifiers k))
       [''identity_id'', ''device_id'', ''device_pubkey'', ''signal_identity_key''])) @ LF"

definition trustQuestion :: string where
  "trustQuestion = ''Trust these contact identifiers? [y/N] ''"

definition trustAnswer :: "bool \<Rightarrow> string" where
  "trustAnswer b = (if b then CHR ''y'' # LF else CHR ''n'' # LF)"

lemma split_lines_unbroken: "CHR 0x0A \<notin> set l \<Longrightarrow> split_lines l = [l]"
  by (induction l) auto

lemma split_lines_line: "CHR 0x0A \<notin> set l \<Longrightarrow> split_lines (l @ CHR 0x0A # s) = l # split_lines s"
  by (induction l) auto

lemma hex_no_break: "hex_digit (of_char (c :: char) div 16) \<noteq> CHR 0x0A" "hex_digit (of_char (c :: char) mod 16) \<noteq> CHR 0x0A"
proof -
  have "of_char (hex_digit d) \<noteq> (of_char (CHR 0x0A) :: nat)" if "d < 16" for d using that by (simp add: hex_digit_def)
  then have h: "hex_digit d \<noteq> CHR 0x0A" if "d < 16" for d using that by metis
  have "(of_char c :: nat) < 256" by simp
  then show "hex_digit (of_char c div 16) \<noteq> CHR 0x0A" by (intro h) linarith
  show "hex_digit (of_char c mod 16) \<noteq> CHR 0x0A" by (intro h) simp
qed

lemma escape_no_break: "CHR 0x0A \<notin> set (escape_char c)"
  using hex_no_break [of c] by (auto simp: escape_char_def)

lemma quote_no_break: "CHR 0x0A \<notin> set (quote s)"
  using escape_no_break by (auto simp: quote_def)

lemma map_filter_append: "List.map_filter f (xs @ ys) = List.map_filter f xs @ List.map_filter f ys"
  by (induction xs) (simp_all split: option.split)

lemma reads_printed:
  assumes "map (jprop identifiers) [''identity_id'', ''device_id'', ''device_pubkey'', ''signal_identity_key'']
    = map JStr [identity, device, pubkey, signalKey]"
  shows "line_identifiers (butlast (printIdentifiers identifiers)) =
    Some \<lparr>ti_identity_id = Some identity, ti_device_id = Some device, ti_device_pubkey = Some pubkey,
      ti_signal_identity_key = Some signalKey\<rparr>"
proof -
  let ?doc = "JObj [(''identity_id'', JStr identity), (''device_id'', JStr device), (''device_pubkey'', JStr pubkey),
     (''signal_identity_key'', JStr signalKey)]"
  have b: "butlast (printIdentifiers identifiers) = stringify ?doc"
    using assms by (simp add: printIdentifiers_def LF_def butlast_append del: stringify.simps)
  have "\<exists>body. stringify ?doc = CHR ''{'' # body @ ''}''" by (simp only: stringify.simps) blast
  then have t: "trim (stringify ?doc) = stringify ?doc" "prefix ''{'' (stringify ?doc)" by (auto simp: trim_braced simp del: stringify.simps)
  have p: "parse_json (stringify ?doc) = Some ?doc" by (rule parse_stringify) simp
  show ?thesis unfolding b line_identifiers_def t(1) p Let_def using t(2) by (simp add: str_field_def del: stringify.simps)
qed

lemma answer_heard: "concat pieces = trustAnswer b \<Longrightarrow> readConfirmation [] pieces = b"
proof -
  let ?t = "if b then ''y'' else ''n''"
  have "trim [c] = [c]" if "c \<in> {CHR ''y'', CHR ''n''}" for c
    using that by (auto simp: trim_def trim_start.simps trim_end.simps white_sequences_def suffix_def)
  then have "affirmative ?t = b" by (simp add: affirmative_def to_lower_def)
  moreover have "list_all (\<lambda>c. \<not> line_break c) ?t" "length ?t \<le> 8" by (simp_all add: line_break_def)
  ultimately show "concat pieces = trustAnswer b \<Longrightarrow> readConfirmation [] pieces = b"
    using confirmation_heard [of ?t "[]" pieces] by (simp add: trustAnswer_def LF_def split: if_splits)
qed

lemma printed_read:
  assumes "map (jprop identifiers) [''identity_id'', ''device_id'', ''device_pubkey'', ''signal_identity_key'']
    = map JStr [identity, device, pubkey, signalKey]"
    "\<forall>l \<in> set noise. CHR 0x0A \<notin> set l \<and> line_identifiers l = None"
  shows "readIdentifiers (concat (map (\<lambda>l. l @ LF) noise) @ printIdentifiers identifiers @ trustQuestion) =
      Some \<lparr>ti_identity_id = Some identity, ti_device_id = Some device, ti_device_pubkey = Some pubkey,
        ti_signal_identity_key = Some signalKey\<rparr>"
proof -
  define doc where "doc = butlast (printIdentifiers identifiers)"
  have d: "printIdentifiers identifiers = doc @ LF" "CHR 0x0A \<notin> set doc"
    using assms(1) quote_no_break by (auto simp: doc_def printIdentifiers_def LF_def butlast_append)
  have "split_lines (concat (map (\<lambda>l. l @ LF) noise) @ s) = noise @ split_lines s" for s
    using assms(2) by (induction noise) (simp_all add: LF_def split_lines_line)
  then have "split_lines (concat (map (\<lambda>l. l @ LF) noise) @ printIdentifiers identifiers @ trustQuestion)
      = noise @ doc # split_lines trustQuestion"
    using d by (simp add: LF_def split_lines_line)
  moreover have "List.map_filter line_identifiers noise = []"
    using assms(2) by (induction noise) simp_all
  ultimately show ?thesis
    using reads_printed [OF assms(1)] by (simp add: readIdentifiers_def map_filter_append doc_def)
qed

text \<open>
  Two processes agree on one confirmation: from what the child's \<open>contact import\<close> prints before its
  question - after any other output it wrote first, as long as no line of it is such a record - the
  console reads exactly the four identifiers of the card, and the child hears exactly the answer the
  console writes, however the pipe cuts it.
\<close>

theorem confirmation_round_trip:
  assumes "map (jprop identifiers) [''identity_id'', ''device_id'', ''device_pubkey'', ''signal_identity_key'']
    = map JStr [identity, device, pubkey, signalKey]"
    "\<forall>l \<in> set noise. CHR 0x0A \<notin> set l \<and> line_identifiers l = None"
    "concat pieces = trustAnswer answered"
  shows "readIdentifiers (concat (map (\<lambda>l. l @ LF) noise) @ printIdentifiers identifiers @ trustQuestion) =
      Some \<lparr>ti_identity_id = Some identity, ti_device_id = Some device, ti_device_pubkey = Some pubkey,
        ti_signal_identity_key = Some signalKey\<rparr>
    \<and> readConfirmation [] pieces = answered"
  using printed_read [OF assms(1,2)] answer_heard assms(3) by blast

subsection \<open>From the command line to the screen\<close>

lemma clean_new_profile: "clean (resolve v) \<Longrightarrow> clean_profile (new_profile resolve n v)"
proof -
  have "clean (''profile-'' @ show_nat (n + 1))" by (intro clean_append) (simp_all add: clean_texts)
  then show "clean (resolve v) \<Longrightarrow> ?thesis"
    by (simp add: new_profile_def clean_profile_def clean_texts PENDING_SETUP_def clean_option_def)
qed

lemma clean_assign:
  assumes "assign resolve ps flag v = Inr qs" "list_all clean_profile ps" "clean v" "clean (resolve v)"
  shows "list_all clean_profile qs"
proof -
  have "list_all clean_profile (butlast ps)" "ps \<noteq> [] \<longrightarrow> clean_profile (last ps)"
    using assms(2) by (auto simp: list_all_iff dest: in_set_butlastD)
  with assms show ?thesis by (auto simp: assign_def Let_def clean_profile_def clean_option_def split: if_splits)
qed

lemma parse_options_clean:
  "\<forall>s. clean s \<longrightarrow> clean (resolve s) \<Longrightarrow> parse_options resolve ps cli argv = Inr (qs, path) \<Longrightarrow> list_all clean_profile ps
    \<Longrightarrow> list_all clean argv \<Longrightarrow> list_all clean_profile qs"
proof (induction resolve ps cli argv rule: parse_options.induct)
  case (3 resolve ps cli flag v argv)
  have v: "clean v" "clean (resolve v)" "list_all clean argv" "list_all clean (v # argv)" using 3(5,8) by simp_all
  consider "flag \<in> HELP_FLAGS" | "flag \<notin> HELP_FLAGS" "flag = ''--profile''" | "flag \<notin> HELP_FLAGS" "flag \<noteq> ''--profile''" "flag = ''--cli''"
    | "flag \<notin> HELP_FLAGS" "flag \<noteq> ''--profile''" "flag \<noteq> ''--cli''" by blast
  then show ?case
  proof cases
    case 1
    from 3(6) 1 have "parse_options resolve ps cli (v # argv) = Inr (qs, path)" by simp
    from 3(1) [OF 1 3(5) this 3(7) v(4)] show ?thesis .
  next
    case 2
    from 3(6) 2 have "parse_options resolve (ps @ [new_profile resolve (length ps) v]) cli argv = Inr (qs, path)" by simp
    from 3(2) [OF 2 3(5) this] 3(7) v clean_new_profile show ?thesis by simp
  next
    case other: 3
    from 3(6) other have "parse_options resolve ps (resolve v) argv = Inr (qs, path)" by simp
    from 3(3) [OF other 3(5) this 3(7) v(3)] show ?thesis .
  next
    case 4
    from 3(6) 4 obtain ps' where ps': "assign resolve ps flag v = Inr ps'" "parse_options resolve ps' cli argv = Inr (qs, path)"
      by (auto simp: bindR_def split: sum.splits)
    from 3(4) [OF 4 3(5) ps'(2) clean_assign [OF ps'(1) 3(7) v(1,2)] v(3)] show ?thesis .
  qed
qed (auto split: if_splits)

text \<open>
  C18. No byte that steers the terminal reaches it: from the parsed command line on, in every session
  and whatever the children print, every string the console's state holds is free of control codes and
  bidirectional overrides, and so is every line of every frame it wrote - provided the directory the
  paths are resolved against is.
\<close>

theorem session_text_is_clean:
  assumes "parseOptions resolve defaultCli argv = Inr (profiles, cli)" "\<forall>s. clean s \<longrightarrow> clean (resolve s)"
    "session clock variables profiles sh"
  shows "clean_state (sh_current sh)
    \<and> (\<forall>frame line. Painted frame \<in> set (sh_screen sh) \<and> line \<in> set frame \<longrightarrow> clean line)"
proof -
  have "list_all clean (map paintable argv)" by (simp add: list_all_iff)
  with parse_options_clean [OF assms(2), of "[]" defaultCli] assms(1) have "list_all clean_profile profiles"
    by (simp add: parseOptions_def)
  with clean.always [OF assms(3)] show ?thesis by (auto simp: clean_shell_of_def clean_shell_def clean_screen_def)
qed

text \<open>That proviso is needed: the directory a relative path is resolved against is not filtered.\<close>

lemma unfiltered_directory:
  "parseOptions resolve defaultCli [''--profile'', ''a''] = Inr ([p], path) \<Longrightarrow> pv_profileDir p = resolve ''a''"
  by (auto simp: parseOptions_def clean_texts HELP_FLAGS_def new_profile_def)

subsection \<open>A session\<close>

text \<open>
  A session that adds a contact: the startup command exits, the operator asks for the import, the
  child prints the four identifiers, the operator says yes, and the child reports success.
\<close>

definition example_viewport :: viewport where "example_viewport = \<lparr>vp_cols = 80, vp_rows = 24\<rparr>"

definition example_profile :: profile_view where
  "example_profile = (new_profile (\<lambda>s. s) 0 ''a'')\<lparr>pv_contactCardPath := Some ''c''\<rparr>"

definition example_card :: json where
  "example_card = JObj [(''identity_id'', JStr ''i''), (''device_id'', JStr ''d''),
     (''device_pubkey'', JStr ''p''), (''signal_identity_key'', JStr ''s'')]"

definition example_events :: "shell_event list" where
  "example_events = [ChildClosed 0 [] 5, KeyChunk ''i'', ChildStderr 0 (printIdentifiers example_card @ trustQuestion), KeyChunk ''y'',
     ChildClosed 0 (stringify (JObj [(''ok'', JBool True)])) 0]"

definition example_shell :: "nat \<Rightarrow> shell" where
  "example_shell n = fold (shell_step (\<lambda>_. 0) [example_profile] example_viewport) (take n example_events)
     (runTuiShell (\<lambda>_. 0) example_viewport (createInitialState (map (withStoreKeyPresence {}) [example_profile])))"

lemma example_session: "session (\<lambda>_. 0) {} [example_profile] (example_shell n)"
proof -
  have "session c vs ps sh \<Longrightarrow> session c vs ps (fold (shell_step c ps v) es sh)" for c vs ps v es sh
    by (induction es arbitrary: sh) (simp_all add: session.event)
  then show ?thesis unfolding example_shell_def by (blast intro: session.opened)
qed


lemma example_printed:
  "readIdentifiers (printIdentifiers example_card @ trustQuestion) = Some \<lparr>ti_identity_id = Some ''i'', ti_device_id = Some ''d'',
     ti_device_pubkey = Some ''p'', ti_signal_identity_key = Some ''s''\<rparr>"
proof -
  have "map (jprop example_card) [''identity_id'', ''device_id'', ''device_pubkey'', ''signal_identity_key''] = map JStr [''i'', ''d'', ''p'', ''s'']"
    by (simp add: example_card_def)
  from printed_read [OF this, of "[]"] show ?thesis by simp
qed

lemma example_accepted: "oc_ok (parseCliOutcome (stringify (JObj [(''ok'', JBool True)])) 0)"
  by (simp add: parseCliOutcome_def del: stringify.simps)

definition ready :: "shell \<Rightarrow> bool" where
  "ready sh \<longleftrightarrow> sh_running sh \<and> sh_deferred sh = 0 \<and> os_modal (sh_current sh) = None \<and> os_input (sh_current sh) = None
     \<and> sh_answers sh = [] \<and> os_contacts (sh_current sh) = [] \<and> os_activeProfile (sh_current sh) = 0
     \<and> (\<exists>p. os_profiles (sh_current sh) = [p] \<and> pv_profileDir p = ''a'' \<and> pv_contactCardPath p = Some ''c'')"

lemma example_started: "ready (example_shell 0)" "map ch_request (sh_children (example_shell 0)) = [DoctorRequest ''a'']"
    "map ch_startup (sh_children (example_shell 0)) = [True]"
  by (simp_all add: example_shell_def ready_def runTuiShell_def askWhatIsThere_def active_def example_profile_def
    new_profile_def createInitialState_def withStoreKeyPresence_def PENDING_SETUP_def at_def start_child_def shell_ops)

lemma ready_closed:
  assumes "ready sh" "sh_children sh = [c]" "ch_request c = DoctorRequest d" "ch_startup c"
  shows "ready (child_closed clock v 0 [] 5 sh)" "sh_children (child_closed clock v 0 [] 5 sh) = []"
    "\<not> os_busy (sh_current (child_closed clock v 0 [] 5 sh))"
proof -
  have p: "parseCliOutcome [] 5 = unreadable_outcome 5" by (simp add: parseCliOutcome_def parse_json_def)
  show "ready (child_closed clock v 0 [] 5 sh)" "sh_children (child_closed clock v 0 [] 5 sh) = []"
    "\<not> os_busy (sh_current (child_closed clock v 0 [] 5 sh))"
    using assms
    by (auto simp: ready_def child_closed_def at_def p settle_command_def note_activity_def note_line_def shell_ops
        applyOutcome_def foldSetup_def update_active_def unreadable_outcome_def split: option.split)
qed

lemma one_key [simp]: "splitKeystrokes ''i'' = [''i'']" "splitKeystrokes ''y'' = [''y'']"
    "decodeKey ''i'' = \<lparr>ke_name = ''i'', ke_ctrl = False, ke_sequence = ''i''\<rparr>"
    "decodeKey ''y'' = \<lparr>ke_name = ''y'', ke_ctrl = False, ke_sequence = ''y''\<rparr>"
  by (simp_all add: splitKeystrokes_def decodeKey_def CTRL_C_def ESC_def CR_def LF_def to_lower_def Let_def)

lemma ready_import:
  assumes "ready sh" "sh_children sh = []" "\<not> os_busy (sh_current sh)"
  shows "ready (key_chunk clock v ''i'' sh)"
    "sh_children (key_chunk clock v ''i'' sh) = [\<lparr>ch_request = ImportRequest ''a'' ''c'', ch_stderr = [], ch_announced = False, ch_startup = False\<rparr>]"
proof -
  obtain p where p: "os_profiles (sh_current sh) = [p]" "pv_profileDir p = ''a''" "pv_contactCardPath p = Some ''c''"
    using assms by (auto simp: ready_def)
  have "mapKey (decodeKey ''i'') (sh_current sh) = Some (Run (ImportRequest ''a'' ''c''))"
    using assms p by (simp add: mapKey_def one_key ready_def ordinal_pane_def paneKeyIntent_def active_def at_def)
  with assms p show "ready (key_chunk clock v ''i'' sh)"
      "sh_children (key_chunk clock v ''i'' sh) = [\<lparr>ch_request = ImportRequest ''a'' ''c'', ch_stderr = [], ch_announced = False, ch_startup = False\<rparr>]"
    by (simp_all add: ready_def key_chunk_def one_key handleKey_def run_effects_def start_child_def run_deferred_def)
qed

definition asked :: "shell \<Rightarrow> trust_modal \<Rightarrow> bool" where
  "asked sh m \<longleftrightarrow> sh_running sh \<and> sh_deferred sh = 0 \<and> os_modal (sh_current sh) = Some m \<and> tm_renderedAt m \<noteq> None
     \<and> os_input (sh_current sh) = None \<and> sh_answers sh = [] \<and> os_contacts (sh_current sh) = []"

lemma ready_asked:
  assumes "ready sh" "sh_children sh = [c]" "ch_request c = ImportRequest d f" "\<not> ch_announced c" "ch_stderr c = []"
    "readIdentifiers chunk = Some i" "\<not> isBelowMinViewport v"
  shows "\<exists>m. asked (child_stderr clock profiles v 0 chunk sh) m \<and> tm_identifiers m = paintableIdentifiers i"
    "map ch_request (sh_children (child_stderr clock profiles v 0 chunk sh)) = [ImportRequest d f]"
  using assms
  by (auto simp: asked_def ready_def child_stderr_def at_def show_identifiers_def paint_def shell_ops unpainted_modal_def
      unpainted_input_def stamp_modal_def)

lemma asked_yes:
  assumes "asked sh m" "trustModalIsComplete m"
  shows "sh_answers (key_chunk clock v ''y'' sh) = [(True, m, sh_awaiting sh)]" "sh_confirmed (key_chunk clock v ''y'' sh) = Some m"
    "os_contacts (sh_current (key_chunk clock v ''y'' sh)) = []" "sh_children (key_chunk clock v ''y'' sh) = sh_children sh"
proof -
  have k: "mapKey (decodeKey ''y'') (sh_current sh) = Some TrustConfirm"
    using assms by (simp add: mapKey_def one_key asked_def)
  have c: "sh_answers (complete clock v sh) = sh_answers sh" "sh_confirmed (complete clock v sh) = sh_confirmed sh"
    "os_contacts (sh_current (complete clock v sh)) = os_contacts (sh_current sh)" "sh_children (complete clock v sh) = sh_children sh" for sh
    by (simp_all add: complete_def)
  show "sh_answers (key_chunk clock v ''y'' sh) = [(True, m, sh_awaiting sh)]" "sh_confirmed (key_chunk clock v ''y'' sh) = Some m"
    "os_contacts (sh_current (key_chunk clock v ''y'' sh)) = []" "sh_children (key_chunk clock v ''y'' sh) = sh_children sh"
    using assms k
    by (auto simp: asked_def key_chunk_def one_key handleKey_def run_effects_def answer_prompt_def run_deferred_def c
       note_activity_def note_line_def shell_ops)
qed

lemma confirmed_closed:
  assumes "sh_children sh = [c]" "ch_request c = ImportRequest d f" "oc_ok (parseCliOutcome out 0)" "sh_confirmed sh = Some m"
    "os_contacts (sh_current sh) = []"
    "tm_identifiers m = \<lparr>ti_identity_id = Some ''i'', ti_device_id = Some ''d'', ti_device_pubkey = Some ''p'', ti_signal_identity_key = Some ''s''\<rparr>"
  shows "map cv_identityId (os_contacts (sh_current (child_closed clock v 0 out 0 sh))) = [''i'']"
    "sh_answers (child_closed clock v 0 out 0 sh) = sh_answers sh"
  using assms
  by (auto simp: child_closed_def at_def settle_command_def note_activity_def note_line_def shell_ops applyOutcome_def
     observeContact_def complete_def)

text \<open>Where the example leads: the confirmation was answered with yes, and the contact is listed.\<close>

lemma example_viewport_fits: "\<not> isBelowMinViewport example_viewport"
  by (simp add: isBelowMinViewport_def example_viewport_def MIN_VIEWPORT_def)

lemma example_confirmed:
  "\<exists>m delivered. (True, m, delivered) \<in> set (sh_answers (example_shell 5)) \<and> ti_identity_id (tm_identifiers m) = Some ''i''"
  "map cv_identityId (os_contacts (sh_current (example_shell 5))) = [''i'']"
proof -
  let ?ids = "\<lparr>ti_identity_id = Some ''i'', ti_device_id = Some ''d'', ti_device_pubkey = Some ''p'', ti_signal_identity_key = Some ''s''\<rparr>"
  let ?step = "shell_step (\<lambda>_. 0) [example_profile] example_viewport"
  have shells: "example_shell 1 = ?step (ChildClosed 0 [] 5) (example_shell 0)" "example_shell 2 = ?step (KeyChunk ''i'') (example_shell 1)"
    "example_shell 3 = ?step (ChildStderr 0 (printIdentifiers example_card @ trustQuestion)) (example_shell 2)"
    "example_shell 4 = ?step (KeyChunk ''y'') (example_shell 3)"
    "example_shell 5 = ?step (ChildClosed 0 (stringify (JObj [(''ok'', JBool True)])) 0) (example_shell 4)"
    by (simp_all add: example_shell_def example_events_def eval_nat_numeral del: shell_step.simps stringify.simps)
  obtain c where c: "sh_children (example_shell 0) = [c]" "ch_request c = DoctorRequest ''a''" "ch_startup c"
    using example_started(2,3) by auto
  have s1: "ready (example_shell 1)" "sh_children (example_shell 1) = []" "\<not> os_busy (sh_current (example_shell 1))"
    unfolding shells(1) shell_step.simps by (rule ready_closed [OF example_started(1) c])+
  have s2: "ready (example_shell 2)" "sh_children (example_shell 2)
      = [\<lparr>ch_request = ImportRequest ''a'' ''c'', ch_stderr = [], ch_announced = False, ch_startup = False\<rparr>]"
    unfolding shells(2) shell_step.simps by (rule ready_import [OF s1])+
  have "\<exists>m. asked (example_shell 3) m \<and> tm_identifiers m = paintableIdentifiers ?ids"
    unfolding shells(3) shell_step.simps by (rule ready_asked [OF s2 _ _ _ example_printed example_viewport_fits]) simp_all
  then obtain m where m: "asked (example_shell 3) m" "tm_identifiers m = ?ids"
    by (auto simp: paintableIdentifiers_def clean_texts)
  have s3: "map ch_request (sh_children (example_shell 3)) = [ImportRequest ''a'' ''c'']"
    unfolding shells(3) shell_step.simps by (rule ready_asked [OF s2 _ _ _ example_printed example_viewport_fits]) simp_all
  have "trustModalIsComplete m" by (simp add: trustModalIsComplete_def present_def TRUST_IDENTIFIER_FIELDS_def m(2))
  note yes = asked_yes [OF m(1) this, of "\<lambda>_. 0" example_viewport]
  have s4: "sh_answers (example_shell 4) = [(True, m, sh_awaiting (example_shell 3))]" "sh_confirmed (example_shell 4) = Some m"
      "os_contacts (sh_current (example_shell 4)) = []" "sh_children (example_shell 4) = sh_children (example_shell 3)"
    unfolding shells(4) shell_step.simps by (rule yes)+
  obtain c' where c': "sh_children (example_shell 4) = [c']" "ch_request c' = ImportRequest ''a'' ''c''" using s3 s4(4) by auto
  have s5: "map cv_identityId (os_contacts (sh_current (example_shell 5))) = [''i'']" "sh_answers (example_shell 5) = sh_answers (example_shell 4)"
    unfolding shells(5) shell_step.simps by (rule confirmed_closed [OF c' example_accepted s4(2,3) m(2)])+
  show "map cv_identityId (os_contacts (sh_current (example_shell 5))) = [''i'']" by (rule s5(1))
  show "\<exists>m delivered. (True, m, delivered) \<in> set (sh_answers (example_shell 5)) \<and> ti_identity_id (tm_identifiers m) = Some ''i''"
    using s4(1) m(2) by (auto simp: s5(2))
qed

subsection \<open>The laws at this session\<close>

theorem session_runs_one_command_witness:
  "map ch_request (sh_children (example_shell 0)) = [DoctorRequest ''a''] \<and> os_busy (sh_current (example_shell 0))"
  using session_runs_one_command [OF example_session [of 0]] example_started(2) by auto

theorem yes_is_said_to_what_was_shown_witness:
  "\<exists>m delivered i frame line. (True, m, delivered) \<in> set (sh_answers (example_shell 5)) \<and> ti_identity_id (tm_identifiers m) = Some i
     \<and> clean i \<and> Painted frame \<in> set (sh_screen (example_shell 5)) \<and> line \<in> set frame \<and> sublist i line"
proof -
  obtain m delivered where m: "(True, m, delivered) \<in> set (sh_answers (example_shell 5))" "ti_identity_id (tm_identifiers m) = Some ''i''"
    using example_confirmed(1) by blast
  have "(''identity_id'', ti_identity_id) \<in> set TRUST_IDENTIFIER_FIELDS" by (simp add: TRUST_IDENTIFIER_FIELDS_def)
  from yes_is_said_to_what_was_shown [OF example_session m(1) this] m(2)
  obtain frame line where "clean ''i''" "Painted frame \<in> set (sh_screen (example_shell 5))" "line \<in> set frame" "sublist ''i'' line"
    by (auto simp: columns_def)
  with m show ?thesis by blast
qed

theorem roster_holds_confirmed_contacts_witness:
  "\<exists>before v i out exitCode child m delivered. at (sh_children before) i = Some child \<and> request_command (ch_request child) = ContactImport
     \<and> oc_ok (parseCliOutcome out exitCode) \<and> (True, m, delivered) \<in> set (sh_answers before) \<and> ti_identity_id (tm_identifiers m) = Some ''i''
     \<and> session_from (\<lambda>_. 0) [example_profile] (shell_step (\<lambda>_. 0) [example_profile] v (ChildClosed i out exitCode) before) (example_shell 5)"
proof -
  obtain c where c: "c \<in> set (os_contacts (sh_current (example_shell 5)))" "cv_identityId c = ''i''"
    using example_confirmed(2) by (cases "os_contacts (sh_current (example_shell 5))") auto
  from roster_holds_confirmed_contacts [OF example_session c(1)] obtain before v i out exitCode child m delivered where
      "at (sh_children before) i = Some child" "request_command (ch_request child) = ContactImport" "oc_ok (parseCliOutcome out exitCode)"
      "(True, m, delivered) \<in> set (sh_answers before)" "ti_identity_id (tm_identifiers m) = Some (cv_identityId c)"
      "session_from (\<lambda>_. 0) [example_profile] (shell_step (\<lambda>_. 0) [example_profile] v (ChildClosed i out exitCode) before) (example_shell 5)"
    by (metis trust_identifiers.select_convs(1))
  with c(2) show ?thesis by metis
qed

theorem ctrl_c_always_leaves_witness:
  "\<not> sh_running (shell_step (\<lambda>_. 0) [example_profile] example_viewport (KeyChunk CTRL_C) (example_shell 0))
   \<and> \<not> (\<forall>l. last (sh_screen (shell_step (\<lambda>_. 0) [example_profile] example_viewport (KeyChunk CTRL_C) (example_shell 0))) \<noteq> StillRunning l)"
proof -
  have "sh_running (example_shell 0)" using example_started(1) by (simp add: ready_def)
  moreover obtain c where "sh_children (example_shell 0) = [c]" using example_started(2) by auto
  ultimately show ?thesis using ctrl_c_always_leaves [OF example_session, of 0 example_viewport] by (simp add: Let_def)
qed

theorem session_text_is_clean_witness:
  "parseOptions (\<lambda>s. s) [] [''--profile'', [CHR 0x1B, CHR ''a''], ''--card'', ''c''] = Inr ([example_profile], [])
   \<and> list_all clean (map pv_profileDir (os_profiles (sh_current (example_shell 5))))"
proof -
  have e: "paintable [CHR 0x1B, CHR ''a''] = ''a''"
    by (simp add: paintable_def continuation_def steersTheDisplay_def)
  have p: "parseOptions (\<lambda>s. s) [] [''--profile'', [CHR 0x1B, CHR ''a''], ''--card'', ''c''] = Inr ([example_profile], [])"
    unfolding parseOptions_def list.map e
    by (simp add: clean_texts HELP_FLAGS_def example_profile_def new_profile_def assign_def)
  from session_text_is_clean [OF p _ example_session] show ?thesis
    using p by (auto simp: clean_state_def clean_profile_def list_all_iff)
qed

theorem confirmation_round_trip_witness:
  "readIdentifiers (''warning'' @ LF @ printIdentifiers example_card @ trustQuestion) = Some
     \<lparr>ti_identity_id = Some ''i'', ti_device_id = Some ''d'', ti_device_pubkey = Some ''p'', ti_signal_identity_key = Some ''s''\<rparr>
   \<and> readConfirmation [] [''y'', LF] = True"
proof -
  have "map (jprop example_card) [''identity_id'', ''device_id'', ''device_pubkey'', ''signal_identity_key''] = map JStr [''i'', ''d'', ''p'', ''s'']"
    by (simp add: example_card_def)
  moreover have "trim ''warning'' = ''warning''"
    by (simp add: trim_def trim_start.simps trim_end.simps white_sequences_def suffix_to_prefix)
  ultimately show ?thesis
    using confirmation_round_trip [of example_card "''i''" "''d''" "''p''" "''s''" "[''warning'']" "[''y'', LF]" True]
    by (simp add: line_identifiers_def trustAnswer_def LF_def)
qed

end
