(* ===== verification/Station.thy ===== *)
theory Station
  imports Operator
begin

text \<open>
  The local web station, \<open>apps/web/src/server\<close>: which requests are let in (\<open>requestGuard.ts\<close>), how a
  command of the command line is run and its outcome read (\<open>cliBridge.ts\<close>), how contact cards pass
  through temporary files (\<open>contactCards.ts\<close>), and what the station knows about its profile and its
  relay while refreshes overlap (\<open>stationStatus.ts\<close>). The requests themselves are in \<open>StationServer\<close>.
\<close>

subsection \<open>The request guard\<close>

text \<open>A header of Node's parser: one value, or the list of the values of a repeated field.\<close>

datatype header_value = One string | Many "string list"

type_synonym headers = "string \<Rightarrow> header_value option"

record guard_rejection =
  gr_status :: nat
  gr_code :: string
  gr_error :: string

definition header :: "headers \<Rightarrow> string \<Rightarrow> string option" where
  "header hs name =
     (case hs name of
        None \<Rightarrow> None
      | Some (One v) \<Rightarrow> Some v
      | Some (Many vs) \<Rightarrow> (case vs of [] \<Rightarrow> None | v # _ \<Rightarrow> Some v))"

definition LOOPBACK_HOSTNAMES :: "string list" where
  "LOOPBACK_HOSTNAMES = [''localhost'', ''127.0.0.1'', ''[::1]'']"

definition allowedHosts :: "string \<Rightarrow> string list" where
  "allowedHosts port = map (\<lambda>name. name @ '':'' @ port) LOOPBACK_HOSTNAMES"

definition allowedOrigins :: "string \<Rightarrow> string list" where
  "allowedOrigins port = map (\<lambda>name. ''http://'' @ name @ '':'' @ port) LOOPBACK_HOSTNAMES"

text \<open>
  The port is the text a number is printed as. Lower-casing is that of ASCII: the names compared with
  have no other letters, and a header's bytes are Latin letters none of which lower-cases to ASCII.
\<close>

definition checkHost :: "headers \<Rightarrow> string \<Rightarrow> guard_rejection option" where
  "checkHost hs port =
     (case header hs ''host'' of
        Some h \<Rightarrow>
          if h \<noteq> [] \<and> map to_lower h \<in> set (allowedHosts port) then None
          else Some \<lparr>gr_status = 421, gr_code = ''HOST_NOT_ALLOWED'', gr_error = ''Station answers only on loopback''\<rparr>
      | None \<Rightarrow> Some \<lparr>gr_status = 421, gr_code = ''HOST_NOT_ALLOWED'', gr_error = ''Station answers only on loopback''\<rparr>)"

definition media_type :: "string \<Rightarrow> string" where
  "media_type contentType = map to_lower (trim (takeWhile (\<lambda>c. c \<noteq> CHR '';'') contentType))"

definition checkApiRequest :: "string \<Rightarrow> headers \<Rightarrow> string \<Rightarrow> guard_rejection option" where
  "checkApiRequest method_name hs port =
     (if (case header hs ''origin'' of None \<Rightarrow> False | Some origin \<Rightarrow> map to_lower origin \<notin> set (allowedOrigins port))
      then Some \<lparr>gr_status = 403, gr_code = ''ORIGIN_NOT_ALLOWED'', gr_error = ''Cross-origin requests are refused''\<rparr>
      else if (case header hs ''sec-fetch-site'' of None \<Rightarrow> False | Some site \<Rightarrow> site \<noteq> ''same-origin'' \<and> site \<noteq> ''none'')
      then Some \<lparr>gr_status = 403, gr_code = ''CROSS_SITE_REFUSED'', gr_error = ''Cross-site requests are refused''\<rparr>
      else if method_name = ''POST'' \<and> map_option media_type (header hs ''content-type'') \<noteq> Some ''application/json''
      then Some \<lparr>gr_status = 415, gr_code = ''UNSUPPORTED_MEDIA_TYPE'', gr_error = ''POST body must be application/json''\<rparr>
      else None)"

subsection \<open>The bridge\<close>

text \<open>A method of the bridge with its operands; the profile is the bridge's own.\<close>

datatype bridge_call =
    CallDoctor
  | CallPoll
  | CallHistory string
  | CallSend string string
  | CallPublish
  | CallExport string
  | CallImport string
  | CallValidate string

fun bridge_argv :: "string \<Rightarrow> bridge_call \<Rightarrow> string list" where
  "bridge_argv profileDir CallDoctor = [''doctor'', ''--profile'', profileDir, ''--json'']"
| "bridge_argv profileDir CallPoll = [''poll'', ''--profile'', profileDir, ''--json'']"
| "bridge_argv profileDir (CallHistory contact) = [''history'', ''--with'', contact, ''--profile'', profileDir, ''--json'']"
| "bridge_argv profileDir (CallSend to body) = [''send'', ''--to'', to, ''--profile'', profileDir, ''--json'']"
| "bridge_argv profileDir CallPublish = [''relay'', ''publish'', ''--profile'', profileDir, ''--json'']"
| "bridge_argv profileDir (CallExport outPath) = [''contact'', ''export'', ''--out'', outPath, ''--profile'', profileDir, ''--json'']"
| "bridge_argv profileDir (CallImport cardPath) =
     [''contact'', ''import'', ''--from'', cardPath, ''--yes'', ''--profile'', profileDir, ''--json'']"
| "bridge_argv profileDir (CallValidate cardPath) =
     [''contact'', ''import'', ''--from'', cardPath, ''--profile'', profileDir, ''--json'']"

text \<open>What is written to the child's standard input before it is closed.\<close>

fun bridge_stdin :: "bridge_call \<Rightarrow> string" where
  "bridge_stdin (CallSend to body) = body"
| "bridge_stdin (CallValidate cardPath) = ''no'' @ [CHR 0x0A]"
| "bridge_stdin _ = []"

text \<open>
  An outcome, whose fields may be any value the child printed: \<open>ok\<close> is then only tested for truth and
  \<open>code\<close> only compared with texts.
\<close>

record web_outcome =
  wo_ok :: json
  wo_code :: json
  wo_exitCode :: int
  wo_data :: json

fun truthy :: "json \<Rightarrow> bool" where
  "truthy JNull = False"
| "truthy (JBool b) = b"
| "truthy (JNum n) = (n \<noteq> 0)"
| "truthy (JStr s) = (s \<noteq> [])"
| "truthy _ = True"

text \<open>\<open>v ?? d\<close>\<close>

definition or_else :: "json \<Rightarrow> json \<Rightarrow> json" where
  "or_else v d = (if v = JNull then d else v)"

text \<open>What is made of the output of a child that closed; it has no exit code when a signal ended it.\<close>

definition closeOutcome :: "string \<Rightarrow> string \<Rightarrow> int option \<Rightarrow> web_outcome" where
  "closeOutcome out err exitCode =
     (let code = (case exitCode of None \<Rightarrow> 0 | Some n \<Rightarrow> n); trimmed = trim out in
      case (if prefix ''{'' trimmed then parse_json trimmed else None) of
        Some doc \<Rightarrow>
          \<lparr>wo_ok = or_else (jprop doc ''ok'') (JBool (code = 0)),
           wo_code = or_else (jprop (jprop doc ''error'') ''code'') (JStr (if code = 0 then ''ok'' else ''ERROR'')),
           wo_exitCode = code, wo_data = or_else (jprop doc ''data'') doc\<rparr>
      | None \<Rightarrow>
          \<lparr>wo_ok = JBool (code = 0), wo_code = JStr (if code = 0 then ''ok'' else ''NON_ZERO_EXIT''), wo_exitCode = code,
           wo_data = JObj [(''stdout'', JStr out), (''stderr'', JStr err)]\<rparr>)"

text \<open>
  \<open>chunk.toString("utf8")\<close>: every longest start of a character that does not go on, and every byte
  that starts none, becomes U+FFFD.
\<close>

definition followers :: "nat \<times> nat \<times> nat \<Rightarrow> bytes \<Rightarrow> nat" where
  "followers lead cs =
     (case lead of (n, lo, hi) \<Rightarrow>
        (case take n cs of
           [] \<Rightarrow> 0
         | d # ds \<Rightarrow> if lo \<le> of_char d \<and> of_char d \<le> hi then Suc (length (takeWhile continuation ds)) else 0))"

function decode_lossy :: "bytes \<Rightarrow> string" where
  "decode_lossy [] = []"
| "decode_lossy (c # cs) =
     (case utf8_lead c of
        None \<Rightarrow> [CHR 0xEF, CHR 0xBF, CHR 0xBD] @ decode_lossy cs
      | Some lead \<Rightarrow>
          let k = followers lead cs in
          (if k = fst lead then c # take k cs else [CHR 0xEF, CHR 0xBF, CHR 0xBD]) @ decode_lossy (drop k cs))"
  by pat_completeness auto
termination by (relation "measure length") auto

text \<open>What the child's pipes deliver is decoded a piece at a time.\<close>

datatype bridge_event =
    ChildOut bytes
  | ChildErr bytes
  | ChildFailed string
  | ChildClosed "int option"
  | TimedOut

record bridge_run =
  br_stdout :: string
  br_stderr :: string
  br_outcome :: "web_outcome option"

definition finish_run :: "web_outcome \<Rightarrow> bridge_run \<Rightarrow> bridge_run" where
  "finish_run outcome s = (case br_outcome s of None \<Rightarrow> s\<lparr>br_outcome := Some outcome\<rparr> | Some _ \<Rightarrow> s)"

definition bridge_failure :: "string \<Rightarrow> string \<Rightarrow> web_outcome" where
  "bridge_failure code message =
     \<lparr>wo_ok = JBool False, wo_code = JStr code, wo_exitCode = 1, wo_data = JObj [(''error'', JStr message)]\<rparr>"

fun bridge_step :: "bridge_event \<Rightarrow> bridge_run \<Rightarrow> bridge_run" where
  "bridge_step (ChildOut chunk) s = s\<lparr>br_stdout := br_stdout s @ decode_lossy chunk\<rparr>"
| "bridge_step (ChildErr chunk) s = s\<lparr>br_stderr := br_stderr s @ decode_lossy chunk\<rparr>"
| "bridge_step (ChildFailed message) s = finish_run (bridge_failure ''SPAWN_ERROR'' message) s"
| "bridge_step (ChildClosed exitCode) s = finish_run (closeOutcome (br_stdout s) (br_stderr s) exitCode) s"
| "bridge_step TimedOut s = finish_run (bridge_failure ''CLI_TIMEOUT'' ''CLI command timed out'') s"

definition bridge_execute :: "bridge_event list \<Rightarrow> web_outcome option" where
  "bridge_execute events = br_outcome (fold bridge_step events \<lparr>br_stdout = [], br_stderr = [], br_outcome = None\<rparr>)"

subsection \<open>Contact cards\<close>

fun objectValue :: "json \<Rightarrow> json option" where
  "objectValue (JObj kvs) = Some (JObj kvs)"
| "objectValue _ = None"

text \<open>\<open>o?.k\<close>, for a member that may be absent.\<close>

definition member :: "json option \<Rightarrow> string \<Rightarrow> json" where
  "member v k = (case v of None \<Rightarrow> JNull | Some doc \<Rightarrow> jprop doc k)"

record card_failure =
  cf_code :: json
  cf_message :: string
  cf_outcome :: "web_outcome option"

record card_success =
  cs_card :: json
  cs_identityId :: string
  cs_deviceId :: string

type_synonym card_result = "card_failure + card_success"

definition invalid_card :: "string \<Rightarrow> card_result" where
  "invalid_card message = Inl \<lparr>cf_code = JStr ''INVALID_CONTACT_CARD'', cf_message = message, cf_outcome = None\<rparr>"

definition read_card :: "json \<Rightarrow> card_result" where
  "read_card v =
     (let card = objectValue v; signalBundle = objectValue (member card ''signal_bundle'');
          deviceRecord = objectValue (member signalBundle ''device_record'') in
      case (card, member deviceRecord ''identity_id'', member deviceRecord ''device_id'') of
        (Some doc, JStr identity, JStr device) \<Rightarrow>
          if member card ''type'' = JStr ''echolet_contact_card'' \<and> member card ''version'' = JNum 1 \<and> identity \<noteq> [] \<and> device \<noteq> []
          then Inr \<lparr>cs_card = doc, cs_identityId = identity, cs_deviceId = device\<rparr>
          else invalid_card ''Contact card is missing public identity fields''
      | _ \<Rightarrow> invalid_card ''Contact card is missing public identity fields'')"

text \<open>A text is parsed first; an absent input reads as \<open>JNull\<close>, which is refused as it is.\<close>

fun parseContactCardJson :: "json \<Rightarrow> card_result" where
  "parseContactCardJson (JStr t) =
     (case parse_json t of None \<Rightarrow> invalid_card ''Contact card is not valid JSON'' | Some v \<Rightarrow> read_card v)"
| "parseContactCardJson v = read_card v"

definition errorDetail :: "web_outcome \<Rightarrow> string option" where
  "errorDetail outcome =
     (case member (objectValue (member (objectValue (wo_data outcome)) ''error'')) ''detail'' of JStr d \<Rightarrow> Some d | _ \<Rightarrow> None)"

definition operationFailure :: "web_outcome \<Rightarrow> card_result" where
  "operationFailure outcome =
     Inl \<lparr>cf_code = wo_code outcome, cf_message = ''Contact card operation failed'', cf_outcome = Some outcome\<rparr>"

definition ioFailure :: card_result where
  "ioFailure = Inl \<lparr>cf_code = JStr ''PERSISTENCE_FAILURE'', cf_message = ''Temporary contact card storage failed'', cf_outcome = None\<rparr>"

text \<open>
  What the card functions ask of the outside, each of which may throw: a fresh temporary directory for
  a name, the exclusive creation of a file, the reading of one, and the bridge. What they did is
  recorded in order.
\<close>

record card_io =
  ci_mkdtemp :: "string \<Rightarrow> string option"
  ci_write :: "string \<Rightarrow> string \<Rightarrow> bool"
  ci_read :: "string \<Rightarrow> string option"
  ci_bridge :: "bridge_call \<Rightarrow> string + web_outcome"

datatype card_action =
    MadeDirectory string
  | WroteFile string string
  | RanCommand bridge_call
  | RemovedDirectory string

definition card_path :: "string \<Rightarrow> string" where
  "card_path directory = directory @ ''/contact-card.json''"

definition exportContactCard :: "card_io \<Rightarrow> card_result \<times> card_action list" where
  "exportContactCard io =
     (case ci_mkdtemp io ''echolet-web-export-'' of
        None \<Rightarrow> (ioFailure, [])
      | Some directory \<Rightarrow>
          let outputPath = card_path directory;
              r = (case ci_bridge io (CallExport outputPath) of
                  Inl _ \<Rightarrow> ioFailure
                | Inr outcome \<Rightarrow>
                    if \<not> truthy (wo_ok outcome) then operationFailure outcome
                    else (case ci_read io outputPath of None \<Rightarrow> ioFailure | Some contents \<Rightarrow> parseContactCardJson (JStr contents)))
          in (r, [MadeDirectory directory, RanCommand (CallExport outputPath), RemovedDirectory directory]))"

text \<open>The common part of an import and a validation: the card in a file of its own, and a command over it.\<close>

definition over_card_file ::
  "card_io \<Rightarrow> string \<Rightarrow> (string \<Rightarrow> bridge_call) \<Rightarrow> (web_outcome \<Rightarrow> card_result) \<Rightarrow> json \<Rightarrow> card_result \<times> card_action list"
where
  "over_card_file io name call judge sheet =
     (case ci_mkdtemp io name of
        None \<Rightarrow> (ioFailure, [])
      | Some directory \<Rightarrow>
          let inputPath = card_path directory; contents = stringify sheet in
          if \<not> ci_write io inputPath contents then (ioFailure, [MadeDirectory directory, RemovedDirectory directory])
          else
            ((case ci_bridge io (call inputPath) of Inl _ \<Rightarrow> ioFailure | Inr outcome \<Rightarrow> judge outcome),
             [MadeDirectory directory, WroteFile inputPath contents, RanCommand (call inputPath), RemovedDirectory directory]))"

definition importContactCardJson :: "card_io \<Rightarrow> json \<Rightarrow> card_result \<times> card_action list" where
  "importContactCardJson io cardJson =
     (case parseContactCardJson cardJson of
        Inl e \<Rightarrow> (Inl e, [])
      | Inr parsed \<Rightarrow>
          over_card_file io ''echolet-web-import-'' CallImport
            (\<lambda>outcome. if \<not> truthy (wo_ok outcome) then operationFailure outcome else Inr parsed) (cs_card parsed))"

definition declinedAfterVerification :: "web_outcome \<Rightarrow> bool" where
  "declinedAfterVerification outcome \<longleftrightarrow>
     wo_code outcome = JStr ''CONTACT_NOT_CONFIRMED''
     \<or> wo_code outcome = JStr ''TRUST_FAILURE'' \<and> errorDetail outcome = Some ''CONTACT_NOT_CONFIRMED''"

definition validateContactCardJson :: "card_io \<Rightarrow> json \<Rightarrow> card_result \<times> card_action list" where
  "validateContactCardJson io cardJson =
     (case parseContactCardJson cardJson of
        Inl e \<Rightarrow> (Inl e, [])
      | Inr parsed \<Rightarrow>
          over_card_file io ''echolet-web-validate-'' CallValidate
            (\<lambda>outcome. if declinedAfterVerification outcome then Inr parsed else operationFailure outcome) (cs_card parsed))"

subsection \<open>What the station knows\<close>

datatype connection_state = RelayConnected | RelayDisconnected | ConnectionUnknown
datatype reachability = Reachable | Unreachable | ReachabilityUnknown
datatype verification_state = ProfileVerified | ProfileUnverified | VerificationUnknown

record station_status =
  ss_profile :: "json option"
  ss_profileState :: verification_state
  ss_relay :: connection_state
  ss_reach :: reachability
  ss_pingMs :: "int option"
  ss_updatedAt :: string
  ss_profileGeneration :: nat
  ss_relayGeneration :: nat

definition new_status :: "int \<Rightarrow> station_status" where
  "new_status now = \<lparr>ss_profile = None, ss_profileState = VerificationUnknown, ss_relay = ConnectionUnknown,
     ss_reach = ReachabilityUnknown, ss_pingMs = None, ss_updatedAt = toISOString now,
     ss_profileGeneration = 0, ss_relayGeneration = 0\<rparr>"

definition touch :: "int \<Rightarrow> station_status \<Rightarrow> station_status" where
  "touch now s = s\<lparr>ss_updatedAt := toISOString now\<rparr>"

text \<open>
  The two halves of each refresh, before and after what it waits for: any number of refreshes may be
  between their halves at once. The generation is the one the first half took.
\<close>

definition start_profile :: "station_status \<Rightarrow> station_status" where
  "start_profile s = s\<lparr>ss_profileGeneration := Suc (ss_profileGeneration s)\<rparr>"

definition reported_profile :: "web_outcome \<Rightarrow> json option" where
  "reported_profile outcome = (if truthy (wo_ok outcome) then objectValue (wo_data outcome) else None)"

definition judged_profile :: "web_outcome \<Rightarrow> verification_state" where
  "judged_profile outcome =
     (if reported_profile outcome \<noteq> None then ProfileVerified
      else if wo_code outcome \<in> {JStr ''SPAWN_ERROR'', JStr ''CLI_TIMEOUT''} then VerificationUnknown
      else ProfileUnverified)"

definition settle_profile :: "nat \<Rightarrow> web_outcome \<Rightarrow> int \<Rightarrow> station_status \<Rightarrow> station_status" where
  "settle_profile generation outcome now s =
     (if generation \<noteq> ss_profileGeneration s then s
      else touch now (s\<lparr>ss_profile := reported_profile outcome, ss_profileState := judged_profile outcome\<rparr>))"

definition start_relay :: "station_status \<Rightarrow> station_status" where
  "start_relay s = s\<lparr>ss_relayGeneration := Suc (ss_relayGeneration s)\<rparr>"

text \<open>\<open>answered\<close> is when a good answer of the health route came, if one did; every failure is its absence.\<close>

definition settle_relay :: "nat \<Rightarrow> int \<Rightarrow> int option \<Rightarrow> int \<Rightarrow> station_status \<Rightarrow> station_status" where
  "settle_relay generation startedAt answered now s =
     (if generation \<noteq> ss_relayGeneration s then s
      else touch now (s\<lparr>ss_reach := (if answered = None then Unreachable else Reachable),
        ss_pingMs := map_option (\<lambda>t. max 0 (t - startedAt)) answered\<rparr>))"

definition recordPoll :: "web_outcome \<Rightarrow> int \<Rightarrow> station_status \<Rightarrow> station_status" where
  "recordPoll outcome now s =
     touch now (s\<lparr>ss_relay :=
       (if truthy (wo_ok outcome) then RelayConnected
        else if wo_code outcome \<in> {JStr ''RELAY_UNAVAILABLE'', JStr ''CLI_TIMEOUT'', JStr ''SPAWN_ERROR''} then RelayDisconnected
        else ConnectionUnknown)\<rparr>)"

datatype status_event =
    ProfileStarted
  | ProfileSettled nat web_outcome int
  | RelayStarted
  | RelaySettled nat int "int option" int
  | PollRecorded web_outcome int

fun status_step :: "status_event \<Rightarrow> station_status \<Rightarrow> station_status" where
  "status_step ProfileStarted s = start_profile s"
| "status_step (ProfileSettled g outcome now) s = settle_profile g outcome now s"
| "status_step RelayStarted s = start_relay s"
| "status_step (RelaySettled g startedAt answered now) s = settle_relay g startedAt answered now s"
| "status_step (PollRecorded outcome now) s = recordPoll outcome now s"

fun connection_name :: "connection_state \<Rightarrow> string" where
  "connection_name RelayConnected = ''connected''"
| "connection_name RelayDisconnected = ''disconnected''"
| "connection_name ConnectionUnknown = ''unknown''"

fun reachability_name :: "reachability \<Rightarrow> string" where
  "reachability_name Reachable = ''reachable''"
| "reachability_name Unreachable = ''unreachable''"
| "reachability_name ReachabilityUnknown = ''unknown''"

fun verification_name :: "verification_state \<Rightarrow> string" where
  "verification_name ProfileVerified = ''verified''"
| "verification_name ProfileUnverified = ''unverified''"
| "verification_name VerificationUnknown = ''unknown''"

definition createStatusPayload :: "string \<Rightarrow> string \<Rightarrow> station_status \<Rightarrow> json" where
  "createStatusPayload label relayUrl s = JObj
     [(''label'', JStr label), (''profile'', (case ss_profile s of None \<Rightarrow> JNull | Some p \<Rightarrow> p)),
      (''profileState'', JStr (verification_name (ss_profileState s))), (''relay'', JStr (connection_name (ss_relay s))),
      (''relayReachability'', JStr (reachability_name (ss_reach s))), (''relayUrl'', JStr relayUrl),
      (''pingMs'', (case ss_pingMs s of None \<Rightarrow> JNull | Some n \<Rightarrow> JNum n)), (''statusUpdatedAt'', JStr (ss_updatedAt s))]"

definition validationFailureHttpStatus :: "json \<Rightarrow> nat" where
  "validationFailureHttpStatus code =
     (if code \<in> {JStr ''INVALID_CONTACT_CARD'', JStr ''TRUST_FAILURE''} then 400
      else if code = JStr ''CLI_TIMEOUT'' then 504 else 500)"

subsection \<open>Laws of the bridge\<close>

lemma decode_valid [simp]: "valid_utf8 b \<Longrightarrow> decode_lossy b = b"
proof (induction b rule: valid_utf8.induct)
  case (2 c cs)
  then obtain n lo hi where l: "utf8_lead c = Some (n, lo, hi)" by (auto split: option.splits)
  from 2(2) l have k: "n \<le> length cs" "list_all continuation (take n cs)" "n = 0 \<or> lo \<le> (of_char (hd cs) :: nat) \<and> (of_char (hd cs) :: nat) \<le> hi"
      "valid_utf8 (drop n cs)" by auto
  have "followers (n, lo, hi) cs = n"
  proof (cases "take n cs")
    case Nil
    with k(1) show ?thesis by (auto simp: followers_def)
  next
    case (Cons d ds)
    then have "n \<noteq> 0" "hd cs = d" "n = Suc (length ds)" using k(1) by (cases cs; cases n; auto)+
    moreover from k(2) Cons have "length (takeWhile continuation ds) = length ds"
      by (intro arg_cong [where f = length]) (simp add: takeWhile_eq_all_conv list_all_iff)
    ultimately show ?thesis using Cons k(3) by (simp add: followers_def)
  qed
  with l 2(1) [OF l refl refl k(4)] show ?case by (simp add: Let_def)
qed simp

text \<open>A two-byte character of an output that the pipe cuts between its bytes does not survive.\<close>

lemma cut_character_lost: "decode_lossy [CHR 0xC3] @ decode_lossy [CHR 0xA9] \<noteq> decode_lossy [CHR 0xC3, CHR 0xA9]"
  by (simp add: utf8_lead_def followers_def Let_def continuation_def)

definition printed :: "bridge_event \<Rightarrow> bytes option" where
  "printed e = (case e of ChildOut c \<Rightarrow> Some c | _ \<Rightarrow> None)"

lemma whole_characters:
  "list_all (\<lambda>e. case printed e of None \<Rightarrow> True | Some c \<Rightarrow> valid_utf8 c) es \<Longrightarrow>
     concat (List.map_filter (\<lambda>e. case e of ChildOut c \<Rightarrow> Some (decode_lossy c) | _ \<Rightarrow> None) es) = concat (List.map_filter printed es)"
proof (induction es)
  case (Cons e es)
  then show ?case by (cases e) (simp_all add: printed_def List.map_filter_simps)
qed (simp add: List.map_filter_simps)

definition terminal :: "bridge_event \<Rightarrow> bool" where
  "terminal e \<longleftrightarrow> (case e of ChildOut _ \<Rightarrow> False | ChildErr _ \<Rightarrow> False | _ \<Rightarrow> True)"

lemma step_outcome:
  "br_outcome s = Some v \<Longrightarrow> br_outcome (bridge_step e s) = Some v"
  "br_outcome s = None \<Longrightarrow> (br_outcome (bridge_step e s) = None) = (\<not> terminal e)"
  by (cases e; simp add: finish_run_def terminal_def)+

lemma steps_settled: "br_outcome s = Some v \<Longrightarrow> br_outcome (fold bridge_step es s) = Some v"
  by (induction es arbitrary: s) (simp_all add: step_outcome(1))

lemma steps_output:
  "list_all (\<lambda>e. \<not> terminal e) es \<Longrightarrow> br_outcome s = None \<Longrightarrow>
     br_outcome (fold bridge_step es s) = None
     \<and> br_stdout (fold bridge_step es s) = br_stdout s @ concat (List.map_filter (\<lambda>e. case e of ChildOut c \<Rightarrow> Some (decode_lossy c) | _ \<Rightarrow> None) es)
     \<and> br_stderr (fold bridge_step es s) = br_stderr s @ concat (List.map_filter (\<lambda>e. case e of ChildErr c \<Rightarrow> Some (decode_lossy c) | _ \<Rightarrow> None) es)"
proof (induction es arbitrary: s)
  case (Cons e es)
  then show ?case by (cases e) (simp_all add: terminal_def List.map_filter_simps)
qed (simp add: List.map_filter_simps)

lemma execute_append: "bridge_execute es = Some v \<Longrightarrow> bridge_execute (es @ fs) = Some v"
  by (simp add: bridge_execute_def steps_settled)

text \<open>
  The bridge settles a command once: whatever the child prints, however it ends and whenever the
  timer fires, there is an outcome as soon as - and only if - the child failed, closed or ran out of
  time, it is decided by the first of these, and nothing that comes later changes it.
\<close>

theorem bridge_settles_once:
  "(bridge_execute events \<noteq> None \<longleftrightarrow> list_ex terminal events)
   \<and> (\<forall>outcome later. bridge_execute events = Some outcome \<longrightarrow> bridge_execute (events @ later) = Some outcome)"
proof -
  have "br_outcome s = None \<Longrightarrow> (br_outcome (fold bridge_step es s) = None) = list_all (\<lambda>e. \<not> terminal e) es" for es s
  proof (induction es arbitrary: s)
    case (Cons e es)
    show ?case
    proof (cases "terminal e")
      case True
      with step_outcome(2) [OF Cons.prems, of e] obtain v where "br_outcome (bridge_step e s) = Some v" by auto
      from steps_settled [OF this, of es] True show ?thesis by simp
    next
      case False
      with step_outcome(2) [OF Cons.prems, of e] Cons.IH [of "bridge_step e s"] show ?thesis by simp
    qed
  qed simp
  then have "bridge_execute events \<noteq> None \<longleftrightarrow> list_ex terminal events"
    by (simp add: bridge_execute_def list_ex_iff list_all_iff)
  then show ?thesis using execute_append by blast
qed

text \<open>A child a signal ended has no exit code; what printed nothing then counts as done.\<close>

lemma signalled_child_reported_ok:
  "truthy (wo_ok (closeOutcome [] err None))" "wo_code (closeOutcome [] err None) = JStr ''ok''"
  by (simp_all add: closeOutcome_def trim_def trim_start.simps trim_end.simps white_sequences_def)

lemma close_printed:
  assumes "wf_json (JObj kvs)"
  shows "closeOutcome (stringify (JObj kvs) @ [CHR 0x0A]) err (Some n) =
    \<lparr>wo_ok = or_else (jprop (JObj kvs) ''ok'') (JBool (n = 0)),
     wo_code = or_else (jprop (jprop (JObj kvs) ''error'') ''code'') (JStr (if n = 0 then ''ok'' else ''ERROR'')),
     wo_exitCode = n, wo_data = or_else (jprop (JObj kvs) ''data'') (JObj kvs)\<rparr>"
proof -
  obtain body where b: "stringify (JObj kvs) = CHR ''{'' # body @ ''}''" by simp
  then have "trim (stringify (JObj kvs) @ [CHR 0x0A]) = stringify (JObj kvs)" using trim_line [of body] by simp
  moreover have "prefix ''{'' (stringify (JObj kvs))" unfolding b by simp
  ultimately show ?thesis using parse_stringify [OF assms] by (simp add: closeOutcome_def Let_def del: stringify.simps)
qed

text \<open>
  No piece ends within a character: so it is with every way of cutting a text of seven-bit characters.
\<close>

definition uncut :: "bytes \<Rightarrow> bridge_event list \<Rightarrow> bool" where
  "uncut line es \<longleftrightarrow> concat (List.map_filter printed es) = line
     \<and> (list_all (\<lambda>c. (of_char c :: nat) < 128) line
        \<or> list_all (\<lambda>e. case printed e of None \<Rightarrow> True | Some c \<Rightarrow> valid_utf8 c) es)"

lemma ascii_pieces:
  "list_all (\<lambda>c. (of_char c :: nat) < 128) (concat (List.map_filter printed es)) \<Longrightarrow>
     list_all (\<lambda>e. case printed e of None \<Rightarrow> True | Some c \<Rightarrow> valid_utf8 c) es"
proof (induction es)
  case (Cons e es)
  then show ?case by (cases "printed e") (auto simp: List.map_filter_simps list_all_iff intro!: valid_utf8_ascii)
qed simp

lemma uncut_read:
  "uncut line es \<Longrightarrow> concat (List.map_filter (\<lambda>e. case e of ChildOut c \<Rightarrow> Some (decode_lossy c) | _ \<Rightarrow> None) es) = line"
  using ascii_pieces [of es] whole_characters [of es] by (auto simp: uncut_def)

text \<open>
  C23. The station reads what the command line reports: when the line a command prints arrives in any
  pieces, of which none ends within a character, with anything written beside it, and the child exits
  before it fails or the time is up, the outcome is a success with the printed result - the whole
  printed document when the result is null - or a failure with the code and exit code the failure is
  classified as, and nothing that comes later changes it.
\<close>

theorem bridge_reads_command_line:
  assumes "strict_main C args w = ((line, code), w')" "strict_run C args w = (r, w')"
    "case r of Inr v \<Rightarrow> wf_json v | Inl _ \<Rightarrow> True"
    "list_all (\<lambda>e. \<not> terminal e) events" "uncut line events"
  shows "\<exists>outcome. bridge_execute (events @ ChildClosed (Some (int code)) # later) = Some outcome \<and>
    (case r of
       Inr v \<Rightarrow> truthy (wo_ok outcome) \<and> wo_exitCode outcome = 0
         \<and> wo_data outcome = (if v = JNull then JObj [(''ok'', JBool True), (''data'', JNull)] else v)
     | Inl e \<Rightarrow> \<not> truthy (wo_ok outcome) \<and> wo_code outcome = JStr (fst (classify e))
         \<and> wo_exitCode outcome = int (snd (classify e)))"
proof -
  let ?s = "fold bridge_step events \<lparr>br_stdout = [], br_stderr = [], br_outcome = None\<rparr>"
  have s: "br_outcome ?s = None" "br_stdout ?s = line"
    using steps_output [OF assms(4), of "\<lparr>br_stdout = [], br_stderr = [], br_outcome = None\<rparr>"] uncut_read [OF assms(5)] by simp_all
  then have "bridge_execute (events @ [ChildClosed (Some (int code))]) = Some (closeOutcome line (br_stderr ?s) (Some (int code)))"
    by (simp add: bridge_execute_def finish_run_def)
  from execute_append [OF this, of later] have x: "bridge_execute (events @ ChildClosed (Some (int code)) # later)
      = Some (closeOutcome line (br_stderr ?s) (Some (int code)))" by simp
  show ?thesis
  proof (cases r)
    case (Inr v)
    with assms(1,2) have l: "line = stringify (JObj [(''ok'', JBool True), (''data'', v)]) @ [CHR 0x0A]" "code = 0"
      by (auto simp: strict_main_def simp del: stringify.simps)
    have "wf_json (JObj [(''ok'', JBool True), (''data'', v)])" using assms(3) Inr by simp
    from close_printed [OF this, of "br_stderr ?s" 0] l x Inr show ?thesis
      by (simp add: or_else_def del: stringify.simps)
  next
    case (Inl e)
    let ?doc = "[(''ok'', JBool False), (''error'', JObj [(''code'', JStr (fst (classify e)))])]"
    from Inl assms(1,2) have l: "line = stringify (JObj ?doc) @ [CHR 0x0A]" "code = snd (classify e)"
      by (auto simp: strict_main_def simp del: stringify.simps)
    have "wf_json (JObj ?doc)" by simp
    from close_printed [OF this, of "br_stderr ?s" "int (snd (classify e))"] l x Inl show ?thesis
      by (simp add: or_else_def del: stringify.simps)
  qed
qed

theorem bridge_reads_command_line_witness:
  "\<not> (\<exists>(C :: nat cli) w. \<forall>outcome. bridge_execute ([ChildErr ''x'', ChildOut (fst (fst (strict_main C [] w)))]
       @ [ChildClosed (Some (int (snd (fst (strict_main C [] w)))))]) \<noteq> Some outcome \<or> wo_code outcome \<noteq> JStr ''INVALID_ARGUMENTS'')"
proof (safe)
  fix C :: "nat cli" and w
  have run: "strict_run C [] w = (Inl invalidArguments, w)"
    by (simp add: strict_run_def andThen_def parseCommand_def commandOptions_def inherited_members_def)
  obtain line code w' where m: "strict_main C [] w = ((line, code), w')" by (metis prod.exhaust)
  with run have "w' = w" by (simp add: strict_main_def)
  with m have m': "strict_main C [] w = ((line, code), w)" by simp
  assume "\<forall>outcome. bridge_execute ([ChildErr ''x'', ChildOut (fst (fst (strict_main C [] w)))]
       @ [ChildClosed (Some (int (snd (fst (strict_main C [] w)))))]) \<noteq> Some outcome \<or> wo_code outcome \<noteq> JStr ''INVALID_ARGUMENTS''"
  moreover have v: "valid_utf8 line" using m' run
    by (auto simp: strict_main_def invalidArguments_def inputFailure_def quote_def escape_char_def intro!: valid_utf8_ascii)
  moreover have "\<exists>outcome. bridge_execute ([ChildErr ''x'', ChildOut line] @ [ChildClosed (Some (int code))]) = Some outcome
      \<and> wo_code outcome = JStr ''INVALID_ARGUMENTS''"
    using v bridge_reads_command_line [OF m' run, of "[ChildErr ''x'', ChildOut line]" "[]"]
    by (auto simp: terminal_def List.map_filter_simps printed_def uncut_def invalidArguments_def inputFailure_def)
  ultimately show False using m by auto
qed

subsection \<open>A validation changes nothing\<close>

lemma declined_import:
  assumes "importContact E sheet (Some (\<lambda>_. Inr False)) w = (i, w1)"
  shows "w_records w1 = w_records w \<and> w_relay w1 = w_relay w \<and> i \<noteq> Inr True"
proof (cases "bindR (copyJson sheet) (zod_parse cardSchema)")
  case (Inl e)
  with assms show ?thesis by (auto simp: importContact_def andThen_def)
next
  case (Inr doc)
  let ?wire = "jprop doc ''signal_bundle''"
  let ?r = "jprop ?wire ''device_record''"
  let ?v = "importVerifiedSignalBundleV2 (en_lib E) (en_prims E) ?wire (str_prop ?r ''identity_id'') (str_prop ?r ''device_id'') (en_clock E (w_tick w))"
  have "importContact E sheet (Some (\<lambda>_. Inr False)) w
      = (case ?v of Inl e \<Rightarrow> Inl e | Inr x \<Rightarrow> Inr False, w\<lparr>w_tick := Suc (w_tick w)\<rparr>)"
    by (cases ?v) (simp_all add: importContact_def Inr Let_def andThen_def drawW_def case_prod_unfold)
  with assms show ?thesis by (auto split: sum.splits)
qed

text \<open>
  C22. Validating a card leaves the profile alone: the command the station runs, with the answer it
  writes - however the pipe cuts it - reaches the import of exactly that file, writes no record, asks
  the relay for nothing and never reports success, whatever the card holds.
\<close>

theorem validation_changes_nothing:
  assumes "cardPath \<notin> {[], optionSeparator}" "profileDir \<noteq> optionSeparator" "trim profileDir \<noteq> []"
    "concat (in_chunks (cl_stdin C)) = bridge_stdin (CallValidate cardPath)"
    "strict_run C (bridge_argv profileDir (CallValidate cardPath)) w = (r, w')"
  shows "w_records w' = w_records w \<and> w_relay w' = w_relay w \<and> (\<exists>e. r = Inl e)
    \<and> strict_run C (bridge_argv profileDir (CallValidate cardPath)) w
        = cmd_contact_import C [(''from'', Some cardPath), (''profile'', Some profileDir), (''json'', None)] w"
proof -
  let ?r = "ImportRequest profileDir cardPath"
  let ?given = "[(''from'', Some cardPath), (''profile'', Some profileDir), (''json'', None)]"
  have v: "request_options ?r = ?given" by (simp add: request_options_def)
  have "trim [] = []" by (simp add: trim_def trim_start.simps trim_end.simps white_sequences_def)
  with assms(3) have "profileDir \<noteq> []" by metis
  then have "parseCommand (buildArgv ?r) = Inr (''contact import'', ?given)"
      "rejectUnexpectedMissing ''contact import'' ?given = Inr ()"
    using request_reaches_parser [of ?r profileDir] request_complete [of ?r] assms(1-3) v by simp_all
  then have run: "strict_run C (bridge_argv profileDir (CallValidate cardPath)) w = cmd_contact_import C ?given w"
    using \<open>profileDir \<noteq> []\<close> assms(3)
    by (simp add: strict_run_def andThen_def execute_def required_def option_text_def)
  have "list_all (\<lambda>c. \<not> line_break c) ''no''" by (simp add: line_break_def)
  from confirmation_heard [OF this, of "[]" "in_chunks (cl_stdin C)"] assms(4)
  have "readConfirmation [] (in_chunks (cl_stdin C)) = affirmative ''no''" by simp
  moreover have "trim ''no'' = ''no''" by (simp add: trim_def trim_start.simps trim_end.simps white_sequences_def suffix_to_prefix)
  ultimately have ask: "asks_operator C ?given = (\<lambda>_. Inr False)"
    by (simp add: asks_operator_def fun_eq_iff affirmative_def to_lower_def)
  from assms(5) run have "cmd_contact_import C ?given w = (r, w')" by simp
  then show ?thesis
  proof (cases rule: contact_import_cases)
    case 1
    with run show ?thesis by auto
  next
    case (2 sheet i w1)
    with declined_import [of "ms_env (cl_messenger C)" sheet w i w1] ask run show ?thesis
      by (auto split: sum.splits bool.splits)
  qed
qed

theorem validation_changes_nothing_witness:
  "\<forall>(C :: nat cli) w. w_records (snd (strict_run (with_input C (bridge_stdin (CallValidate ''/c''))) (bridge_argv ''/p'' (CallValidate ''/c'')) w))
     = w_records w"
proof (intro allI)
  fix C :: "nat cli" and w
  let ?C = "with_input C (bridge_stdin (CallValidate ''/c''))"
  obtain r w' where run: "strict_run ?C (bridge_argv ''/p'' (CallValidate ''/c'')) w = (r, w')" by fastforce
  have "trim ''/p'' = ''/p''" by (simp add: trim_def trim_start.simps trim_end.simps white_sequences_def suffix_to_prefix)
  with validation_changes_nothing [OF _ _ _ _ run] have "w_records w' = w_records w"
    by (simp add: with_input_def optionSeparator_def)
  then show "w_records (snd (strict_run ?C (bridge_argv ''/p'' (CallValidate ''/c'')) w)) = w_records w" unfolding run by simp
qed

subsection \<open>Laws of the cards\<close>

definition directories :: "(card_action \<Rightarrow> string option) \<Rightarrow> card_action list \<Rightarrow> string list" where
  "directories f acts = List.map_filter f acts"

fun made :: "card_action \<Rightarrow> string option" where
  "made (MadeDirectory d) = Some d"
| "made _ = None"

fun removed :: "card_action \<Rightarrow> string option" where
  "removed (RemovedDirectory d) = Some d"
| "removed _ = None"

text \<open>What one of the three operations did is nothing, or a directory's life from its creation to its removal.\<close>

definition tidy :: "card_action list \<Rightarrow> bool" where
  "tidy acts \<longleftrightarrow> acts = [] \<or> (\<exists>d between. acts = MadeDirectory d # between @ [RemovedDirectory d]
     \<and> list_all (\<lambda>a. made a = None \<and> removed a = None) between)"

lemma tidy_over_file: "tidy (snd (over_card_file io name call judge sheet))"
proof (cases "ci_mkdtemp io name")
  case (Some d)
  have "tidy [MadeDirectory d, RemovedDirectory d]" unfolding tidy_def by (rule disjI2) (rule exI [of _ d], rule exI [of _ "[]"], simp)
  moreover have "tidy [MadeDirectory d, WroteFile p c, RanCommand b, RemovedDirectory d]" for p c b
    unfolding tidy_def by (rule disjI2) (rule exI [of _ d], rule exI [of _ "[WroteFile p c, RanCommand b]"], simp)
  ultimately show ?thesis by (simp add: over_card_file_def Some Let_def)
qed (simp add: over_card_file_def tidy_def)

text \<open>The command that ran over a card's file, if one did, ran over the card as it was read.\<close>

lemma over_file_result:
  assumes "over_card_file io name call judge sheet = (Inr parsed, acts)" "\<And>r. judge r = (if good r then Inr x else operationFailure r)"
  shows "parsed = x \<and> (\<exists>d outcome. acts = [MadeDirectory d, WroteFile (card_path d) (stringify sheet), RanCommand (call (card_path d)), RemovedDirectory d]
    \<and> ci_bridge io (call (card_path d)) = Inr outcome \<and> good outcome)"
  using assms
  by (auto simp: over_card_file_def Let_def ioFailure_def operationFailure_def split: option.splits if_splits sum.splits)

lemma read_card_result:
  assumes "read_card v = Inr parsed"
  shows "\<exists>kvs. v = JObj kvs \<and> cs_card parsed = v
    \<and> cs_identityId parsed = str_prop (jprop (jprop v ''signal_bundle'') ''device_record'') ''identity_id''
    \<and> cs_deviceId parsed = str_prop (jprop (jprop v ''signal_bundle'') ''device_record'') ''device_id''
    \<and> cs_identityId parsed \<noteq> [] \<and> jprop v ''type'' = JStr ''echolet_contact_card'' \<and> jprop v ''version'' = JNum 1"
proof -
  have m: "member (objectValue x) k = jprop x k" "member (Some x) k = jprop x k" for x k by (cases x; simp add: member_def)+
  show ?thesis using assms
    by (cases v) (auto simp: read_card_def Let_def m invalid_card_def str_prop_def simp del: jprop.simps split: json.splits if_splits)
qed

text \<open>
  A card file never outlives the request it was written for: exporting, importing and validating
  each either touch nothing or create one directory and remove it last, whatever fails in between -
  and an import or a validation that succeeds ran its command over a file holding exactly the card
  whose identity and device it then reports.
\<close>

theorem card_files_are_temporary:
  "tidy (snd (exportContactCard io)) \<and> tidy (snd (importContactCardJson io input)) \<and> tidy (snd (validateContactCardJson io input))
   \<and> (\<forall>parsed acts. importContactCardJson io input = (Inr parsed, acts) \<longrightarrow>
        parseContactCardJson input = Inr parsed
        \<and> (\<exists>d outcome. acts = [MadeDirectory d, WroteFile (card_path d) (stringify (cs_card parsed)), RanCommand (CallImport (card_path d)), RemovedDirectory d]
             \<and> ci_bridge io (CallImport (card_path d)) = Inr outcome \<and> truthy (wo_ok outcome)))
   \<and> (\<forall>parsed acts. validateContactCardJson io input = (Inr parsed, acts) \<longrightarrow>
        parseContactCardJson input = Inr parsed
        \<and> (\<exists>d outcome. acts = [MadeDirectory d, WroteFile (card_path d) (stringify (cs_card parsed)), RanCommand (CallValidate (card_path d)), RemovedDirectory d]
             \<and> ci_bridge io (CallValidate (card_path d)) = Inr outcome \<and> declinedAfterVerification outcome))"
proof (intro conjI allI impI)
  have "tidy [MadeDirectory d, RanCommand b, RemovedDirectory d]" for d b
    unfolding tidy_def by (rule disjI2) (rule exI [of _ d], rule exI [of _ "[RanCommand b]"], simp)
  moreover have "tidy []" by (simp add: tidy_def)
  ultimately show "tidy (snd (exportContactCard io))" by (simp add: exportContactCard_def Let_def split: option.split)
  show "tidy (snd (importContactCardJson io input))" "tidy (snd (validateContactCardJson io input))"
    using tidy_over_file \<open>tidy []\<close> by (simp_all add: importContactCardJson_def validateContactCardJson_def split: sum.split)
next
  fix parsed acts
  assume "importContactCardJson io input = (Inr parsed, acts)"
  then obtain x where x: "parseContactCardJson input = Inr x"
      "over_card_file io ''echolet-web-import-'' CallImport (\<lambda>outcome. if \<not> truthy (wo_ok outcome) then operationFailure outcome else Inr x) (cs_card x)
        = (Inr parsed, acts)"
    by (auto simp: importContactCardJson_def split: sum.splits)
  have "parsed = x \<and> (\<exists>d outcome. acts = [MadeDirectory d, WroteFile (card_path d) (stringify (cs_card x)), RanCommand (CallImport (card_path d)), RemovedDirectory d]
        \<and> ci_bridge io (CallImport (card_path d)) = Inr outcome \<and> truthy (wo_ok outcome))"
    by (rule over_file_result [OF x(2)]) simp
  with x(1)
  show "parseContactCardJson input = Inr parsed"
      "\<exists>d outcome. acts = [MadeDirectory d, WroteFile (card_path d) (stringify (cs_card parsed)), RanCommand (CallImport (card_path d)), RemovedDirectory d]
        \<and> ci_bridge io (CallImport (card_path d)) = Inr outcome \<and> truthy (wo_ok outcome)" by auto
next
  fix parsed acts
  assume "validateContactCardJson io input = (Inr parsed, acts)"
  then obtain x where x: "parseContactCardJson input = Inr x"
      "over_card_file io ''echolet-web-validate-'' CallValidate
         (\<lambda>outcome. if declinedAfterVerification outcome then Inr x else operationFailure outcome) (cs_card x) = (Inr parsed, acts)"
    by (auto simp: validateContactCardJson_def split: sum.splits)
  from over_file_result [OF x(2) refl] x(1)
  show "parseContactCardJson input = Inr parsed"
      "\<exists>d outcome. acts = [MadeDirectory d, WroteFile (card_path d) (stringify (cs_card parsed)), RanCommand (CallValidate (card_path d)), RemovedDirectory d]
        \<and> ci_bridge io (CallValidate (card_path d)) = Inr outcome \<and> declinedAfterVerification outcome" by auto
qed

theorem card_files_are_temporary_witness:
  "\<exists>io parsed acts. importContactCardJson io (JStr (stringify (JObj [(''type'', JStr ''echolet_contact_card''), (''version'', JNum 1),
       (''signal_bundle'', JObj [(''device_record'', JObj [(''identity_id'', JStr ''i''), (''device_id'', JStr ''d'')])])]))) = (Inr parsed, acts)
     \<and> cs_identityId parsed = ''i'' \<and> last acts = RemovedDirectory ''/tmp/x''"
proof -
  let ?card = "JObj [(''type'', JStr ''echolet_contact_card''), (''version'', JNum 1),
       (''signal_bundle'', JObj [(''device_record'', JObj [(''identity_id'', JStr ''i''), (''device_id'', JStr ''d'')])])]"
  let ?io = "\<lparr>ci_mkdtemp = \<lambda>_. Some ''/tmp/x'', ci_write = \<lambda>_ _. True, ci_read = \<lambda>_. None, ci_bridge = \<lambda>_. Inr (closeOutcome [] [] None)\<rparr>"
  have c: "parseContactCardJson (JStr (stringify ?card)) = Inr \<lparr>cs_card = ?card, cs_identityId = ''i'', cs_deviceId = ''d''\<rparr>"
    by (simp add: read_card_def member_def del: stringify.simps)
  then obtain parsed acts where i: "importContactCardJson ?io (JStr (stringify ?card)) = (Inr parsed, acts)"
    by (simp add: importContactCardJson_def over_card_file_def signalled_child_reported_ok Let_def del: stringify.simps parseContactCardJson.simps)
  with card_files_are_temporary [of ?io "JStr (stringify ?card)"] c i have "parsed = \<lparr>cs_card = ?card, cs_identityId = ''i'', cs_deviceId = ''d''\<rparr>"
      "\<exists>d. last acts = RemovedDirectory d \<and> hd acts = MadeDirectory d" by (auto simp del: stringify.simps parseContactCardJson.simps)
  moreover from i c have "hd acts = MadeDirectory ''/tmp/x''"
    by (auto simp: importContactCardJson_def over_card_file_def signalled_child_reported_ok Let_def simp del: stringify.simps parseContactCardJson.simps)
  ultimately show ?thesis using i by (intro exI [of _ ?io] exI [of _ parsed] exI [of _ acts]) auto
qed

subsection \<open>The newest refresh is what is shown\<close>

lemma count_starts:
  "ss_profileGeneration (fold status_step es s) = ss_profileGeneration s + length (filter (\<lambda>e. e = ProfileStarted) es)"
  "ss_relayGeneration (fold status_step es s) = ss_relayGeneration s + length (filter (\<lambda>e. e = RelayStarted) es)"
proof (induction es arbitrary: s)
  case (Cons e es)
  { case 1 show ?case using Cons(1) by (cases e) (simp_all add: start_profile_def settle_profile_def start_relay_def settle_relay_def recordPoll_def touch_def) }
  { case 2 show ?case using Cons(2) by (cases e) (simp_all add: start_profile_def settle_profile_def start_relay_def settle_relay_def recordPoll_def touch_def) }
qed simp_all

definition settles_profile :: "nat \<Rightarrow> status_event \<Rightarrow> bool" where
  "settles_profile g e \<longleftrightarrow> (case e of ProfileSettled h outcome now \<Rightarrow> h = g | _ \<Rightarrow> False)"

definition settles_relay :: "nat \<Rightarrow> status_event \<Rightarrow> bool" where
  "settles_relay g e \<longleftrightarrow> (case e of RelaySettled h startedAt answered now \<Rightarrow> h = g | _ \<Rightarrow> False)"

lemma step_keeps_profile:
  "e \<noteq> ProfileStarted \<Longrightarrow> \<not> settles_profile (ss_profileGeneration s) e \<Longrightarrow>
     ss_profileGeneration (status_step e s) = ss_profileGeneration s \<and> ss_profile (status_step e s) = ss_profile s
     \<and> ss_profileState (status_step e s) = ss_profileState s"
  by (cases e) (simp_all add: settles_profile_def settle_profile_def start_relay_def settle_relay_def recordPoll_def touch_def)

lemma step_keeps_relay:
  "e \<noteq> RelayStarted \<Longrightarrow> \<not> settles_relay (ss_relayGeneration s) e \<Longrightarrow>
     ss_relayGeneration (status_step e s) = ss_relayGeneration s \<and> ss_reach (status_step e s) = ss_reach s
     \<and> ss_pingMs (status_step e s) = ss_pingMs s"
  by (cases e) (simp_all add: settles_relay_def settle_profile_def start_profile_def settle_relay_def recordPoll_def touch_def)

lemma later_profile:
  "ProfileStarted \<notin> set es \<Longrightarrow> list_all (\<lambda>e. \<not> settles_profile (ss_profileGeneration s) e) es \<Longrightarrow>
     ss_profile (fold status_step es s) = ss_profile s \<and> ss_profileState (fold status_step es s) = ss_profileState s"
proof (induction es arbitrary: s)
  case (Cons e es)
  with step_keeps_profile [of e s] Cons.IH [of "status_step e s"] show ?case by auto
qed simp

lemma later_relay:
  "RelayStarted \<notin> set es \<Longrightarrow> list_all (\<lambda>e. \<not> settles_relay (ss_relayGeneration s) e) es \<Longrightarrow>
     ss_reach (fold status_step es s) = ss_reach s \<and> ss_pingMs (fold status_step es s) = ss_pingMs s"
proof (induction es arbitrary: s)
  case (Cons e es)
  with step_keeps_relay [of e s] Cons.IH [of "status_step e s"] show ?case by auto
qed simp

text \<open>
  The newest refresh is what the station shows: once the last refresh of the profile that was
  started has settled, the profile and its state are what that one reported, and a late answer of an
  older one - in whatever order they arrive, with whatever polls and relay probes between - changes
  neither; the reachability and latency of the relay likewise, and a latency is never negative.
\<close>

theorem newest_refresh_is_shown:
  assumes "ProfileStarted \<notin> set later" "g = length (filter (\<lambda>e. e = ProfileStarted) earlier)"
    "list_all (\<lambda>e. \<not> settles_profile g e) later"
    "RelayStarted \<notin> set later'" "h = length (filter (\<lambda>e. e = RelayStarted) earlier')"
    "list_all (\<lambda>e. \<not> settles_relay h e) later'"
  shows "(case fold status_step (earlier @ ProfileSettled g outcome now # later) (new_status t) of s \<Rightarrow>
      ss_profile s = reported_profile outcome \<and> ss_profileState s = judged_profile outcome)
    \<and> (case fold status_step (earlier' @ RelaySettled h startedAt answered now # later') (new_status t) of s \<Rightarrow>
      (ss_reach s = Reachable \<longleftrightarrow> answered \<noteq> None) \<and> (case ss_pingMs s of None \<Rightarrow> answered = None | Some ms \<Rightarrow> 0 \<le> ms))"
proof (rule conjI)
  let ?s = "settle_profile g outcome now (fold status_step earlier (new_status t))"
  have "ss_profileGeneration (fold status_step earlier (new_status t)) = g" using count_starts(1) assms(2) by (simp add: new_status_def)
  then have "ss_profileGeneration ?s = g" "ss_profile ?s = reported_profile outcome" "ss_profileState ?s = judged_profile outcome"
    by (simp_all add: settle_profile_def touch_def)
  with later_profile [OF assms(1), of ?s] assms(3)
  show "case fold status_step (earlier @ ProfileSettled g outcome now # later) (new_status t) of s \<Rightarrow>
      ss_profile s = reported_profile outcome \<and> ss_profileState s = judged_profile outcome" by simp
next
  let ?s = "settle_relay h startedAt answered now (fold status_step earlier' (new_status t))"
  have "ss_relayGeneration (fold status_step earlier' (new_status t)) = h" using count_starts(2) assms(5) by (simp add: new_status_def)
  then have "ss_relayGeneration ?s = h" "(ss_reach ?s = Reachable) = (answered \<noteq> None)"
      "case ss_pingMs ?s of None \<Rightarrow> answered = None | Some ms \<Rightarrow> 0 \<le> ms"
    by (cases answered; simp add: settle_relay_def touch_def)+
  with later_relay [OF assms(4), of ?s] assms(6)
  show "case fold status_step (earlier' @ RelaySettled h startedAt answered now # later') (new_status t) of s \<Rightarrow>
      (ss_reach s = Reachable \<longleftrightarrow> answered \<noteq> None) \<and> (case ss_pingMs s of None \<Rightarrow> answered = None | Some ms \<Rightarrow> 0 \<le> ms)" by simp
qed

theorem newest_refresh_is_shown_witness:
  "ss_profileState (fold status_step [ProfileStarted, ProfileStarted, ProfileSettled 2 (closeOutcome [] [] None) 0,
     ProfileSettled 1 (bridge_failure ''SPAWN_ERROR'' ''x'') 0] (new_status 0)) = judged_profile (closeOutcome [] [] None)"
  using newest_refresh_is_shown [of "[ProfileSettled 1 (bridge_failure ''SPAWN_ERROR'' ''x'') 0]" 2 "[ProfileStarted, ProfileStarted]" "[]" 0 "[]"
      "closeOutcome [] [] None" 0 0]
  by (simp add: settles_profile_def)

end
