(* ===== verification/StationServer.thy ===== *)
theory StationServer
  imports Station
begin

text \<open>
  The station's HTTP server, \<open>apps/web/src/server/server.ts\<close>: its command line, the telemetry buffer and
  the events it pushes, the background poll, the reading of a request's body, and every route, with
  the commands a request leads to recorded in order.
\<close>

subsection \<open>Paths\<close>

text \<open>
  \<open>path.resolve\<close> over an absolute directory: a relative path is taken below it, an absolute one
  replaces it; empty and dot segments go, and a double dot takes the segment before it along.
\<close>

fun segments :: "string \<Rightarrow> string list" where
  "segments [] = [[]]"
| "segments (c # s) =
     (if c = CHR ''/'' then [] # segments s
      else (case segments s of [] \<Rightarrow> [[c]] | x # xs \<Rightarrow> (c # x) # xs))"

fun normal_segments :: "string list \<Rightarrow> string list \<Rightarrow> string list" where
  "normal_segments kept [] = rev kept"
| "normal_segments kept (x # xs) =
     (if x = [] \<or> x = ''.'' then normal_segments kept xs
      else if x = ''..'' then normal_segments (tl kept) xs
      else normal_segments (x # kept) xs)"

definition normal_path :: "string \<Rightarrow> string" where
  "normal_path p = CHR ''/'' # join ''/'' (normal_segments [] (segments p))"

definition resolve_path :: "string \<Rightarrow> string \<Rightarrow> string" where
  "resolve_path directory p = (if prefix ''/'' p then normal_path p else normal_path (directory @ ''/'' @ p))"

text \<open>\<open>extname\<close>: from the last dot of the last segment, unless that is its first character.\<close>

definition extname :: "string \<Rightarrow> string" where
  "extname p =
     (let base = last (segments p); tail = rev (takeWhile (\<lambda>c. c \<noteq> CHR ''.'') (rev base)) in
      if length tail + 1 < length base then CHR ''.'' # tail else [])"

subsection \<open>The command line of the server\<close>

text \<open>\<open>parseInt(s, 10)\<close>: None is NaN. The port is only printed and listened on.\<close>

definition parse_int10 :: "string \<Rightarrow> int option" where
  "parse_int10 s =
     (let t = trim_start s;
          (neg, u) = (case t of c # r \<Rightarrow> if c = CHR ''-'' then (True, r) else if c = CHR ''+'' then (False, r) else (False, t) | [] \<Rightarrow> (False, []));
          ds = takeWhile is_digit u
      in if ds = [] then None else Some ((if neg then -1 else 1) * int (foldl (\<lambda>n c. n * 10 + (of_char c - 48)) 0 ds)))"

record server_config =
  sc_port :: "int option"
  sc_profileDir :: string
  sc_label :: string
  sc_relayUrl :: string
  sc_storeKeyEnv :: string
  sc_cliPath :: string

definition port_text :: "int option \<Rightarrow> string" where
  "port_text port = (case port of None \<Rightarrow> ''NaN'' | Some n \<Rightarrow> show_int n)"

fun parse_argv :: "(string \<Rightarrow> string) \<Rightarrow> server_config \<Rightarrow> string list \<Rightarrow> server_config" where
  "parse_argv resolve config [] = config"
| "parse_argv resolve config [arg] = config"
| "parse_argv resolve config (arg # next # argv) =
     (if next = [] then parse_argv resolve config (next # argv)
      else if arg = ''--port'' then parse_argv resolve (config\<lparr>sc_port := parse_int10 next\<rparr>) argv
      else if arg = ''--profile'' then parse_argv resolve (config\<lparr>sc_profileDir := resolve next\<rparr>) argv
      else if arg = ''--label'' then parse_argv resolve (config\<lparr>sc_label := next\<rparr>) argv
      else if arg = ''--relay-url'' then parse_argv resolve (config\<lparr>sc_relayUrl := next\<rparr>) argv
      else if arg = ''--store-key-env'' then parse_argv resolve (config\<lparr>sc_storeKeyEnv := next\<rparr>) argv
      else if arg = ''--cli'' then parse_argv resolve (config\<lparr>sc_cliPath := resolve next\<rparr>) argv
      else parse_argv resolve config (next # argv))"

definition parseArgv :: "(string \<Rightarrow> string) \<Rightarrow> string \<Rightarrow> string list \<Rightarrow> server_config" where
  "parseArgv resolve defaultCli argv =
     parse_argv resolve \<lparr>sc_port = Some 3000, sc_profileDir = resolve ''.tmp/demo-data/alice'', sc_label = ''Operator'',
       sc_relayUrl = ''https://depr.tail5a88fb.ts.net:8443'', sc_storeKeyEnv = ''ECHOLET_STORE_KEY'', sc_cliPath = defaultCli\<rparr> argv"

subsection \<open>The state of the server\<close>

record telemetry_item =
  te_id :: string
  te_time :: string
  te_type :: string
  te_message :: string

text \<open>
  What the server keeps - the status, the telemetry buffer and the background poll's flag - and, in
  order, what it has pushed to its listeners, how often it logged, and the commands it has run.
\<close>

record station =
  st_status :: station_status
  st_telemetry :: "telemetry_item list"
  st_polling :: bool
  st_pushed :: "(string \<times> json) list"
  st_logged :: nat
  st_calls :: "bridge_call list"

text \<open>
  The outside: the configuration, the card files with the bridge (which rejects when spawning throws),
  the id and time of every telemetry item, the clock, one probe of the relay, and the files of the
  client.
\<close>

record station_env =
  se_config :: server_config
  se_cards :: card_io
  se_stamp :: "nat \<Rightarrow> string \<times> string"
  se_now :: int
  se_startedAt :: int
  se_answered :: "int option"
  se_client :: string
  se_exists :: "string \<Rightarrow> bool"
  se_file :: "string \<Rightarrow> string option"

abbreviation se_bridge :: "station_env \<Rightarrow> bridge_call \<Rightarrow> string + web_outcome" where
  "se_bridge E \<equiv> ci_bridge (se_cards E)"

definition push :: "string \<Rightarrow> json \<Rightarrow> station \<Rightarrow> station" where
  "push event v st = st\<lparr>st_pushed := st_pushed st @ [(event, v)]\<rparr>"

definition telemetry_json :: "telemetry_item \<Rightarrow> json" where
  "telemetry_json i = JObj [(''id'', JStr (te_id i)), (''time'', JStr (te_time i)), (''type'', JStr (te_type i)), (''message'', JStr (te_message i))]"

definition logTelemetry :: "station_env \<Rightarrow> string \<Rightarrow> string \<Rightarrow> station \<Rightarrow> station" where
  "logTelemetry E kind message st =
     (let (i, t) = se_stamp E (st_logged st); item = \<lparr>te_id = i, te_time = t, te_type = kind, te_message = message\<rparr>;
          logs = st_telemetry st @ [item]
      in push ''telemetry'' (telemetry_json item)
           (st\<lparr>st_telemetry := (if length logs > 200 then tl logs else logs), st_logged := Suc (st_logged st)\<rparr>))"

definition statusPayload :: "station_env \<Rightarrow> station \<Rightarrow> json" where
  "statusPayload E st = createStatusPayload (sc_label (se_config E)) (sc_relayUrl (se_config E)) (st_status st)"

definition broadcastStatus :: "station_env \<Rightarrow> station \<Rightarrow> station" where
  "broadcastStatus E st = push ''status'' (statusPayload E st) st"

fun numericField :: "json \<Rightarrow> string \<Rightarrow> int option" where
  "numericField (JObj kvs) key = (case map_of kvs key of Some (JNum n) \<Rightarrow> Some n | _ \<Rightarrow> None)"
| "numericField _ key = None"

text \<open>A value in a template text.\<close>

fun js_text :: "json \<Rightarrow> string"
  and js_elems :: "json list \<Rightarrow> string list" where
  "js_text JNull = ''null''"
| "js_text (JBool b) = (if b then ''true'' else ''false'')"
| "js_text (JNum n) = show_int n"
| "js_text (JStr s) = s"
| "js_text (JArr vs) = join '','' (js_elems vs)"
| "js_text (JObj kvs) = ''[object Object]''"
| "js_elems [] = []"
| "js_elems (v # vs) = (if v = JNull then [] else js_text v) # js_elems vs"

fun member_text :: "json \<Rightarrow> string \<Rightarrow> string" where
  "member_text (JObj kvs) k = (case map_of kvs k of None \<Rightarrow> ''undefined'' | Some v \<Rightarrow> js_text v)"
| "member_text _ k = ''undefined''"

definition ran :: "bridge_call list \<Rightarrow> station \<Rightarrow> station" where
  "ran cmds st = st\<lparr>st_calls := st_calls st @ cmds\<rparr>"

text \<open>\<open>substring(0, n)\<close>; a character of two units is kept whole where the source would keep its half.\<close>

fun unit_prefix :: "nat \<Rightarrow> string \<Rightarrow> string" where
  "unit_prefix n [] = []"
| "unit_prefix n (c # s) =
     (let k = utf16_units [c] in if k = 0 then c # unit_prefix n s else if n = 0 then [] else c # unit_prefix (n - k) s)"

subsection \<open>The background\<close>

text \<open>
  The poll's two halves, before and after what it waits for; a tick while one is under way does
  nothing. The flag falls whatever happened.
\<close>

definition poll_tick :: "station \<Rightarrow> station" where
  "poll_tick st = (if st_polling st then st else ran [CallPoll] (st\<lparr>st_polling := True\<rparr>))"

definition poll_outcome :: "station_env \<Rightarrow> web_outcome \<Rightarrow> station \<Rightarrow> station" where
  "poll_outcome E outcome st =
     (let st1 = broadcastStatus E (st\<lparr>st_status := recordPoll outcome (se_now E) (st_status st)\<rparr>) in
      if truthy (wo_ok outcome) \<and> truthy (wo_data outcome)
      then let received = (case numericField (wo_data outcome) ''received'' of None \<Rightarrow> 0 | Some n \<Rightarrow> n) in
           if 0 < received
           then push ''new_message'' (JObj [(''received'', JNum received)])
                  (logTelemetry E ''success'' (''[Inbound] '' @ show_int received @ '' new encrypted message(s) downloaded from relay'') st1)
           else st1
      else if \<not> truthy (wo_ok outcome) then logTelemetry E ''warn'' (''[Poll Warning] '' @ js_text (wo_code outcome)) st1
      else st1)"

definition poll_done :: "station_env \<Rightarrow> string + web_outcome \<Rightarrow> station \<Rightarrow> station" where
  "poll_done E result st =
     (case result of
        Inl message \<Rightarrow> logTelemetry E ''error'' (''[Poll Error] '' @ message) st
      | Inr outcome \<Rightarrow> poll_outcome E outcome st)\<lparr>st_polling := False\<rparr>"

definition probe_started :: "station \<Rightarrow> station" where
  "probe_started st = st\<lparr>st_status := start_relay (st_status st)\<rparr>"

definition relay_probed :: "station_env \<Rightarrow> nat \<Rightarrow> station \<Rightarrow> station" where
  "relay_probed E generation st =
     st\<lparr>st_status := settle_relay generation (se_startedAt E) (se_answered E) (se_now E) (st_status st)\<rparr>"

text \<open>The end of the five-second probe.\<close>

definition probe_done :: "station_env \<Rightarrow> nat \<Rightarrow> station \<Rightarrow> station" where
  "probe_done E generation st =
     (let st1 = relay_probed E generation st in
      broadcastStatus E
        (push ''ping''
           (case ss_pingMs (st_status st1) of
              Some n \<Rightarrow> JObj [(''ping'', JNum n), (''status'', JStr ''reachable'')]
            | None \<Rightarrow> JObj [(''ping'', JNull), (''status'', JStr ''unreachable'')]) st1))"

text \<open>A refresh of the profile with nothing in between; False when the bridge rejected.\<close>

definition refreshProfile :: "station_env \<Rightarrow> station \<Rightarrow> bool \<times> station" where
  "refreshProfile E st =
     (let s = start_profile (st_status st); st1 = ran [CallDoctor] (st\<lparr>st_status := s\<rparr>) in
      case se_bridge E CallDoctor of
        Inl _ \<Rightarrow> (False, st1)
      | Inr outcome \<Rightarrow> (True, st1\<lparr>st_status := settle_profile (ss_profileGeneration s) outcome (se_now E) s\<rparr>))"

definition refreshRelay :: "station_env \<Rightarrow> station \<Rightarrow> station" where
  "refreshRelay E st = (let st1 = probe_started st in relay_probed E (ss_relayGeneration (st_status st1)) st1)"

text \<open>What the server does once when it starts; False when it ends in a rejection nothing handles.\<close>

definition bootstrap :: "station_env \<Rightarrow> station \<Rightarrow> bool \<times> station" where
  "bootstrap E st =
     (let st1 = logTelemetry E ''crypto'' (''Initializing Echolet Web Node for ['' @ sc_label (se_config E) @ '']'') st;
          st2 = logTelemetry E ''info'' (''Profile store: '' @ sc_profileDir (se_config E)) st1;
          st3 = refreshRelay E (logTelemetry E ''info'' (''Target relay: '' @ sc_relayUrl (se_config E)) st2);
          st4 = (case ss_pingMs (st_status st3) of
              Some n \<Rightarrow> logTelemetry E ''success'' (''Relay reachable: '' @ show_int n @ ''ms latency'') st3
            | None \<Rightarrow> logTelemetry E ''warn'' ''Relay unreachable or checking...'' st3);
          (fine, st5) = refreshProfile E st4
      in (fine,
          if \<not> fine then st5
          else case ss_profile (st_status st5) of
            None \<Rightarrow> st5
          | Some profile \<Rightarrow>
              logTelemetry E ''info'' (''Pinned contacts count: '' @ show_int (case numericField profile ''contact_count'' of None \<Rightarrow> 0 | Some n \<Rightarrow> n))
                (logTelemetry E ''crypto'' (''Identity verified: '' @ unit_prefix 16 (str_prop profile ''identity_id'') @ ''...'') st5)))"

subsection \<open>Requests\<close>

text \<open>
  A request: what the URL parser makes of its target - a path, and the \<open>with\<close> parameter of its query -
  or None where the parser throws; the pieces of its body, and the message of an error that ended it.
\<close>

record http_request =
  rq_method :: string
  rq_headers :: headers
  rq_url :: "(string \<times> string option) option"
  rq_chunks :: "bytes list"
  rq_failed :: "string option"

datatype body_error =
    RequestBodyError nat string string
  | StreamError string

definition MAX_JSON_BODY_BYTES :: nat where
  "MAX_JSON_BODY_BYTES = 128 * 1024"

fun read_chunks :: "nat \<Rightarrow> string \<Rightarrow> bytes list \<Rightarrow> body_error + string" where
  "read_chunks n body [] = Inr body"
| "read_chunks n body (chunk # rest) =
     (if MAX_JSON_BODY_BYTES < n + length chunk
      then Inl (RequestBodyError 413 ''PAYLOAD_TOO_LARGE'' ''JSON body exceeds 128 KiB'')
      else read_chunks (n + length chunk) (body @ decode_lossy chunk) rest)"

text \<open>The members of the object the body holds; an empty body counts as an empty object.\<close>

definition readBody :: "http_request \<Rightarrow> body_error + (string \<times> json) list" where
  "readBody rq =
     (case read_chunks 0 [] (rq_chunks rq) of
        Inl e \<Rightarrow> Inl e
      | Inr body \<Rightarrow>
          (case rq_failed rq of
             Some message \<Rightarrow> Inl (StreamError message)
           | None \<Rightarrow>
               if body = [] then Inr []
               else (case parse_json body of
                   None \<Rightarrow> Inl (RequestBodyError 400 ''INVALID_JSON_BODY'' ''JSON body is malformed'')
                 | Some (JObj kvs) \<Rightarrow> Inr kvs
                 | Some _ \<Rightarrow> Inl (RequestBodyError 400 ''INVALID_JSON_BODY'' ''JSON body must be an object''))))"

datatype reply =
    JsonReply nat json
  | EventStream json
  | FileReply string string
  | TextReply nat string
  | Unanswered

definition writeRequestError :: "body_error option \<Rightarrow> reply" where
  "writeRequestError e =
     (case e of
        Some (RequestBodyError statusCode code message) \<Rightarrow>
          JsonReply statusCode (JObj [(''ok'', JBool False), (''code'', JStr code), (''error'', JStr message)])
      | _ \<Rightarrow> JsonReply 500 (JObj [(''ok'', JBool False), (''code'', JStr ''INTERNAL_ERROR''), (''error'', JStr ''Request failed'')]))"

definition rejected :: "guard_rejection \<Rightarrow> reply" where
  "rejected r = JsonReply (gr_status r) (JObj [(''ok'', JBool False), (''code'', JStr (gr_code r)), (''error'', JStr (gr_error r))])"

definition outcome_json :: "web_outcome \<Rightarrow> json" where
  "outcome_json outcome = JObj [(''ok'', wo_ok outcome), (''code'', wo_code outcome), (''exitCode'', JNum (wo_exitCode outcome)), (''data'', wo_data outcome)]"

definition outcome_reply :: "web_outcome \<Rightarrow> reply" where
  "outcome_reply outcome = JsonReply (if truthy (wo_ok outcome) then 200 else 500) (outcome_json outcome)"

definition missing_parameter :: "string \<Rightarrow> reply" where
  "missing_parameter message = JsonReply 400 (JObj [(''ok'', JBool False), (''error'', JStr message)])"

definition card_failed :: "nat \<Rightarrow> card_failure \<Rightarrow> reply" where
  "card_failed statusCode f = JsonReply statusCode (JObj [(''ok'', JBool False), (''code'', cf_code f), (''error'', JStr (cf_message f))])"

definition preview_json :: "card_success \<Rightarrow> json" where
  "preview_json c = JObj [(''preview'', JObj [(''identityId'', JStr (cs_identityId c)), (''deviceId'', JStr (cs_deviceId c))])]"

fun ran_command :: "card_action \<Rightarrow> bridge_call option" where
  "ran_command (RanCommand c) = Some c"
| "ran_command _ = None"

text \<open>The commands of a card operation join those of the station.\<close>

definition ran_cards :: "card_action list \<Rightarrow> station \<Rightarrow> station" where
  "ran_cards acts = ran (List.map_filter ran_command acts)"

subsection \<open>The routes\<close>

text \<open>
  One request with nothing else in between; an answer the handler's promise rejects instead of giving
  is \<open>Unanswered\<close>. \<open>/api/status\<close> starts both refreshes before it waits for either.
\<close>

definition api_status :: "station_env \<Rightarrow> station \<Rightarrow> reply \<times> station" where
  "api_status E st =
     (let s = start_relay (start_profile (st_status st)); st1 = ran [CallDoctor] (st\<lparr>st_status := s\<rparr>) in
      case se_bridge E CallDoctor of
        Inl _ \<Rightarrow> (Unanswered, relay_probed E (ss_relayGeneration s) st1)
      | Inr outcome \<Rightarrow>
          let st2 = relay_probed E (ss_relayGeneration s)
                (st1\<lparr>st_status := settle_profile (ss_profileGeneration s) outcome (se_now E) s\<rparr>);
              recent = drop (length (st_telemetry st2) - 50) (st_telemetry st2)
          in (JsonReply 200
                (case statusPayload E st2 of
                   JObj kvs \<Rightarrow> JObj ((''ok'', JBool True) # kvs @ [(''telemetry'', JArr (map telemetry_json recent))])
                 | v \<Rightarrow> v), st2))"

definition api_history :: "station_env \<Rightarrow> string option \<Rightarrow> station \<Rightarrow> reply \<times> station" where
  "api_history E withId st =
     (if withId \<in> {None, Some []} then (missing_parameter ''Missing 'with' parameter'', st)
      else
        let st1 = ran [CallHistory (the withId)] st in
        case se_bridge E (CallHistory (the withId)) of
          Inl _ \<Rightarrow> (Unanswered, st1)
        | Inr outcome \<Rightarrow> (outcome_reply outcome, st1))"

definition body_error_message :: "body_error \<Rightarrow> string" where
  "body_error_message e = (case e of RequestBodyError _ _ message \<Rightarrow> message | StreamError message \<Rightarrow> message)"

definition api_send :: "station_env \<Rightarrow> http_request \<Rightarrow> station \<Rightarrow> reply \<times> station" where
  "api_send E rq st =
     (let failed = (\<lambda>message. JsonReply 500 (JObj [(''ok'', JBool False), (''error'', JStr message)])) in
      case readBody rq of
        Inl e \<Rightarrow> (failed (body_error_message e), st)
      | Inr kvs \<Rightarrow>
          let to = str_prop (JObj kvs) ''to''; body = str_prop (JObj kvs) ''text'' in
          if to = [] \<or> body = [] then (missing_parameter (''Missing 'to' or 'text'' @ [CHR 0x27]), st)
          else
            let st1 = ran [CallSend to body]
                  (logTelemetry E ''crypto'' (''Encrypting message via Double Ratchet for recipient '' @ unit_prefix 12 to @ ''...'') st) in
            case se_bridge E (CallSend to body) of
              Inl message \<Rightarrow> (failed message, st1)
            | Inr outcome \<Rightarrow>
                (outcome_reply outcome,
                 if truthy (wo_ok outcome)
                 then push ''outbound_sent'' (wo_data outcome)
                        (logTelemetry E ''success''
                          (''[Outbound] Envelope delivered to relay (status: '' @ member_text (wo_data outcome) ''status'' @ '')'') st1)
                 else logTelemetry E ''error'' (''Send failure: '' @ js_text (wo_code outcome)) st1))"

definition api_publish :: "station_env \<Rightarrow> station \<Rightarrow> reply \<times> station" where
  "api_publish E st =
     (let st1 = ran [CallPublish] (logTelemetry E ''crypto'' ''Minting and publishing Signal PreKey Bundles...'' st) in
      case se_bridge E CallPublish of
        Inl _ \<Rightarrow> (Unanswered, st1)
      | Inr outcome \<Rightarrow>
          (outcome_reply outcome,
           if truthy (wo_ok outcome) then logTelemetry E ''success'' ''PreKey pool updated: target 20, claimable 20'' st1
           else logTelemetry E ''error'' (''Publish failed: '' @ js_text (wo_code outcome)) st1))"

definition api_export :: "station_env \<Rightarrow> station \<Rightarrow> reply \<times> station" where
  "api_export E st =
     (let (r, acts) = exportContactCard (se_cards E); st1 = ran_cards acts st in
      case r of
        Inr c \<Rightarrow> (JsonReply 200 (cs_card c), st1)
      | Inl f \<Rightarrow> (card_failed 500 f, logTelemetry E ''error'' (''Contact export failed: '' @ js_text (cf_code f)) st1))"

definition api_validate :: "station_env \<Rightarrow> http_request \<Rightarrow> station \<Rightarrow> reply \<times> station" where
  "api_validate E rq st =
     (case readBody rq of
        Inl e \<Rightarrow> (writeRequestError (Some e), st)
      | Inr kvs \<Rightarrow>
          let (r, acts) = validateContactCardJson (se_cards E) (jprop (JObj kvs) ''cardJson'') in
          (case r of
             Inl f \<Rightarrow> card_failed (validationFailureHttpStatus (cf_code f)) f
           | Inr c \<Rightarrow> JsonReply 200 (JObj [(''ok'', JBool True), (''data'', preview_json c)]),
           ran_cards acts st))"

definition import_status :: "json \<Rightarrow> nat" where
  "import_status code = (if code \<in> {JStr ''INVALID_CONTACT_CARD'', JStr ''TRUST_FAILURE''} then 400 else 500)"

definition api_import :: "station_env \<Rightarrow> http_request \<Rightarrow> station \<Rightarrow> reply \<times> station" where
  "api_import E rq st =
     (let refused = (\<lambda>statusCode code message.
            JsonReply statusCode (JObj [(''ok'', JBool False), (''code'', JStr code), (''error'', JStr message)])) in
      case readBody rq of
        Inl e \<Rightarrow> (writeRequestError (Some e), st)
      | Inr kvs \<Rightarrow>
          if map_of kvs ''cardJson'' = None then (refused 400 ''MISSING_CONTACT_CARD'' ''Missing cardJson'', st)
          else if map_of kvs ''confirmed'' \<noteq> Some (JBool True)
          then (refused 409 ''CONFIRMATION_REQUIRED'' ''Confirm the validated contact card before import'', st)
          else
            let st1 = logTelemetry E ''crypto'' ''Verifying contact card cryptographic signatures...'' st;
                (r, acts) = importContactCardJson (se_cards E) (jprop (JObj kvs) ''cardJson'');
                st2 = ran_cards acts st1
            in case r of
                Inl f \<Rightarrow> (card_failed (import_status (cf_code f)) f,
                   logTelemetry E ''error'' (''Contact import failed: '' @ js_text (cf_code f)) st2)
              | Inr c \<Rightarrow>
                  let (fine, st3) = refreshProfile E
                        (logTelemetry E ''success'' ''Contact trusted & added to secure address book'' st2) in
                  if \<not> fine then (writeRequestError None, st3)
                  else (JsonReply 200 (JObj [(''ok'', JBool True), (''code'', JStr ''ok''), (''data'', preview_json c)]),
                        broadcastStatus E (push ''contact_added'' (JObj []) st3)))"

definition MIME_TYPES :: "(string \<times> string) list" where
  "MIME_TYPES = [(''.html'', ''text/html''), (''.js'', ''application/javascript''), (''.css'', ''text/css''),
     (''.json'', ''application/json''), (''.svg'', ''image/svg+xml''), (''.png'', ''image/png''), (''.jpg'', ''image/jpeg'')]"

definition static_target :: "station_env \<Rightarrow> string \<Rightarrow> string" where
  "static_target E pathname =
     (let filePath = (if pathname = ''/'' then ''index.html'' else case pathname of [] \<Rightarrow> [] | c # r \<Rightarrow> if c = CHR ''/'' then r else c # r);
          target = resolve_path (se_client E) filePath
      in if se_exists E target then target else resolve_path (se_client E) ''index.html'')"

definition serve_static :: "station_env \<Rightarrow> string \<Rightarrow> reply" where
  "serve_static E pathname =
     (let target = static_target E pathname in
      if \<not> se_exists E target then TextReply 404 ''Not Found''
      else case se_file E target of
          None \<Rightarrow> TextReply 500 ''Error loading file''
        | Some content \<Rightarrow>
            FileReply (case map_of MIME_TYPES (map to_lower (extname target)) of None \<Rightarrow> ''application/octet-stream'' | Some t \<Rightarrow> t) content)"

definition handle_request :: "station_env \<Rightarrow> http_request \<Rightarrow> station \<Rightarrow> reply \<times> station" where
  "handle_request E rq st =
     (let port = port_text (sc_port (se_config E)) in
      case checkHost (rq_headers rq) port of Some r \<Rightarrow> (rejected r, st) | None \<Rightarrow>
      case rq_url rq of None \<Rightarrow> (Unanswered, st) | Some (pathname, withId) \<Rightarrow>
      case (if prefix ''/api/'' pathname then checkApiRequest (rq_method rq) (rq_headers rq) port else None) of
        Some r \<Rightarrow> (rejected r, st)
      | None \<Rightarrow>
          if pathname = ''/api/events'' then (EventStream (statusPayload E st), st)
          else if pathname = ''/api/status'' \<and> rq_method rq = ''GET'' then api_status E st
          else if pathname = ''/api/history'' \<and> rq_method rq = ''GET'' then api_history E withId st
          else if pathname = ''/api/send'' \<and> rq_method rq = ''POST'' then api_send E rq st
          else if pathname = ''/api/publish'' \<and> rq_method rq = ''POST'' then api_publish E st
          else if pathname = ''/api/contacts/export'' \<and> rq_method rq = ''GET'' then api_export E st
          else if pathname = ''/api/contacts/validate'' \<and> rq_method rq = ''POST'' then api_validate E rq st
          else if pathname = ''/api/contacts/import'' \<and> rq_method rq = ''POST'' then api_import E rq st
          else (serve_static E pathname, st))"

subsection \<open>What each step keeps\<close>

lemma keeps [simp]:
  "st_calls (push event v st) = st_calls st" "st_calls (logTelemetry E kind message st) = st_calls st"
  "st_calls (broadcastStatus E st) = st_calls st" "st_calls (relay_probed E g st) = st_calls st"
  "st_calls (probe_started st) = st_calls st" "st_calls (ran cmds st) = st_calls st @ cmds"
  "st_polling (push event v st) = st_polling st" "st_polling (logTelemetry E kind message st) = st_polling st"
  "st_polling (broadcastStatus E st) = st_polling st" "st_polling (relay_probed E g st) = st_polling st"
  "st_polling (probe_started st) = st_polling st" "st_polling (ran cmds st) = st_polling st"
  by (simp_all add: push_def logTelemetry_def broadcastStatus_def relay_probed_def probe_started_def ran_def Let_def split: prod.split)

lemma refresh_calls [simp]:
  "st_calls (snd (refreshProfile E st)) = st_calls st @ [CallDoctor]" "st_polling (snd (refreshProfile E st)) = st_polling st"
  by (simp_all add: refreshProfile_def Let_def split: sum.split)

lemma card_commands:
  "List.map_filter ran_command (snd (importContactCardJson io v)) = [] \<or>
     (\<exists>p. List.map_filter ran_command (snd (importContactCardJson io v)) = [CallImport p])"
  "List.map_filter ran_command (snd (validateContactCardJson io v)) = [] \<or>
     (\<exists>p. List.map_filter ran_command (snd (validateContactCardJson io v)) = [CallValidate p])"
  "List.map_filter ran_command (snd (exportContactCard io)) = [] \<or>
     (\<exists>p. List.map_filter ran_command (snd (exportContactCard io)) = [CallExport p])"
  by (auto simp: importContactCardJson_def validateContactCardJson_def exportContactCard_def over_card_file_def Let_def List.map_filter_simps
      split: sum.splits option.splits)

text \<open>The commands a route runs, and what its request held when it runs one.\<close>

definition asked_send :: "http_request \<Rightarrow> bridge_call list \<Rightarrow> bool" where
  "asked_send rq cmds \<longleftrightarrow> cmds = [] \<or>
     (\<exists>kvs to body. readBody rq = Inr kvs \<and> map_of kvs ''to'' = Some (JStr to) \<and> map_of kvs ''text'' = Some (JStr body)
        \<and> to \<noteq> [] \<and> body \<noteq> [] \<and> cmds = [CallSend to body])"

definition asked_import :: "http_request \<Rightarrow> bridge_call list \<Rightarrow> bool" where
  "asked_import rq cmds \<longleftrightarrow> cmds = [] \<or>
     (\<exists>kvs p. readBody rq = Inr kvs \<and> map_of kvs ''confirmed'' = Some (JBool True) \<and> cmds \<in> {[CallImport p], [CallImport p, CallDoctor]})"

lemma str_prop_member: "str_prop (JObj kvs) k \<noteq> [] \<Longrightarrow> map_of kvs k = Some (JStr (str_prop (JObj kvs) k))"
  by (cases "the (map_of kvs k)") (auto simp: str_prop_def split: option.splits)

lemma send_calls: "\<exists>cmds. st_calls (snd (api_send E rq st)) = st_calls st @ cmds \<and> asked_send rq cmds"
proof (cases "readBody rq")
  case (Inr kvs)
  let ?to = "str_prop (JObj kvs) ''to''" and ?body = "str_prop (JObj kvs) ''text''"
  show ?thesis
  proof (cases "?to = [] \<or> ?body = []")
    case True
    then show ?thesis by (auto simp: api_send_def Inr asked_send_def Let_def)
  next
    case False
    then have "asked_send rq [CallSend ?to ?body]" using str_prop_member [of kvs] Inr unfolding asked_send_def by blast
    moreover from False have "st_calls (snd (api_send E rq st)) = st_calls st @ [CallSend ?to ?body]"
      by (simp add: api_send_def Inr Let_def split: sum.split)
    ultimately show ?thesis by blast
  qed
qed (simp add: api_send_def asked_send_def)

lemma import_calls: "\<exists>cmds. st_calls (snd (api_import E rq st)) = st_calls st @ cmds \<and> asked_import rq cmds"
proof (cases "readBody rq")
  case (Inr kvs)
  show ?thesis
  proof (cases "map_of kvs ''cardJson'' = None \<or> map_of kvs ''confirmed'' \<noteq> Some (JBool True)")
    case True
    then show ?thesis by (auto simp: api_import_def Inr asked_import_def Let_def)
  next
    case False
    let ?v = "jprop (JObj kvs) ''cardJson''"
    let ?cmds = "List.map_filter ran_command (snd (importContactCardJson (se_cards E) ?v))"
    obtain r acts where i: "importContactCardJson (se_cards E) ?v = (r, acts)" by fastforce
    with card_commands(1) [of "se_cards E" ?v] obtain p where c: "?cmds \<in> {[], [CallImport p]}" by auto
    show ?thesis
    proof (cases r)
      case (Inl f)
      then have "st_calls (snd (api_import E rq st)) = st_calls st @ ?cmds"
        using False i by (auto simp: api_import_def Inr Let_def ran_cards_def simp del: jprop.simps)
      with c False Inr show ?thesis unfolding asked_import_def by blast
    next
      case r: (Inr x)
      let ?st = "logTelemetry E ''success'' ''Contact trusted & added to secure address book''
          (ran_cards acts (logTelemetry E ''crypto'' ''Verifying contact card cryptographic signatures...'' st))"
      obtain fine st3 where f: "refreshProfile E ?st = (fine, st3)" by fastforce
      have "st_calls (snd (refreshProfile E ?st)) = st_calls st @ List.map_filter ran_command acts @ [CallDoctor]" by (simp add: ran_cards_def)
      with f i have "st_calls st3 = st_calls st @ ?cmds @ [CallDoctor]" by (simp del: refresh_calls)
      then have "st_calls (snd (api_import E rq st)) = st_calls st @ ?cmds @ [CallDoctor]"
        using False i r f by (auto simp: api_import_def Inr Let_def simp del: jprop.simps)
      moreover have "?cmds = [CallImport p]"
        using i r c by (auto simp: importContactCardJson_def over_card_file_def ioFailure_def operationFailure_def List.map_filter_simps Let_def
            split: sum.splits option.splits if_splits simp del: jprop.simps)
      ultimately show ?thesis using False Inr unfolding asked_import_def by auto
    qed
  qed
qed (simp add: api_import_def asked_import_def)

lemma other_calls:
  "st_calls (snd (api_status E st)) = st_calls st @ [CallDoctor]"
  "\<exists>cmds. st_calls (snd (api_history E w st)) = st_calls st @ cmds \<and> (cmds = [] \<or> (\<exists>c. w = Some c \<and> cmds = [CallHistory c]))"
  "st_calls (snd (api_publish E st)) = st_calls st @ [CallPublish]"
  "\<exists>cmds. st_calls (snd (api_export E st)) = st_calls st @ cmds \<and> (cmds = [] \<or> (\<exists>p. cmds = [CallExport p]))"
  "\<exists>cmds. st_calls (snd (api_validate E rq st)) = st_calls st @ cmds \<and> (cmds = [] \<or> (\<exists>p. cmds = [CallValidate p]))"
proof -
  show "st_calls (snd (api_status E st)) = st_calls st @ [CallDoctor]"
    by (simp add: api_status_def Let_def split: sum.split)
  show "\<exists>cmds. st_calls (snd (api_history E w st)) = st_calls st @ cmds \<and> (cmds = [] \<or> (\<exists>c. w = Some c \<and> cmds = [CallHistory c]))"
    by (cases w) (auto simp: api_history_def Let_def split: sum.split)
  show "st_calls (snd (api_publish E st)) = st_calls st @ [CallPublish]"
    by (simp add: api_publish_def Let_def split: sum.split)
  show "\<exists>cmds. st_calls (snd (api_export E st)) = st_calls st @ cmds \<and> (cmds = [] \<or> (\<exists>p. cmds = [CallExport p]))"
    using card_commands(3) [of "se_cards E"]
    by (cases "exportContactCard (se_cards E)") (auto simp: api_export_def Let_def ran_cards_def split: sum.split)
  show "\<exists>cmds. st_calls (snd (api_validate E rq st)) = st_calls st @ cmds \<and> (cmds = [] \<or> (\<exists>p. cmds = [CallValidate p]))"
  proof (cases "readBody rq")
    case (Inr kvs)
    with card_commands(2) [of "se_cards E" "jprop (JObj kvs) ''cardJson''"] show ?thesis
      by (cases "validateContactCardJson (se_cards E) (jprop (JObj kvs) ''cardJson'')")
         (auto simp: api_validate_def Let_def ran_cards_def simp del: jprop.simps)
  qed (simp add: api_validate_def)
qed

subsection \<open>Who the station acts for\<close>

text \<open>
  C21. The station acts only for its own page: a request that makes it run any command names a
  loopback host and the port, comes from no other origin and from no other site; one that changes
  the profile is besides a POST of JSON, a message is sent to the recipient and with the text the body
  holds, and a card is imported only when the body confirms it.
\<close>

theorem station_acts_for_its_page:
  assumes "handle_request E rq st = (given, st')"
  shows "\<exists>cmds. st_calls st' = st_calls st @ cmds
    \<and> (cmds \<noteq> [] \<longrightarrow>
         (\<exists>h. header (rq_headers rq) ''host'' = Some h \<and> map to_lower h \<in> set (allowedHosts (port_text (sc_port (se_config E)))))
         \<and> (\<forall>origin. header (rq_headers rq) ''origin'' = Some origin \<longrightarrow>
              map to_lower origin \<in> set (allowedOrigins (port_text (sc_port (se_config E)))))
         \<and> header (rq_headers rq) ''sec-fetch-site'' \<in> {None, Some ''same-origin'', Some ''none''})
    \<and> (\<forall>c \<in> set cmds. c \<in> {CallDoctor, CallPoll} \<or> (\<exists>x. c \<in> {CallHistory x, CallExport x})
         \<or> rq_method rq = ''POST'' \<and> map_option media_type (header (rq_headers rq) ''content-type'') = Some ''application/json'')
    \<and> (\<forall>to body. CallSend to body \<in> set cmds \<longrightarrow>
         (\<exists>kvs. readBody rq = Inr kvs \<and> map_of kvs ''to'' = Some (JStr to) \<and> map_of kvs ''text'' = Some (JStr body)))
    \<and> (\<forall>p. CallImport p \<in> set cmds \<longrightarrow> (\<exists>kvs. readBody rq = Inr kvs \<and> map_of kvs ''confirmed'' = Some (JBool True)))"
proof -
  let ?port = "port_text (sc_port (se_config E))"
  let ?own = "\<lambda>cmds. st_calls st' = st_calls st @ cmds"
  have idle: ?thesis if "st' = st" using that by (intro exI [of _ "[]"]) simp
  show ?thesis
  proof (cases "checkHost (rq_headers rq) ?port = None \<and> (\<exists>pathname withId. rq_url rq = Some (pathname, withId) \<and> prefix ''/api/'' pathname
      \<and> checkApiRequest (rq_method rq) (rq_headers rq) ?port = None)")
    case False
    have static: "\<not> prefix ''/api/'' p \<Longrightarrow> p \<noteq> ''/api/'' @ q" for p q by (auto simp: prefix_def)
    from False assms have "st' = st"
      using static [of _ "''events''"] static [of _ "''status''"] static [of _ "''history''"] static [of _ "''send''"] static [of _ "''publish''"]
        static [of _ "''contacts/export''"] static [of _ "''contacts/validate''"] static [of _ "''contacts/import''"]
      by (auto simp: handle_request_def Let_def split: option.splits if_splits)
    then show ?thesis by (rule idle)
  next
    case True
    then obtain pathname withId where g: "checkHost (rq_headers rq) ?port = None" "rq_url rq = Some (pathname, withId)"
        "checkApiRequest (rq_method rq) (rq_headers rq) ?port = None" by blast
    obtain cmds where c: "?own cmds" "cmds = [] \<or> cmds \<in> {[CallDoctor], [CallPublish]} \<or> (\<exists>x. cmds \<in> {[CallHistory x], [CallExport x], [CallValidate x]})
          \<or> asked_send rq cmds \<or> asked_import rq cmds"
        "rq_method rq = ''POST'' \<or> cmds = [] \<or> cmds = [CallDoctor] \<or> (\<exists>x. cmds \<in> {[CallHistory x], [CallExport x]})"
      using assms g other_calls(1) [of E st] other_calls(2) [of E withId st] other_calls(3) [of E st] other_calls(4) [of E st]
        other_calls(5) [of E rq st] send_calls [of E rq st] import_calls [of E rq st]
      by (auto simp: handle_request_def Let_def split: if_splits)
    from g(1) have h: "\<exists>h. header (rq_headers rq) ''host'' = Some h \<and> map to_lower h \<in> set (allowedHosts ?port)"
      by (auto simp: checkHost_def split: option.splits if_splits)
    from g(3) have o: "\<forall>origin. header (rq_headers rq) ''origin'' = Some origin \<longrightarrow> map to_lower origin \<in> set (allowedOrigins ?port)"
        "header (rq_headers rq) ''sec-fetch-site'' \<in> {None, Some ''same-origin'', Some ''none''}"
        "rq_method rq = ''POST'' \<longrightarrow> map_option media_type (header (rq_headers rq) ''content-type'') = Some ''application/json''"
      by (auto simp: checkApiRequest_def split: option.splits if_splits)
    from c(2) have s: "CallSend to body \<in> set cmds \<Longrightarrow>
          \<exists>kvs. readBody rq = Inr kvs \<and> map_of kvs ''to'' = Some (JStr to) \<and> map_of kvs ''text'' = Some (JStr body)" for to body
      by (auto simp: asked_send_def asked_import_def)
    from c(2) have i: "CallImport p \<in> set cmds \<Longrightarrow> \<exists>kvs. readBody rq = Inr kvs \<and> map_of kvs ''confirmed'' = Some (JBool True)" for p
      by (auto simp: asked_send_def asked_import_def)
    from c(3) o(3) have k: "\<forall>c \<in> set cmds. c \<in> {CallDoctor, CallPoll} \<or> (\<exists>x. c \<in> {CallHistory x, CallExport x})
         \<or> rq_method rq = ''POST'' \<and> map_option media_type (header (rq_headers rq) ''content-type'') = Some ''application/json''" by auto
    show ?thesis using c(1) h o(1,2) k s i by (intro exI [of _ cmds]) blast
  qed
qed

subsection \<open>The station as it runs\<close>

text \<open>
  What can happen to a station, each with the outside as it then is: a tick of the poll, the end of a
  poll that is under way, the start of a probe and the end of one, and a request. Kept beside the
  station are the number of polls under way and of those that ended.
\<close>

inductive station_run :: "server_config \<Rightarrow> nat \<Rightarrow> nat \<Rightarrow> station \<Rightarrow> bool" for config where
  listening: "st_telemetry st = [] \<Longrightarrow> \<not> st_polling st \<Longrightarrow> st_pushed st = [] \<Longrightarrow> st_logged st = 0 \<Longrightarrow> st_calls st = [] \<Longrightarrow>
     station_run config 0 0 st"
| booted: "station_run config n k st \<Longrightarrow> se_config E = config \<Longrightarrow> station_run config n k (snd (bootstrap E st))"
| ticked: "station_run config n k st \<Longrightarrow> station_run config (if st_polling st then n else Suc n) k (poll_tick st)"
| polled: "station_run config (Suc n) k st \<Longrightarrow> se_config E = config \<Longrightarrow> station_run config n (Suc k) (poll_done E result st)"
| probing: "station_run config n k st \<Longrightarrow> station_run config n k (probe_started st)"
| probed: "station_run config n k st \<Longrightarrow> se_config E = config \<Longrightarrow> station_run config n k (probe_done E generation st)"
| asked: "station_run config n k st \<Longrightarrow> se_config E = config \<Longrightarrow> station_run config n k (snd (handle_request E rq st))"

text \<open>The buffer holds the last 200 items that were pushed, and as many pushed as were logged.\<close>

definition pushed_telemetry :: "station \<Rightarrow> json list" where
  "pushed_telemetry st = map snd (filter (\<lambda>p. fst p = ''telemetry'') (st_pushed st))"

definition telemetry_kept :: "station \<Rightarrow> bool" where
  "telemetry_kept st \<longleftrightarrow>
     map telemetry_json (st_telemetry st) = drop (st_logged st - 200) (pushed_telemetry st) \<and> length (pushed_telemetry st) = st_logged st"

lemma kept_same:
  "st_telemetry st' = st_telemetry st \<Longrightarrow> st_pushed st' = st_pushed st \<Longrightarrow> st_logged st' = st_logged st \<Longrightarrow>
     telemetry_kept st' = telemetry_kept st"
  by (simp add: telemetry_kept_def pushed_telemetry_def)

lemma kept_push: "event \<noteq> ''telemetry'' \<Longrightarrow> telemetry_kept (push event v st) = telemetry_kept st"
  by (simp add: telemetry_kept_def pushed_telemetry_def push_def)

lemma kept_log:
  assumes "telemetry_kept st"
  shows "telemetry_kept (logTelemetry E kind message st)"
proof -
  obtain i t where m: "se_stamp E (st_logged st) = (i, t)" by fastforce
  let ?p = "pushed_telemetry st" and ?n = "st_logged st"
  define item where "item = \<lparr>te_id = i, te_time = t, te_type = kind, te_message = message\<rparr>"
  from assms have a: "map telemetry_json (st_telemetry st) = drop (?n - 200) ?p" "length ?p = ?n" by (simp_all add: telemetry_kept_def)
  then have l: "length (st_telemetry st) = min ?n 200" by (metis length_drop length_map min_def diff_diff_cancel diff_zero nat_le_linear diff_is_0_eq)
  let ?logs = "st_telemetry st @ [item]"
  have s: "st_telemetry (logTelemetry E kind message st) = (if length ?logs > 200 then tl ?logs else ?logs)"
      "pushed_telemetry (logTelemetry E kind message st) = ?p @ [telemetry_json item]"
      "st_logged (logTelemetry E kind message st) = Suc ?n"
    by (simp_all add: logTelemetry_def m push_def item_def pushed_telemetry_def Let_def)
  have "map telemetry_json (if length ?logs > 200 then tl ?logs else ?logs) = drop (Suc ?n - 200) (?p @ [telemetry_json item])"
  proof (cases "?n < 200")
    case True
    with l a show ?thesis by simp
  next
    case False
    with l have "length ?logs > 200" by simp
    moreover from False have "Suc ?n - 200 = Suc (?n - 200)" by simp
    moreover from False l have "st_telemetry st \<noteq> []" by auto
    ultimately show ?thesis using a False by (simp add: map_tl drop_Suc tl_drop tl_append2)
  qed
  with a s show ?thesis by (simp add: telemetry_kept_def)
qed

text \<open>
  From one state to a later one: the buffer stays what it should be, the poll's flag stays as it is,
  and no poll command is run.
\<close>

definition steady :: "station \<Rightarrow> station \<Rightarrow> bool" where
  "steady st st' \<longleftrightarrow> (telemetry_kept st \<longrightarrow> telemetry_kept st') \<and> st_polling st' = st_polling st
     \<and> filter (\<lambda>c. c = CallPoll) (st_calls st') = filter (\<lambda>c. c = CallPoll) (st_calls st)"

lemma steady_refl [intro!]: "steady st st"
  by (simp add: steady_def)

lemma steady_log [intro!]: "steady st s \<Longrightarrow> steady st (logTelemetry E kind message s)"
  using kept_log [of s E kind message] by (simp add: steady_def)

lemma steady_push [intro!]: "steady st s \<Longrightarrow> event \<noteq> ''telemetry'' \<Longrightarrow> steady st (push event v s)"
  using kept_push [of event v s] by (simp add: steady_def)

lemma steady_broadcast [intro!]: "steady st s \<Longrightarrow> steady st (broadcastStatus E s)"
  unfolding broadcastStatus_def by (rule steady_push) simp_all

lemma steady_status [intro!]: "steady st s \<Longrightarrow> steady st (s\<lparr>st_status := v\<rparr>)"
  using kept_same [of "s\<lparr>st_status := v\<rparr>" s] by (simp add: steady_def)

lemma steady_probe [intro!]:
  "steady st s \<Longrightarrow> steady st (relay_probed E g s)" "steady st s \<Longrightarrow> steady st (probe_started s)"
  unfolding relay_probed_def probe_started_def by (rule steady_status, assumption)+

lemma steady_ran [intro!]: "steady st s \<Longrightarrow> CallPoll \<notin> set cmds \<Longrightarrow> steady st (ran cmds s)"
  using kept_same [of "ran cmds s" s] by (auto simp: steady_def ran_def filter_empty_conv)

lemma steady_cards [intro!]: "steady st s \<Longrightarrow> CallPoll \<notin> set (List.map_filter ran_command acts) \<Longrightarrow> steady st (ran_cards acts s)"
  unfolding ran_cards_def by (rule steady_ran)

lemma steady_refresh:
  assumes "refreshProfile E s = (fine, s')" "steady st s"
  shows "steady st s'"
  using assms by (auto simp: refreshProfile_def Let_def split: sum.splits)

lemma steady_relay [intro!]: "steady st s \<Longrightarrow> steady st (refreshRelay E s)"
  unfolding refreshRelay_def Let_def by (intro steady_probe)

lemma steady_routes:
  "steady st (snd (api_status E st))" "steady st (snd (api_history E w st))" "steady st (snd (api_publish E st))"
  "steady st (snd (api_send E rq st))"
  by (auto simp: api_status_def api_history_def api_publish_def api_send_def Let_def split: sum.split option.split)

lemma card_polls:
  "importContactCardJson io v = (r, acts) \<Longrightarrow> CallPoll \<notin> set (List.map_filter ran_command acts)"
  "validateContactCardJson io v = (r, acts) \<Longrightarrow> CallPoll \<notin> set (List.map_filter ran_command acts)"
  "exportContactCard io = (r, acts) \<Longrightarrow> CallPoll \<notin> set (List.map_filter ran_command acts)"
  using card_commands(1,2) [of io v] card_commands(3) [of io] by auto

lemma steady_card_routes:
  "steady st (snd (api_export E st))" "steady st (snd (api_validate E rq st))"
  by (auto simp: api_export_def api_validate_def Let_def card_polls simp del: jprop.simps split: sum.split prod.split)

lemma steady_import: "steady st (snd (api_import E rq st))"
proof (cases "readBody rq")
  case (Inr kvs)
  obtain r acts where i: "importContactCardJson (se_cards E) (jprop (JObj kvs) ''cardJson'') = (r, acts)" by fastforce
  let ?st = "ran_cards acts (logTelemetry E ''crypto'' ''Verifying contact card cryptographic signatures...'' st)"
  obtain fine st3 where f: "refreshProfile E (logTelemetry E ''success'' ''Contact trusted & added to secure address book'' ?st) = (fine, st3)"
    by fastforce
  have s: "steady st ?st" using card_polls(1) [OF i] by auto
  with f have "steady st st3" by (auto intro: steady_refresh)
  with s f i Inr show ?thesis by (auto simp: api_import_def Let_def simp del: jprop.simps split: sum.split)
qed (auto simp: api_import_def)

lemma steady_handled: "steady st (snd (handle_request E rq st))"
  using steady_routes [of st E] steady_card_routes [of st E] steady_import [of st E rq]
  by (auto simp: handle_request_def Let_def split: option.split)

lemma steady_booted: "steady st (snd (bootstrap E st))"
proof -
  let ?st3 = "refreshRelay E (logTelemetry E ''info'' (''Target relay: '' @ sc_relayUrl (se_config E))
      (logTelemetry E ''info'' (''Profile store: '' @ sc_profileDir (se_config E))
        (logTelemetry E ''crypto'' (''Initializing Echolet Web Node for ['' @ sc_label (se_config E) @ '']'') st)))"
  define st4 where "st4 = (case ss_pingMs (st_status ?st3) of
              Some n \<Rightarrow> logTelemetry E ''success'' (''Relay reachable: '' @ show_int n @ ''ms latency'') ?st3
            | None \<Rightarrow> logTelemetry E ''warn'' ''Relay unreachable or checking...'' ?st3)"
  obtain fine st5 where f: "refreshProfile E st4 = (fine, st5)" by fastforce
  have "steady st st4" by (auto simp: st4_def split: option.split)
  with f have "steady st st5" by (rule steady_refresh)
  moreover have "bootstrap E st = (case refreshProfile E st4 of (fine, st5) \<Rightarrow> (fine,
      if \<not> fine then st5
      else case ss_profile (st_status st5) of
        None \<Rightarrow> st5
      | Some profile \<Rightarrow>
          logTelemetry E ''info'' (''Pinned contacts count: '' @ show_int (case numericField profile ''contact_count'' of None \<Rightarrow> 0 | Some n \<Rightarrow> n))
            (logTelemetry E ''crypto'' (''Identity verified: '' @ unit_prefix 16 (str_prop profile ''identity_id'') @ ''...'') st5)))"
    unfolding bootstrap_def Let_def st4_def by (rule refl)
  ultimately show ?thesis using f by (auto split: option.split)
qed

lemma poll_keeps:
  assumes "telemetry_kept st"
  shows "telemetry_kept (poll_done E result st) \<and> \<not> st_polling (poll_done E result st)
    \<and> filter (\<lambda>c. c = CallPoll) (st_calls (poll_done E result st)) = filter (\<lambda>c. c = CallPoll) (st_calls st)"
proof -
  have "steady st (case result of Inl message \<Rightarrow> logTelemetry E ''error'' (''[Poll Error] '' @ message) st
      | Inr outcome \<Rightarrow> poll_outcome E outcome st)" (is "steady st ?s")
    by (auto simp: poll_outcome_def Let_def split: sum.split)
  moreover have "poll_done E result st = ?s\<lparr>st_polling := False\<rparr>" unfolding poll_done_def by (rule refl)
  ultimately show ?thesis using assms kept_same [of "?s\<lparr>st_polling := False\<rparr>" ?s] by (simp add: steady_def)
qed

lemma steady_probed: "steady st (probe_done E g st)"
  unfolding probe_done_def Let_def by (intro steady_broadcast steady_push steady_probe steady_refl) simp

lemma station_invariant:
  assumes "station_run config n k st"
  shows "n = (if st_polling st then 1 else 0)
    \<and> length (filter (\<lambda>c. c = CallPoll) (st_calls st)) = n + k \<and> telemetry_kept st"
  using assms
proof induction
  case (listening st)
  then show ?case by (simp add: telemetry_kept_def pushed_telemetry_def)
next
  case (booted n k st E)
  with steady_booted [of st E] show ?case by (simp add: steady_def)
next
  case (ticked n k st)
  then show ?case using kept_same [of "ran [CallPoll] (st\<lparr>st_polling := True\<rparr>)" st]
    by (auto simp: poll_tick_def ran_def)
next
  case (polled n k st E result)
  with poll_keeps [of st E result] show ?case by (auto split: if_splits)
next
  case (probing n k st)
  with steady_probe(2) [OF steady_refl [of st]] show ?case by (simp add: steady_def)
next
  case (probed n k st E generation)
  with steady_probed [of st E generation] show ?case by (simp add: steady_def)
next
  case (asked n k st E rq)
  with steady_handled [of st E rq] show ?case by (simp add: steady_def)
qed

text \<open>
  C24. Polls never overlap and the inspector's buffer never grows past 200 items: whatever ticks,
  probes and requests a station sees, at most one poll is under way, and exactly while its flag is
  up; it ran one poll command for each that ended and for that one; and its telemetry is the last 200
  items it pushed to its pages, in order.
\<close>

theorem polls_never_overlap:
  assumes "station_run config n k st"
  shows "n \<le> 1 \<and> (n = 1 \<longleftrightarrow> st_polling st) \<and> length (filter (\<lambda>c. c = CallPoll) (st_calls st)) = n + k
    \<and> length (st_telemetry st) = min 200 (length (pushed_telemetry st))
    \<and> map telemetry_json (st_telemetry st) = drop (length (pushed_telemetry st) - 200) (pushed_telemetry st)"
proof -
  from station_invariant [OF assms]
  have i: "n = (if st_polling st then 1 else 0)" "length (filter (\<lambda>c. c = CallPoll) (st_calls st)) = n + k" "telemetry_kept st" by auto
  then have t: "map telemetry_json (st_telemetry st) = drop (length (pushed_telemetry st) - 200) (pushed_telemetry st)"
    by (simp add: telemetry_kept_def)
  then have "length (st_telemetry st) = length (drop (length (pushed_telemetry st) - 200) (pushed_telemetry st))"
    by (metis length_map)
  with i t show ?thesis by auto
qed

subsection \<open>Bodies\<close>

lemma read_chunks_size:
  "n \<le> MAX_JSON_BODY_BYTES \<Longrightarrow> (read_chunks n acc cs = Inl (RequestBodyError 413 ''PAYLOAD_TOO_LARGE'' ''JSON body exceeds 128 KiB''))
     = (MAX_JSON_BODY_BYTES < n + sum_list (map length cs))"
proof (induction n acc cs rule: read_chunks.induct)
  case (2 n body chunk rest)
  then show ?case by (cases "MAX_JSON_BODY_BYTES < n + length chunk") (simp_all add: add.assoc)
qed simp

lemma read_chunks_whole:
  "list_all valid_utf8 cs \<Longrightarrow> n + sum_list (map length cs) \<le> MAX_JSON_BODY_BYTES \<Longrightarrow> read_chunks n acc cs = Inr (acc @ concat cs)"
  by (induction cs arbitrary: n acc) (auto simp: add.assoc)

text \<open>
  A body is read whole or refused: it is answered with 413 exactly when its pieces hold more than
  128 KiB together; and a JSON object within the limit that arrives in pieces of whole characters,
  however many, is read as exactly the object that was sent.
\<close>

theorem body_round_trip:
  assumes "list_all valid_utf8 (rq_chunks rq)" "concat (rq_chunks rq) = stringify (JObj kvs)" "wf_json (JObj kvs)"
    "sum_list (map length (rq_chunks rq)) \<le> MAX_JSON_BODY_BYTES" "rq_failed rq = None"
  shows "readBody rq = Inr kvs
    \<and> (readBody other = Inl (RequestBodyError 413 ''PAYLOAD_TOO_LARGE'' ''JSON body exceeds 128 KiB'')
        \<longleftrightarrow> MAX_JSON_BODY_BYTES < sum_list (map length (rq_chunks other)))"
proof
  have "stringify (JObj kvs) \<noteq> []" by simp
  then show "readBody rq = Inr kvs"
    using read_chunks_whole [OF assms(1), of 0 "[]"] assms parse_stringify [OF assms(3)]
    by (simp add: readBody_def del: stringify.simps)
  let ?e = "RequestBodyError 413 ''PAYLOAD_TOO_LARGE'' ''JSON body exceeds 128 KiB''"
  have "readBody other = Inl ?e \<longleftrightarrow> read_chunks 0 [] (rq_chunks other) = Inl ?e"
    by (auto simp: readBody_def split: sum.splits option.splits json.splits if_splits)
  with read_chunks_size [of 0 "[]" "rq_chunks other"]
  show "readBody other = Inl ?e \<longleftrightarrow> MAX_JSON_BODY_BYTES < sum_list (map length (rq_chunks other))" by simp
qed

text \<open>A character of two bytes cut between them is not what was sent: two marks of replacement take its place.\<close>

lemma cut_body_differs:
  "read_chunks 0 [] [[CHR 0xC3], [CHR 0xA9]] \<noteq> read_chunks 0 [] [[CHR 0xC3, CHR 0xA9]]"
  using cut_character_lost by (simp add: MAX_JSON_BODY_BYTES_def del: decode_lossy.simps)

theorem body_round_trip_witness:
  "readBody \<lparr>rq_method = ''POST'', rq_headers = (\<lambda>_. None), rq_url = None, rq_chunks = [''{'', ''}''], rq_failed = None\<rparr> = Inr []"
proof -
  let ?rq = "\<lparr>rq_method = ''POST'', rq_headers = (\<lambda>_. None), rq_url = None, rq_chunks = [''{'', ''}''], rq_failed = None\<rparr> :: http_request"
  have "list_all valid_utf8 (rq_chunks ?rq)" by (simp add: utf8_lead_def)
  then show ?thesis using body_round_trip [of ?rq "[]" ?rq] by (simp add: MAX_JSON_BODY_BYTES_def)
qed

subsection \<open>Static files\<close>

lemma segments_nonempty [simp]: "segments s \<noteq> []"
  by (induction s) (auto split: list.split)

lemma segments_slash: "segments (a @ CHR ''/'' # b) = segments a @ segments b"
  by (induction a) (auto split: list.split)

lemma segments_plain: "CHR ''/'' \<notin> set x \<Longrightarrow> segments x = [x]"
  by (induction x) auto

lemma segments_clean: "x \<in> set (segments s) \<Longrightarrow> CHR ''/'' \<notin> set x"
  by (induction s arbitrary: x) (auto split: list.splits if_splits)

lemma segments_join: "\<forall>x \<in> set xs. CHR ''/'' \<notin> set x \<Longrightarrow> xs \<noteq> [] \<Longrightarrow> segments (join ''/'' xs) = xs"
  by (induction xs rule: induct_list012) (simp_all add: segments_plain segments_slash)

definition solid :: "string \<Rightarrow> bool" where
  "solid x \<longleftrightarrow> x \<notin> {[], ''.'', ''..''} \<and> CHR ''/'' \<notin> set x"

lemma normal_solid:
  "list_all solid kept \<Longrightarrow> \<forall>x \<in> set xs. CHR ''/'' \<notin> set x \<Longrightarrow> list_all solid (normal_segments kept xs)"
proof (induction kept xs rule: normal_segments.induct)
  case (2 kept x xs)
  have "list_all solid (tl kept)" using 2(4) by (cases kept) simp_all
  with 2 show ?case by (simp add: solid_def [of x])
qed simp

lemma normal_forward:
  "''..'' \<notin> set xs \<Longrightarrow> normal_segments kept xs = rev kept @ filter (\<lambda>x. x \<noteq> [] \<and> x \<noteq> ''.'') xs"
  by (induction kept xs rule: normal_segments.induct) auto

lemma normal_append: "normal_segments kept (xs @ ys) = normal_segments (rev (normal_segments kept xs)) ys"
  by (induction kept xs rule: normal_segments.induct) auto

lemma normal_solids: "list_all solid xs \<Longrightarrow> normal_segments kept xs = rev kept @ xs"
  by (induction xs arbitrary: kept) (auto simp: solid_def)

lemma normal_of_normal: "normal_segments [] (segments (normal_path d)) = normal_segments [] (segments d)"
proof -
  let ?n = "normal_segments [] (segments d)"
  have s: "list_all solid ?n" using normal_solid [of "[]" "segments d"] segments_clean by auto
  have "segments (normal_path d) = [] # (if ?n = [] then [[]] else ?n)"
    using segments_slash [of "[]" "join ''/'' ?n"] segments_join [of ?n] s
    by (auto simp: normal_path_def solid_def list_all_iff)
  then show ?thesis using normal_solids [OF s, of "[]"] by simp
qed

lemma resolve_below:
  assumes "\<not> prefix ''/'' p" "''..'' \<notin> set (segments p)"
  shows "\<exists>rest. resolve_path (normal_path d) p = CHR ''/'' # join ''/'' (normal_segments [] (segments d) @ rest)"
proof -
  have "segments (normal_path d @ ''/'' @ p) = segments (normal_path d) @ segments p" using segments_slash [of "normal_path d" p] by simp
  then have "normal_segments [] (segments (normal_path d @ ''/'' @ p)) = normal_segments (rev (normal_segments [] (segments d))) (segments p)"
    by (simp only: normal_append normal_of_normal)
  moreover have "resolve_path (normal_path d) p = CHR ''/'' # join ''/'' (normal_segments [] (segments (normal_path d @ ''/'' @ p)))"
    using assms(1) unfolding resolve_path_def normal_path_def [of "normal_path d @ ''/'' @ p"] by simp
  ultimately have "resolve_path (normal_path d) p
      = CHR ''/'' # join ''/'' (normal_segments (rev (normal_segments [] (segments d))) (segments p))" by simp
  with normal_forward [OF assms(2)] show ?thesis by auto
qed

text \<open>
  Where a static file is looked for: for a path of the parsed URL - which has no double-dot
  segment - whose second character is not another slash, below the client's directory, or in that
  directory's index; but a path that starts with two slashes names an absolute file, which is served
  from wherever it is when it exists.
\<close>

theorem static_files_by_path:
  assumes "se_client E = normal_path d" "\<not> prefix ''/'' p" "''..'' \<notin> set (segments p)"
  shows "(\<exists>rest. static_target E (CHR ''/'' # p) = CHR ''/'' # join ''/'' (normal_segments [] (segments d) @ rest))
    \<and> (se_exists E (normal_path (CHR ''/'' # q)) \<longrightarrow> static_target E (''//'' @ q) = normal_path (CHR ''/'' # q))"
proof
  have i: "\<not> prefix ''/'' ''index.html''" "''..'' \<notin> set (segments ''index.html'')" by simp_all
  show "\<exists>rest. static_target E (CHR ''/'' # p) = CHR ''/'' # join ''/'' (normal_segments [] (segments d) @ rest)"
    using resolve_below [OF assms(2,3), of d] resolve_below [OF i, of d] by (auto simp: static_target_def Let_def assms(1))
  show "se_exists E (normal_path (CHR ''/'' # q)) \<longrightarrow> static_target E (''//'' @ q) = normal_path (CHR ''/'' # q)"
    by (simp add: static_target_def resolve_path_def Let_def)
qed

definition toy_station_env :: station_env where
  "toy_station_env = \<lparr>
     se_config = parseArgv (\<lambda>p. p) ''/opt/cli.js'' [],
     se_cards = \<lparr>ci_mkdtemp = \<lambda>_. None, ci_write = \<lambda>_ _. False, ci_read = \<lambda>_. None, ci_bridge = \<lambda>_. Inl ''no child''\<rparr>,
     se_stamp = \<lambda>_. (''i'', ''t''), se_now = 0, se_startedAt = 0, se_answered = None, se_client = ''/srv/client'',
     se_exists = \<lambda>p. p = ''/etc/passwd'', se_file = \<lambda>p. if p = ''/etc/passwd'' then Some ''root'' else None\<rparr>"

theorem static_files_by_path_witness:
  "serve_static toy_station_env ''//etc/passwd'' = FileReply ''application/octet-stream'' ''root''
   \<and> (\<exists>rest. static_target toy_station_env ''/a.js'' = CHR ''/'' # join ''/'' ([''srv'', ''client''] @ rest))"
proof -
  have "se_client toy_station_env = normal_path ''/srv/client''" by (simp add: toy_station_env_def normal_path_def)
  from static_files_by_path [OF this, of "''a.js''" "''etc/passwd''"]
  show ?thesis by (simp add: toy_station_env_def serve_static_def normal_path_def extname_def MIME_TYPES_def)
qed

subsection \<open>Examples\<close>

definition toy_station :: station where
  "toy_station = \<lparr>st_status = new_status 0, st_telemetry = [], st_polling = False, st_pushed = [], st_logged = 0, st_calls = []\<rparr>"

definition toy_publish :: http_request where
  "toy_publish = \<lparr>rq_method = ''POST'',
     rq_headers = [''host'' \<mapsto> One ''localhost:3000'', ''content-type'' \<mapsto> One ''application/json; charset=utf-8''],
     rq_url = Some (''/api/publish'', None), rq_chunks = [], rq_failed = None\<rparr>"

lemma toy_media: "media_type ''application/json; charset=utf-8'' = ''application/json''"
  by code_simp

lemma toy_host: "map to_lower ''localhost:3000'' = ''localhost:3000''"
  by code_simp

lemma toy_admitted:
  "checkHost (rq_headers toy_publish) ''3000'' = None" "checkApiRequest ''POST'' (rq_headers toy_publish) ''3000'' = None"
proof -
  show "checkHost (rq_headers toy_publish) ''3000'' = None"
    by (simp add: checkHost_def header_def toy_publish_def toy_host allowedHosts_def LOOPBACK_HOSTNAMES_def del: list.map)
  show "checkApiRequest ''POST'' (rq_headers toy_publish) ''3000'' = None"
    by (simp add: checkApiRequest_def header_def toy_publish_def toy_media)
qed

lemma toy_port: "port_text (sc_port (se_config toy_station_env)) = ''3000''"
  unfolding toy_station_env_def parseArgv_def by code_simp

lemma toy_idle: "st_calls toy_station = []"
  by (simp add: toy_station_def)

lemma toy_published: "handle_request toy_station_env toy_publish toy_station = api_publish toy_station_env toy_station"
  unfolding handle_request_def toy_port Let_def toy_admitted
  using toy_admitted by (simp add: toy_publish_def)

theorem station_acts_for_its_page_witness:
  "st_calls (snd (handle_request toy_station_env toy_publish toy_station)) = [CallPublish]
   \<and> header (rq_headers toy_publish) ''sec-fetch-site'' \<in> {None, Some ''same-origin'', Some ''none''}"
proof -
  obtain r st' where h: "handle_request toy_station_env toy_publish toy_station = (r, st')" by fastforce
  have c: "st_calls st' = [CallPublish]"
    using other_calls(3) [of toy_station_env toy_station] h toy_published toy_idle by simp
  from station_acts_for_its_page [OF h] obtain cmds where "st_calls st' = st_calls toy_station @ cmds"
      "cmds \<noteq> [] \<longrightarrow> header (rq_headers toy_publish) ''sec-fetch-site'' \<in> {None, Some ''same-origin'', Some ''none''}" by blast
  with c h show ?thesis by (simp add: toy_idle)
qed

theorem polls_never_overlap_witness:
  "st_polling (poll_tick (poll_tick toy_station)) \<and> length (filter (\<lambda>c. c = CallPoll) (st_calls (poll_tick (poll_tick toy_station)))) = 1"
proof -
  have "station_run (se_config toy_station_env) 0 0 toy_station" by (rule listening) (simp_all add: toy_station_def)
  from ticked [OF ticked [OF this]] have "station_run (se_config toy_station_env) 1 0 (poll_tick (poll_tick toy_station))"
    by (simp add: poll_tick_def toy_station_def ran_def)
  from polls_never_overlap [OF this] show ?thesis by simp
qed

end
