(* ===== verification/Host.thy ===== *)
theory Host
  imports StationServer "HOL-Library.AList"
begin

text \<open>
  The operator's machine as the tools of \<open>apps/cli/src/operator\<close> see it: a tree of files, the
  environment of the process, the lines the operator types and the processes in the background; and
  \<open>runtime/globalPaths.ts\<close>, where everything of Echolet lies under one directory.

  The tree has no symbolic links, an operation fails only for what the tree holds, a new file gets the
  mode that is asked for, and the contents of a file are the text they decode to. A path that is not
  absolute is taken from the working directory.
\<close>

subsection \<open>Indented JSON\<close>

text \<open>\<open>JSON.stringify(v, null, 2)\<close>; the first argument is the depth.\<close>

definition indent :: "nat \<Rightarrow> string" where
  "indent d = CHR 0x0A # replicate (2 * d) (CHR '' '')"

fun pretty :: "nat \<Rightarrow> json \<Rightarrow> string"
  and pretty_elems :: "nat \<Rightarrow> json list \<Rightarrow> string"
  and pretty_members :: "nat \<Rightarrow> (string \<times> json) list \<Rightarrow> string" where
  "pretty d JNull = ''null''"
| "pretty d (JBool b) = (if b then ''true'' else ''false'')"
| "pretty d (JNum i) = show_int i"
| "pretty d (JStr s) = quote s"
| "pretty d (JArr vs) = (if vs = [] then ''[]'' else CHR ''['' # pretty_elems (Suc d) vs @ indent d @ '']'')"
| "pretty d (JObj kvs) = (if kvs = [] then ''{}'' else CHR ''{'' # pretty_members (Suc d) kvs @ indent d @ ''}'')"
| "pretty_elems d [] = []"
| "pretty_elems d (v # vs) = indent d @ pretty d v @ (if vs = [] then [] else CHR '','' # pretty_elems d vs)"
| "pretty_members d [] = []"
| "pretty_members d ((k, v) # kvs) =
     indent d @ quote k @ '': '' @ pretty d v @ (if kvs = [] then [] else CHR '','' # pretty_members d kvs)"

lemma skip_indent [simp]: "skip_ws (indent d @ s) = skip_ws s"
proof -
  have "skip_ws (replicate n (CHR '' '') @ s) = skip_ws s" for n by (induction n) (simp_all add: is_ws_def)
  then show ?thesis by (simp add: indent_def is_ws_def)
qed

lemma skip_blank [simp]: "skip_ws (CHR '' '' # s) = skip_ws s"
  by (simp add: is_ws_def)

lemma terminated_indent [simp]: "terminated (indent d @ s)"
  by (simp add: indent_def)

lemma parse_blank [simp]: "parse_value n (CHR '' '' # s) = parse_value n s"
  by (cases n) (simp_all add: is_ws_def)

lemma parse_indent [simp]:
  "parse_value n (indent d @ s) = parse_value n s" "parse_elems n (indent d @ s) = parse_elems n s"
  "parse_members n (indent d @ s) = parse_members n s"
proof -
  show v: "parse_value n (indent d @ s) = parse_value n s" for n by (cases n) simp_all
  show "parse_elems n (indent d @ s) = parse_elems n s" by (cases n) (simp_all add: v)
  show "parse_members n (indent d @ s) = parse_members n s" by (cases n) simp_all
qed

lemma pretty_Cons:
  obtains c cs where "pretty d v = c # cs" "\<not> is_ws c" "c \<noteq> CHR '']''"
proof -
  have "\<exists>c cs. pretty d v = c # cs \<and> \<not> is_ws c \<and> c \<noteq> CHR '']''"
  proof (cases v)
    case (JNum i)
    obtain c cs where c: "show_int i = c # cs" "is_digit c \<or> c = CHR ''-''" by (rule show_int_Cons)
    from digit_or_minus [OF c(2)] c(1) JNum show ?thesis by simp
  qed (simp_all add: is_ws_def quote_def)
  with that show thesis by blast
qed

lemma parse_pretty:
  shows "wf_json v \<Longrightarrow> terminated rest \<Longrightarrow> length (pretty d v) < n
      \<Longrightarrow> parse_value n (pretty d v @ rest) = Some (v, rest)"
    and "vs \<noteq> [] \<Longrightarrow> wf_elems vs \<Longrightarrow> Suc (length (pretty_elems d vs)) < n
      \<Longrightarrow> parse_elems n (pretty_elems d vs @ indent e @ CHR '']'' # rest) = Some (vs, rest)"
    and "kvs \<noteq> [] \<Longrightarrow> wf_members kvs \<Longrightarrow> Suc (length (pretty_members d kvs)) < n
      \<Longrightarrow> parse_members n (pretty_members d kvs @ indent e @ CHR ''}'' # rest) = Some (kvs, rest)"
proof (induction d v and d vs and d kvs arbitrary: n rest and n rest e and n rest e rule: pretty_pretty_elems_pretty_members.induct)
  case (1 d)
  then show ?case by (cases n) (simp_all add: parse_word_def)
next
  case (2 d b)
  then show ?case by (cases n) (simp_all add: parse_word_def)
next
  case (3 d i)
  then obtain m where "n = Suc m" by (cases n) auto
  with 3 parse_value_num [of rest m i] show ?case by (simp del: parse_value.simps)
next
  case (4 d s)
  then show ?case by (cases n) (simp_all add: quote_append parse_quoted)
next
  case (5 d vs)
  then obtain m where n: "n = Suc m" by (cases n) auto
  show ?case
  proof (cases vs)
    case (Cons w ws)
    from 5 n Cons have p: "parse_elems m (pretty_elems (Suc d) vs @ indent d @ CHR '']'' # rest) = Some (vs, rest)" by simp
    obtain c cs where c: "pretty (Suc d) w = c # cs" "\<not> is_ws c" "c \<noteq> CHR '']''" by (rule pretty_Cons)
    define more_text where "more_text = (if ws = [] then [] else CHR '','' # pretty_elems (Suc d) ws) @ indent d @ CHR '']'' # rest"
    have t: "pretty_elems (Suc d) vs @ indent d @ CHR '']'' # rest = indent (Suc d) @ c # cs @ more_text"
      using Cons c by (simp add: more_text_def)
    with p have "parse_elems m (c # cs @ more_text) = Some (vs, rest)" by simp
    moreover have "pretty d (JArr vs) @ rest = CHR ''['' # indent (Suc d) @ c # cs @ more_text" using t Cons by simp
    ultimately show ?thesis using c n by simp
  qed (simp add: n)
next
  case (6 d kvs)
  then obtain m where n: "n = Suc m" by (cases n) auto
  show ?case
  proof (cases kvs)
    case (Cons kv ws)
    obtain k w where kv: "kv = (k, w)" by fastforce
    from 6 n Cons have p: "parse_members m (pretty_members (Suc d) kvs @ indent d @ CHR ''}'' # rest) = Some (kvs, rest)" by simp
    define more_text where "more_text = concat (map escape_char k) @ CHR 0x22 # '': '' @ pretty (Suc d) w
        @ (if ws = [] then [] else CHR '','' # pretty_members (Suc d) ws) @ indent d @ CHR ''}'' # rest"
    have t: "pretty_members (Suc d) kvs @ indent d @ CHR ''}'' # rest = indent (Suc d) @ CHR 0x22 # more_text"
      using Cons kv by (simp add: more_text_def quote_append)
    with p have "parse_members m (CHR 0x22 # more_text) = Some (kvs, rest)" by simp
    moreover have "pretty d (JObj kvs) @ rest = CHR ''{'' # indent (Suc d) @ CHR 0x22 # more_text" using t Cons by simp
    moreover have "obj_of kvs = kvs" using 6 by (simp add: obj_of_distinct)
    ultimately show ?thesis using n by simp
  qed (simp add: n)
next
  case (7 d)
  then show ?case by simp
next
  case (8 d v vs)
  then obtain m where n: "n = Suc m" by (cases n) auto
  show ?case
  proof (cases "vs = []")
    case True
    with 8 n show ?thesis by simp
  next
    case False
    with 8 n have "parse_elems m (pretty_elems d vs @ indent e @ CHR '']'' # rest) = Some (vs, rest)" by simp
    moreover from 8 n False have
      "parse_value m (pretty d v @ CHR '','' # pretty_elems d vs @ indent e @ CHR '']'' # rest)
        = Some (v, CHR '','' # pretty_elems d vs @ indent e @ CHR '']'' # rest)" by simp
    ultimately show ?thesis using n False by simp
  qed
next
  case (9 d)
  then show ?case by simp
next
  case (10 d k v kvs)
  then obtain m where n: "n = Suc m" by (cases n) auto
  show ?case
  proof (cases "kvs = []")
    case True
    with 10 n have "parse_value m (pretty d v @ indent e @ CHR ''}'' # rest) = Some (v, indent e @ CHR ''}'' # rest)" by simp
    then show ?thesis using n True by (simp add: quote_append parse_quoted)
  next
    case False
    with 10 n have "parse_members m (pretty_members d kvs @ indent e @ CHR ''}'' # rest) = Some (kvs, rest)" by (simp add: quote_def)
    moreover from 10 n False have
      "parse_value m (pretty d v @ CHR '','' # pretty_members d kvs @ indent e @ CHR ''}'' # rest)
        = Some (v, CHR '','' # pretty_members d kvs @ indent e @ CHR ''}'' # rest)" by (simp add: quote_def)
    ultimately show ?thesis using n False by (simp add: quote_append parse_quoted)
  qed
qed

theorem parse_pretty_json: "wf_json v \<Longrightarrow> parse_json (pretty 0 v) = Some v"
  using parse_pretty(1) [of v "[]" 0 "Suc (2 * length (pretty 0 v))"] by (simp add: parse_json_def)

subsection \<open>The machine\<close>

type_synonym place = "string list"

datatype node = Folder nat | Document nat string

type_synonym tree = "(place \<times> node) list"

text \<open>Whether a signal could be sent to a process: it could, it may not be, or there is none.\<close>

datatype probe = Alive | Forbidden | Gone

record spawned =
  sp_command :: string
  sp_args :: "string list"
  sp_env :: "string \<Rightarrow> string option"

text \<open>What is printed is named by a tag, with the values it shows.\<close>

record host =
  ho_env :: "string \<Rightarrow> string option"
  ho_nodes :: tree
  ho_lines :: "string list"
  ho_said :: "(string \<times> string list) list"
  ho_spawned :: "spawned list"
  ho_probe :: "int \<Rightarrow> probe"
  ho_signals :: "int list"
  ho_draws :: nat

text \<open>
  What a machine does not change: its directories, the 32 bytes and the time of each draw, the process
  id of a child - None when the system starts none, and an error when spawning throws - and Docker.
\<close>

record machine =
  ma_cwd :: string
  ma_homedir :: string
  ma_keys :: "nat \<Rightarrow> bytes"
  ma_spawn :: "nat \<Rightarrow> exn + int option"
  ma_docker :: "string list \<Rightarrow> exn + string"

definition place_of :: "string \<Rightarrow> string \<Rightarrow> place" where
  "place_of cwd p = normal_segments [] (segments (if prefix ''/'' p then p else cwd @ ''/'' @ p))"

definition node_at :: "tree \<Rightarrow> place \<Rightarrow> node option" where
  "node_at t k = (if k = [] then Some (Folder 493) else map_of t k)"

definition private_file :: nat where "private_file = 384"
definition private_folder :: nat where "private_folder = 448"

definition on_tree :: "(tree \<Rightarrow> (exn + 'a) \<times> tree) \<Rightarrow> (host, 'a) op" where
  "on_tree f h = (case f (ho_nodes h) of (r, t) \<Rightarrow> (r, h\<lparr>ho_nodes := t\<rparr>))"

definition enoent :: exn where "enoent = PlainError ''ENOENT''"
definition eisdir :: exn where "eisdir = PlainError ''EISDIR''"
definition eexist :: exn where "eexist = PlainError ''EEXIST''"

definition tree_read :: "place \<Rightarrow> tree \<Rightarrow> exn + string" where
  "tree_read k t = (case node_at t k of Some (Document m c) \<Rightarrow> Inr c | Some (Folder m) \<Rightarrow> Inl eisdir | None \<Rightarrow> Inl enoent)"

definition tree_write :: "place \<Rightarrow> nat \<Rightarrow> string \<Rightarrow> tree \<Rightarrow> (exn + unit) \<times> tree" where
  "tree_write k mode c t =
     (case node_at t k of
        Some (Folder m) \<Rightarrow> (Inl eisdir, t)
      | Some (Document m old) \<Rightarrow> (Inr (), AList.update k (Document m c) t)
      | None \<Rightarrow>
          (case node_at t (butlast k) of
             Some (Folder m) \<Rightarrow> (Inr (), AList.update k (Document mode c) t)
           | _ \<Rightarrow> (Inl enoent, t)))"

fun tree_mkdirs :: "nat \<Rightarrow> place \<Rightarrow> place \<Rightarrow> tree \<Rightarrow> (exn + unit) \<times> tree" where
  "tree_mkdirs mode up [] t = (Inr (), t)"
| "tree_mkdirs mode up (x # xs) t =
     (let k = up @ [x] in
      case node_at t k of
        None \<Rightarrow> tree_mkdirs mode k xs (AList.update k (Folder mode) t)
      | Some (Folder m) \<Rightarrow> tree_mkdirs mode k xs t
      | Some (Document m c) \<Rightarrow> (Inl eexist, t))"

definition tree_chmod :: "place \<Rightarrow> nat \<Rightarrow> tree \<Rightarrow> (exn + unit) \<times> tree" where
  "tree_chmod k mode t =
     (case node_at t k of
        None \<Rightarrow> (Inl enoent, t)
      | Some (Folder m) \<Rightarrow> (Inr (), if k = [] then t else AList.update k (Folder mode) t)
      | Some (Document m c) \<Rightarrow> (Inr (), AList.update k (Document mode c) t))"

definition tree_remove :: "place \<Rightarrow> tree \<Rightarrow> tree" where
  "tree_remove k t = filter (\<lambda>(j, n). \<not> prefix k j) t"

definition tree_unlink :: "place \<Rightarrow> tree \<Rightarrow> (exn + unit) \<times> tree" where
  "tree_unlink k t =
     (case node_at t k of
        Some (Document m c) \<Rightarrow> (Inr (), AList.delete k t)
      | Some (Folder m) \<Rightarrow> (Inl eisdir, t)
      | None \<Rightarrow> (Inl enoent, t))"

definition tree_folders :: "place \<Rightarrow> tree \<Rightarrow> string list" where
  "tree_folders k t = map (last \<circ> fst) (filter (\<lambda>(j, n). j \<noteq> [] \<and> butlast j = k \<and> (case n of Folder m \<Rightarrow> True | _ \<Rightarrow> False)) t)"

definition existsSync :: "machine \<Rightarrow> string \<Rightarrow> (host, bool) op" where
  "existsSync M p h = (Inr (node_at (ho_nodes h) (place_of (ma_cwd M) p) \<noteq> None), h)"

definition readFileSync :: "machine \<Rightarrow> string \<Rightarrow> (host, string) op" where
  "readFileSync M p h = (tree_read (place_of (ma_cwd M) p) (ho_nodes h), h)"

definition writeFileSync :: "machine \<Rightarrow> string \<Rightarrow> nat \<Rightarrow> string \<Rightarrow> (host, unit) op" where
  "writeFileSync M p mode c = on_tree (tree_write (place_of (ma_cwd M) p) mode c)"

definition mkdirSync :: "machine \<Rightarrow> string \<Rightarrow> nat \<Rightarrow> (host, unit) op" where
  "mkdirSync M p mode = on_tree (tree_mkdirs mode [] (place_of (ma_cwd M) p))"

definition chmodSync :: "machine \<Rightarrow> string \<Rightarrow> nat \<Rightarrow> (host, unit) op" where
  "chmodSync M p mode = on_tree (tree_chmod (place_of (ma_cwd M) p) mode)"

definition rmSync :: "machine \<Rightarrow> string \<Rightarrow> (host, unit) op" where
  "rmSync M p = on_tree (\<lambda>t. (Inr (), tree_remove (place_of (ma_cwd M) p) t))"

definition unlinkSync :: "machine \<Rightarrow> string \<Rightarrow> (host, unit) op" where
  "unlinkSync M p = on_tree (tree_unlink (place_of (ma_cwd M) p))"

text \<open>\<open>try { ... } catch {}\<close> around an operation, and the value taken when it throws.\<close>

definition or_ignore :: "'a \<Rightarrow> (host, 'a) op \<Rightarrow> (host, 'a) op" where
  "or_ignore d m h = (case m h of (Inl e, h') \<Rightarrow> (Inr d, h') | (Inr x, h') \<Rightarrow> (Inr x, h'))"

definition say :: "string \<Rightarrow> string list \<Rightarrow> (host, unit) op" where
  "say tag vs h = (Inr (), h\<lparr>ho_said := ho_said h @ [(tag, vs)]\<rparr>)"

subsection \<open>Where everything lies\<close>

definition DEFAULT_RELAY_URL :: string where
  "DEFAULT_RELAY_URL = ''https://depr.tail5a88fb.ts.net:8443''"

definition DEFAULT_PORT :: nat where "DEFAULT_PORT = 3001"

text \<open>\<open>path.join\<close> below an absolute directory.\<close>

definition join_path :: "string \<Rightarrow> string \<Rightarrow> string" where
  "join_path a b = normal_path (a @ ''/'' @ b)"

definition getEcholetHome :: "machine \<Rightarrow> host \<Rightarrow> string" where
  "getEcholetHome M h =
     (case ho_env h ''ECHOLET_HOME'' of
        Some v \<Rightarrow> if v \<noteq> [] then v else join_path (ma_homedir M) ''.echolet''
      | None \<Rightarrow> join_path (ma_homedir M) ''.echolet'')"

definition getProfilesDir :: "machine \<Rightarrow> host \<Rightarrow> string" where
  "getProfilesDir M h = join_path (getEcholetHome M h) ''profiles''"

definition getProfileDir :: "machine \<Rightarrow> host \<Rightarrow> string \<Rightarrow> string" where
  "getProfileDir M h who = join_path (getProfilesDir M h) who"

definition getStoreKeyPath :: "machine \<Rightarrow> host \<Rightarrow> string \<Rightarrow> string" where
  "getStoreKeyPath M h who = join_path (getProfileDir M h who) ''store.key''"

definition getClientDbPath :: "machine \<Rightarrow> host \<Rightarrow> string \<Rightarrow> string" where
  "getClientDbPath M h who = join_path (getProfileDir M h who) ''client.sqlite''"

definition getCardPath :: "machine \<Rightarrow> host \<Rightarrow> string \<Rightarrow> string" where
  "getCardPath M h who = join_path (getProfileDir M h who) ''identity.card.json''"

definition getProfileConfigPath :: "machine \<Rightarrow> host \<Rightarrow> string \<Rightarrow> string" where
  "getProfileConfigPath M h who = join_path (getProfileDir M h who) ''config.json''"

definition getRunDir :: "machine \<Rightarrow> host \<Rightarrow> string" where
  "getRunDir M h = join_path (getEcholetHome M h) ''run''"

definition getLogsDir :: "machine \<Rightarrow> host \<Rightarrow> string" where
  "getLogsDir M h = join_path (getEcholetHome M h) ''logs''"

definition getRepeaterDir :: "machine \<Rightarrow> host \<Rightarrow> string" where
  "getRepeaterDir M h = join_path (getEcholetHome M h) ''repeater''"

definition getRepeaterEnvPath :: "machine \<Rightarrow> host \<Rightarrow> string" where
  "getRepeaterEnvPath M h = join_path (getRepeaterDir M h) ''config.env''"

definition getRepeaterDbPath :: "machine \<Rightarrow> host \<Rightarrow> string" where
  "getRepeaterDbPath M h = join_path (getRepeaterDir M h) ''data''"

definition config_path :: "machine \<Rightarrow> host \<Rightarrow> string" where
  "config_path M h = join_path (getEcholetHome M h) ''config.json''"

text \<open>An operation that reads the machine's paths before it runs.\<close>

definition looking :: "(host \<Rightarrow> (host, 'a) op) \<Rightarrow> (host, 'a) op" where
  "looking f h = f h h"

definition ensureKeyPermissions :: "machine \<Rightarrow> string \<Rightarrow> (host, unit) op" where
  "ensureKeyPermissions M p = chmodSync M p private_file"

definition ensure_folder :: "machine \<Rightarrow> string \<Rightarrow> (host, unit) op" where
  "ensure_folder M p = andThen (mkdirSync M p private_folder) (\<lambda>_. chmodSync M p private_folder)"

fun each :: "('a \<Rightarrow> (host, unit) op) \<Rightarrow> 'a list \<Rightarrow> (host, unit) op" where
  "each f [] = ret ()"
| "each f (x # xs) = andThen (f x) (\<lambda>_. each f xs)"

definition ensureEcholetDirs :: "machine \<Rightarrow> (host, unit) op" where
  "ensureEcholetDirs M = looking (\<lambda>h. each (ensure_folder M)
     [getEcholetHome M h, getProfilesDir M h, getRepeaterDir M h, getRunDir M h, getLogsDir M h])"

definition getActiveProfile :: "machine \<Rightarrow> (host, string option) op" where
  "getActiveProfile M = looking (\<lambda>h.
     andThen (existsSync M (config_path M h)) (\<lambda>found.
       if \<not> found then ret None
       else or_ignore None (andThen (readFileSync M (config_path M h)) (\<lambda>contents.
         case parse_json contents of
           None \<Rightarrow> raise (PlainError ''SyntaxError'')
         | Some parsed \<Rightarrow>
             (case jprop parsed ''activeProfile'' of
                JStr s \<Rightarrow> ret (if trim s \<noteq> [] then Some (trim s) else None)
              | _ \<Rightarrow> ret None)))))"

definition initial_config :: json where
  "initial_config = JObj [(''defaultRelayUrl'', JStr DEFAULT_RELAY_URL), (''defaultPort'', JNum (int DEFAULT_PORT))]"

definition write_config :: "machine \<Rightarrow> json \<Rightarrow> (host, unit) op" where
  "write_config M config = looking (\<lambda>h.
     andThen (writeFileSync M (config_path M h) private_file (pretty 0 config)) (\<lambda>_.
       chmodSync M (config_path M h) private_file))"

definition setActiveProfile :: "machine \<Rightarrow> string \<Rightarrow> (host, unit) op" where
  "setActiveProfile M who =
     andThen (ensureEcholetDirs M) (\<lambda>_. looking (\<lambda>h.
     andThen (existsSync M (config_path M h)) (\<lambda>found.
     andThen (if found
        then or_ignore [] (andThen (readFileSync M (config_path M h)) (\<lambda>contents.
               case parse_json contents of Some (JObj kvs) \<Rightarrow> ret kvs | _ \<Rightarrow> ret []))
        else ret [(''defaultRelayUrl'', JStr DEFAULT_RELAY_URL), (''defaultPort'', JNum (int DEFAULT_PORT))]) (\<lambda>kvs.
       write_config M (JObj (obj_put ''activeProfile'' (JStr who) kvs))))))"

definition listProfiles :: "machine \<Rightarrow> (host, string list) op" where
  "listProfiles M h =
     (Inr (tree_folders (place_of (ma_cwd M) (getProfilesDir M h)) (ho_nodes h)), h)"

definition getGlobalConfig :: "machine \<Rightarrow> (host, json) op" where
  "getGlobalConfig M =
     andThen (ensureEcholetDirs M) (\<lambda>_. looking (\<lambda>h.
     andThen (existsSync M (config_path M h)) (\<lambda>found.
       if \<not> found then andThen (write_config M initial_config) (\<lambda>_. ret initial_config)
       else or_ignore initial_config (andThen (readFileSync M (config_path M h)) (\<lambda>contents.
         case parse_json contents of None \<Rightarrow> raise (PlainError ''SyntaxError'') | Some v \<Rightarrow> ret v)))))"

definition saveGlobalConfig :: "machine \<Rightarrow> json \<Rightarrow> (host, unit) op" where
  "saveGlobalConfig M config = andThen (ensureEcholetDirs M) (\<lambda>_. write_config M config)"

definition drawKey :: "machine \<Rightarrow> (host, string) op" where
  "drawKey M h = (Inr (encodeBase64Url (ma_keys M (ho_draws h))), h\<lparr>ho_draws := Suc (ho_draws h)\<rparr>)"

definition getProfileKey :: "machine \<Rightarrow> string \<Rightarrow> (host, string) op" where
  "getProfileKey M name = looking (\<lambda>h.
     let dir = getProfileDir M h name; keyPath = getStoreKeyPath M h name in
     andThen (existsSync M keyPath) (\<lambda>found.
       if found then andThen (readFileSync M keyPath) (\<lambda>contents. ret (trim contents))
       else
         andThen (drawKey M) (\<lambda>key.
         andThen (existsSync M dir) (\<lambda>known.
         andThen (if known then ret () else ensure_folder M dir) (\<lambda>_.
         andThen (writeFileSync M keyPath private_file key) (\<lambda>_.
         andThen (ensureKeyPermissions M keyPath) (\<lambda>_. ret key)))))))"

subsection \<open>Parsed values and trimmed texts\<close>

lemma obj_put_wf:
  "distinct (map fst kvs) \<Longrightarrow> distinct (map fst (obj_put k v kvs))"
  "fst ` set (obj_put k v kvs) = insert k (fst ` set kvs)"
proof -
  show "fst ` set (obj_put k v kvs) = insert k (fst ` set kvs)" for kvs
  proof (induction kvs)
    case (Cons kv kvs)
    obtain a b where "kv = (a, b)" by fastforce
    with Cons show ?case by (cases "a = k") auto
  qed simp
  then show "distinct (map fst kvs) \<Longrightarrow> distinct (map fst (obj_put k v kvs))"
    by (induction kvs) auto
qed

lemma obj_put_members: "wf_members kvs \<Longrightarrow> wf_json v \<Longrightarrow> wf_members (obj_put k v kvs)"
  by (induction kvs) auto

lemma obj_put_get [simp]: "map_of (obj_put k v kvs) j = (if j = k then Some v else map_of kvs j)"
  by (induction kvs) auto

definition visible :: "string \<Rightarrow> bool" where
  "visible s \<longleftrightarrow> list_all (\<lambda>c. 33 \<le> (of_char c :: nat) \<and> (of_char c :: nat) < 127) s"

lemma trim_visible: "visible s \<Longrightarrow> trim s = s"
proof -
  assume v: "visible s"
  have w: "w \<noteq> [] \<and> \<not> visible [hd w] \<and> \<not> visible [last w]" if "w \<in> set white_sequences" for w
    using that by (auto simp: white_sequences_def visible_def)
  have "\<not> prefix w s" "\<not> suffix w s" if "w \<in> set white_sequences" for w
    using w [OF that] v by (cases w; auto simp: prefix_def suffix_def visible_def)+
  then have "find (\<lambda>w. prefix w s) white_sequences = None" "find (\<lambda>w. suffix w s) white_sequences = None"
    by (simp_all add: find_None_iff)
  then show ?thesis by (simp add: trim_def trim_start.simps trim_end.simps)
qed

lemma url_visible: "list_all is_url_char s \<Longrightarrow> visible s"
  unfolding visible_def list_all_iff is_url_char_def is_url_code_def by auto

subsection \<open>The tree\<close>

lemma place_of_normal [simp]: "place_of cwd (normal_path p) = normal_segments [] (segments p)"
  using normal_of_normal [of p] by (simp add: place_of_def) (simp add: normal_path_def)

lemma place_of_join:
  assumes "solid b"
  shows "place_of cwd (join_path a b) = normal_segments [] (segments a) @ [b]"
proof -
  have "segments b = [b]" using assms by (simp add: solid_def segments_plain)
  then have a: "segments (a @ ''/'' @ b) = segments a @ [b]" using segments_slash [of a b] by simp
  have "list_all solid [b]" using assms by simp
  from normal_solids [OF this, of "rev (normal_segments [] (segments a))"]
  have "normal_segments [] (segments a @ [b]) = normal_segments [] (segments a) @ [b]"
    by (simp only: normal_append rev_rev_ident)
  with a show ?thesis by (simp add: join_path_def)
qed

lemma place_of_absolute: "prefix ''/'' a \<Longrightarrow> place_of cwd a = normal_segments [] (segments a)"
  by (simp add: place_of_def)

lemma node_at_update: "k \<noteq> [] \<Longrightarrow> node_at (AList.update k v t) j = (if j = k then Some v else node_at t j)"
  by (simp add: node_at_def update_conv')

lemma tree_write_reads:
  assumes "tree_write k mode c t = (Inr (), t')"
  shows "tree_read k t' = Inr c \<and> (\<forall>j. j \<noteq> k \<longrightarrow> node_at t' j = node_at t j)
    \<and> node_at t' k = Some (Document (case node_at t k of Some (Document m d) \<Rightarrow> m | _ \<Rightarrow> mode) c)"
proof -
  have "k \<noteq> []" using assms by (auto simp: tree_write_def node_at_def)
  with assms show ?thesis by (auto simp: tree_write_def tree_read_def node_at_update split: option.splits node.splits)
qed

text \<open>What making and protecting a folder leaves as it was: every document, and every folder but that one.\<close>

definition only_folders :: "tree \<Rightarrow> tree \<Rightarrow> bool" where
  "only_folders t t' \<longleftrightarrow> (\<forall>j. (\<forall>m c. node_at t j = Some (Document m c) \<longleftrightarrow> node_at t' j = Some (Document m c))
     \<and> (\<forall>m. node_at t j = Some (Folder m) \<longrightarrow> (\<exists>m'. node_at t' j = Some (Folder m'))))"

lemma only_folders_refl: "only_folders t t"
  by (auto simp: only_folders_def)

lemma only_folders_trans: "only_folders t u \<Longrightarrow> only_folders u v \<Longrightarrow> only_folders t v"
  unfolding only_folders_def by metis

lemma only_foldersD: "only_folders t t' \<Longrightarrow> \<exists>m. node_at t j = Some (Folder m) \<Longrightarrow> \<exists>m. node_at t' j = Some (Folder m)"
  unfolding only_folders_def by blast

lemma mkdirs_keep: "only_folders t (snd (tree_mkdirs mode up p t))"
proof (induction mode up p t rule: tree_mkdirs.induct)
  case (1 mode up t)
  then show ?case by (simp add: only_folders_refl)
next
  case (2 mode up x xs t)
  have "only_folders t (AList.update (up @ [x]) (Folder mode) t)" if "node_at t (up @ [x]) = None"
    using that by (auto simp: only_folders_def node_at_update)
  with 2 show ?case by (auto simp: Let_def only_folders_refl split: option.splits node.splits intro: only_folders_trans)
qed

lemma mkdirs_same: "node_at t j = Some n \<Longrightarrow> node_at (snd (tree_mkdirs mode up p t)) j = Some n"
proof (induction mode up p t rule: tree_mkdirs.induct)
  case (2 mode up x xs t)
  show ?case
  proof (cases "node_at t (up @ [x])")
    case None
    with 2(3) have "j \<noteq> up @ [x]" by auto
    with None 2(1) [OF refl None] 2(3) show ?thesis by (simp add: Let_def node_at_update)
  next
    case (Some n)
    with 2(2) [OF refl Some] 2(3) show ?thesis by (cases n) (auto simp: Let_def)
  qed
qed simp

lemma mkdirs_there:
  "tree_mkdirs mode up p t = (Inr (), t') \<Longrightarrow> (\<exists>m. node_at t up = Some (Folder m)) \<Longrightarrow> \<exists>m. node_at t' (up @ p) = Some (Folder m)"
proof (induction mode up p t arbitrary: t' rule: tree_mkdirs.induct)
  case (2 mode up x xs t)
  show ?case
  proof (cases "node_at t (up @ [x])")
    case None
    with 2(1) [OF refl None] 2(3) show ?thesis by (simp add: Let_def node_at_update)
  next
    case (Some n)
    with 2(2) [OF refl Some] 2(3) show ?thesis by (cases n) (auto simp: Let_def)
  qed
qed simp

lemma chmod_keep: "only_folders t (snd (tree_chmod k mode t))" if "\<exists>m. node_at t k = Some (Folder m)"
proof -
  from that obtain m where m: "node_at t k = Some (Folder m)" by blast
  show ?thesis
  proof (cases "k = []")
    case False
    with m show ?thesis by (simp add: tree_chmod_def only_folders_def node_at_update)
  qed (use m in \<open>simp add: tree_chmod_def only_folders_refl\<close>)
qed

text \<open>What the operations on the machine leave alone beside the tree.\<close>

lemma on_tree_result:
  "on_tree f h = (r, h') \<longleftrightarrow> (\<exists>t. f (ho_nodes h) = (r, t) \<and> h' = h\<lparr>ho_nodes := t\<rparr>)"
  by (cases "f (ho_nodes h)") (auto simp: on_tree_def)

lemma ensure_folder_result:
  assumes "ensure_folder M p h = (Inr (), h')"
  shows "(\<exists>t. h' = h\<lparr>ho_nodes := t\<rparr>) \<and> only_folders (ho_nodes h) (ho_nodes h')
    \<and> (\<exists>m. node_at (ho_nodes h') (place_of (ma_cwd M) p) = Some (Folder m))
    \<and> (place_of (ma_cwd M) p \<noteq> [] \<longrightarrow> node_at (ho_nodes h') (place_of (ma_cwd M) p) = Some (Folder private_folder))
    \<and> (\<forall>j m. j \<noteq> place_of (ma_cwd M) p \<longrightarrow> node_at (ho_nodes h) j = Some (Folder m) \<longrightarrow> node_at (ho_nodes h') j = Some (Folder m))"
proof -
  let ?k = "place_of (ma_cwd M) p"
  from assms obtain u where u: "tree_mkdirs private_folder [] ?k (ho_nodes h) = (Inr (), u)"
      "tree_chmod ?k private_folder u = (Inr (), ho_nodes h')" "\<exists>t. h' = h\<lparr>ho_nodes := t\<rparr>"
    by (fastforce simp: ensure_folder_def mkdirSync_def chmodSync_def andThen_Inr_iff on_tree_result)
  have there: "\<exists>m. node_at u ?k = Some (Folder m)" using mkdirs_there [OF u(1)] by (simp add: node_at_def)
  have "only_folders (ho_nodes h) u" using mkdirs_keep [of "ho_nodes h" private_folder "[]" ?k] u(1) by simp
  moreover have "only_folders u (ho_nodes h')" using chmod_keep [OF there, of private_folder] u(2) by simp
  ultimately have "only_folders (ho_nodes h) (ho_nodes h')" by (rule only_folders_trans)
  moreover have "node_at (ho_nodes h) j = Some n \<Longrightarrow> node_at u j = Some n" for j n
    using mkdirs_same [of "ho_nodes h" j n private_folder "[]" ?k] u(1) by simp
  moreover have "node_at (ho_nodes h') j = (if j = ?k \<and> ?k \<noteq> [] then Some (Folder private_folder) else node_at u j)" for j
  proof (cases "?k = []")
    case True
    with u(2) there have "ho_nodes h' = u" by (auto simp: tree_chmod_def)
    with True show ?thesis by simp
  next
    case False
    with u(2) there have "ho_nodes h' = AList.update ?k (Folder private_folder) u" by (auto simp: tree_chmod_def)
    with False show ?thesis by (simp add: node_at_update)
  qed
  ultimately show ?thesis using u(3) there by auto
qed

lemma mkdirs_prefixes:
  "tree_mkdirs mode up p t = (Inr (), t') \<Longrightarrow> 0 < i \<Longrightarrow> i \<le> length p \<Longrightarrow> \<exists>m. node_at t' (up @ take i p) = Some (Folder m)"
proof (induction mode up p t arbitrary: t' i rule: tree_mkdirs.induct)
  case (2 mode up x xs t)
  define t1 where "t1 = (if node_at t (up @ [x]) = None then AList.update (up @ [x]) (Folder mode) t else t)"
  have r: "tree_mkdirs mode (up @ [x]) xs t1 = (Inr (), t')" and f: "\<exists>m. node_at t1 (up @ [x]) = Some (Folder m)"
    using 2(3) by (auto simp: t1_def Let_def node_at_update split: option.splits node.splits)
  show ?case
  proof (cases "i = 1")
    case True
    with f mkdirs_same [of t1 "up @ [x]" _ mode "up @ [x]" xs] r show ?thesis by auto
  next
    case False
    then obtain k where k: "i = Suc k" "0 < k" using 2(4) by (cases i) auto
    have "\<exists>m. node_at t' ((up @ [x]) @ take k xs) = Some (Folder m)"
    proof (cases "node_at t (up @ [x])")
      case None
      with 2(1) [OF refl None] r k 2(5) show ?thesis by (simp add: t1_def)
    next
      case (Some n)
      with r f 2(2) [OF refl Some] k 2(5) show ?thesis by (cases n) (auto simp: t1_def)
    qed
    with k show ?thesis by simp
  qed
qed simp

lemma mkdirs_again:
  "(\<And>i. 0 < i \<Longrightarrow> i \<le> length p \<Longrightarrow> \<exists>m. node_at t (up @ take i p) = Some (Folder m)) \<Longrightarrow> tree_mkdirs mode up p t = (Inr (), t)"
proof (induction p arbitrary: up)
  case (Cons x xs)
  from Cons.prems [of 1] obtain m where "node_at t (up @ [x]) = Some (Folder m)" by auto
  moreover have "tree_mkdirs mode (up @ [x]) xs t = (Inr (), t)"
    using Cons.prems [of "Suc i" for i] by (intro Cons.IH) (metis append.assoc append_Cons append_Nil length_Cons not_less_eq_eq take_Suc_Cons zero_less_Suc)
  ultimately show ?case by (simp add: Let_def)
qed simp

lemma update_same: "map_of t k = Some v \<Longrightarrow> AList.update k v t = t"
  by (induction t) auto

definition prepared :: "machine \<Rightarrow> tree \<Rightarrow> string \<Rightarrow> bool" where
  "prepared M t p \<longleftrightarrow> (\<forall>i. \<exists>m. node_at t (take i (place_of (ma_cwd M) p)) = Some (Folder m))
     \<and> (place_of (ma_cwd M) p \<noteq> [] \<longrightarrow> node_at t (place_of (ma_cwd M) p) = Some (Folder private_folder))"

lemma ensure_prepared: "prepared M (ho_nodes h) p \<Longrightarrow> ensure_folder M p h = (Inr (), h)"
proof -
  let ?k = "place_of (ma_cwd M) p"
  assume p: "prepared M (ho_nodes h) p"
  have "tree_mkdirs private_folder [] ?k (ho_nodes h) = (Inr (), ho_nodes h)"
    using p by (intro mkdirs_again) (simp add: prepared_def)
  moreover from p have "tree_chmod ?k private_folder (ho_nodes h) = (Inr (), ho_nodes h)"
    by (cases "?k = []") (auto simp: prepared_def tree_chmod_def node_at_def update_same)
  ultimately show ?thesis by (simp add: ensure_folder_def mkdirSync_def chmodSync_def andThen_def on_tree_def)
qed

lemma ensure_prepares:
  assumes "ensure_folder M p h = (Inr (), h')"
  shows "prepared M (ho_nodes h') p \<and> (\<forall>q. prepared M (ho_nodes h) q \<longrightarrow> prepared M (ho_nodes h') q)"
proof
  let ?k = "place_of (ma_cwd M) p"
  note r = ensure_folder_result [OF assms]
  from assms obtain u where u: "tree_mkdirs private_folder [] ?k (ho_nodes h) = (Inr (), u)"
      "tree_chmod ?k private_folder u = (Inr (), ho_nodes h')"
    by (fastforce simp: ensure_folder_def mkdirSync_def chmodSync_def andThen_Inr_iff on_tree_result)
  have "\<exists>m. node_at u ?k = Some (Folder m)" using mkdirs_there [OF u(1)] by (simp add: node_at_def)
  then have uh: "only_folders u (ho_nodes h')" using chmod_keep [of u ?k private_folder] u(2) by simp
  have "\<exists>m. node_at (ho_nodes h') (take i ?k) = Some (Folder m)" for i
  proof (rule only_foldersD [OF uh], cases "i = 0 \<or> ?k = []")
    case True
    then show "\<exists>m. node_at u (take i ?k) = Some (Folder m)" by (auto simp: node_at_def)
  next
    case False
    moreover have "take (min i (length ?k)) ?k = take i ?k" by (simp add: min_def)
    ultimately show "\<exists>m. node_at u (take i ?k) = Some (Folder m)"
      using mkdirs_prefixes [OF u(1), of "min i (length ?k)"] by simp
  qed
  moreover from r have "?k \<noteq> [] \<longrightarrow> node_at (ho_nodes h') ?k = Some (Folder private_folder)" by (elim conjE)
  ultimately show "prepared M (ho_nodes h') p" by (simp add: prepared_def)
  from r have of: "only_folders (ho_nodes h) (ho_nodes h')"
    and same: "\<And>j m. j \<noteq> ?k \<Longrightarrow> node_at (ho_nodes h) j = Some (Folder m) \<Longrightarrow> node_at (ho_nodes h') j = Some (Folder m)"
    and here: "?k \<noteq> [] \<Longrightarrow> node_at (ho_nodes h') ?k = Some (Folder private_folder)" by (elim conjE, simp)+
  show "\<forall>q. prepared M (ho_nodes h) q \<longrightarrow> prepared M (ho_nodes h') q"
  proof (intro allI impI)
    fix q assume q: "prepared M (ho_nodes h) q"
    let ?q = "place_of (ma_cwd M) q"
    have "\<exists>m. node_at (ho_nodes h') (take i ?q) = Some (Folder m)" for i
      using q by (intro only_foldersD [OF of]) (simp add: prepared_def)
    moreover have "?q \<noteq> [] \<Longrightarrow> node_at (ho_nodes h') ?q = Some (Folder private_folder)"
      using q here same unfolding prepared_def by (cases "?q = ?k") auto
    ultimately show "prepared M (ho_nodes h') q" by (simp add: prepared_def)
  qed
qed

lemma each_prepares:
  "each (ensure_folder M) ps h = (Inr (), h') \<Longrightarrow> (\<forall>p \<in> set ps. prepared M (ho_nodes h') p)
     \<and> (\<forall>q. prepared M (ho_nodes h) q \<longrightarrow> prepared M (ho_nodes h') q)
     \<and> (\<exists>t. h' = h\<lparr>ho_nodes := t\<rparr>) \<and> only_folders (ho_nodes h) (ho_nodes h')"
proof (induction ps arbitrary: h)
  case (Cons p ps)
  then obtain g where g: "ensure_folder M p h = (Inr (), g)" "each (ensure_folder M) ps g = (Inr (), h')"
    by (auto simp: andThen_Inr_iff)
  note e = ensure_prepares [OF g(1)] and r = ensure_folder_result [OF g(1)] and i = Cons.IH [OF g(2)]
  from r obtain t1 where t1: "g = h\<lparr>ho_nodes := t1\<rparr>" by blast
  from i obtain t2 where "h' = g\<lparr>ho_nodes := t2\<rparr>" by blast
  with t1 have "h' = h\<lparr>ho_nodes := t2\<rparr>" by simp
  then have "\<exists>t. h' = h\<lparr>ho_nodes := t\<rparr>" by blast
  moreover from r i have "only_folders (ho_nodes h) (ho_nodes h')" by (blast intro: only_folders_trans)
  moreover from e i have "(\<forall>q \<in> set (p # ps). prepared M (ho_nodes h') q) \<and> (\<forall>q. prepared M (ho_nodes h) q \<longrightarrow> prepared M (ho_nodes h') q)"
    by simp
  ultimately show ?case by blast
next
  case Nil
  then have "h' = h" by simp
  moreover have "h = h\<lparr>ho_nodes := ho_nodes h\<rparr>" by simp
  ultimately show ?case using only_folders_refl by (metis empty_iff list.set(1))
qed

lemma each_prepared: "\<forall>p \<in> set ps. prepared M (ho_nodes h) p \<Longrightarrow> each (ensure_folder M) ps h = (Inr (), h)"
  by (induction ps) (simp_all add: andThen_def ensure_prepared)

subsection \<open>The settings and the keys\<close>

lemma same_home [simp]:
  "getEcholetHome M (h\<lparr>ho_nodes := t\<rparr>) = getEcholetHome M h" "config_path M (h\<lparr>ho_nodes := t\<rparr>) = config_path M h"
  "getProfileDir M (h\<lparr>ho_nodes := t\<rparr>) n = getProfileDir M h n" "getStoreKeyPath M (h\<lparr>ho_nodes := t\<rparr>) n = getStoreKeyPath M h n"
  by (simp_all add: getEcholetHome_def config_path_def getProfileDir_def getProfilesDir_def getStoreKeyPath_def)

definition echolet_dirs :: "machine \<Rightarrow> host \<Rightarrow> string list" where
  "echolet_dirs M h = [getEcholetHome M h, getProfilesDir M h, getRepeaterDir M h, getRunDir M h, getLogsDir M h]"

lemma same_dirs [simp]: "echolet_dirs M (h\<lparr>ho_nodes := t\<rparr>) = echolet_dirs M h"
  by (simp add: echolet_dirs_def getProfilesDir_def getRepeaterDir_def getRunDir_def getLogsDir_def)

definition all_prepared :: "machine \<Rightarrow> host \<Rightarrow> bool" where
  "all_prepared M h \<longleftrightarrow> (\<forall>p \<in> set (echolet_dirs M h). prepared M (ho_nodes h) p)"

lemma ensured:
  assumes "ensureEcholetDirs M h = (Inr (), g)"
  shows "\<exists>t. g = h\<lparr>ho_nodes := t\<rparr> \<and> only_folders (ho_nodes h) t \<and> all_prepared M g"
proof -
  have e: "each (ensure_folder M) (echolet_dirs M h) h = (Inr (), g)"
    using assms by (simp add: ensureEcholetDirs_def looking_def echolet_dirs_def)
  from each_prepares [OF e] obtain t where t: "g = h\<lparr>ho_nodes := t\<rparr>" by blast
  with each_prepares [OF e] have "only_folders (ho_nodes h) t" "all_prepared M g" by (simp_all add: all_prepared_def)
  with t show ?thesis by blast
qed

lemma ensure_again: "all_prepared M h \<Longrightarrow> ensureEcholetDirs M h = (Inr (), h)"
  using each_prepared [of "echolet_dirs M h" M h]
  by (simp add: ensureEcholetDirs_def looking_def all_prepared_def echolet_dirs_def)

lemma prepared_else:
  assumes "prepared M t p" "\<And>j. j \<noteq> k \<Longrightarrow> node_at t' j = node_at t j" "\<And>m. node_at t k \<noteq> Some (Folder m)"
  shows "prepared M t' p"
  using assms unfolding prepared_def by metis

text \<open>A file written and protected holds what was written and is the owner's alone; nothing else changes.\<close>

lemma written_private:
  assumes "andThen (writeFileSync M p mode c) (\<lambda>_. chmodSync M p private_file) g = (Inr (), h')"
  shows "\<exists>t. h' = g\<lparr>ho_nodes := t\<rparr> \<and> node_at t (place_of (ma_cwd M) p) = Some (Document private_file c)
    \<and> (\<forall>j. j \<noteq> place_of (ma_cwd M) p \<longrightarrow> node_at t j = node_at (ho_nodes g) j)
    \<and> (\<forall>m. node_at (ho_nodes g) (place_of (ma_cwd M) p) \<noteq> Some (Folder m))"
proof -
  let ?k = "place_of (ma_cwd M) p"
  from assms obtain u t where u: "tree_write ?k mode c (ho_nodes g) = (Inr (), u)" "tree_chmod ?k private_file u = (Inr (), t)"
      "h' = g\<lparr>ho_nodes := t\<rparr>"
    by (fastforce simp: writeFileSync_def chmodSync_def andThen_Inr_iff on_tree_result)
  note w = tree_write_reads [OF u(1)]
  from w have k: "?k \<noteq> []" by (auto simp: node_at_def)
  from w u(2) have "t = AList.update ?k (Document private_file c) u" by (auto simp: tree_chmod_def)
  moreover from u(1) have "node_at (ho_nodes g) ?k \<noteq> Some (Folder m)" for m by (auto simp: tree_write_def)
  ultimately show ?thesis using u(3) w k by (auto simp: node_at_update)
qed

lemma config_written:
  assumes "write_config M c g = (Inr (), h')" "all_prepared M g"
  shows "all_prepared M h' \<and> (\<exists>t. h' = g\<lparr>ho_nodes := t\<rparr> \<and> node_at t (place_of (ma_cwd M) (config_path M g)) = Some (Document private_file (pretty 0 c))
    \<and> (\<forall>j. j \<noteq> place_of (ma_cwd M) (config_path M g) \<longrightarrow> node_at t j = node_at (ho_nodes g) j))"
proof -
  let ?k = "place_of (ma_cwd M) (config_path M g)"
  from assms(1) obtain t where t: "h' = g\<lparr>ho_nodes := t\<rparr>" "node_at t ?k = Some (Document private_file (pretty 0 c))"
      "\<And>j. j \<noteq> ?k \<Longrightarrow> node_at t j = node_at (ho_nodes g) j" "\<And>m. node_at (ho_nodes g) ?k \<noteq> Some (Folder m)"
    using written_private [of M "config_path M g" private_file "pretty 0 c" g h'] by (auto simp: write_config_def looking_def)
  have "prepared M t p" if "prepared M (ho_nodes g) p" for p using prepared_else [OF that t(3,4)] .
  with assms(2) t(1) have "all_prepared M h'" by (simp add: all_prepared_def)
  with t show ?thesis by blast
qed

text \<open>
  Settings survive: after settings were saved, what is read back are the same settings, in a file
  the owner alone can read, and reading them changes nothing; saving and reading prepare the five
  directories, which are then the owner's alone and which preparing again leaves as they are.
\<close>

theorem settings_round_trip:
  assumes "saveGlobalConfig M config h = (Inr (), h')" "wf_json config"
  shows "getGlobalConfig M h' = (Inr config, h') \<and> ensureEcholetDirs M h' = (Inr (), h')
    \<and> node_at (ho_nodes h') (place_of (ma_cwd M) (config_path M h')) = Some (Document private_file (pretty 0 config))
    \<and> list_all (\<lambda>p. place_of (ma_cwd M) p = [] \<or> node_at (ho_nodes h') (place_of (ma_cwd M) p) = Some (Folder private_folder)) (echolet_dirs M h')"
proof -
  from assms(1) obtain g where g: "ensureEcholetDirs M h = (Inr (), g)" "write_config M config g = (Inr (), h')"
    by (auto simp: saveGlobalConfig_def andThen_Inr_iff)
  from ensured [OF g(1)] have "all_prepared M g" by blast
  from config_written [OF g(2) this] obtain t where t: "all_prepared M h'" "h' = g\<lparr>ho_nodes := t\<rparr>"
      "node_at (ho_nodes h') (place_of (ma_cwd M) (config_path M h')) = Some (Document private_file (pretty 0 config))" by auto
  note again = ensure_again [OF t(1)]
  have "getGlobalConfig M h' = (Inr config, h')"
    using t(3) parse_pretty_json [OF assms(2)]
    by (simp add: getGlobalConfig_def andThen_def again looking_def existsSync_def readFileSync_def tree_read_def or_ignore_def)
  with t(1,3) again show ?thesis unfolding all_prepared_def prepared_def list_all_iff by blast
qed

text \<open>
  The active profile is the one that was chosen: after a profile was made active it is the one
  read back, and every other setting the file held is kept.
\<close>

theorem active_profile_round_trip:
  assumes "setActiveProfile M who h = (Inr (), h')" "trim who = who" "who \<noteq> []"
    "node_at (ho_nodes h) (place_of (ma_cwd M) (config_path M h)) = Some (Document mode contents)" "parse_json contents = Some (JObj kvs)"
  shows "getActiveProfile M h' = (Inr (Some who), h')
    \<and> getGlobalConfig M h' = (Inr (JObj (obj_put ''activeProfile'' (JStr who) kvs)), h')"
proof -
  let ?k = "place_of (ma_cwd M) (config_path M h)" and ?new = "JObj (obj_put ''activeProfile'' (JStr who) kvs)"
  from assms(1) obtain g where g: "ensureEcholetDirs M h = (Inr (), g)"
    by (auto simp: setActiveProfile_def andThen_Inr_iff)
  from ensured [OF g] obtain u where u: "g = h\<lparr>ho_nodes := u\<rparr>" "only_folders (ho_nodes h) u" "all_prepared M g" by blast
  with assms(4) have d: "node_at u ?k = Some (Document mode contents)" by (simp add: only_folders_def)
  from assms(1) g d u(1) assms(5) have w: "write_config M ?new g = (Inr (), h')"
    by (simp add: setActiveProfile_def andThen_def looking_def existsSync_def readFileSync_def tree_read_def or_ignore_def)
  from config_written [OF w u(3)] u(1) obtain t where t: "all_prepared M h'" "h' = h\<lparr>ho_nodes := t\<rparr>"
      "node_at t ?k = Some (Document private_file (pretty 0 ?new))" by auto
  have "wf_json ?new" using parse_json_wf [OF assms(5)] by (simp add: obj_put_wf obj_put_members)
  then have p: "parse_json (pretty 0 ?new) = Some ?new" by (rule parse_pretty_json)
  note again = ensure_again [OF t(1)]
  have at: "node_at (ho_nodes h') (place_of (ma_cwd M) (config_path M h')) = Some (Document private_file (pretty 0 ?new))"
    unfolding t(2) using t(3) by (simp del: pretty.simps)
  have "getActiveProfile M h' = (Inr (Some who), h')"
    using at p assms(2,3) by (simp del: pretty.simps add: getActiveProfile_def looking_def andThen_def existsSync_def readFileSync_def tree_read_def or_ignore_def)
  moreover have "getGlobalConfig M h' = (Inr ?new, h')"
    using at p by (simp del: pretty.simps add: getGlobalConfig_def again looking_def andThen_def existsSync_def readFileSync_def tree_read_def or_ignore_def)
  ultimately show ?thesis by blast
qed

text \<open>
  A profile's key is made once: what is returned is returned again, an existing key file is read
  and never written, and a new one holds 32 fresh bytes in a file the owner alone can read.
\<close>

theorem profile_key_stable:
  assumes "getProfileKey M n h = (Inr key, h')"
  shows "getProfileKey M n h' = (Inr key, h')
    \<and> (if node_at (ho_nodes h) (place_of (ma_cwd M) (getStoreKeyPath M h n)) = None
       then key = encodeBase64Url (ma_keys M (ho_draws h))
         \<and> node_at (ho_nodes h') (place_of (ma_cwd M) (getStoreKeyPath M h n)) = Some (Document private_file key)
       else h' = h)"
proof (cases "node_at (ho_nodes h) (place_of (ma_cwd M) (getStoreKeyPath M h n))")
  case (Some d)
  have g: "getProfileKey M n h = (case tree_read (place_of (ma_cwd M) (getStoreKeyPath M h n)) (ho_nodes h) of Inl e \<Rightarrow> (Inl e, h) | Inr c \<Rightarrow> (Inr (trim c), h))"
    using Some by (simp add: getProfileKey_def looking_def andThen_def existsSync_def readFileSync_def Let_def split: sum.split)
  with assms have "h' = h" by (auto split: sum.splits)
  with assms Some show ?thesis by simp
next
  case None
  let ?k = "place_of (ma_cwd M) (getStoreKeyPath M h n)" and ?key = "encodeBase64Url (ma_keys M (ho_draws h))"
  let ?h1 = "h\<lparr>ho_draws := Suc (ho_draws h)\<rparr>"
  from assms None obtain g where g: "andThen (writeFileSync M (getStoreKeyPath M h n) private_file ?key) (\<lambda>_. chmodSync M (getStoreKeyPath M h n) private_file) g = (Inr (), h')"
      "key = ?key" "g = ?h1 \<or> ensure_folder M (getProfileDir M h n) ?h1 = (Inr (), g)"
    by (auto simp: getProfileKey_def looking_def existsSync_def drawKey_def Let_def ensureKeyPermissions_def andThen_Inr_iff split: if_splits)
  from written_private [OF g(1)] obtain t where t: "h' = g\<lparr>ho_nodes := t\<rparr>" "node_at t ?k = Some (Document private_file ?key)"
    by (elim exE conjE)
  from g(3) have "\<exists>u. g = ?h1\<lparr>ho_nodes := u\<rparr>"
  proof
    assume "g = ?h1"
    moreover have "?h1 = ?h1\<lparr>ho_nodes := ho_nodes ?h1\<rparr>" by simp
    ultimately show ?thesis by metis
  next
    assume "ensure_folder M (getProfileDir M h n) ?h1 = (Inr (), g)"
    from ensure_folder_result [OF this] show ?thesis by (elim conjE)
  qed
  then obtain u where u: "g = ?h1\<lparr>ho_nodes := u\<rparr>" by (elim exE)
  have p: "getStoreKeyPath M h' n = getStoreKeyPath M h n"
    unfolding t(1) u by (simp add: getStoreKeyPath_def getProfileDir_def getProfilesDir_def getEcholetHome_def)
  have v: "trim ?key = ?key"
    by (intro trim_visible url_visible) (simp add: encode_eq_b64url b64url_is_url list_all_iff)
  have d: "node_at (ho_nodes h') ?k = Some (Document private_file ?key)" using t by simp
  have "getProfileKey M n h' = (Inr key, h')"
    using d v g(2)
    by (simp add: getProfileKey_def looking_def andThen_def existsSync_def readFileSync_def tree_read_def p Let_def)
  with d g(2) None show ?thesis by simp
qed

subsection \<open>Examples\<close>

definition toy_machine :: machine where
  "toy_machine = \<lparr>ma_cwd = ''/home/a'', ma_homedir = ''/home/a'', ma_keys = (\<lambda>_. []), ma_spawn = (\<lambda>_. Inr (Some 7)),
     ma_docker = (\<lambda>_. Inl (PlainError ''ENOENT''))\<rparr>"

definition toy_host :: host where
  "toy_host = \<lparr>ho_env = (\<lambda>_. None), ho_nodes = [([''home''], Folder 493), ([''home'', ''a''], Folder 493)], ho_lines = [], ho_said = [],
     ho_spawned = [], ho_probe = (\<lambda>_. Gone), ho_signals = [], ho_draws = 0\<rparr>"

lemma toy_saves: "\<exists>h'. saveGlobalConfig toy_machine (JObj [(''a'', JNull)]) toy_host = (Inr (), h')"
proof -
  have "fst (saveGlobalConfig toy_machine (JObj [(''a'', JNull)]) toy_host) = Inr ()" by code_simp
  then show ?thesis by (metis prod.collapse)
qed

theorem settings_round_trip_witness:
  "\<exists>h'. saveGlobalConfig toy_machine (JObj [(''a'', JNull)]) toy_host = (Inr (), h')
     \<and> getGlobalConfig toy_machine h' = (Inr (JObj [(''a'', JNull)]), h')"
proof -
  from toy_saves obtain h' where s: "saveGlobalConfig toy_machine (JObj [(''a'', JNull)]) toy_host = (Inr (), h')" by blast
  with settings_round_trip [OF s] show ?thesis by auto
qed

definition toy_configured :: host where
  "toy_configured = toy_host\<lparr>ho_nodes := ho_nodes toy_host @ [([''home'', ''a'', ''.echolet''], Folder 493),
     ([''home'', ''a'', ''.echolet'', ''config.json''], Document 384 ''{}'')]\<rparr>"

lemma toy_chooses: "\<exists>h'. setActiveProfile toy_machine ''A'' toy_configured = (Inr (), h')"
proof -
  have "fst (setActiveProfile toy_machine ''A'' toy_configured) = Inr ()" by code_simp
  then show ?thesis by (metis prod.collapse)
qed

theorem active_profile_round_trip_witness:
  "\<exists>h'. setActiveProfile toy_machine ''A'' toy_configured = (Inr (), h') \<and> getActiveProfile toy_machine h' = (Inr (Some ''A''), h')"
proof -
  from toy_chooses obtain h' where s: "setActiveProfile toy_machine ''A'' toy_configured = (Inr (), h')" by blast
  have v: "trim ''A'' = ''A''" by (rule trim_visible) (simp add: visible_def)
  have n: "node_at (ho_nodes toy_configured) (place_of (ma_cwd toy_machine) (config_path toy_machine toy_configured)) = Some (Document 384 ''{}'')"
    by code_simp
  have p: "parse_json ''{}'' = Some (JObj [])" by code_simp
  from active_profile_round_trip [OF s v _ n p] s show ?thesis by auto
qed

theorem profile_key_stable_witness:
  "\<exists>h'. getProfileKey toy_machine ''A'' toy_host = (Inr (encodeBase64Url []), h')
     \<and> getProfileKey toy_machine ''A'' h' = (Inr (encodeBase64Url []), h')"
proof -
  have "fst (getProfileKey toy_machine ''A'' toy_host) = Inr (encodeBase64Url [])" by code_simp
  then obtain h' where s: "getProfileKey toy_machine ''A'' toy_host = (Inr (encodeBase64Url []), h')" by (metis prod.collapse)
  from profile_key_stable [OF s] s show ?thesis by auto
qed

end
