(* ===== verification/Daemon.thy ===== *)
theory Daemon
  imports Host
begin

text \<open>
  Background processes, \<open>apps/cli/src/runtime/daemon.ts\<close>: a process is started with its output in a log
  file and its id in a file of its own, asked for by that file, and stopped through it. The branch for
  Windows is left out; closing the log's descriptor in this process is not seen by the tree.
\<close>

definition getPidPath :: "machine \<Rightarrow> host \<Rightarrow> string \<Rightarrow> string" where
  "getPidPath M h n = join_path (getRunDir M h) (n @ ''.pid'')"

definition getLogPath :: "machine \<Rightarrow> host \<Rightarrow> string \<Rightarrow> string" where
  "getLogPath M h n = join_path (getLogsDir M h) (n @ ''.log'')"

definition isProcessAlive :: "int \<Rightarrow> host \<Rightarrow> bool" where
  "isProcessAlive pid h \<longleftrightarrow> ho_probe h pid \<in> {Alive, Forbidden}"

text \<open>The mode of a file that is created without one.\<close>

definition shared_file :: nat where "shared_file = 438"

text \<open>\<open>openSync(path, "a")\<close>: the file is there afterwards, with what it held.\<close>

definition tree_append_open :: "place \<Rightarrow> tree \<Rightarrow> (exn + unit) \<times> tree" where
  "tree_append_open k t =
     (case node_at t k of
        Some (Document m c) \<Rightarrow> (Inr (), t)
      | _ \<Rightarrow> tree_write k shared_file [] t)"

definition merged_env :: "(string \<Rightarrow> string option) \<Rightarrow> (string \<Rightarrow> string option) \<Rightarrow> string \<Rightarrow> string option" where
  "merged_env own given k = (case given k of Some v \<Rightarrow> Some v | None \<Rightarrow> own k)"

definition spawnProcess :: "machine \<Rightarrow> spawned \<Rightarrow> (host, int option) op" where
  "spawnProcess M child h =
     (case ma_spawn M (length (ho_spawned h)) of
        Inl e \<Rightarrow> (Inl e, h)
      | Inr None \<Rightarrow> (Inr None, h\<lparr>ho_spawned := ho_spawned h @ [child]\<rparr>)
      | Inr (Some pid) \<Rightarrow>
          (Inr (Some pid), h\<lparr>ho_spawned := ho_spawned h @ [child], ho_probe := (ho_probe h)(pid := Alive)\<rparr>))"

definition failed_start :: "string \<Rightarrow> exn" where
  "failed_start n = PlainError (''Failed to start daemon process '' @ [CHR 0x27] @ n @ [CHR 0x27] @ '': child.pid is undefined'')"

definition startDaemon ::
  "machine \<Rightarrow> string \<Rightarrow> string \<Rightarrow> string list \<Rightarrow> (string \<Rightarrow> string option) \<Rightarrow> (host, int \<times> string) op"
where
  "startDaemon M n cmd args env =
     andThen (ensureEcholetDirs M) (\<lambda>_. looking (\<lambda>h.
     andThen (on_tree (tree_append_open (place_of (ma_cwd M) (getLogPath M h n)))) (\<lambda>_.
     andThen (spawnProcess M \<lparr>sp_command = cmd, sp_args = args, sp_env = merged_env (ho_env h) env\<rparr>) (\<lambda>child.
       case child of
         None \<Rightarrow> raise (failed_start n)
       | Some pid \<Rightarrow>
           if pid = 0 then raise (failed_start n)
           else
             andThen (writeFileSync M (getPidPath M h n) shared_file (show_int pid)) (\<lambda>_.
               ret (pid, getLogPath M h n))))))"

text \<open>The id a pid file names: a number, or the \<open>pid\<close> member of an object.\<close>

definition json_pid :: "string \<Rightarrow> int option" where
  "json_pid raw =
     (if prefix ''{'' raw
      then (case parse_json raw of None \<Rightarrow> None | Some v \<Rightarrow> parse_int10 (member_text v ''pid''))
      else None)"

datatype stop_result = NotRunning | Stopped int

text \<open>A process that may not be signalled, or is gone, is left alone; the file goes all the same.\<close>

definition terminate :: "int \<Rightarrow> (host, unit) op" where
  "terminate pid h = (Inr (), if ho_probe h pid = Alive then h\<lparr>ho_signals := ho_signals h @ [pid]\<rparr> else h)"

definition stopDaemon :: "machine \<Rightarrow> string \<Rightarrow> (host, stop_result) op" where
  "stopDaemon M n = looking (\<lambda>h.
     let pidFile = getPidPath M h n in
     andThen (existsSync M pidFile) (\<lambda>found.
       if \<not> found then ret NotRunning
       else
         andThen (or_ignore [] (readFileSync M pidFile)) (\<lambda>contents.
           let raw = trim contents;
               pid = (case parse_int10 raw of Some i \<Rightarrow> Some i | None \<Rightarrow> json_pid raw) in
           case pid of
             None \<Rightarrow> ret NotRunning
           | Some i \<Rightarrow>
               andThen (terminate i) (\<lambda>_.
               andThen (or_ignore () (unlinkSync M pidFile)) (\<lambda>_. ret (Stopped i))))))"

record daemon_meta =
  dm_pid :: int
  dm_name :: string
  dm_command :: json
  dm_port :: json
  dm_profile :: json
  dm_startedAt :: json

record daemon_status =
  ds_pid :: "int option"
  ds_logPath :: string
  ds_meta :: "daemon_meta option"

text \<open>A process is reported as running exactly when its id is given.\<close>

definition not_running :: "string \<Rightarrow> daemon_status" where
  "not_running log = \<lparr>ds_pid = None, ds_logPath = log, ds_meta = None\<rparr>"

definition truthy_or_empty :: "json \<Rightarrow> json" where
  "truthy_or_empty v = (if truthy v then v else JStr [])"

definition meta_of :: "int \<Rightarrow> string \<Rightarrow> json option \<Rightarrow> daemon_meta" where
  "meta_of pid n parsed =
     \<lparr>dm_pid = pid, dm_name = n, dm_command = truthy_or_empty (member parsed ''command''), dm_port = member parsed ''port'',
      dm_profile = member parsed ''profile'', dm_startedAt = truthy_or_empty (member parsed ''startedAt'')\<rparr>"

definition getDaemonStatus :: "machine \<Rightarrow> string \<Rightarrow> (host, daemon_status) op" where
  "getDaemonStatus M n = looking (\<lambda>h.
     let logPath = getLogPath M h n; pidFile = getPidPath M h n; gone = not_running logPath;
         discard = andThen (or_ignore () (unlinkSync M pidFile)) (\<lambda>_. ret gone) in
     andThen (existsSync M pidFile) (\<lambda>found.
       if \<not> found then ret gone
       else case readFileSync M pidFile h of
           (Inl _, _) \<Rightarrow> ret gone
         | (Inr contents, _) \<Rightarrow>
             let raw = trim contents;
                 parsed = (if prefix ''{'' raw then parse_json raw else None);
                 pid = (case parsed of
                     Some doc \<Rightarrow> (case jprop doc ''pid'' of JNum i \<Rightarrow> Some i | _ \<Rightarrow> parse_int10 raw)
                   | None \<Rightarrow> parse_int10 raw) in
             case pid of
               None \<Rightarrow> discard
             | Some i \<Rightarrow>
                 if isProcessAlive i h
                 then ret \<lparr>ds_pid = Some i, ds_logPath = logPath, ds_meta = Some (meta_of i n parsed)\<rparr>
                 else discard))"

text \<open>What is returned for a process started on behalf of another tool; the time is an argument.\<close>

definition startDaemonProcess ::
  "machine \<Rightarrow> string \<Rightarrow> string \<Rightarrow> string list \<Rightarrow> (string \<Rightarrow> string option) \<Rightarrow> json \<Rightarrow> json \<Rightarrow> string \<Rightarrow> (host, daemon_meta) op"
where
  "startDaemonProcess M n execPath args env port profile now =
     andThen (startDaemon M n execPath args env) (\<lambda>(pid, log).
       ret \<lparr>dm_pid = pid, dm_name = n, dm_command = JStr (execPath @ '' '' @ join '' '' args), dm_port = port,
         dm_profile = profile, dm_startedAt = JStr now\<rparr>)"

subsection \<open>Laws\<close>

lemma visible_show_int: "visible (show_int i)"
proof -
  have "33 \<le> (of_char c :: nat) \<and> (of_char c :: nat) < 127" if "c \<in> set (show_int i)" for c
    using show_int_chars [OF that] by (auto simp: is_digit_def)
  then show ?thesis by (simp add: visible_def list_all_iff)
qed

lemma trim_start_visible: "visible s \<Longrightarrow> trim_start s = s"
proof -
  assume v: "visible s"
  have w: "w \<noteq> [] \<and> \<not> visible [hd w]" if "w \<in> set white_sequences" for w
    using that by (auto simp: white_sequences_def visible_def)
  have "\<not> prefix w s" if "w \<in> set white_sequences" for w
    using w [OF that] v by (cases w) (auto simp: prefix_def visible_def)
  then have "find (\<lambda>w. prefix w s) white_sequences = None" by (simp add: find_None_iff)
  then show ?thesis by (simp add: trim_start.simps)
qed

lemma parse_id_text: "0 \<le> i \<Longrightarrow> parse_int10 (show_int i) = Some i"
proof -
  assume i: "0 \<le> i"
  then have s: "show_int i = show_nat (nat i)" by (simp add: show_int_def)
  have d: "list_all is_digit (show_nat (nat i))" using show_nat_digits by (simp add: list_all_iff)
  obtain c cs where c: "show_nat (nat i) = c # cs" using show_nat_nonempty by (cases "show_nat (nat i)") auto
  with d have "c \<noteq> CHR ''-''" "c \<noteq> CHR ''+''" by (auto simp: is_digit_def)
  moreover have "takeWhile is_digit (show_nat (nat i)) = show_nat (nat i)" using d by (simp add: takeWhile_eq_all_conv list_all_iff)
  moreover have r: "foldl (\<lambda>n c. n * 10 + (of_char c - 48)) 0 t = read_nat t" for t
    by (simp add: read_nat_def digit_val_def mult.commute)
  have "foldl (\<lambda>n c. n * 10 + (of_char c - 48)) 0 (c # cs) = nat i" unfolding r c [symmetric] by simp
  ultimately show ?thesis using i c s visible_show_int [of i]
    by (simp add: parse_int10_def Let_def trim_start_visible)
qed

lemma paths_by_env:
  "ho_env h = ho_env g \<Longrightarrow> getPidPath M h n = getPidPath M g n" "ho_env h = ho_env g \<Longrightarrow> getLogPath M h n = getLogPath M g n"
  by (simp_all add: getPidPath_def getLogPath_def getRunDir_def getLogsDir_def getEcholetHome_def)

lemma started:
  assumes "startDaemon M n cmd args env h = (Inr (pid, log), h')"
  shows "ho_env h' = ho_env h \<and> ho_signals h' = ho_signals h \<and> ho_probe h' = (ho_probe h)(pid := Alive) \<and> log = getLogPath M h' n
    \<and> (\<exists>mode. node_at (ho_nodes h') (place_of (ma_cwd M) (getPidPath M h' n)) = Some (Document mode (show_int pid)))
    \<and> (\<exists>run_env. ho_spawned h' = ho_spawned h @ [\<lparr>sp_command = cmd, sp_args = args, sp_env = run_env\<rparr>] \<and> run_env = merged_env (ho_env h) env)"
proof -
  let ?s = "\<lambda>g. \<lparr>sp_command = cmd, sp_args = args, sp_env = merged_env (ho_env g) env\<rparr>"
  from assms obtain g g1 g2 child where g: "ensureEcholetDirs M h = (Inr (), g)"
      and o: "on_tree (tree_append_open (place_of (ma_cwd M) (getLogPath M g n))) g = (Inr (), g1)"
      and sp: "spawnProcess M (?s g) g1 = (Inr child, g2)"
      and f: "(case child of None \<Rightarrow> raise (failed_start n)
         | Some pid \<Rightarrow> if pid = 0 then raise (failed_start n)
           else andThen (writeFileSync M (getPidPath M g n) shared_file (show_int pid)) (\<lambda>_. ret (pid, getLogPath M g n))) g2 = (Inr (pid, log), h')"
    by (auto simp: startDaemon_def looking_def andThen_Inr_iff)
  from f have c: "child = Some pid" and w: "writeFileSync M (getPidPath M g n) shared_file (show_int pid) g2 = (Inr (), h')"
      and l: "log = getLogPath M g n"
    by (auto simp: andThen_Inr_iff split: option.splits if_splits)
  from o obtain t1 where t1: "g1 = g\<lparr>ho_nodes := t1\<rparr>" by (auto simp: on_tree_result)
  from sp c have g2: "g2 = g1\<lparr>ho_spawned := ho_spawned g1 @ [?s g], ho_probe := (ho_probe g1)(pid := Alive)\<rparr>"
    by (auto simp: spawnProcess_def split: sum.splits option.splits)
  from w obtain u where w: "tree_write (place_of (ma_cwd M) (getPidPath M g n)) shared_file (show_int pid) (ho_nodes g2) = (Inr (), u)"
      and u: "h' = g2\<lparr>ho_nodes := u\<rparr>" by (auto simp: writeFileSync_def on_tree_result)
  have h': "h' = g\<lparr>ho_nodes := u, ho_spawned := ho_spawned g @ [?s g], ho_probe := (ho_probe g)(pid := Alive)\<rparr>"
    using u g2 t1 by simp
  from ensured [OF g] obtain v where v: "g = h\<lparr>ho_nodes := v\<rparr>" by blast
  have p: "getPidPath M h' n = getPidPath M g n" "getLogPath M h' n = getLogPath M g n" by (rule paths_by_env; simp add: h')+
  from tree_write_reads [OF w] obtain mode where "node_at u (place_of (ma_cwd M) (getPidPath M g n)) = Some (Document mode (show_int pid))" by blast
  then show ?thesis using v l p by (simp add: h')
qed

lemma status_of_number:
  assumes "node_at (ho_nodes h) (place_of (ma_cwd M) (getPidPath M h n)) = Some (Document mode (show_int pid))" "0 \<le> pid" "isProcessAlive pid h"
  shows "getDaemonStatus M n h = (Inr \<lparr>ds_pid = Some pid, ds_logPath = getLogPath M h n, ds_meta = Some (meta_of pid n None)\<rparr>, h)"
proof -
  have "show_int pid = show_nat (nat pid)" using assms(2) by (simp add: show_int_def)
  then have b: "\<not> prefix ''{'' (show_int pid)"
    using show_nat_digits [of "nat pid"] by (cases "show_nat (nat pid)") (auto simp: is_digit_def)
  show ?thesis using assms b
    by (simp add: getDaemonStatus_def looking_def andThen_def existsSync_def readFileSync_def tree_read_def Let_def
        trim_visible visible_show_int parse_id_text)
qed

text \<open>
  C35. The life of a background process: once it was started it is reported as running under its id,
  without a port or a time, which are nowhere kept; stopping it sends the signal to exactly that id,
  once, and after that it is reported as not running, with the rest of the files as they were.
\<close>

theorem daemon_lifecycle:
  assumes "startDaemon M n cmd args env h = (Inr (pid, log), h')" "0 < pid"
  shows "getDaemonStatus M n h' = (Inr \<lparr>ds_pid = Some pid, ds_logPath = log, ds_meta = Some (meta_of pid n None)\<rparr>, h')
    \<and> dm_port (meta_of pid n None) = JNull
    \<and> (\<exists>h''. stopDaemon M n h' = (Inr (Stopped pid), h'') \<and> ho_signals h'' = ho_signals h @ [pid]
        \<and> getDaemonStatus M n h'' = (Inr (not_running log), h'')
        \<and> (\<forall>j. j \<noteq> place_of (ma_cwd M) (getPidPath M h' n) \<longrightarrow> node_at (ho_nodes h'') j = node_at (ho_nodes h') j))"
proof -
  let ?k = "place_of (ma_cwd M) (getPidPath M h' n)"
  from started [OF assms(1)] obtain mode where s: "ho_signals h' = ho_signals h" "ho_probe h' pid = Alive" "log = getLogPath M h' n"
      "node_at (ho_nodes h') ?k = Some (Document mode (show_int pid))" by auto
  have status: "getDaemonStatus M n h' = (Inr \<lparr>ds_pid = Some pid, ds_logPath = log, ds_meta = Some (meta_of pid n None)\<rparr>, h')"
    using status_of_number [OF s(4)] s(2,3) assms(2) by (simp add: isProcessAlive_def)
  define h2 where "h2 = h'\<lparr>ho_signals := ho_signals h' @ [pid], ho_nodes := AList.delete ?k (ho_nodes h')\<rparr>"
  have stop: "stopDaemon M n h' = (Inr (Stopped pid), h2)"
    using s assms(2)
    by (simp add: stopDaemon_def looking_def andThen_def existsSync_def readFileSync_def tree_read_def Let_def or_ignore_def
        trim_visible visible_show_int parse_id_text terminate_def unlinkSync_def on_tree_def tree_unlink_def h2_def)
  have k: "?k \<noteq> []" using s(4) by (auto simp: node_at_def)
  have p: "getPidPath M h2 n = getPidPath M h' n" "getLogPath M h2 n = getLogPath M h' n" by (rule paths_by_env; simp add: h2_def)+
  have n: "node_at (ho_nodes h2) j = (if j = ?k then None else node_at (ho_nodes h') j)" for j
    using k by (simp add: h2_def node_at_def delete_conv')
  have "getDaemonStatus M n h2 = (Inr (not_running log), h2)"
    using n [of ?k] by (simp add: getDaemonStatus_def looking_def andThen_def existsSync_def Let_def p s(3))
  with status stop n s(1) show ?thesis by (auto simp: h2_def meta_of_def member_def)
qed

lemma toy_started: "\<exists>log h'. startDaemon toy_machine ''s'' ''node'' [] (\<lambda>_. None) toy_host = (Inr (7, log), h')"
proof -
  have "map_sum id fst (fst (startDaemon toy_machine ''s'' ''node'' [] (\<lambda>_. None) toy_host)) = Inr 7" by code_simp
  then obtain x h' where x: "startDaemon toy_machine ''s'' ''node'' [] (\<lambda>_. None) toy_host = (x, h')" "map_sum id fst x = Inr 7"
    by (metis prod.collapse)
  then obtain y where y: "x = Inr y" "fst y = 7" by (cases x) auto
  then obtain log where "y = (7, log)" by (cases y) auto
  with x y show ?thesis by blast
qed

theorem daemon_lifecycle_witness:
  "\<exists>h' h''. stopDaemon toy_machine ''s'' h' = (Inr (Stopped 7), h'') \<and> ho_signals h'' = [7]"
proof -
  from toy_started obtain log h' where s: "startDaemon toy_machine ''s'' ''node'' [] (\<lambda>_. None) toy_host = (Inr (7, log), h')" by blast
  from daemon_lifecycle [OF s] show ?thesis by (auto simp: toy_host_def)
qed

lemma status_result:
  assumes "getDaemonStatus M n h = (r, h')"
  shows "(\<exists>s. r = Inr s \<and> ds_logPath s = getLogPath M h n
    \<and> (h' = h \<or> ds_pid s = None \<and> h' = h\<lparr>ho_nodes := AList.delete (place_of (ma_cwd M) (getPidPath M h n)) (ho_nodes h)\<rparr>)
    \<and> (case ds_pid s of Some pid \<Rightarrow> isProcessAlive pid h | None \<Rightarrow> ds_meta s = None))"
proof -
  let ?p = "getPidPath M h n"
  have u: "andThen (or_ignore () (unlinkSync M ?p)) (\<lambda>_. ret g) h
      = (Inr g, case node_at (ho_nodes h) (place_of (ma_cwd M) ?p) of Some (Document m c) \<Rightarrow> h\<lparr>ho_nodes := AList.delete (place_of (ma_cwd M) ?p) (ho_nodes h)\<rparr>
          | _ \<Rightarrow> h)" for g
    by (auto simp: andThen_def or_ignore_def unlinkSync_def on_tree_def tree_unlink_def split: option.split node.split)
  show ?thesis using assms
    by (auto simp: getDaemonStatus_def looking_def Let_def existsSync_def readFileSync_def not_running_def u andThen_Inr
        split: if_splits sum.splits option.splits node.splits)
qed

lemma status_disturbs_nothing_env: "getDaemonStatus M n h = (r, h') \<Longrightarrow> ho_env h' = ho_env h"
  using status_result [of M n h r h'] by auto

end
