(* ===== verification/Repeater.thy ===== *)
theory Repeater
  imports Daemon
begin

text \<open>
  The operator's own relay: the questions of \<open>operator/prompts.ts\<close>, the configuration file and Docker
  arguments of \<open>operator/repeaterConfig.ts\<close>, and the commands of \<open>operator/repeater.ts\<close>. The words that
  are printed are tags, and lines that only announce a step are left out; the health request of \<open>status\<close> and the directory Docker builds in are left out.
\<close>

subsection \<open>Questions\<close>

text \<open>What a line typed to a question counts as; when there are no more lines the default is taken.\<close>

definition answered :: "string \<Rightarrow> string \<Rightarrow> string" where
  "answered fallback line = (if trim line = [] then fallback else trim line)"

definition ask :: "string \<Rightarrow> (host, string) op" where
  "ask fallback h =
     (case ho_lines h of
        [] \<Rightarrow> (Inr fallback, h)
      | line # lines \<Rightarrow> (Inr (answered fallback line), h\<lparr>ho_lines := lines\<rparr>))"

definition confirm :: "bool \<Rightarrow> (host, bool) op" where
  "confirm defaultYes =
     andThen (ask (if defaultYes then ''y'' else ''n'')) (\<lambda>s. ret (prefix ''y'' (map to_lower s)))"

definition askChoice :: "string list \<Rightarrow> nat \<Rightarrow> (host, string) op" where
  "askChoice choices defaultIndex =
     andThen (ask (show_nat (Suc defaultIndex))) (\<lambda>raw. ret
       (case parse_int10 raw of
          Some n \<Rightarrow>
            if 1 \<le> n \<and> n \<le> int (length choices) then choices ! nat (n - 1)
            else if defaultIndex < length choices then choices ! defaultIndex else (case choices of [] \<Rightarrow> [] | c # cs \<Rightarrow> c)
        | None \<Rightarrow> if defaultIndex < length choices then choices ! defaultIndex else (case choices of [] \<Rightarrow> [] | c # cs \<Rightarrow> c)))"

subsection \<open>Values of the configuration\<close>

text \<open>The rule a value broke, and the value as it is printed.\<close>

datatype repeater_error = RepeaterConfigError string string

definition control_character :: "char \<Rightarrow> bool" where
  "control_character c \<longleftrightarrow> (of_char c :: nat) < 32 \<or> (of_char c :: nat) = 127"

definition printable :: "string \<Rightarrow> string" where
  "printable v = map (\<lambda>c. if control_character c then CHR ''?'' else c) v"

definition callsign_char :: "char \<Rightarrow> bool" where
  "callsign_char c \<longleftrightarrow> (let k = (of_char c :: nat) in 48 \<le> k \<and> k \<le> 57 \<or> 65 \<le> k \<and> k \<le> 90 \<or> 97 \<le> k \<and> k \<le> 122)"

definition CALLSIGN_PATTERN :: "string \<Rightarrow> bool" where
  "CALLSIGN_PATTERN s =
     (case s of [] \<Rightarrow> False
      | c # cs \<Rightarrow> callsign_char c \<and> length cs \<le> 31 \<and> list_all (\<lambda>d. callsign_char d \<or> d = CHR ''_'' \<or> d = CHR ''-'') cs)"

definition validateCallsign :: "string \<Rightarrow> repeater_error + string" where
  "validateCallsign v =
     (if CALLSIGN_PATTERN (trim v) then Inr (trim v) else Inl (RepeaterConfigError ''callsign'' (printable v)))"

definition validatePort :: "string \<Rightarrow> repeater_error + nat" where
  "validatePort v =
     (let t = trim v in
      if t \<noteq> [] \<and> list_all is_digit t \<and> 1 \<le> read_nat t \<and> read_nat t \<le> 65535 then Inr (read_nat t)
      else Inl (RepeaterConfigError ''port'' (printable t)))"

definition validateEnvValue :: "string \<Rightarrow> string \<Rightarrow> repeater_error + string" where
  "validateEnvValue n v = (if list_ex control_character v then Inl (RepeaterConfigError n []) else Inr v)"

fun formatted_lines :: "(string \<times> string) list \<Rightarrow> repeater_error + string list" where
  "formatted_lines [] = Inr []"
| "formatted_lines ((n, v) # entries) =
     (case validateEnvValue n v of
        Inl e \<Rightarrow> Inl e
      | Inr x \<Rightarrow> (case formatted_lines entries of Inl e \<Rightarrow> Inl e | Inr ls \<Rightarrow> Inr ((n @ CHR ''='' # x) # ls)))"

definition formatEnvFile :: "(string \<times> string) list \<Rightarrow> repeater_error + string" where
  "formatEnvFile entries =
     (case formatted_lines entries of Inl e \<Rightarrow> Inl e | Inr ls \<Rightarrow> Inr (join [CHR 0x0A] ls @ [CHR 0x0A]))"

fun split_at :: "char \<Rightarrow> string \<Rightarrow> string list" where
  "split_at d [] = [[]]"
| "split_at d (c # s) =
     (if c = d then [] # split_at d s
      else (case split_at d s of [] \<Rightarrow> [[c]] | x # xs \<Rightarrow> (c # x) # xs))"

text \<open>A name that repeats keeps its place and takes the later value; \<open>__proto__\<close> is no member of its own.\<close>

definition env_line :: "string \<Rightarrow> (string \<times> string) list \<Rightarrow> (string \<times> string) list" where
  "env_line line cfg =
     (case split_at (CHR ''='') line of
        key # r # rest \<Rightarrow>
          if key = [] \<or> trim key = ''__proto__'' then cfg else obj_put (trim key) (trim (join ''='' (r # rest))) cfg
      | _ \<Rightarrow> cfg)"

definition parseEnvFile :: "string \<Rightarrow> (string \<times> string) list" where
  "parseEnvFile raw = fold env_line (split_at (CHR 0x0A) raw) []"

definition DEFAULT_REPEATER_PORT :: nat where "DEFAULT_REPEATER_PORT = 8081"
definition REPEATER_CONTAINER_NAME :: string where "REPEATER_CONTAINER_NAME = ''echolet-relay''"
definition REPEATER_IMAGE :: string where "REPEATER_IMAGE = ''echolet-relay:latest''"

record repeater_start =
  rs_callsign :: string
  rs_port :: nat

text \<open>\<open>cfg.name || default\<close>\<close>

definition setting :: "(string \<times> string) list \<Rightarrow> string \<Rightarrow> string \<Rightarrow> string" where
  "setting cfg n fallback = (case map_of cfg n of None \<Rightarrow> fallback | Some v \<Rightarrow> if v = [] then fallback else v)"

definition resolveStartConfig :: "(string \<times> string) list \<Rightarrow> repeater_error + repeater_start" where
  "resolveStartConfig cfg =
     (case validateCallsign (setting cfg ''ECHOLET_NODE_CALLSIGN'' ''LOCAL-REPEATER'') of
        Inl e \<Rightarrow> Inl e
      | Inr c \<Rightarrow>
          (case validatePort (setting cfg ''ECHOLET_PORT'' (show_nat DEFAULT_REPEATER_PORT)) of
             Inl e \<Rightarrow> Inl e
           | Inr p \<Rightarrow> Inr \<lparr>rs_callsign = c, rs_port = p\<rparr>))"

definition buildDockerRunArgs :: "repeater_start \<Rightarrow> string \<Rightarrow> string list" where
  "buildDockerRunArgs config dataDir =
     [''run'', ''-d'', ''--name'', REPEATER_CONTAINER_NAME, ''--restart'', ''unless-stopped'', ''--user'', ''10001:10001'',
      ''-p'', ''127.0.0.1:'' @ show_nat (rs_port config) @ '':8443'',
      ''-e'', ''ECHOLET_HTTP_ADDR=0.0.0.0:8443'', ''-e'', ''ECHOLET_DATA_DIR=/var/lib/echolet'',
      ''-e'', ''ECHOLET_NODE_CALLSIGN='' @ rs_callsign config, ''-v'', dataDir @ '':/var/lib/echolet'', REPEATER_IMAGE]"

subsection \<open>Setting up\<close>

text \<open>
  Asking until an answer is accepted. With no line left every further answer is the default, so the
  loop ends there only when the default is accepted: None is a loop that never ends.
\<close>

fun ask_valid :: "string \<Rightarrow> (string \<Rightarrow> repeater_error + 'a) \<Rightarrow> string list \<Rightarrow> ('a \<times> string list) option" where
  "ask_valid fallback check [] = (case check fallback of Inl e \<Rightarrow> None | Inr x \<Rightarrow> Some (x, []))"
| "ask_valid fallback check (line # lines) =
     (case check (answered fallback line) of Inl e \<Rightarrow> ask_valid fallback check lines | Inr x \<Rightarrow> Some (x, lines))"

definition tls_answers :: "string \<Rightarrow> string list \<Rightarrow> ((string \<times> string) \<times> string list) option" where
  "tls_answers mode ls =
     (if mode \<noteq> ''tailscale'' then Some (([], []), ls)
      else case ask_valid [] (validateEnvValue ''Tailscale'') ls of None \<Rightarrow> None | Some (tailHost, ls1) \<Rightarrow>
        case ask_valid (''/etc/echolet/tls/'' @ tailHost @ ''.crt'') (validateEnvValue ''ECHOLET_TLS_CERT_FILE'') ls1 of None \<Rightarrow> None | Some (cert, ls2) \<Rightarrow>
        case ask_valid (''/etc/echolet/tls/'' @ tailHost @ ''.key'') (validateEnvValue ''ECHOLET_TLS_KEY_FILE'') ls2 of None \<Rightarrow> None
        | Some (key, ls3) \<Rightarrow> Some ((cert, key), ls3))"

definition setup_entries :: "string \<Rightarrow> nat \<Rightarrow> string \<Rightarrow> string \<Rightarrow> string \<Rightarrow> string \<Rightarrow> (string \<times> string) list" where
  "setup_entries dataDir port who mode cert key =
     [(''ECHOLET_NODE_CALLSIGN'', who), (''ECHOLET_HTTP_ADDR'', ''0.0.0.0:'' @ show_nat port), (''ECHOLET_DATA_DIR'', dataDir),
      (''ECHOLET_LOG_LEVEL'', ''info''), (''ECHOLET_MODE'', mode), (''ECHOLET_PORT'', show_nat port)]
     @ (if cert = [] then [] else [(''ECHOLET_TLS_CERT_FILE'', cert)])
     @ (if key = [] then [] else [(''ECHOLET_TLS_KEY_FILE'', key)])"

definition config_error :: "repeater_error \<Rightarrow> exn" where
  "config_error e = (case e of RepeaterConfigError rule v \<Rightarrow> PlainError rule)"

definition write_env_file :: "machine \<Rightarrow> (string \<times> string) list \<Rightarrow> (host, nat) op" where
  "write_env_file M entries = looking (\<lambda>h.
     andThen (lift (case formatEnvFile entries of Inl e \<Rightarrow> Inl (config_error e) | Inr raw \<Rightarrow> Inr raw)) (\<lambda>raw.
     andThen (mkdirSync M (getRepeaterDbPath M h) private_folder) (\<lambda>_.
     andThen (writeFileSync M (getRepeaterEnvPath M h) private_file raw) (\<lambda>_. ret 0))))"

definition repeater_setup :: "machine \<Rightarrow> host \<Rightarrow> ((exn + nat) \<times> host) option" where
  "repeater_setup M h =
     (case ask_valid ''REPEATER-01'' validateCallsign (ho_lines h) of None \<Rightarrow> None | Some (who, ls1) \<Rightarrow>
      case ask_valid (show_nat DEFAULT_REPEATER_PORT) validatePort ls1 of None \<Rightarrow> None | Some (port, ls2) \<Rightarrow>
      case askChoice [''docker'', ''tailscale'', ''native''] 0 (h\<lparr>ho_lines := ls2\<rparr>) of
        (Inl e, h1) \<Rightarrow> Some (Inl e, h1)
      | (Inr mode, h1) \<Rightarrow>
          (case tls_answers mode (ho_lines h1) of None \<Rightarrow> None
           | Some ((cert, key), ls3) \<Rightarrow>
               Some (write_env_file M (setup_entries (getRepeaterDbPath M h) port who mode cert key) (h1\<lparr>ho_lines := ls3\<rparr>))))"

subsection \<open>Starting, stopping and asking\<close>

text \<open>Every call of Docker passes an argument list, never a line for a shell; it is recorded like a child.\<close>

definition docker :: "machine \<Rightarrow> string list \<Rightarrow> (host, string) op" where
  "docker M args h =
     (ma_docker M args, h\<lparr>ho_spawned := ho_spawned h @ [\<lparr>sp_command = ''docker'', sp_args = args, sp_env = ho_env h\<rparr>]\<rparr>)"

text \<open>The result of a command is the exit code it asks for.\<close>

definition docker_started :: "machine \<Rightarrow> repeater_start \<Rightarrow> (host, nat) op" where
  "docker_started M config = looking (\<lambda>h.
     andThen (or_ignore [] (andThen (docker M [''images'', ''-q'', REPEATER_IMAGE]) (\<lambda>out. ret (trim out)))) (\<lambda>image.
     andThen (if image \<noteq> [] then ret []
        else docker M [''build'', ''-t'', REPEATER_IMAGE, ''-f'', ''apps/relay/Dockerfile'', ''apps/relay'']) (\<lambda>_.
     andThen (or_ignore [] (docker M [''rm'', ''-f'', REPEATER_CONTAINER_NAME])) (\<lambda>_.
     andThen (mkdirSync M (getRepeaterDbPath M h) private_folder) (\<lambda>_.
     andThen (docker M (buildDockerRunArgs config (getRepeaterDbPath M h))) (\<lambda>out.
     andThen (say ''docker repeater started'' [take 12 (trim out), show_nat (rs_port config)]) (\<lambda>_. ret 0)))))))"

definition native_env :: "machine \<Rightarrow> host \<Rightarrow> repeater_start \<Rightarrow> string \<Rightarrow> string option" where
  "native_env M h config =
     (ho_env h)(''ECHOLET_HTTP_ADDR'' \<mapsto> CHR '':'' # show_nat (rs_port config), ''ECHOLET_DATA_DIR'' \<mapsto> getRepeaterDbPath M h,
       ''ECHOLET_NODE_CALLSIGN'' \<mapsto> rs_callsign config)"

definition native_started :: "machine \<Rightarrow> bool \<Rightarrow> repeater_start \<Rightarrow> string \<Rightarrow> (host, nat) op" where
  "native_started M isDaemon config now = looking (\<lambda>h.
     let env = native_env M h config; args = [''run'', ''./apps/relay/cmd/relay''] in
     andThen (getDaemonStatus M ''repeater'') (\<lambda>status.
       case ds_pid status of
         Some pid \<Rightarrow> andThen (say ''repeater already runs'' [show_int pid]) (\<lambda>_. ret 0)
       | None \<Rightarrow>
           if isDaemon
           then andThen (startDaemonProcess M ''repeater'' ''go'' args env (JNum (int (rs_port config))) JNull now) (\<lambda>meta.
                andThen (say ''background repeater started'' [show_int (dm_pid meta), show_nat (rs_port config)]) (\<lambda>_. ret 0))
           else andThen (spawnProcess M \<lparr>sp_command = ''go'', sp_args = args, sp_env = env\<rparr>) (\<lambda>_. ret 0)))"

definition read_settings :: "machine \<Rightarrow> string \<Rightarrow> (host, (string \<times> string) list) op" where
  "read_settings M envFile =
     andThen (existsSync M envFile) (\<lambda>found.
       if found then andThen (readFileSync M envFile) (\<lambda>raw. ret (parseEnvFile raw)) else ret [])"

definition repeater_start_command :: "machine \<Rightarrow> string list \<Rightarrow> string \<Rightarrow> (host, nat) op" where
  "repeater_start_command M args now = looking (\<lambda>h.
     andThen (read_settings M (getRepeaterEnvPath M h)) (\<lambda>cfg.
       case resolveStartConfig cfg of
         Inl (RepeaterConfigError rule v) \<Rightarrow>
           andThen (say ''configuration refused'' [rule, v]) (\<lambda>_. ret 1)
       | Inr config \<Rightarrow>
           if (if ''--docker'' \<in> set args then ''docker'' else setting cfg ''ECHOLET_MODE'' ''docker'') = ''docker''
           then
             andThen (or_ignore False (andThen (docker M [''--version'']) (\<lambda>_. ret True))) (\<lambda>found.
               if \<not> found then andThen (say ''docker not found'' []) (\<lambda>_. ret 1)
               else docker_started M config)
           else native_started M (''--daemon'' \<in> set args \<or> ''-d'' \<in> set args) config now))"

definition repeater_stop_command :: "machine \<Rightarrow> (host, nat) op" where
  "repeater_stop_command M =
     andThen (or_ignore () (andThen (docker M [''stop'', REPEATER_CONTAINER_NAME]) (\<lambda>_.
       andThen (docker M [''rm'', REPEATER_CONTAINER_NAME]) (\<lambda>_. say ''container stopped'' [])))) (\<lambda>_.
     andThen (stopDaemon M ''repeater'') (\<lambda>res.
     andThen (case res of Stopped pid \<Rightarrow> say ''repeater stopped'' [show_int pid] | NotRunning \<Rightarrow> ret ()) (\<lambda>_. ret 0)))"

definition repeater_status_command :: "machine \<Rightarrow> (host, nat) op" where
  "repeater_status_command M =
     andThen (or_ignore [] (andThen (docker M [''ps'', ''--filter'', ''name='' @ REPEATER_CONTAINER_NAME, ''--format'', ''{{.Status}}''])
       (\<lambda>out. ret (trim out)))) (\<lambda>out.
     andThen (if out \<noteq> [] then say ''container runs'' [out] else ret ()) (\<lambda>_.
     andThen (getDaemonStatus M ''repeater'') (\<lambda>status.
     andThen (case ds_meta status of
          Some meta \<Rightarrow> say ''native process runs'' [show_int (dm_pid meta), if dm_port meta = JNull then ''undefined'' else js_text (dm_port meta)]
        | None \<Rightarrow> if out = [] then say ''repeater is not running'' [] else ret ()) (\<lambda>_. ret 0))))"

definition last_lines :: "nat \<Rightarrow> string \<Rightarrow> string" where
  "last_lines n s = (let ls = split_at (CHR 0x0A) s in join [CHR 0x0A] (drop (length ls - n) ls))"

definition repeater_logs_command :: "machine \<Rightarrow> (host, nat) op" where
  "repeater_logs_command M =
     andThen (or_ignore False (andThen (docker M [''logs'', ''--tail'', ''50'', ''-f'', REPEATER_CONTAINER_NAME]) (\<lambda>_. ret True))) (\<lambda>shown.
       if shown then ret 0
       else looking (\<lambda>h. andThen (existsSync M (getLogPath M h ''repeater'')) (\<lambda>found.
         if found
         then andThen (readFileSync M (getLogPath M h ''repeater'')) (\<lambda>contents.
              andThen (say ''log'' [last_lines 50 contents]) (\<lambda>_. ret 0))
         else andThen (say ''no log'' []) (\<lambda>_. ret 0))))"

text \<open>The command with its arguments; None is a setup that asks forever.\<close>

definition handleRepeaterCommand :: "machine \<Rightarrow> string list \<Rightarrow> string \<Rightarrow> host \<Rightarrow> ((exn + nat) \<times> host) option" where
  "handleRepeaterCommand M args now h =
     (let sub = (case args of [] \<Rightarrow> ''status'' | a # as \<Rightarrow> if a = [] then ''status'' else a) in
      case ensureEcholetDirs M h of
        (Inl e, h1) \<Rightarrow> Some (Inl e, h1)
      | (Inr _, h1) \<Rightarrow>
          if sub = ''setup'' then repeater_setup M h1
          else if sub = ''start'' then Some (repeater_start_command M args now h1)
          else if sub = ''stop'' then Some (repeater_stop_command M h1)
          else if sub = ''status'' then Some (repeater_status_command M h1)
          else if sub = ''logs'' then Some (repeater_logs_command M h1)
          else Some (andThen (say ''unknown subcommand'' [sub]) (\<lambda>_. ret 0) h1))"

subsection \<open>The configuration file\<close>

lemma split_at_nonempty [simp]: "split_at d s \<noteq> []"
  by (induction s) (auto split: list.split)

lemma split_at_sep_append: "split_at d (a @ d # b) = split_at d a @ split_at d b"
  by (induction a) (auto split: list.split)

lemma split_at_plain: "d \<notin> set x \<Longrightarrow> split_at d x = [x]"
  by (induction x) auto

lemma split_at_join: "\<forall>x \<in> set xs. d \<notin> set x \<Longrightarrow> xs \<noteq> [] \<Longrightarrow> split_at d (join [d] xs) = xs"
  by (induction xs rule: induct_list012) (simp_all add: split_at_plain split_at_sep_append)

lemma join_split_at: "join [d] (split_at d s) = s"
proof (induction s)
  case (Cons c s)
  then show ?case by (cases "split_at d s") (auto simp: join_Cons split: if_splits)
qed simp

lemma env_line_written:
  assumes "CHR ''='' \<notin> set n" "n \<noteq> []" "trim n \<noteq> ''__proto__''"
  shows "env_line (n @ CHR ''='' # v) cfg = obj_put (trim n) (trim v) cfg"
proof -
  obtain r rest where r: "split_at (CHR ''='') v = r # rest" by (cases "split_at (CHR ''='') v") auto
  have "split_at (CHR ''='') (n @ CHR ''='' # v) = n # r # rest"
    using assms(1) r by (simp add: split_at_sep_append split_at_plain)
  moreover have "join ''='' (r # rest) = v" using join_split_at [of "CHR ''=''" v] r by simp
  ultimately show ?thesis using assms by (simp add: env_line_def del: join.simps)
qed

lemma formatted_lines_map:
  "formatted_lines entries = Inr ls \<Longrightarrow> ls = map (\<lambda>(n, v). n @ CHR ''='' # v) entries
     \<and> list_all (\<lambda>(n, v). \<not> list_ex control_character v) entries"
  by (induction entries arbitrary: ls) (auto simp: validateEnvValue_def split: sum.splits if_splits)

lemma env_lines_written:
  "list_all (\<lambda>(n, v). CHR ''='' \<notin> set n \<and> n \<noteq> [] \<and> trim n \<noteq> ''__proto__'') entries \<Longrightarrow>
     fold env_line (map (\<lambda>(n, v). n @ CHR ''='' # v) entries) cfg = fold (\<lambda>(n, v). obj_put (trim n) (trim v)) entries cfg"
  by (induction entries arbitrary: cfg) (auto simp: env_line_written)

text \<open>
  C34. A value never starts a second variable: what can be written as a configuration file at all is
  read back as exactly its entries, in order, whatever the values hold - a value with a line break is
  refused when it is written - and with each name's last value trimmed.
\<close>

theorem env_file_round_trip:
  assumes "formatEnvFile entries = Inr raw" "entries \<noteq> []"
    "list_all (\<lambda>(n, v). CHR ''='' \<notin> set n \<and> CHR 0x0A \<notin> set n \<and> n \<noteq> [] \<and> trim n \<noteq> ''__proto__'') entries"
  shows "parseEnvFile raw = fold (\<lambda>(n, v). obj_put (trim n) (trim v)) entries []
    \<and> list_all (\<lambda>(n, v). CHR 0x0A \<notin> set v) entries"
proof -
  from assms(1) obtain ls where ls: "formatted_lines entries = Inr ls" "raw = join [CHR 0x0A] ls @ [CHR 0x0A]"
    by (auto simp: formatEnvFile_def split: sum.splits)
  note m = formatted_lines_map [OF ls(1)]
  have "control_character (CHR 0x0A)" by (simp add: control_character_def)
  with m have v: "list_all (\<lambda>(n, v). CHR 0x0A \<notin> set v) entries" by (fastforce simp: list_all_iff list_ex_iff)
  have plain: "\<forall>x \<in> set ls. CHR 0x0A \<notin> set x"
    using m v assms(3) by (fastforce simp: list_all_iff)
  have "ls \<noteq> []" using m assms(2) by auto
  then have s: "split_at (CHR 0x0A) raw = ls @ [[]]"
    using plain split_at_sep_append [of "CHR 0x0A" "join [CHR 0x0A] ls" "[]"] ls(2) by (simp add: split_at_join)
  have "list_all (\<lambda>(n, v). CHR ''='' \<notin> set n \<and> n \<noteq> [] \<and> trim n \<noteq> ''__proto__'') entries"
    using assms(3) by (auto simp: list_all_iff)
  from env_lines_written [OF this, of "[]"] m have "fold env_line ls [] = fold (\<lambda>(n, v). obj_put (trim n) (trim v)) entries []" by simp
  moreover have "env_line [] cfg = cfg" for cfg by (simp add: env_line_def)
  ultimately show ?thesis using v s by (simp add: parseEnvFile_def)
qed

theorem env_file_round_trip_witness: "\<exists>raw. formatEnvFile [(''A'', ''b=c'')] = Inr raw \<and> parseEnvFile raw = [(''A'', ''b=c'')]"
proof -
  have f: "formatEnvFile [(''A'', ''b=c'')] = Inr (''A=b=c'' @ [CHR 0x0A])"
    by (simp add: formatEnvFile_def validateEnvValue_def control_character_def)
  have t: "trim ''A'' = ''A''" "trim ''b=c'' = ''b=c''" by (rule trim_visible, simp add: visible_def)+
  from env_file_round_trip [OF f] t f show ?thesis by auto
qed

subsection \<open>What reaches Docker and the relay\<close>

lemma callsign_plain: "CALLSIGN_PATTERN s \<Longrightarrow> visible s \<and> length s \<le> 32 \<and> s \<noteq> [] \<and> hd s \<noteq> CHR ''-'' \<and> CHR ''='' \<notin> set s"
  by (cases s) (auto simp: CALLSIGN_PATTERN_def callsign_char_def visible_def Let_def list_all_iff)

text \<open>
  C33. What Docker is told to run: from whatever a configuration file holds, either the start is
  refused or the container is published on the loopback interface alone, under a port from 1 to 65535,
  with a callsign of at most 32 plain characters as one argument of its own; the data directory is the
  one other value in the argument list, as one argument.
\<close>

theorem docker_arguments_are_contained:
  assumes "resolveStartConfig (parseEnvFile raw) = Inr config"
  shows "\<exists>port who. buildDockerRunArgs config dataDir =
      [''run'', ''-d'', ''--name'', ''echolet-relay'', ''--restart'', ''unless-stopped'', ''--user'', ''10001:10001'',
       ''-p'', ''127.0.0.1:'' @ show_nat port @ '':8443'', ''-e'', ''ECHOLET_HTTP_ADDR=0.0.0.0:8443'',
       ''-e'', ''ECHOLET_DATA_DIR=/var/lib/echolet'', ''-e'', ''ECHOLET_NODE_CALLSIGN='' @ who,
       ''-v'', dataDir @ '':/var/lib/echolet'', ''echolet-relay:latest'']
    \<and> 1 \<le> port \<and> port \<le> 65535 \<and> visible who \<and> who \<noteq> [] \<and> length who \<le> 32 \<and> hd who \<noteq> CHR ''-'' \<and> CHR ''='' \<notin> set who"
proof -
  from assms have v: "validateCallsign (setting (parseEnvFile raw) ''ECHOLET_NODE_CALLSIGN'' ''LOCAL-REPEATER'') = Inr (rs_callsign config)"
      "validatePort (setting (parseEnvFile raw) ''ECHOLET_PORT'' (show_nat DEFAULT_REPEATER_PORT)) = Inr (rs_port config)"
    by (auto simp: resolveStartConfig_def split: sum.splits)
  then have "CALLSIGN_PATTERN (rs_callsign config)" "1 \<le> rs_port config" "rs_port config \<le> 65535"
    by (auto simp: validateCallsign_def validatePort_def Let_def split: if_splits)
  with callsign_plain [of "rs_callsign config"] show ?thesis
    by (intro exI [of _ "rs_port config"] exI [of _ "rs_callsign config"])
       (simp add: buildDockerRunArgs_def REPEATER_CONTAINER_NAME_def REPEATER_IMAGE_def)
qed

lemma port_written: "1 \<le> n \<Longrightarrow> n \<le> 65535 \<Longrightarrow> validatePort (show_nat n) = Inr n"
proof -
  assume n: "1 \<le> n" "n \<le> 65535"
  have "show_nat n = show_int (int n)" by (simp add: show_int_def)
  then have "trim (show_nat n) = show_nat n" using trim_visible [OF visible_show_int [of "int n"]] by simp
  then show ?thesis using n show_nat_digits [of n] by (simp add: validatePort_def list_all_iff)
qed

lemma default_answers:
  "validateCallsign ''REPEATER-01'' = Inr ''REPEATER-01''" "validateCallsign ''LOCAL-REPEATER'' = Inr ''LOCAL-REPEATER''"
  "validatePort (show_nat DEFAULT_REPEATER_PORT) = Inr 8081"
proof -
  have "visible ''REPEATER-01''" "visible ''LOCAL-REPEATER''" by (simp_all add: visible_def)
  then show "validateCallsign ''REPEATER-01'' = Inr ''REPEATER-01''" "validateCallsign ''LOCAL-REPEATER'' = Inr ''LOCAL-REPEATER''"
    by (simp_all add: validateCallsign_def trim_visible CALLSIGN_PATTERN_def callsign_char_def)
  show "validatePort (show_nat DEFAULT_REPEATER_PORT) = Inr 8081"
    using port_written [of DEFAULT_REPEATER_PORT] by (simp add: DEFAULT_REPEATER_PORT_def del: show_nat.simps)
qed

theorem docker_arguments_are_contained_witness:
  "\<exists>config. resolveStartConfig (parseEnvFile []) = Inr config \<and> length (buildDockerRunArgs config ''/d'') = 19"
proof -
  have "resolveStartConfig (parseEnvFile []) = Inr \<lparr>rs_callsign = ''LOCAL-REPEATER'', rs_port = 8081\<rparr>"
    by (simp add: resolveStartConfig_def parseEnvFile_def env_line_def setting_def default_answers)
  from docker_arguments_are_contained [OF this, of "''/d''"] this show ?thesis by auto
qed

lemma ask_valid_returns: "(\<exists>x. check fallback = Inr x) \<Longrightarrow> ask_valid fallback check ls \<noteq> None"
  by (induction ls) (auto split: sum.splits)

lemma ask_valid_result: "ask_valid fallback check ls = Some (x, ls') \<Longrightarrow> \<exists>v. check v = Inr x"
  by (induction ls) (auto split: sum.splits)

lemma tls_returns: "tls_answers mode ls \<noteq> None"
proof (cases "mode = ''tailscale''")
  case True
  have e: "\<exists>x. validateEnvValue n v = Inr x" if "\<not> list_ex control_character v" for n v using that by (simp add: validateEnvValue_def)
  obtain tailHost ls1 where t: "ask_valid [] (validateEnvValue ''Tailscale'') ls = Some (tailHost, ls1)"
    using ask_valid_returns [of "validateEnvValue ''Tailscale''" "[]" ls] e [of "[]"] by fastforce
  from ask_valid_result [OF t] have h: "\<not> list_ex control_character tailHost" by (auto simp: validateEnvValue_def split: if_splits)
  then have p: "\<not> list_ex control_character (''/etc/echolet/tls/'' @ tailHost @ ''.crt'')" "\<not> list_ex control_character (''/etc/echolet/tls/'' @ tailHost @ ''.key'')"
    by (simp_all add: control_character_def)
  obtain cert ls2 where c: "ask_valid (''/etc/echolet/tls/'' @ tailHost @ ''.crt'') (validateEnvValue ''ECHOLET_TLS_CERT_FILE'') ls1 = Some (cert, ls2)"
    using ask_valid_returns [of "validateEnvValue ''ECHOLET_TLS_CERT_FILE''" "''/etc/echolet/tls/'' @ tailHost @ ''.crt''" ls1] e [OF p(1)] by fastforce
  obtain key ls3 where k: "ask_valid (''/etc/echolet/tls/'' @ tailHost @ ''.key'') (validateEnvValue ''ECHOLET_TLS_KEY_FILE'') ls2 = Some (key, ls3)"
    using ask_valid_returns [of "validateEnvValue ''ECHOLET_TLS_KEY_FILE''" "''/etc/echolet/tls/'' @ tailHost @ ''.key''" ls2] e [OF p(2)] by fastforce
  show ?thesis unfolding tls_answers_def using True t c k by simp
qed (simp add: tls_answers_def)

text \<open>
  The setup always ends: whatever lines the operator types, and when the input ends early, every
  question is answered by an accepted line or by its default, which is accepted; what is then asked
  for is written or the command fails, but it never asks forever.
\<close>

theorem setup_ends: "\<exists>r h'. repeater_setup M h = Some (r, h')"
proof -
  obtain who ls1 where w: "ask_valid ''REPEATER-01'' validateCallsign (ho_lines h) = Some (who, ls1)"
    using ask_valid_returns [of validateCallsign "''REPEATER-01''" "ho_lines h"] default_answers(1) by fastforce
  obtain port ls2 where p: "ask_valid (show_nat DEFAULT_REPEATER_PORT) validatePort ls1 = Some (port, ls2)"
    using ask_valid_returns [of validatePort "show_nat DEFAULT_REPEATER_PORT" ls1] default_answers(3) by fastforce
  obtain mode h1 where m: "askChoice [''docker'', ''tailscale'', ''native''] 0 (h\<lparr>ho_lines := ls2\<rparr>) = (mode, h1)" by fastforce
  show ?thesis
  proof (cases mode)
    case (Inr choice)
    obtain cert key ls3 where t: "tls_answers choice (ho_lines h1) = Some ((cert, key), ls3)"
      using tls_returns [of choice "ho_lines h1"] by fastforce
    show ?thesis unfolding repeater_setup_def w p option.case prod.case m Inr sum.case t by (metis prod.exhaust)
  qed (simp add: repeater_setup_def w p m)
qed

text \<open>
  The certificate of a relay that was set up for it never reaches the relay: whatever the
  configuration file names, a native start gives its process the TLS settings of the operator's own
  environment and no others, and listens on every interface at the configured port.
\<close>

theorem native_relay_ignores_certificates:
  assumes "native_started M True config now h = (Inr code, h')" "ds_pid s = None" "getDaemonStatus M ''repeater'' h = (Inr s, g)"
  shows "\<exists>run_env. ho_spawned h' = ho_spawned g @ [\<lparr>sp_command = ''go'', sp_args = [''run'', ''./apps/relay/cmd/relay''], sp_env = run_env\<rparr>]
    \<and> run_env ''ECHOLET_TLS_CERT_FILE'' = ho_env h ''ECHOLET_TLS_CERT_FILE'' \<and> run_env ''ECHOLET_TLS_KEY_FILE'' = ho_env h ''ECHOLET_TLS_KEY_FILE''
    \<and> run_env ''ECHOLET_HTTP_ADDR'' = Some (CHR '':'' # show_nat (rs_port config))"
proof -
  from assms obtain pid log k where d: "startDaemon M ''repeater'' ''go'' [''run'', ''./apps/relay/cmd/relay''] (native_env M h config) g = (Inr (pid, log), k)"
      "h' = k\<lparr>ho_said := ho_said h'\<rparr>"
    by (auto simp: native_started_def looking_def Let_def andThen_Inr_iff andThen_def [of "getDaemonStatus M ''repeater''"] startDaemonProcess_def say_def
        split: prod.splits)
  from status_disturbs_nothing_env [OF assms(3)] have "ho_env g = ho_env h" .
  with started [OF d(1)] obtain run_env where "ho_spawned k = ho_spawned g @ [\<lparr>sp_command = ''go'', sp_args = [''run'', ''./apps/relay/cmd/relay''], sp_env = run_env\<rparr>]"
      "run_env = merged_env (ho_env h) (native_env M h config)" by auto
  moreover from d(2) have "ho_spawned h' = ho_spawned k" by (metis host.select_convs(5) host.surjective host.update_convs(4))
  ultimately show ?thesis
    by (auto simp: merged_env_def native_env_def split: option.split)
qed

end
