(* ===== verification/Tools.thy ===== *)
theory Tools
  imports Repeater
begin

text \<open>
  The operator's commands for stations, profiles and contacts: \<open>operator/station.ts\<close>,
  \<open>operator/profile.ts\<close> and \<open>operator/contact.ts\<close>. The result of a command is the exit code it asks for;
  the words that are printed are tags, with the values they show but for the messages of errors;
  lines that only announce a step are left out.
\<close>

text \<open>
  What the commands call beside the machine's files. The operations of an opened profile are those of
  the theories Profile, OpenProfile and Outbound, as what they do to the machine whose files hold the
  profile: opening it with a configuration or none, initializing it or not; reading its card and its
  summary; importing a contact that is always confirmed; asking for a walk of the mailbox; closing; and
  publishing through a messenger that is opened and closed for it, on the relay of the given address.
\<close>

record tools =
  tl_parse :: "string \<Rightarrow> url option"
  tl_here :: string
  tl_execPath :: string
  tl_script :: "string option"
  tl_platform :: string
  tl_uuid :: "nat \<Rightarrow> string"
  tl_open :: "string \<Rightarrow> json option \<Rightarrow> bool \<Rightarrow> (host, unit) op"
  tl_card :: "(host, json) op"
  tl_summary :: "(host, (string \<times> json) list) op"
  tl_import :: "json \<Rightarrow> (host, bool) op"
  tl_rewalk :: "(host, unit) op"
  tl_close :: "(host, unit) op"
  tl_publish :: "string \<Rightarrow> string \<Rightarrow> (host, unit) op"

definition report :: "string \<Rightarrow> string list \<Rightarrow> (host, nat) op" where
  "report tag vs = andThen (say tag vs) (\<lambda>_. ret 0)"

definition refuse :: "string \<Rightarrow> string list \<Rightarrow> (host, nat) op" where
  "refuse tag vs = andThen (say tag vs) (\<lambda>_. ret 1)"

text \<open>\<open>try { ... } finally { await close() }\<close>: an error of closing takes the place of the result.\<close>

definition in_the_end :: "(host, unit) op \<Rightarrow> (host, 'a) op \<Rightarrow> (host, 'a) op" where
  "in_the_end c m h = (case m h of (r, h1) \<Rightarrow> case c h1 of (Inl e, h2) \<Rightarrow> (Inl e, h2) | (Inr _, h2) \<Rightarrow> (r, h2))"

definition setenv :: "string \<Rightarrow> string \<Rightarrow> (host, unit) op" where
  "setenv n v h = (Inr (), h\<lparr>ho_env := (ho_env h)(n \<mapsto> v)\<rparr>)"

definition drawUuid :: "tools \<Rightarrow> (host, string) op" where
  "drawUuid T h = (Inr (tl_uuid T (ho_draws h)), h\<lparr>ho_draws := Suc (ho_draws h)\<rparr>)"

subsection \<open>The settings the commands read\<close>

definition type_error :: exn where "type_error = PlainError ''TypeError''"

text \<open>Reading a member of the settings: they are whatever JSON the file holds, and \<open>null\<close> has none.\<close>

definition active_of :: "json \<Rightarrow> json result" where
  "active_of config = (if config = JNull then Inl type_error else Inr (jprop config ''activeProfile''))"

definition with_active :: "string \<Rightarrow> json \<Rightarrow> json result" where
  "with_active who config =
     (case config of
        JObj kvs \<Rightarrow> Inr (JObj (obj_put ''activeProfile'' (JStr who) kvs))
      | JArr vs \<Rightarrow> Inr config
      | _ \<Rightarrow> Inl type_error)"

text \<open>A member set to \<open>undefined\<close> is not written.\<close>

definition without_active :: "json \<Rightarrow> json" where
  "without_active config = (case config of JObj kvs \<Rightarrow> JObj (filter (\<lambda>(k, v). k \<noteq> ''activeProfile'') kvs) | _ \<Rightarrow> config)"

definition first_of :: "string list \<Rightarrow> json option" where
  "first_of names = (case names of [] \<Rightarrow> None | n # ns \<Rightarrow> Some (JStr n))"

text \<open>\<open>config.activeProfile || listProfiles()[0]\<close>\<close>

definition chosen :: "machine \<Rightarrow> json \<Rightarrow> (host, json option) op" where
  "chosen M config =
     andThen (lift (active_of config)) (\<lambda>v.
       if truthy v then ret (Some v) else andThen (listProfiles M) (\<lambda>names. ret (first_of names)))"

text \<open>A path is made of texts alone.\<close>

definition name_of :: "json \<Rightarrow> string result" where
  "name_of v = (case v of JStr s \<Rightarrow> Inr s | _ \<Rightarrow> Inl type_error)"

text \<open>\<open>args[i]\<close>, and the argument after the first that is the given one; None stands for \<open>undefined\<close> and for the empty text.\<close>

definition filled :: "string option \<Rightarrow> string option" where
  "filled v = (if v = Some [] then None else v)"

definition nth_arg :: "nat \<Rightarrow> string list \<Rightarrow> string option" where
  "nth_arg i args = filled (if i < length args then Some (args ! i) else None)"

definition flag_value :: "string \<Rightarrow> string list \<Rightarrow> string option" where
  "flag_value n args = filled (case dropWhile (\<lambda>a. a \<noteq> n) args of a # v # rest \<Rightarrow> Some v | _ \<Rightarrow> None)"

definition subcommand :: "string \<Rightarrow> string list \<Rightarrow> string" where
  "subcommand fallback args = (case nth_arg 0 args of None \<Rightarrow> fallback | Some s \<Rightarrow> s)"

subsection \<open>Profiles\<close>

definition list_station :: "machine \<Rightarrow> json \<Rightarrow> nat \<Rightarrow> string \<Rightarrow> (host, unit) op" where
  "list_station M config n who = looking (\<lambda>h.
     andThen (lift (active_of config)) (\<lambda>active.
     andThen (existsSync M (join_path (getProfileDir M h who) ''client.sqlite'')) (\<lambda>ready.
       say ''station'' [who, if ready then ''ready'' else ''not initialized'',
         if JStr who = active \<or> n = 1 \<and> \<not> truthy active then ''active'' else []])))"

definition profile_list :: "machine \<Rightarrow> (host, nat) op" where
  "profile_list M =
     andThen (getGlobalConfig M) (\<lambda>config.
     andThen (listProfiles M) (\<lambda>names.
     andThen (say ''stations'' []) (\<lambda>_.
       if names = [] then report ''no stations'' []
       else andThen (each (list_station M config (length names)) names) (\<lambda>_. report ''use switch'' []))))"

definition profile_switch :: "machine \<Rightarrow> string option \<Rightarrow> (host, nat) op" where
  "profile_switch M target =
     (case target of
        None \<Rightarrow> refuse ''no callsign given'' []
      | Some who \<Rightarrow>
          andThen (listProfiles M) (\<lambda>names.
            if who \<notin> set names then refuse ''unknown profile'' (who # names)
            else
              andThen (getGlobalConfig M) (\<lambda>config.
              andThen (lift (with_active who config)) (\<lambda>new.
              andThen (saveGlobalConfig M new) (\<lambda>_. report ''active station'' [who])))))"

definition profile_export :: "machine \<Rightarrow> string list \<Rightarrow> (host, nat) op" where
  "profile_export M args =
     andThen (getGlobalConfig M) (\<lambda>config.
     andThen (case nth_arg 1 args of
          Some a \<Rightarrow> if prefix ''-'' a then chosen M config else ret (Some (JStr a))
        | None \<Rightarrow> chosen M config) (\<lambda>target.
       case target of
         None \<Rightarrow> refuse ''no profiles'' []
       | Some v \<Rightarrow> andThen (lift (name_of v)) (\<lambda>who. looking (\<lambda>h.
           let cardPath = join_path (getProfileDir M h who) ''identity.card.json'' in
           andThen (existsSync M cardPath) (\<lambda>found.
             if \<not> found then refuse ''no card'' [who, cardPath]
             else
               andThen (readFileSync M cardPath) (\<lambda>content.
                 case flag_value ''--out'' args of
                   Some out \<Rightarrow> andThen (writeFileSync M out shared_file content) (\<lambda>_. report ''card saved'' [who, out])
                 | None \<Rightarrow> report ''card'' [who, content]))))))"

definition profile_delete :: "machine \<Rightarrow> string option \<Rightarrow> (host, nat) op" where
  "profile_delete M target =
     (case target of
        None \<Rightarrow> refuse ''no profile given'' []
      | Some who \<Rightarrow> looking (\<lambda>h.
          let dir = getProfileDir M h who in
          andThen (existsSync M dir) (\<lambda>found.
            if \<not> found then refuse ''no such profile'' [who]
            else
              andThen (confirm False) (\<lambda>ok.
                if \<not> ok then report ''deletion cancelled'' []
                else
                  andThen (rmSync M dir) (\<lambda>_.
                  andThen (getGlobalConfig M) (\<lambda>config.
                  andThen (lift (active_of config)) (\<lambda>active.
                  andThen (if active = JStr who then saveGlobalConfig M (without_active config) else ret ()) (\<lambda>_.
                    report ''profile deleted'' [who]))))))))"

definition handleProfileCommand :: "machine \<Rightarrow> string list \<Rightarrow> (host, nat) op" where
  "handleProfileCommand M args =
     (let sub = subcommand ''list'' args in
      if sub = ''list'' then profile_list M
      else if sub = ''switch'' then profile_switch M (nth_arg 1 args)
      else if sub = ''export'' then profile_export M args
      else if sub = ''delete'' then profile_delete M (nth_arg 1 args)
      else report ''unknown subcommand'' [sub])"

subsection \<open>Contacts\<close>

text \<open>\<open>(summary as any).correspondents || []\<close>, which is then counted and walked over.\<close>

definition correspondents :: "(string \<times> json) list \<Rightarrow> json list result" where
  "correspondents summary =
     (case map_of summary ''correspondents'' of
        None \<Rightarrow> Inr []
      | Some v \<Rightarrow>
          if \<not> truthy v then Inr []
          else (case v of JArr vs \<Rightarrow> Inr vs | JStr s \<Rightarrow> Inr (map (\<lambda>c. JStr [c]) s) | _ \<Rightarrow> Inl type_error))"

definition list_contact :: "json \<Rightarrow> (host, unit) op" where
  "list_contact c = say ''trusted'' [let i = jprop c ''identity_id'' in js_text (if truthy i then i else c)]"

definition contact_list :: "tools \<Rightarrow> string \<Rightarrow> string \<Rightarrow> (host, nat) op" where
  "contact_list T who profileDir =
     andThen (say ''address book'' [who]) (\<lambda>_.
     catchE
       (andThen (tl_open T profileDir None False) (\<lambda>_. in_the_end (tl_close T)
         (andThen (tl_summary T) (\<lambda>summary.
          andThen (lift (correspondents summary)) (\<lambda>cs.
            if cs = [] then report ''no contacts'' []
            else andThen (each list_contact cs) (\<lambda>_. report ''trusted operators'' [show_nat (length cs)]))))))
       (\<lambda>e. report ''contacts not read'' []))"

definition card_argument :: "machine \<Rightarrow> string \<Rightarrow> (host, json) op" where
  "card_argument M arg =
     andThen (existsSync M arg) (\<lambda>found.
     andThen (if found then readFileSync M arg else ret arg) (\<lambda>contents.
       lift (of_option (PlainError ''SyntaxError'') (parse_json contents))))"

definition imported_text :: "json \<Rightarrow> string result" where
  "imported_text v =
     (if v = JNull then Inl type_error
      else let i = jprop (jprop v ''identity_key'') ''identity_id'' in Inr (if truthy i then js_text i else ''OK''))"

definition contact_add :: "machine \<Rightarrow> tools \<Rightarrow> string \<Rightarrow> string \<Rightarrow> string option \<Rightarrow> (host, nat) op" where
  "contact_add M T who profileDir arg =
     (case arg of
        None \<Rightarrow> refuse ''no card given'' []
      | Some a \<Rightarrow> looking (\<lambda>h.
          case card_argument M a h of
            (Inl e, _) \<Rightarrow> refuse ''card is not JSON'' []
          | (Inr cardData, _) \<Rightarrow>
              catchE
                (andThen (tl_open T profileDir None False) (\<lambda>_. in_the_end (tl_close T)
                  (andThen (tl_import T cardData) (\<lambda>imported.
                     if imported
                     then
                       andThen (tl_rewalk T) (\<lambda>_.
                       andThen (say ''contact added'' [who]) (\<lambda>_.
                       andThen (lift (imported_text cardData)) (\<lambda>i. report ''identity'' [i])))
                     else report ''contact declined'' []))))
                (\<lambda>e. refuse ''import failed'' [])))"

definition slice :: "nat \<Rightarrow> nat \<Rightarrow> string \<Rightarrow> string" where
  "slice a b s = take (b - a) (drop a s)"

definition contact_verify :: "string \<Rightarrow> string option \<Rightarrow> (host, nat) op" where
  "contact_verify who arg =
     (case arg of
        None \<Rightarrow> refuse ''no contact given'' []
      | Some i \<Rightarrow> report ''safety number'' [who, i, slice 0 8 i, slice 8 16 i, slice 16 24 i])"

definition handleContactCommand :: "machine \<Rightarrow> tools \<Rightarrow> string list \<Rightarrow> (host, nat) op" where
  "handleContactCommand M T args =
     andThen (getGlobalConfig M) (\<lambda>config.
     andThen (chosen M config) (\<lambda>target.
       case target of
         None \<Rightarrow> refuse ''no stations'' []
       | Some v \<Rightarrow> andThen (lift (name_of v)) (\<lambda>who. looking (\<lambda>h.
           let profileDir = getProfileDir M h who; storeKeyPath = getStoreKeyPath M h who; sub = subcommand ''list'' args in
           andThen (existsSync M storeKeyPath) (\<lambda>key.
           andThen (existsSync M (join_path profileDir ''client.sqlite'')) (\<lambda>database.
             if \<not> (key \<and> database) then refuse ''profile is damaged'' [who]
             else
               andThen (readFileSync M storeKeyPath) (\<lambda>contents.
               andThen (setenv ''ECHOLET_STORE_KEY'' (trim contents)) (\<lambda>_.
                 if sub = ''list'' then contact_list T who profileDir
                 else if sub = ''add'' then contact_add M T who profileDir (nth_arg 1 args)
                 else if sub = ''verify'' then contact_verify who (nth_arg 1 args)
                 else report ''unknown subcommand'' [sub]))))))))"

subsection \<open>The station\<close>

definition readStationProfileConfig :: "machine \<Rightarrow> tools \<Rightarrow> string \<Rightarrow> (host, json) op" where
  "readStationProfileConfig M T profileDir =
     andThen (readFileSync M (join_path profileDir ''config.json'')) (\<lambda>raw.
       lift (bindR (of_option (PlainError ''SyntaxError'') (parse_json raw)) (parseClientConfig (tl_parse T))))"

definition web_candidates :: "tools \<Rightarrow> string list" where
  "web_candidates T = map (resolve_path (tl_here T))
     [''../web-dist/server.js'', ''./web-dist/server.js'', ''../../web/dist/server.js'', ''../../../apps/web/dist/server.js'']"

fun first_there :: "machine \<Rightarrow> string \<Rightarrow> string list \<Rightarrow> (host, string) op" where
  "first_there M fallback [] = ret fallback"
| "first_there M fallback (c # cs) = andThen (existsSync M c) (\<lambda>found. if found then ret c else first_there M fallback cs)"

definition resolveWebServerPath :: "machine \<Rightarrow> tools \<Rightarrow> (host, string) op" where
  "resolveWebServerPath M T = first_there M (web_candidates T ! 2) (web_candidates T)"

text \<open>A line for the shell; what becomes of it is not looked at.\<close>

definition openBrowser :: "tools \<Rightarrow> string \<Rightarrow> (host, unit) op" where
  "openBrowser T url h =
     (let cmd = (if tl_platform T = ''darwin'' then ''open'' else if tl_platform T = ''win32'' then ''start'' else ''xdg-open'')
          @ '' '' @ [CHR 0x22] @ url @ [CHR 0x22] in
      (Inr (), h\<lparr>ho_spawned := ho_spawned h @ [\<lparr>sp_command = cmd, sp_args = [], sp_env = ho_env h\<rparr>]\<rparr>))"

definition local_page :: "int \<Rightarrow> string" where
  "local_page port = ''http://127.0.0.1:'' @ show_int port"

text \<open>The port of the arguments; one that is no number, or zero, counts as none.\<close>

definition port_of :: "string list \<Rightarrow> int" where
  "port_of args =
     (case flag_value ''--port'' args of
        None \<Rightarrow> 3001
      | Some p \<Rightarrow> (case parse_int10 p of None \<Rightarrow> 3001 | Some i \<Rightarrow> if i = 0 then 3001 else i))"

text \<open>
  The lines of the setup that make room for a station: whether it goes on. A directory that holds a
  database is only removed when the operator agrees, any other without asking.
\<close>

definition clear_station :: "machine \<Rightarrow> string \<Rightarrow> (host, bool) op" where
  "clear_station M who = looking (\<lambda>h.
     let dir = getProfileDir M h who in
     andThen (existsSync M dir) (\<lambda>there.
       if \<not> there then ret True
       else
         andThen (existsSync M (getClientDbPath M h who)) (\<lambda>database.
         andThen (if database then confirm False else ret True) (\<lambda>ok.
           if \<not> ok then andThen (say ''setup cancelled'' []) (\<lambda>_. ret False)
           else andThen (rmSync M dir) (\<lambda>_. ret True)))))"

definition station_config :: "string \<Rightarrow> string \<Rightarrow> json" where
  "station_config uuid relayUrl = JObj
     [(''profile_version'', JNum 1), (''profile_id'', JStr uuid), (''relay_url'', JStr relayUrl), (''database_path'', JStr ''client.sqlite''),
      (''store_key_env'', JStr ''ECHOLET_STORE_KEY''), (''request_timeout_ms'', JNum 10000), (''poll_batch_size'', JNum 20)]"

text \<open>The card is written while the profile is open; the profile is closed whatever happens.\<close>

definition create_station :: "machine \<Rightarrow> tools \<Rightarrow> string \<Rightarrow> string \<Rightarrow> (host, unit) op" where
  "create_station M T who relayUrl = looking (\<lambda>h.
     let dir = getProfileDir M h who; keyPath = getStoreKeyPath M h who in
     andThen (mkdirSync M dir private_folder) (\<lambda>_.
     andThen (drawKey M) (\<lambda>key.
     andThen (writeFileSync M keyPath private_file key) (\<lambda>_.
     andThen (ensureKeyPermissions M keyPath) (\<lambda>_.
     andThen (drawUuid T) (\<lambda>uuid.
     andThen (setenv ''ECHOLET_STORE_KEY'' key) (\<lambda>_.
     andThen (tl_open T dir (Some (station_config uuid relayUrl)) True) (\<lambda>_.
       in_the_end (tl_close T)
         (andThen (tl_card T) (\<lambda>c.
          andThen (writeFileSync M (getCardPath M h who) private_file (pretty 0 c)) (\<lambda>_.
            say ''card exported'' [getCardPath M h who])))))))))))"

definition station_setup :: "machine \<Rightarrow> tools \<Rightarrow> (host, nat) op" where
  "station_setup M T =
     andThen (ask ''Echo-Operator'') (\<lambda>who.
     andThen (clear_station M who) (\<lambda>go_on.
       if \<not> go_on then ret 0
       else
         andThen (ask DEFAULT_RELAY_URL) (\<lambda>line. looking (\<lambda>h.
         let typed = trim line;
             relayUrl = (case tl_parse T typed of Some u \<Rightarrow> url_origin u | None \<Rightarrow> typed) in
         andThen (create_station M T who relayUrl) (\<lambda>_.
         andThen (catchE (andThen (tl_publish T (getProfileDir M h who) relayUrl) (\<lambda>_. say ''published'' []))
            (\<lambda>e. say ''not published'' [])) (\<lambda>_.
         andThen (getGlobalConfig M) (\<lambda>config.
         andThen (lift (with_active who config)) (\<lambda>new.
         andThen (saveGlobalConfig M new) (\<lambda>_. report ''station created'' [who])))))))))"

definition server_arguments :: "string \<Rightarrow> int \<Rightarrow> string \<Rightarrow> string \<Rightarrow> json \<Rightarrow> string list" where
  "server_arguments script port profileDir who config =
     [script, ''--port'', show_int port, ''--profile'', profileDir, ''--label'', who,
      ''--relay-url'', str_prop config ''relay_url'', ''--store-key-env'', str_prop config ''store_key_env'']"

definition server_environment :: "tools \<Rightarrow> host \<Rightarrow> json \<Rightarrow> string \<Rightarrow> string \<Rightarrow> string option" where
  "server_environment T h config storeKey =
     (ho_env h)(str_prop config ''store_key_env'' \<mapsto> storeKey,
       ''ECHOLET_CLI_PATH'' \<mapsto> (case filled (tl_script T) of Some s \<Rightarrow> s | None \<Rightarrow> resolve_path (tl_here T) ''../dist/cli.js''))"

definition run_server ::
  "machine \<Rightarrow> tools \<Rightarrow> string \<Rightarrow> int \<Rightarrow> bool \<Rightarrow> bool \<Rightarrow> string list \<Rightarrow> (string \<Rightarrow> string option) \<Rightarrow> (host, nat) op"
where
  "run_server M T who port isDaemon shouldOpen args env =
     (let browse = (if shouldOpen then openBrowser T (local_page port) else ret ()) in
      if isDaemon
      then
        andThen (getDaemonStatus M ''station'') (\<lambda>status.
          case ds_pid status of
            Some pid \<Rightarrow>
              andThen (say ''station already runs'' [show_int pid, local_page port]) (\<lambda>_.
              andThen browse (\<lambda>_. ret 0))
          | None \<Rightarrow>
              andThen (startDaemon M ''station'' (tl_execPath T) args env) (\<lambda>(pid, log).
              andThen (say ''station started'' [who, show_int pid, local_page port, log]) (\<lambda>_.
              andThen browse (\<lambda>_. ret 0))))
      else
        andThen (say ''station starts'' [who, local_page port]) (\<lambda>_.
        andThen (spawnProcess M \<lparr>sp_command = tl_execPath T, sp_args = args, sp_env = env\<rparr>) (\<lambda>_.
        andThen browse (\<lambda>_. ret 0))))"

definition start_profile :: "machine \<Rightarrow> tools \<Rightarrow> string list \<Rightarrow> string \<Rightarrow> (host, nat) op" where
  "start_profile M T args who = looking (\<lambda>h.
     let port = port_of args; profileDir = getProfileDir M h who; keyPath = getStoreKeyPath M h who in
     andThen (existsSync M keyPath) (\<lambda>found.
       if \<not> found then refuse ''no store key'' [keyPath]
       else
         andThen (readFileSync M keyPath) (\<lambda>contents.
         andThen (readStationProfileConfig M T profileDir) (\<lambda>profileConfig.
         andThen (resolveWebServerPath M T) (\<lambda>script.
         andThen (existsSync M script) (\<lambda>built.
           if \<not> built then refuse ''no web server'' [script]
           else
             run_server M T who port (''--daemon'' \<in> set args \<or> ''-d'' \<in> set args) (''--open'' \<in> set args \<or> ''-o'' \<in> set args)
               (server_arguments script port profileDir who profileConfig)
               (server_environment T h profileConfig (trim contents))))))))"

text \<open>
  In the foreground the browser is opened a moment after the server was started, and the exit code is
  the server's when it ends; the result here is the one before that.
\<close>

definition station_start :: "machine \<Rightarrow> tools \<Rightarrow> string list \<Rightarrow> (host, nat) op" where
  "station_start M T args =
     andThen (getGlobalConfig M) (\<lambda>config.
     andThen (chosen M config) (\<lambda>active.
       case (case flag_value ''--profile'' args of Some p \<Rightarrow> Some (JStr p) | None \<Rightarrow> active) of
         None \<Rightarrow> refuse ''no stations'' []
       | Some v \<Rightarrow> andThen (lift (name_of v)) (start_profile M T args)))"

definition station_stop :: "machine \<Rightarrow> (host, nat) op" where
  "station_stop M =
     andThen (stopDaemon M ''station'') (\<lambda>res.
       case res of Stopped pid \<Rightarrow> report ''station stopped'' [show_int pid] | NotRunning \<Rightarrow> report ''station is not running'' [])"

definition station_status :: "machine \<Rightarrow> (host, nat) op" where
  "station_status M =
     andThen (getDaemonStatus M ''station'') (\<lambda>status.
     andThen (getGlobalConfig M) (\<lambda>config.
     andThen (lift (active_of config)) (\<lambda>active.
     andThen (say ''active profile'' [if truthy active then js_text active else ''none'']) (\<lambda>_.
       case ds_pid status of
         Some pid \<Rightarrow> report ''running'' [show_int pid, ds_logPath status]
       | None \<Rightarrow> report ''stopped'' []))))"

definition station_open :: "tools \<Rightarrow> string list \<Rightarrow> (host, nat) op" where
  "station_open T args =
     andThen (openBrowser T (local_page (port_of args))) (\<lambda>_. report ''page opened'' [local_page (port_of args)])"

definition handleStationCommand :: "machine \<Rightarrow> tools \<Rightarrow> string list \<Rightarrow> (host, nat) op" where
  "handleStationCommand M T args =
     andThen (ensureEcholetDirs M) (\<lambda>_.
       let sub = subcommand ''setup'' args in
       if sub = ''setup'' \<or> sub = ''station'' then station_setup M T
       else if sub = ''start'' then station_start M T args
       else if sub = ''stop'' then station_stop M
       else if sub = ''status'' then station_status M
       else if sub = ''open'' then station_open T args
       else report ''unknown command'' [sub])"

subsection \<open>What the operations leave alone\<close>

lemma global_config_result:
  assumes "getGlobalConfig M h = (Inr c, h')"
  shows "(\<exists>t. h' = h\<lparr>ho_nodes := t\<rparr>) \<and> wf_json c"
    "\<forall>j m d. j \<noteq> place_of (ma_cwd M) (config_path M h) \<longrightarrow>
      (node_at (ho_nodes h') j = Some (Document m d) \<longleftrightarrow> node_at (ho_nodes h) j = Some (Document m d))"
proof -
  have w: "wf_json initial_config" by (simp add: initial_config_def)
  from assms obtain g where g: "ensureEcholetDirs M h = (Inr (), g)"
    by (auto simp: getGlobalConfig_def andThen_Inr_iff)
  from ensured [OF g] obtain u where u: "g = h\<lparr>ho_nodes := u\<rparr>" "only_folders (ho_nodes h) u" "all_prepared M g" by blast
  from assms g consider "write_config M initial_config g = (Inr (), h')" "c = initial_config" | "h' = g" "wf_json c"
    by (auto simp: getGlobalConfig_def andThen_def looking_def existsSync_def readFileSync_def or_ignore_def raise_def ret_def w
        dest: parse_json_wf split: sum.splits if_splits option.splits prod.splits)
  then have "(\<exists>t. h' = h\<lparr>ho_nodes := t\<rparr>) \<and> wf_json c
      \<and> (\<forall>j. j \<noteq> place_of (ma_cwd M) (config_path M h) \<longrightarrow> node_at (ho_nodes h') j = node_at (ho_nodes g) j)"
  proof cases
    case 1
    from config_written [OF 1(1) u(3)] u(1) w 1(2) show ?thesis by auto
  next
    case 2
    with u show ?thesis by auto
  qed
  with u show "(\<exists>t. h' = h\<lparr>ho_nodes := t\<rparr>) \<and> wf_json c"
    "\<forall>j m d. j \<noteq> place_of (ma_cwd M) (config_path M h) \<longrightarrow>
      (node_at (ho_nodes h') j = Some (Document m d) \<longleftrightarrow> node_at (ho_nodes h) j = Some (Document m d))"
    by (auto simp: only_folders_def)
qed

lemma same_paths [simp]:
  "getProfileDir M (h\<lparr>ho_lines := ls\<rparr>) who = getProfileDir M h who" "getClientDbPath M (h\<lparr>ho_lines := ls\<rparr>) who = getClientDbPath M h who"
  "getClientDbPath M (h\<lparr>ho_nodes := t\<rparr>) who = getClientDbPath M h who"
  by (simp_all add: getProfileDir_def getProfilesDir_def getEcholetHome_def getClientDbPath_def)

lemma chosen_result: "chosen M config h = (r, h') \<Longrightarrow> h' = h"
  by (auto simp: chosen_def andThen_def lift_def listProfiles_def split: sum.splits if_splits)

lemma first_there_result: "first_there M d cs h = (r, h') \<Longrightarrow> h' = h"
  by (induction cs) (auto simp: andThen_def existsSync_def split: if_splits)

lemma station_config_read: "readStationProfileConfig M T d h = (r, h') \<Longrightarrow> h' = h"
  by (auto simp: readStationProfileConfig_def andThen_def readFileSync_def lift_def split: sum.splits)

subsection \<open>Making and removing stations\<close>

definition reply :: "string list \<Rightarrow> string" where
  "reply ls = (case ls of [] \<Rightarrow> ''n'' | l # rest \<Rightarrow> answered ''n'' l)"

definition agreed :: "string list \<Rightarrow> bool" where
  "agreed ls \<longleftrightarrow> prefix ''y'' (map to_lower (reply ls))"

lemma confirm_no: "confirm False h = (Inr (agreed (ho_lines h)), h\<lparr>ho_lines := tl (ho_lines h)\<rparr>)"
  by (auto simp: confirm_def ask_def andThen_def agreed_def reply_def split: list.split)

text \<open>
  A station's keys are not replaced without consent: setting up a station under a callsign whose
  directory holds a database, with anything but a yes to the question - or no answer at all - ends
  with that; every file is as it was, and nothing was drawn, started or sent.
\<close>

theorem station_kept_unless_agreed:
  assumes "ensureEcholetDirs M h = (Inr (), g)" "ho_lines h = line # replies" "\<not> agreed replies"
    "node_at (ho_nodes h) (place_of (ma_cwd M) (getProfileDir M h (answered ''Echo-Operator'' line))) \<noteq> None"
    "node_at (ho_nodes h) (place_of (ma_cwd M) (getClientDbPath M h (answered ''Echo-Operator'' line))) = Some (Document m db)"
  shows "\<exists>t. handleStationCommand M T [] h = (Inr 0, h\<lparr>ho_nodes := t, ho_lines := tl replies, ho_said := ho_said h @ [(''setup cancelled'', [])]\<rparr>)
    \<and> (\<forall>j k d. node_at t j = Some (Document k d) \<longleftrightarrow> node_at (ho_nodes h) j = Some (Document k d))"
proof -
  let ?who = "answered ''Echo-Operator'' line"
  from ensured [OF assms(1)] obtain t where t: "g = h\<lparr>ho_nodes := t\<rparr>" "only_folders (ho_nodes h) t" by blast
  let ?g = "g\<lparr>ho_lines := replies\<rparr>"
  obtain n where "node_at (ho_nodes h) (place_of (ma_cwd M) (getProfileDir M h ?who)) = Some n" using assms(4) by blast
  with t(2) have d: "node_at t (place_of (ma_cwd M) (getProfileDir M h ?who)) \<noteq> None"
    by (cases n) (fastforce simp: only_folders_def)+
  have b: "node_at t (place_of (ma_cwd M) (getClientDbPath M h ?who)) \<noteq> None"
    using t(2) assms(5) by (auto simp: only_folders_def)
  have "clear_station M ?who ?g = (Inr False, h\<lparr>ho_nodes := t, ho_lines := tl replies, ho_said := ho_said h @ [(''setup cancelled'', [])]\<rparr>)"
    using t(1) d b assms(3)
    by (simp add: clear_station_def looking_def andThen_def existsSync_def Let_def confirm_no say_def)
  moreover have "ask ''Echo-Operator'' g = (Inr ?who, ?g)" using t(1) assms(2) by (simp add: ask_def)
  ultimately have "station_setup M T g = (Inr 0, h\<lparr>ho_nodes := t, ho_lines := tl replies, ho_said := ho_said h @ [(''setup cancelled'', [])]\<rparr>)"
    by (simp add: station_setup_def andThen_def)
  then have "handleStationCommand M T [] h = (Inr 0, h\<lparr>ho_nodes := t, ho_lines := tl replies, ho_said := ho_said h @ [(''setup cancelled'', [])]\<rparr>)"
    using assms(1) by (simp add: handleStationCommand_def andThen_def subcommand_def nth_arg_def filled_def)
  moreover have "\<forall>j k d. node_at t j = Some (Document k d) \<longleftrightarrow> node_at (ho_nodes h) j = Some (Document k d)"
    using t(2) unfolding only_folders_def by blast
  ultimately show ?thesis by blast
qed

text \<open>
  A callsign is not checked before its directory is removed: for the callsign \<open>..\<close> that directory is
  the home of Echolet itself, which holds no database of its own, so everything in it is removed
  without a question.
\<close>

lemma callsign_above_removes_home:
  assumes "node_at (ho_nodes h) (normal_segments [] (segments (getEcholetHome M h))) \<noteq> None"
    "node_at (ho_nodes h) (place_of (ma_cwd M) (getClientDbPath M h ''..'')) = None"
  shows "clear_station M ''..'' h
    = (Inr True, h\<lparr>ho_nodes := tree_remove (normal_segments [] (segments (getEcholetHome M h))) (ho_nodes h)\<rparr>)"
proof -
  have "place_of (ma_cwd M) (getProfileDir M h ''..'') = normal_segments [] (segments (getEcholetHome M h))"
  proof -
    have "segments ''profiles'' = [''profiles'']" "segments ''..'' = [''..'']" by simp_all
    then show ?thesis
      by (simp add: getProfileDir_def getProfilesDir_def join_path_def normal_append normal_of_normal segments_slash)
  qed
  with assms show ?thesis
    by (simp add: clear_station_def looking_def andThen_def existsSync_def Let_def rmSync_def on_tree_def)
qed

text \<open>Where the documents beside the settings are as they were.\<close>

definition same_documents :: "place \<Rightarrow> tree \<Rightarrow> tree \<Rightarrow> bool" where
  "same_documents k t u \<longleftrightarrow> (\<forall>j m d. j \<noteq> k \<longrightarrow> (node_at u j = Some (Document m d) \<longleftrightarrow> node_at t j = Some (Document m d)))"

lemma saved_documents:
  assumes "saveGlobalConfig M c h = (Inr (), h')"
  shows "(\<exists>t. h' = h\<lparr>ho_nodes := t\<rparr>) \<and> same_documents (place_of (ma_cwd M) (config_path M h)) (ho_nodes h) (ho_nodes h')"
proof -
  from assms obtain g where g: "ensureEcholetDirs M h = (Inr (), g)" "write_config M c g = (Inr (), h')"
    by (auto simp: saveGlobalConfig_def andThen_Inr_iff)
  from ensured [OF g(1)] obtain u where u: "g = h\<lparr>ho_nodes := u\<rparr>" "only_folders (ho_nodes h) u" "all_prepared M g" by blast
  from config_written [OF g(2) u(3)] u(1,2) show ?thesis by (auto simp: same_documents_def only_folders_def)
qed

lemma tree_remove_at: "k \<noteq> [] \<Longrightarrow> node_at (tree_remove k t) j = (if prefix k j then None else node_at t j)"
proof -
  assume "k \<noteq> []"
  moreover have "map_of (filter (\<lambda>(j, n). \<not> prefix k j) t) j = (if prefix k j then None else map_of t j)"
    by (induction t) auto
  ultimately show ?thesis by (auto simp: node_at_def tree_remove_def)
qed

text \<open>
  C31. Deleting a profile deletes that profile: for a name that is one segment of a path, what the
  command removes is what lies in the profile's own directory, and only after a yes; every other file
  beside the settings holds what it held, and of a deletion that is not agreed to nothing is left.
\<close>

theorem delete_removes_one_profile:
  assumes "handleProfileCommand M [''delete'', who] h = (Inr code, h')" "solid who"
  shows "\<exists>own gone. place_of (ma_cwd M) (getProfileDir M h who) = own @ [who] \<and> gone = (code = 0 \<and> agreed (ho_lines h))
    \<and> same_documents (place_of (ma_cwd M) (config_path M h))
        (if gone then tree_remove (own @ [who]) (ho_nodes h) else ho_nodes h) (ho_nodes h')
    \<and> (\<not> gone \<longrightarrow> ho_nodes h' = ho_nodes h)"
proof -
  define own where "own = normal_segments [] (segments (getProfilesDir M h))"
  have k: "place_of (ma_cwd M) (getProfileDir M h who) = own @ [who]"
    unfolding getProfileDir_def own_def by (rule place_of_join [OF assms(2)])
  have w: "who \<noteq> []" using assms(2) by (simp add: solid_def)
  have run: "profile_delete M (Some who) h = (Inr code, h')"
    using assms(1) w by (simp add: handleProfileCommand_def subcommand_def nth_arg_def filled_def Let_def)
  show ?thesis
  proof (cases "node_at (ho_nodes h) (own @ [who]) \<noteq> None \<and> agreed (ho_lines h)")
    case False
    with run k have "(code = 1 \<or> \<not> agreed (ho_lines h)) \<and> ho_nodes h' = ho_nodes h"
      by (auto simp: profile_delete_def looking_def Let_def andThen_def existsSync_def confirm_no refuse_def report_def say_def ret_def
          split: if_splits)
    with k show ?thesis by (auto simp: same_documents_def)
  next
    case True
    let ?g = "h\<lparr>ho_lines := tl (ho_lines h), ho_nodes := tree_remove (own @ [who]) (ho_nodes h)\<rparr>" and ?c = "place_of (ma_cwd M) (config_path M h)"
    from run k True obtain config active g1 where g1: "getGlobalConfig M ?g = (Inr config, g1)" and r: "active_of config = Inr active"
        "andThen (if active = JStr who then saveGlobalConfig M (without_active config) else ret ()) (\<lambda>_. report ''profile deleted'' [who]) g1 = (Inr code, h')"
      by (auto simp: profile_delete_def looking_def Let_def existsSync_def confirm_no andThen_Inr rmSync_def on_tree_def andThen_Inr_iff
          lift_def)
    have p: "config_path M ?g = config_path M h" by (simp add: config_path_def getEcholetHome_def)
    from global_config_result [OF g1] p have d: "same_documents ?c (tree_remove (own @ [who]) (ho_nodes h)) (ho_nodes g1)" "config_path M g1 = config_path M h"
      by (auto simp: same_documents_def)
    from r(2) obtain g2 where g2: "(if active = JStr who then saveGlobalConfig M (without_active config) else ret ()) g1 = (Inr (), g2)"
        "code = 0" "ho_nodes h' = ho_nodes g2"
      by (auto simp: andThen_Inr_iff [of "if active = JStr who then saveGlobalConfig M (without_active config) else ret ()"] report_def say_def andThen_def [of "say t v" for t v] ret_def [of "0 :: nat"]
          simp del: if_split)
    then have "same_documents ?c (tree_remove (own @ [who]) (ho_nodes h)) (ho_nodes h')"
      using d saved_documents [of M "without_active config" g1 g2] by (auto simp: same_documents_def ret_def split: if_splits)
    with k True g2(2) show ?thesis by auto
  qed
qed

lemma same_said [simp]:
  "config_path M (h\<lparr>ho_said := s\<rparr>) = config_path M h" "all_prepared M (h\<lparr>ho_said := s\<rparr>) = all_prepared M h"
  by (simp_all add: config_path_def all_prepared_def echolet_dirs_def getProfilesDir_def getRepeaterDir_def getRunDir_def getLogsDir_def getEcholetHome_def)

lemma saved_again:
  assumes "saveGlobalConfig M c h = (Inr (), k)" "wf_json c"
  shows "getGlobalConfig M (k\<lparr>ho_said := s\<rparr>) = (Inr c, k\<lparr>ho_said := s\<rparr>)"
proof -
  from assms(1) obtain g where g: "ensureEcholetDirs M h = (Inr (), g)" "write_config M c g = (Inr (), k)"
    by (auto simp: saveGlobalConfig_def andThen_Inr_iff)
  from ensured [OF g(1)] have "all_prepared M g" by blast
  from config_written [OF g(2) this] have a: "all_prepared M k"
      "node_at (ho_nodes k) (place_of (ma_cwd M) (config_path M k)) = Some (Document private_file (pretty 0 c))" by auto
  from a(1) have "ensureEcholetDirs M (k\<lparr>ho_said := s\<rparr>) = (Inr (), k\<lparr>ho_said := s\<rparr>)" by (intro ensure_again) simp
  then show ?thesis using a(2) parse_pretty_json [OF assms(2)]
    by (simp add: getGlobalConfig_def andThen_def looking_def existsSync_def readFileSync_def tree_read_def or_ignore_def)
qed

text \<open>
  Switching takes effect: after the operator switched to a profile, which is one there is, that
  profile is the active one for every later command, and the other settings are as they were.
\<close>

theorem switch_takes_effect:
  assumes "handleProfileCommand M [''switch'', who] h = (Inr 0, h')" "getGlobalConfig M h = (Inr (JObj kvs), g)"
  shows "who \<in> set (tree_folders (place_of (ma_cwd M) (getProfilesDir M h)) (ho_nodes h))
    \<and> getGlobalConfig M h' = (Inr (JObj (obj_put ''activeProfile'' (JStr who) kvs)), h')
    \<and> chosen M (JObj (obj_put ''activeProfile'' (JStr who) kvs)) h' = (Inr (Some (JStr who)), h')"
proof -
  let ?new = "JObj (obj_put ''activeProfile'' (JStr who) kvs)"
  have w: "who \<noteq> []" using assms(1)
    by (auto simp: handleProfileCommand_def subcommand_def nth_arg_def filled_def Let_def profile_switch_def refuse_def andThen_def say_def ret_def)
  with assms(1) have run: "profile_switch M (Some who) h = (Inr 0, h')"
    by (simp add: handleProfileCommand_def subcommand_def nth_arg_def filled_def Let_def)
  then have m: "who \<in> set (tree_folders (place_of (ma_cwd M) (getProfilesDir M h)) (ho_nodes h))"
    by (auto simp: profile_switch_def andThen_def listProfiles_def refuse_def say_def ret_def split: if_splits)
  with run assms(2) obtain k where k: "saveGlobalConfig M ?new g = (Inr (), k)" "h' = k\<lparr>ho_said := ho_said h'\<rparr>"
    by (auto simp: profile_switch_def andThen_Inr_iff listProfiles_def with_active_def lift_def report_def say_def ret_def)
  have wf: "wf_json ?new" using global_config_result(1) [OF assms(2)] by (simp add: obj_put_wf obj_put_members)
  from saved_again [OF k(1) wf] k(2) have "getGlobalConfig M h' = (Inr ?new, h')" by metis
  moreover have "chosen M ?new h' = (Inr (Some (JStr who)), h')"
    using w by (simp add: chosen_def active_of_def lift_def andThen_def ret_def)
  ultimately show ?thesis using m by blast
qed

subsection \<open>The address book\<close>

text \<open>
  The summary of a profile counts its contacts and names none, so the address book that is made of it
  is the empty one whatever contacts the profile trusts.
\<close>

lemma address_book_sees_no_contact:
  assumes "profile_summary E config w = (Inr summary, w')"
  shows "correspondents summary = Inr [] \<and> (\<exists>n. map_of summary ''contact_count'' = Some (JNum n))"
  using assms by (auto simp: profile_summary_def transact_Inr andThen_Inr_iff ret_def correspondents_def)

subsection \<open>The server of a station\<close>

lemma parse_shown: "parse_int10 (show_int i) = Some i"
proof (cases "0 \<le> i")
  case False
  let ?t = "show_nat (nat (- i))"
  have s: "show_int i = CHR ''-'' # ?t" using False by (simp add: show_int_def)
  have d: "list_all is_digit ?t" using show_nat_digits by (simp add: list_all_iff)
  then have w: "takeWhile is_digit ?t = ?t" by (simp add: takeWhile_eq_all_conv list_all_iff)
  have r: "foldl (\<lambda>n c. n * 10 + (of_char c - 48)) 0 t = read_nat t" for t
    by (simp add: read_nat_def digit_val_def mult.commute)
  have "trim_start (CHR ''-'' # ?t) = CHR ''-'' # ?t" using trim_start_visible [OF visible_show_int [of i]] s by simp
  moreover have "?t \<noteq> []" using show_nat_nonempty by blast
  ultimately show ?thesis unfolding parse_int10_def s Let_def using False by (simp add: w r del: takeWhile_eq_all_conv)
qed (rule parse_id_text)

lemma arguments_understood:
  assumes "dir \<noteq> []" "who \<noteq> []" "str_prop config ''relay_url'' \<noteq> []" "str_prop config ''store_key_env'' \<noteq> []"
  shows "parseArgv resolve cli (tl (server_arguments script port dir who config))
     = \<lparr>sc_port = Some port, sc_profileDir = resolve dir, sc_label = who, sc_relayUrl = str_prop config ''relay_url'',
        sc_storeKeyEnv = str_prop config ''store_key_env'', sc_cliPath = cli\<rparr>"
proof -
  have "show_int port \<noteq> []" by (rule show_int_Cons [of port]) simp
  with assms show ?thesis by (simp add: server_arguments_def parseArgv_def parse_shown)
qed

lemma config_texts:
  assumes "parseClientConfig parse input = Inr config" "parse [] = None"
  shows "str_prop config ''relay_url'' \<noteq> [] \<and> str_prop config ''store_key_env'' \<noteq> []"
proof -
  have "\<not> env_name []" by (simp add: env_name_def)
  with assms show ?thesis
    by (auto simp: parseClientConfig_def configSchema_def config_fields_def bindR_Inr_iff zparse_Some zfields_required str_prop_def literal_number_def lower_uuid_def
        simp del: zparse.simps zfields.simps split: option.splits)
qed

lemma status_spawns_nothing: "getDaemonStatus M n h = (r, h') \<Longrightarrow> ho_spawned h' = ho_spawned h \<and> ho_env h' = ho_env h"
  using status_result [of M n h r h'] by auto

lemma run_server_spawns:
  assumes "run_server M T who port isDaemon False args env h = (Inr code, h')"
  shows "ho_spawned h' = ho_spawned h
    \<or> (\<exists>run_env. ho_spawned h' = ho_spawned h @ [\<lparr>sp_command = tl_execPath T, sp_args = args, sp_env = run_env\<rparr>]
        \<and> (\<forall>n v. env n = Some v \<longrightarrow> run_env n = Some v))"
proof (cases isDaemon)
  case True
  from assms True obtain s g where s: "getDaemonStatus M ''station'' h = (Inr s, g)"
    by (auto simp: run_server_def Let_def andThen_Inr_iff)
  note same = status_spawns_nothing [OF s]
  show ?thesis
  proof (cases "ds_pid s")
    case None
    with assms True s obtain pid log k where k: "startDaemon M ''station'' (tl_execPath T) args env g = (Inr (pid, log), k)"
        "ho_spawned h' = ho_spawned k"
      by (auto simp: run_server_def Let_def andThen_Inr andThen_Inr_iff [of "startDaemon M ''station'' (tl_execPath T) args env"])
         (auto simp: andThen_def say_def ret_def)
    from started [OF k(1)] obtain run_env where "ho_spawned k = ho_spawned g @ [\<lparr>sp_command = tl_execPath T, sp_args = args, sp_env = run_env\<rparr>]"
        "run_env = merged_env (ho_env g) env" by auto
    with k(2) same show ?thesis by (auto simp: merged_env_def)
  next
    case (Some pid)
    with assms True s same show ?thesis by (simp add: run_server_def Let_def andThen_Inr) (auto simp: andThen_def say_def ret_def)
  qed
next
  case False
  with assms have "ho_spawned h' = ho_spawned h @ [\<lparr>sp_command = tl_execPath T, sp_args = args, sp_env = env\<rparr>]"
    by (auto simp: run_server_def Let_def andThen_Inr_iff say_def ret_def spawnProcess_def split: sum.splits option.splits)
  then show ?thesis by auto
qed

text \<open>What a start that is not asked to open the page starts, for the profile \<open>who\<close>.\<close>

definition starts_server :: "machine \<Rightarrow> tools \<Rightarrow> string list \<Rightarrow> string \<Rightarrow> host \<Rightarrow> host \<Rightarrow> json \<Rightarrow> string \<Rightarrow> string \<Rightarrow> bool" where
  "starts_server M T args who g h' config storeKey script \<longleftrightarrow>
     (\<exists>mode raw input mode' contents.
        node_at (ho_nodes g) (place_of (ma_cwd M) (join_path (getProfileDir M g who) ''config.json'')) = Some (Document mode raw)
      \<and> parse_json raw = Some input \<and> parseClientConfig (tl_parse T) input = Inr config
      \<and> node_at (ho_nodes g) (place_of (ma_cwd M) (getStoreKeyPath M g who)) = Some (Document mode' contents) \<and> storeKey = trim contents)
     \<and> script \<in> set (web_candidates T)
     \<and> (\<exists>run_env. ho_spawned h' = ho_spawned g @ [\<lparr>sp_command = tl_execPath T,
            sp_args = [script, ''--port'', show_int (port_of args), ''--profile'', getProfileDir M g who, ''--label'', who,
              ''--relay-url'', str_prop config ''relay_url'', ''--store-key-env'', str_prop config ''store_key_env''],
            sp_env = run_env\<rparr>]
          \<and> (str_prop config ''store_key_env'' = ''ECHOLET_CLI_PATH'' \<or> run_env (str_prop config ''store_key_env'') = Some storeKey))"

lemma first_there_member: "first_there M d cs h = (Inr s, h') \<Longrightarrow> s \<in> set (d # cs)"
  by (induction cs) (auto simp: andThen_def existsSync_def ret_def split: if_splits)

lemma start_profile_result:
  assumes "start_profile M T args who g = (Inr code, h')" "''--open'' \<notin> set args" "''-o'' \<notin> set args"
  shows "ho_spawned h' = ho_spawned g \<or> (\<exists>config storeKey script. starts_server M T args who g h' config storeKey script)"
proof -
  let ?k = "place_of (ma_cwd M) (getStoreKeyPath M g who)" and ?d = "getProfileDir M g who"
  consider "ho_spawned h' = ho_spawned g" | contents config script where "tree_read ?k (ho_nodes g) = Inr contents"
      "readStationProfileConfig M T ?d g = (Inr config, g)" "resolveWebServerPath M T g = (Inr script, g)"
      "run_server M T who (port_of args) (''--daemon'' \<in> set args \<or> ''-d'' \<in> set args) False
        (server_arguments script (port_of args) ?d who config) (server_environment T g config (trim contents)) g = (Inr code, h')"
    using assms(1-3)
    by (fastforce simp: start_profile_def looking_def Let_def andThen_Inr_iff existsSync_def readFileSync_def refuse_def say_def ret_def
        resolveWebServerPath_def dest: station_config_read first_there_result split: if_splits)
  then show ?thesis
  proof cases
    case 2
    from 2(1) obtain mode' where m: "node_at (ho_nodes g) ?k = Some (Document mode' contents)"
      by (auto simp: tree_read_def split: option.splits node.splits)
    from 2(2) obtain raw input where c: "tree_read (place_of (ma_cwd M) (join_path ?d ''config.json'')) (ho_nodes g) = Inr raw"
        "parse_json raw = Some input" "parseClientConfig (tl_parse T) input = Inr config"
      by (auto simp: readStationProfileConfig_def andThen_Inr_iff lift_def bindR_Inr_iff readFileSync_def)
    from c(1) obtain mode where n: "node_at (ho_nodes g) (place_of (ma_cwd M) (join_path ?d ''config.json'')) = Some (Document mode raw)"
      by (auto simp: tree_read_def split: option.splits node.splits)
    have e: "str_prop config ''store_key_env'' = ''ECHOLET_CLI_PATH'' \<or> server_environment T g config (trim contents) (str_prop config ''store_key_env'') = Some (trim contents)"
      by (simp add: server_environment_def)
    have "script \<in> set (web_candidates T)"
      using first_there_member [OF 2(3) [unfolded resolveWebServerPath_def]] by (auto simp: web_candidates_def)
    with run_server_spawns [OF 2(4)] c m n e show ?thesis unfolding starts_server_def server_arguments_def by blast
  qed simp
qed

lemma started_profile:
  assumes "station_start M T args h = (Inr code, h')" "getGlobalConfig M h = (Inr settings, g)"
  obtains "ho_spawned h' = ho_spawned g"
  | who where "start_profile M T args who g = (Inr code, h')"
      "case flag_value ''--profile'' args of Some p \<Rightarrow> who = p | None \<Rightarrow> \<exists>v. chosen M settings g = (Inr (Some v), g) \<and> name_of v = Inr who"
proof -
  from assms obtain active where c: "chosen M settings g = (Inr active, g)"
    by (auto simp: station_start_def andThen_Inr andThen_Inr_iff dest: chosen_result)
  let ?v = "case flag_value ''--profile'' args of Some p \<Rightarrow> Some (JStr p) | None \<Rightarrow> active"
  have run: "(case ?v of None \<Rightarrow> refuse ''no stations'' [] | Some v \<Rightarrow> andThen (lift (name_of v)) (start_profile M T args)) g = (Inr code, h')"
    using assms c by (simp add: station_start_def andThen_Inr)
  show thesis
  proof (cases ?v)
    case None
    with run have "ho_spawned h' = ho_spawned g" by (auto simp: refuse_def andThen_def say_def ret_def)
    then show thesis by (rule that(1))
  next
    case (Some v)
    with run obtain who where w: "name_of v = Inr who" "start_profile M T args who g = (Inr code, h')"
      by (auto simp: andThen_Inr_iff lift_def)
    show thesis by (rule that(2) [OF w(2)]) (use Some w(1) c in \<open>auto simp: name_of_def split: option.splits\<close>)
  qed
qed

text \<open>
  C32. The server a station is started with is told what it needs, and its key is no argument: a start
  that does not open a page starts one process at most, Echolet's own interpreter on one of the places
  the server is looked for. Its arguments are exactly the port asked for, the directory and the name of
  the profile that was asked for or else is active or first, and the relay and the name of the key's
  variable of the configuration that lies in this directory, which the rules of the configuration
  accepted; the key that lies there is in none of them, but in that variable of the environment, unless
  the variable is the one that names the command line. And what the server makes of these arguments,
  for a profile with a name, is that port, directory, name, relay and variable.
\<close>

theorem station_server_gets_its_profile:
  assumes "station_start M T args h = (Inr code, h')" "''--open'' \<notin> set args" "''-o'' \<notin> set args" "tl_parse T [] = None"
    "getGlobalConfig M h = (Inr settings, g)"
  shows "ho_spawned h' = ho_spawned h
    \<or> (\<exists>who mode raw input config mode' contents script rest run_env.
        (case flag_value ''--profile'' args of
           Some p \<Rightarrow> who = p
         | None \<Rightarrow> \<exists>v. chosen M settings g = (Inr (Some v), g) \<and> name_of v = Inr who)
      \<and> node_at (ho_nodes g) (place_of (ma_cwd M) (join_path (getProfileDir M h who) ''config.json'')) = Some (Document mode raw)
      \<and> parse_json raw = Some input \<and> parseClientConfig (tl_parse T) input = Inr config
      \<and> node_at (ho_nodes g) (place_of (ma_cwd M) (getStoreKeyPath M h who)) = Some (Document mode' contents)
      \<and> script \<in> set (web_candidates T)
      \<and> rest = [''--port'', show_int (port_of args), ''--profile'', getProfileDir M h who, ''--label'', who,
          ''--relay-url'', str_prop config ''relay_url'', ''--store-key-env'', str_prop config ''store_key_env'']
      \<and> ho_spawned h' = ho_spawned h @ [\<lparr>sp_command = tl_execPath T, sp_args = script # rest, sp_env = run_env\<rparr>]
      \<and> (str_prop config ''store_key_env'' = ''ECHOLET_CLI_PATH'' \<or> run_env (str_prop config ''store_key_env'') = Some (trim contents))
      \<and> (who \<noteq> [] \<longrightarrow> parseArgv resolve cli rest = \<lparr>sc_port = Some (port_of args), sc_profileDir = resolve (getProfileDir M h who), sc_label = who,
          sc_relayUrl = str_prop config ''relay_url'', sc_storeKeyEnv = str_prop config ''store_key_env'', sc_cliPath = cli\<rparr>))"
proof -
  note g = assms(5)
  obtain t where t: "g = h\<lparr>ho_nodes := t\<rparr>" using global_config_result(1) [OF g] by blast
  from assms(1) g consider "ho_spawned h' = ho_spawned g"
    | who where "start_profile M T args who g = (Inr code, h')"
        "case flag_value ''--profile'' args of Some p \<Rightarrow> who = p | None \<Rightarrow> \<exists>v. chosen M settings g = (Inr (Some v), g) \<and> name_of v = Inr who"
    by (rule started_profile)
  then show ?thesis
  proof cases
    case 1
    with t show ?thesis by simp
  next
    case 2
    have p: "ho_spawned g = ho_spawned h" "getProfileDir M g who = getProfileDir M h who" "getStoreKeyPath M g who = getStoreKeyPath M h who"
      using t by simp_all
    from start_profile_result [OF 2(1) assms(2,3)] show ?thesis
    proof
      assume "\<exists>config storeKey script. starts_server M T args who g h' config storeKey script"
      then obtain config storeKey script where s: "starts_server M T args who g h' config storeKey script" by blast
      then obtain input where "parseClientConfig (tl_parse T) input = Inr config" by (auto simp: starts_server_def)
      note texts = config_texts [OF this assms(4)]
      have d: "getProfileDir M h who \<noteq> []" by (simp add: getProfileDir_def join_path_def normal_path_def)
      note parsed = arguments_understood [OF d _ conjunct1 [OF texts] conjunct2 [OF texts], of who resolve cli script "port_of args",
          unfolded server_arguments_def list.sel]
      from s [unfolded starts_server_def p] obtain mode raw input' mode' contents run_env where x:
          "node_at (ho_nodes g) (place_of (ma_cwd M) (join_path (getProfileDir M h who) ''config.json'')) = Some (Document mode raw)"
          "parse_json raw = Some input'" "parseClientConfig (tl_parse T) input' = Inr config"
          "node_at (ho_nodes g) (place_of (ma_cwd M) (getStoreKeyPath M h who)) = Some (Document mode' contents)" "storeKey = trim contents"
          "script \<in> set (web_candidates T)"
          "str_prop config ''store_key_env'' = ''ECHOLET_CLI_PATH'' \<or> run_env (str_prop config ''store_key_env'') = Some storeKey"
          "ho_spawned h' = ho_spawned h @ [\<lparr>sp_command = tl_execPath T,
            sp_args = [script, ''--port'', show_int (port_of args), ''--profile'', getProfileDir M h who, ''--label'', who,
              ''--relay-url'', str_prop config ''relay_url'', ''--store-key-env'', str_prop config ''store_key_env''],
            sp_env = run_env\<rparr>]" by blast
      let ?rest = "[''--port'', show_int (port_of args), ''--profile'', getProfileDir M h who, ''--label'', who,
        ''--relay-url'', str_prop config ''relay_url'', ''--store-key-env'', str_prop config ''store_key_env'']"
      have e: "str_prop config ''store_key_env'' = ''ECHOLET_CLI_PATH'' \<or> run_env (str_prop config ''store_key_env'') = Some (trim contents)"
        using x(5,7) by simp
      have a: "who \<noteq> [] \<longrightarrow> parseArgv resolve cli ?rest = \<lparr>sc_port = Some (port_of args), sc_profileDir = resolve (getProfileDir M h who),
          sc_label = who, sc_relayUrl = str_prop config ''relay_url'', sc_storeKeyEnv = str_prop config ''store_key_env'', sc_cliPath = cli\<rparr>"
        using parsed by blast
      show ?thesis
        by (rule disjI2, rule exI [of _ who], rule exI [of _ mode], rule exI [of _ raw], rule exI [of _ input'], rule exI [of _ config],
            rule exI [of _ mode'], rule exI [of _ contents], rule exI [of _ script], rule exI [of _ ?rest], rule exI [of _ run_env],
            intro conjI, rule 2(2), rule x(1), rule x(2), rule x(3), rule x(4), rule x(6), rule refl, rule x(8), rule e, rule a)
    qed (simp add: p)
  qed
qed

subsection \<open>Examples\<close>

definition toy_tools :: tools where
  "toy_tools = \<lparr>tl_parse = sample_url, tl_here = ''/a/b'', tl_execPath = ''node'', tl_script = None, tl_platform = ''linux'',
     tl_uuid = (\<lambda>_. sample_uuid), tl_open = (\<lambda>d c i. ret ()), tl_card = ret JNull, tl_summary = ret [], tl_import = (\<lambda>c. ret True),
     tl_rewalk = ret (), tl_close = ret (), tl_publish = (\<lambda>d r. ret ())\<rparr>"

definition toy_config :: json where
  "toy_config = JObj [(''profile_version'', JNum 1), (''profile_id'', JStr sample_uuid), (''relay_url'', JStr ''http://127.0.0.1:80''),
     (''database_path'', JStr ''p''), (''store_key_env'', JStr ''KEY''), (''request_timeout_ms'', JNum 100), (''poll_batch_size'', JNum 1)]"

definition toy_settings :: string where
  "toy_settings = stringify toy_config"

definition toy_home :: host where
  "toy_home = toy_host\<lparr>ho_lines := [''A'', ''n''], ho_nodes := ho_nodes toy_host @
     [([''home'', ''a'', ''.echolet''], Folder 448), ([''home'', ''a'', ''.echolet'', ''profiles''], Folder 448),
      ([''home'', ''a'', ''.echolet'', ''config.json''], Document 384 ''{}''),
      ([''home'', ''a'', ''.echolet'', ''repeater''], Folder 448), ([''home'', ''a'', ''.echolet'', ''run''], Folder 448),
      ([''home'', ''a'', ''.echolet'', ''logs''], Folder 448), ([''home'', ''a'', ''.echolet'', ''profiles'', ''A''], Folder 448),
      ([''home'', ''a'', ''.echolet'', ''profiles'', ''A'', ''client.sqlite''], Document 384 []),
      ([''home'', ''a'', ''.echolet'', ''profiles'', ''A'', ''store.key''], Document 384 ''k''),
      ([''home'', ''a'', ''.echolet'', ''profiles'', ''A'', ''config.json''], Document 384 toy_settings),
      ([''a'', ''web-dist'', ''server.js''], Document 420 [])]\<rparr>"

lemma toy_answers: "answered ''Echo-Operator'' ''A'' = ''A''" "\<not> agreed [''n'']"
proof -
  have "trim ''A'' = ''A''" "trim ''n'' = ''n''" by (rule trim_visible, simp add: visible_def)+
  then show "answered ''Echo-Operator'' ''A'' = ''A''" "\<not> agreed [''n'']"
    by (simp_all add: answered_def agreed_def reply_def to_lower_def)
qed

lemma toy_ensured: "\<exists>g. ensureEcholetDirs toy_machine toy_home = (Inr (), g)"
proof -
  have "fst (ensureEcholetDirs toy_machine toy_home) = Inr ()" by code_simp
  then show ?thesis by (metis prod.collapse)
qed

theorem station_kept_unless_agreed_witness:
  "\<exists>h'. handleStationCommand toy_machine toy_tools [] toy_home = (Inr 0, h') \<and> ho_said h' = [(''setup cancelled'', [])]"
proof -
  from toy_ensured obtain g where g: "ensureEcholetDirs toy_machine toy_home = (Inr (), g)" by blast
  have l: "ho_lines toy_home = ''A'' # [''n'']" by (simp add: toy_home_def)
  have d: "node_at (ho_nodes toy_home) (place_of (ma_cwd toy_machine) (getProfileDir toy_machine toy_home ''A'')) = Some (Folder 448)"
    "node_at (ho_nodes toy_home) (place_of (ma_cwd toy_machine) (getClientDbPath toy_machine toy_home ''A'')) = Some (Document 384 [])"
    by code_simp+
  from station_kept_unless_agreed [OF g l toy_answers(2), unfolded toy_answers(1), OF _ d(2), of toy_tools] d(1)
  show ?thesis by (auto simp: toy_home_def toy_host_def)
qed

theorem delete_removes_one_profile_witness:
  "\<exists>h'. handleProfileCommand toy_machine [''delete'', ''A''] (toy_home\<lparr>ho_lines := [''y'']\<rparr>) = (Inr 0, h')
     \<and> node_at (ho_nodes h') [''home'', ''a'', ''.echolet'', ''profiles'', ''A'', ''store.key''] \<noteq> Some (Document 384 ''k'')"
proof -
  let ?h = "toy_home\<lparr>ho_lines := [''y'']\<rparr>"
  have "fst (handleProfileCommand toy_machine [''delete'', ''A''] ?h) = Inr 0" by code_simp
  then obtain h' where r: "handleProfileCommand toy_machine [''delete'', ''A''] ?h = (Inr 0, h')" by (metis prod.collapse)
  have s: "solid ''A''" by (simp add: solid_def)
  have "trim ''y'' = ''y''" by (rule trim_visible) (simp add: visible_def)
  then have y: "agreed (ho_lines ?h)" by (simp add: answered_def agreed_def reply_def to_lower_def)
  have p: "place_of (ma_cwd toy_machine) (getProfileDir toy_machine ?h ''A'') = [''home'', ''a'', ''.echolet'', ''profiles''] @ [''A'']"
    "place_of (ma_cwd toy_machine) (config_path toy_machine ?h) = [''home'', ''a'', ''.echolet'', ''config.json'']" by code_simp+
  from delete_removes_one_profile [OF r s] p y
  have "same_documents [''home'', ''a'', ''.echolet'', ''config.json'']
      (tree_remove [''home'', ''a'', ''.echolet'', ''profiles'', ''A''] (ho_nodes ?h)) (ho_nodes h')" by auto
  then show ?thesis using r by (simp add: same_documents_def tree_remove_at)
qed

theorem switch_takes_effect_witness:
  "\<exists>h' kvs. handleProfileCommand toy_machine [''switch'', ''A''] toy_home = (Inr 0, h')
     \<and> chosen toy_machine (JObj kvs) h' = (Inr (Some (JStr ''A'')), h')"
proof -
  have "fst (handleProfileCommand toy_machine [''switch'', ''A''] toy_home) = Inr 0" by code_simp
  then obtain h' where r: "handleProfileCommand toy_machine [''switch'', ''A''] toy_home = (Inr 0, h')" by (metis prod.collapse)
  have "fst (getGlobalConfig toy_machine toy_home) = Inr (JObj [])" by code_simp
  then obtain g where g: "getGlobalConfig toy_machine toy_home = (Inr (JObj []), g)" by (metis prod.collapse)
  from switch_takes_effect [OF r g] r show ?thesis by blast
qed

lemma toy_config_read: "readStationProfileConfig toy_machine toy_tools ''/home/a/.echolet/profiles/A'' toy_home = (Inr toy_config, toy_home)"
proof -
  have f: "tree_read (place_of (ma_cwd toy_machine) (join_path ''/home/a/.echolet/profiles/A'' ''config.json'')) (ho_nodes toy_home) = Inr toy_settings"
    by code_simp
  have e: "isLoopbackHostname ''127.0.0.1''" "env_name ''KEY''" by code_simp+
  have w: "wf_json toy_config" by (simp add: toy_config_def)
  have p: "parse_json toy_settings = Some toy_config" unfolding toy_settings_def by (rule parse_stringify [OF w])
  have "parseClientConfig sample_url toy_config = Inr toy_config"
    using e by (simp add: parseClientConfig_def configSchema_def config_fields_def toy_config_def sample_url_def isRelayOrigin_def str_prop_def)
  then show ?thesis using f p
    by (simp add: readStationProfileConfig_def andThen_def readFileSync_def lift_def of_option_def toy_tools_def)
qed

text \<open>The files of a station whose settings are read again before it is started.\<close>

lemma toy_paths:
  "getProfileDir toy_machine h ''A'' = ''/home/a/.echolet/profiles/A''" "getStoreKeyPath toy_machine h ''A'' = ''/home/a/.echolet/profiles/A/store.key''"
  "config_path toy_machine h = ''/home/a/.echolet/config.json''" if "ho_env h = (\<lambda>_. None)"
  using that by (simp_all add: getStoreKeyPath_def getProfileDir_def getProfilesDir_def config_path_def getEcholetHome_def join_path_def normal_path_def toy_machine_def)

lemma toy_starts:
  "\<exists>h'. start_profile toy_machine toy_tools [''start'', ''--port'', ''7''] ''A'' toy_home = (Inr 0, h') \<and> ho_spawned h' \<noteq> []"
proof -
  have n: "node_at (ho_nodes toy_home) (place_of (ma_cwd toy_machine) ''/home/a/.echolet/profiles/A/store.key'') = Some (Document 384 ''k'')"
    "node_at (ho_nodes toy_home) (place_of (ma_cwd toy_machine) ''/a/web-dist/server.js'') = Some (Document 420 [])"
    "hd (web_candidates toy_tools) = ''/a/web-dist/server.js''" by code_simp+
  obtain cs where c: "web_candidates toy_tools = ''/a/web-dist/server.js'' # cs" using n(3) by (simp add: web_candidates_def)
  have e: "ho_env toy_home = (\<lambda>_. None)" "ho_spawned toy_home = []" by (simp_all add: toy_home_def toy_host_def)
  have m: "ma_spawn toy_machine 0 = Inr (Some 7)" by (simp add: toy_machine_def)
  show ?thesis
    by (simp add: start_profile_def looking_def Let_def toy_paths [OF e(1)] existsSync_def readFileSync_def tree_read_def andThen_Inr n toy_config_read
        resolveWebServerPath_def c run_server_def say_def ret_def spawnProcess_def e(2) m)
qed

lemma toy_global: "getGlobalConfig toy_machine toy_home = (Inr (JObj []), toy_home)"
proof -
  have c: "fst (getGlobalConfig toy_machine toy_home) = Inr (JObj [])" "ho_nodes (snd (getGlobalConfig toy_machine toy_home)) = ho_nodes toy_home"
    by code_simp+
  then obtain g where g: "getGlobalConfig toy_machine toy_home = (Inr (JObj []), g)" by (metis prod.collapse)
  with global_config_result(1) [OF g] c(2) show ?thesis by auto
qed

theorem station_server_gets_its_profile_witness:
  "\<exists>h' script rest run_env. station_start toy_machine toy_tools [''start'', ''--port'', ''7''] toy_home = (Inr 0, h')
     \<and> ho_spawned h' = [\<lparr>sp_command = ''node'', sp_args = script # rest, sp_env = run_env\<rparr>]
     \<and> rest ! 5 = ''A'' \<and> sc_port (parseArgv id [] rest) = Some 7"
proof -
  have u: "tl_parse toy_tools [] = None" by (simp add: toy_tools_def sample_url_def)
  have "fst (chosen toy_machine (JObj []) toy_home) = Inr (Some (JStr ''A''))" by code_simp
  then have c: "chosen toy_machine (JObj []) toy_home = (Inr (Some (JStr ''A'')), toy_home)" by (metis chosen_result prod.collapse)
  from toy_starts obtain h' where s: "start_profile toy_machine toy_tools [''start'', ''--port'', ''7''] ''A'' toy_home = (Inr 0, h')"
      "ho_spawned h' \<noteq> []" by blast
  have r: "station_start toy_machine toy_tools [''start'', ''--port'', ''7''] toy_home = (Inr 0, h')"
    by (simp add: station_start_def andThen_Inr toy_global c flag_value_def filled_def name_of_def lift_def s(1))
  have "ho_spawned toy_home = []" "tl_execPath toy_tools = ''node''" by (simp_all add: toy_home_def toy_host_def toy_tools_def)
  note run = station_server_gets_its_profile [OF r _ _ u toy_global, of id "[]", unfolded this]
  have f: "flag_value ''--profile'' [''start'', ''--port'', ''7''] = None" "port_of [''start'', ''--port'', ''7''] = 7" by code_simp+
  from run s(2) f(1) obtain who rest script run_env where w: "\<exists>v. chosen toy_machine (JObj []) toy_home = (Inr (Some v), toy_home) \<and> name_of v = Inr who"
      "ho_spawned h' = [] @ [\<lparr>sp_command = ''node'', sp_args = script # rest, sp_env = run_env\<rparr>]"
      "rest ! 5 = who" "who \<noteq> [] \<Longrightarrow> sc_port (parseArgv id [] rest) = Some (port_of [''start'', ''--port'', ''7''])"
    by fastforce
  from w(1) c have "who = ''A''" by (auto simp: name_of_def)
  with w(2,3,4) r f(2) show ?thesis by auto
qed

end
