(* ===== verification/Page.thy ===== *)
theory Page
  imports StationServer
begin

text \<open>
  The page the station serves, \<open>apps/web/src/client\<close>: the reading of cards and of the station's status
  (\<open>contactCard.ts\<close>, \<open>stationStatus.ts\<close>), and the state, the handlers and the event stream of \<open>App.tsx\<close>
  as a step relation over what the operator does, what the station pushes and the answers to the
  requests under way, which come in any order. How the page looks - skins, dials, drawings - is left
  out, and with it everything that is kept only for that; the words it shows are constructors.
\<close>

subsection \<open>Contact cards\<close>

definition MAX_CONTACT_CARD_BYTES :: nat where
  "MAX_CONTACT_CARD_BYTES = 128 * 1024"

record card_preview =
  cp_identityId :: string
  cp_deviceId :: string

datatype notice =
    EmptyCard | CardTooLarge | CardNotJson | CardNotObject | CardUnsupported
  | AlreadyContact | CardChanged | FileUnreadable | CardRefused | ImportRefused
  | ExportFailed string | ExportUnavailable nat | Told string | Thrown

fun isRecord :: "json \<Rightarrow> bool" where
  "isRecord (JObj kvs) = True"
| "isRecord v = False"

fun is_text :: "json \<Rightarrow> bool" where
  "is_text (JStr s) = True"
| "is_text v = False"

definition hasString :: "json \<Rightarrow> string \<Rightarrow> bool" where
  "hasString r k \<longleftrightarrow> (case jprop r k of JStr s \<Rightarrow> s \<noteq> [] | _ \<Rightarrow> False)"

definition hasRecord :: "json \<Rightarrow> string \<Rightarrow> bool" where
  "hasRecord r k \<longleftrightarrow> isRecord (jprop r k)"

definition known_bundle :: "json \<Rightarrow> bool" where
  "known_bundle bundle \<longleftrightarrow>
     jprop bundle ''type'' = JStr ''signal_prekey_bundle'' \<and> jprop bundle ''version'' = JNum 2
     \<and> jprop bundle ''suite'' = JStr ''libsignal-pq-v1'' \<and> hasRecord bundle ''device_record'' \<and> hasString bundle ''bundle_id''
     \<and> hasString bundle ''signal_identity_key'' \<and> hasRecord bundle ''signed_prekey'' \<and> hasRecord bundle ''kyber_prekey''
     \<and> isRecord (jprop bundle ''one_time_prekey'') \<and> hasString bundle ''signature''"

definition parseContactCard :: "string \<Rightarrow> notice + json \<times> card_preview" where
  "parseContactCard input =
     (if trim input = [] then Inl EmptyCard
      else if MAX_CONTACT_CARD_BYTES < length input then Inl CardTooLarge
      else (case parse_json input of
          None \<Rightarrow> Inl CardNotJson
        | Some v \<Rightarrow>
            if \<not> isRecord v then Inl CardNotObject
            else
              let bundle = jprop v ''signal_bundle''; device = jprop bundle ''device_record'' in
              if jprop v ''type'' = JStr ''echolet_contact_card'' \<and> jprop v ''version'' = JNum 1 \<and> isRecord bundle
                 \<and> known_bundle bundle \<and> isRecord device \<and> hasString device ''identity_id'' \<and> hasString device ''device_id''
              then Inr (v, \<lparr>cp_identityId = str_prop device ''identity_id'', cp_deviceId = str_prop device ''device_id''\<rparr>)
              else Inl CardUnsupported))"

definition isDuplicateContact :: "card_preview \<Rightarrow> string list \<Rightarrow> bool" where
  "isDuplicateContact preview ids \<longleftrightarrow> list_ex (\<lambda>i. i = cp_identityId preview) ids"

definition fine_status :: "nat \<Rightarrow> bool" where
  "fine_status code \<longleftrightarrow> 200 \<le> code \<and> code < 300"

definition parseExportCardResponse :: "nat \<Rightarrow> string \<Rightarrow> notice + string" where
  "parseExportCardResponse code body =
     (if \<not> fine_status code
      then Inl (case parse_json body of
          Some error \<Rightarrow>
            (case (jprop error ''code'', jprop error ''error'') of
               (JStr c, _) \<Rightarrow> if c \<noteq> [] then ExportFailed c else ExportUnavailable code
             | (_, JStr e) \<Rightarrow> if e \<noteq> [] then ExportFailed e else ExportUnavailable code
             | _ \<Rightarrow> ExportUnavailable code)
        | None \<Rightarrow> ExportUnavailable code)
      else (case parseContactCard body of Inl e \<Rightarrow> Inl e | Inr _ \<Rightarrow> Inr body))"

subsection \<open>The station's status\<close>

record station_view =
  sv_label :: "string option"
  sv_profile :: "json option"
  sv_profileState :: verification_state
  sv_relay :: connection_state
  sv_reach :: reachability
  sv_relayUrl :: string
  sv_pingMs :: "int option"
  sv_telemetry :: "json list option"

definition connectionState :: "json \<Rightarrow> connection_state" where
  "connectionState v =
     (if v = JStr ''connected'' then RelayConnected else if v = JStr ''disconnected'' then RelayDisconnected else ConnectionUnknown)"

definition profileState :: "json \<Rightarrow> verification_state" where
  "profileState v =
     (if v = JStr ''verified'' then ProfileVerified else if v = JStr ''unverified'' then ProfileUnverified else VerificationUnknown)"

definition reachabilityState :: "json \<Rightarrow> reachability" where
  "reachabilityState v =
     (if v = JStr ''reachable'' then Reachable else if v = JStr ''unreachable'' then Unreachable else ReachabilityUnknown)"

definition parseStationStatus :: "json \<Rightarrow> station_view option" where
  "parseStationStatus v =
     (if \<not> isRecord v \<or> jprop v ''ok'' = JBool False then None
      else Some
        \<lparr>sv_label = (case jprop v ''label'' of JStr s \<Rightarrow> Some s | _ \<Rightarrow> None),
         sv_profile = (if isRecord (jprop v ''profile'') then Some (jprop v ''profile'') else None),
         sv_profileState = profileState (jprop v ''profileState''), sv_relay = connectionState (jprop v ''relay''),
         sv_reach = reachabilityState (jprop v ''relayReachability''),
         sv_relayUrl = (case jprop v ''relayUrl'' of JStr s \<Rightarrow> s | _ \<Rightarrow> []),
         sv_pingMs = (case jprop v ''pingMs'' of JNum n \<Rightarrow> Some n | _ \<Rightarrow> None),
         sv_telemetry = (case jprop v ''telemetry'' of JArr vs \<Rightarrow> Some vs | _ \<Rightarrow> None)\<rparr>)"

definition effectiveRelayState :: "connection_state \<Rightarrow> connection_state \<Rightarrow> connection_state" where
  "effectiveRelayState localStation relay = (if localStation = RelayDisconnected then RelayDisconnected else relay)"

subsection \<open>The page's state\<close>

record page_contact =
  pc_identity_id :: string
  pc_device_id :: string
  pc_device_pubkey :: "string option"
  pc_signal_identity_key :: "string option"
  pc_name :: "string option"

definition text_of :: "json \<Rightarrow> string option" where
  "text_of v = (case v of JStr s \<Rightarrow> Some s | _ \<Rightarrow> None)"

definition page_contact_of :: "json \<Rightarrow> page_contact option" where
  "page_contact_of item =
     (case (jprop item ''identity_id'', jprop item ''device_id'') of
        (JStr i, JStr d) \<Rightarrow>
          Some \<lparr>pc_identity_id = i, pc_device_id = d, pc_device_pubkey = text_of (jprop item ''device_pubkey''),
            pc_signal_identity_key = text_of (jprop item ''signal_identity_key''), pc_name = text_of (jprop item ''name'')\<rparr>
      | _ \<Rightarrow> None)"

definition mapContacts :: "json \<Rightarrow> page_contact list" where
  "mapContacts v = (case v of JArr items \<Rightarrow> List.map_filter page_contact_of items | _ \<Rightarrow> [])"

definition isTelemetryItem :: "json \<Rightarrow> bool" where
  "isTelemetryItem v \<longleftrightarrow>
     is_text (jprop v ''id'') \<and> is_text (jprop v ''time'') \<and> is_text (jprop v ''message'')
     \<and> jprop v ''type'' \<in> {JStr ''info'', JStr ''success'', JStr ''warn'', JStr ''error'', JStr ''crypto''}"

text \<open>What the page asks for, and what for; the numbers are those the answer is compared with.\<close>

datatype page_request = Get string | Post string string | ReadFile

datatype purpose =
    ForStatus bool
  | ForHistory nat string bool
  | ForSend string
  | ForExport nat
  | ForValidation nat json card_preview
  | ForImport
  | ForFile nat

text \<open>A request fails, or is answered with a status and a body; a file that is read answers with its text.\<close>

datatype page_answer = Failed | Replied nat string

datatype exchange = Asked purpose page_request | Answered purpose page_request page_answer

datatype page_alert = SendRefused json | SendThrew

text \<open>
  The chosen contact is a position in the list of contacts, which stands for the object it is; the
  page's reference to it and its state are always set together. \<open>pg_owner\<close>, the contact whose history
  was asked for when the entries shown came, and \<open>pg_log\<close>, what was asked and answered in order, are
  not kept by the page: they are what the laws speak of.
\<close>

record page =
  pg_label :: string
  pg_relayUrl :: string
  pg_pingMs :: json
  pg_relay :: connection_state
  pg_local :: connection_state
  pg_profileState :: verification_state
  pg_reach :: reachability
  pg_contacts :: "page_contact list"
  pg_selected :: "nat option"
  pg_history :: json
  pg_owner :: string
  pg_telemetry :: "json list"
  pg_input :: string
  pg_sending :: bool
  pg_historyRequest :: nat
  pg_showImport :: bool
  pg_importText :: string
  pg_preview :: "card_preview option"
  pg_validated :: "json option"
  pg_importError :: "notice option"
  pg_importing :: bool
  pg_validating :: bool
  pg_generation :: nat
  pg_showExport :: bool
  pg_exportText :: string
  pg_exportError :: "notice option"
  pg_exportLoading :: bool
  pg_copied :: "bool option"
  pg_exportRequest :: nat
  pg_flights :: "(purpose \<times> page_request) list"
  pg_log :: "exchange list"
  pg_alerts :: "page_alert list"

definition new_page :: page where
  "new_page = \<lparr>pg_label = ''Operator'', pg_relayUrl = [], pg_pingMs = JNull, pg_relay = ConnectionUnknown, pg_local = ConnectionUnknown,
     pg_profileState = VerificationUnknown, pg_reach = ReachabilityUnknown, pg_contacts = [], pg_selected = None, pg_history = JArr [],
     pg_owner = [], pg_telemetry = [], pg_input = [], pg_sending = False, pg_historyRequest = 0, pg_showImport = False, pg_importText = [],
     pg_preview = None, pg_validated = None, pg_importError = None, pg_importing = False, pg_validating = False, pg_generation = 0,
     pg_showExport = False, pg_exportText = [], pg_exportError = None, pg_exportLoading = False, pg_copied = None, pg_exportRequest = 0,
     pg_flights = [], pg_log = [], pg_alerts = []\<rparr>"

definition launch :: "purpose \<Rightarrow> page_request \<Rightarrow> page \<Rightarrow> page" where
  "launch w rq p = p\<lparr>pg_flights := pg_flights p @ [(w, rq)], pg_log := pg_log p @ [Asked w rq]\<rparr>"

definition selected_id :: "page \<Rightarrow> string option" where
  "selected_id p =
     (case pg_selected p of None \<Rightarrow> None | Some i \<Rightarrow> if i < length (pg_contacts p) then Some (pc_identity_id (pg_contacts p ! i)) else None)"

text \<open>\<open>encodeURIComponent\<close>, on the bytes of the text.\<close>

definition hex_digit :: "nat \<Rightarrow> char" where
  "hex_digit n = (if n < 10 then char_of (48 + n) else char_of (55 + n))"

definition uri_plain :: "char \<Rightarrow> bool" where
  "uri_plain c \<longleftrightarrow>
     (let k = (of_char c :: nat) in 48 \<le> k \<and> k \<le> 57 \<or> 65 \<le> k \<and> k \<le> 90 \<or> 97 \<le> k \<and> k \<le> 122) \<or> c \<in> set ''-_.!~*()'' \<or> c = CHR 0x27"

definition encodeURIComponent :: "string \<Rightarrow> string" where
  "encodeURIComponent s =
     concat (map (\<lambda>c. if uri_plain c then [c] else [CHR ''%'', hex_digit (of_char c div 16), hex_digit (of_char c mod 16)]) s)"

subsection \<open>Asking and hearing\<close>

text \<open>The argument says whether the import that asked waits for the answer.\<close>

definition loadStatus :: "bool \<Rightarrow> page \<Rightarrow> page" where
  "loadStatus waits p = launch (ForStatus waits) (Get ''/api/status'') p"

definition loadHistory :: "string \<Rightarrow> bool \<Rightarrow> page \<Rightarrow> page" where
  "loadHistory c waits p =
     (let r = Suc (pg_historyRequest p) in
      launch (ForHistory r c waits) (Get (''/api/history?with='' @ encodeURIComponent c)) (p\<lparr>pg_historyRequest := r\<rparr>))"

definition position_of :: "string \<Rightarrow> page_contact list \<Rightarrow> nat option" where
  "position_of i cs = (case filter (\<lambda>n. pc_identity_id (cs ! n) = i) [0..<length cs] of [] \<Rightarrow> None | n # ns \<Rightarrow> Some n)"

definition next_selected :: "string option \<Rightarrow> page_contact list \<Rightarrow> nat option" where
  "next_selected chosen cs =
     (case (case chosen of None \<Rightarrow> None | Some i \<Rightarrow> position_of i cs) of
        Some n \<Rightarrow> Some n
      | None \<Rightarrow> if cs = [] then None else Some 0)"

text \<open>Every status makes new objects of the contacts, so the effect on the chosen one runs for each.\<close>

definition applyStatus :: "json \<Rightarrow> page \<Rightarrow> page" where
  "applyStatus payload p =
     (case parseStationStatus payload of
        None \<Rightarrow> p
      | Some v \<Rightarrow>
          let mapped = mapContacts (case sv_profile v of None \<Rightarrow> JNull | Some profile \<Rightarrow> jprop profile ''contacts'');
              chosen = next_selected (selected_id p) mapped;
              p1 = p\<lparr>pg_label := (case sv_label v of None \<Rightarrow> pg_label p | Some l \<Rightarrow> l), pg_relayUrl := sv_relayUrl v,
                  pg_pingMs := (case sv_pingMs v of None \<Rightarrow> JNull | Some n \<Rightarrow> JNum n), pg_relay := sv_relay v,
                  pg_profileState := sv_profileState v, pg_reach := sv_reach v,
                  pg_telemetry := (case sv_telemetry v of None \<Rightarrow> pg_telemetry p | Some items \<Rightarrow> filter isTelemetryItem items),
                  pg_contacts := mapped, pg_selected := chosen\<rparr>
          in case chosen of
              None \<Rightarrow> p1\<lparr>pg_history := JArr [], pg_owner := []\<rparr>
            | Some n \<Rightarrow> loadHistory (pc_identity_id (mapped ! n)) False p1)"

definition settle_status :: "bool \<Rightarrow> page_answer \<Rightarrow> page \<Rightarrow> page" where
  "settle_status waits a p =
     (let p1 = (case a of Failed \<Rightarrow> p | Replied code body \<Rightarrow> (case parse_json body of None \<Rightarrow> p | Some v \<Rightarrow> applyStatus v p)) in
      if waits then p1\<lparr>pg_importing := False\<rparr> else p1)"

definition history_entries :: "page_answer \<Rightarrow> json" where
  "history_entries a =
     (case a of
        Failed \<Rightarrow> JNull
      | Replied code body \<Rightarrow>
          (case parse_json body of
             None \<Rightarrow> JNull
           | Some data \<Rightarrow> if truthy (jprop data ''ok'') then jprop (jprop data ''data'') ''entries'' else JNull))"

definition settle_history :: "nat \<Rightarrow> string \<Rightarrow> bool \<Rightarrow> page_answer \<Rightarrow> page \<Rightarrow> page" where
  "settle_history r c waits a p =
     (let p1 = (if truthy (history_entries a) \<and> selected_id p = Some c \<and> r = pg_historyRequest p
          then p\<lparr>pg_history := history_entries a, pg_owner := c\<rparr> else p)
      in if waits then p1\<lparr>pg_sending := False\<rparr> else p1)"

subsection \<open>Sending\<close>

definition send_body :: "string \<Rightarrow> string \<Rightarrow> string" where
  "send_body to body = stringify (JObj [(''to'', JStr to), (''text'', JStr body)])"

definition handleSend :: "page \<Rightarrow> page" where
  "handleSend p =
     (case selected_id p of
        None \<Rightarrow> p
      | Some c \<Rightarrow>
          if trim (pg_input p) = [] \<or> pg_sending p then p
          else launch (ForSend c) (Post ''/api/send'' (send_body c (pg_input p))) (p\<lparr>pg_sending := True, pg_input := []\<rparr>))"

definition settle_send :: "string \<Rightarrow> page_answer \<Rightarrow> page \<Rightarrow> page" where
  "settle_send c a p =
     (let failed = (\<lambda>x. p\<lparr>pg_alerts := pg_alerts p @ [x], pg_sending := False\<rparr>) in
      case a of
        Failed \<Rightarrow> failed SendThrew
      | Replied code body \<Rightarrow>
          (case parse_json body of
             None \<Rightarrow> failed SendThrew
           | Some data \<Rightarrow>
               if data = JNull then failed SendThrew
               else if truthy (jprop data ''ok'') then loadHistory c True p
               else failed (SendRefused (if truthy (jprop data ''code'') then jprop data ''code'' else JStr ''UNKNOWN''))))"

subsection \<open>Cards\<close>

definition handleExportCard :: "page \<Rightarrow> page" where
  "handleExportCard p =
     (let r = Suc (pg_exportRequest p) in
      launch (ForExport r) (Get ''/api/contacts/export'')
        (p\<lparr>pg_exportRequest := r, pg_showExport := True, pg_exportLoading := True, pg_exportError := None, pg_exportText := [], pg_copied := None\<rparr>))"

definition settle_export :: "nat \<Rightarrow> page_answer \<Rightarrow> page \<Rightarrow> page" where
  "settle_export r a p =
     (if r \<noteq> pg_exportRequest p then p
      else (case (case a of Failed \<Rightarrow> Inl Thrown | Replied code body \<Rightarrow> parseExportCardResponse code body) of
          Inl e \<Rightarrow> p\<lparr>pg_exportError := Some e, pg_exportLoading := False\<rparr>
        | Inr cardJson \<Rightarrow> p\<lparr>pg_exportText := cardJson, pg_exportLoading := False\<rparr>))"

definition closeExportModal :: "page \<Rightarrow> page" where
  "closeExportModal p = p\<lparr>pg_exportRequest := Suc (pg_exportRequest p), pg_showExport := False\<rparr>"

definition resetImportPreparation :: "page \<Rightarrow> page" where
  "resetImportPreparation p = p\<lparr>pg_generation := Suc (pg_generation p), pg_validating := False, pg_preview := None, pg_validated := None,
     pg_importError := None\<rparr>"

definition handleImportTextChange :: "string \<Rightarrow> page \<Rightarrow> page" where
  "handleImportTextChange v p = resetImportPreparation (p\<lparr>pg_importText := v\<rparr>)"

text \<open>The size of the file that was picked, or none.\<close>

definition handleImportFile :: "nat option \<Rightarrow> page \<Rightarrow> page" where
  "handleImportFile f p =
     (let p1 = resetImportPreparation p in
      case f of
        None \<Rightarrow> p1
      | Some n \<Rightarrow>
          if MAX_CONTACT_CARD_BYTES < n then p1\<lparr>pg_importError := Some CardTooLarge\<rparr>
          else launch (ForFile (pg_generation p1)) ReadFile p1)"

definition settle_file :: "nat \<Rightarrow> page_answer \<Rightarrow> page \<Rightarrow> page" where
  "settle_file g a p =
     (if g \<noteq> pg_generation p then p
      else (case a of Failed \<Rightarrow> p\<lparr>pg_importError := Some FileUnreadable\<rparr> | Replied code t \<Rightarrow> p\<lparr>pg_importText := t\<rparr>))"

definition validate_body :: "json \<Rightarrow> string" where
  "validate_body sheet = stringify (JObj [(''cardJson'', sheet)])"

definition handleValidateImport :: "page \<Rightarrow> page" where
  "handleValidateImport p =
     (let p1 = p\<lparr>pg_generation := Suc (pg_generation p), pg_preview := None, pg_validated := None, pg_importError := None\<rparr> in
      case parseContactCard (pg_importText p) of
        Inl e \<Rightarrow> p1\<lparr>pg_importError := Some e\<rparr>
      | Inr (sheet, preview) \<Rightarrow>
          if isDuplicateContact preview (map pc_identity_id (pg_contacts p)) then p1\<lparr>pg_importError := Some AlreadyContact\<rparr>
          else launch (ForValidation (pg_generation p1) sheet preview) (Post ''/api/contacts/validate'' (validate_body sheet))
            (p1\<lparr>pg_validating := True\<rparr>))"

text \<open>Whether an answer says that what was asked for was done, and the words when it does not.\<close>

definition granted :: "page_answer \<Rightarrow> bool" where
  "granted a \<longleftrightarrow>
     (case a of Failed \<Rightarrow> False | Replied code body \<Rightarrow>
        fine_status code \<and> (case parse_json body of None \<Rightarrow> False | Some data \<Rightarrow> jprop data ''ok'' = JBool True))"

definition refusal :: "notice \<Rightarrow> page_answer \<Rightarrow> notice" where
  "refusal fallback a =
     (case a of Failed \<Rightarrow> Thrown | Replied code body \<Rightarrow>
        (case parse_json body of None \<Rightarrow> Thrown | Some data \<Rightarrow>
           (case jprop data ''error'' of JStr e \<Rightarrow> Told e | _ \<Rightarrow> fallback)))"

definition settle_validation :: "nat \<Rightarrow> json \<Rightarrow> card_preview \<Rightarrow> page_answer \<Rightarrow> page \<Rightarrow> page" where
  "settle_validation g sheet preview a p =
     (if g \<noteq> pg_generation p then p
      else if granted a then p\<lparr>pg_preview := Some preview, pg_validated := Some sheet, pg_validating := False\<rparr>
      else p\<lparr>pg_importError := Some (refusal CardRefused a), pg_validating := False\<rparr>)"

definition import_body :: "json \<Rightarrow> string" where
  "import_body sheet = stringify (JObj [(''cardJson'', sheet), (''confirmed'', JBool True)])"

definition handleConfirmImport :: "page \<Rightarrow> page" where
  "handleConfirmImport p =
     (case pg_validated p of
        None \<Rightarrow> p
      | Some sheet \<Rightarrow>
          if pg_importing p then p
          else if (case parseContactCard (pg_importText p) of Inl e \<Rightarrow> True | Inr (current, _) \<Rightarrow> stringify current \<noteq> stringify sheet)
          then p\<lparr>pg_importError := Some CardChanged\<rparr>
          else launch ForImport (Post ''/api/contacts/import'' (import_body sheet)) (p\<lparr>pg_importing := True, pg_importError := None\<rparr>))"

definition settle_import :: "page_answer \<Rightarrow> page \<Rightarrow> page" where
  "settle_import a p =
     (if granted a
      then loadStatus True (resetImportPreparation
        (p\<lparr>pg_generation := Suc (pg_generation p), pg_showImport := False, pg_importText := []\<rparr>))
      else p\<lparr>pg_importError := Some (refusal ImportRefused a), pg_importing := False\<rparr>)"

definition closeImportModal :: "page \<Rightarrow> page" where
  "closeImportModal p = (resetImportPreparation p)\<lparr>pg_showImport := False\<rparr>"

subsection \<open>Events\<close>

datatype page_event =
    Arrived nat page_answer
  | Typed string
  | Submitted
  | ChoseContact nat
  | OpenedImport
  | ClosedImport
  | EditedCard string
  | PickedFile "nat option"
  | PressedValidate
  | PressedConfirm
  | PressedExport
  | ClosedExport
  | CopiedCard bool
  | StreamOpened
  | StreamBroken
  | PushedStatus string
  | PushedTelemetry string
  | PushedPing string
  | PushedMessage
  | PushedContact

text \<open>What the controls shown and not disabled let through.\<close>

fun enabled :: "page_event \<Rightarrow> page \<Rightarrow> bool" where
  "enabled (Arrived i a) p = (i < length (pg_flights p))"
| "enabled (Typed s) p = (pg_selected p \<noteq> None \<and> \<not> pg_sending p)"
| "enabled Submitted p = (pg_selected p \<noteq> None)"
| "enabled (ChoseContact i) p = (i < length (pg_contacts p))"
| "enabled ClosedImport p = (pg_showImport p \<and> \<not> pg_importing p)"
| "enabled (EditedCard s) p = (pg_showImport p \<and> \<not> pg_importing p \<and> \<not> pg_validating p)"
| "enabled (PickedFile f) p = (pg_showImport p \<and> \<not> pg_importing p \<and> \<not> pg_validating p)"
| "enabled PressedValidate p = (pg_showImport p \<and> \<not> pg_importing p \<and> \<not> pg_validating p)"
| "enabled PressedConfirm p = (pg_showImport p \<and> pg_validated p \<noteq> None \<and> \<not> pg_importing p \<and> \<not> pg_validating p)"
| "enabled ClosedExport p = pg_showExport p"
| "enabled (CopiedCard b) p = (pg_showExport p \<and> pg_exportText p \<noteq> [])"
| "enabled _ p = True"

definition settle_flight :: "purpose \<Rightarrow> page_answer \<Rightarrow> page \<Rightarrow> page" where
  "settle_flight w a p =
     (case w of
        ForStatus waits \<Rightarrow> settle_status waits a p
      | ForHistory r c waits \<Rightarrow> settle_history r c waits a p
      | ForSend c \<Rightarrow> settle_send c a p
      | ForExport r \<Rightarrow> settle_export r a p
      | ForValidation g sheet preview \<Rightarrow> settle_validation g sheet preview a p
      | ForImport \<Rightarrow> settle_import a p
      | ForFile g \<Rightarrow> settle_file g a p)"

definition arrived :: "nat \<Rightarrow> page_answer \<Rightarrow> page \<Rightarrow> page" where
  "arrived i a p =
     (case pg_flights p ! i of (w, rq) \<Rightarrow>
        settle_flight w a (p\<lparr>pg_flights := take i (pg_flights p) @ drop (Suc i) (pg_flights p), pg_log := pg_log p @ [Answered w rq a]\<rparr>))"

definition chose :: "nat \<Rightarrow> page \<Rightarrow> page" where
  "chose i p = (if pg_selected p = Some i then p else loadHistory (pc_identity_id (pg_contacts p ! i)) False (p\<lparr>pg_selected := Some i\<rparr>))"

definition reload_history :: "page \<Rightarrow> page" where
  "reload_history p = (case selected_id p of None \<Rightarrow> p | Some c \<Rightarrow> loadHistory c False p)"

fun page_step :: "page_event \<Rightarrow> page \<Rightarrow> page" where
  "page_step (Arrived i a) p = arrived i a p"
| "page_step (Typed s) p = p\<lparr>pg_input := s\<rparr>"
| "page_step Submitted p = handleSend p"
| "page_step (ChoseContact i) p = chose i p"
| "page_step OpenedImport p = p\<lparr>pg_showImport := True\<rparr>"
| "page_step ClosedImport p = closeImportModal p"
| "page_step (EditedCard s) p = handleImportTextChange s p"
| "page_step (PickedFile f) p = handleImportFile f p"
| "page_step PressedValidate p = handleValidateImport p"
| "page_step PressedConfirm p = handleConfirmImport p"
| "page_step PressedExport p = handleExportCard p"
| "page_step ClosedExport p = closeExportModal p"
| "page_step (CopiedCard b) p = p\<lparr>pg_copied := Some b\<rparr>"
| "page_step StreamOpened p = p\<lparr>pg_local := RelayConnected\<rparr>"
| "page_step StreamBroken p = p\<lparr>pg_local := RelayDisconnected\<rparr>"
| "page_step (PushedStatus s) p = (case parse_json s of None \<Rightarrow> p | Some v \<Rightarrow> applyStatus v p)"
| "page_step (PushedTelemetry s) p =
     (case parse_json s of None \<Rightarrow> p | Some v \<Rightarrow> p\<lparr>pg_telemetry := drop (length (pg_telemetry p) - 150) (pg_telemetry p) @ [v]\<rparr>)"
| "page_step (PushedPing s) p =
     (case parse_json s of None \<Rightarrow> p | Some v \<Rightarrow> if v = JNull then p else p\<lparr>pg_pingMs := jprop v ''ping''\<rparr>)"
| "page_step PushedMessage p = reload_history p"
| "page_step PushedContact p = loadStatus False p"

inductive page_run :: "page \<Rightarrow> bool" where
  opened: "page_run (loadStatus False new_page)"
| stepped: "page_run p \<Longrightarrow> enabled e p \<Longrightarrow> page_run (page_step e p)"

subsection \<open>What an import rests on\<close>

text \<open>The requests an import is prepared by: the validations and files under way.\<close>

fun prepares :: "purpose \<Rightarrow> bool" where
  "prepares (ForValidation g c pv) = True"
| "prepares (ForFile g) = True"
| "prepares w = False"

fun prepared_for :: "purpose \<Rightarrow> nat" where
  "prepared_for (ForValidation g c pv) = g"
| "prepared_for (ForFile g) = g"
| "prepared_for w = 0"

fun validates :: "purpose \<Rightarrow> bool" where
  "validates (ForValidation g c pv) = True"
| "validates w = False"

definition work :: "page \<Rightarrow> (purpose \<times> page_request) list" where
  "work p = filter (\<lambda>x. prepares (fst x)) (pg_flights p)"

definition vouched :: "exchange list \<Rightarrow> json \<Rightarrow> bool" where
  "vouched log sheet \<longleftrightarrow>
     (\<exists>g pv a. Answered (ForValidation g sheet pv) (Post ''/api/contacts/validate'' (validate_body sheet)) a \<in> set log \<and> granted a)"

definition imports_vouched :: "exchange list \<Rightarrow> bool" where
  "imports_vouched log \<longleftrightarrow>
     (\<forall>i < length log. \<forall>rq. log ! i = Asked ForImport rq \<longrightarrow>
        (\<exists>sheet. rq = Post ''/api/contacts/import'' (import_body sheet) \<and> vouched (take i log) sheet
          \<and> (\<exists>t preview. parseContactCard t = Inr (sheet, preview))))"

text \<open>
  A validation under way for the current preparation is of the card in the text field, of which no
  other is under way; a file under way for it is the only thing there is of that preparation.
\<close>

definition flight_fits :: "page \<Rightarrow> purpose \<times> page_request \<Rightarrow> bool" where
  "flight_fits p x \<longleftrightarrow> prepared_for (fst x) \<le> pg_generation p
     \<and> (prepared_for (fst x) = pg_generation p \<longrightarrow> pg_validated p = None)
     \<and> (case fst x of
          ForValidation g sheet pv \<Rightarrow> snd x = Post ''/api/contacts/validate'' (validate_body sheet)
            \<and> (g = pg_generation p \<longrightarrow> parseContactCard (pg_importText p) = Inr (sheet, pv))
        | _ \<Rightarrow> True)"

definition current_work :: "page \<Rightarrow> (purpose \<times> page_request) list" where
  "current_work p = filter (\<lambda>x. prepared_for (fst x) = pg_generation p) (work p)"

definition import_sound :: "page \<Rightarrow> bool" where
  "import_sound p \<longleftrightarrow> list_all (flight_fits p) (work p)
     \<and> (length (current_work p) \<le> 1)
     \<and> (pg_validated p = None \<longleftrightarrow> pg_preview p = None)
     \<and> (\<forall>sheet pv. pg_validated p = Some sheet \<longrightarrow> pg_preview p = Some pv \<longrightarrow>
          parseContactCard (pg_importText p) = Inr (sheet, pv) \<and> \<not> pg_validating p \<and> vouched (pg_log p) sheet)
     \<and> imports_vouched (pg_log p)"

text \<open>What has nothing to do with the preparation of an import.\<close>

definition import_quiet :: "page \<Rightarrow> page \<Rightarrow> bool" where
  "import_quiet p p' \<longleftrightarrow> pg_importText p' = pg_importText p \<and> pg_preview p' = pg_preview p \<and> pg_validated p' = pg_validated p
     \<and> pg_validating p' = pg_validating p \<and> pg_generation p' = pg_generation p \<and> work p' = work p
     \<and> (\<exists>es. pg_log p' = pg_log p @ es \<and> (\<forall>rq. Asked ForImport rq \<notin> set es))"

lemma quiet_refl: "import_quiet p p"
  by (simp add: import_quiet_def)

lemma quiet_trans: "import_quiet p q \<Longrightarrow> import_quiet q r \<Longrightarrow> import_quiet p r"
  by (fastforce simp: import_quiet_def)

lemma vouched_more: "vouched log sheet \<Longrightarrow> vouched (log @ es) sheet"
  by (auto simp: vouched_def)

lemma imports_more:
  assumes "imports_vouched log" "\<And>rq. Asked ForImport rq \<in> set es \<Longrightarrow> False"
  shows "imports_vouched (log @ es)"
  using assms unfolding imports_vouched_def
  by (auto simp: nth_append) (metis add_diff_inverse_nat length_append nat_add_left_cancel_less nth_mem)

lemma asked_import_vouched:
  assumes "imports_vouched log" "log = before @ Asked ForImport rq # after"
  shows "\<exists>sheet. rq = Post ''/api/contacts/import'' (import_body sheet) \<and> vouched before sheet
    \<and> (\<exists>t preview. parseContactCard t = Inr (sheet, preview))"
proof -
  have "length before < length log" "log ! length before = Asked ForImport rq" "take (length before) log = before"
    using assms(2) by simp_all
  with assms(1) show ?thesis unfolding imports_vouched_def by metis
qed

lemma import_one:
  "imports_vouched log \<Longrightarrow> vouched log sheet \<Longrightarrow> parseContactCard t = Inr (sheet, preview) \<Longrightarrow>
     imports_vouched (log @ [Asked ForImport (Post ''/api/contacts/import'' (import_body sheet))])"
  unfolding imports_vouched_def by (auto simp: nth_append less_Suc_eq)

lemma fits_same:
  assumes "pg_importText q = pg_importText p" "pg_validated q = pg_validated p" "pg_generation q = pg_generation p"
  shows "flight_fits q = flight_fits p"
  unfolding flight_fits_def [abs_def] assms ..

lemma quiet_sound: "import_sound p \<Longrightarrow> import_quiet p p' \<Longrightarrow> import_sound p'"
proof -
  assume s: "import_sound p" and q: "import_quiet p p'"
  from q obtain es where es: "pg_log p' = pg_log p @ es" "\<And>rq. Asked ForImport rq \<notin> set es" by (auto simp: import_quiet_def)
  from q have same: "pg_importText p' = pg_importText p" "pg_validated p' = pg_validated p" "pg_generation p' = pg_generation p" "work p' = work p"
    by (simp_all add: import_quiet_def)
  have "flight_fits p' = flight_fits p" by (rule fits_same) (rule same)+
  moreover have "current_work p' = current_work p" by (simp add: current_work_def same)
  ultimately show ?thesis using s q es vouched_more imports_more [of "pg_log p" es]
    unfolding import_sound_def import_quiet_def by simp
qed

lemma quiet_launch: "\<not> prepares w \<Longrightarrow> w \<noteq> ForImport \<Longrightarrow> import_quiet p q \<Longrightarrow> import_quiet p (launch w rq q)"
  by (auto simp: import_quiet_def launch_def work_def)

lemma quiet_steps:
  "import_quiet p q \<Longrightarrow> import_quiet p (loadStatus waits q)" "import_quiet p q \<Longrightarrow> import_quiet p (loadHistory c waits q)"
  unfolding loadStatus_def loadHistory_def Let_def
  by (auto intro!: quiet_launch) (simp add: import_quiet_def work_def)

lemma quiet_apply: "import_quiet p q \<Longrightarrow> import_quiet p (applyStatus v q)"
  unfolding applyStatus_def Let_def
  by (auto split: option.split intro!: quiet_steps) (simp_all add: import_quiet_def work_def)

lemma quiet_handlers:
  "import_quiet p (settle_status waits a p)" "import_quiet p (settle_history r c waits a p)" "import_quiet p (settle_send c a p)"
  "import_quiet p (settle_export r a p)" "import_quiet p (handleSend p)" "import_quiet p (handleExportCard p)" "import_quiet p (closeExportModal p)"
  "import_quiet p (chose i p)" "import_quiet p (reload_history p)"
proof -
  have flag: "import_quiet p (q\<lparr>pg_importing := b\<rparr>)" if "import_quiet p q" for q b using that by (simp add: import_quiet_def work_def)
  show "import_quiet p (settle_status waits a p)"
    unfolding settle_status_def Let_def by (auto split: option.split page_answer.split intro!: flag quiet_apply quiet_refl)
  show "import_quiet p (settle_history r c waits a p)" unfolding settle_history_def Let_def by (simp add: import_quiet_def work_def)
  show "import_quiet p (settle_send c a p)"
    unfolding settle_send_def Let_def
    by (auto split: option.split page_answer.split intro!: quiet_steps quiet_refl) (simp_all add: import_quiet_def work_def)
  show "import_quiet p (settle_export r a p)" unfolding settle_export_def by (simp add: import_quiet_def work_def split: sum.split)
  show "import_quiet p (handleSend p)"
    unfolding handleSend_def by (auto split: option.split intro!: quiet_launch quiet_refl) (simp_all add: import_quiet_def work_def)
  show "import_quiet p (handleExportCard p)"
    unfolding handleExportCard_def Let_def by (auto intro!: quiet_launch) (simp add: import_quiet_def work_def)
  show "import_quiet p (closeExportModal p)" by (simp add: closeExportModal_def import_quiet_def work_def)
  show "import_quiet p (chose i p)"
    unfolding chose_def by (auto intro!: quiet_steps quiet_refl) (simp add: import_quiet_def work_def)
  show "import_quiet p (reload_history p)"
    unfolding reload_history_def by (auto split: option.split intro!: quiet_steps quiet_refl)
qed

text \<open>A preparation begins anew: nothing under way is of it.\<close>

lemma restart_sound:
  assumes "import_sound p" "work q = work p" "pg_generation p < pg_generation q" "pg_validated q = None" "pg_preview q = None"
    "imports_vouched (pg_log q)"
  shows "import_sound q" "current_work q = []"
proof -
  from assms(1) have f: "prepared_for (fst x) < pg_generation q" if "x \<in> set (work p)" for x
    using that assms(3) by (fastforce simp: import_sound_def list_all_iff flight_fits_def)
  then show c: "current_work q = []" using assms(2) by (fastforce simp: current_work_def filter_empty_conv)
  have "flight_fits q x" if x: "x \<in> set (work p)" for x
  proof -
    from assms(1) x have "flight_fits p x" by (simp add: import_sound_def list_all_iff)
    with f [OF x] show ?thesis by (cases "fst x") (auto simp: flight_fits_def)
  qed
  then show "import_sound q" using assms(2,4-6) c by (simp add: import_sound_def list_all_iff)
qed

lemma sound_log: "import_sound p \<Longrightarrow> imports_vouched (pg_log p)"
  by (simp add: import_sound_def)

lemma same_sound:
  assumes "import_sound q" "work q' = work q" "pg_generation q' = pg_generation q" "pg_importText q' = pg_importText q"
    "pg_validated q' = pg_validated q" "pg_preview q' = pg_preview q" "pg_log q' = pg_log q" "pg_validated q = None \<or> \<not> pg_validating q'"
  shows "import_sound q'"
proof -
  have "flight_fits q' = flight_fits q" by (rule fits_same) (rule assms)+
  moreover have "current_work q' = current_work q" by (simp add: current_work_def assms)
  ultimately show ?thesis using assms by (auto simp: import_sound_def)
qed

lemma launch_sound:
  assumes "import_sound p" "current_work p = []" "pg_validated p = None" "prepares w" "flight_fits p (w, rq)"
  shows "import_sound (launch w rq p)"
proof -
  let ?q = "launch w rq p"
  have w: "work ?q = work p @ [(w, rq)]" using assms(4) by (simp add: launch_def work_def)
  have f: "flight_fits ?q = flight_fits p" by (rule fits_same) (simp_all add: launch_def)
  have "length (current_work ?q) \<le> 1" using assms(2) w by (simp add: current_work_def) (simp add: launch_def)
  moreover have "w \<noteq> ForImport" using assms(4) by auto
  then have "imports_vouched (pg_log ?q)" using assms(1) by (auto simp: launch_def import_sound_def intro!: imports_more)
  moreover have "pg_validated ?q = None" "pg_preview ?q = None" using assms(1,3) by (simp_all add: launch_def import_sound_def)
  ultimately show ?thesis using assms(1,5) w f by (simp add: import_sound_def)
qed

lemma text_sound:
  assumes "import_sound q" "current_work q = []" "pg_validated q = None"
  shows "import_sound (q\<lparr>pg_importText := t\<rparr>)"
proof -
  let ?n = "q\<lparr>pg_importText := t\<rparr>"
  have w: "work ?n = work q" "current_work ?n = current_work q" by (simp_all add: work_def current_work_def)
  have "flight_fits ?n y" if y: "y \<in> set (work q)" for y
  proof -
    from assms(1) y have "flight_fits q y" by (simp add: import_sound_def list_all_iff)
    moreover from assms(2) y have "prepared_for (fst y) \<noteq> pg_generation q" by (auto simp: current_work_def filter_empty_conv)
    ultimately show ?thesis by (simp add: flight_fits_def split: purpose.splits)
  qed
  then show ?thesis using assms w by (simp add: import_sound_def list_all_iff)
qed

lemma removed_sound:
  assumes "import_sound p" "pg_flights p = xs @ (w, rq) # ys" "q = p\<lparr>pg_flights := xs @ ys, pg_log := pg_log p @ [Answered w rq a]\<rparr>"
  shows "import_sound q"
    and "prepares w \<Longrightarrow> prepared_for w = pg_generation p \<Longrightarrow> current_work q = [] \<and> pg_validated q = None"
    and "prepares w \<Longrightarrow> flight_fits p (w, rq)"
proof -
  let ?f = "filter (\<lambda>x. prepares (fst x))"
  have wp: "work p = ?f xs @ (if prepares w then [(w, rq)] else []) @ ?f ys" and wq: "work q = ?f xs @ ?f ys"
    using assms(2,3) by (simp_all add: work_def)
  have f: "flight_fits q = flight_fits p" by (rule fits_same) (simp_all add: assms(3))
  have g: "pg_generation q = pg_generation p" by (simp add: assms(3))
  have c: "current_work p = filter (\<lambda>x. prepared_for (fst x) = pg_generation p) (?f xs)
      @ (if prepares w \<and> prepared_for w = pg_generation p then [(w, rq)] else []) @ filter (\<lambda>x. prepared_for (fst x) = pg_generation p) (?f ys)"
    "current_work q = filter (\<lambda>x. prepared_for (fst x) = pg_generation p) (?f xs) @ filter (\<lambda>x. prepared_for (fst x) = pg_generation p) (?f ys)"
    unfolding current_work_def wp wq g by simp_all
  have l: "length (current_work p) \<le> 1" using assms(1) by (simp add: import_sound_def)
  have "imports_vouched (pg_log q)" using assms(1,3) by (auto simp: import_sound_def intro!: imports_more)
  moreover have "list_all (flight_fits p) (work q)" using assms(1) wp wq by (auto simp: import_sound_def list_all_iff)
  moreover have "length (current_work q) \<le> 1" using l c by (simp del: filter_filter split: if_splits)
  ultimately show "import_sound q" using assms(1,3) f vouched_more by (simp add: import_sound_def)
  show "flight_fits p (w, rq)" if "prepares w" using assms(1) wp that by (simp add: import_sound_def)
  then show "current_work q = [] \<and> pg_validated q = None" if "prepares w" "prepared_for w = pg_generation p"
    using that l c assms(3) by (simp add: flight_fits_def del: filter_filter)
qed

lemma arrived_sound:
  assumes "import_sound p" "i < length (pg_flights p)"
  shows "import_sound (arrived i a p)"
proof -
  obtain w rq where x: "pg_flights p ! i = (w, rq)" by fastforce
  let ?q = "p\<lparr>pg_flights := take i (pg_flights p) @ drop (Suc i) (pg_flights p), pg_log := pg_log p @ [Answered w rq a]\<rparr>"
  have fl: "pg_flights p = take i (pg_flights p) @ (w, rq) # drop (Suc i) (pg_flights p)" using id_take_nth_drop [OF assms(2)] x by simp
  have r: "import_sound ?q" "prepares w \<Longrightarrow> prepared_for w = pg_generation p \<Longrightarrow> current_work ?q = [] \<and> pg_validated ?q = None"
      "prepares w \<Longrightarrow> flight_fits p (w, rq)"
    by (rule removed_sound [OF assms(1) fl refl]; assumption)+
  have s: "import_sound (settle_flight w a ?q)"
  proof (cases w)
    case (ForValidation g sheet pv)
    show ?thesis
    proof (cases "g = pg_generation p \<and> granted a")
      case True
      with r(2,3) ForValidation have c: "current_work ?q = []" "flight_fits p (w, rq)" by simp_all
      let ?n = "?q\<lparr>pg_preview := Some pv, pg_validated := Some sheet, pg_validating := False\<rparr>"
      have "flight_fits ?n y" if "y \<in> set (work ?q)" for y
      proof -
        from r(1) that have "flight_fits ?q y" by (simp add: import_sound_def list_all_iff)
        moreover from c(1) that have "prepared_for (fst y) \<noteq> pg_generation p" by (auto simp: current_work_def filter_empty_conv)
        ultimately show ?thesis by (simp add: flight_fits_def split: purpose.splits)
      qed
      then have "list_all (flight_fits ?n) (work ?n)" by (simp add: list_all_iff work_def)
      moreover have "length (current_work ?n) \<le> 1" using c(1) by (simp add: current_work_def work_def)
      moreover from c(2) ForValidation True have "parseContactCard (pg_importText p) = Inr (sheet, pv)"
          "rq = Post ''/api/contacts/validate'' (validate_body sheet)" by (simp_all add: flight_fits_def)
      then have "parseContactCard (pg_importText ?n) = Inr (sheet, pv)" "vouched (pg_log ?n) sheet"
        using ForValidation True by (auto simp: vouched_def)
      moreover have "imports_vouched (pg_log ?n)" using sound_log [OF r(1)] by simp
      ultimately have "import_sound ?n" by (simp add: import_sound_def)
      with True ForValidation show ?thesis by (simp add: settle_flight_def settle_validation_def)
    next
      case False
      show ?thesis
      proof (cases "g = pg_generation p")
        case True
        with False have "settle_flight w a ?q = ?q\<lparr>pg_importError := Some (refusal CardRefused a), pg_validating := False\<rparr>"
          by (simp add: settle_flight_def ForValidation settle_validation_def)
        moreover have "pg_validated ?q = None" using r(2) ForValidation True by simp
        ultimately show ?thesis using same_sound [OF r(1), of "?q\<lparr>pg_importError := Some (refusal CardRefused a), pg_validating := False\<rparr>"]
          by (simp add: work_def)
      qed (use r(1) in \<open>simp add: settle_flight_def ForValidation settle_validation_def\<close>)
    qed
  next
    case (ForFile g)
    show ?thesis
    proof (cases "g = pg_generation p \<and> a \<noteq> Failed")
      case True
      then obtain code t where a: "a = Replied code t" by (cases a) auto
      from True r(2) ForFile have c: "current_work ?q = []" "pg_validated ?q = None" by simp_all
      have "import_sound (?q\<lparr>pg_importText := t\<rparr>)" by (rule text_sound [OF r(1) c])
      with True ForFile a show ?thesis by (simp add: settle_flight_def settle_file_def)
    next
      case False
      then have "settle_flight w a ?q = ?q \<or> settle_flight w a ?q = ?q\<lparr>pg_importError := Some FileUnreadable\<rparr>"
        by (auto simp: settle_flight_def ForFile settle_file_def split: page_answer.split)
      then show ?thesis using r(1) quiet_sound [OF r(1), of "?q\<lparr>pg_importError := Some FileUnreadable\<rparr>"]
        by (auto simp: import_quiet_def work_def)
    qed
  next
    case ForImport
    show ?thesis
    proof (cases "granted a")
      case True
      let ?n = "resetImportPreparation (?q\<lparr>pg_generation := Suc (pg_generation ?q), pg_showImport := False, pg_importText := []\<rparr>)"
      have "import_sound ?n"
        by (rule restart_sound(1) [OF r(1)]) (simp_all add: resetImportPreparation_def work_def sound_log [OF r(1), simplified])
      with True ForImport show ?thesis
        by (simp add: settle_flight_def settle_import_def quiet_sound [OF _ quiet_steps(1) [OF quiet_refl]])
    next
      case False
      then have "import_quiet ?q (settle_flight w a ?q)"
        by (simp add: settle_flight_def ForImport settle_import_def import_quiet_def work_def)
      then show ?thesis by (rule quiet_sound [OF r(1)])
    qed
  qed (simp_all add: settle_flight_def quiet_sound [OF r(1)] quiet_handlers)
  then show ?thesis by (simp add: arrived_def x)
qed

lemma preparation_sound:
  assumes "import_sound p"
  shows "import_sound (handleImportTextChange v p)" "import_sound (closeImportModal p)" "import_sound (handleImportFile f p)"
    "import_sound (handleValidateImport p)"
proof -
  note log = sound_log [OF assms]
  show "import_sound (handleImportTextChange v p)" "import_sound (closeImportModal p)"
    by (rule restart_sound(1) [OF assms]; simp add: handleImportTextChange_def closeImportModal_def resetImportPreparation_def work_def log)+
  let ?r = "resetImportPreparation p"
  have "import_sound ?r" "current_work ?r = []"
    by (rule restart_sound [OF assms]; simp add: resetImportPreparation_def work_def log)+
  moreover have "pg_validated ?r = None" by (simp add: resetImportPreparation_def)
  ultimately have r: "import_sound ?r" "current_work ?r = []" "pg_validated ?r = None" by blast+
  have "import_sound (launch (ForFile (pg_generation ?r)) ReadFile ?r)"
    by (rule launch_sound [OF r]) (simp_all add: flight_fits_def r(3))
  moreover have "import_sound (?r\<lparr>pg_importError := e\<rparr>)" for e
    by (rule same_sound [OF r(1)]) (simp_all add: work_def r(3))
  ultimately show "import_sound (handleImportFile f p)" using r(1) by (simp add: handleImportFile_def Let_def split: option.split)
  let ?p = "p\<lparr>pg_generation := Suc (pg_generation p), pg_preview := None, pg_validated := None, pg_importError := None\<rparr>"
  have n: "import_sound ?p" "current_work ?p = []" by (rule restart_sound [OF assms]; simp add: work_def log)+
  have e: "import_sound (?p\<lparr>pg_importError := e\<rparr>)" for e by (rule same_sound [OF n(1)]) (simp_all add: work_def)
  have v: "import_sound (?p\<lparr>pg_validating := True\<rparr>)" by (rule same_sound [OF n(1)]) (simp_all add: work_def)
  have "import_sound (launch (ForValidation (pg_generation ?p) sheet pv) (Post ''/api/contacts/validate'' (validate_body sheet)) (?p\<lparr>pg_validating := True\<rparr>))"
    if "parseContactCard (pg_importText p) = Inr (sheet, pv)" for sheet pv
    by (rule launch_sound [OF v]) (use n(2) that in \<open>simp_all add: flight_fits_def current_work_def work_def\<close>)
  with e show "import_sound (handleValidateImport p)" by (simp add: handleValidateImport_def Let_def split: sum.split prod.split)
qed

lemma confirm_sound:
  assumes "import_sound p"
  shows "import_sound (handleConfirmImport p)"
proof (cases "\<exists>sheet. pg_validated p = Some sheet \<and> \<not> pg_importing p")
  case True
  then obtain sheet where v: "pg_validated p = Some sheet" "\<not> pg_importing p" by blast
  with assms obtain pv where c: "parseContactCard (pg_importText p) = Inr (sheet, pv)" "vouched (pg_log p) sheet" "\<not> pg_validating p"
    by (auto simp: import_sound_def)
  let ?p = "p\<lparr>pg_importing := True, pg_importError := None\<rparr>"
  let ?n = "launch ForImport (Post ''/api/contacts/import'' (import_body sheet)) ?p"
  have s: "import_sound ?p" by (rule same_sound [OF assms]) (simp_all add: work_def c(3))
  have w: "work ?n = work p" "flight_fits ?n = flight_fits ?p" "pg_generation ?n = pg_generation p"
    by (simp add: work_def launch_def, rule fits_same, simp_all add: launch_def)
  have "imports_vouched (pg_log ?n)" using import_one [OF sound_log [OF assms] c(2,1)] by (simp add: launch_def)
  moreover have "vouched (pg_log ?n) sheet" using vouched_more [OF c(2)] by (simp add: launch_def)
  moreover have "list_all (flight_fits ?n) (work ?n)" using s unfolding w by (simp add: import_sound_def work_def)
  moreover have "current_work ?n = current_work p" by (simp add: current_work_def w)
  ultimately have "import_sound ?n" using assms v c by (auto simp: import_sound_def launch_def)
  with v c show ?thesis by (simp add: handleConfirmImport_def)
qed (use assms in \<open>auto simp: handleConfirmImport_def split: option.split\<close>)

lemma page_import_sound: "page_run p \<Longrightarrow> import_sound p"
proof (induction rule: page_run.induct)
  case opened
  have "import_sound new_page" by (simp add: import_sound_def new_page_def work_def current_work_def imports_vouched_def)
  then show ?case by (rule quiet_sound) (rule quiet_steps(1) [OF quiet_refl])
next
  case (stepped p e)
  note q = quiet_sound [OF stepped.IH]
  have field: "import_quiet p (page_step e p)" if "e \<in> {OpenedImport, StreamOpened, StreamBroken} \<or> (\<exists>s. e \<in> {Typed s, PushedTelemetry s, PushedPing s}) \<or> (\<exists>b. e = CopiedCard b)"
    using that by (auto simp: import_quiet_def work_def split: option.splits if_splits)
  show ?case
  proof (cases e)
    case (Arrived i a)
    with stepped show ?thesis using arrived_sound [of p i a] by simp
  next
    case (PushedStatus s)
    then show ?thesis using q [OF quiet_apply [OF quiet_refl]] stepped.IH by (simp split: option.split)
  next
    case PushedContact
    then show ?thesis using q [OF quiet_steps(1) [OF quiet_refl]] by simp
  qed (use stepped.IH field q quiet_handlers preparation_sound [OF stepped.IH] confirm_sound [OF stepped.IH] in auto)
qed

text \<open>
  C36. The page imports only what was validated and shown: whatever the operator does, in whatever order
  the requests are answered and the files are read, every import the page asks for is of a card whose
  validation the station granted before, the very card; and while a card is ready to be confirmed, it
  is the card in the text field, the identity shown is its own, and no validation is under way.
\<close>

theorem page_imports_what_was_validated:
  assumes "page_run p"
  shows "(\<forall>before rq after. pg_log p = before @ Asked ForImport rq # after \<longrightarrow>
      (\<exists>sheet. rq = Post ''/api/contacts/import'' (import_body sheet) \<and> vouched before sheet
        \<and> (\<exists>t preview. parseContactCard t = Inr (sheet, preview))))
    \<and> (\<forall>sheet. pg_validated p = Some sheet \<longrightarrow>
        (\<exists>preview. pg_preview p = Some preview \<and> parseContactCard (pg_importText p) = Inr (sheet, preview) \<and> \<not> pg_validating p))"
proof -
  note s = page_import_sound [OF assms]
  have "\<exists>sheet. rq = Post ''/api/contacts/import'' (import_body sheet) \<and> vouched before sheet
      \<and> (\<exists>t preview. parseContactCard t = Inr (sheet, preview))"
    if "pg_log p = before @ Asked ForImport rq # after" for before rq after
    by (rule asked_import_vouched [OF sound_log [OF s] that])
  moreover have "\<exists>preview. pg_preview p = Some preview \<and> parseContactCard (pg_importText p) = Inr (sheet, preview) \<and> \<not> pg_validating p"
    if "pg_validated p = Some sheet" for sheet
    using s that by (cases "pg_preview p") (auto simp: import_sound_def)
  ultimately show ?thesis by blast
qed

subsection \<open>What is asked for\<close>

text \<open>The request each purpose stands for.\<close>

fun asks :: "purpose \<Rightarrow> page_request \<Rightarrow> bool" where
  "asks (ForStatus waits) rq = (rq = Get ''/api/status'')"
| "asks (ForHistory r c waits) rq = (rq = Get (''/api/history?with='' @ encodeURIComponent c))"
| "asks (ForSend c) rq = (\<exists>t. trim t \<noteq> [] \<and> rq = Post ''/api/send'' (send_body c t))"
| "asks (ForExport r) rq = (rq = Get ''/api/contacts/export'')"
| "asks (ForValidation g sheet pv) rq = (rq = Post ''/api/contacts/validate'' (validate_body sheet))"
| "asks ForImport rq = (\<exists>sheet. rq = Post ''/api/contacts/import'' (import_body sheet))"
| "asks (ForFile g) rq = (rq = ReadFile)"

definition all_ask :: "page \<Rightarrow> bool" where
  "all_ask p \<longleftrightarrow> list_all (\<lambda>(w, rq). asks w rq) (pg_flights p)"

lemma ask_launch [intro!]: "asks w rq \<Longrightarrow> all_ask p \<Longrightarrow> all_ask (launch w rq p)"
  by (simp add: all_ask_def launch_def)

lemma ask_fields:
  "pg_flights q = pg_flights p \<Longrightarrow> all_ask p \<Longrightarrow> all_ask q"
  by (simp add: all_ask_def)

lemma ask_loads: "all_ask p \<Longrightarrow> all_ask (loadStatus waits p)" "all_ask p \<Longrightarrow> all_ask (loadHistory c waits p)"
  by (auto simp: loadStatus_def loadHistory_def Let_def intro: ask_fields)

lemma ask_apply: "all_ask p \<Longrightarrow> all_ask (applyStatus v p)"
  unfolding applyStatus_def Let_def by (auto split: option.split intro!: ask_loads intro: ask_fields)

lemma ask_settle: "all_ask p \<Longrightarrow> all_ask (settle_flight w a p)"
proof -
  assume s: "all_ask p"
  have f: "all_ask (q\<lparr>pg_importing := b\<rparr>)" if "all_ask q" for q b by (rule ask_fields [OF _ that]) simp
  show ?thesis
    by (cases w; cases a)
       (auto simp: settle_flight_def settle_status_def settle_history_def settle_send_def settle_export_def settle_validation_def settle_import_def
          settle_file_def resetImportPreparation_def Let_def s split: option.split sum.split
          intro!: ask_loads ask_apply f intro: ask_fields [OF _ s])
qed

lemma page_asks: "page_run p \<Longrightarrow> all_ask p"
proof (induction rule: page_run.induct)
  case opened
  show ?case by (intro ask_loads) (simp add: all_ask_def new_page_def)
next
  case (stepped p e)
  note s = stepped.IH
  show ?case
  proof (cases e)
    case (Arrived i a)
    have "all_ask (p\<lparr>pg_flights := take i (pg_flights p) @ drop (Suc i) (pg_flights p), pg_log := l\<rparr>)" for l
      using s by (auto simp: all_ask_def list_all_iff dest: in_set_takeD in_set_dropD)
    then show ?thesis by (auto simp: Arrived arrived_def intro!: ask_settle split: prod.split)
  next
    case (PressedConfirm)
    then show ?thesis using s
      by (auto simp: handleConfirmImport_def split: option.split intro: ask_fields [OF _ s])
  next
    case (PressedValidate)
    then show ?thesis using s
      by (auto simp: handleValidateImport_def Let_def split: sum.split intro: ask_fields [OF _ s])
  next
    case (Submitted)
    then show ?thesis using s
      by (auto simp: handleSend_def split: option.split intro: ask_fields [OF _ s])
  qed (auto simp: s chose_def reload_history_def handleExportCard_def closeExportModal_def closeImportModal_def handleImportTextChange_def
      handleImportFile_def resetImportPreparation_def Let_def split: option.split intro!: ask_loads ask_apply intro: ask_fields [OF _ s])
qed

subsection \<open>Whose history is shown\<close>

definition shown :: "page \<Rightarrow> json \<times> string" where
  "shown p = (pg_history p, pg_owner p)"

lemma same_selected:
  assumes "pg_selected q = pg_selected p" "pg_contacts q = pg_contacts p"
  shows "selected_id q = selected_id p"
  unfolding selected_id_def assms ..

lemma shown_launch [simp]: "shown (launch w rq p) = shown p" "pg_selected (launch w rq p) = pg_selected p"
  "selected_id (launch w rq p) = selected_id p" "pg_historyRequest (launch w rq p) = pg_historyRequest p"
  by (simp_all add: launch_def shown_def) (rule same_selected; simp)

lemma shown_loads [simp]:
  "shown (loadStatus waits p) = shown p" "shown (loadHistory c waits p) = shown p"
  "pg_selected (loadStatus waits p) = pg_selected p" "pg_selected (loadHistory c waits p) = pg_selected p"
  by (simp_all add: loadStatus_def loadHistory_def Let_def) (simp add: shown_def)

definition cleared :: "page \<Rightarrow> page \<Rightarrow> bool" where
  "cleared p p' \<longleftrightarrow> shown p' = shown p \<or> pg_selected p' = None \<and> shown p' = (JArr [], [])"

lemma cleared_refl: "cleared p p"
  by (simp add: cleared_def)

lemma cleared_fields: "shown p' = shown p \<Longrightarrow> cleared p p'"
  by (simp add: cleared_def)

lemma cleared_apply: "cleared p (applyStatus v p)"
proof -
  have "shown (p\<lparr>pg_label := a, pg_relayUrl := b, pg_pingMs := c, pg_relay := d, pg_profileState := e, pg_reach := f, pg_telemetry := g,
      pg_contacts := h, pg_selected := i\<rparr>) = shown p" for a b c d e f g h i by (simp add: shown_def)
  then show ?thesis by (auto simp: applyStatus_def Let_def cleared_def shown_def [of "_ \<lparr>pg_owner := _\<rparr>"] split: option.split)
qed

lemma settled_shown:
  "cleared p (settle_flight w a p)
    \<or> (\<exists>waits. w = ForHistory (pg_historyRequest p) (snd (shown (settle_flight w a p))) waits)
      \<and> selected_id (settle_flight w a p) = Some (snd (shown (settle_flight w a p)))
      \<and> fst (shown (settle_flight w a p)) = history_entries a \<and> truthy (history_entries a)
      \<and> pg_historyRequest (settle_flight w a p) = pg_historyRequest p"
proof (cases w)
  case (ForStatus waits)
  have f: "cleared p (q\<lparr>pg_importing := b\<rparr>)" if "cleared p q" for q b using that by (simp add: cleared_def shown_def)
  show ?thesis by (auto simp: ForStatus settle_flight_def settle_status_def Let_def cleared_apply cleared_refl f split: option.split page_answer.split)
next
  case (ForHistory r c waits)
  have "selected_id (settle_history r c waits a p) = selected_id p" by (rule same_selected) (simp_all add: settle_history_def Let_def)
  then show ?thesis by (simp add: ForHistory settle_flight_def) (simp add: settle_history_def Let_def cleared_def shown_def)
qed (auto simp: settle_flight_def settle_send_def settle_export_def settle_validation_def settle_import_def settle_file_def resetImportPreparation_def
      Let_def cleared_def split: option.split sum.split page_answer.split intro!: disjI1, (simp_all add: shown_def)?)

text \<open>
  C38. The entries shown come only from the newest answer for the contact that is chosen: whenever a
  step changes them, either no contact is chosen any more and they are gone, or the step is the
  arrival of the newest history request, which asked for the contact that is chosen, and the entries
  are those of the answer; a late answer for another contact, or an older one, changes nothing.
\<close>

theorem history_is_the_chosen_contacts:
  assumes "page_run p" "enabled e p" "shown (page_step e p) \<noteq> shown p"
  shows "pg_selected (page_step e p) = None \<and> pg_history (page_step e p) = JArr []
    \<or> (\<exists>i a c waits. e = Arrived i a \<and> selected_id (page_step e p) = Some c
        \<and> pg_flights p ! i = (ForHistory (pg_historyRequest p) c waits, Get (''/api/history?with='' @ encodeURIComponent c))
        \<and> pg_history (page_step e p) = history_entries a)"
proof -
  have "cleared p (page_step e p) \<or> (\<exists>i a. e = Arrived i a)"
    by (cases e)
       (auto simp: cleared_apply cleared_refl handleSend_def handleConfirmImport_def handleValidateImport_def chose_def reload_history_def handleExportCard_def
        closeExportModal_def closeImportModal_def handleImportTextChange_def handleImportFile_def resetImportPreparation_def Let_def
        split: option.split sum.split intro!: cleared_fields, (simp_all add: shown_def)?)
  then show ?thesis
  proof
    assume "cleared p (page_step e p)"
    with assms(3) have "pg_selected (page_step e p) = None \<and> pg_history (page_step e p) = JArr []" by (auto simp: cleared_def shown_def)
    then show ?thesis ..
  next
    assume "\<exists>i a. e = Arrived i a"
    then obtain i a where e: "e = Arrived i a" by blast
    obtain w rq where x: "pg_flights p ! i = (w, rq)" by fastforce
    let ?q = "p\<lparr>pg_flights := take i (pg_flights p) @ drop (Suc i) (pg_flights p), pg_log := pg_log p @ [Answered w rq a]\<rparr>"
    have p': "page_step e p = settle_flight w a ?q" by (simp add: e arrived_def x)
    have q: "shown ?q = shown p" "pg_historyRequest ?q = pg_historyRequest p" by (simp_all add: shown_def)
    have "asks w rq" using page_asks [OF assms(1)] assms(2) x by (auto simp: e all_ask_def list_all_iff in_set_conv_nth)
    define r c where "r = page_step e p" and "c = pg_owner r"
    from settled_shown [of ?q w a] q consider "cleared ?q r" | waits where "w = ForHistory (pg_historyRequest p) c waits"
        "selected_id r = Some c" "pg_history r = history_entries a"
      unfolding p' [folded r_def, symmetric] c_def by (auto simp: shown_def)
    then show ?thesis
    proof cases
      case 1
      with assms(3) q have "pg_selected r = None \<and> pg_history r = JArr []" by (auto simp: cleared_def shown_def r_def)
      then show ?thesis by (simp add: r_def)
    next
      case 2
      with \<open>asks w rq\<close> have "rq = Get (''/api/history?with='' @ encodeURIComponent c)" by simp
      with 2 x e show ?thesis unfolding r_def by blast
    qed
  qed
qed

text \<open>
  Until the newest answer comes, and for good when it is a refusal, what is shown is the history of the
  contact chosen before: choosing another contact does not clear it.
\<close>

definition two_contacts :: json where
  "two_contacts = JObj [(''profile'', JObj [(''contacts'', JArr
     [JObj [(''identity_id'', JStr ''a''), (''device_id'', JStr ''d'')], JObj [(''identity_id'', JStr ''b''), (''device_id'', JStr ''d'')]])])]"

definition one_entry :: json where
  "one_entry = JObj [(''ok'', JBool True), (''data'', JObj [(''entries'', JArr [JStr ''x''])])]"

definition first_page :: page where
  "first_page = page_step (Arrived 0 (Replied 200 (stringify two_contacts))) (loadStatus False new_page)"

definition other_page :: page where
  "other_page = page_step (Arrived 0 Failed) (page_step (ChoseContact 1)
     (page_step (Arrived 0 (Replied 200 (stringify one_entry))) first_page))"

definition named :: "string \<Rightarrow> page_contact" where
  "named i = \<lparr>pc_identity_id = i, pc_device_id = ''d'', pc_device_pubkey = None, pc_signal_identity_key = None, pc_name = None\<rparr>"

definition asks_history :: "nat \<Rightarrow> string \<Rightarrow> purpose \<times> page_request" where
  "asks_history n i = (ForHistory n i False, Get (''/api/history?with='' @ encodeURIComponent i))"

lemma first_page_state:
  "page_run first_page" "pg_flights first_page = [asks_history 1 ''a'']" "pg_selected first_page = Some 0"
  "pg_contacts first_page = [named ''a'', named ''b'']" "pg_historyRequest first_page = 1" "pg_history first_page = JArr []"
proof -
  have "wf_json two_contacts" by (simp add: two_contacts_def)
  then have p: "parse_json (stringify two_contacts) = Some two_contacts" by (rule parse_stringify)
  have v: "applyStatus two_contacts q = loadHistory ''a'' False (q\<lparr>pg_relayUrl := [], pg_pingMs := JNull, pg_relay := ConnectionUnknown,
      pg_profileState := VerificationUnknown, pg_reach := ReachabilityUnknown, pg_contacts := [named ''a'', named ''b''], pg_selected := Some 0\<rparr>)"
    if "selected_id q = None" for q
    using that by (simp add: applyStatus_def parseStationStatus_def two_contacts_def mapContacts_def page_contact_of_def List.map_filter_simps text_of_def
        next_selected_def connectionState_def profileState_def reachabilityState_def named_def)
  show "pg_flights first_page = [asks_history 1 ''a'']" "pg_selected first_page = Some 0" "pg_contacts first_page = [named ''a'', named ''b'']"
    "pg_historyRequest first_page = 1" "pg_history first_page = JArr []"
    by (simp_all add: first_page_def arrived_def loadStatus_def launch_def settle_flight_def settle_status_def p v selected_id_def loadHistory_def Let_def
        new_page_def asks_history_def del: stringify.simps)
  show "page_run first_page" unfolding first_page_def by (rule stepped [OF opened]) (simp add: loadStatus_def launch_def)
qed

lemma one_entry_read: "history_entries (Replied 200 (stringify one_entry)) = JArr [JStr ''x'']"
proof -
  have "wf_json one_entry" by (simp add: one_entry_def)
  then have "parse_json (stringify one_entry) = Some one_entry" by (rule parse_stringify)
  then show ?thesis by (simp add: history_entries_def del: stringify.simps) (simp add: one_entry_def)
qed

lemma history_of_another_contact:
  "page_run other_page \<and> selected_id other_page = Some ''b'' \<and> pg_owner other_page = ''a''
    \<and> pg_history other_page = JArr [JStr ''x''] \<and> pg_flights other_page = []"
proof -
  note 1 = first_page_state
  define p2 p3 where "p2 = page_step (Arrived 0 (Replied 200 (stringify one_entry))) first_page" and "p3 = page_step (ChoseContact 1) p2"
  have 2: "pg_flights p2 = []" "pg_selected p2 = Some 0" "pg_contacts p2 = [named ''a'', named ''b'']" "pg_historyRequest p2 = 1"
      "pg_owner p2 = ''a''" "pg_history p2 = JArr [JStr ''x'']"
    by (simp_all add: p2_def arrived_def 1 settle_flight_def settle_history_def Let_def one_entry_read selected_id_def named_def asks_history_def del: stringify.simps)
  have 3: "pg_flights p3 = [asks_history 2 ''b'']" "pg_selected p3 = Some 1" "pg_contacts p3 = [named ''a'', named ''b'']"
      "pg_owner p3 = ''a''" "pg_history p3 = JArr [JStr ''x'']"
    by (simp_all add: p3_def chose_def 2 loadHistory_def Let_def launch_def asks_history_def) (simp_all add: named_def)
  have o: "other_page = page_step (Arrived 0 Failed) p3" by (simp only: other_page_def p2_def p3_def)
  have "page_run p2" unfolding p2_def by (rule stepped [OF 1(1)]) (simp add: 1)
  then have "page_run p3" unfolding p3_def by (rule stepped) (simp add: 2)
  then have "page_run other_page" unfolding o by (rule stepped) (simp add: 3)
  moreover have "selected_id other_page = Some ''b''" "pg_owner other_page = ''a''" "pg_history other_page = JArr [JStr ''x'']" "pg_flights other_page = []"
    by (simp_all add: o arrived_def 3 settle_flight_def settle_history_def history_entries_def selected_id_def Let_def asks_history_def named_def)
  ultimately show ?thesis by blast
qed

subsection \<open>One thing at a time\<close>

fun sends :: "purpose \<Rightarrow> bool" where
  "sends (ForSend c) = True"
| "sends (ForHistory r c waits) = waits"
| "sends w = False"

fun trusts :: "purpose \<Rightarrow> bool" where
  "trusts ForImport = True"
| "trusts (ForStatus waits) = waits"
| "trusts w = False"

definition under_way :: "(purpose \<Rightarrow> bool) \<Rightarrow> page \<Rightarrow> nat" where
  "under_way f p = length (filter (\<lambda>x. f (fst x)) (pg_flights p))"

lemma under_way_launch [simp]: "under_way f (launch w rq p) = under_way f p + of_bool (f w)"
  by (simp add: under_way_def launch_def)

lemma under_way_fields [simp]:
  "under_way f (p\<lparr>pg_importing := b\<rparr>) = under_way f p" "under_way f (p\<lparr>pg_sending := b\<rparr>) = under_way f p"
  "under_way f (p\<lparr>pg_alerts := l\<rparr>) = under_way f p" "under_way f (p\<lparr>pg_historyRequest := n\<rparr>) = under_way f p"
  "under_way f (p\<lparr>pg_history := v\<rparr>) = under_way f p" "under_way f (p\<lparr>pg_owner := t\<rparr>) = under_way f p"
  "under_way f (p\<lparr>pg_importError := e\<rparr>) = under_way f p" "under_way f (p\<lparr>pg_importText := t\<rparr>) = under_way f p"
  "under_way f (p\<lparr>pg_generation := n\<rparr>) = under_way f p" "under_way f (p\<lparr>pg_showImport := b\<rparr>) = under_way f p"
  "under_way f (p\<lparr>pg_validating := b\<rparr>) = under_way f p" "under_way f (p\<lparr>pg_preview := c\<rparr>) = under_way f p"
  "under_way f (p\<lparr>pg_validated := d\<rparr>) = under_way f p" "under_way f (p\<lparr>pg_exportError := e\<rparr>) = under_way f p"
  "under_way f (p\<lparr>pg_exportLoading := b\<rparr>) = under_way f p" "under_way f (p\<lparr>pg_exportText := t\<rparr>) = under_way f p"
  "under_way f (p\<lparr>pg_input := t\<rparr>) = under_way f p" "under_way f (p\<lparr>pg_selected := i\<rparr>) = under_way f p"
  "under_way f (p\<lparr>pg_showExport := b\<rparr>) = under_way f p" "under_way f (p\<lparr>pg_exportRequest := n\<rparr>) = under_way f p"
  "under_way f (p\<lparr>pg_copied := cb\<rparr>) = under_way f p" "under_way f (p\<lparr>pg_local := lo\<rparr>) = under_way f p"
  "under_way f (p\<lparr>pg_telemetry := vs\<rparr>) = under_way f p" "under_way f (p\<lparr>pg_pingMs := v\<rparr>) = under_way f p"
  by (simp_all add: under_way_def)

lemma launch_flags [simp]:
  "pg_sending (launch w rq p) = pg_sending p" "pg_importing (launch w rq p) = pg_importing p"
  by (simp_all add: launch_def)

definition single :: "page \<Rightarrow> bool" where
  "single p \<longleftrightarrow> under_way sends p = of_bool (pg_sending p) \<and> under_way trusts p = of_bool (pg_importing p)"

definition same_flags :: "page \<Rightarrow> page \<Rightarrow> bool" where
  "same_flags p q \<longleftrightarrow> under_way sends q = under_way sends p \<and> under_way trusts q = under_way trusts p
     \<and> pg_sending q = pg_sending p \<and> pg_importing q = pg_importing p"

lemma flags_apply: "same_flags p (applyStatus v p)"
  by (auto simp: applyStatus_def Let_def loadHistory_def same_flags_def split: option.split) (simp_all add: under_way_def)

lemma settle_single:
  assumes "under_way sends q + of_bool (sends w) = of_bool (pg_sending q)" "under_way trusts q + of_bool (trusts w) = of_bool (pg_importing q)"
  shows "single (settle_flight w a q)"
proof (cases w)
  case (ForStatus waits)
  have "same_flags q (case a of Failed \<Rightarrow> q | Replied code body \<Rightarrow> (case parse_json body of None \<Rightarrow> q | Some v \<Rightarrow> applyStatus v q))"
    using flags_apply by (auto simp: same_flags_def split: option.split page_answer.split)
  then show ?thesis using assms ForStatus
    by (auto simp: settle_flight_def settle_status_def Let_def same_flags_def single_def split: if_splits)
next
  case (ForHistory r c waits)
  then show ?thesis using assms
    by (auto simp: settle_flight_def settle_history_def Let_def single_def split: if_splits)
next
  case (ForSend c)
  then show ?thesis using assms
    by (cases "pg_sending q") (auto simp: settle_flight_def settle_send_def Let_def single_def loadHistory_def split: option.split page_answer.split if_splits)
next
  case ForImport
  then show ?thesis using assms
    by (cases "pg_importing q") (auto simp: settle_flight_def settle_import_def Let_def single_def loadStatus_def resetImportPreparation_def split: option.split page_answer.split if_splits)
qed (use assms in \<open>auto simp: settle_flight_def settle_export_def settle_validation_def settle_file_def single_def
       split: option.split sum.split page_answer.split\<close>)

text \<open>
  C40. One thing at a time: however the answers interleave, at most one message is being sent - its
  request or the history that is read after it - and at most one card imported, exactly while the
  page says so; so no request to send or to import is made while another is under way.
\<close>

theorem one_send_one_import:
  assumes "page_run p"
  shows "under_way sends p = of_bool (pg_sending p) \<and> under_way trusts p = of_bool (pg_importing p)"
proof -
  have "single p" using assms
  proof (induction rule: page_run.induct)
    case opened
    show ?case by (simp add: single_def loadStatus_def) (simp add: new_page_def under_way_def)
  next
    case (stepped p e)
    note s = stepped.IH [unfolded single_def]
    show ?case
    proof (cases e)
      case (Arrived i a)
      obtain w rq where x: "pg_flights p ! i = (w, rq)" by fastforce
      let ?q = "p\<lparr>pg_flights := take i (pg_flights p) @ drop (Suc i) (pg_flights p), pg_log := pg_log p @ [Answered w rq a]\<rparr>"
      have fl: "pg_flights p = take i (pg_flights p) @ (w, rq) # drop (Suc i) (pg_flights p)"
        using id_take_nth_drop [of i "pg_flights p"] stepped(2) x by (simp add: Arrived)
      have "under_way f p = length (filter (\<lambda>x. f (fst x)) (take i (pg_flights p) @ (w, rq) # drop (Suc i) (pg_flights p)))" for f
        using fl by (simp add: under_way_def)
      then have "under_way f ?q + of_bool (f w) = under_way f p" for f by (simp add: under_way_def)
      then have "single (settle_flight w a ?q)" using s by (intro settle_single) simp_all
      then show ?thesis by (simp add: Arrived arrived_def x)
    next
      case (PushedStatus t)
      then show ?thesis using s flags_apply [of p] by (auto simp: single_def same_flags_def split: option.split)
    qed (use s stepped(2) in \<open>auto simp: single_def handleSend_def chose_def reload_history_def loadStatus_def loadHistory_def handleExportCard_def
         closeExportModal_def closeImportModal_def handleImportTextChange_def handleImportFile_def handleValidateImport_def handleConfirmImport_def
         resetImportPreparation_def Let_def split: option.split sum.split\<close>)
  qed
  then show ?thesis by (simp add: single_def)
qed

subsection \<open>The page and its station\<close>

text \<open>
  A POST of JSON the station lets in, whose body arrives in any pieces of which none ends within a
  character; a text of seven-bit characters may be cut anywhere.
\<close>

definition posted :: "station_env \<Rightarrow> string \<Rightarrow> string \<Rightarrow> http_request \<Rightarrow> bool" where
  "posted E path body rq \<longleftrightarrow> rq_method rq = ''POST'' \<and> rq_url rq = Some (path, None) \<and> rq_failed rq = None
     \<and> checkHost (rq_headers rq) (port_text (sc_port (se_config E))) = None
     \<and> checkApiRequest ''POST'' (rq_headers rq) (port_text (sc_port (se_config E))) = None
     \<and> (list_all (\<lambda>c. (of_char c :: nat) < 128) body \<or> list_all valid_utf8 (rq_chunks rq))
     \<and> concat (rq_chunks rq) = body \<and> sum_list (map length (rq_chunks rq)) \<le> MAX_JSON_BODY_BYTES"

lemma posted_body:
  assumes "posted E path (stringify (JObj kvs)) rq" "wf_json (JObj kvs)"
  shows "readBody rq = Inr kvs"
proof -
  have "list_all valid_utf8 cs" if "list_all (\<lambda>c. (of_char c :: nat) < 128) (concat cs)" for cs
    using that by (auto simp: list_all_iff intro!: valid_utf8_ascii)
  then have "list_all valid_utf8 (rq_chunks rq)" using assms(1) unfolding posted_def by metis
  then show ?thesis using body_round_trip [of rq kvs rq] assms by (simp add: posted_def del: stringify.simps)
qed

lemma posted_route:
  assumes "posted E path body rq"
  shows "path = ''/api/send'' \<Longrightarrow> handle_request E rq st = api_send E rq st"
    "path = ''/api/contacts/validate'' \<Longrightarrow> handle_request E rq st = api_validate E rq st"
    "path = ''/api/contacts/import'' \<Longrightarrow> handle_request E rq st = api_import E rq st"
  using assms by (simp_all add: posted_def handle_request_def Let_def)

lemma read_card_wf: "parseContactCard t = Inr (sheet, preview) \<Longrightarrow> wf_json sheet"
  by (auto simp: parseContactCard_def Let_def dest: parse_json_wf split: if_splits option.splits)

text \<open>What the page shows of a card is what the station reads in it.\<close>

lemma page_and_station_agree:
  assumes "parseContactCard t = Inr (sheet, preview)"
  shows "parseContactCardJson sheet
    = Inr \<lparr>cs_card = sheet, cs_identityId = cp_identityId preview, cs_deviceId = cp_deviceId preview\<rparr>"
proof -
  from assms obtain kvs wire device where c: "sheet = JObj kvs" "jprop sheet ''signal_bundle'' = JObj wire" "jprop (JObj wire) ''device_record'' = JObj device"
      "jprop sheet ''type'' = JStr ''echolet_contact_card''" "jprop sheet ''version'' = JNum 1"
      "hasString (JObj device) ''identity_id''" "hasString (JObj device) ''device_id''"
      "preview = \<lparr>cp_identityId = str_prop (JObj device) ''identity_id'', cp_deviceId = str_prop (JObj device) ''device_id''\<rparr>"
    unfolding parseContactCard_def Let_def
    by (auto simp del: jprop.simps split: if_splits option.splits elim!: isRecord.elims)
  then show ?thesis
    by (auto simp: read_card_def Let_def member_def hasString_def str_prop_def invalid_card_def simp del: jprop.simps split: json.splits)
qed

lemma import_calls_of:
  assumes "posted E ''/api/contacts/import'' (import_body sheet) rq" "wf_json sheet"
  shows "st_calls (snd (handle_request E rq st))
    = st_calls st @ List.map_filter ran_command (snd (importContactCardJson (se_cards E) sheet))
        @ (case fst (importContactCardJson (se_cards E) sheet) of Inl f \<Rightarrow> [] | Inr c \<Rightarrow> [CallDoctor])"
proof -
  have w: "wf_json (JObj [(''cardJson'', sheet), (''confirmed'', JBool True)])" using assms(2) by simp
  have b: "readBody rq = Inr [(''cardJson'', sheet), (''confirmed'', JBool True)]"
    by (rule posted_body [OF _ w]) (use assms(1) in \<open>simp add: import_body_def del: stringify.simps\<close>)
  obtain r acts where i: "importContactCardJson (se_cards E) sheet = (r, acts)" by fastforce
  have "st_calls (snd (api_import E rq st)) = st_calls st @ List.map_filter ran_command acts @ (case r of Inl f \<Rightarrow> [] | Inr c \<Rightarrow> [CallDoctor])"
  proof (cases r)
    case (Inl f)
    then show ?thesis by (simp add: api_import_def b i Let_def ran_cards_def)
  next
    case (Inr c)
    let ?st = "logTelemetry E ''success'' ''Contact trusted & added to secure address book''
        (ran_cards acts (logTelemetry E ''crypto'' ''Verifying contact card cryptographic signatures...'' st))"
    obtain fine st3 where f: "refreshProfile E ?st = (fine, st3)" by fastforce
    have "st_calls st3 = st_calls ?st @ [CallDoctor]" using refresh_calls(1) [of E ?st] by (simp only: f snd_conv)
    then have "st_calls st3 = st_calls st @ List.map_filter ran_command acts @ [CallDoctor]" by (simp add: ran_cards_def)
    with Inr f show ?thesis by (simp add: api_import_def b i Let_def)
  qed
  then have "st_calls (snd (handle_request E rq st)) = st_calls st @ List.map_filter ran_command acts @ (case r of Inl f \<Rightarrow> [] | Inr c \<Rightarrow> [CallDoctor])"
    using posted_route(3) [OF assms(1) refl] by simp
  then show ?thesis using i by simp
qed

lemma import_acts:
  assumes "parseContactCardJson sheet = Inr \<lparr>cs_card = sheet, cs_identityId = i, cs_deviceId = d\<rparr>"
  obtains (nothing) "List.map_filter ran_command (snd (importContactCardJson io sheet)) = []" "\<exists>f. fst (importContactCardJson io sheet) = Inl f"
  | (imported) directory path where "snd (importContactCardJson io sheet)
      = [MadeDirectory directory, WroteFile path (stringify sheet), RanCommand (CallImport path), RemovedDirectory directory]"
proof (cases "ci_mkdtemp io ''echolet-web-import-''")
  case None
  show thesis
    by (rule nothing) (use assms None in \<open>simp_all add: importContactCardJson_def over_card_file_def List.map_filter_simps ioFailure_def\<close>)
next
  case (Some directory)
  show thesis
  proof (cases "ci_write io (card_path directory) (stringify sheet)")
    case True
    show thesis by (rule imported) (use assms Some True in \<open>simp add: importContactCardJson_def over_card_file_def Let_def\<close>)
  next
    case False
    show thesis
      by (rule nothing) (use assms Some False in \<open>simp_all add: importContactCardJson_def over_card_file_def Let_def List.map_filter_simps ioFailure_def\<close>)
  qed
qed

text \<open>
  C37. From the page to the command line: when the station receives an import the page asked for, in
  any pieces of which none ends within a character, it runs nothing, or one import of a file and then at
  most a refresh; and it ran the import between writing and removing the file, which held exactly the
  card whose validation the station granted to the page before; what the station reads in the card is
  the identity and device the page shows of it. (A character that is cut between two pieces is lost on
  the way, as \<open>cut_character_lost\<close> in \<open>Station\<close> shows.)
\<close>

theorem imported_card_is_the_validated_one:
  assumes "page_run p" "pg_log p = before @ Asked ForImport (Post url body) # after" "posted E url body rq"
  shows "\<exists>sheet preview cmds path directory. vouched before sheet
    \<and> parseContactCardJson sheet = Inr \<lparr>cs_card = sheet, cs_identityId = cp_identityId preview, cs_deviceId = cp_deviceId preview\<rparr>
    \<and> (\<exists>t. parseContactCard t = Inr (sheet, preview))
    \<and> st_calls (snd (handle_request E rq st)) = st_calls st @ cmds
    \<and> cmds \<in> {[], [CallImport path], [CallImport path, CallDoctor]}
    \<and> (cmds \<noteq> [] \<longrightarrow> snd (importContactCardJson (se_cards E) sheet)
        = [MadeDirectory directory, WroteFile path (stringify sheet), RanCommand (CallImport path), RemovedDirectory directory])"
proof -
  from asked_import_vouched [OF sound_log [OF page_import_sound [OF assms(1)]] assms(2)] obtain sheet t preview where
    s: "url = ''/api/contacts/import''" "body = import_body sheet" "vouched before sheet" "parseContactCard t = Inr (sheet, preview)" by auto
  note a = page_and_station_agree [OF s(4)]
  let ?r = "importContactCardJson (se_cards E) sheet"
  define cmds where "cmds = List.map_filter ran_command (snd ?r) @ (case fst ?r of Inl f \<Rightarrow> [] | Inr c \<Rightarrow> [CallDoctor])"
  have c: "st_calls (snd (handle_request E rq st)) = st_calls st @ cmds"
    unfolding cmds_def by (rule import_calls_of) (use assms(3) s(1,2) read_card_wf [OF s(4)] in simp_all)
  from a have "cmds = [] \<or> (\<exists>directory path. cmds \<in> {[CallImport path], [CallImport path, CallDoctor]} \<and> snd ?r
      = [MadeDirectory directory, WroteFile path (stringify sheet), RanCommand (CallImport path), RemovedDirectory directory])"
  proof (cases rule: import_acts [of sheet _ _ "se_cards E"])
    case nothing
    then show ?thesis by (auto simp: cmds_def)
  next
    case (imported directory path)
    then have "cmds \<in> {[CallImport path], [CallImport path, CallDoctor]}" by (auto simp: cmds_def List.map_filter_simps split: sum.split)
    with imported show ?thesis by blast
  qed
  with s(3,4) a c show ?thesis by blast
qed

text \<open>
  What is typed is what is sent: the message the operator submits is encrypted by the command line
  for the contact that is chosen, with exactly the text that was typed, once.
\<close>

theorem typed_message_reaches_the_command:
  assumes "selected_id p = Some c" "c \<noteq> []" "trim (pg_input p) \<noteq> []" "\<not> pg_sending p"
    "posted E ''/api/send'' body rq" "pg_log (page_step Submitted p) = pg_log p @ [Asked (ForSend c) (Post ''/api/send'' body)]"
  shows "st_calls (snd (handle_request E rq st)) = st_calls st @ [CallSend c (pg_input p)]
    \<and> pg_sending (page_step Submitted p) \<and> page_step Submitted (page_step Submitted p) = page_step Submitted p"
proof -
  have "body = send_body c (pg_input p)" using assms(1,3,4,6) by (simp add: handleSend_def launch_def)
  then have b: "readBody rq = Inr [(''to'', JStr c), (''text'', JStr (pg_input p))]"
    using assms(5) by (intro posted_body) (simp_all add: send_body_def del: stringify.simps)
  have "trim [] = []" by (simp add: trim_def trim_start.simps [of "[]"] trim_end.simps [of "[]"] white_sequences_def)
  then have "pg_input p \<noteq> []" using assms(3) by auto
  then have "st_calls (snd (api_send E rq st)) = st_calls st @ [CallSend c (pg_input p)]"
    using assms(2) by (simp add: api_send_def b Let_def str_prop_def split: sum.split)
  moreover have "pg_sending (page_step Submitted p)" using assms(1,3,4) by (simp add: handleSend_def launch_def)
  then have "page_step Submitted (page_step Submitted p) = page_step Submitted p" by (simp add: handleSend_def [of "handleSend p"] split: option.split)
  ultimately show ?thesis using posted_route(1) [OF assms(5) refl] \<open>pg_sending (page_step Submitted p)\<close> by simp
qed

text \<open>
  The page shows what the station knows: from the station's own payload it reads the label, the
  relay's address, the states and the time exactly as the station holds them.
\<close>

theorem status_is_shown_as_known:
  shows "parseStationStatus (statusPayload E st) = Some \<lparr>sv_label = Some (sc_label (se_config E)),
    sv_profile = (case ss_profile (st_status st) of Some (JObj kvs) \<Rightarrow> Some (JObj kvs) | _ \<Rightarrow> None), sv_profileState = ss_profileState (st_status st),
    sv_relay = ss_relay (st_status st), sv_reach = ss_reach (st_status st), sv_relayUrl = sc_relayUrl (se_config E),
    sv_pingMs = ss_pingMs (st_status st), sv_telemetry = None\<rparr>"
proof -
  have "connectionState (JStr (connection_name c)) = c" for c by (cases c) (simp_all add: connectionState_def)
  moreover have "profileState (JStr (verification_name v)) = v" for v by (cases v) (simp_all add: profileState_def)
  moreover have "reachabilityState (JStr (reachability_name r)) = r" for r by (cases r) (simp_all add: reachabilityState_def)
  ultimately show ?thesis
    by (simp add: statusPayload_def createStatusPayload_def parseStationStatus_def split: option.split json.split)
qed

lemma trim_object: "trim (stringify (JObj kvs)) = stringify (JObj kvs)"
proof -
  let ?s = "stringify (JObj kvs)"
  have s: "?s \<noteq> []" "hd ?s = CHR ''{''" "last ?s = CHR ''}''" by simp_all
  have w: "w \<noteq> [] \<and> hd w \<noteq> CHR ''{'' \<and> last w \<noteq> CHR ''}''" if "w \<in> set white_sequences" for w
    using that by (auto simp: white_sequences_def)
  have "\<not> prefix w ?s" "\<not> suffix w ?s" if "w \<in> set white_sequences" for w
    using w [OF that] s by (auto simp: prefix_def suffix_def hd_append last_append simp del: stringify.simps)
  then have "find (\<lambda>w. prefix w ?s) white_sequences = None" "find (\<lambda>w. suffix w ?s) white_sequences = None"
    by (simp_all add: find_None_iff)
  then show ?thesis by (simp add: trim_def trim_start.simps [of ?s] trim_end.simps [of ?s] del: stringify.simps)
qed

lemma card_fields:
  assumes "zparse (SObject True fs) x = Some w" "distinct (map fst fs)"
  shows "isRecord x \<and> list_all (\<lambda>f. fst (snd f) \<or> zparse (snd (snd f)) (jprop x (fst f)) = Some (jprop w (fst f))) fs"
proof -
  from assms(1) have "isRecord x" by (cases x) simp_all
  moreover have "fst (snd f) \<or> zparse (snd (snd f)) (jprop x (fst f)) = Some (jprop w (fst f))" if "f \<in> set fs" for f
  proof (cases "fst (snd f)")
    case False
    with that have "(fst f, False, snd (snd f)) \<in> set fs" by (metis (full_types) prod.collapse)
    from object_required [OF assms this] show ?thesis by blast
  qed simp
  ultimately show ?thesis by (simp add: list_all_iff)
qed

lemma text_field:
  assumes "zparse (SString P) (jprop x k) = Some w" "\<And>s. P s \<Longrightarrow> s \<noteq> []"
  shows "hasString x k" "w = JStr (str_prop x k)"
proof -
  from assms(1) obtain s where "jprop x k = JStr s" "w = JStr s" "P s" by (auto simp: zparse_SString simp del: zparse.simps)
  with assms(2) [of s] show "hasString x k" "w = JStr (str_prop x k)" by (simp_all add: hasString_def str_prop_def)
qed

lemma no_empty_texts: "encodedBytes n b s \<Longrightarrow> s \<noteq> []" "is_lower_uuid s \<Longrightarrow> s \<noteq> []"
  by (simp_all add: encodedBytes_def is_lower_uuid_def)

lemma device_texts:
  assumes "zparse signedDevice d = Some d'"
  shows "isRecord d \<and> hasString d ''identity_id'' \<and> hasString d ''device_id''"
proof -
  note f = card_fields [OF assms [unfolded signedDevice_fields] distinct_fields(1)]
  have "zparse identity_string (jprop d ''identity_id'') = Some (jprop d' ''identity_id'')"
    "zparse lower_uuid (jprop d ''device_id'') = Some (jprop d' ''device_id'')"
    using f by (simp_all add: device_fields_def del: zparse.simps)
  then have "hasString d ''identity_id''" "hasString d ''device_id''"
    unfolding identity_string_def lower_uuid_def by (auto intro: text_field(1) dest: no_empty_texts)
  with f show ?thesis by simp
qed

lemma accepted_is_known:
  assumes "accepted_bundle b w" "jprop w ''one_time_prekey'' \<noteq> JNull"
  shows "isRecord b \<and> known_bundle b \<and> jprop b ''device_record'' = jprop w ''device_record''
    \<and> (\<exists>d'. zparse signedDevice (jprop b ''device_record'') = Some d')"
proof -
  note f = card_fields [OF accepted_object [OF assms(1)] distinct_fields(3)]
  have r: "isRecord x" if "zparse (SObject st fs) x = Some y" for st fs x y using that by (cases x) simp_all
  have d: "zparse originalSignedDevice (jprop b ''device_record'') = Some (jprop w ''device_record'')"
    using f by (simp add: bundle_v2_fields_def del: zparse.simps)
  then have d': "jprop b ''device_record'' = jprop w ''device_record''"
    "\<exists>d'. zparse signedDevice (jprop b ''device_record'') = Some d'"
    by (auto simp: originalSignedDevice_def accepts_def split: if_splits)
  have k: "isRecord (jprop b ''signed_prekey'')" "isRecord (jprop b ''kyber_prekey'')"
    using f by (auto simp: bundle_v2_fields_def intro: r simp del: zparse.simps)
  have "zparse (SNullable (SObject True otk_fields)) (jprop b ''one_time_prekey'') = Some (jprop w ''one_time_prekey'')"
    using f by (simp add: bundle_v2_fields_def otk_fields_def del: zparse.simps)
  then have o': "isRecord (jprop b ''one_time_prekey'')"
    using assms(2) r by (auto simp only: zparse.simps(7) option.inject split: if_splits)
  have s: "hasString b ''bundle_id''" "hasString b ''signal_identity_key''" "hasString b ''signature''"
    using f by (auto simp: bundle_v2_fields_def lower_uuid_def ecKey_def signature_string_def simp del: zparse.simps
        elim!: text_field(1) dest: no_empty_texts)
  have "jprop b ''type'' = JStr ''signal_prekey_bundle''" "jprop b ''version'' = JNum 2" "jprop b ''suite'' = JStr ''libsignal-pq-v1''"
    using f by (auto simp: bundle_v2_fields_def literal_text_def literal_number_def zparse_SLiteral simp del: zparse.simps)
  with f k o' s d' device_texts show ?thesis by (auto simp: known_bundle_def hasRecord_def)
qed

lemma importable_is_supported:
  assumes "zparse cardSchema sheet = Some v"
  shows "isRecord sheet \<and> jprop sheet ''type'' = JStr ''echolet_contact_card'' \<and> jprop sheet ''version'' = JNum 1
    \<and> isRecord (jprop sheet ''signal_bundle'') \<and> known_bundle (jprop sheet ''signal_bundle'')
    \<and> jprop (jprop sheet ''signal_bundle'') ''device_record'' = jprop (jprop v ''signal_bundle'') ''device_record''
    \<and> (\<exists>d'. zparse signedDevice (jprop (jprop sheet ''signal_bundle'') ''device_record'') = Some d')"
proof -
  note f = card_fields [OF assms [unfolded cardSchema_def], simplified]
  have "zparse (SRefine SignalPreKeyBundleV2Schema (\<lambda>b. jprop b ''one_time_prekey'' \<noteq> JNull)) (jprop sheet ''signal_bundle'')
      = Some (jprop v ''signal_bundle'')"
    using card_fields [OF assms [unfolded cardSchema_def]] by (simp del: zparse.simps)
  then have "accepted_bundle (jprop sheet ''signal_bundle'') (jprop v ''signal_bundle'')" "jprop (jprop v ''signal_bundle'') ''one_time_prekey'' \<noteq> JNull"
    by (auto simp: accepted_bundle_def split: option.splits if_splits)
  with accepted_is_known have "isRecord (jprop sheet ''signal_bundle'') \<and> known_bundle (jprop sheet ''signal_bundle'')
    \<and> jprop (jprop sheet ''signal_bundle'') ''device_record'' = jprop (jprop v ''signal_bundle'') ''device_record''
    \<and> (\<exists>d'. zparse signedDevice (jprop (jprop sheet ''signal_bundle'') ''device_record'') = Some d')" by blast
  moreover have "jprop sheet ''type'' = JStr ''echolet_contact_card''" "jprop sheet ''version'' = JNum 1" "isRecord sheet"
    using card_fields [OF assms [unfolded cardSchema_def]]
    by (auto simp: literal_text_def literal_number_def zparse_SLiteral simp del: zparse.simps)
  ultimately show ?thesis by blast
qed

lemma importable_is_read:
  assumes "zparse cardSchema sheet = Some v" "wf_json sheet" "length (stringify sheet) \<le> MAX_CONTACT_CARD_BYTES"
  shows "parseContactCard (stringify sheet) = Inr (sheet,
      \<lparr>cp_identityId = str_prop (jprop (jprop v ''signal_bundle'') ''device_record'') ''identity_id'',
       cp_deviceId = str_prop (jprop (jprop v ''signal_bundle'') ''device_record'') ''device_id''\<rparr>)"
proof -
  note s = importable_is_supported [OF assms(1)]
  then obtain d' where "zparse signedDevice (jprop (jprop sheet ''signal_bundle'') ''device_record'') = Some d'" by blast
  note d = device_texts [OF this]
  obtain kvs where kvs: "sheet = JObj kvs" using s by (cases sheet) simp_all
  have "trim (stringify sheet) \<noteq> []" unfolding kvs trim_object by simp
  then show ?thesis
    using s d assms(3) by (simp add: parseContactCard_def parse_stringify [OF assms(2)] Let_def del: stringify.simps)
qed

text \<open>
  C39. No card that can be imported is refused by the page: every card the command line's own rules
  accept, written as JSON within the page's limit, is read by the page as that card, with the identity
  and the device the command line pins; so the page shows the operator's own exported card.
\<close>

theorem page_accepts_importable_cards:
  assumes "zparse cardSchema sheet = Some v" "wf_json sheet" "length (stringify sheet) \<le> MAX_CONTACT_CARD_BYTES"
  shows "parseContactCard (stringify sheet) = Inr (sheet,
      \<lparr>cp_identityId = str_prop (jprop (jprop v ''signal_bundle'') ''device_record'') ''identity_id'',
       cp_deviceId = str_prop (jprop (jprop v ''signal_bundle'') ''device_record'') ''device_id''\<rparr>)
    \<and> parseExportCardResponse 200 (stringify sheet) = Inr (stringify sheet)"
  using importable_is_read [OF assms] by (simp add: parseExportCardResponse_def fine_status_def)

subsection \<open>Examples\<close>

definition toy_bundle :: json where
  "toy_bundle = JObj
     [(''type'', JStr ''signal_prekey_bundle''), (''version'', JNum 2), (''suite'', JStr ''libsignal-pq-v1''),
      (''bundle_id'', JStr ''b''), (''device_record'', JObj [(''identity_id'', JStr ''i''), (''device_id'', JStr ''d'')]),
      (''signal_identity_key'', JStr ''k''), (''signed_prekey'', JObj []), (''kyber_prekey'', JObj []),
      (''one_time_prekey'', JObj []), (''signature'', JStr ''s'')]"

definition toy_sheet :: json where
  "toy_sheet = JObj [(''type'', JStr ''echolet_contact_card''), (''version'', JNum 1), (''signal_bundle'', toy_bundle)]"

definition toy_preview :: card_preview where
  "toy_preview = \<lparr>cp_identityId = ''i'', cp_deviceId = ''d''\<rparr>"

lemma quote_length: "length (quote s) \<le> 6 * length s + 2"
proof -
  have "length (concat (map escape_char s)) \<le> 6 * length s"
  proof (induction s)
    case (Cons c s)
    have "length (escape_char c) \<le> 6" by (simp add: escape_char_def Let_def)
    with Cons show ?case by simp
  qed simp
  then show ?thesis by (simp add: quote_def)
qed

lemma toy_wf: "wf_json toy_sheet"
  by (simp add: toy_sheet_def toy_bundle_def)

lemma toy_small: "length (import_body toy_sheet) \<le> 700" "list_all (\<lambda>c. (of_char c :: nat) < 128) (import_body toy_sheet)"
  by code_simp+

lemma toy_read: "parseContactCard (stringify toy_sheet) = Inr (toy_sheet, toy_preview)"
proof -
  have "length (stringify toy_sheet) \<le> length (import_body toy_sheet)" by (simp add: import_body_def)
  with toy_small(1) have "\<not> MAX_CONTACT_CARD_BYTES < length (stringify toy_sheet)" by (simp add: MAX_CONTACT_CARD_BYTES_def del: stringify.simps)
  moreover have "trim (stringify toy_sheet) \<noteq> []" unfolding toy_sheet_def trim_object by simp
  ultimately show ?thesis
    by (simp add: parseContactCard_def parse_stringify [OF toy_wf] Let_def del: stringify.simps)
       (simp add: toy_sheet_def toy_bundle_def toy_preview_def known_bundle_def hasRecord_def hasString_def str_prop_def)
qed

definition toy_answer :: page_answer where
  "toy_answer = Replied 200 (stringify (JObj [(''ok'', JBool True)]))"

lemma toy_granted: "granted toy_answer"
proof -
  have "parse_json (stringify (JObj [(''ok'', JBool True)])) = Some (JObj [(''ok'', JBool True)])" by (rule parse_stringify) simp
  then show ?thesis by (simp add: granted_def toy_answer_def fine_status_def del: stringify.simps)
qed

definition trusting_page :: page where
  "trusting_page = page_step PressedConfirm (page_step (Arrived 1 toy_answer) (page_step PressedValidate
     (page_step (EditedCard (stringify toy_sheet)) (page_step OpenedImport (loadStatus False new_page)))))"

lemma trusting_run:
  "page_run trusting_page
    \<and> pg_log trusting_page = [Asked (ForStatus False) (Get ''/api/status''),
        Asked (ForValidation 2 toy_sheet toy_preview) (Post ''/api/contacts/validate'' (validate_body toy_sheet)),
        Answered (ForValidation 2 toy_sheet toy_preview) (Post ''/api/contacts/validate'' (validate_body toy_sheet)) toy_answer]
        @ Asked ForImport (Post ''/api/contacts/import'' (import_body toy_sheet)) # []
    \<and> pg_validated trusting_page = Some toy_sheet"
proof -
  define p1 p2 p3 p4 where "p1 = page_step (EditedCard (stringify toy_sheet)) (page_step OpenedImport (loadStatus False new_page))"
    and "p2 = page_step PressedValidate p1" and "p3 = page_step (Arrived 1 toy_answer) p2" and "p4 = page_step PressedConfirm p3"
  have 1: "pg_importText p1 = stringify toy_sheet" "pg_contacts p1 = []" "pg_generation p1 = 1" "pg_showImport p1"
      "\<not> pg_validating p1" "\<not> pg_importing p1" "pg_flights p1 = [(ForStatus False, Get ''/api/status'')]"
      "pg_log p1 = [Asked (ForStatus False) (Get ''/api/status'')]"
    by (simp_all add: p1_def handleImportTextChange_def resetImportPreparation_def loadStatus_def launch_def new_page_def del: stringify.simps)
  have 2: "pg_importText p2 = stringify toy_sheet" "pg_generation p2 = 2" "pg_showImport p2" "\<not> pg_importing p2"
      "pg_flights p2 = [(ForStatus False, Get ''/api/status''),
         (ForValidation 2 toy_sheet toy_preview, Post ''/api/contacts/validate'' (validate_body toy_sheet))]"
      "pg_log p2 = pg_log p1 @ [Asked (ForValidation 2 toy_sheet toy_preview) (Post ''/api/contacts/validate'' (validate_body toy_sheet))]"
    by (simp_all add: p2_def handleValidateImport_def Let_def 1 toy_read isDuplicateContact_def launch_def del: stringify.simps)
  have 3: "pg_importText p3 = stringify toy_sheet" "pg_validated p3 = Some toy_sheet" "\<not> pg_importing p3" "pg_showImport p3" "\<not> pg_validating p3"
      "pg_log p3 = pg_log p2 @ [Answered (ForValidation 2 toy_sheet toy_preview) (Post ''/api/contacts/validate'' (validate_body toy_sheet)) toy_answer]"
    by (simp_all add: p3_def arrived_def 2 settle_flight_def settle_validation_def toy_granted del: stringify.simps)
  have 4: "pg_validated p4 = Some toy_sheet" "pg_log p4 = pg_log p3 @ [Asked ForImport (Post ''/api/contacts/import'' (import_body toy_sheet))]"
    by (simp_all add: p4_def handleConfirmImport_def 3 toy_read launch_def del: stringify.simps)
  have "page_run (page_step OpenedImport (loadStatus False new_page))" by (rule stepped [OF opened]) simp
  then have "page_run p1" unfolding p1_def by (rule stepped) (simp add: loadStatus_def launch_def new_page_def)
  then have "page_run p2" unfolding p2_def by (rule stepped) (simp add: 1)
  then have "page_run p3" unfolding p3_def by (rule stepped) (simp add: 2)
  then have "page_run p4" unfolding p4_def by (rule stepped) (simp add: 3)
  moreover have "trusting_page = p4" by (simp only: trusting_page_def p1_def p2_def p3_def p4_def)
  ultimately show ?thesis using 4 by (simp add: 1 2 3)
qed

theorem page_imports_what_was_validated_witness:
  "page_run trusting_page \<and> vouched (take 3 (pg_log trusting_page)) toy_sheet
   \<and> (\<exists>preview. pg_preview trusting_page = Some preview \<and> parseContactCard (pg_importText trusting_page) = Inr (toy_sheet, preview))"
proof -
  note r = page_imports_what_was_validated [OF conjunct1 [OF trusting_run]]
  from trusting_run obtain l where l: "pg_log trusting_page = l @ Asked ForImport (Post ''/api/contacts/import'' (import_body toy_sheet)) # []"
      "length l = 3" by (simp add: numeral_3_eq_3)
  from r l(1) obtain sheet where "import_body toy_sheet = import_body sheet" "vouched l sheet" "wf_json sheet"
    by (metis page_request.inject(2) read_card_wf)
  moreover from this have "sheet = toy_sheet"
    using parse_stringify [of "JObj [(''cardJson'', sheet), (''confirmed'', JBool True)]"]
      parse_stringify [of "JObj [(''cardJson'', toy_sheet), (''confirmed'', JBool True)]"] toy_wf
    by (simp add: import_body_def del: stringify.simps)
  moreover have "take 3 (pg_log trusting_page) = l" by (simp add: l)
  moreover obtain preview where "pg_preview trusting_page = Some preview" "parseContactCard (pg_importText trusting_page) = Inr (toy_sheet, preview)"
    using conjunct2 [OF r] trusting_run by blast
  ultimately show ?thesis using trusting_run by blast
qed

definition toy_import :: http_request where
  "toy_import = toy_publish\<lparr>rq_url := Some (''/api/contacts/import'', None), rq_chunks := [import_body toy_sheet]\<rparr>"

definition writing_env :: station_env where
  "writing_env = toy_station_env\<lparr>se_cards := \<lparr>ci_mkdtemp = \<lambda>_. Some ''/t'', ci_write = \<lambda>_ _. True, ci_read = \<lambda>_. None,
     ci_bridge = \<lambda>_. Inl ''no child''\<rparr>\<rparr>"

lemma toy_posted: "posted writing_env ''/api/contacts/import'' (import_body toy_sheet) toy_import"
proof -
  have "port_text (sc_port (se_config writing_env)) = ''3000''" using toy_port by (simp add: writing_env_def)
  moreover have "valid_utf8 (import_body toy_sheet)"
    using toy_small(2) by (intro valid_utf8_ascii) (simp add: list_all_iff)
  moreover have "length (import_body toy_sheet) \<le> MAX_JSON_BODY_BYTES" using toy_small(1) by (simp add: MAX_JSON_BODY_BYTES_def)
  moreover have "rq_headers toy_import = rq_headers toy_publish" "rq_method toy_import = ''POST''" "rq_failed toy_import = None"
    by (simp_all add: toy_import_def toy_publish_def)
  ultimately show ?thesis by (simp add: posted_def toy_admitted) (simp add: toy_import_def)
qed

theorem imported_card_is_the_validated_one_witness:
  "st_calls (snd (handle_request writing_env toy_import toy_station)) = [CallImport (card_path ''/t'')]
   \<and> (\<exists>sheet. vouched (pg_log trusting_page) sheet
        \<and> WroteFile (card_path ''/t'') (stringify sheet) \<in> set (snd (importContactCardJson (se_cards writing_env) sheet)))"
proof -
  have r: "snd (importContactCardJson (se_cards writing_env) toy_sheet)
      = [MadeDirectory ''/t'', WroteFile (card_path ''/t'') (stringify toy_sheet), RanCommand (CallImport (card_path ''/t'')), RemovedDirectory ''/t'']"
    "\<exists>f. fst (importContactCardJson (se_cards writing_env) toy_sheet) = Inl f"
    by (simp_all add: importContactCardJson_def page_and_station_agree [OF toy_read] over_card_file_def Let_def writing_env_def ioFailure_def del: stringify.simps)
  with import_calls_of [OF toy_posted toy_wf, of toy_station]
  have c: "st_calls (snd (handle_request writing_env toy_import toy_station)) = [CallImport (card_path ''/t'')]"
    by (auto simp: List.map_filter_simps toy_idle)
  from trusting_run obtain l where l: "pg_log trusting_page = l @ Asked ForImport (Post ''/api/contacts/import'' (import_body toy_sheet)) # []"
    by blast
  from imported_card_is_the_validated_one [OF conjunct1 [OF trusting_run] l toy_posted, of toy_station] c toy_idle
  obtain sheet path directory where "vouched l sheet" "path = card_path ''/t''"
      "snd (importContactCardJson (se_cards writing_env) sheet)
        = [MadeDirectory directory, WroteFile path (stringify sheet), RanCommand (CallImport path), RemovedDirectory directory]" by auto
  then have "WroteFile (card_path ''/t'') (stringify sheet) \<in> set (snd (importContactCardJson (se_cards writing_env) sheet))" by simp
  with c l vouched_more [OF \<open>vouched l sheet\<close>] show ?thesis by metis
qed

theorem one_send_one_import_witness:
  "under_way trusts trusting_page = of_bool (pg_importing trusting_page) \<and> page_run trusting_page"
  using one_send_one_import [OF conjunct1 [OF trusting_run]] trusting_run by blast

theorem history_is_the_chosen_contacts_witness:
  "selected_id (page_step (Arrived 0 (Replied 200 (stringify one_entry))) first_page) = Some ''a''
   \<and> pg_history (page_step (Arrived 0 (Replied 200 (stringify one_entry))) first_page) = JArr [JStr ''x'']"
proof -
  let ?e = "Arrived 0 (Replied 200 (stringify one_entry))"
  note f = first_page_state
  have s: "pg_history (page_step ?e first_page) = JArr [JStr ''x'']" "pg_selected (page_step ?e first_page) = Some 0"
    by (simp_all add: arrived_def f settle_flight_def settle_history_def Let_def one_entry_read selected_id_def named_def asks_history_def del: stringify.simps)
  then have "shown (page_step ?e first_page) \<noteq> shown first_page" by (simp add: shown_def f)
  from history_is_the_chosen_contacts [OF f(1) _ this] s show ?thesis by (auto simp: f asks_history_def)
qed

text \<open>The bundle of the examples, with a one-time prekey, as a card the command line imports.\<close>

definition one_time_bundle :: json where
  "one_time_bundle = JObj
     [(''type'', JStr ''signal_prekey_bundle''), (''version'', JNum 2), (''suite'', JStr ''libsignal-pq-v1''),
      (''bundle_id'', JStr sample_uuid), (''created_at_ms'', JNum 5), (''expires_at_ms'', JNum 9),
      (''device_record'', sample_device), (''registration_id'', JNum 7), (''signal_identity_key'', sample_key 33 CHR 0x05),
      (''signed_prekey'', JObj [(''key_id'', JNum 2), (''public_key'', sample_key 33 CHR 0x05), (''signature'', sample_key 64 CHR ''s'')]),
      (''kyber_prekey'', JObj [(''key_id'', JNum 3), (''public_key'', sample_key 1569 CHR 0x08), (''signature'', sample_key 64 CHR ''s'')]),
      (''one_time_prekey'', JObj [(''key_id'', JNum 2), (''public_key'', sample_key 33 CHR 0x05)]),
      (''signature'', sample_key 64 CHR ''s'')]"

definition importable_sheet :: json where
  "importable_sheet = JObj [(''type'', JStr ''echolet_contact_card''), (''version'', JNum 1), (''signal_bundle'', one_time_bundle)]"

lemma importable_accepted: "zparse cardSchema importable_sheet = Some importable_sheet"
proof -
  have "zparse SignalPreKeyBundleV2Schema one_time_bundle = Some one_time_bundle"
    by (simp add: SignalPreKeyBundleV2Schema_def bundle_v2_fields_def one_time_bundle_def originalSignedDevice_def
      accepts_def num_prop_def Let_def del: zparse.simps(1))
  moreover have "jprop one_time_bundle ''one_time_prekey'' \<noteq> JNull" by (simp add: one_time_bundle_def)
  ultimately show ?thesis by (simp add: cardSchema_def importable_sheet_def del: zparse.simps(1))
qed

lemma sample_key_length: "length (stringify (sample_key n c)) \<le> 6 * ((n * 8 + 5) div 6) + 2"
  using quote_length [of "encodeBase64Url (replicate n c)"] by (simp add: sample_key_def length_encode)

lemma importable_size: "length (stringify importable_sheet) \<le> MAX_CONTACT_CARD_BYTES" "wf_json importable_sheet"
proof -
  note k = sample_key_length [of 33 "CHR 0x05"] sample_key_length [of 64 "CHR ''s''"] sample_key_length [of 1569 "CHR 0x08"]
    sample_key_length [of 32 "CHR ''k''"]
  have d: "length (show_int 1) = 1" "length (show_int 2) = 1" "length (show_int 3) = 1" "length (show_int 5) = 1" "length (show_int 7) = 1"
      "length (show_int 9) = 1" by code_simp+
  show "length (stringify importable_sheet) \<le> MAX_CONTACT_CARD_BYTES"
    using k d by (simp add: importable_sheet_def one_time_bundle_def sample_device_def MAX_CONTACT_CARD_BYTES_def quote_def escape_char_def sample_uuid_def)
  have "wf_json (sample_key n c)" for n c by (simp add: sample_key_def)
  then show "wf_json importable_sheet" by (simp add: importable_sheet_def one_time_bundle_def sample_device_def)
qed

theorem page_accepts_importable_cards_witness:
  "parseExportCardResponse 200 (stringify importable_sheet) = Inr (stringify importable_sheet)
   \<and> parseContactCard (stringify importable_sheet) = Inr (importable_sheet,
       \<lparr>cp_identityId = str_prop sample_device ''identity_id'', cp_deviceId = str_prop sample_device ''device_id''\<rparr>)"
proof -
  have "jprop (jprop importable_sheet ''signal_bundle'') ''device_record'' = sample_device"
    by (simp add: importable_sheet_def one_time_bundle_def)
  with page_accepts_importable_cards [OF importable_accepted importable_size(2,1)] show ?thesis by simp
qed

end
