(* ===== verification/Spec2Isabelle.thy ===== *)
theory Spec2Isabelle
  imports CryptoCore Session ConsoleSessions Tools Page
begin

text \<open>
  Verification of Echolet's client side: an end-to-end encrypted messenger whose command line talks to
  an untrusted relay, the operator console and the local web station that drive that command line as
  child processes, the page the station serves, and the operator's tools on the machine they run on. The
  theories follow the program bottom up, and each begins with a text on the files it models.

  \<^bold>\<open>Packages.\<close>
  \<^item> \<open>Prelude\<close>, \<open>Base64\<close>, \<open>Json\<close>, \<open>Schema\<close>: results, state-passing programs (\<open>andThen\<close>), decimal text; the
    base64url codec (\<open>packages/crypto-core/src/encoding\<close>); JSON printing and parsing as the standard
    library does it; and the parser of the schema library's documented behaviour. The locales \<open>codec\<close>
    and \<open>kv_store\<close> are interpreted on these and on the record store.
  \<^item> \<open>CryptoCore\<close>, \<open>Session\<close> (\<open>packages/crypto-core/src\<close>): signatures over canonical JSON, mailbox
    transcripts, key derivation and the message session. The lemmas show which statement a signed
    transcript stands for, and what a session delivers and refuses.
  \<^item> \<open>Protocol\<close> (\<open>packages/protocol/src\<close>): limits, record schemas and the signing text of a bundle.
  \<^item> \<open>Store\<close>, \<open>SignalClient\<close>, \<open>Wire\<close> (\<open>packages/session-node/src\<close>): the encrypted record store and its
    chain of promises (the step relation \<open>queue_reachable\<close> over calls, the sections of callbacks between
    their awaits, faults and \<open>close\<close>), the client over libsignal's store callbacks, and the export and
    import of signed bundles. The lemmas show atomicity, that overlapping calls refine transactions
    performed whole one after another (\<open>serially\<close>), what calls never change, and that a message is
    encrypted and received once.
  \<^item> \<open>Identity\<close> (\<open>packages/client-core/src/identity\<close>): identity profiles and signed records.

  \<^bold>\<open>The command line\<close> (\<open>apps/cli/src\<close>).
  \<^item> \<open>Config\<close>, \<open>History\<close>, \<open>RelayClient\<close>, \<open>Profile\<close>, \<open>OpenProfile\<close>: configuration, store key and transport rule;
    the message log; the relay's HTTP interface; the profile's operations; how a profile is opened.
  \<^item> \<open>Outbound\<close>, \<open>Inbound\<close>, \<open>Delivery\<close>: sending, the poll's walk over the mailbox, and what both cost in
    relay requests and keep of the read position.
  \<^item> \<open>Cli\<close>: argument parsing as \<open>util.parseArgs\<close> does it, the sources of a body and of a confirmation,
    every command, the dispatcher and the classification of failures into codes and exit classes.

  \<^bold>\<open>The operator console\<close> (\<open>apps/cli/src/tui\<close>).
  \<^item> \<open>Display\<close> (\<open>text.ts\<close>, \<open>pane-fit.ts\<close>): code points, the filter for bytes that steer a terminal, and how
    a pane is cut to its rows.
  \<^item> \<open>Operator\<close> (\<open>state.ts\<close>, \<open>intents.ts\<close>, \<open>cli-bridge.ts\<close>, \<open>failure-text.ts\<close>): the state, the argument list
    of every request, the outcome read from a child, and the words for a failure. The lemmas compose it
    with \<open>Cli\<close>: what the console asks for is what the command line executes, and what the command line
    prints is what the console reads.
  \<^item> \<open>Frame\<close> (\<open>modal-host.ts\<close>, the three panes, \<open>shell-chrome.ts\<close>): the whole screen as a function of state
    and size; it fits, it shows the identifiers under confirmation, and it adds no steering bytes.
  \<^item> \<open>Console\<close> (\<open>tui-shell.ts\<close>, \<open>main.ts\<close>): keys, the reducer, the folding of outcomes, and the shell as a
    step relation \<open>session\<close> over key bursts, output of children and their exits.
  \<^item> \<open>ConsoleLaws\<close>, \<open>ConsoleSessions\<close>: invariants of every session. The locale \<open>session_invariant\<close> states
    what a predicate has to survive - the start, a paint, the end of the session, a key, output, an
    exit - and gives it for all reachable shells; it is interpreted for single flight, for trust, for
    leaving and for clean text.

  \<^bold>\<open>The web station\<close> (\<open>apps/web/src/server\<close>), the local server of the browser front end.
  \<^item> \<open>Station\<close> (\<open>requestGuard.ts\<close>, \<open>cliBridge.ts\<close>, \<open>contactCards.ts\<close>, \<open>stationStatus.ts\<close>, \<open>stationApi.ts\<close>):
    who is let in, the commands of the command line run as children, cards in temporary files, and the
    overlapping refreshes of what the station knows. Composed with \<open>Cli\<close>: the station reads what the
    command line reports, and a validation changes nothing.
  \<^item> \<open>StationServer\<close> (\<open>server.ts\<close>): the background poll, bodies, every route and the static files; which
    requests lead to which commands, and the step relation \<open>station_run\<close> of a running station.
  \<^item> \<open>Page\<close> (\<open>apps/web/src/client\<close>: \<open>contactCard.ts\<close>, \<open>stationStatus.ts\<close>, \<open>App.tsx\<close>): the checks of a card, and the
    page as a step relation \<open>page_run\<close> over what the operator does, what the station pushes and the answers
    to the requests under way. The lemmas show what an import rests on (\<open>import_sound\<close>), whose history is
    shown, and that one message is sent at a time. Composed with \<open>StationServer\<close>: the card imported is the
    one validated, the message sent is the one typed, the status shown is the one known; composed with
    \<open>Profile\<close>: no card that can be imported is refused.

  \<^bold>\<open>The operator's machine\<close> (\<open>apps/cli/src/runtime\<close>, \<open>apps/cli/src/operator\<close>), on a record \<open>host\<close> of a tree of files, the
  environment, the lines typed, what is printed and the processes started.
  \<^item> \<open>Host\<close> (\<open>globalPaths.ts\<close>): the tree, JSON with indentation, the directories, the settings and a
    profile's key. The lemmas show that indented JSON is read back, that settings and the active profile
    survive, that a key is made once, and what preparing the directories leaves alone.
  \<^item> \<open>Daemon\<close> (\<open>daemon.ts\<close>): processes in the background, through the file that holds their id.
  \<^item> \<open>Repeater\<close> (\<open>prompts.ts\<close>, \<open>repeaterConfig.ts\<close>, \<open>repeater.ts\<close>): questions, the relay's configuration file and
    its commands; a written configuration is the one read, what Docker is told is contained, the setup
    always ends (\<open>setup_ends\<close>), and a native relay is never given its certificate.
  \<^item> \<open>Tools\<close> (\<open>station.ts\<close>, \<open>profile.ts\<close>, \<open>contact.ts\<close>): every command. Composed with \<open>StationServer\<close>: the server a
    station is started with understands its arguments; composed with \<open>Profile\<close>: the address book shows no
    contact. What a setup and a deletion remove, and that switching takes effect.
\<close>

text \<open>
  \<^bold>\<open>Conventions and bounds.\<close> Strings are their UTF-8 bytes, so a list of characters is a byte string;
  where the source counts UTF-16 units or code points the model has a function for it (\<open>utf16_units\<close>,
  \<open>columns\<close>). JSON numbers are integers: no code here sends or stores another kind. Errors are values
  of \<open>exn\<close> in a sum; a thrown error and the state it leaves are both results. Randomness, clocks and
  storage faults are streams the environment supplies.

  The JSON parser recurses on a fuel of one more than twice the length of the text, and
  \<open>parse_json_fuel\<close> shows that more changes nothing; key derivation takes as many rounds as bytes asked
  for (\<open>hkdf_loop_fuel\<close>); the mailbox walk takes at most the sixteen pages the source allows and the
  acknowledgements as many batches as there are ids.

  Parameters stand for code outside the repository: the cryptographic primitives, libsignal as
  programs over its store callbacks, the authenticated cipher and the database, the URL parser, the
  relay's answers, the file system's answers, \<open>path.resolve\<close>, the names set in the environment. What
  the code relies on is a named hypothesis where a theorem needs it, with a witness.

  In the shell one terminal size holds during one event, the clock may return anything at each reading,
  and completions that the source leaves to the end of the current event run there. The console's
  decoder of a child's output is taken to be given whole characters; the station's is not. A request
  to the station is handled with nothing else in between, except that refreshes of its status and the
  background poll are steps of their own. What the URL parser makes of a request's target is a field
  of the request.

  In the page the effects of a render run at the end of the event that caused it, so every handler sees
  the state it was rendered with. The chosen contact is a position in the list of contacts, which the
  page replaces whole with every status. A request under way carries the number its answer is compared
  with; answers come in any order, fail, or never come. The fields \<open>pg_owner\<close> and \<open>pg_log\<close> are history the
  laws speak of.

  On the operator's machine a file operation fails only for what the tree of files holds, there are no
  symbolic links, a new file has the mode that is asked for, its contents are text, and \<open>ECHOLET_HOME\<close>
  is absolute. Docker's answers, the ids of processes and the operations of an opened profile are
  parameters; what is printed are tags with the values shown, and lines that only announce a step are
  left out, as are the branch for Windows and the health request of the relay's status.

  \<^bold>\<open>Not modelled.\<close> Random generators and the word list; repository interfaces without code; the spawning
  of processes and the terminal's modes (the shell's events stand for them); the repository glue over
  the message session in \<open>packages/client-core/src/sessions\<close>; the banner and the
  help text of the operator's tools; what draws the page, its skins and sounds; and the mobile
  application, which is interface code over the parts above.
\<close>

end
